(* ===== verification/Prelude.thy ===== *)
theory Prelude
  imports Main "HOL-Library.AList" "HOL-Library.Sublist"
    "HOL-Library.Char_ord" "HOL-Library.List_Lexorder"
begin

text \<open>
  Shared vocabulary of the development: loops of the Go code that stop at the first error,
  Go maps filled by a loop of assignments, the loops that drop repeated elements while keeping
  the first occurrence, and the theorem collections the component theories fill.
\<close>

named_theorems validation_simps \<open>what a successful validation says\<close>
named_theorems row_simps \<open>column access and update equations of the table rows\<close>

section \<open>Loops that stop at the first error\<close>

text \<open>
  A Go function whose only result is an \<open>error\<close> becomes a function into \<open>'e option\<close>:
  \<open>None\<close> is the nil error. The loop \<open>for _, x := range xs { if err := f(x); err != nil
  { return err } }\<close> is \<open>first_err f xs\<close>.
\<close>

fun first_err :: "('a \<Rightarrow> 'e option) \<Rightarrow> 'a list \<Rightarrow> 'e option" where
  "first_err f [] = None"
| "first_err f (x # xs) = (case f x of Some e \<Rightarrow> Some e | None \<Rightarrow> first_err f xs)"

lemma first_err_cong [fundef_cong]:
  "xs = ys \<Longrightarrow> (\<And>x. x \<in> set ys \<Longrightarrow> f x = g x) \<Longrightarrow> first_err f xs = first_err g ys"
  by (induction xs arbitrary: ys) (auto split: option.splits)

lemma first_err_None_iff [simp]: "first_err f xs = None \<longleftrightarrow> (\<forall>x\<in>set xs. f x = None)"
  by (induction xs) (auto split: option.splits)

lemma first_err_SomeD:
  "first_err f xs = Some e \<Longrightarrow>
     \<exists>us x vs. xs = us @ x # vs \<and> f x = Some e \<and> (\<forall>u\<in>set us. f u = None)"
proof (induction xs)
  case Nil
  then show ?case by simp
next
  case (Cons y ys)
  show ?case
  proof (cases "f y")
    case None
    with Cons obtain us x vs
      where "ys = us @ x # vs" "f x = Some e" "\<forall>u\<in>set us. f u = None" by auto
    with None have "y # ys = (y # us) @ x # vs \<and> f x = Some e \<and> (\<forall>u\<in>set (y # us). f u = None)"
      by simp
    then show ?thesis by blast
  next
    case (Some e')
    with Cons.prems have "y # ys = [] @ y # ys \<and> f y = Some e \<and> (\<forall>u\<in>set []. f u = None)"
      by simp
    then show ?thesis by blast
  qed
qed

text \<open>Sequencing of two checks: the second runs only when the first returned nil.\<close>

definition and_then :: "'e option \<Rightarrow> 'e option \<Rightarrow> 'e option" where
  "and_then a b = (case a of Some e \<Rightarrow> Some e | None \<Rightarrow> b)"

lemma and_then_None_iff [simp]: "and_then a b = None \<longleftrightarrow> a = None \<and> b = None"
  by (simp add: and_then_def split: option.splits)

lemma and_then_simps [simp]: "and_then None b = b" "and_then (Some e) b = Some e"
  by (simp_all add: and_then_def)

text \<open>
  A Go function with a result and an error becomes a function into \<open>'e + 'a\<close>. A loop that
  appends the result of every element and returns at the first error is \<open>map_err\<close>.
\<close>

definition bind_err :: "'e + 'a \<Rightarrow> ('a \<Rightarrow> 'e + 'b) \<Rightarrow> 'e + 'b" where
  "bind_err m f = (case m of Inl e \<Rightarrow> Inl e | Inr x \<Rightarrow> f x)"

lemma bind_err_simps [simp]: "bind_err (Inl e) f = Inl e" "bind_err (Inr x) f = f x"
  by (simp_all add: bind_err_def)

lemma bind_err_Inr_iff: "bind_err m f = Inr y \<longleftrightarrow> (\<exists>x. m = Inr x \<and> f x = Inr y)"
  by (cases m) auto

lemma bind_err_Inl_iff:
  "bind_err m f = Inl e \<longleftrightarrow> m = Inl e \<or> (\<exists>x. m = Inr x \<and> f x = Inl e)"
  by (cases m) auto

lemma bind_err_cong [fundef_cong]:
  "m = m' \<Longrightarrow> (\<And>x. m' = Inr x \<Longrightarrow> f x = g x) \<Longrightarrow> bind_err m f = bind_err m' g"
  by (cases m') auto

fun map_err :: "('a \<Rightarrow> 'e + 'b) \<Rightarrow> 'a list \<Rightarrow> 'e + 'b list" where
  "map_err f [] = Inr []"
| "map_err f (x # xs) = bind_err (f x) (\<lambda>y. bind_err (map_err f xs) (\<lambda>ys. Inr (y # ys)))"

lemma map_err_Inr: "(\<And>x. x \<in> set xs \<Longrightarrow> f x = Inr (g x)) \<Longrightarrow> map_err f xs = Inr (map g xs)"
  by (induction xs) auto

lemma map_err_InrD: "map_err f xs = Inr ys \<Longrightarrow> list_all2 (\<lambda>x y. f x = Inr y) xs ys"
  by (induction xs arbitrary: ys) (auto simp: bind_err_Inr_iff)

section \<open>Go maps filled by a loop\<close>

text \<open>
  \<open>m := map[K]V{}; for _, x := range xs { m[k(x)] = v(x) }\<close>: a later assignment to a key
  overwrites an earlier one.
\<close>

definition fill_map :: "('a \<Rightarrow> 'k) \<Rightarrow> ('a \<Rightarrow> 'v) \<Rightarrow> 'a list \<Rightarrow> ('k \<rightharpoonup> 'v)" where
  "fill_map k v xs = fold (\<lambda>x m. m(k x \<mapsto> v x)) xs Map.empty"

lemma fold_upd_eq:
  "fold (\<lambda>x m. m(k x \<mapsto> v x)) xs m = m ++ map_of (rev (map (\<lambda>x. (k x, v x)) xs))"
  by (induction xs arbitrary: m) (simp_all add: map_add_def fun_eq_iff split: option.splits)

lemma fill_map_eq: "fill_map k v xs = map_of (rev (map (\<lambda>x. (k x, v x)) xs))"
  by (simp add: fill_map_def fold_upd_eq)

lemma fill_map_Nil [simp]: "fill_map k v [] = Map.empty"
  by (simp add: fill_map_def)

lemma fill_map_snoc [simp]: "fill_map k v (xs @ [x]) = (fill_map k v xs)(k x \<mapsto> v x)"
  by (simp add: fill_map_def)

lemma fill_map_Cons: "fill_map k v (x # xs) = [k x \<mapsto> v x] ++ fill_map k v xs"
  by (simp add: fill_map_eq)

lemma dom_fill_map [simp]: "dom (fill_map k v xs) = k ` set xs"
  by (induction xs) (auto simp: fill_map_Cons)

lemma fill_map_None_iff: "fill_map k v xs i = None \<longleftrightarrow> i \<notin> k ` set xs"
  by (metis domIff dom_fill_map)

lemma fill_map_SomeD: "fill_map k v xs i = Some y \<Longrightarrow> \<exists>x\<in>set xs. k x = i \<and> v x = y"
  by (induction xs rule: rev_induct) (auto split: if_splits)

lemma fill_map_distinct:
  "distinct (map k xs) \<Longrightarrow> x \<in> set xs \<Longrightarrow> fill_map k v xs (k x) = Some (v x)"
  by (induction xs rule: rev_induct) (auto simp: image_iff)

section \<open>Keeping the first occurrences\<close>

text \<open>
  \<open>seen := map[K]bool{}; for ... { if seen[x] { continue }; seen[x] = true; out = append(out, x) }\<close>.
\<close>

fun dedup :: "'a set \<Rightarrow> 'a list \<Rightarrow> 'a list" where
  "dedup seen [] = []"
| "dedup seen (x # xs) =
     (if x \<in> seen then dedup seen xs else x # dedup (insert x seen) xs)"

lemma set_dedup: "set (dedup seen xs) = set xs - seen"
  by (induction xs arbitrary: seen) auto

lemma distinct_dedup: "distinct (dedup seen xs)"
  by (induction xs arbitrary: seen) (auto simp: set_dedup)

lemma dedup_distinct: "distinct xs \<Longrightarrow> set xs \<inter> seen = {} \<Longrightarrow> dedup seen xs = xs"
  by (induction xs arbitrary: seen) auto

section \<open>Lists\<close>

lemma those_Some_map [simp]: "those (map (\<lambda>x. Some (f x)) xs) = Some (map f xs)"
  by (induction xs) auto

lemma those_Some_cong:
  "(\<And>x. x \<in> set xs \<Longrightarrow> f x = Some (g x)) \<Longrightarrow> those (map f xs) = Some (map g xs)"
  by (induction xs) auto

lemma those_SomeD: "those xs = Some ys \<Longrightarrow> map the xs = ys"
  by (induction xs arbitrary: ys) (auto split: option.splits)

lemma in_set_map_filter: "y \<in> set (List.map_filter f xs) \<longleftrightarrow> (\<exists>x \<in> set xs. f x = Some y)"
  by (induction xs) (auto split: option.splits)

lemma distinct_map_eq:
  "distinct (map f xs) \<Longrightarrow> x \<in> set xs \<Longrightarrow> y \<in> set xs \<Longrightarrow> f x = f y \<Longrightarrow> x = y"
  by (auto simp: distinct_map intro: inj_onD)

lemma list_all2_map_same: "(\<And>x. x \<in> set xs \<Longrightarrow> P (f x) (g x)) \<Longrightarrow> list_all2 P (map f xs) (map g xs)"
  by (induction xs) auto

lemma sorted_wrt_map_key_id:
  "sorted_wrt (\<le>) (map f xs) \<Longrightarrow> sort_key f xs = xs"
  by (rule sort_key_id_if_sorted) simp

end
