(* ===== verification/GoStrings.thy ===== *)
theory GoStrings
  imports Prelude
begin

text \<open>
  Go strings and the functions of the standard package \<open>strings\<close> the program calls. A Go string
  is a sequence of bytes, and so is HOL's \<open>string\<close> (a \<open>char\<close> is a byte), so lengths and slices
  agree; a function that works on runes decodes the bytes as UTF-8, as Go's \<open>range\<close> does.
\<close>

section \<open>Prefixes and trimming\<close>

definition HasPrefix :: "string \<Rightarrow> string \<Rightarrow> bool" where
  "HasPrefix s p \<longleftrightarrow> take (length p) s = p"

lemma HasPrefix_iff: "HasPrefix s p \<longleftrightarrow> prefix p s"
  by (auto simp: HasPrefix_def prefix_def) (metis append_take_drop_id)

definition HasSuffix :: "string \<Rightarrow> string \<Rightarrow> bool" where
  "HasSuffix s p \<longleftrightarrow> HasPrefix (rev s) (rev p)"

text \<open>Strip any of the given non-empty byte sequences from the front, as long as one is there.\<close>

function strip_left :: "string list \<Rightarrow> string \<Rightarrow> string" where
  "strip_left ps s =
     (case find (\<lambda>p. p \<noteq> [] \<and> HasPrefix s p) ps of
        None \<Rightarrow> s
      | Some p \<Rightarrow> strip_left ps (drop (length p) s))"
  by pat_completeness auto
termination
proof (relation "measure (\<lambda>(ps, s). length s)", simp)
  fix ps and s p :: string
  assume "find (\<lambda>p. p \<noteq> [] \<and> HasPrefix s p) ps = Some p"
  then have "p \<noteq> []" "prefix p s" by (auto simp: find_Some_iff HasPrefix_iff)
  then have "0 < length p" "length p \<le> length s" by (auto dest: prefix_length_le)
  then have "length s - length p < length s" by linarith
  then show "((ps, drop (length p) s), ps, s) \<in> measure (\<lambda>(ps, s). length s)" by simp
qed

declare strip_left.simps [simp del]

lemma strip_left_suffix: "suffix (strip_left ps s) s"
proof (induction ps s rule: strip_left.induct)
  case (1 ps s)
  show ?case
  proof (cases "find (\<lambda>p. p \<noteq> [] \<and> HasPrefix s p) ps")
    case None
    then show ?thesis by (simp add: strip_left.simps [of ps s])
  next
    case (Some p)
    with 1 have "suffix (strip_left ps (drop (length p) s)) (drop (length p) s)" by blast
    then have "suffix (strip_left ps (drop (length p) s)) s"
      using suffix_drop suffix_order.order_trans by blast
    with Some show ?thesis by (simp add: strip_left.simps [of ps s])
  qed
qed

lemma strip_left_done: "p \<in> set ps \<Longrightarrow> p \<noteq> [] \<Longrightarrow> \<not> prefix p (strip_left ps s)"
proof (induction ps s rule: strip_left.induct)
  case (1 ps s)
  show ?case
  proof (cases "find (\<lambda>p. p \<noteq> [] \<and> HasPrefix s p) ps")
    case None
    then have "strip_left ps s = s" by (simp add: strip_left.simps [of ps s])
    with None 1(2,3) show ?thesis by (auto simp: find_None_iff HasPrefix_iff)
  next
    case (Some q)
    with 1 have "\<not> prefix p (strip_left ps (drop (length q) s))" by blast
    with Some show ?thesis by (simp add: strip_left.simps [of ps s])
  qed
qed

lemma strip_left_id:
  "(\<And>p. p \<in> set ps \<Longrightarrow> p \<noteq> [] \<Longrightarrow> \<not> prefix p s) \<Longrightarrow> strip_left ps s = s"
proof -
  assume "\<And>p. p \<in> set ps \<Longrightarrow> p \<noteq> [] \<Longrightarrow> \<not> prefix p s"
  then have "find (\<lambda>p. p \<noteq> [] \<and> HasPrefix s p) ps = None"
    by (auto simp: find_None_iff HasPrefix_iff)
  then show ?thesis by (simp add: strip_left.simps)
qed

lemma strip_left_idem: "strip_left ps (strip_left ps s) = strip_left ps s"
  by (rule strip_left_id) (rule strip_left_done)

text \<open>
  The white space of \<open>unicode.IsSpace\<close> in UTF-8: the six ASCII characters, U+0085, U+00A0, U+1680,
  U+2000 to U+200A, U+2028, U+2029, U+202F, U+205F and U+3000. UTF-8 is prefix-free and
  self-synchronising, so decoding the first (last) rune and testing it is the same as testing for
  one of these as a prefix (suffix).
\<close>

definition space_runes :: "string list" where
  "space_runes =
     [[CHR 0x09], [CHR 0x0A], [CHR 0x0B], [CHR 0x0C], [CHR 0x0D], [CHR 0x20],
      [CHR 0xC2, CHR 0x85], [CHR 0xC2, CHR 0xA0], [CHR 0xE1, CHR 0x9A, CHR 0x80],
      [CHR 0xE2, CHR 0x80, CHR 0x80], [CHR 0xE2, CHR 0x80, CHR 0x81],
      [CHR 0xE2, CHR 0x80, CHR 0x82], [CHR 0xE2, CHR 0x80, CHR 0x83],
      [CHR 0xE2, CHR 0x80, CHR 0x84], [CHR 0xE2, CHR 0x80, CHR 0x85],
      [CHR 0xE2, CHR 0x80, CHR 0x86], [CHR 0xE2, CHR 0x80, CHR 0x87],
      [CHR 0xE2, CHR 0x80, CHR 0x88], [CHR 0xE2, CHR 0x80, CHR 0x89],
      [CHR 0xE2, CHR 0x80, CHR 0x8A], [CHR 0xE2, CHR 0x80, CHR 0xA8],
      [CHR 0xE2, CHR 0x80, CHR 0xA9], [CHR 0xE2, CHR 0x80, CHR 0xAF],
      [CHR 0xE2, CHR 0x81, CHR 0x9F], [CHR 0xE3, CHR 0x80, CHR 0x80]]"

definition TrimSpace :: "string \<Rightarrow> string" where
  "TrimSpace s = rev (strip_left (map rev space_runes) (rev (strip_left space_runes s)))"

lemma TrimSpace_prefix: "prefix (TrimSpace s) (strip_left space_runes s)"
  using strip_left_suffix [of "map rev space_runes" "rev (strip_left space_runes s)"]
  by (simp add: TrimSpace_def suffix_to_prefix)

text \<open>Trimming a trimmed string changes nothing.\<close>

lemma TrimSpace_idem [simp]: "TrimSpace (TrimSpace s) = TrimSpace s"
proof -
  have "\<not> prefix p (TrimSpace s)" if "p \<in> set space_runes" "p \<noteq> []" for p
    using strip_left_done [OF that] TrimSpace_prefix prefix_order.order_trans by blast
  then have "strip_left space_runes (TrimSpace s) = TrimSpace s"
    by (rule strip_left_id)
  moreover have "strip_left (map rev space_runes) (rev (TrimSpace s)) = rev (TrimSpace s)"
    by (simp add: TrimSpace_def strip_left_idem)
  ultimately show ?thesis
    by (simp add: TrimSpace_def [of "TrimSpace s"])
qed

lemma TrimSpace_Nil [simp]: "TrimSpace [] = []"
  using TrimSpace_prefix [of "[]"] strip_left_suffix [of space_runes "[]"] by simp

text \<open>\<open>strings.TrimRight(s, "/")\<close>: drop every trailing slash.\<close>

definition TrimRightSlash :: "string \<Rightarrow> string" where
  "TrimRightSlash s = rev (dropWhile (\<lambda>c. c = CHR ''/'') (rev s))"

section \<open>Lower case\<close>

text \<open>
  \<open>strings.ToLower\<close> on the bytes: ASCII letters, and the two letters outside ASCII whose lower case
  is an ASCII letter (U+0130 to i, U+212A, the Kelvin sign, to k). Go also changes other letters
  outside ASCII, always to bytes outside ASCII; the program compares the result with ASCII text
  only, so leaving those bytes alone cannot be observed.
\<close>

definition between :: "char \<Rightarrow> char \<Rightarrow> char \<Rightarrow> bool" where
  "between lo hi c \<longleftrightarrow> lo \<le> c \<and> c \<le> hi"

definition is_lower :: "char \<Rightarrow> bool" where "is_lower = between CHR ''a'' CHR ''z''"
definition is_upper :: "char \<Rightarrow> bool" where "is_upper = between CHR ''A'' CHR ''Z''"
definition is_digit :: "char \<Rightarrow> bool" where "is_digit = between CHR ''0'' CHR ''9''"
definition is_alnum :: "char \<Rightarrow> bool" where "is_alnum c \<longleftrightarrow> is_lower c \<or> is_upper c \<or> is_digit c"

lemmas char_class_defs = between_def is_lower_def is_upper_def is_digit_def is_alnum_def

definition lower_char :: "char \<Rightarrow> char" where
  "lower_char c = (if is_upper c then char_of (of_char c + 32 :: nat) else c)"

fun ToLower :: "string \<Rightarrow> string" where
  "ToLower [] = []"
| "ToLower (c # s) =
     (if c = CHR 0xC4 \<and> take 1 s = [CHR 0xB0] then CHR ''i'' # ToLower (drop 1 s)
      else if c = CHR 0xE2 \<and> take 2 s = [CHR 0x84, CHR 0xAA] then CHR ''k'' # ToLower (drop 2 s)
      else lower_char c # ToLower s)"

end
