(* ===== verification/Entity.thy ===== *)
theory Entity
  imports GoStrings "HOL-Library.Word"
begin

text \<open>
  The kernel domain types of package \<open>internal/entity\<close>: nodes and inbounds, panel data, users and
  their connections, subscribers with their proxies and the fleet index, with the methods the
  package defines on them. Traffic counters are \<open>int64\<close> and stay 64-bit words; ids and ports are
  integers. A \<open>uuid.UUID\<close> (package \<open>github.com/google/uuid\<close>) is represented by its canonical text,
  what its \<open>String\<close> method returns.
\<close>

type_synonym i64 = "64 word"
type_synonym UUID = string

definition uuid_Nil :: UUID where
  "uuid_Nil = ''00000000-0000-0000-0000-000000000000''"

section \<open>Sentinel errors (errors.go, validation\_errors.go)\<close>

datatype entity_error =
    ErrInvalidUserName | ErrNameTaken | ErrNodeNameTaken | ErrInboundDuplicate
  | ErrRuleProviderNameTaken | ErrNoConnectionSelected | ErrDescriptionTooLong
  | ErrNodeNotFound | ErrInboundNotFound | ErrInboundReferenced
  | ErrUserConfigExists | ErrUserConfigNotFound
  | PanelClientExistsError string

section \<open>Nodes (node.go)\<close>

record Hysteria2Settings =
  hs_Password :: string
  hs_Obfs :: string
  hs_ObfsPassword :: string
  hs_SNI :: string
  hs_Up :: string
  hs_Down :: string

record Inbound =
  in_ID :: int
  in_Name :: string
  in_Port :: int
  in_Kind :: string
  in_Hysteria2 :: "Hysteria2Settings option"

record Node =
  nd_ID :: int
  nd_Name :: string
  nd_VPNHost :: string
  nd_PanelBaseURL :: string
  nd_PanelBasePath :: string
  nd_Token :: string
  nd_Inbounds :: "Inbound list"

definition InboundKindVLESS :: string where "InboundKindVLESS = ''vless''"
definition InboundKindHysteria2 :: string where "InboundKindHysteria2 = ''hysteria2''"

definition IsHysteria2 :: "Inbound \<Rightarrow> bool" where
  "IsHysteria2 i \<longleftrightarrow> in_Kind i = InboundKindHysteria2"

definition InboundLabel :: "Node \<Rightarrow> Inbound \<Rightarrow> string" where
  "InboundLabel n i = nd_Name n @ ''-'' @ in_Name i"

section \<open>Panel data (panel.go)\<close>

record PanelClient =
  pc_UUID :: UUID
  pc_Email :: string
  pc_Flow :: string
  pc_SubID :: string

record PanelClientStat =
  ps_Email :: string
  ps_UUID :: UUID
  ps_SubID :: string
  ps_Up :: i64
  ps_Down :: i64
  ps_Total :: i64
  ps_Expiry :: i64
  ps_Enable :: bool

record StreamInfo =
  st_Network :: string
  st_Security :: string
  st_PublicKey :: string
  st_ShortID :: string
  st_ServerName :: string
  st_Fingerprint :: string
  st_SNI :: string
  st_ALPN :: "string list"
  st_WSPath :: string
  st_WSHost :: string
  st_GRPCService :: string

record PanelInbound =
  pi_ID :: int
  pi_Port :: int
  pi_Remark :: string
  pi_Enable :: bool
  pi_Stream :: StreamInfo
  pi_Clients :: "PanelClient list"
  pi_Stats :: "PanelClientStat list"

record ClientSpec =
  cs_ID :: UUID
  cs_Email :: string
  cs_Flow :: string
  cs_SubID :: string

record PanelTarget =
  pt_BaseURL :: string
  pt_BasePath :: string
  pt_Token :: string

section \<open>Users (user.go)\<close>

record Connection =
  cn_ID :: int
  cn_UserID :: int
  cn_InboundID :: int
  cn_CreatedAt :: int
  cn_NodeID :: int
  cn_Node :: string
  cn_Name :: string
  cn_Port :: int
  cn_Kind :: string

record User =
  us_ID :: int
  us_Name :: string
  us_SubID :: string
  us_Description :: "string option"
  us_CreatedAt :: int
  us_Connections :: "Connection list"

record UserCreateParams =
  uc_Name :: string
  uc_Description :: "string option"
  uc_InboundIDs :: "int list"

record UserEditParams =
  ue_ID :: int
  ue_Description :: "string option"
  ue_InboundIDs :: "int list"

section \<open>Subscribers and the fleet (fleet.go)\<close>

record VLESSProxy =
  vl_Server :: string
  vl_Port :: int
  vl_UUID :: UUID
  vl_Flow :: string
  vl_Network :: string
  vl_Security :: string
  vl_PublicKey :: string
  vl_ShortID :: string
  vl_ServerName :: string
  vl_Fingerprint :: string
  vl_SNI :: string
  vl_ALPN :: "string list"
  vl_WSPath :: string
  vl_WSHost :: string
  vl_GRPCService :: string

record Hysteria2Proxy =
  hy_Server :: string
  hy_Port :: int
  hy_Password :: string
  hy_Obfs :: string
  hy_ObfsPassword :: string
  hy_SNI :: string
  hy_Up :: string
  hy_Down :: string

record Proxy =
  px_Name :: string
  px_InboundID :: int
  px_VLESS :: "VLESSProxy option"
  px_Hysteria2 :: "Hysteria2Proxy option"

text \<open>"Exactly one of the following is non-nil": the invariant of a proxy's two variants.\<close>

definition proxy_wf :: "Proxy \<Rightarrow> bool" where
  "proxy_wf p \<longleftrightarrow> (px_VLESS p = None) \<noteq> (px_Hysteria2 p = None)"

record Subscriber =
  sb_SubID :: string
  sb_Emails :: "string list"
  sb_Proxies :: "Proxy list"
  sb_Up :: i64
  sb_Down :: i64
  sb_Total :: i64
  sb_Expiry :: i64

definition new_subscriber :: "string \<Rightarrow> Subscriber" where
  "new_subscriber subID =
     \<lparr>sb_SubID = subID, sb_Emails = [], sb_Proxies = [],
      sb_Up = 0, sb_Down = 0, sb_Total = 0, sb_Expiry = 0\<rparr>"

definition AddEmail :: "Subscriber \<Rightarrow> string \<Rightarrow> Subscriber" where
  "AddEmail s email =
     (if email = [] then s
      else if email \<in> set (sb_Emails s) then s
      else s\<lparr>sb_Emails := sb_Emails s @ [email]\<rparr>)"

text \<open>The map of pointers to subscribers is a map to their current values.\<close>

record Fleet =
  fl_Subs :: "string \<rightharpoonup> Subscriber"
  fl_ClientsByInbound :: "int \<rightharpoonup> string set"

definition ClientMissing :: "Fleet option \<Rightarrow> int \<Rightarrow> string \<Rightarrow> bool" where
  "ClientMissing f inboundID email =
     (case f of
        None \<Rightarrow> False
      | Some fl \<Rightarrow>
          (case fl_ClientsByInbound fl inboundID of
             None \<Rightarrow> False
           | Some clients \<Rightarrow> email \<notin> clients))"

definition Fleet_Sub :: "Fleet option \<Rightarrow> string \<Rightarrow> Subscriber option" where
  "Fleet_Sub f subID = (case f of None \<Rightarrow> None | Some fl \<Rightarrow> fl_Subs fl subID)"

lemma AddEmail_sel [simp]:
  "sb_SubID (AddEmail s e) = sb_SubID s" "sb_Proxies (AddEmail s e) = sb_Proxies s"
  "sb_Up (AddEmail s e) = sb_Up s" "sb_Down (AddEmail s e) = sb_Down s"
  "sb_Total (AddEmail s e) = sb_Total s" "sb_Expiry (AddEmail s e) = sb_Expiry s"
  by (simp_all add: AddEmail_def)

lemma set_AddEmail [simp]:
  "set (sb_Emails (AddEmail s e)) = set (sb_Emails s) \<union> (if e = [] then {} else {e})"
  by (auto simp: AddEmail_def)

lemma distinct_AddEmail: "distinct (sb_Emails s) \<Longrightarrow> distinct (sb_Emails (AddEmail s e))"
  by (simp add: AddEmail_def)

end
