(* ===== verification/Store.thy ===== *)
theory Store
  imports Entity
begin

text \<open>
  The SQLite database the repositories work on (schema: \<open>migrations/*.sql\<close> after the last
  migration). A table is the list of its rows in insertion order, an AUTOINCREMENT key keeps its
  \<open>sqlite_sequence\<close> value beside the table, and a statement succeeds only when the resulting
  database satisfies the CHECK, UNIQUE and FOREIGN KEY constraints, which SQLite enforces at the
  end of each statement. The column constraints NOT NULL hold by the row types. Failures of the
  device or a cancelled context are outside the model.
\<close>

section \<open>Rows\<close>

record node_row =
  no_id :: int
  no_name :: string
  no_vpn_host :: string
  no_base_url :: string
  no_base_path :: string
  no_token :: string
  no_created :: int

record inbound_row =
  ir_id :: int
  ir_node :: int
  ir_name :: string
  ir_port :: int
  ir_kind :: string
  ir_settings :: "string option"

record user_row =
  ur_id :: int
  ur_name :: string
  ur_sub :: string
  ur_description :: "string option"
  ur_created :: int

record conn_row =
  cr_id :: int
  cr_user :: int
  cr_inbound :: int
  cr_created :: int

record config_row =
  cf_id :: int
  cf_user :: "int option"
  cf_kind :: string
  cf_created :: int

record group_row =
  gr_id :: int
  gr_config :: int
  gr_position :: int
  gr_name :: string
  gr_type :: string
  gr_url :: string
  gr_interval :: "int option"
  gr_tolerance :: "int option"
  gr_lazy :: "int option"

record member_row =
  mr_id :: int
  mr_group :: int
  mr_position :: int
  mr_kind :: string
  mr_inbound :: "int option"
  mr_ref :: "int option"

record rule_row =
  rl_id :: int
  rl_config :: int
  rl_parent :: "int option"
  rl_position :: int
  rl_type :: string
  rl_value :: "string option"
  rl_provider :: "int option"
  rl_no_resolve :: int
  rl_kind :: "string option"
  rl_inbound :: "int option"
  rl_group :: "int option"

record provider_row =
  pv_id :: int
  pv_config :: int
  pv_name :: string
  pv_behavior :: string
  pv_format :: string
  pv_mirror :: int
  pv_url :: string
  pv_interval :: int
  pv_mirror_interval :: int

record setting_row =
  sr_config :: int
  sr_key :: string
  sr_value :: string

record profile_row =
  fr_config :: int
  fr_title :: string
  fr_filename :: string
  fr_update_interval :: int

section \<open>The database\<close>

record db =
  db_nodes :: "node_row list"
  db_inbounds :: "inbound_row list"
  db_users :: "user_row list"
  db_conns :: "conn_row list"
  db_configs :: "config_row list"
  db_groups :: "group_row list"
  db_members :: "member_row list"
  db_rules :: "rule_row list"
  db_providers :: "provider_row list"
  db_settings :: "setting_row list"
  db_profiles :: "profile_row list"
  sq_nodes :: int
  sq_inbounds :: int
  sq_users :: int
  sq_conns :: int
  sq_configs :: int
  sq_groups :: int
  sq_members :: int
  sq_providers :: int

definition empty_db :: db where
  "empty_db =
     \<lparr>db_nodes = [], db_inbounds = [], db_users = [], db_conns = [], db_configs = [],
      db_groups = [], db_members = [], db_rules = [], db_providers = [], db_settings = [],
      db_profiles = [], sq_nodes = 0, sq_inbounds = 0, sq_users = 0, sq_conns = 0,
      sq_configs = 0, sq_groups = 0, sq_members = 0, sq_providers = 0\<rparr>"

section \<open>Constraints\<close>

definition member_check :: "member_row \<Rightarrow> bool" where
  "member_check m \<longleftrightarrow>
     ((mr_kind m = ''inbound'') = (mr_inbound m \<noteq> None)) \<and>
     ((mr_kind m = ''group'') = (mr_ref m \<noteq> None))"

text \<open>With a NULL target kind the second CHECK evaluates to NULL, which passes.\<close>

definition rule_check :: "rule_row \<Rightarrow> bool" where
  "rule_check r \<longleftrightarrow>
     ((rl_parent r = None) = (rl_kind r \<noteq> None)) \<and>
     (case rl_kind r of
        None \<Rightarrow> True
      | Some k \<Rightarrow>
          ((k = ''inbound'') = (rl_inbound r \<noteq> None)) \<and> ((k = ''group'') = (rl_group r \<noteq> None)))"

definition checks_ok :: "db \<Rightarrow> bool" where
  "checks_ok db \<longleftrightarrow> list_all member_check (db_members db) \<and> list_all rule_check (db_rules db)"

definition uniq_ok :: "db \<Rightarrow> bool" where
  "uniq_ok db \<longleftrightarrow>
     distinct (map no_id (db_nodes db)) \<and> distinct (map no_name (db_nodes db)) \<and>
     distinct (map ir_id (db_inbounds db)) \<and>
     distinct (map (\<lambda>i. (ir_node i, ir_name i)) (db_inbounds db)) \<and>
     distinct (map (\<lambda>i. (ir_node i, ir_port i)) (db_inbounds db)) \<and>
     distinct (map ur_id (db_users db)) \<and> distinct (map ur_name (db_users db)) \<and>
     distinct (map ur_sub (db_users db)) \<and>
     distinct (map cr_id (db_conns db)) \<and>
     distinct (map (\<lambda>c. (cr_user c, cr_inbound c)) (db_conns db)) \<and>
     distinct (map cf_id (db_configs db)) \<and>
     distinct (map (\<lambda>c. (case cf_user c of None \<Rightarrow> 0 | Some u \<Rightarrow> u, cf_kind c)) (db_configs db)) \<and>
     distinct (map gr_id (db_groups db)) \<and>
     distinct (map (\<lambda>g. (gr_config g, gr_name g)) (db_groups db)) \<and>
     distinct (map mr_id (db_members db)) \<and>
     distinct (map rl_id (db_rules db)) \<and>
     distinct (map pv_id (db_providers db)) \<and>
     distinct (map (\<lambda>p. (pv_config p, pv_name p)) (db_providers db)) \<and>
     distinct (map (\<lambda>s. (sr_config s, sr_key s)) (db_settings db)) \<and>
     distinct (map fr_config (db_profiles db))"

definition ref_in :: "int option \<Rightarrow> int list \<Rightarrow> bool" where
  "ref_in x ids \<longleftrightarrow> (case x of None \<Rightarrow> True | Some i \<Rightarrow> i \<in> set ids)"

definition fk_ok :: "db \<Rightarrow> bool" where
  "fk_ok db \<longleftrightarrow>
     (let inbounds = map ir_id (db_inbounds db); users = map ur_id (db_users db);
          configs = map cf_id (db_configs db); groups = map gr_id (db_groups db);
          rules = map rl_id (db_rules db); providers = map pv_id (db_providers db)
      in list_all (\<lambda>i. ir_node i \<in> set (map no_id (db_nodes db))) (db_inbounds db) \<and>
         list_all (\<lambda>c. cr_user c \<in> set users \<and> cr_inbound c \<in> set inbounds) (db_conns db) \<and>
         list_all (\<lambda>c. ref_in (cf_user c) users) (db_configs db) \<and>
         list_all (\<lambda>g. gr_config g \<in> set configs) (db_groups db) \<and>
         list_all (\<lambda>m. mr_group m \<in> set groups \<and> ref_in (mr_inbound m) inbounds \<and>
                       ref_in (mr_ref m) groups) (db_members db) \<and>
         list_all (\<lambda>r. rl_config r \<in> set configs \<and> ref_in (rl_parent r) rules \<and>
                       ref_in (rl_provider r) providers \<and> ref_in (rl_inbound r) inbounds \<and>
                       ref_in (rl_group r) groups) (db_rules db) \<and>
         list_all (\<lambda>p. pv_config p \<in> set configs) (db_providers db) \<and>
         list_all (\<lambda>s. sr_config s \<in> set configs) (db_settings db) \<and>
         list_all (\<lambda>f. fr_config f \<in> set configs) (db_profiles db))"

definition constraints_ok :: "db \<Rightarrow> bool" where
  "constraints_ok db \<longleftrightarrow> checks_ok db \<and> uniq_ok db \<and> fk_ok db"

section \<open>Statements and errors\<close>

datatype constraint = CheckViolation | UniqueViolation | ForeignKeyViolation

text \<open>
  The errors a repository returns: a domain sentinel, a constraint violation reported by the
  driver, or an error made with \<open>fmt.Errorf\<close>.
\<close>

datatype repo_error = Domain entity_error | DBErr constraint | Internal string

definition IsUniqueViolation :: "repo_error \<Rightarrow> bool" where
  "IsUniqueViolation e \<longleftrightarrow> e = DBErr UniqueViolation"

definition IsForeignKeyViolation :: "repo_error \<Rightarrow> bool" where
  "IsForeignKeyViolation e \<longleftrightarrow> e = DBErr ForeignKeyViolation"

definition exec :: "(db \<Rightarrow> db) \<Rightarrow> db \<Rightarrow> repo_error + db" where
  "exec f db =
     (let db' = f db
      in if \<not> checks_ok db' then Inl (DBErr CheckViolation)
         else if \<not> uniq_ok db' then Inl (DBErr UniqueViolation)
         else if \<not> fk_ok db' then Inl (DBErr ForeignKeyViolation)
         else Inr db')"

text \<open>A transaction: everything it did is undone when it returns an error.\<close>

definition in_tx :: "(db \<Rightarrow> repo_error + ('a \<times> db)) \<Rightarrow> db \<Rightarrow> (repo_error + 'a) \<times> db" where
  "in_tx f db = (case f db of Inl e \<Rightarrow> (Inl e, db) | Inr (x, db') \<Rightarrow> (Inr x, db'))"

lemma exec_Inr_iff: "exec f db = Inr db' \<longleftrightarrow> db' = f db \<and> constraints_ok (f db)"
  by (auto simp: exec_def constraints_ok_def Let_def)

lemma in_tx_atomic: "in_tx f db = (Inl e, db') \<Longrightarrow> db' = db"
  by (auto simp: in_tx_def split: sum.splits prod.splits)

section \<open>AUTOINCREMENT\<close>

text \<open>
  A new row gets one more than the largest id ever used: the maximum of the stored sequence and
  the ids in the table.
\<close>

definition auto_base :: "('r \<Rightarrow> int) \<Rightarrow> int \<Rightarrow> 'r list \<Rightarrow> int" where
  "auto_base get_id sq rows = fold max (map get_id rows) sq"

fun number_from :: "(int \<Rightarrow> 'r \<Rightarrow> 'r) \<Rightarrow> int \<Rightarrow> 'r list \<Rightarrow> 'r list" where
  "number_from set_id n [] = []"
| "number_from set_id n (r # rs) = set_id n r # number_from set_id (n + 1) rs"

lemma length_number_from [simp]: "length (number_from set_id n rs) = length rs"
  by (induction rs arbitrary: n) auto

lemma map_number_from:
  "(\<And>i r. f (set_id i r) = f r) \<Longrightarrow> map f (number_from set_id n rs) = map f rs"
  by (induction rs arbitrary: n) auto

lemma fold_max_ge: "(sq :: int) \<le> fold max is sq" "i \<in> set is \<Longrightarrow> i \<le> fold max is sq"
proof (induction "is" arbitrary: sq)
  case (Cons j js)
  { case 1 show ?case using Cons.IH(1) [of "max j sq"] by simp }
  { case 2 then show ?case using Cons.IH(1) [of "max j sq"] Cons.IH(2) [of "max j sq"] by auto }
qed auto

lemma auto_base_ge: "r \<in> set rows \<Longrightarrow> get_id r \<le> auto_base get_id sq rows"
  unfolding auto_base_def by (rule fold_max_ge) simp

locale autoinc =
  fixes get_id :: "'r \<Rightarrow> int" and set_id :: "int \<Rightarrow> 'r \<Rightarrow> 'r"
  assumes get_set: "get_id (set_id i r) = i"
begin

lemma ids_number_from: "map get_id (number_from set_id n rs) = [n .. n + int (length rs) - 1]"
proof (induction rs arbitrary: n)
  case (Cons r rs)
  have "[n .. n + int (length (r # rs)) - 1] = n # [n + 1 .. n + int (length (r # rs)) - 1]"
    by (rule upto_rec1) simp
  with Cons.IH [of "n + 1"] show ?case by (simp add: get_set algebra_simps)
qed simp

lemma distinct_insert:
  assumes "distinct (map get_id rows)"
  shows "distinct (map get_id (rows @ number_from set_id (auto_base get_id sq rows + 1) rs))"
proof -
  have "get_id r \<le> auto_base get_id sq rows" if "r \<in> set rows" for r
    using that by (rule auto_base_ge)
  then show ?thesis
    using assms by (fastforce simp: ids_number_from)
qed

lemma new_ids_above:
  "r \<in> set rows \<Longrightarrow> i \<in> set (map get_id (number_from set_id (auto_base get_id sq rows + 1) rs)) \<Longrightarrow>
     get_id r < i"
  using auto_base_ge [of r rows get_id sq] by (simp only: ids_number_from) simp

lemma ids_sorted: "sorted (map get_id (number_from set_id n rs))"
  by (simp add: ids_number_from)

lemma nth_id: "k < length rs \<Longrightarrow> get_id (number_from set_id n rs ! k) = n + int k"
  by (induction rs arbitrary: n k) (auto simp: nth_Cons' get_set)

end

definition set_gr_id :: "int \<Rightarrow> group_row \<Rightarrow> group_row" where "set_gr_id i r = r\<lparr>gr_id := i\<rparr>"
definition set_mr_id :: "int \<Rightarrow> member_row \<Rightarrow> member_row" where "set_mr_id i r = r\<lparr>mr_id := i\<rparr>"
definition set_pv_id :: "int \<Rightarrow> provider_row \<Rightarrow> provider_row" where "set_pv_id i r = r\<lparr>pv_id := i\<rparr>"
definition set_cf_id :: "int \<Rightarrow> config_row \<Rightarrow> config_row" where "set_cf_id i r = r\<lparr>cf_id := i\<rparr>"

interpretation gids: autoinc gr_id set_gr_id
  by unfold_locales (simp add: set_gr_id_def)

interpretation mids: autoinc mr_id set_mr_id
  by unfold_locales (simp add: set_mr_id_def)

interpretation pids: autoinc pv_id set_pv_id
  by unfold_locales (simp add: set_pv_id_def)

interpretation cids: autoinc cf_id set_cf_id
  by unfold_locales (simp add: set_cf_id_def)

section \<open>INSERT and DELETE on the tables of a subscription config\<close>

definition insert_groups :: "group_row list \<Rightarrow> db \<Rightarrow> db" where
  "insert_groups rows db =
     (let b = auto_base gr_id (sq_groups db) (db_groups db)
      in db\<lparr>db_groups := db_groups db @ number_from set_gr_id (b + 1) rows,
            sq_groups := b + int (length rows)\<rparr>)"

definition insert_members :: "member_row list \<Rightarrow> db \<Rightarrow> db" where
  "insert_members rows db =
     (let b = auto_base mr_id (sq_members db) (db_members db)
      in db\<lparr>db_members := db_members db @ number_from set_mr_id (b + 1) rows,
            sq_members := b + int (length rows)\<rparr>)"

definition insert_providers :: "provider_row list \<Rightarrow> db \<Rightarrow> db" where
  "insert_providers rows db =
     (let b = auto_base pv_id (sq_providers db) (db_providers db)
      in db\<lparr>db_providers := db_providers db @ number_from set_pv_id (b + 1) rows,
            sq_providers := b + int (length rows)\<rparr>)"

definition insert_rules :: "rule_row list \<Rightarrow> db \<Rightarrow> db" where
  "insert_rules rows db = db\<lparr>db_rules := db_rules db @ rows\<rparr>"

text \<open>
  ON DELETE CASCADE. Deleting rules deletes their sub-rules, theirs and so on: each round of the
  loop removes the rows whose parent went in the round before, and a round that removes nothing is
  the last, so the number of rows bounds the rounds.
\<close>

fun cascade_rules :: "nat \<Rightarrow> int set \<Rightarrow> rule_row list \<Rightarrow> rule_row list" where
  "cascade_rules 0 ids rows = rows"
| "cascade_rules (Suc n) ids rows =
     (let gone = filter (\<lambda>r. case rl_parent r of None \<Rightarrow> False | Some p \<Rightarrow> p \<in> ids) rows
      in if gone = [] then rows
         else cascade_rules n (set (map rl_id gone))
                (filter (\<lambda>r. case rl_parent r of None \<Rightarrow> True | Some p \<Rightarrow> p \<notin> ids) rows))"

definition delete_rules :: "(rule_row \<Rightarrow> bool) \<Rightarrow> db \<Rightarrow> db" where
  "delete_rules P db =
     db\<lparr>db_rules := cascade_rules (length (db_rules db))
          (set (map rl_id (filter P (db_rules db)))) (filter (\<lambda>r. \<not> P r) (db_rules db))\<rparr>"

definition delete_members :: "(member_row \<Rightarrow> bool) \<Rightarrow> db \<Rightarrow> db" where
  "delete_members P db = db\<lparr>db_members := filter (\<lambda>m. \<not> P m) (db_members db)\<rparr>"

definition delete_groups :: "(group_row \<Rightarrow> bool) \<Rightarrow> db \<Rightarrow> db" where
  "delete_groups P db =
     (let gone = map gr_id (filter P (db_groups db))
      in db\<lparr>db_groups := filter (\<lambda>g. \<not> P g) (db_groups db),
            db_members := filter (\<lambda>m. mr_group m \<notin> set gone) (db_members db)\<rparr>)"

definition delete_providers :: "(provider_row \<Rightarrow> bool) \<Rightarrow> db \<Rightarrow> db" where
  "delete_providers P db = db\<lparr>db_providers := filter (\<lambda>p. \<not> P p) (db_providers db)\<rparr>"

text \<open>INSERT with ON CONFLICT DO UPDATE: replace the row with the same key, or append.\<close>

fun upsert :: "('r \<Rightarrow> 'k) \<Rightarrow> 'r \<Rightarrow> 'r list \<Rightarrow> 'r list" where
  "upsert key x [] = [x]"
| "upsert key x (r # rs) = (if key r = key x then x # rs else r # upsert key x rs)"

lemma upsert_find:
  "find (\<lambda>r. key r = k) (upsert key x rs) =
     (if key x = k then Some x else find (\<lambda>r. key r = k) rs)"
  by (induction rs) auto

lemma set_upsert: "set (upsert key x rs) \<subseteq> insert x (set rs)"
  by (induction rs) auto

lemma upsert_filter_other:
  "\<not> P x \<Longrightarrow> (\<And>r. r \<in> set rs \<Longrightarrow> key r = key x \<Longrightarrow> \<not> P r) \<Longrightarrow>
     filter P (upsert key x rs) = filter P rs"
  by (induction rs) auto

lemma keys_upsert: "key ` set (upsert key x rs) = insert (key x) (key ` set rs)"
  by (induction rs) auto

lemma distinct_upsert: "distinct (map key rs) \<Longrightarrow> distinct (map key (upsert key x rs))"
proof (induction rs)
  case (Cons r rs)
  then show ?case using keys_upsert [of key x rs] by (auto simp: image_iff)
qed simp

section \<open>How the statements act on each table\<close>

lemma cascade_rules_none:
  "(\<And>r p. r \<in> set rows \<Longrightarrow> rl_parent r = Some p \<Longrightarrow> p \<notin> ids) \<Longrightarrow> cascade_rules n ids rows = rows"
  by (cases n) (auto simp: Let_def filter_empty_conv split: option.splits)

lemma cascade_rules_subset: "set (cascade_rules n ids rows) \<subseteq> set rows"
proof (induction n arbitrary: ids rows)
  case (Suc n)
  show ?case using Suc [of _ "filter _ rows"] by (auto simp: Let_def)
qed simp

end
