(* ===== verification/MihomoTypes.thy ===== *)
theory MihomoTypes
  imports GoStrings
begin

text \<open>
  The schema of the mihomo configuration, package \<open>internal/mihomo\<close>: policy references, proxy-group
  and rule types with their registries, the domain types read back from the store and the draft
  types of a save, with the field invariants the \<open>Valid\<close> methods check. Go's string enums stay
  strings, because a decoded request carries any string until validation.
\<close>

section \<open>Sentinel errors (errors.go)\<close>

datatype mihomo_error =
    ErrGroupNameEmpty | ErrGroupNameTaken | ErrGroupUnknownType | ErrGroupNoMembers
  | ErrGroupCycle | ErrGroupFieldNotAllowed
  | ErrBadRef | ErrGroupRefRange
  | ErrUnknownRuleType | ErrMatchNotLast | ErrRuleValueRequired | ErrRulePayloadNotAllowed
  | ErrNoResolveUnsupported | ErrProviderRefRange
  | ErrChildrenNotAllowed | ErrNotArity | ErrLogicalArity | ErrMatchChild
  | ErrTargetRequired | ErrChildTarget
  | ErrProviderNameEmpty | ErrProviderBadBehavior | ErrProviderBadFormat | ErrProviderURLEmpty
  | ErrBaseYAMLInvalid | ErrGeneratedKeyPresent
  | ErrProfileTitleEmpty | ErrProfileFilenameEmpty | ErrProfileFilenameInvalid
  | ErrProfileUpdateIntervalInvalid

section \<open>Policy references (policy\_ref.go)\<close>

type_synonym PolicyKind = string

definition PolicyDirect :: PolicyKind where "PolicyDirect = ''direct''"
definition PolicyReject :: PolicyKind where "PolicyReject = ''reject''"
definition PolicyRejectDrop :: PolicyKind where "PolicyRejectDrop = ''reject-drop''"
definition PolicyRejectNoDrop :: PolicyKind where "PolicyRejectNoDrop = ''reject-no-drop''"
definition PolicyPass :: PolicyKind where "PolicyPass = ''pass''"
definition PolicyInbound :: PolicyKind where "PolicyInbound = ''inbound''"
definition PolicyGroup :: PolicyKind where "PolicyGroup = ''group''"

lemmas policy_kinds = PolicyDirect_def PolicyReject_def PolicyRejectDrop_def
  PolicyRejectNoDrop_def PolicyPass_def PolicyInbound_def PolicyGroup_def

definition PolicyKind_Valid :: "PolicyKind \<Rightarrow> bool" where
  "PolicyKind_Valid k \<longleftrightarrow>
     k \<in> set [PolicyDirect, PolicyReject, PolicyRejectDrop, PolicyRejectNoDrop, PolicyPass,
              PolicyInbound, PolicyGroup]"

definition BuiltinPolicyKinds :: "PolicyKind list" where
  "BuiltinPolicyKinds =
     [PolicyDirect, PolicyReject, PolicyRejectDrop, PolicyRejectNoDrop, PolicyPass]"

definition PolicyCategories :: "string list" where
  "PolicyCategories = [''actions'', ''inbounds'', ''groups'']"

record PolicyRef =
  pr_Kind :: PolicyKind
  pr_InboundID :: "int option"
  pr_GroupID :: "int option"

definition PolicyRef_Valid :: "PolicyRef \<Rightarrow> bool" where
  "PolicyRef_Valid r =
     (if \<not> PolicyKind_Valid (pr_Kind r) then False
      else if (pr_Kind r = PolicyInbound) \<noteq> (pr_InboundID r \<noteq> None) then False
      else if (pr_Kind r = PolicyGroup) \<noteq> (pr_GroupID r \<noteq> None) then False
      else True)"

lemma PolicyInbound_neq_PolicyGroup [simp]:
  "PolicyInbound \<noteq> PolicyGroup" "PolicyGroup \<noteq> PolicyInbound"
  by (simp_all add: policy_kinds)

lemma PolicyKind_Valid_cases:
  "PolicyKind_Valid k \<longleftrightarrow> k \<in> set BuiltinPolicyKinds \<or> k = PolicyInbound \<or> k = PolicyGroup"
  by (auto simp: PolicyKind_Valid_def BuiltinPolicyKinds_def)

lemma PolicyKind_Valid_refs [simp]: "PolicyKind_Valid PolicyInbound" "PolicyKind_Valid PolicyGroup"
  by (simp_all add: PolicyKind_Valid_cases)

section \<open>Proxy-group types (proxy\_group.go)\<close>

type_synonym ProxyGroupType = string

definition GroupSelect :: ProxyGroupType where "GroupSelect = ''select''"
definition GroupURLTest :: ProxyGroupType where "GroupURLTest = ''url-test''"
definition GroupFallback :: ProxyGroupType where "GroupFallback = ''fallback''"
definition GroupLoadBalance :: ProxyGroupType where "GroupLoadBalance = ''load-balance''"
definition GroupRelay :: ProxyGroupType where "GroupRelay = ''relay''"

lemmas group_types = GroupSelect_def GroupURLTest_def GroupFallback_def GroupLoadBalance_def
  GroupRelay_def

record ProxyGroupTypeOptions =
  gto_UsesHealthCheck :: bool
  gto_UsesTolerance :: bool

definition proxyGroupTypes :: "(ProxyGroupType \<times> ProxyGroupTypeOptions) list" where
  "proxyGroupTypes =
     [(GroupSelect, \<lparr>gto_UsesHealthCheck = False, gto_UsesTolerance = False\<rparr>),
      (GroupURLTest, \<lparr>gto_UsesHealthCheck = True, gto_UsesTolerance = True\<rparr>),
      (GroupFallback, \<lparr>gto_UsesHealthCheck = True, gto_UsesTolerance = False\<rparr>),
      (GroupLoadBalance, \<lparr>gto_UsesHealthCheck = True, gto_UsesTolerance = False\<rparr>),
      (GroupRelay, \<lparr>gto_UsesHealthCheck = False, gto_UsesTolerance = False\<rparr>)]"

text \<open>Indexing a Go map at a missing key gives the zero options: both flags false.\<close>

definition group_opts :: "ProxyGroupType \<Rightarrow> ProxyGroupTypeOptions" where
  "group_opts t =
     (case map_of proxyGroupTypes t of
        Some opts \<Rightarrow> opts
      | None \<Rightarrow> \<lparr>gto_UsesHealthCheck = False, gto_UsesTolerance = False\<rparr>)"

definition ProxyGroupType_Valid :: "ProxyGroupType \<Rightarrow> bool" where
  "ProxyGroupType_Valid t \<longleftrightarrow> map_of proxyGroupTypes t \<noteq> None"

definition UsesHealthCheck :: "ProxyGroupType \<Rightarrow> bool" where
  "UsesHealthCheck t = gto_UsesHealthCheck (group_opts t)"

definition UsesTolerance :: "ProxyGroupType \<Rightarrow> bool" where
  "UsesTolerance t = gto_UsesTolerance (group_opts t)"

lemma UsesTolerance_iff: "UsesTolerance t \<longleftrightarrow> t = GroupURLTest"
  by (simp add: UsesTolerance_def group_opts_def proxyGroupTypes_def group_types)

lemma UsesHealthCheck_iff:
  "UsesHealthCheck t \<longleftrightarrow> t = GroupURLTest \<or> t = GroupFallback \<or> t = GroupLoadBalance"
  by (simp add: UsesHealthCheck_def group_opts_def proxyGroupTypes_def group_types)

record ProxyGroup =
  pg_ID :: int
  pg_Position :: int
  pg_Name :: string
  pg_Type :: ProxyGroupType
  pg_URL :: string
  pg_Interval :: "int option"
  pg_Tolerance :: "int option"
  pg_Lazy :: "bool option"
  pg_Members :: "PolicyRef list"

section \<open>Rule-providers, reserved keys and the profile (routing.go, profile.go)\<close>

record RuleProvider =
  rp_ID :: int
  rp_Name :: string
  rp_Behavior :: string
  rp_Format :: string
  rp_Mirror :: bool
  rp_URL :: string
  rp_Interval :: int
  rp_MirrorInterval :: int

definition RuleProviderBehaviors :: "string list" where
  "RuleProviderBehaviors = [''domain'', ''ipcidr'', ''classical'']"

definition RuleProviderFormats :: "string list" where
  "RuleProviderFormats = [''mrs'', ''yaml'', ''text'']"

definition GeneratedKeys :: "string list" where
  "GeneratedKeys = [''proxies'', ''proxy-groups'', ''rules'', ''rule-providers'', ''sub-rules'']"

record Profile =
  pf_Title :: string
  pf_Filename :: string
  pf_UpdateInterval :: int

section \<open>Rule types (routing\_rule.go)\<close>

type_synonym RuleType = string

definition RuleRuleSet :: RuleType where "RuleRuleSet = ''RULE-SET''"
definition RuleMatch :: RuleType where "RuleMatch = ''MATCH''"
definition RuleAnd :: RuleType where "RuleAnd = ''AND''"
definition RuleOr :: RuleType where "RuleOr = ''OR''"
definition RuleNot :: RuleType where "RuleNot = ''NOT''"

lemmas rule_types = RuleRuleSet_def RuleMatch_def RuleAnd_def RuleOr_def RuleNot_def

record RuleTypeOptions =
  rto_TakesProvider :: bool
  rto_SupportsNoResolve :: bool
  rto_Logical :: bool

definition no_opts :: RuleTypeOptions where
  "no_opts = \<lparr>rto_TakesProvider = False, rto_SupportsNoResolve = False, rto_Logical = False\<rparr>"

definition ruleTypes :: "(RuleType \<times> RuleTypeOptions) list" where
  "ruleTypes =
     map (\<lambda>t. (t, no_opts))
       [''DOMAIN'', ''DOMAIN-SUFFIX'', ''DOMAIN-KEYWORD'', ''DOMAIN-REGEX'', ''DOMAIN-WILDCARD'',
        ''GEOSITE''] @
     map (\<lambda>t. (t, no_opts\<lparr>rto_SupportsNoResolve := True\<rparr>))
       [''IP-CIDR'', ''IP-CIDR6'', ''IP-SUFFIX'', ''IP-ASN'', ''GEOIP''] @
     map (\<lambda>t. (t, no_opts))
       [''SRC-GEOIP'', ''SRC-IP-CIDR'', ''SRC-IP-ASN'', ''SRC-IP-SUFFIX'', ''SRC-PORT'',
        ''DST-PORT'', ''IN-PORT'', ''IN-TYPE'', ''IN-NAME'', ''IN-USER'', ''PROCESS-NAME'',
        ''PROCESS-NAME-WILDCARD'', ''PROCESS-PATH'', ''PROCESS-PATH-WILDCARD'',
        ''PROCESS-NAME-REGEX'', ''NETWORK'', ''DSCP'', ''UID''] @
     [(RuleRuleSet, no_opts\<lparr>rto_TakesProvider := True, rto_SupportsNoResolve := True\<rparr>),
      (RuleMatch, no_opts),
      (RuleAnd, no_opts\<lparr>rto_Logical := True\<rparr>),
      (RuleOr, no_opts\<lparr>rto_Logical := True\<rparr>),
      (RuleNot, no_opts\<lparr>rto_Logical := True\<rparr>)]"

definition rule_opts :: "RuleType \<Rightarrow> RuleTypeOptions" where
  "rule_opts t = (case map_of ruleTypes t of Some opts \<Rightarrow> opts | None \<Rightarrow> no_opts)"

definition RuleType_Valid :: "RuleType \<Rightarrow> bool" where
  "RuleType_Valid t \<longleftrightarrow> map_of ruleTypes t \<noteq> None"

definition IsMatch :: "RuleType \<Rightarrow> bool" where "IsMatch t \<longleftrightarrow> t = RuleMatch"
definition IsLogical :: "RuleType \<Rightarrow> bool" where "IsLogical t = rto_Logical (rule_opts t)"
definition TakesProvider :: "RuleType \<Rightarrow> bool" where
  "TakesProvider t = rto_TakesProvider (rule_opts t)"
definition SupportsNoResolve :: "RuleType \<Rightarrow> bool" where
  "SupportsNoResolve t = rto_SupportsNoResolve (rule_opts t)"

lemma rule_opts_in: "rule_opts t \<noteq> no_opts \<Longrightarrow> (t, rule_opts t) \<in> set ruleTypes"
  by (auto simp: rule_opts_def dest: map_of_SomeD split: option.splits)

lemma rule_opts_eval:
  "rule_opts RuleRuleSet = no_opts\<lparr>rto_TakesProvider := True, rto_SupportsNoResolve := True\<rparr>"
  "rule_opts RuleMatch = no_opts"
  "rule_opts RuleAnd = no_opts\<lparr>rto_Logical := True\<rparr>"
  "rule_opts RuleOr = no_opts\<lparr>rto_Logical := True\<rparr>"
  "rule_opts RuleNot = no_opts\<lparr>rto_Logical := True\<rparr>"
  by (simp_all add: rule_opts_def ruleTypes_def rule_types)

lemma IsLogical_iff: "IsLogical t \<longleftrightarrow> t = RuleAnd \<or> t = RuleOr \<or> t = RuleNot"
proof
  assume *: "IsLogical t"
  then have "rule_opts t \<noteq> no_opts" by (auto simp: IsLogical_def no_opts_def)
  from rule_opts_in [OF this] * show "t = RuleAnd \<or> t = RuleOr \<or> t = RuleNot"
    by (auto simp: IsLogical_def ruleTypes_def no_opts_def)
qed (auto simp: IsLogical_def rule_opts_eval)

lemma TakesProvider_iff: "TakesProvider t \<longleftrightarrow> t = RuleRuleSet"
proof
  assume *: "TakesProvider t"
  then have "rule_opts t \<noteq> no_opts" by (auto simp: TakesProvider_def no_opts_def)
  from rule_opts_in [OF this] * show "t = RuleRuleSet"
    by (auto simp: TakesProvider_def ruleTypes_def no_opts_def)
qed (simp add: TakesProvider_def rule_opts_eval)

lemma rule_kinds_disjoint:
  "IsLogical t \<Longrightarrow> \<not> IsMatch t" "IsLogical t \<Longrightarrow> \<not> TakesProvider t"
  "IsMatch t \<Longrightarrow> \<not> TakesProvider t"
  by (auto simp: IsLogical_iff TakesProvider_iff IsMatch_def rule_types)

lemma logical_no_resolve: "IsLogical t \<Longrightarrow> \<not> SupportsNoResolve t"
  by (auto simp: IsLogical_iff SupportsNoResolve_def rule_opts_eval no_opts_def)

datatype RoutingRule = RoutingRule
  (rr_ID: int)
  (rr_Position: int)
  (rr_Type: RuleType)
  (rr_Value: "string option")
  (rr_ProviderID: "int option")
  (rr_NoResolve: "bool option")
  (rr_Target: "PolicyRef option")
  (rr_Children: "RoutingRule list")

end
