(* ===== verification/MihomoDraft.thy ===== *)
theory MihomoDraft
  imports MihomoTypes
begin

text \<open>
  The save-time draft types of \<open>internal/mihomo/draft.go\<close> with their \<open>Valid\<close> methods: references to
  groups and providers are array indices, references to inbounds are real ids.
\<close>

record RefDraft =
  rf_Kind :: PolicyKind
  rf_InboundID :: "int option"
  rf_GroupIdx :: "int option"

definition RefDraft_Valid :: "RefDraft \<Rightarrow> mihomo_error option" where
  "RefDraft_Valid r =
     (if \<not> PolicyKind_Valid (rf_Kind r) then Some ErrBadRef
      else if (rf_Kind r = PolicyInbound) \<noteq> (rf_InboundID r \<noteq> None) then Some ErrBadRef
      else if (rf_Kind r = PolicyGroup) \<noteq> (rf_GroupIdx r \<noteq> None) then Some ErrBadRef
      else None)"

datatype RuleDraft = RuleDraft
  (rd_Type: RuleType)
  (rd_Value: "string option")
  (rd_ProviderIdx: "int option")
  (rd_NoResolve: "bool option")
  (rd_Target: "RefDraft option")
  (rd_Children: "RuleDraft list")

definition RuleDraft_Valid :: "RuleDraft \<Rightarrow> mihomo_error option" where
  "RuleDraft_Valid r =
     (if \<not> RuleType_Valid (rd_Type r) then Some ErrUnknownRuleType
      else
        and_then
          (if IsLogical (rd_Type r) then
             (if rd_Value r \<noteq> None \<or> rd_ProviderIdx r \<noteq> None
              then Some ErrRulePayloadNotAllowed else None)
           else if IsMatch (rd_Type r) then
             (if rd_Value r \<noteq> None \<or> rd_ProviderIdx r \<noteq> None
              then Some ErrRulePayloadNotAllowed else None)
           else if TakesProvider (rd_Type r) then
             (if rd_Value r \<noteq> None then Some ErrRulePayloadNotAllowed
              else if rd_ProviderIdx r = None then Some ErrProviderRefRange else None)
           else
             (if rd_ProviderIdx r \<noteq> None then Some ErrRulePayloadNotAllowed
              else if rd_Value r = None \<or> rd_Value r = Some [] then Some ErrRuleValueRequired
              else None))
          (if rd_Children r \<noteq> [] \<and> \<not> IsLogical (rd_Type r) then Some ErrChildrenNotAllowed
           else if rd_NoResolve r = Some True \<and> \<not> SupportsNoResolve (rd_Type r)
           then Some ErrNoResolveUnsupported
           else None))"

record GroupDraft =
  gd_Name :: string
  gd_Type :: ProxyGroupType
  gd_URL :: string
  gd_Interval :: "int option"
  gd_Tolerance :: "int option"
  gd_Lazy :: "bool option"
  gd_Members :: "RefDraft list"

definition GroupDraft_Valid :: "GroupDraft \<Rightarrow> mihomo_error option" where
  "GroupDraft_Valid g =
     (if gd_Name g = [] then Some ErrGroupNameEmpty
      else if \<not> ProxyGroupType_Valid (gd_Type g) then Some ErrGroupUnknownType
      else if gd_Members g = [] then Some ErrGroupNoMembers
      else if \<not> UsesHealthCheck (gd_Type g) \<and>
              (gd_URL g \<noteq> [] \<or> gd_Interval g \<noteq> None \<or> gd_Lazy g \<noteq> None)
      then Some ErrGroupFieldNotAllowed
      else if \<not> UsesTolerance (gd_Type g) \<and> gd_Tolerance g \<noteq> None
      then Some ErrGroupFieldNotAllowed
      else None)"

record ConfigDraft =
  cd_Groups :: "GroupDraft list"
  cd_Rules :: "RuleDraft list"
  cd_Providers :: "RuleProvider list"
  cd_BaseYAML :: string
  cd_Profile :: Profile

text \<open>What a nil result of a \<open>Valid\<close> method says.\<close>

lemma RefDraft_Valid_None_iff [validation_simps]:
  "RefDraft_Valid r = None \<longleftrightarrow>
     PolicyKind_Valid (rf_Kind r) \<and>
     (rf_Kind r = PolicyInbound \<longleftrightarrow> rf_InboundID r \<noteq> None) \<and>
     (rf_Kind r = PolicyGroup \<longleftrightarrow> rf_GroupIdx r \<noteq> None)"
  by (auto simp: RefDraft_Valid_def)

lemma RuleDraft_Valid_None_iff [validation_simps]:
  "RuleDraft_Valid r = None \<longleftrightarrow>
     RuleType_Valid (rd_Type r) \<and>
     (rd_ProviderIdx r \<noteq> None \<longleftrightarrow> TakesProvider (rd_Type r)) \<and>
     (if IsLogical (rd_Type r) \<or> IsMatch (rd_Type r) \<or> TakesProvider (rd_Type r)
      then rd_Value r = None
      else rd_Value r \<noteq> None \<and> rd_Value r \<noteq> Some []) \<and>
     (rd_Children r \<noteq> [] \<longrightarrow> IsLogical (rd_Type r)) \<and>
     (rd_NoResolve r = Some True \<longrightarrow> SupportsNoResolve (rd_Type r))"
  using rule_kinds_disjoint [of "rd_Type r"]
  by (auto simp: RuleDraft_Valid_def split: if_splits)

lemma GroupDraft_Valid_None_iff [validation_simps]:
  "GroupDraft_Valid g = None \<longleftrightarrow>
     gd_Name g \<noteq> [] \<and> ProxyGroupType_Valid (gd_Type g) \<and> gd_Members g \<noteq> [] \<and>
     (UsesHealthCheck (gd_Type g) \<or>
        gd_URL g = [] \<and> gd_Interval g = None \<and> gd_Lazy g = None) \<and>
     (UsesTolerance (gd_Type g) \<or> gd_Tolerance g = None)"
  by (auto simp: GroupDraft_Valid_def)

end
