(* ===== verification/RoutingRepo.thy ===== *)
theory RoutingRepo
  imports Store MihomoDraft "HOL-Library.Option_ord" "HOL-Library.Product_Lexorder"
begin

text \<open>
  The repository of the mihomo configuration, package \<open>internal/repository/routing\<close>: the atomic
  save (\<open>save_mihomo_config.go\<close>) and the reads of rules, proxy-groups, rule-providers, settings and
  profile.
\<close>

section \<open>Reading back ids (readIDs)\<close>

definition group_ids :: "int \<Rightarrow> db \<Rightarrow> int list" where
  "group_ids cfg db =
     map gr_id (sort_key gr_position (filter (\<lambda>g. gr_config g = cfg) (db_groups db)))"

definition provider_ids :: "int \<Rightarrow> db \<Rightarrow> int list" where
  "provider_ids cfg db =
     map pv_id (sort_key pv_id (filter (\<lambda>p. pv_config p = cfg) (db_providers db)))"

definition maxRuleID :: "db \<Rightarrow> int" where
  "maxRuleID db = (case map rl_id (db_rules db) of [] \<Rightarrow> 0 | i # is \<Rightarrow> fold max is i)"

section \<open>Column values\<close>

definition boolInt :: "bool \<Rightarrow> int" where
  "boolInt b = (if b then 1 else 0)"

definition boolIntPtr :: "bool option \<Rightarrow> int option" where
  "boolIntPtr b = (case b of None \<Rightarrow> None | Some v \<Rightarrow> Some (boolInt v))"

definition refColumns ::
    "RefDraft \<Rightarrow> int list \<Rightarrow> repo_error + (int option \<times> int option)" where
  "refColumns ref groupID =
     (if rf_Kind ref = PolicyInbound then
        (case rf_InboundID ref of
           None \<Rightarrow> Inl (Internal ''inbound ref without inbound id'')
         | Some i \<Rightarrow> Inr (Some i, None))
      else if rf_Kind ref = PolicyGroup then
        (case rf_GroupIdx ref of
           None \<Rightarrow> Inl (Internal ''group ref index out of range'')
         | Some i \<Rightarrow>
             if i < 0 \<or> int (length groupID) \<le> i
             then Inl (Internal ''group ref index out of range'')
             else Inr (None, Some (groupID ! nat i)))
      else Inr (None, None))"

definition providerColumn :: "int option \<Rightarrow> int list \<Rightarrow> repo_error + int option" where
  "providerColumn idx providerID =
     (case idx of
        None \<Rightarrow> Inr None
      | Some i \<Rightarrow>
          if i < 0 \<or> int (length providerID) \<le> i
          then Inl (Internal ''provider ref index out of range'')
          else Inr (Some (providerID ! nat i)))"

section \<open>Saving\<close>

definition batch_insert :: "('r list \<Rightarrow> db \<Rightarrow> db) \<Rightarrow> 'r list \<Rightarrow> db \<Rightarrow> repo_error + db" where
  "batch_insert ins rows db = (if rows = [] then Inr db else exec (ins rows) db)"

text \<open>Rows of the id'd tables are built with id 0; the insert assigns the id.\<close>

fun group_rows :: "int \<Rightarrow> int \<Rightarrow> GroupDraft list \<Rightarrow> group_row list" where
  "group_rows cfg i [] = []"
| "group_rows cfg i (g # gs) =
     \<lparr>gr_id = 0, gr_config = cfg, gr_position = i, gr_name = gd_Name g, gr_type = gd_Type g,
      gr_url = gd_URL g, gr_interval = gd_Interval g, gr_tolerance = gd_Tolerance g,
      gr_lazy = boolIntPtr (gd_Lazy g)\<rparr> # group_rows cfg (i + 1) gs"

definition provider_row_of :: "int \<Rightarrow> RuleProvider \<Rightarrow> provider_row" where
  "provider_row_of cfg rp =
     \<lparr>pv_id = 0, pv_config = cfg, pv_name = rp_Name rp, pv_behavior = rp_Behavior rp,
      pv_format = rp_Format rp, pv_mirror = boolInt (rp_Mirror rp), pv_url = rp_URL rp,
      pv_interval = rp_Interval rp, pv_mirror_interval = rp_MirrorInterval rp\<rparr>"

fun member_rows_of ::
    "int list \<Rightarrow> int \<Rightarrow> int \<Rightarrow> RefDraft list \<Rightarrow> repo_error + member_row list" where
  "member_rows_of groupID gid j [] = Inr []"
| "member_rows_of groupID gid j (m # ms) =
     bind_err (refColumns m groupID) (\<lambda>(inbound, group).
     bind_err (member_rows_of groupID gid (j + 1) ms) (\<lambda>rows.
       Inr (\<lparr>mr_id = 0, mr_group = gid, mr_position = j, mr_kind = rf_Kind m,
             mr_inbound = inbound, mr_ref = group\<rparr> # rows)))"

fun member_rows ::
    "int list \<Rightarrow> nat \<Rightarrow> GroupDraft list \<Rightarrow> repo_error + member_row list" where
  "member_rows groupID i [] = Inr []"
| "member_rows groupID i (g # gs) =
     bind_err (member_rows_of groupID (groupID ! i) 0 (gd_Members g)) (\<lambda>rows.
     bind_err (member_rows groupID (i + 1) gs) (\<lambda>rest. Inr (rows @ rest)))"

text \<open>
  The recursive closure \<open>build\<close> of \<open>insertRules\<close>: a preorder walk that numbers the nodes from
  \<open>next + 1\<close>; the result is the rows and the last id used.
\<close>

definition target_columns ::
    "RefDraft option \<Rightarrow> int list \<Rightarrow> repo_error + (int option \<times> int option \<times> string option)" where
  "target_columns target groupID =
     (case target of
        None \<Rightarrow> Inr (None, None, None)
      | Some t \<Rightarrow>
          bind_err (refColumns t groupID) (\<lambda>(ib, gp). Inr (ib, gp, Some (rf_Kind t))))"

fun build_rules ::
    "int \<Rightarrow> int list \<Rightarrow> int list \<Rightarrow> int \<Rightarrow> int option \<Rightarrow> int \<Rightarrow> RuleDraft list \<Rightarrow>
       repo_error + (rule_row list \<times> int)" where
  "build_rules cfg groupID providerID next parentID pos [] = Inr ([], next)"
| "build_rules cfg groupID providerID next parentID pos
     (RuleDraft ty val pidx nores target children # rs) =
     bind_err (target_columns target groupID) (\<lambda>(inbound, group, kind).
     bind_err (providerColumn pidx providerID) (\<lambda>provider.
       let i = next + 1;
           row = \<lparr>rl_id = i, rl_config = cfg, rl_parent = parentID, rl_position = pos,
                  rl_type = ty, rl_value = val, rl_provider = provider,
                  rl_no_resolve = boolInt (nores = Some True), rl_kind = kind,
                  rl_inbound = inbound, rl_group = group\<rparr>
       in bind_err (if IsLogical ty
                    then build_rules cfg groupID providerID i (Some i) 0 children
                    else Inr ([], i)) (\<lambda>(sub, next').
          bind_err (build_rules cfg groupID providerID next' parentID (pos + 1) rs) (\<lambda>(rest, next'').
            Inr (row # sub @ rest, next'')))))"

definition insertRules ::
    "int \<Rightarrow> RuleDraft list \<Rightarrow> int list \<Rightarrow> int list \<Rightarrow> db \<Rightarrow> repo_error + db" where
  "insertRules cfg rules groupID providerID db =
     bind_err (build_rules cfg groupID providerID (maxRuleID db) None 0 rules)
       (\<lambda>(rows, _). batch_insert insert_rules rows db)"

definition upsert_setting :: "setting_row \<Rightarrow> db \<Rightarrow> db" where
  "upsert_setting row db =
     db\<lparr>db_settings := upsert (\<lambda>s. (sr_config s, sr_key s)) row (db_settings db)\<rparr>"

definition upsert_profile :: "profile_row \<Rightarrow> db \<Rightarrow> db" where
  "upsert_profile row db = db\<lparr>db_profiles := upsert fr_config row (db_profiles db)\<rparr>"

definition save_delete :: "int \<Rightarrow> db \<Rightarrow> repo_error + db" where
  "save_delete cfg db =
     bind_err (exec (delete_rules (\<lambda>r. rl_config r = cfg)) db) (\<lambda>db.
     bind_err (exec (delete_members (\<lambda>m. mr_group m \<in>
         set (map gr_id (filter (\<lambda>g. gr_config g = cfg) (db_groups db))))) db) (\<lambda>db.
     bind_err (exec (delete_groups (\<lambda>g. gr_config g = cfg)) db) (\<lambda>db.
       exec (delete_providers (\<lambda>p. pv_config p = cfg)) db)))"

definition save_providers :: "int \<Rightarrow> RuleProvider list \<Rightarrow> db \<Rightarrow> repo_error + db" where
  "save_providers cfg provs db =
     (case batch_insert insert_providers (map (provider_row_of cfg) provs) db of
        Inl e \<Rightarrow> Inl (if IsUniqueViolation e then Domain ErrRuleProviderNameTaken else e)
      | Inr db' \<Rightarrow> Inr db')"

definition save_tx :: "int \<Rightarrow> ConfigDraft \<Rightarrow> db \<Rightarrow> repo_error + (unit \<times> db)" where
  "save_tx cfg draft db =
     bind_err (save_delete cfg db) (\<lambda>db.
     bind_err (batch_insert insert_groups (group_rows cfg 0 (cd_Groups draft)) db) (\<lambda>db.
     let groupID = group_ids cfg db in
     bind_err (save_providers cfg (cd_Providers draft) db) (\<lambda>db.
     let providerID = provider_ids cfg db in
     bind_err (member_rows groupID 0 (cd_Groups draft)) (\<lambda>memberRows.
     bind_err (batch_insert insert_members memberRows db) (\<lambda>db.
     bind_err (insertRules cfg (cd_Rules draft) groupID providerID db) (\<lambda>db.
     bind_err (exec (upsert_setting
       \<lparr>sr_config = cfg, sr_key = ''base_yaml'', sr_value = cd_BaseYAML draft\<rparr>) db) (\<lambda>db.
     bind_err (exec (upsert_profile
       \<lparr>fr_config = cfg, fr_title = pf_Title (cd_Profile draft),
        fr_filename = pf_Filename (cd_Profile draft),
        fr_update_interval = pf_UpdateInterval (cd_Profile draft)\<rparr>) db) (\<lambda>db.
       Inr ((), db)))))))))"

definition SaveMihomoConfig :: "int \<Rightarrow> ConfigDraft \<Rightarrow> db \<Rightarrow> (repo_error + unit) \<times> db" where
  "SaveMihomoConfig cfg draft = in_tx (save_tx cfg draft)"

section \<open>Reading\<close>

definition policyRef :: "string \<Rightarrow> int option \<Rightarrow> int option \<Rightarrow> PolicyRef" where
  "policyRef kind inboundID groupID = \<lparr>pr_Kind = kind, pr_InboundID = inboundID, pr_GroupID = groupID\<rparr>"

definition rule_key :: "rule_row \<Rightarrow> int option \<times> int" where
  "rule_key r = (rl_parent r, rl_position r)"

text \<open>
  \<open>freeze\<close> follows the child pointers; a cycle among them would recurse for ever, so the fuel is
  an upper bound of the depth and \<open>None\<close> means that no such bound sufficed. NULL sorts first.
\<close>

definition rule_of_row :: "rule_row \<Rightarrow> RoutingRule list \<Rightarrow> RoutingRule" where
  "rule_of_row r children =
     RoutingRule (rl_id r) (rl_position r) (rl_type r) (rl_value r) (rl_provider r)
       (if rl_no_resolve r \<noteq> 0 then Some True else None)
       (case rl_kind r of None \<Rightarrow> None | Some k \<Rightarrow> Some (policyRef k (rl_inbound r) (rl_group r)))
       children"

definition child_rows :: "rule_row list \<Rightarrow> int \<Rightarrow> rule_row list" where
  "child_rows rows i = filter (\<lambda>l. rl_parent l = Some i) rows"

fun freeze :: "nat \<Rightarrow> rule_row list \<Rightarrow> rule_row \<Rightarrow> RoutingRule option" where
  "freeze 0 rows r = None"
| "freeze (Suc n) rows r =
     map_option (rule_of_row r) (those (map (freeze n rows) (child_rows rows (rl_id r))))"

definition config_rules :: "int \<Rightarrow> db \<Rightarrow> rule_row list" where
  "config_rules cfg db = sort_key rule_key (filter (\<lambda>r. rl_config r = cfg) (db_rules db))"

definition Rules :: "int \<Rightarrow> db \<Rightarrow> RoutingRule list option" where
  "Rules cfg db =
     (let rows = config_rules cfg db;
          roots = filter (\<lambda>r. rl_parent r = None) rows
      in those (map (freeze (length rows) rows) roots))"

definition group_of_row :: "group_row \<Rightarrow> ProxyGroup" where
  "group_of_row g =
     \<lparr>pg_ID = gr_id g, pg_Position = gr_position g, pg_Name = gr_name g, pg_Type = gr_type g,
      pg_URL = gr_url g, pg_Interval = gr_interval g, pg_Tolerance = gr_tolerance g,
      pg_Lazy = map_option (\<lambda>v. v \<noteq> 0) (gr_lazy g), pg_Members = []\<rparr>"

definition member_key :: "member_row \<Rightarrow> int \<times> int" where
  "member_key m = (mr_group m, mr_position m)"

definition loadMembers :: "db \<Rightarrow> ProxyGroup list \<Rightarrow> (int \<rightharpoonup> nat) \<Rightarrow> ProxyGroup list" where
  "loadMembers db groups byID =
     fold (\<lambda>m gs. case byID (mr_group m) of
              None \<Rightarrow> gs
            | Some idx \<Rightarrow>
                gs[idx := (gs ! idx)\<lparr>pg_Members :=
                     pg_Members (gs ! idx) @ [policyRef (mr_kind m) (mr_inbound m) (mr_ref m)]\<rparr>])
       (sort_key member_key (db_members db)) groups"

definition ProxyGroups :: "int \<Rightarrow> db \<Rightarrow> ProxyGroup list" where
  "ProxyGroups cfg db =
     (let groups = map group_of_row
            (sort_key gr_position (filter (\<lambda>g. gr_config g = cfg) (db_groups db)));
          byID = fill_map (\<lambda>(i, g). pg_ID g) fst (enumerate 0 groups)
      in loadMembers db groups byID)"

definition provider_of_row :: "provider_row \<Rightarrow> RuleProvider" where
  "provider_of_row p =
     \<lparr>rp_ID = pv_id p, rp_Name = pv_name p, rp_Behavior = pv_behavior p, rp_Format = pv_format p,
      rp_Mirror = (pv_mirror p \<noteq> 0), rp_URL = pv_url p, rp_Interval = pv_interval p,
      rp_MirrorInterval = pv_mirror_interval p\<rparr>"

definition RuleProviders :: "int \<Rightarrow> db \<Rightarrow> RuleProvider list" where
  "RuleProviders cfg db =
     map provider_of_row (sort_key pv_name (filter (\<lambda>p. pv_config p = cfg) (db_providers db)))"

definition AllRuleProviders :: "db \<Rightarrow> RuleProvider list" where
  "AllRuleProviders db = map provider_of_row (sort_key pv_name (db_providers db))"

definition Setting :: "int \<Rightarrow> string \<Rightarrow> db \<Rightarrow> string" where
  "Setting cfg key db =
     (case find (\<lambda>s. sr_config s = cfg \<and> sr_key s = key) (db_settings db) of
        None \<Rightarrow> [] | Some s \<Rightarrow> sr_value s)"

definition Profile_of :: "int \<Rightarrow> db \<Rightarrow> Profile" where
  "Profile_of cfg db =
     (case find (\<lambda>f. fr_config f = cfg) (db_profiles db) of
        None \<Rightarrow> \<lparr>pf_Title = [], pf_Filename = [], pf_UpdateInterval = 0\<rparr>
      | Some f \<Rightarrow> \<lparr>pf_Title = fr_title f, pf_Filename = fr_filename f,
                   pf_UpdateInterval = fr_update_interval f\<rparr>)"

end
