(* ===== verification/RoutingSaveFacts.thy ===== *)
theory RoutingSaveFacts
  imports RoutingRepo
begin

text \<open>
  What \<open>SaveMihomoConfig\<close> writes and what the reads give back: the round trip of a whole
  configuration through the database.
\<close>

section \<open>Numbered rows\<close>

lemma map_filter_number_from:
  assumes "\<And>i r. f (set_id i r) = f r" and "\<And>i r. P (set_id i r) = P r"
  shows "map f (filter P (number_from set_id n rs)) = map f (filter P rs)"
  using assms by (induction rs arbitrary: n) auto

lemma number_from_all:
  "(\<And>i r. P (set_id i r) = P r) \<Longrightarrow>
     (\<forall>r \<in> set (number_from set_id n rs). P r) \<longleftrightarrow> (\<forall>r \<in> set rs. P r)"
  by (induction rs arbitrary: n) auto

lemma set_id_sels [row_simps]:
  "gr_config (set_gr_id i g) = gr_config g" "gr_position (set_gr_id i g) = gr_position g"
  "gr_name (set_gr_id i g) = gr_name g" "gr_type (set_gr_id i g) = gr_type g"
  "gr_url (set_gr_id i g) = gr_url g" "gr_interval (set_gr_id i g) = gr_interval g"
  "gr_tolerance (set_gr_id i g) = gr_tolerance g" "gr_lazy (set_gr_id i g) = gr_lazy g"
  "mr_group (set_mr_id i m) = mr_group m" "mr_position (set_mr_id i m) = mr_position m"
  "mr_kind (set_mr_id i m) = mr_kind m" "mr_inbound (set_mr_id i m) = mr_inbound m"
  "mr_ref (set_mr_id i m) = mr_ref m"
  "pv_config (set_pv_id i p) = pv_config p" "pv_name (set_pv_id i p) = pv_name p"
  "pv_behavior (set_pv_id i p) = pv_behavior p" "pv_format (set_pv_id i p) = pv_format p"
  "pv_mirror (set_pv_id i p) = pv_mirror p" "pv_url (set_pv_id i p) = pv_url p"
  "pv_interval (set_pv_id i p) = pv_interval p"
  "pv_mirror_interval (set_pv_id i p) = pv_mirror_interval p"
  "gr_id (set_gr_id i g) = i" "mr_id (set_mr_id i m) = i" "pv_id (set_pv_id i p) = i"
  by (simp_all add: set_gr_id_def set_mr_id_def set_pv_id_def)

lemma sort_key_sorted: "sorted (map f xs) \<Longrightarrow> sort_key f xs = xs"
  by (rule sort_key_id_if_sorted)

section \<open>Reading proxy-groups\<close>

definition member_ref :: "member_row \<Rightarrow> PolicyRef" where
  "member_ref m = policyRef (mr_kind m) (mr_inbound m) (mr_ref m)"

definition add_members :: "member_row list \<Rightarrow> ProxyGroup \<Rightarrow> ProxyGroup" where
  "add_members ms g =
     g\<lparr>pg_Members := pg_Members g @ map member_ref (filter (\<lambda>m. mr_group m = pg_ID g) ms)\<rparr>"

definition attach :: "(int \<rightharpoonup> nat) \<Rightarrow> member_row \<Rightarrow> ProxyGroup list \<Rightarrow> ProxyGroup list" where
  "attach byID m gs =
     (case byID (mr_group m) of
        None \<Rightarrow> gs
      | Some idx \<Rightarrow>
          gs[idx := (gs ! idx)\<lparr>pg_Members :=
               pg_Members (gs ! idx) @ [policyRef (mr_kind m) (mr_inbound m) (mr_ref m)]\<rparr>])"

definition indexes :: "(int \<rightharpoonup> nat) \<Rightarrow> ProxyGroup list \<Rightarrow> bool" where
  "indexes byID gs \<longleftrightarrow> (\<forall>i idx. byID i = Some idx \<longleftrightarrow> idx < length gs \<and> pg_ID (gs ! idx) = i)"

lemma length_attach [simp]: "length (attach byID m gs) = length gs"
  by (simp add: attach_def split: option.splits)

lemma attach_nth:
  assumes "indexes byID gs" and k: "k < length gs"
  shows "attach byID m gs ! k = add_members [m] (gs ! k)"
proof (cases "mr_group m = pg_ID (gs ! k)")
  case True
  then have "byID (mr_group m) = Some k" using assms by (auto simp: indexes_def)
  with True k show ?thesis by (simp add: attach_def add_members_def member_ref_def)
next
  case False
  then have "byID (mr_group m) \<noteq> Some k" using assms by (auto simp: indexes_def)
  with False k show ?thesis
    by (auto simp: attach_def add_members_def nth_list_update split: option.splits)
qed

lemma attach_map: "indexes byID gs \<Longrightarrow> attach byID m gs = map (add_members [m]) gs"
  by (rule nth_equalityI) (simp_all add: attach_nth)

lemma add_members_ID [simp]: "pg_ID (add_members ms g) = pg_ID g"
  by (simp add: add_members_def)

lemma indexes_map: "indexes byID gs \<Longrightarrow> indexes byID (map (add_members ms) gs)"
  by (auto simp: indexes_def)

lemma add_members_Cons: "add_members (m # ms) g = add_members ms (add_members [m] g)"
  by (simp add: add_members_def)

lemma loadMembers_fold: "indexes byID gs \<Longrightarrow> fold (attach byID) ms gs = map (add_members ms) gs"
proof (induction ms arbitrary: gs)
  case Nil
  then show ?case by (simp add: add_members_def)
next
  case (Cons m ms)
  from Cons.IH [OF indexes_map [OF Cons.prems]] Cons.prems show ?case
    by (simp add: attach_map comp_def add_members_Cons [symmetric])
qed

lemma loadMembers_eq:
  "indexes byID gs \<Longrightarrow>
     loadMembers db gs byID = map (add_members (sort_key member_key (db_members db))) gs"
  using loadMembers_fold [of byID gs] by (simp add: loadMembers_def attach_def [abs_def])

lemma byID_enumerate:
  assumes "distinct (map pg_ID gs)"
  shows "indexes (fill_map (\<lambda>(i, g). pg_ID g) fst (enumerate 0 gs)) gs"
proof -
  let ?key = "\<lambda>(i, g). pg_ID g" and ?xs = "enumerate 0 gs"
  have "map ?key ?xs = map (\<lambda>x. pg_ID (snd x)) ?xs"
    by (simp add: case_prod_unfold)
  also have "\<dots> = map pg_ID (map snd ?xs)" by (simp only: map_map comp_def)
  finally have keys: "map ?key ?xs = map pg_ID gs" by (simp only: map_snd_enumerate)
  then have d: "distinct (map ?key ?xs)" using assms by simp
  have val: "fill_map ?key fst ?xs (pg_ID (gs ! j)) = Some j" if "j < length gs" for j
    using fill_map_distinct [OF d, of "(j, gs ! j)" fst] that by (auto simp: in_set_enumerate_eq)
  have "idx < length gs \<and> pg_ID (gs ! idx) = k" if "fill_map ?key fst ?xs k = Some idx" for k idx
    using fill_map_SomeD [OF that] by (auto simp: in_set_enumerate_eq)
  with val show ?thesis unfolding indexes_def by blast
qed

lemma group_of_row_sels [simp]:
  "pg_ID (group_of_row g) = gr_id g" "pg_Members (group_of_row g) = []"
  "pg_Name (group_of_row g) = gr_name g"
  by (simp_all add: group_of_row_def)

definition config_groups :: "int \<Rightarrow> db \<Rightarrow> group_row list" where
  "config_groups cfg db = sort_key gr_position (filter (\<lambda>g. gr_config g = cfg) (db_groups db))"

definition read_group :: "db \<Rightarrow> group_row \<Rightarrow> ProxyGroup" where
  "read_group db g = (group_of_row g)\<lparr>pg_Members :=
     map member_ref (sort_key member_key (filter (\<lambda>m. mr_group m = gr_id g) (db_members db)))\<rparr>"

lemma ProxyGroups_eq:
  assumes "distinct (map gr_id (db_groups db))"
  shows "ProxyGroups cfg db = map (read_group db) (config_groups cfg db)"
proof -
  have "distinct (map gr_id (config_groups cfg db))"
    using assms by (auto simp: config_groups_def distinct_map intro: inj_on_subset)
  then have "distinct (map pg_ID (map group_of_row (config_groups cfg db)))"
    by (simp add: comp_def)
  from loadMembers_eq [OF byID_enumerate [OF this]] show ?thesis
    by (simp add: ProxyGroups_def config_groups_def [symmetric] read_group_def
        add_members_def comp_def filter_sort)
qed

lemma group_ids_eq: "group_ids cfg db = map gr_id (config_groups cfg db)"
  by (simp add: group_ids_def config_groups_def)

section \<open>The rows of a draft\<close>

lemma upto_Cons: "[i .. i + int (length (x # xs)) - 1] = i # [i + 1 .. i + 1 + int (length xs) - 1]"
  using upto_rec1 [of i "i + int (length (x # xs)) - 1"] by (simp add: algebra_simps)

lemma upto_append:
  assumes "i \<le> m + 1" and "m \<le> n"
  shows "[i .. n] = [i .. m] @ [m + 1 .. n]"
proof (cases "i \<le> m")
  case True
  then show ?thesis using upto_split2 [of i m n] assms by simp
next
  case False
  then have "i = m + 1" using assms by simp
  then show ?thesis by simp
qed

lemma group_rows_positions:
  "map gr_position (group_rows cfg i gs) = [i .. i + int (length gs) - 1]"
proof (induction gs arbitrary: i)
  case (Cons g gs)
  from Cons [of "i + 1"] show ?case by (simp only: group_rows.simps list.map upto_Cons) simp
qed simp

lemma group_rows_sels:
  "map gr_name (group_rows cfg i gs) = map gd_Name gs"
  "length (group_rows cfg i gs) = length gs"
  by (induction gs arbitrary: i) simp_all

lemma group_rows_config: "g \<in> set (group_rows cfg i gs) \<Longrightarrow> gr_config g = cfg"
  by (induction gs arbitrary: i) auto

lemma number_from_config:
  "g \<in> set (number_from set_gr_id n (group_rows cfg i gs)) \<Longrightarrow> gr_config g = cfg"
  using number_from_all [of "\<lambda>g. gr_config g = cfg" set_gr_id n "group_rows cfg i gs"]
  by (auto simp: row_simps group_rows_config)

lemma number_from_pv_config:
  "p \<in> set (number_from set_pv_id n (map (provider_row_of cfg) ps)) \<Longrightarrow> pv_config p = cfg"
  using number_from_all [of "\<lambda>p. pv_config p = cfg" set_pv_id n "map (provider_row_of cfg) ps"]
  by (auto simp: row_simps provider_row_of_def)

text \<open>A reference as its columns hold it.\<close>

definition saved_ref :: "int list \<Rightarrow> RefDraft \<Rightarrow> PolicyRef" where
  "saved_ref gids m =
     \<lparr>pr_Kind = rf_Kind m,
      pr_InboundID = (if rf_Kind m = PolicyInbound then rf_InboundID m else None),
      pr_GroupID = (if rf_Kind m = PolicyGroup then Some (gids ! nat (the (rf_GroupIdx m))) else None)\<rparr>"

lemma refColumns_Inr:
  "refColumns m gids = Inr (ib, gp) \<Longrightarrow> policyRef (rf_Kind m) ib gp = saved_ref gids m"
  by (auto simp: refColumns_def saved_ref_def policyRef_def split: if_splits option.splits)

lemma refColumns_range:
  "refColumns m gids = Inr (ib, Some gp) \<Longrightarrow> gp \<in> set gids"
  by (auto simp: refColumns_def split: if_splits option.splits)

lemma member_rows_of_Inr:
  assumes "member_rows_of gids gid j ms = Inr rows"
  shows "map member_ref rows = map (saved_ref gids) ms \<and> (\<forall>r \<in> set rows. mr_group r = gid) \<and>
    map mr_position rows = [j .. j + int (length ms) - 1]"
  using assms
proof (induction ms arbitrary: j rows)
  case (Cons m ms)
  then obtain ib gp rest where m: "refColumns m gids = Inr (ib, gp)"
    "member_rows_of gids gid (j + 1) ms = Inr rest"
    "rows = \<lparr>mr_id = 0, mr_group = gid, mr_position = j, mr_kind = rf_Kind m,
             mr_inbound = ib, mr_ref = gp\<rparr> # rest"
    by (auto simp: bind_err_Inr_iff)
  with Cons.IH [OF m(2)] show ?case
    by (simp only: upto_Cons) (simp add: member_ref_def refColumns_Inr [OF m(1)])
qed simp

lemma member_rows_groups:
  "member_rows gids i gs = Inr rows \<Longrightarrow> i + length gs \<le> length gids \<Longrightarrow>
     \<forall>r \<in> set rows. \<exists>k < length gs. mr_group r = gids ! (i + k)"
proof (induction gs arbitrary: i rows)
  case (Cons g gs)
  then obtain block rest where g: "member_rows_of gids (gids ! i) 0 (gd_Members g) = Inr block"
    "member_rows gids (Suc i) gs = Inr rest" "rows = block @ rest"
    by (auto simp: bind_err_Inr_iff)
  have "\<exists>k < length (g # gs). mr_group r = gids ! (i + k)" if "r \<in> set block" for r
    using member_rows_of_Inr [OF g(1)] that by (intro exI [of _ 0]) simp
  moreover have "\<exists>k < length (g # gs). mr_group r = gids ! (i + k)" if r: "r \<in> set rest" for r
  proof -
    from Cons.IH [OF g(2)] Cons.prems(2) r obtain k where "k < length gs" "mr_group r = gids ! (Suc i + k)"
      by auto
    then show ?thesis by (intro exI [of _ "Suc k"]) simp
  qed
  ultimately show ?case using g(3) by auto
qed simp

lemma member_rows_block:
  assumes "member_rows gids i gs = Inr rows" and "distinct gids"
    and "i + length gs \<le> length gids" and "k < length gs"
  shows "map member_ref (filter (\<lambda>r. mr_group r = gids ! (i + k)) rows) =
           map (saved_ref gids) (gd_Members (gs ! k)) \<and>
         sorted (map mr_position (filter (\<lambda>r. mr_group r = gids ! (i + k)) rows))"
  using assms
proof (induction gs arbitrary: i rows k)
  case (Cons g gs)
  then obtain block rest where g: "member_rows_of gids (gids ! i) 0 (gd_Members g) = Inr block"
    "member_rows gids (Suc i) gs = Inr rest" "rows = block @ rest"
    by (auto simp: bind_err_Inr_iff)
  note block = member_rows_of_Inr [OF g(1)]
  have differ: "a \<noteq> b \<Longrightarrow> a < length (g # gs) \<Longrightarrow> b < length (g # gs) \<Longrightarrow> gids ! (i + a) \<noteq> gids ! (i + b)" for a b
    using Cons.prems(2,3) by (simp add: nth_eq_iff_index_eq)
  show ?case
  proof (cases k)
    case 0
    have "mr_group r \<noteq> gids ! i" if r: "r \<in> set rest" for r
    proof -
      from member_rows_groups [OF g(2)] Cons.prems(3) r
      obtain k where "k < length gs" "mr_group r = gids ! (Suc i + k)" by auto
      then show ?thesis using differ [of "Suc k" 0] by simp
    qed
    then have "filter (\<lambda>r. mr_group r = gids ! (i + k)) rows = block"
      using block g(3) 0 by (simp add: filter_empty_conv)
    with block 0 show ?thesis by simp
  next
    case (Suc k')
    have "filter (\<lambda>r. mr_group r = gids ! (i + k)) block = []"
      using block Suc Cons.prems(4) differ [of 0 k] by (simp add: filter_empty_conv)
    with Cons.IH [OF g(2) Cons.prems(2), of k'] Cons.prems(3,4) Suc g(3) show ?thesis by simp
  qed
qed simp

section \<open>The rows of a rule tree\<close>

text \<open>The tree that is read back, with the row ids and positions left out.\<close>

fun erase_rule :: "RoutingRule \<Rightarrow> RoutingRule" where
  "erase_rule (RoutingRule i pos ty val pid nores target children) =
     RoutingRule 0 0 ty val pid nores target (map erase_rule children)"

fun saved_rule :: "int list \<Rightarrow> int list \<Rightarrow> RuleDraft \<Rightarrow> RoutingRule" where
  "saved_rule gids pids (RuleDraft ty val pidx nores target children) =
     RoutingRule 0 0 ty val (map_option (\<lambda>i. pids ! nat i) pidx)
       (if nores = Some True then Some True else None)
       (map_option (saved_ref gids) target)
       (if IsLogical ty then map (saved_rule gids pids) children else [])"

lemma providerColumn_Inr:
  "providerColumn pidx pids = Inr p \<Longrightarrow> p = map_option (\<lambda>i. pids ! nat i) pidx"
  by (auto simp: providerColumn_def split: option.splits if_splits)

lemma target_columns_Inr:
  "target_columns target gids = Inr (ib, gp, kind) \<Longrightarrow>
     map_option (\<lambda>k. policyRef k ib gp) kind = map_option (saved_ref gids) target"
  by (auto simp: target_columns_def bind_err_Inr_iff refColumns_Inr split: option.splits)

lemma providerColumn_range: "providerColumn pidx pids = Inr p \<Longrightarrow> \<forall>i. p = Some i \<longrightarrow> i \<in> set pids"
  by (auto simp: providerColumn_def split: option.splits if_splits)

lemma target_columns_range:
  "target_columns target gids = Inr (ib, gp, kind) \<Longrightarrow> \<forall>i. gp = Some i \<longrightarrow> i \<in> set gids"
  by (auto simp: target_columns_def bind_err_Inr_iff refColumns_range split: option.splits)

text \<open>A row holds the columns of a rule draft.\<close>

definition row_of_draft :: "int list \<Rightarrow> int list \<Rightarrow> RuleDraft \<Rightarrow> rule_row \<Rightarrow> bool" where
  "row_of_draft gids pids d row \<longleftrightarrow>
     rl_type row = rd_Type d \<and> rl_value row = rd_Value d \<and>
     rl_provider row = map_option (\<lambda>i. pids ! nat i) (rd_ProviderIdx d) \<and>
     rl_no_resolve row = boolInt (rd_NoResolve d = Some True) \<and>
     map_option (\<lambda>k. policyRef k (rl_inbound row) (rl_group row)) (rl_kind row) =
       map_option (saved_ref gids) (rd_Target d)"

lemma row_of_draft_erase:
  assumes "row_of_draft gids pids d row"
    and "map erase_rule ts = (if IsLogical (rd_Type d) then map (saved_rule gids pids) (rd_Children d) else [])"
  shows "erase_rule (rule_of_row row ts) = saved_rule gids pids d"
  using assms
  by (cases d) (auto simp: row_of_draft_def rule_of_row_def boolInt_def split: option.splits)

text \<open>The first row of a non-empty list of drafts, its sub-rows and the remaining rows.\<close>

lemma build_rules_Cons_Inr:
  assumes "build_rules cfg gids pids nx parent pos (d # ds) = Inr (rows, end_id)"
  obtains row sub mid rest where
    "rows = row # sub @ rest"
    "(if IsLogical (rd_Type d)
      then build_rules cfg gids pids (nx + 1) (Some (nx + 1)) 0 (rd_Children d)
      else Inr ([], nx + 1)) = Inr (sub, mid)"
    "build_rules cfg gids pids mid parent (pos + 1) ds = Inr (rest, end_id)"
    "rl_id row = nx + 1" "rl_config row = cfg" "rl_parent row = parent" "rl_position row = pos"
    "row_of_draft gids pids d row"
    "\<forall>g. rl_group row = Some g \<longrightarrow> g \<in> set gids" "\<forall>p. rl_provider row = Some p \<longrightarrow> p \<in> set pids"
proof (cases d)
  case (RuleDraft ty val pidx nores target children)
  from assms obtain ib gp kind where t: "target_columns target gids = Inr (ib, gp, kind)"
    unfolding RuleDraft by (auto simp: bind_err_Inr_iff)
  from assms t obtain p where p: "providerColumn pidx pids = Inr p"
    unfolding RuleDraft by (auto simp: bind_err_Inr_iff)
  from assms t p obtain sub mid rest where
    sub: "(if IsLogical ty then build_rules cfg gids pids (nx + 1) (Some (nx + 1)) 0 children
      else Inr ([], nx + 1)) = Inr (sub, mid)"
    and rest: "build_rules cfg gids pids mid parent (pos + 1) ds = Inr (rest, end_id)"
    and rows: "rows = \<lparr>rl_id = nx + 1, rl_config = cfg, rl_parent = parent, rl_position = pos,
                  rl_type = ty, rl_value = val, rl_provider = p,
                  rl_no_resolve = boolInt (nores = Some True), rl_kind = kind,
                  rl_inbound = ib, rl_group = gp\<rparr> # sub @ rest"
    unfolding RuleDraft by (auto simp: bind_err_Inr_iff Let_def split del: if_split)
  show ?thesis
  proof (rule that [OF rows _ rest])
    show "(if IsLogical (rd_Type d)
      then build_rules cfg gids pids (nx + 1) (Some (nx + 1)) 0 (rd_Children d)
      else Inr ([], nx + 1)) = Inr (sub, mid)"
      using sub by (simp only: RuleDraft RuleDraft.sel)
  qed (use target_columns_Inr [OF t] providerColumn_Inr [OF p] target_columns_range [OF t]
         providerColumn_range [OF p] in \<open>simp_all add: row_of_draft_def RuleDraft\<close>)
qed

text \<open>
  The rows of a list of drafts: consecutive ids, parents that are either the given one or inside the
  block and smaller than the row, and the rows of the drafts themselves at ascending positions.
\<close>

lemma build_rules_shape:
  assumes "build_rules cfg gids pids nx parent pos ds = Inr (rows, end_id)"
  shows "end_id = nx + int (length rows) \<and> map rl_id rows = [nx + 1 .. end_id] \<and>
    (\<forall>r \<in> set rows. rl_config r = cfg) \<and>
    (\<forall>r \<in> set rows. rl_parent r = parent \<or> (\<exists>p. rl_parent r = Some p \<and> nx < p \<and> p < rl_id r))"
  using assms
proof (induction "length rows" arbitrary: nx parent pos ds rows end_id rule: less_induct)
  case less
  show ?case
  proof (cases ds)
    case Nil
    with less.prems show ?thesis by simp
  next
    case (Cons d ds')
    from build_rules_Cons_Inr [OF less.prems [unfolded Cons]]
    obtain row sub mid rest where *: "rows = row # sub @ rest"
      "(if IsLogical (rd_Type d)
        then build_rules cfg gids pids (nx + 1) (Some (nx + 1)) 0 (rd_Children d)
        else Inr ([], nx + 1)) = Inr (sub, mid)"
      "build_rules cfg gids pids mid parent (pos + 1) ds' = Inr (rest, end_id)"
      "rl_id row = nx + 1" "rl_config row = cfg" "rl_parent row = parent" .
    have sub: "mid = nx + 1 + int (length sub) \<and> map rl_id sub = [nx + 2 .. mid] \<and>
      (\<forall>r \<in> set sub. rl_config r = cfg) \<and>
      (\<forall>r \<in> set sub. \<exists>p. rl_parent r = Some p \<and> nx < p \<and> p < rl_id r)"
    proof (cases "IsLogical (rd_Type d)")
      case True
      with *(1,2) less.hyps [of sub "nx + 1" "Some (nx + 1)" 0 "rd_Children d" mid]
      have shape: "mid = nx + 1 + int (length sub)" "map rl_id sub = [nx + 2 .. mid]"
        "\<forall>r \<in> set sub. rl_config r = cfg"
        "\<forall>r \<in> set sub. rl_parent r = Some (nx + 1) \<or>
           (\<exists>p. rl_parent r = Some p \<and> nx + 1 < p \<and> p < rl_id r)"
        by (auto simp: algebra_simps)
      have "nx + 1 < rl_id r" if "r \<in> set sub" for r
        using shape(2) that by (metis imageI set_map atLeastAtMost_iff set_upto add.commute
            add_less_cancel_right less_le_trans one_less_numeral_iff semiring_norm(76))
      with shape show ?thesis by fastforce
    next
      case False
      with *(2) show ?thesis by auto
    qed
    from less.hyps [of rest mid parent "pos + 1" ds' end_id] *(1,3)
    have rest: "end_id = mid + int (length rest)" "map rl_id rest = [mid + 1 .. end_id]"
      "\<forall>r \<in> set rest. rl_config r = cfg"
      "\<forall>r \<in> set rest. rl_parent r = parent \<or> (\<exists>p. rl_parent r = Some p \<and> mid < p \<and> p < rl_id r)"
      by auto
    have "[nx + 1 .. end_id] = (nx + 1) # [nx + 2 .. mid] @ [mid + 1 .. end_id]"
      using sub rest(1) upto_append [of "nx + 2" mid end_id] upto_rec1 [of "nx + 1" end_id]
      by (simp add: algebra_simps)
    then have ids: "map rl_id rows = [nx + 1 .. end_id]" "end_id = nx + int (length rows)"
      using sub rest(1,2) *(1,4) by simp_all
    have conf: "\<forall>r \<in> set rows. rl_config r = cfg"
      using sub rest(3) *(1,5) by auto
    have "nx < mid" using sub by simp
    then have par: "\<forall>r \<in> set rows. rl_parent r = parent \<or> (\<exists>p. rl_parent r = Some p \<and> nx < p \<and> p < rl_id r)"
      using sub rest(4) *(1,6) by (auto dest: order_less_trans)
    from ids conf par show ?thesis by blast
  qed
qed

definition below :: "int option \<Rightarrow> int \<Rightarrow> bool" where
  "below parent nx \<longleftrightarrow> (\<forall>p. parent = Some p \<longrightarrow> p \<le> nx)"

lemma sub_block_shape:
  assumes "(if IsLogical (rd_Type d)
      then build_rules cfg gids pids (nx + 1) (Some (nx + 1)) 0 (rd_Children d)
      else Inr ([], nx + 1)) = Inr (sub, mid)"
  shows "mid = nx + 1 + int (length sub) \<and>
    (\<forall>r \<in> set sub. \<exists>p. rl_parent r = Some p \<and> nx < p \<and> p \<le> mid)"
proof (cases "IsLogical (rd_Type d)")
  case True
  with assms build_rules_shape [of cfg gids pids "nx + 1" "Some (nx + 1)" 0 "rd_Children d" sub mid]
  have shape: "mid = nx + 1 + int (length sub)" "map rl_id sub = [nx + 1 + 1 .. mid]"
    "\<forall>r \<in> set sub. rl_parent r = Some (nx + 1) \<or>
       (\<exists>p. rl_parent r = Some p \<and> nx + 1 < p \<and> p < rl_id r)" by auto
  have "rl_id r \<le> mid" if "r \<in> set sub" for r
  proof -
    have "rl_id r \<in> set (map rl_id sub)" using that by simp
    then show ?thesis by (simp only: shape(2)) simp
  qed
  with shape(1,3) show ?thesis by fastforce
next
  case False
  with assms show ?thesis by auto
qed

lemma build_rules_tops:
  assumes "build_rules cfg gids pids nx parent pos ds = Inr (rows, end_id)" and "below parent nx"
  shows "list_all2 (row_of_draft gids pids) ds (filter (\<lambda>r. rl_parent r = parent) rows) \<and>
    map rl_position (filter (\<lambda>r. rl_parent r = parent) rows) = [pos .. pos + int (length ds) - 1]"
  using assms
proof (induction ds arbitrary: nx pos rows)
  case (Cons d ds)
  from build_rules_Cons_Inr [OF Cons.prems(1)]
  obtain row sub mid rest where *: "rows = row # sub @ rest"
    "(if IsLogical (rd_Type d)
      then build_rules cfg gids pids (nx + 1) (Some (nx + 1)) 0 (rd_Children d)
      else Inr ([], nx + 1)) = Inr (sub, mid)"
    "build_rules cfg gids pids mid parent (pos + 1) ds = Inr (rest, end_id)"
    "rl_parent row = parent" "rl_position row = pos" "row_of_draft gids pids d row" .
  from sub_block_shape [OF *(2)] Cons.prems(2)
  have "below parent mid" "filter (\<lambda>r. rl_parent r = parent) sub = []"
    by (fastforce simp: below_def filter_empty_conv)+
  with Cons.IH [OF *(3)] * show ?case by (simp only: upto_Cons) simp
qed simp

lemma freeze_block:
  assumes "build_rules cfg gids pids nx parent pos ds = Inr (rows, end_id)" and "below parent nx"
    and "\<And>i. nx < i \<Longrightarrow> i \<le> end_id \<Longrightarrow> child_rows G i = child_rows rows i"
    and "length rows \<le> f"
  shows "\<exists>ts. those (map (freeze f G) (filter (\<lambda>r. rl_parent r = parent) rows)) = Some ts \<and>
    map erase_rule ts = map (saved_rule gids pids) ds"
  using assms
proof (induction "length rows" arbitrary: nx parent pos ds rows end_id f rule: less_induct)
  case less
  show ?case
  proof (cases ds)
    case Nil
    with less.prems show ?thesis by simp
  next
    case (Cons d ds')
    from build_rules_Cons_Inr [OF less.prems(1) [unfolded Cons]]
    obtain row sub mid rest where *: "rows = row # sub @ rest"
      "(if IsLogical (rd_Type d)
        then build_rules cfg gids pids (nx + 1) (Some (nx + 1)) 0 (rd_Children d)
        else Inr ([], nx + 1)) = Inr (sub, mid)"
      "build_rules cfg gids pids mid parent (pos + 1) ds' = Inr (rest, end_id)"
      "rl_id row = nx + 1" "rl_parent row = parent" "row_of_draft gids pids d row" .
    from sub_block_shape [OF *(2)] have mid: "mid = nx + 1 + int (length sub)"
      and sub_par: "\<And>r. r \<in> set sub \<Longrightarrow> \<exists>p. rl_parent r = Some p \<and> nx < p \<and> p \<le> mid" by auto
    from build_rules_shape [OF *(3)] have rest: "end_id = mid + int (length rest)"
      and rest_par: "\<And>r. r \<in> set rest \<Longrightarrow> rl_parent r = parent \<or> (\<exists>p. rl_parent r = Some p \<and> mid < p)"
      by auto
    have parent: "parent \<noteq> Some i" if "nx < i" for i
      using less.prems(2) that by (auto simp: below_def)
    have below: "below parent mid" using less.prems(2) mid by (fastforce simp: below_def)
    obtain f' where f: "f = Suc f'" using less.prems(4) *(1) by (cases f) auto
    have in_sub: "child_rows G i = child_rows sub i" if "nx < i" "i \<le> mid" for i
    proof -
      have "child_rows rest i = []"
        using rest_par parent [OF that(1)] that by (fastforce simp: child_rows_def filter_empty_conv)
      then show ?thesis
        using less.prems(3) [of i] that rest parent [OF that(1)] *(1,5) by (simp add: child_rows_def)
    qed
    have in_rest: "child_rows G i = child_rows rest i" if "mid < i" "i \<le> end_id" for i
    proof -
      have "child_rows sub i = []"
        using sub_par that by (fastforce simp: child_rows_def filter_empty_conv)
      then show ?thesis
        using less.prems(3) [of i] that mid parent [of i] *(1,5) by (simp add: child_rows_def)
    qed
    have "\<exists>ts. those (map (freeze f' G) (child_rows sub (nx + 1))) = Some ts \<and>
        map erase_rule ts = (if IsLogical (rd_Type d) then map (saved_rule gids pids) (rd_Children d) else [])"
    proof (cases "IsLogical (rd_Type d)")
      case True
      have "\<exists>ts. those (map (freeze f' G) (filter (\<lambda>r. rl_parent r = Some (nx + 1)) sub)) = Some ts \<and>
          map erase_rule ts = map (saved_rule gids pids) (rd_Children d)"
        by (rule less.hyps [of sub "nx + 1" "Some (nx + 1)" 0 "rd_Children d" mid])
           (use True * f less.prems(4) in_sub in \<open>auto simp: below_def\<close>)
      with True show ?thesis by (simp add: child_rows_def)
    next
      case False
      with *(2) show ?thesis by (simp add: child_rows_def)
    qed
    then obtain ts where ts: "those (map (freeze f' G) (child_rows sub (nx + 1))) = Some ts"
      "map erase_rule ts = (if IsLogical (rd_Type d) then map (saved_rule gids pids) (rd_Children d) else [])"
      by blast
    have top: "freeze f G row = Some (rule_of_row row ts)"
      using ts(1) in_sub [of "nx + 1"] mid *(4) by (simp add: f)
    have erased: "erase_rule (rule_of_row row ts) = saved_rule gids pids d"
      using *(6) ts(2) by (rule row_of_draft_erase)
    have "\<exists>ts. those (map (freeze f G) (filter (\<lambda>r. rl_parent r = parent) rest)) = Some ts \<and>
        map erase_rule ts = map (saved_rule gids pids) ds'"
      by (rule less.hyps [OF _ *(3) below in_rest]) (use *(1) less.prems(4) in auto)
    then obtain us where us: "those (map (freeze f G) (filter (\<lambda>r. rl_parent r = parent) rest)) = Some us"
      "map erase_rule us = map (saved_rule gids pids) ds'" by blast
    have "filter (\<lambda>r. rl_parent r = parent) rows = row # filter (\<lambda>r. rl_parent r = parent) rest"
      using *(1,5) sub_par parent by (fastforce simp: filter_empty_conv)
    with top us erased Cons show ?thesis by simp
  qed
qed

lemma build_rules_children_sorted:
  assumes "build_rules cfg gids pids nx parent pos ds = Inr (rows, end_id)" and "below parent nx"
    and "nx < i"
  shows "sorted (map rl_position (child_rows rows i))"
  using assms
proof (induction "length rows" arbitrary: nx parent pos ds rows end_id rule: less_induct)
  case less
  show ?case
  proof (cases ds)
    case Nil
    with less.prems show ?thesis by (simp add: child_rows_def)
  next
    case (Cons d ds')
    from build_rules_Cons_Inr [OF less.prems(1) [unfolded Cons]]
    obtain row sub mid rest where *: "rows = row # sub @ rest"
      "(if IsLogical (rd_Type d)
        then build_rules cfg gids pids (nx + 1) (Some (nx + 1)) 0 (rd_Children d)
        else Inr ([], nx + 1)) = Inr (sub, mid)"
      "build_rules cfg gids pids mid parent (pos + 1) ds' = Inr (rest, end_id)"
      "rl_parent row = parent" .
    from sub_block_shape [OF *(2)] have mid: "mid = nx + 1 + int (length sub)"
      and sub_par: "\<And>r. r \<in> set sub \<Longrightarrow> \<exists>p. rl_parent r = Some p \<and> nx < p \<and> p \<le> mid" by auto
    from build_rules_shape [OF *(3)]
    have rest_par: "\<And>r. r \<in> set rest \<Longrightarrow> rl_parent r = parent \<or> (\<exists>p. rl_parent r = Some p \<and> mid < p)"
      by auto
    have parent: "parent \<noteq> Some i" using less.prems(2,3) by (auto simp: below_def)
    show ?thesis
    proof (cases "mid < i")
      case True
      then have "child_rows rows i = child_rows rest i"
        using *(1,4) parent sub_par by (fastforce simp: child_rows_def filter_empty_conv)
      moreover have "sorted (map rl_position (child_rows rest i))"
        by (rule less.hyps [OF _ *(3)]) (use *(1) True mid less.prems(2) in \<open>auto simp: below_def\<close>)
      ultimately show ?thesis by simp
    next
      case False
      then have sub: "child_rows rows i = child_rows sub i"
        using *(1,4) parent rest_par by (fastforce simp: child_rows_def filter_empty_conv)
      show ?thesis
      proof (cases "IsLogical (rd_Type d)")
        case True
        with *(2) have b: "build_rules cfg gids pids (nx + 1) (Some (nx + 1)) 0 (rd_Children d) = Inr (sub, mid)"
          by simp
        show ?thesis
        proof (cases "i = nx + 1")
          case True
          with build_rules_tops [OF b] sub show ?thesis
            by (simp add: below_def child_rows_def)
        next
          case False
          have "sorted (map rl_position (child_rows sub i))"
            by (rule less.hyps [OF _ b]) (use *(1) False less.prems(3) in \<open>auto simp: below_def\<close>)
          with sub show ?thesis by simp
        qed
      next
        case False
        with *(2) sub show ?thesis by (simp add: child_rows_def)
      qed
    qed
  qed
qed

lemma same_parent_sorted:
  "(\<And>r. r \<in> set rs \<Longrightarrow> rl_parent r = p) \<Longrightarrow> sorted (map rl_position rs) \<Longrightarrow> sort_key rule_key rs = rs"
  by (rule sort_key_sorted) (auto simp: sorted_wrt_map rule_key_def less_eq_prod_def sorted_map
      elim!: sorted_wrt_mono_rel [rotated])

lemma Rules_saved:
  assumes "build_rules cfg gids pids base None 0 ds = Inr (rows, end_id)"
    and "filter (\<lambda>r. rl_config r = cfg) (db_rules db) = rows"
  shows "\<exists>ts. Rules cfg db = Some ts \<and> map erase_rule ts = map (saved_rule gids pids) ds"
proof -
  have below: "below None base" by (simp add: below_def)
  let ?G = "config_rules cfg db"
  have G: "?G = sort_key rule_key rows" by (simp add: config_rules_def assms(2))
  have "child_rows ?G i = child_rows rows i" if "base < i" for i
    using same_parent_sorted [OF _ build_rules_children_sorted [OF assms(1) below that], of "Some i"]
    by (simp add: G child_rows_def filter_sort)
  then have children: "child_rows ?G i = child_rows rows i" if "base < i" "i \<le> end_id" for i
    using that by simp
  from freeze_block [OF assms(1) below children order_refl]
  obtain ts where ts: "those (map (freeze (length rows) ?G) (filter (\<lambda>r. rl_parent r = None) rows)) = Some ts"
    "map erase_rule ts = map (saved_rule gids pids) ds" by blast
  have "sort_key rule_key (filter (\<lambda>r. rl_parent r = None) rows) = filter (\<lambda>r. rl_parent r = None) rows"
    by (rule same_parent_sorted [of _ None]) (use build_rules_tops [OF assms(1) below] in auto)
  then have "filter (\<lambda>r. rl_parent r = None) ?G = filter (\<lambda>r. rl_parent r = None) rows"
    by (simp add: G filter_sort)
  with ts show ?thesis by (simp add: Rules_def G)
qed

end
