(* ===== verification/RoutingRoundTrip.thy ===== *)
theory RoutingRoundTrip
  imports RoutingSaveFacts
begin

text \<open>
  The save of a configuration as a whole: what each statement of the transaction leaves in the
  tables, the round trip through the reads, and the configurations it does not touch.
\<close>

section \<open>The transaction step by step\<close>

lemma batch_insert_groups:
  assumes "batch_insert insert_groups rows db = Inr db'"
  shows "db_groups db' = db_groups db @
      number_from set_gr_id (auto_base gr_id (sq_groups db) (db_groups db) + 1) rows"
    and "db' = db\<lparr>db_groups := db_groups db', sq_groups := sq_groups db'\<rparr>"
  using assms by (auto simp: batch_insert_def exec_Inr_iff insert_groups_def Let_def split: if_splits)

lemma batch_insert_providers:
  assumes "batch_insert insert_providers rows db = Inr db'"
  shows "db_providers db' = db_providers db @
      number_from set_pv_id (auto_base pv_id (sq_providers db) (db_providers db) + 1) rows"
    and "db' = db\<lparr>db_providers := db_providers db', sq_providers := sq_providers db'\<rparr>"
  using assms by (auto simp: batch_insert_def exec_Inr_iff insert_providers_def Let_def split: if_splits)

lemma batch_insert_members:
  assumes "batch_insert insert_members rows db = Inr db'"
  shows "db_members db' = db_members db @
      number_from set_mr_id (auto_base mr_id (sq_members db) (db_members db) + 1) rows"
    and "db' = db\<lparr>db_members := db_members db', sq_members := sq_members db'\<rparr>"
  using assms by (auto simp: batch_insert_def exec_Inr_iff insert_members_def Let_def split: if_splits)

lemma batch_insert_rules:
  assumes "batch_insert insert_rules rows db = Inr db'"
  shows "db' = db\<lparr>db_rules := db_rules db @ rows\<rparr>"
  using assms by (auto simp: batch_insert_def exec_Inr_iff insert_rules_def split: if_splits)

lemma save_providers_Inr:
  "save_providers cfg ps db = Inr db' \<longleftrightarrow>
     batch_insert insert_providers (map (provider_row_of cfg) ps) db = Inr db'"
  by (simp add: save_providers_def split: sum.splits)

lemma save_delete_Inr:
  assumes "save_delete cfg db = Inr d"
  shows "db_groups d = filter (\<lambda>g. gr_config g \<noteq> cfg) (db_groups db)"
    and "db_providers d = filter (\<lambda>p. pv_config p \<noteq> cfg) (db_providers db)"
    and "db_members d = filter (\<lambda>m. mr_group m \<notin>
           gr_id ` set (filter (\<lambda>g. gr_config g = cfg) (db_groups db))) (db_members db)"
    and "db_rules d = db_rules (delete_rules (\<lambda>r. rl_config r = cfg) db)"
    and "db_settings d = db_settings db" "db_profiles d = db_profiles db"
    and "db_configs d = db_configs db" "db_inbounds d = db_inbounds db" "db_users d = db_users db"
    and "db_nodes d = db_nodes db" "db_conns d = db_conns db"
    and "sq_groups d = sq_groups db" "sq_providers d = sq_providers db" "sq_members d = sq_members db"
    and "constraints_ok d"
  using assms
  by (auto simp: save_delete_def bind_err_Inr_iff exec_Inr_iff delete_rules_def delete_members_def
      delete_groups_def delete_providers_def Let_def intro!: filter_cong)

text \<open>What a successful save leaves in every table.\<close>

definition draft_groups :: "int \<Rightarrow> ConfigDraft \<Rightarrow> db \<Rightarrow> group_row list" where
  "draft_groups cfg draft d =
     number_from set_gr_id (auto_base gr_id (sq_groups d) (db_groups d) + 1)
       (group_rows cfg 0 (cd_Groups draft))"

definition draft_providers :: "int \<Rightarrow> ConfigDraft \<Rightarrow> db \<Rightarrow> provider_row list" where
  "draft_providers cfg draft d =
     number_from set_pv_id (auto_base pv_id (sq_providers d) (db_providers d) + 1)
       (map (provider_row_of cfg) (cd_Providers draft))"

definition wrote ::
    "int \<Rightarrow> ConfigDraft \<Rightarrow> db \<Rightarrow> member_row list \<Rightarrow> rule_row list \<Rightarrow> db \<Rightarrow> bool" where
  "wrote cfg draft d mrows rrows db' \<longleftrightarrow>
     db_groups db' = db_groups d @ draft_groups cfg draft d \<and>
     db_providers db' = db_providers d @ draft_providers cfg draft d \<and>
     db_members db' = db_members d @
       number_from set_mr_id (auto_base mr_id (sq_members d) (db_members d) + 1) mrows \<and>
     db_rules db' = db_rules d @ rrows \<and>
     db_settings db' = upsert (\<lambda>s. (sr_config s, sr_key s))
       \<lparr>sr_config = cfg, sr_key = ''base_yaml'', sr_value = cd_BaseYAML draft\<rparr> (db_settings d) \<and>
     db_profiles db' = upsert fr_config
       \<lparr>fr_config = cfg, fr_title = pf_Title (cd_Profile draft),
        fr_filename = pf_Filename (cd_Profile draft),
        fr_update_interval = pf_UpdateInterval (cd_Profile draft)\<rparr> (db_profiles d) \<and>
     db_configs db' = db_configs d \<and> db_inbounds db' = db_inbounds d \<and> db_users db' = db_users d \<and>
     db_nodes db' = db_nodes d \<and> db_conns db' = db_conns d"

lemma config_groups_after_delete:
  assumes "filter (\<lambda>g. gr_config g = cfg) (db_groups d) = []"
    and "db_groups db = db_groups d @ draft_groups cfg draft d"
  shows "config_groups cfg db = draft_groups cfg draft d"
proof -
  have "filter (\<lambda>g. gr_config g = cfg) (draft_groups cfg draft d) = draft_groups cfg draft d"
    by (simp add: draft_groups_def number_from_config filter_id_conv)
  moreover have "map gr_position (draft_groups cfg draft d) = [0 .. 0 + int (length (cd_Groups draft)) - 1]"
    unfolding draft_groups_def
    by (subst map_number_from) (simp_all only: row_simps group_rows_positions)
  ultimately show ?thesis
    using assms by (simp add: config_groups_def sort_key_sorted)
qed

lemma provider_ids_after_delete:
  assumes "filter (\<lambda>p. pv_config p = cfg) (db_providers d) = []"
    and "db_providers db = db_providers d @ draft_providers cfg draft d"
  shows "provider_ids cfg db = map pv_id (draft_providers cfg draft d)"
proof -
  have "filter (\<lambda>p. pv_config p = cfg) (draft_providers cfg draft d) = draft_providers cfg draft d"
    by (simp add: draft_providers_def number_from_pv_config filter_id_conv)
  then show ?thesis
    using assms by (simp add: provider_ids_def sort_key_sorted draft_providers_def pids.ids_sorted)
qed

lemma save_txE:
  assumes "save_tx cfg draft db = Inr (u, db')"
  obtains d mrows rrows end_id where
    "save_delete cfg db = Inr d"
    "member_rows (map gr_id (draft_groups cfg draft d)) 0 (cd_Groups draft) = Inr mrows"
    "build_rules cfg (map gr_id (draft_groups cfg draft d)) (map pv_id (draft_providers cfg draft d))
       (maxRuleID d) None 0 (cd_Rules draft) = Inr (rrows, end_id)"
    "wrote cfg draft d mrows rrows db'"
    "constraints_ok db'"
proof -
  from assms obtain d dg where d: "save_delete cfg db = Inr d"
    and dg: "batch_insert insert_groups (group_rows cfg 0 (cd_Groups draft)) d = Inr dg"
    unfolding save_tx_def by (auto simp: bind_err_Inr_iff)
  note g = batch_insert_groups [OF dg, folded draft_groups_def]
  have gids: "group_ids cfg dg = map gr_id (draft_groups cfg draft d)"
    using config_groups_after_delete [OF _ g(1)] save_delete_Inr(1) [OF d]
    by (simp add: group_ids_eq filter_empty_conv)
  from assms d dg gids obtain dp mrows dm dr where
    dp: "batch_insert insert_providers (map (provider_row_of cfg) (cd_Providers draft)) dg = Inr dp"
    and mrows: "member_rows (map gr_id (draft_groups cfg draft d)) 0 (cd_Groups draft) = Inr mrows"
    and dm: "batch_insert insert_members mrows dp = Inr dm"
    and dr: "insertRules cfg (cd_Rules draft) (map gr_id (draft_groups cfg draft d))
       (provider_ids cfg dp) dm = Inr dr"
    and last: "bind_err (exec (upsert_setting
       \<lparr>sr_config = cfg, sr_key = ''base_yaml'', sr_value = cd_BaseYAML draft\<rparr>) dr) (\<lambda>db.
     bind_err (exec (upsert_profile
       \<lparr>fr_config = cfg, fr_title = pf_Title (cd_Profile draft),
        fr_filename = pf_Filename (cd_Profile draft),
        fr_update_interval = pf_UpdateInterval (cd_Profile draft)\<rparr>) db) (\<lambda>db.
       Inr ((), db))) = Inr (u, db')"
    unfolding save_tx_def by (auto simp: bind_err_Inr_iff Let_def save_providers_Inr)
  note p = batch_insert_providers [OF dp]
  have dgd: "db_providers dg = db_providers d" "sq_providers dg = sq_providers d"
    by (subst g(2), simp)+
  have pids: "provider_ids cfg dp = map pv_id (draft_providers cfg draft d)"
  proof -
    have "db_providers dp = db_providers d @ draft_providers cfg draft d"
      using p(1) by (simp add: dgd draft_providers_def)
    then show ?thesis
      using provider_ids_after_delete [of cfg d dp draft] save_delete_Inr(2) [OF d]
      by (simp add: filter_empty_conv)
  qed
  note m = batch_insert_members [OF dm]
  from dr obtain rrows end_id where
    r: "build_rules cfg (map gr_id (draft_groups cfg draft d)) (map pv_id (draft_providers cfg draft d))
       (maxRuleID dm) None 0 (cd_Rules draft) = Inr (rrows, end_id)"
    and "batch_insert insert_rules rrows dm = Inr dr"
    by (auto simp: insertRules_def bind_err_Inr_iff pids)
  then have dr': "dr = dm\<lparr>db_rules := db_rules dm @ rrows\<rparr>" by (blast dest: batch_insert_rules)
  have "db_rules dm = db_rules d"
    by (subst m(2), simp, subst p(2), simp, subst g(2), simp)
  then have "maxRuleID dm = maxRuleID d" by (simp add: maxRuleID_def)
  have ok: "constraints_ok db'"
    and db': "db' = upsert_profile
       \<lparr>fr_config = cfg, fr_title = pf_Title (cd_Profile draft),
        fr_filename = pf_Filename (cd_Profile draft),
        fr_update_interval = pf_UpdateInterval (cd_Profile draft)\<rparr> (upsert_setting
       \<lparr>sr_config = cfg, sr_key = ''base_yaml'', sr_value = cd_BaseYAML draft\<rparr> dr)"
    using last by (auto simp: bind_err_Inr_iff exec_Inr_iff)
  obtain s1 where dg': "dg = d\<lparr>db_groups := db_groups d @ draft_groups cfg draft d, sq_groups := s1\<rparr>"
    by (rule that, rule trans [OF g(2)]) (simp add: g(1))
  obtain s2 where dp': "dp = dg\<lparr>db_providers := db_providers d @ draft_providers cfg draft d, sq_providers := s2\<rparr>"
    by (rule that, rule trans [OF p(2)]) (simp add: p(1) dgd draft_providers_def)
  have dpm: "db_members dp = db_members d" "sq_members dp = sq_members d"
    by (simp_all add: dp' dg')
  obtain s3 where dm': "dm = dp\<lparr>db_members := db_members d @
      number_from set_mr_id (auto_base mr_id (sq_members d) (db_members d) + 1) mrows, sq_members := s3\<rparr>"
    by (rule that, rule trans [OF m(2)]) (simp add: m(1) dpm)
  have "wrote cfg draft d mrows rrows db'"
    by (simp add: wrote_def db' dr' dm' dp' dg' upsert_profile_def upsert_setting_def)
  with that d mrows r ok \<open>maxRuleID dm = maxRuleID d\<close> show ?thesis by simp
qed

section \<open>Reading what was written\<close>

lemma nth_number_from: "k < length rs \<Longrightarrow> number_from set_id n rs ! k = set_id (n + int k) (rs ! k)"
  by (induction rs arbitrary: n k) (auto simp: nth_Cons')

lemma nth_group_rows:
  "k < length gs \<Longrightarrow> group_rows cfg i gs ! k =
     \<lparr>gr_id = 0, gr_config = cfg, gr_position = i + int k, gr_name = gd_Name (gs ! k),
      gr_type = gd_Type (gs ! k), gr_url = gd_URL (gs ! k), gr_interval = gd_Interval (gs ! k),
      gr_tolerance = gd_Tolerance (gs ! k), gr_lazy = boolIntPtr (gd_Lazy (gs ! k))\<rparr>"
  by (induction gs arbitrary: i k) (auto simp: nth_Cons')

lemma boolIntPtr_read [simp]: "map_option (\<lambda>v. v \<noteq> 0) (boolIntPtr b) = b"
  by (auto simp: boolIntPtr_def boolInt_def split: option.splits)

definition saved_group :: "int list \<Rightarrow> nat \<Rightarrow> GroupDraft \<Rightarrow> ProxyGroup" where
  "saved_group gids k g =
     \<lparr>pg_ID = gids ! k, pg_Position = int k, pg_Name = gd_Name g, pg_Type = gd_Type g,
      pg_URL = gd_URL g, pg_Interval = gd_Interval g, pg_Tolerance = gd_Tolerance g,
      pg_Lazy = gd_Lazy g, pg_Members = map (saved_ref gids) (gd_Members g)\<rparr>"

lemma length_draft_groups [simp]: "length (draft_groups cfg draft d) = length (cd_Groups draft)"
  by (simp add: draft_groups_def group_rows_sels)

lemma draft_groups_fresh:
  "g \<in> set (db_groups d) \<Longrightarrow> g' \<in> set (draft_groups cfg draft d) \<Longrightarrow> gr_id g < gr_id g'"
  unfolding draft_groups_def
  by (rule gids.new_ids_above [where sq = "sq_groups d" and rs = "group_rows cfg 0 (cd_Groups draft)"],
      assumption) (simp only: set_map imageI)

lemma fk_member_group:
  "constraints_ok db \<Longrightarrow> m \<in> set (db_members db) \<Longrightarrow> mr_group m \<in> gr_id ` set (db_groups db)"
  by (simp add: constraints_ok_def fk_ok_def Let_def list_all_iff)

lemma member_group_sorted:
  "(\<And>m. m \<in> set ms \<Longrightarrow> mr_group m = i) \<Longrightarrow> sorted (map mr_position ms) \<Longrightarrow>
     sort_key member_key ms = ms"
  by (rule sort_key_sorted) (auto simp: sorted_wrt_map member_key_def less_eq_prod_def sorted_map
      elim!: sorted_wrt_mono_rel [rotated])

lemma read_group_saved:
  assumes "constraints_ok d" and "wrote cfg draft d mrows rrows db'"
    and "member_rows (map gr_id (draft_groups cfg draft d)) 0 (cd_Groups draft) = Inr mrows"
    and "distinct (map gr_id (draft_groups cfg draft d))" and k: "k < length (cd_Groups draft)"
  shows "read_group db' (draft_groups cfg draft d ! k) =
    saved_group (map gr_id (draft_groups cfg draft d)) k (cd_Groups draft ! k)"
proof -
  let ?g = "draft_groups cfg draft d ! k" and ?gids = "map gr_id (draft_groups cfg draft d)"
  let ?n = "auto_base mr_id (sq_members d) (db_members d) + 1"
  let ?new = "number_from set_mr_id ?n mrows"
  have "mr_group m \<noteq> gr_id ?g" if "m \<in> set (db_members d)" for m
    using fk_member_group [OF assms(1) that] draft_groups_fresh [of _ d ?g cfg draft] k by fastforce
  then have mine: "filter (\<lambda>m. mr_group m = gr_id ?g) (db_members db') =
      filter (\<lambda>m. mr_group m = gr_id ?g) ?new"
    using assms(2) by (simp add: wrote_def filter_empty_conv)
  note carry = map_filter_number_from [of _ set_mr_id "\<lambda>m. mr_group m = gr_id ?g" ?n mrows]
  have block: "map member_ref (filter (\<lambda>r. mr_group r = gr_id ?g) mrows) =
      map (saved_ref ?gids) (gd_Members (cd_Groups draft ! k))"
    "sorted (map mr_position (filter (\<lambda>r. mr_group r = gr_id ?g) mrows))"
    using member_rows_block [OF assms(3,4), of k] k by simp_all
  have "map member_ref (filter (\<lambda>m. mr_group m = gr_id ?g) ?new) =
      map (saved_ref ?gids) (gd_Members (cd_Groups draft ! k))"
    using carry [of member_ref] block by (simp add: row_simps member_ref_def [abs_def])
  moreover have "sorted (map mr_position (filter (\<lambda>m. mr_group m = gr_id ?g) ?new))"
    using carry [of mr_position] block by (simp add: row_simps)
  then have "sort_key member_key (filter (\<lambda>m. mr_group m = gr_id ?g) ?new) =
      filter (\<lambda>m. mr_group m = gr_id ?g) ?new"
    by (rule member_group_sorted [rotated]) auto
  moreover have "gr_position ?g = int k" "gr_name ?g = gd_Name (cd_Groups draft ! k)"
    "gr_type ?g = gd_Type (cd_Groups draft ! k)" "gr_url ?g = gd_URL (cd_Groups draft ! k)"
    "gr_interval ?g = gd_Interval (cd_Groups draft ! k)"
    "gr_tolerance ?g = gd_Tolerance (cd_Groups draft ! k)"
    "gr_lazy ?g = boolIntPtr (gd_Lazy (cd_Groups draft ! k))"
    using k by (simp_all add: draft_groups_def nth_number_from group_rows_sels row_simps nth_group_rows)
  ultimately show ?thesis
    using mine k by (simp add: read_group_def saved_group_def group_of_row_def)
qed

lemma sort_key_map: "sort_key f (map g xs) = map g (sort_key (\<lambda>x. f (g x)) xs)"
proof -
  have "insort_key f (g x) (map g ys) = map g (insort_key (\<lambda>x. f (g x)) x ys)" for x ys
    by (induction ys) auto
  then show ?thesis by (induction xs) auto
qed

definition saved_providers :: "int list \<Rightarrow> RuleProvider list \<Rightarrow> RuleProvider list" where
  "saved_providers pids ps = map2 (\<lambda>i p. p\<lparr>rp_ID := i\<rparr>) pids ps"

lemma provider_of_row_of: "provider_of_row (set_pv_id i (provider_row_of cfg p)) = p\<lparr>rp_ID := i\<rparr>"
  by (simp add: provider_of_row_def provider_row_of_def set_pv_id_def boolInt_def)

lemma draft_providers_read:
  "map provider_of_row (draft_providers cfg draft d) =
     saved_providers (map pv_id (draft_providers cfg draft d)) (cd_Providers draft)"
  by (rule nth_equalityI)
     (simp_all add: draft_providers_def saved_providers_def nth_number_from provider_of_row_of row_simps)

lemma RuleProviders_saved:
  assumes "save_delete cfg db = Inr d" and "wrote cfg draft d mrows rrows db'"
  shows "RuleProviders cfg db' =
    sort_key rp_Name (saved_providers (map pv_id (draft_providers cfg draft d)) (cd_Providers draft))"
proof -
  have "filter (\<lambda>p. pv_config p = cfg) (draft_providers cfg draft d) = draft_providers cfg draft d"
    by (simp add: draft_providers_def number_from_pv_config filter_id_conv)
  then have "filter (\<lambda>p. pv_config p = cfg) (db_providers db') = draft_providers cfg draft d"
    using assms by (simp add: wrote_def save_delete_Inr(2) filter_empty_conv)
  then show ?thesis
    by (simp add: RuleProviders_def draft_providers_read [symmetric] sort_key_map)
       (simp add: provider_of_row_def)
qed

lemma Setting_saved:
  assumes "wrote cfg draft d mrows rrows db'"
  shows "Setting cfg ''base_yaml'' db' = cd_BaseYAML draft"
  using upsert_find [of "\<lambda>s :: setting_row. (sr_config s, sr_key s)" "(cfg, ''base_yaml'')"] assms
  by (simp add: Setting_def wrote_def)

lemma Profile_saved:
  assumes "wrote cfg draft d mrows rrows db'"
  shows "Profile_of cfg db' = cd_Profile draft"
  using upsert_find [of "fr_config :: profile_row \<Rightarrow> int" cfg] assms
  by (simp add: Profile_of_def wrote_def)

text \<open>All the reads of the saved configuration at once.\<close>

definition reads_back :: "int \<Rightarrow> ConfigDraft \<Rightarrow> int list \<Rightarrow> int list \<Rightarrow> db \<Rightarrow> bool" where
  "reads_back cfg draft gids pids db \<longleftrightarrow>
     distinct gids \<and> distinct pids \<and>
     length gids = length (cd_Groups draft) \<and> length pids = length (cd_Providers draft) \<and>
     ProxyGroups cfg db =
       map (\<lambda>(k, g). saved_group gids k g) (enumerate 0 (cd_Groups draft)) \<and>
     (\<exists>ts. Rules cfg db = Some ts \<and>
        map erase_rule ts = map (saved_rule gids pids) (cd_Rules draft)) \<and>
     RuleProviders cfg db = sort_key rp_Name (saved_providers pids (cd_Providers draft)) \<and>
     Setting cfg ''base_yaml'' db = cd_BaseYAML draft \<and>
     Profile_of cfg db = cd_Profile draft"

lemma uniq_ids:
  assumes "constraints_ok db"
  shows "distinct (map gr_id (db_groups db))" "distinct (map pv_id (db_providers db))"
    "distinct (map rl_id (db_rules db))"
  using assms by (simp_all add: constraints_ok_def uniq_ok_def)

lemma cascade_config:
  "r \<in> set (db_rules (delete_rules (\<lambda>r. rl_config r = cfg) db)) \<Longrightarrow> rl_config r \<noteq> cfg"
  using cascade_rules_subset by (fastforce simp: delete_rules_def)

lemma save_tx_reads_back:
  assumes "save_tx cfg draft db = Inr (u, db')"
  shows "\<exists>gids pids. reads_back cfg draft gids pids db'"
proof -
  from assms obtain d mrows rrows end_id where
    d: "save_delete cfg db = Inr d"
    and mrows: "member_rows (map gr_id (draft_groups cfg draft d)) 0 (cd_Groups draft) = Inr mrows"
    and rrows: "build_rules cfg (map gr_id (draft_groups cfg draft d)) (map pv_id (draft_providers cfg draft d))
       (maxRuleID d) None 0 (cd_Rules draft) = Inr (rrows, end_id)"
    and w: "wrote cfg draft d mrows rrows db'" and ok: "constraints_ok db'"
    by (rule save_txE)
  let ?gids = "map gr_id (draft_groups cfg draft d)" and ?pids = "map pv_id (draft_providers cfg draft d)"
  have dist: "distinct ?gids" "distinct ?pids"
    using uniq_ids [OF ok] w by (simp_all add: wrote_def)
  have groups: "config_groups cfg db' = draft_groups cfg draft d"
    by (rule config_groups_after_delete) (use save_delete_Inr(1) [OF d] w in \<open>auto simp: wrote_def filter_empty_conv\<close>)
  have "ProxyGroups cfg db' = map (\<lambda>(k, g). saved_group ?gids k g) (enumerate 0 (cd_Groups draft))"
    unfolding ProxyGroups_eq [OF uniq_ids(1) [OF ok]] groups
    by (rule nth_equalityI)
       (simp_all add: read_group_saved [OF save_delete_Inr(15) [OF d] w mrows dist(1)] nth_enumerate_eq)
  moreover have "filter (\<lambda>r. rl_config r = cfg) (db_rules db') = rrows"
    using w save_delete_Inr(4) [OF d] cascade_config build_rules_shape [OF rrows]
    by (simp add: wrote_def filter_empty_conv filter_id_conv)
  note Rules_saved [OF rrows this]
  ultimately show ?thesis
    unfolding reads_back_def
    using dist RuleProviders_saved [OF d w] Setting_saved [OF w] Profile_saved [OF w]
    by (intro exI [of _ ?gids] exI [of _ ?pids] conjI)
       (auto simp: draft_providers_def)
qed

section \<open>References stay inside a configuration\<close>

text \<open>
  The database invariant behind per-configuration scoping: a sub-rule's parent, a rule's target
  group and provider and a member's group all belong to the configuration of the row.
\<close>

definition parents_local :: "db \<Rightarrow> bool" where
  "parents_local db \<longleftrightarrow>
     (\<forall>r \<in> set (db_rules db). \<forall>p. rl_parent r = Some p \<longrightarrow>
        (\<exists>q \<in> set (db_rules db). rl_id q = p \<and> rl_config q = rl_config r))"

definition targets_local :: "db \<Rightarrow> bool" where
  "targets_local db \<longleftrightarrow>
     (\<forall>r \<in> set (db_rules db). \<forall>i. rl_group r = Some i \<longrightarrow>
        (\<exists>g \<in> set (db_groups db). gr_id g = i \<and> gr_config g = rl_config r)) \<and>
     (\<forall>r \<in> set (db_rules db). \<forall>i. rl_provider r = Some i \<longrightarrow>
        (\<exists>p \<in> set (db_providers db). pv_id p = i \<and> pv_config p = rl_config r))"

definition members_local :: "db \<Rightarrow> bool" where
  "members_local db \<longleftrightarrow>
     (\<forall>m \<in> set (db_members db). \<forall>i. mr_ref m = Some i \<longrightarrow>
        (\<exists>g \<in> set (db_groups db). \<exists>h \<in> set (db_groups db).
           gr_id g = i \<and> gr_id h = mr_group m \<and> gr_config g = gr_config h))"

definition config_local :: "db \<Rightarrow> bool" where
  "config_local db \<longleftrightarrow> parents_local db \<and> targets_local db \<and> members_local db"

text \<open>With local parents the cascade of a configuration's rules removes nothing else.\<close>

lemma cascade_local:
  assumes "constraints_ok db" and "parents_local db"
  shows "db_rules (delete_rules (\<lambda>r. rl_config r = cfg) db) =
    filter (\<lambda>r. rl_config r \<noteq> cfg) (db_rules db)"
proof -
  have notin: "p \<notin> set (map rl_id (filter (\<lambda>r. rl_config r = cfg) (db_rules db)))"
    if r: "r \<in> set (filter (\<lambda>r. rl_config r \<noteq> cfg) (db_rules db))" "rl_parent r = Some p" for r p
  proof
    assume "p \<in> set (map rl_id (filter (\<lambda>r. rl_config r = cfg) (db_rules db)))"
    then obtain q where q: "q \<in> set (db_rules db)" "rl_id q = p" "rl_config q = cfg" by auto
    moreover obtain q' where "q' \<in> set (db_rules db)" "rl_id q' = p" "rl_config q' = rl_config r"
      using assms(2) r by (auto simp: parents_local_def)
    ultimately show False
      using r distinct_map_eq [OF uniq_ids(3) [OF assms(1)], of q q'] by auto
  qed
  have "cascade_rules n (set (map rl_id (filter (\<lambda>r. rl_config r = cfg) (db_rules db))))
      (filter (\<lambda>r. \<not> rl_config r = cfg) (db_rules db)) = filter (\<lambda>r. \<not> rl_config r = cfg) (db_rules db)" for n
    by (rule cascade_rules_none) (rule notin)
  then show ?thesis by (simp add: delete_rules_def)
qed

section \<open>Other configurations\<close>

definition same_config :: "int \<Rightarrow> db \<Rightarrow> db \<Rightarrow> bool" where
  "same_config cfg db db' \<longleftrightarrow>
     ProxyGroups cfg db' = ProxyGroups cfg db \<and> Rules cfg db' = Rules cfg db \<and>
     RuleProviders cfg db' = RuleProviders cfg db \<and>
     (\<forall>key. Setting cfg key db' = Setting cfg key db) \<and> Profile_of cfg db' = Profile_of cfg db"

lemma find_upsert_other:
  "(\<And>r. key r = key x \<Longrightarrow> \<not> P r) \<Longrightarrow> find P (upsert key x rs) = find P rs"
  by (induction rs) auto

lemma find_setting_other:
  "sr_config x \<noteq> other \<Longrightarrow>
     find (\<lambda>s. sr_config s = other \<and> sr_key s = key) (upsert (\<lambda>s. (sr_config s, sr_key s)) x rs) =
     find (\<lambda>s. sr_config s = other \<and> sr_key s = key) rs"
  by (rule find_upsert_other) auto

lemma find_profile_other:
  "fr_config x \<noteq> other \<Longrightarrow>
     find (\<lambda>f. fr_config f = other) (upsert fr_config x rs) = find (\<lambda>f. fr_config f = other) rs"
  by (rule find_upsert_other) auto

lemma Rules_cong:
  "filter (\<lambda>r. rl_config r = cfg) (db_rules db') = filter (\<lambda>r. rl_config r = cfg) (db_rules db) \<Longrightarrow>
     Rules cfg db' = Rules cfg db"
  by (simp add: Rules_def config_rules_def)

lemma ProxyGroups_cong:
  assumes "constraints_ok db" "constraints_ok db'"
    and "filter (\<lambda>g. gr_config g = cfg) (db_groups db') = filter (\<lambda>g. gr_config g = cfg) (db_groups db)"
    and "\<And>g. g \<in> set (db_groups db) \<Longrightarrow> gr_config g = cfg \<Longrightarrow>
      filter (\<lambda>m. mr_group m = gr_id g) (db_members db') = filter (\<lambda>m. mr_group m = gr_id g) (db_members db)"
  shows "ProxyGroups cfg db' = ProxyGroups cfg db"
proof -
  have "config_groups cfg db' = config_groups cfg db" by (simp add: config_groups_def assms(3))
  moreover have "read_group db' g = read_group db g" if "g \<in> set (config_groups cfg db)" for g
    using that assms(4) [of g] by (simp add: read_group_def config_groups_def)
  ultimately show ?thesis
    using uniq_ids(1) [OF assms(1)] uniq_ids(1) [OF assms(2)] by (simp add: ProxyGroups_eq)
qed

lemma filter_other:
  "other \<noteq> cfg \<Longrightarrow> filter (\<lambda>x. f x = other) (filter (\<lambda>x. f x \<noteq> cfg) xs) = filter (\<lambda>x. f x = other) xs"
  by (induction xs) auto

lemma filter_outside:
  "i \<notin> S \<Longrightarrow> filter (\<lambda>x. f x = i) (filter (\<lambda>x. f x \<notin> S) xs) = filter (\<lambda>x. f x = i) xs"
  by (induction xs) auto

lemma draft_rows_config:
  "g \<in> set (draft_groups cfg draft d) \<Longrightarrow> gr_config g = cfg"
  "p \<in> set (draft_providers cfg draft d) \<Longrightarrow> pv_config p = cfg"
  by (auto simp: draft_groups_def draft_providers_def number_from_config number_from_pv_config)

lemma filter_mine: "(\<And>x. x \<in> set xs \<Longrightarrow> f x = cfg) \<Longrightarrow> other \<noteq> cfg \<Longrightarrow> filter (\<lambda>x. f x = other) xs = []"
  by (simp add: filter_empty_conv)

lemma RuleProviders_cong:
  "filter (\<lambda>p. pv_config p = cfg) (db_providers db') = filter (\<lambda>p. pv_config p = cfg) (db_providers db) \<Longrightarrow>
     RuleProviders cfg db' = RuleProviders cfg db"
  by (simp add: RuleProviders_def)

lemma save_tx_others:
  assumes "save_tx cfg draft db = Inr (u, db')" and ok: "constraints_ok db"
    and local: "parents_local db" and "other \<noteq> cfg"
  shows "same_config other db db'"
proof -
  from assms(1) obtain d mrows rrows end_id where
    d: "save_delete cfg db = Inr d"
    and mrows: "member_rows (map gr_id (draft_groups cfg draft d)) 0 (cd_Groups draft) = Inr mrows"
    and rrows: "build_rules cfg (map gr_id (draft_groups cfg draft d)) (map pv_id (draft_providers cfg draft d))
       (maxRuleID d) None 0 (cd_Rules draft) = Inr (rrows, end_id)"
    and w: "wrote cfg draft d mrows rrows db'" and ok': "constraints_ok db'"
    by (rule save_txE)
  note del = save_delete_Inr [OF d]
  let ?new = "number_from set_mr_id (auto_base mr_id (sq_members d) (db_members d) + 1) mrows"
  have "filter (\<lambda>g. gr_config g = other) (db_groups db') = filter (\<lambda>g. gr_config g = other) (db_groups db)"
    using w del(1) filter_other [OF \<open>other \<noteq> cfg\<close>, of gr_config]
      filter_mine [of "draft_groups cfg draft d" gr_config cfg other] draft_rows_config \<open>other \<noteq> cfg\<close>
    by (simp add: wrote_def)
  moreover have "filter (\<lambda>m. mr_group m = gr_id g) (db_members db') =
      filter (\<lambda>m. mr_group m = gr_id g) (db_members db)"
    if g: "g \<in> set (db_groups db)" "gr_config g = other" for g
  proof -
    have "gr_id g \<notin> gr_id ` set (filter (\<lambda>g. gr_config g = cfg) (db_groups db))"
      using distinct_map_eq [OF uniq_ids(1) [OF ok] g(1)] g(2) \<open>other \<noteq> cfg\<close> by auto
    moreover have "mr_group m \<noteq> gr_id g" if "m \<in> set ?new" for m
    proof -
      have "\<forall>r \<in> set mrows. mr_group r \<in> gr_id ` set (draft_groups cfg draft d)"
        using member_rows_groups [OF mrows] by fastforce
      then have "mr_group m \<in> gr_id ` set (draft_groups cfg draft d)"
        using number_from_all [of "\<lambda>m. mr_group m \<in> gr_id ` set (draft_groups cfg draft d)" set_mr_id
            "auto_base mr_id (sq_members d) (db_members d) + 1" mrows] that
        by (simp add: row_simps)
      moreover have "g \<in> set (db_groups d)" using g del(1) \<open>other \<noteq> cfg\<close> by simp
      ultimately show ?thesis using draft_groups_fresh by fastforce
    qed
    then have "filter (\<lambda>m. mr_group m = gr_id g) ?new = []" by (simp add: filter_empty_conv)
    ultimately show ?thesis
      using w del(3) filter_outside [of "gr_id g" _ mr_group] by (simp add: wrote_def)
  qed
  ultimately have "ProxyGroups other db' = ProxyGroups other db"
    by (rule ProxyGroups_cong [OF ok ok'])
  moreover have "Rules other db' = Rules other db"
    using w del(4) cascade_local [OF ok local] filter_other [OF \<open>other \<noteq> cfg\<close>, of rl_config]
      filter_mine [of rrows rl_config cfg other] build_rules_shape [OF rrows] \<open>other \<noteq> cfg\<close>
    by (intro Rules_cong) (simp add: wrote_def)
  moreover have "RuleProviders other db' = RuleProviders other db"
    using w del(2) filter_other [OF \<open>other \<noteq> cfg\<close>, of pv_config]
      filter_mine [of "draft_providers cfg draft d" pv_config cfg other] draft_rows_config \<open>other \<noteq> cfg\<close>
    by (intro RuleProviders_cong) (simp add: wrote_def)
  moreover have "Setting other key db' = Setting other key db" for key
    using w del(5) not_sym [OF \<open>other \<noteq> cfg\<close>] by (simp add: Setting_def wrote_def find_setting_other)
  moreover have "Profile_of other db' = Profile_of other db"
    using w del(6) not_sym [OF \<open>other \<noteq> cfg\<close>] by (simp add: Profile_of_def wrote_def find_profile_other)
  ultimately show ?thesis by (simp add: same_config_def)
qed

end
