(* ===== verification/MihomoDecode.thy ===== *)
theory MihomoDecode
  imports MihomoDraft
begin

text \<open>
  Decoding of the admin form payload, \<open>internal/mihomo/decode.go\<close>: the request DTOs and their mapping
  to a draft. Parsing the JSON text is \<open>encoding/json\<close>, an argument of \<open>DecodeConfig\<close> that returns the
  DTO or its error.
\<close>

record policyRefDTO =
  prd_Kind :: string
  prd_InboundID :: "int option"
  prd_GroupIdx :: "int option"

datatype ruleDTO = ruleDTO
  (rud_Type: string)
  (rud_Value: "string option")
  (rud_ProviderIdx: "int option")
  (rud_NoResolve: "bool option")
  (rud_Target: "policyRefDTO option")
  (rud_Children: "ruleDTO list")

record groupDTO =
  grd_Name :: string
  grd_Type :: string
  grd_URL :: string
  grd_Interval :: "int option"
  grd_Tolerance :: "int option"
  grd_Lazy :: "bool option"
  grd_Members :: "policyRefDTO list"

record providerDTO =
  pvd_Name :: string
  pvd_Behavior :: string
  pvd_Format :: string
  pvd_URL :: string
  pvd_Interval :: int
  pvd_Mirror :: bool
  pvd_MirrorInterval :: int

record configDTO =
  cfd_BaseYAML :: string
  cfd_Groups :: "groupDTO list"
  cfd_Rules :: "ruleDTO list"
  cfd_Providers :: "providerDTO list"
  cfd_ProfileTitle :: string
  cfd_Filename :: string
  cfd_ProfileUpdateInterval :: int

definition trimPtr :: "string option \<Rightarrow> string option" where
  "trimPtr s =
     (case s of
        None \<Rightarrow> None
      | Some t \<Rightarrow> (let v = TrimSpace t in if v = [] then None else Some v))"

definition refFromDTO :: "policyRefDTO \<Rightarrow> RefDraft" where
  "refFromDTO d =
     (let kind = TrimSpace (prd_Kind d);
          ref = \<lparr>rf_Kind = kind, rf_InboundID = None, rf_GroupIdx = None\<rparr>
      in if kind = PolicyInbound then ref\<lparr>rf_InboundID := prd_InboundID d\<rparr>
         else if kind = PolicyGroup then ref\<lparr>rf_GroupIdx := prd_GroupIdx d\<rparr>
         else ref)"

text \<open>A nil and an empty slice of rules behave alike in every use, so both are \<open>[]\<close>.\<close>

fun ruleFromDTO :: "ruleDTO \<Rightarrow> RuleDraft" where
  "ruleFromDTO (ruleDTO ty val pidx nores target children) =
     RuleDraft (TrimSpace ty) (trimPtr val) pidx nores (map_option refFromDTO target)
       (map ruleFromDTO children)"

definition rulesFromDTO :: "ruleDTO list \<Rightarrow> RuleDraft list" where
  "rulesFromDTO rs = map ruleFromDTO rs"

definition groupFromDTO :: "groupDTO \<Rightarrow> GroupDraft" where
  "groupFromDTO g =
     \<lparr>gd_Name = TrimSpace (grd_Name g), gd_Type = TrimSpace (grd_Type g),
      gd_URL = TrimSpace (grd_URL g), gd_Interval = grd_Interval g,
      gd_Tolerance = grd_Tolerance g, gd_Lazy = grd_Lazy g,
      gd_Members = map refFromDTO (grd_Members g)\<rparr>"

definition providerFromDTO :: "providerDTO \<Rightarrow> RuleProvider" where
  "providerFromDTO p =
     \<lparr>rp_ID = 0, rp_Name = TrimSpace (pvd_Name p), rp_Behavior = pvd_Behavior p,
      rp_Format = pvd_Format p, rp_Mirror = pvd_Mirror p, rp_URL = TrimSpace (pvd_URL p),
      rp_Interval = pvd_Interval p, rp_MirrorInterval = pvd_MirrorInterval p\<rparr>"

definition draftFromDTO :: "configDTO \<Rightarrow> ConfigDraft" where
  "draftFromDTO dto =
     \<lparr>cd_Groups = map groupFromDTO (cfd_Groups dto),
      cd_Rules = rulesFromDTO (cfd_Rules dto),
      cd_Providers = map providerFromDTO (cfd_Providers dto),
      cd_BaseYAML = cfd_BaseYAML dto,
      cd_Profile =
        \<lparr>pf_Title = TrimSpace (cfd_ProfileTitle dto),
         pf_Filename = TrimSpace (cfd_Filename dto),
         pf_UpdateInterval = cfd_ProfileUpdateInterval dto\<rparr>\<rparr>"

definition DecodeConfig :: "('raw \<Rightarrow> 'e + configDTO) \<Rightarrow> 'raw \<Rightarrow> 'e + ConfigDraft" where
  "DecodeConfig unmarshal raw = bind_err (unmarshal raw) (\<lambda>dto. Inr (draftFromDTO dto))"

section \<open>The decoded draft is in normal form\<close>

text \<open>
  Every name, type, URL and value of a decoded draft is trimmed, a value is absent rather than
  blank, and a reference carries the id of its own kind only.
\<close>

definition trimmed :: "string \<Rightarrow> bool" where
  "trimmed s \<longleftrightarrow> TrimSpace s = s"

definition ref_normal :: "RefDraft \<Rightarrow> bool" where
  "ref_normal r \<longleftrightarrow> trimmed (rf_Kind r) \<and>
     (rf_InboundID r \<noteq> None \<longrightarrow> rf_Kind r = PolicyInbound) \<and>
     (rf_GroupIdx r \<noteq> None \<longrightarrow> rf_Kind r = PolicyGroup)"

fun rule_normal :: "RuleDraft \<Rightarrow> bool" where
  "rule_normal (RuleDraft ty val pidx nores target children) \<longleftrightarrow>
     trimmed ty \<and> (\<forall>v \<in> set_option val. v \<noteq> [] \<and> trimmed v) \<and>
     (\<forall>t \<in> set_option target. ref_normal t) \<and> (\<forall>c \<in> set children. rule_normal c)"

definition draft_normal :: "ConfigDraft \<Rightarrow> bool" where
  "draft_normal d \<longleftrightarrow>
     (\<forall>g \<in> set (cd_Groups d). trimmed (gd_Name g) \<and> trimmed (gd_Type g) \<and> trimmed (gd_URL g) \<and>
        (\<forall>m \<in> set (gd_Members g). ref_normal m)) \<and>
     (\<forall>r \<in> set (cd_Rules d). rule_normal r) \<and>
     (\<forall>p \<in> set (cd_Providers d). trimmed (rp_Name p) \<and> trimmed (rp_URL p)) \<and>
     trimmed (pf_Title (cd_Profile d)) \<and> trimmed (pf_Filename (cd_Profile d))"

lemma trimmed_TrimSpace [simp]: "trimmed (TrimSpace s)"
  by (simp add: trimmed_def)

lemma refFromDTO_normal: "ref_normal (refFromDTO d)"
proof -
  have tr: "trimmed k" if "TrimSpace (prd_Kind d) = k" for k
    using that trimmed_TrimSpace by metis
  show ?thesis by (auto simp: ref_normal_def refFromDTO_def Let_def intro: tr)
qed

lemma trimPtr_normal: "trimPtr s = Some v \<Longrightarrow> v \<noteq> [] \<and> trimmed v"
  by (auto simp: trimPtr_def Let_def split: option.splits if_splits)

lemma ruleFromDTO_normal: "rule_normal (ruleFromDTO r)"
  by (induction r) (auto simp: refFromDTO_normal trimPtr_normal)

lemma draftFromDTO_normal: "draft_normal (draftFromDTO dto)"
  by (auto simp: draft_normal_def draftFromDTO_def groupFromDTO_def providerFromDTO_def
      rulesFromDTO_def refFromDTO_normal ruleFromDTO_normal)

section \<open>Properties\<close>

text \<open>
  Decoding normalises: whatever the payload holds, every name, type, URL and value of the draft
  is free of surrounding white space, a blank value is absent, a reference carries only the id of
  its own kind, at every depth of the rule trees, and the lists keep their lengths and order.
\<close>
theorem DecodeConfig_normalises:
  assumes "DecodeConfig unmarshal raw = Inr draft"
  shows "draft_normal draft \<and>
    (\<exists>dto. unmarshal raw = Inr dto \<and> cd_BaseYAML draft = cfd_BaseYAML dto \<and>
       map gd_Name (cd_Groups draft) = map (TrimSpace \<circ> grd_Name) (cfd_Groups dto) \<and>
       map rp_Name (cd_Providers draft) = map (TrimSpace \<circ> pvd_Name) (cfd_Providers dto) \<and>
       map rd_Type (cd_Rules draft) = map (TrimSpace \<circ> rud_Type) (cfd_Rules dto))"
proof -
  have "rd_Type (ruleFromDTO r) = TrimSpace (rud_Type r)" for r by (cases r) simp
  with assms show ?thesis
    by (auto simp: DecodeConfig_def bind_err_Inr_iff draftFromDTO_normal)
       (auto simp: draftFromDTO_def groupFromDTO_def providerFromDTO_def rulesFromDTO_def)
qed

theorem DecodeConfig_normalises_witness:
  "draft_normal (draftFromDTO \<lparr>cfd_BaseYAML = [], cfd_Groups = [],
     cfd_Rules = [ruleDTO '' MATCH '' (Some '' '') None None None []], cfd_Providers = [],
     cfd_ProfileTitle = '' t'', cfd_Filename = [], cfd_ProfileUpdateInterval = 1\<rparr>)"
  by (rule conjunct1 [OF DecodeConfig_normalises [of Inr]]) (simp add: DecodeConfig_def)

end
