(* ===== verification/GroupCycle.thy ===== *)
theory GroupCycle
  imports MihomoDraft
begin

text \<open>
  The depth-first search \<open>cyclicGroups\<close> of \<open>internal/mihomo/validate.go\<close> over the references between
  proxy-groups, with the three colours of the code, and its correctness: it answers true exactly
  when the reference graph has a cycle.
\<close>

section \<open>The search\<close>

datatype colour = White | Gray | Black

text \<open>
  The group a member refers to: none when it is not a group reference, carries no index or points
  outside the list, the three cases in which the loop of \<open>visit\<close> continues with the next member.
\<close>

definition group_target :: "GroupDraft list \<Rightarrow> RefDraft \<Rightarrow> nat option" where
  "group_target groups m =
     (if rf_Kind m \<noteq> PolicyGroup then None
      else case rf_GroupIdx m of
             None \<Rightarrow> None
           | Some j \<Rightarrow> if j < 0 \<or> int (length groups) \<le> j then None else Some (nat j))"

definition members_of :: "GroupDraft list \<Rightarrow> nat \<Rightarrow> RefDraft list" where
  "members_of groups i = (if i < length groups then gd_Members (groups ! i) else [])"

text \<open>
  The loop of \<open>visit(i)\<close> over the members still to look at, from the colours so far; a visit starts
  by colouring the node gray. The slice of colours is as long as the list of groups, so an index
  of a group is an index of the slice.
\<close>

definition whites :: "colour list \<Rightarrow> nat" where
  "whites c = length (filter (\<lambda>x. x = White) c)"

lemma whites_update_le: "x \<noteq> White \<Longrightarrow> whites (c[i := x]) \<le> whites c"
  by (induction c arbitrary: i) (auto simp: whites_def split: nat.splits)

lemma whites_update_less:
  "i < length c \<Longrightarrow> c ! i = White \<Longrightarrow> x \<noteq> White \<Longrightarrow> whites (c[i := x]) < whites c"
proof (induction c arbitrary: i)
  case Nil
  then show ?case by simp
next
  case (Cons y c)
  then show ?case by (cases i) (auto simp: whites_def)
qed

function visit_members ::
    "GroupDraft list \<Rightarrow> nat \<Rightarrow> RefDraft list \<Rightarrow> colour list \<Rightarrow> bool \<times> colour list" where
  "visit_members groups i [] color = (False, color[i := Black])"
| "visit_members groups i (m # ms) color =
     (case group_target groups m of
        None \<Rightarrow> visit_members groups i ms color
      | Some j \<Rightarrow>
          if j < length color \<and> color ! j = Gray then (True, color)
          else if j < length color \<and> color ! j = White then
            (case visit_members groups j (members_of groups j) (color[j := Gray]) of
               (True, color') \<Rightarrow> (True, color')
             | (False, color') \<Rightarrow> visit_members groups i ms color')
          else visit_members groups i ms color)"
  by pat_completeness auto

lemma visit_members_whites:
  "visit_members_dom (groups, i, ms, color) \<Longrightarrow>
     whites (snd (visit_members groups i ms color)) \<le> whites color"
proof (induction groups i ms color rule: visit_members.pinduct)
  case (1 groups i color)
  then show ?case by (simp add: visit_members.psimps whites_update_le)
next
  case (2 groups i m ms color)
  show ?case
  proof (cases "group_target groups m")
    case None
    with 2 show ?thesis by (simp add: visit_members.psimps)
  next
    case (Some j)
    consider (gray) "j < length color" "color ! j = Gray"
      | (white) "j < length color" "color ! j = White"
      | (other) "\<not> (j < length color \<and> color ! j = Gray)" "\<not> (j < length color \<and> color ! j = White)"
      by blast
    then show ?thesis
    proof cases
      case gray
      with 2(1) Some show ?thesis by (simp add: visit_members.psimps)
    next
      case white
      obtain b color' where v: "visit_members groups j (members_of groups j) (color[j := Gray]) =
          (b, color')" by fastforce
      have "whites color' \<le> whites (color[j := Gray])"
        using 2(3) [OF Some] white v by simp
      moreover have "whites (color[j := Gray]) \<le> whites color" by (simp add: whites_update_le)
      ultimately show ?thesis
        using 2(1) 2(4) [OF Some _ _ v [symmetric]] Some white v
        by (cases b) (auto simp: visit_members.psimps)
    next
      case other
      with 2(1) 2(5) [OF Some] Some show ?thesis by (auto simp: visit_members.psimps)
    qed
  qed
qed

termination visit_members
proof (relation "inv_image (less_than <*lex*> less_than) (\<lambda>(g, i, ms, c). (whites c, length ms))",
    goal_cases)
  case 1
  show ?case by auto
next
  case (4 groups i m ms color j b color')
  then have "visit_members_dom (groups, j, members_of groups j, color[j := Gray])" by simp
  from visit_members_whites [OF this] 4 have "whites color' \<le> whites (color[j := Gray])"
    by (metis snd_conv)
  moreover have "whites (color[j := Gray]) < whites color"
    using 4 by (simp add: whites_update_less)
  ultimately show ?case by simp
qed (auto simp: whites_update_less)

definition visit :: "GroupDraft list \<Rightarrow> nat \<Rightarrow> colour list \<Rightarrow> bool \<times> colour list" where
  "visit groups i color = visit_members groups i (members_of groups i) (color[i := Gray])"

fun cyclic_loop :: "GroupDraft list \<Rightarrow> nat list \<Rightarrow> colour list \<Rightarrow> bool" where
  "cyclic_loop groups [] color = False"
| "cyclic_loop groups (i # is) color =
     (if color ! i = White then
        (case visit groups i color of
           (True, _) \<Rightarrow> True
         | (False, color') \<Rightarrow> cyclic_loop groups is color')
      else cyclic_loop groups is color)"

definition cyclicGroups :: "GroupDraft list \<Rightarrow> bool" where
  "cyclicGroups groups =
     cyclic_loop groups [0..<length groups] (replicate (length groups) White)"

section \<open>The reference graph\<close>

definition group_edges :: "GroupDraft list \<Rightarrow> (nat \<times> nat) set" where
  "group_edges groups =
     {(i, j). \<exists>m \<in> set (members_of groups i). group_target groups m = Some j}"

lemma group_target_less: "group_target groups m = Some j \<Longrightarrow> j < length groups"
  by (auto simp: group_target_def split: if_splits option.splits)

lemma group_edges_less:
  "(i, j) \<in> group_edges groups \<Longrightarrow> i < length groups \<and> j < length groups"
  by (auto simp: group_edges_def members_of_def group_target_less split: if_splits)

lemma group_edges_trancl_less:
  "(i, j) \<in> (group_edges groups)\<^sup>+ \<Longrightarrow> i < length groups \<and> j < length groups"
  by (induction rule: trancl_induct) (auto dest: group_edges_less)

text \<open>
  What holds of the colours between two steps of the search: a finished (black) node has only
  finished successors and lies on no cycle.
\<close>

definition dfs_inv :: "GroupDraft list \<Rightarrow> colour list \<Rightarrow> bool" where
  "dfs_inv groups c \<longleftrightarrow>
     length c = length groups \<and>
     (\<forall>u v. (u, v) \<in> group_edges groups \<longrightarrow> c ! u = Black \<longrightarrow> c ! v = Black) \<and>
     (\<forall>u < length groups. c ! u = Black \<longrightarrow> (u, u) \<notin> (group_edges groups)\<^sup>+)"

lemma dfs_inv_length: "dfs_inv groups c \<Longrightarrow> length c = length groups"
  by (simp add: dfs_inv_def)

lemma dfs_inv_black_reach:
  assumes "dfs_inv groups c" "(u, v) \<in> (group_edges groups)\<^sup>+" "c ! u = Black"
  shows "c ! v = Black"
  using assms(2,3) by (induction rule: trancl_induct) (use assms(1) in \<open>auto simp: dfs_inv_def\<close>)

lemma dfs_inv_start_visit:
  assumes "dfs_inv groups c" "c ! j = White" "j < length groups"
  shows "dfs_inv groups (c[j := Gray])"
  using assms
  by (auto simp: dfs_inv_def nth_list_update split: if_splits dest: group_edges_less)

text \<open>
  Finishing a node all of whose successors are black keeps the invariant: a cycle through it would
  leave it to a black node and stay black, but the node itself is still gray.
\<close>

lemma dfs_inv_finish:
  assumes inv: "dfs_inv groups c" and i: "i < length groups" "c ! i = Gray"
    and succ: "\<And>v. (i, v) \<in> group_edges groups \<Longrightarrow> c ! v = Black"
  shows "dfs_inv groups (c[i := Black])"
proof -
  have "(i, i) \<notin> (group_edges groups)\<^sup>+"
  proof
    assume "(i, i) \<in> (group_edges groups)\<^sup>+"
    then obtain v where v: "(i, v) \<in> group_edges groups" "(v, i) \<in> (group_edges groups)\<^sup>*"
      by (meson tranclD)
    show False
    proof (cases "v = i")
      case True
      with succ [OF v(1)] i show False by simp
    next
      case False
      with v have "(v, i) \<in> (group_edges groups)\<^sup>+" by (metis rtranclD)
      from dfs_inv_black_reach [OF inv this succ [OF v(1)]] i show False by simp
    qed
  qed
  with assms show ?thesis by (auto simp: dfs_inv_def nth_list_update)
qed

section \<open>Correctness of a visit\<close>

definition visit_pre :: "GroupDraft list \<Rightarrow> nat \<Rightarrow> RefDraft list \<Rightarrow> colour list \<Rightarrow> bool" where
  "visit_pre groups i ms c \<longleftrightarrow>
     dfs_inv groups c \<and> i < length groups \<and> c ! i = Gray \<and>
     set ms \<subseteq> set (members_of groups i) \<and>
     (\<forall>u < length groups. c ! u = Gray \<longrightarrow> (u, i) \<in> (group_edges groups)\<^sup>*) \<and>
     (\<forall>v. (i, v) \<in> group_edges groups \<longrightarrow>
        c ! v = Black \<or> (\<exists>m \<in> set ms. group_target groups m = Some v))"

definition visit_post :: "GroupDraft list \<Rightarrow> nat \<Rightarrow> colour list \<Rightarrow> bool \<times> colour list \<Rightarrow> bool" where
  "visit_post groups i c res \<longleftrightarrow>
     (if fst res then \<exists>u. (u, u) \<in> (group_edges groups)\<^sup>+
      else dfs_inv groups (snd res) \<and> snd res ! i = Black \<and>
        (\<forall>u < length groups. c ! u = Black \<longrightarrow> snd res ! u = Black) \<and>
        (\<forall>u < length groups. u \<noteq> i \<longrightarrow> (snd res ! u = Gray \<longleftrightarrow> c ! u = Gray)))"

lemma visit_pre_descend:
  assumes pre: "visit_pre groups i ms c" and edge: "(i, j) \<in> group_edges groups"
    and white: "c ! j = White"
  shows "visit_pre groups j (members_of groups j) (c[j := Gray])"
proof -
  have j: "j < length groups" using edge by (simp add: group_edges_less)
  have "(u, j) \<in> (group_edges groups)\<^sup>*" if "u < length groups" "c[j := Gray] ! u = Gray" for u
    using that pre edge j unfolding visit_pre_def
    by (cases "u = j") (auto intro: rtrancl_into_rtrancl)
  moreover have "dfs_inv groups (c[j := Gray])"
    using pre white j by (auto simp: visit_pre_def intro: dfs_inv_start_visit)
  ultimately show ?thesis
    using pre j by (auto simp: visit_pre_def group_edges_def dfs_inv_length)
qed

lemma visit_pre_resume:
  assumes pre: "visit_pre groups i (m # ms) c" and tgt: "group_target groups m = Some j"
    and white: "c ! j = White"
    and post: "visit_post groups j (c[j := Gray]) (False, c')"
  shows "visit_pre groups i ms c' \<and>
    (\<forall>u < length groups. c ! u = Black \<longrightarrow> c' ! u = Black) \<and>
    (\<forall>u < length groups. c' ! u = Gray \<longleftrightarrow> c ! u = Gray)"
proof -
  have len: "length c = length groups" "j < length groups"
    using pre tgt by (auto simp: visit_pre_def dfs_inv_length group_target_less)
  have black: "\<forall>u < length groups. c ! u = Black \<longrightarrow> c' ! u = Black"
    using post len white by (auto simp: visit_post_def nth_list_update) metis
  have gray: "\<forall>u < length groups. c' ! u = Gray \<longleftrightarrow> c ! u = Gray"
    using post len white by (auto simp: visit_post_def nth_list_update)
  have "c' ! j = Black" using post by (simp add: visit_post_def)
  have "c' ! v = Black \<or> (\<exists>m \<in> set ms. group_target groups m = Some v)"
    if e: "(i, v) \<in> group_edges groups" for v
  proof -
    from pre e have "c ! v = Black \<or> (\<exists>m' \<in> set (m # ms). group_target groups m' = Some v)"
      by (simp add: visit_pre_def)
    with tgt have "c ! v = Black \<or> v = j \<or> (\<exists>m \<in> set ms. group_target groups m = Some v)" by auto
    with black \<open>c' ! j = Black\<close> group_edges_less [OF e] show ?thesis by blast
  qed
  then have "visit_pre groups i ms c'"
    using pre gray post by (auto simp: visit_pre_def visit_post_def)
  with black gray show ?thesis by blast
qed

lemma visit_pre_skip:
  assumes "visit_pre groups i (m # ms) c"
    and "\<And>j. group_target groups m = Some j \<Longrightarrow> c ! j = Black"
  shows "visit_pre groups i ms c"
  using assms by (auto simp: visit_pre_def)

lemma visit_members_correct:
  "visit_pre groups i ms c \<Longrightarrow> visit_post groups i c (visit_members groups i ms c)"
proof (induction groups i ms c rule: visit_members.induct)
  case (1 groups i c)
  then have "dfs_inv groups (c[i := Black])"
    by (intro dfs_inv_finish) (auto simp: visit_pre_def)
  with 1 show ?case
    by (auto simp: visit_post_def visit_pre_def dfs_inv_length nth_list_update)
next
  case (2 groups i m ms c)
  have len: "length c = length groups" using 2(5) by (auto simp: visit_pre_def dfs_inv_length)
  show ?case
  proof (cases "group_target groups m")
    case None
    with 2(1) visit_pre_skip [OF 2(5)] show ?thesis by simp
  next
    case (Some j)
    then have j: "j < length c" using len by (simp add: group_target_less)
    have edge: "(i, j) \<in> group_edges groups"
      using 2(5) Some by (auto simp: visit_pre_def group_edges_def)
    show ?thesis
    proof (cases "c ! j")
      case Gray
      then have "(j, i) \<in> (group_edges groups)\<^sup>*" using 2(5) j len by (simp add: visit_pre_def)
      from rtrancl_into_trancl1 [OF this edge] have "(j, j) \<in> (group_edges groups)\<^sup>+" .
      with Some Gray j show ?thesis by (auto simp: visit_post_def)
    next
      case White
      obtain r c' where v: "visit_members groups j (members_of groups j) (c[j := Gray]) = (r, c')"
        by fastforce
      have post: "visit_post groups j (c[j := Gray]) (r, c')"
        using 2(2) [OF Some] White j v visit_pre_descend [OF 2(5) edge White] by simp
      show ?thesis
      proof (cases r)
        case True
        with post v Some White j show ?thesis by (simp add: visit_post_def)
      next
        case False
        with post have resume: "visit_pre groups i ms c'"
            "\<forall>u < length groups. c ! u = Black \<longrightarrow> c' ! u = Black"
            "\<forall>u < length groups. c' ! u = Gray \<longleftrightarrow> c ! u = Gray"
          using visit_pre_resume [OF 2(5) Some White] by auto
        have "visit_post groups i c' (visit_members groups i ms c')"
          using 2(3) [OF Some _ _ v [symmetric]] False White j resume(1) by simp
        then have "visit_post groups i c (visit_members groups i ms c')"
          using resume(2,3) by (auto simp: visit_post_def)
        with v False Some White j show ?thesis by simp
      qed
    next
      case Black
      with 2(4) [OF Some] visit_pre_skip [OF 2(5)] Some j show ?thesis by simp
    qed
  qed
qed

lemma cyclic_loop_correct:
  assumes "dfs_inv groups c" "\<forall>u < length groups. c ! u \<noteq> Gray"
    "set is \<subseteq> {..<length groups}"
    "\<forall>u < length groups. c ! u = White \<longrightarrow> u \<in> set is"
  shows "cyclic_loop groups is c \<longleftrightarrow> (\<exists>u. (u, u) \<in> (group_edges groups)\<^sup>+)"
  using assms
proof (induction "is" arbitrary: c)
  case Nil
  then have "\<forall>u < length groups. c ! u = Black" by (metis colour.exhaust empty_iff list.set(1))
  with Nil show ?case by (auto simp: dfs_inv_def dest: group_edges_trancl_less)
next
  case (Cons i "is")
  show ?case
  proof (cases "c ! i = White")
    case False
    with Cons show ?thesis by auto
  next
    case True
    have i: "i < length groups" using Cons.prems by simp
    have "visit_pre groups i (members_of groups i) (c[i := Gray])"
      using Cons.prems i True
      by (auto simp: visit_pre_def dfs_inv_start_visit dfs_inv_length nth_list_update group_edges_def)
    then have post: "visit_post groups i (c[i := Gray]) (visit groups i c)"
      unfolding visit_def by (rule visit_members_correct)
    obtain r c' where v: "visit groups i c = (r, c')" by fastforce
    show ?thesis
    proof (cases r)
      case True
      with post v \<open>c ! i = White\<close> show ?thesis by (simp add: visit_post_def)
    next
      case False
      with post v have c': "dfs_inv groups c'" "c' ! i = Black"
          "\<forall>u < length groups. c[i := Gray] ! u = Black \<longrightarrow> c' ! u = Black"
          "\<forall>u < length groups. u \<noteq> i \<longrightarrow> (c' ! u = Gray \<longleftrightarrow> c[i := Gray] ! u = Gray)"
        by (auto simp: visit_post_def)
      have "\<forall>u < length groups. c' ! u \<noteq> Gray"
        using c' Cons.prems(2) by (metis colour.distinct(6) nth_list_update_neq)
      moreover have "\<forall>u < length groups. c' ! u = White \<longrightarrow> u \<in> set is"
        using c' Cons.prems(2,4) by (metis colour.distinct(4) colour.exhaust nth_list_update_neq set_ConsD)
      ultimately have "cyclic_loop groups is c' \<longleftrightarrow> (\<exists>u. (u, u) \<in> (group_edges groups)\<^sup>+)"
        using Cons.IH [OF c'(1)] Cons.prems(3) by simp
      with v False \<open>c ! i = White\<close> show ?thesis by simp
    qed
  qed
qed

lemma cyclicGroups_iff: "cyclicGroups groups \<longleftrightarrow> \<not> acyclic (group_edges groups)"
proof -
  have "dfs_inv groups (replicate (length groups) White)"
    by (auto simp: dfs_inv_def dest: group_edges_less)
  then show ?thesis
    unfolding cyclicGroups_def acyclic_def by (subst cyclic_loop_correct) auto
qed

end
