(* ===== verification/MihomoValidate.thy ===== *)
theory MihomoValidate
  imports MihomoDecode GroupCycle
begin

text \<open>
  Validation of a decoded configuration, \<open>internal/mihomo/validate.go\<close>: base YAML, proxy-groups,
  routing rules, rule-providers and profile. Each validator returns the first error it meets.
  Parsing YAML is the library \<open>yaml.v3\<close>, an argument that returns the top-level mapping or an error.
\<close>

section \<open>The validators\<close>

definition ValidateBaseYAML ::
    "(string \<Rightarrow> 'e + (string \<times> 'v) list) \<Rightarrow> string \<Rightarrow> mihomo_error option" where
  "ValidateBaseYAML unmarshal base =
     (case unmarshal base of
        Inl _ \<Rightarrow> Some ErrBaseYAMLInvalid
      | Inr m \<Rightarrow>
          first_err (\<lambda>k. if map_of m k \<noteq> None then Some ErrGeneratedKeyPresent else None)
            GeneratedKeys)"

definition validateRef :: "RefDraft \<Rightarrow> nat \<Rightarrow> mihomo_error option" where
  "validateRef ref numGroups =
     and_then (RefDraft_Valid ref)
       (if rf_Kind ref = PolicyGroup then
          (case rf_GroupIdx ref of
             None \<Rightarrow> Some ErrGroupRefRange
           | Some i \<Rightarrow> if i < 0 \<or> int numGroups \<le> i then Some ErrGroupRefRange else None)
        else None)"

fun validate_groups_loop ::
    "nat \<Rightarrow> string set \<Rightarrow> GroupDraft list \<Rightarrow> mihomo_error option" where
  "validate_groups_loop n seen [] = None"
| "validate_groups_loop n seen (g # gs) =
     and_then (GroupDraft_Valid g)
       (if gd_Name g \<in> seen then Some ErrGroupNameTaken
        else and_then (first_err (\<lambda>m. validateRef m n) (gd_Members g))
               (validate_groups_loop n (insert (gd_Name g) seen) gs))"

definition ValidateProxyGroups :: "GroupDraft list \<Rightarrow> mihomo_error option" where
  "ValidateProxyGroups groups =
     and_then (validate_groups_loop (length groups) {} groups)
       (if cyclicGroups groups then Some ErrGroupCycle else None)"

fun validateRule :: "RuleDraft \<Rightarrow> bool \<Rightarrow> nat \<Rightarrow> nat \<Rightarrow> mihomo_error option" where
  "validateRule (RuleDraft ty val pidx nores target children) is_top numGroups numProviders =
     and_then (RuleDraft_Valid (RuleDraft ty val pidx nores target children))
    (and_then
       (if is_top \<and> target = None then Some ErrTargetRequired
        else if \<not> is_top \<and> target \<noteq> None then Some ErrChildTarget
        else if is_top then (case target of Some t \<Rightarrow> validateRef t numGroups | None \<Rightarrow> None)
        else None)
    (and_then
       (if \<not> is_top then
          (if IsMatch ty then Some ErrMatchChild
           else if nores = Some True then Some ErrNoResolveUnsupported else None)
        else None)
    (and_then
       (if TakesProvider ty \<and>
           (case pidx of Some i \<Rightarrow> i < 0 \<or> int numProviders \<le> i | None \<Rightarrow> True)
        then Some ErrProviderRefRange else None)
       (if IsLogical ty then
          (if ty = RuleNot \<and> length children \<noteq> 1 then Some ErrNotArity
           else if ty \<noteq> RuleNot \<and> length children < 2 then Some ErrLogicalArity
           else first_err (\<lambda>c. validateRule c False numGroups numProviders) children)
        else None))))"

fun ValidateRoutingRules :: "RuleDraft list \<Rightarrow> nat \<Rightarrow> nat \<Rightarrow> mihomo_error option" where
  "ValidateRoutingRules [] numGroups numProviders = None"
| "ValidateRoutingRules (r # rs) numGroups numProviders =
     and_then (validateRule r True numGroups numProviders)
       (if IsMatch (rd_Type r) \<and> rs \<noteq> [] then Some ErrMatchNotLast
        else ValidateRoutingRules rs numGroups numProviders)"

definition ValidateRuleProviders :: "RuleProvider list \<Rightarrow> mihomo_error option" where
  "ValidateRuleProviders provs =
     first_err
       (\<lambda>p. if rp_Name p = [] then Some ErrProviderNameEmpty
            else if rp_Behavior p \<notin> set RuleProviderBehaviors then Some ErrProviderBadBehavior
            else if rp_Format p \<notin> set RuleProviderFormats then Some ErrProviderBadFormat
            else if rp_URL p = [] then Some ErrProviderURLEmpty
            else None)
       provs"

text \<open>A control character is one byte of UTF-8, so the test on runes is a test on bytes.\<close>

definition isControl :: "char \<Rightarrow> bool" where
  "isControl c \<longleftrightarrow> (of_char c :: nat) < 0x20 \<or> c = CHR 0x7F"

definition ValidateProfile :: "Profile \<Rightarrow> mihomo_error option" where
  "ValidateProfile p =
     (if pf_Title p = [] then Some ErrProfileTitleEmpty
      else if pf_Filename p = [] then Some ErrProfileFilenameEmpty
      else if (\<exists>c \<in> set (pf_Filename p). c = CHR ''/'' \<or> c = CHR 0x5C) \<or>
              (\<exists>c \<in> set (pf_Filename p). isControl c)
      then Some ErrProfileFilenameInvalid
      else if pf_UpdateInterval p < 1 then Some ErrProfileUpdateIntervalInvalid
      else None)"

section \<open>What a valid reference, group and rule is\<close>

definition ref_ok :: "nat \<Rightarrow> RefDraft \<Rightarrow> bool" where
  "ref_ok n r \<longleftrightarrow>
     (rf_Kind r \<in> set BuiltinPolicyKinds \<and> rf_InboundID r = None \<and> rf_GroupIdx r = None) \<or>
     (rf_Kind r = PolicyInbound \<and> rf_InboundID r \<noteq> None \<and> rf_GroupIdx r = None) \<or>
     (rf_Kind r = PolicyGroup \<and> rf_InboundID r = None \<and>
        (\<exists>i. rf_GroupIdx r = Some i \<and> 0 \<le> i \<and> i < int n))"

lemma builtin_not_ref [simp]:
  "PolicyInbound \<notin> set BuiltinPolicyKinds" "PolicyGroup \<notin> set BuiltinPolicyKinds"
  by (simp_all add: BuiltinPolicyKinds_def policy_kinds)

lemma validateRef_None_iff [validation_simps]: "validateRef r n = None \<longleftrightarrow> ref_ok n r"
  by (auto simp: validateRef_def RefDraft_Valid_None_iff ref_ok_def PolicyKind_Valid_cases
      split: option.splits)

definition groups_ok :: "GroupDraft list \<Rightarrow> bool" where
  "groups_ok groups \<longleftrightarrow>
     (\<forall>g \<in> set groups. GroupDraft_Valid g = None \<and>
        (\<forall>m \<in> set (gd_Members g). ref_ok (length groups) m)) \<and>
     distinct (map gd_Name groups) \<and> acyclic (group_edges groups)"

lemma validate_groups_loop_None_iff:
  "validate_groups_loop n seen gs = None \<longleftrightarrow>
     (\<forall>g \<in> set gs. GroupDraft_Valid g = None \<and> (\<forall>m \<in> set (gd_Members g). ref_ok n m)) \<and>
     distinct (map gd_Name gs) \<and> gd_Name ` set gs \<inter> seen = {}"
  by (induction gs arbitrary: seen) (auto simp: validateRef_None_iff split: if_splits)

lemma groups_ok_iff: "ValidateProxyGroups groups = None \<longleftrightarrow> groups_ok groups"
  by (auto simp: ValidateProxyGroups_def groups_ok_def validate_groups_loop_None_iff
      cyclicGroups_iff)

text \<open>The proper descendants of a rule: its sub-rules, their sub-rules and so on.\<close>

fun nested :: "RuleDraft \<Rightarrow> RuleDraft list" where
  "nested (RuleDraft ty val pidx nores target children) =
     concat (map (\<lambda>c. c # nested c) children)"

text \<open>What every rule node satisfies, and what is asked of it by its position.\<close>

definition node_ok :: "nat \<Rightarrow> RuleDraft \<Rightarrow> bool" where
  "node_ok numProviders r \<longleftrightarrow>
     RuleDraft_Valid r = None \<and>
     (\<forall>i. rd_ProviderIdx r = Some i \<longrightarrow> 0 \<le> i \<and> i < int numProviders) \<and>
     (IsLogical (rd_Type r) \<longrightarrow>
        (if rd_Type r = RuleNot then length (rd_Children r) = 1 else 2 \<le> length (rd_Children r)))"

definition sub_ok :: "RuleDraft \<Rightarrow> bool" where
  "sub_ok r \<longleftrightarrow> rd_Target r = None \<and> \<not> IsMatch (rd_Type r) \<and> rd_NoResolve r \<noteq> Some True"

definition rule_ok :: "bool \<Rightarrow> nat \<Rightarrow> nat \<Rightarrow> RuleDraft \<Rightarrow> bool" where
  "rule_ok is_top numGroups numProviders r \<longleftrightarrow>
     node_ok numProviders r \<and>
     (if is_top then \<exists>t. rd_Target r = Some t \<and> ref_ok numGroups t else sub_ok r) \<and>
     (\<forall>s \<in> set (nested r). node_ok numProviders s \<and> sub_ok s)"

lemma validateRule_None_iff:
  "validateRule r is_top numGroups numProviders = None \<longleftrightarrow> rule_ok is_top numGroups numProviders r"
proof (induction r arbitrary: is_top)
  case (RuleDraft ty val pidx nores target children)
  let ?r = "RuleDraft ty val pidx nores target children"
  have children: "(\<forall>c \<in> set children. validateRule c False numGroups numProviders = None) \<longleftrightarrow>
      (\<forall>s \<in> set (nested ?r). node_ok numProviders s \<and> sub_ok s)"
    using RuleDraft by (auto simp: rule_ok_def)
  have "RuleDraft_Valid ?r = None \<Longrightarrow> \<not> IsLogical ty \<Longrightarrow> children = []"
    "RuleDraft_Valid ?r = None \<Longrightarrow> TakesProvider ty \<longleftrightarrow> pidx \<noteq> None"
    by (auto simp: RuleDraft_Valid_None_iff)
  then show ?case
    unfolding rule_ok_def children [symmetric]
    by (cases "RuleDraft_Valid ?r = None"; cases target)
       (auto simp: node_ok_def sub_ok_def validateRef_None_iff)
qed

definition rules_ok :: "RuleDraft list \<Rightarrow> nat \<Rightarrow> nat \<Rightarrow> bool" where
  "rules_ok rules numGroups numProviders \<longleftrightarrow>
     (\<forall>r \<in> set rules. rule_ok True numGroups numProviders r) \<and>
     (\<forall>r \<in> set (butlast rules). \<not> IsMatch (rd_Type r))"

lemma rules_ok_iff: "ValidateRoutingRules rules ng np = None \<longleftrightarrow> rules_ok rules ng np"
  by (induction rules) (auto simp: rules_ok_def validateRule_None_iff)

definition providers_ok :: "RuleProvider list \<Rightarrow> bool" where
  "providers_ok ps \<longleftrightarrow>
     (\<forall>p \<in> set ps. rp_Name p \<noteq> [] \<and> rp_Behavior p \<in> set RuleProviderBehaviors \<and>
        rp_Format p \<in> set RuleProviderFormats \<and> rp_URL p \<noteq> [])"

lemma providers_ok_iff: "ValidateRuleProviders ps = None \<longleftrightarrow> providers_ok ps"
  by (auto simp: ValidateRuleProviders_def providers_ok_def)

text \<open>The whole draft, as the save handler checks it (the base YAML apart).\<close>

definition draft_ok :: "ConfigDraft \<Rightarrow> bool" where
  "draft_ok d \<longleftrightarrow>
     groups_ok (cd_Groups d) \<and>
     rules_ok (cd_Rules d) (length (cd_Groups d)) (length (cd_Providers d)) \<and>
     providers_ok (cd_Providers d) \<and> ValidateProfile (cd_Profile d) = None"

lemmas validator_iffs = groups_ok_iff rules_ok_iff providers_ok_iff

section \<open>Properties\<close>

text \<open>
  C6: Group validation accepts exactly the well-formed lists: every group is valid by itself (name,
  known type, members, fields its type uses), every member is a built-in policy, an inbound with an
  id or a group index in range, names are distinct, and no group reaches itself through group
  members. The depth-first search with three colours decides the last condition.
\<close>
theorem ValidateProxyGroups_correct:
  "ValidateProxyGroups groups = None \<longleftrightarrow>
     (\<forall>g \<in> set groups.
        gd_Name g \<noteq> [] \<and> ProxyGroupType_Valid (gd_Type g) \<and> gd_Members g \<noteq> [] \<and>
        (UsesHealthCheck (gd_Type g) \<or> gd_URL g = [] \<and> gd_Interval g = None \<and> gd_Lazy g = None) \<and>
        (UsesTolerance (gd_Type g) \<or> gd_Tolerance g = None) \<and>
        (\<forall>m \<in> set (gd_Members g). ref_ok (length groups) m)) \<and>
     distinct (map gd_Name groups) \<and>
     (\<nexists>i. (i, i) \<in> (group_edges groups)\<^sup>+)"
  by (simp add: groups_ok_iff groups_ok_def GroupDraft_Valid_None_iff acyclic_def)

theorem ValidateProxyGroups_correct_witness:
  "\<exists>i. (i, i) \<in> (group_edges
     [\<lparr>gd_Name = ''a'', gd_Type = ''select'', gd_URL = [], gd_Interval = None, gd_Tolerance = None,
       gd_Lazy = None,
       gd_Members = [\<lparr>rf_Kind = ''group'', rf_InboundID = None, rf_GroupIdx = Some 0\<rparr>]\<rparr>])\<^sup>+"
proof -
  let ?gs = "[\<lparr>gd_Name = ''a'', gd_Type = ''select'', gd_URL = [], gd_Interval = None, gd_Tolerance = None,
       gd_Lazy = None,
       gd_Members = [\<lparr>rf_Kind = ''group'', rf_InboundID = None, rf_GroupIdx = Some 0\<rparr>]\<rparr>]"
  have "ValidateProxyGroups ?gs = Some ErrGroupCycle" by code_simp
  moreover have "ProxyGroupType_Valid ''select''" "PolicyGroup = ''group''" by code_simp+
  ultimately show ?thesis
    using ValidateProxyGroups_correct [of ?gs] by (simp add: ref_ok_def)
qed



text \<open>
  Provider, profile and base-document validation accept exactly: providers with a name, a known
  behavior and format and a URL; a profile with a title, a filename free of slashes, backslashes and
  control characters and an update interval of at least one hour; a base document that parses and
  has none of the generated top-level keys.
\<close>
theorem provider_profile_base_valid:
  "(ValidateRuleProviders provs = None \<longleftrightarrow>
      (\<forall>p \<in> set provs. rp_Name p \<noteq> [] \<and> rp_Behavior p \<in> {''domain'', ''ipcidr'', ''classical''} \<and>
         rp_Format p \<in> {''mrs'', ''yaml'', ''text''} \<and> rp_URL p \<noteq> [])) \<and>
   (ValidateProfile pf = None \<longleftrightarrow>
      pf_Title pf \<noteq> [] \<and> pf_Filename pf \<noteq> [] \<and> 1 \<le> pf_UpdateInterval pf \<and>
      (\<forall>c \<in> set (pf_Filename pf). c \<noteq> CHR ''/'' \<and> c \<noteq> CHR 0x5C \<and> \<not> isControl c)) \<and>
   (ValidateBaseYAML unmarshal base = None \<longleftrightarrow>
      (\<exists>m. unmarshal base = Inr m \<and>
         dom (map_of m) \<inter> {''proxies'', ''proxy-groups'', ''rules'', ''rule-providers'', ''sub-rules''} = {}))"
  by (auto simp: providers_ok_iff providers_ok_def RuleProviderBehaviors_def RuleProviderFormats_def
      ValidateProfile_def ValidateBaseYAML_def GeneratedKeys_def domIff split: sum.splits)

theorem provider_profile_base_valid_witness:
  "ValidateProfile \<lparr>pf_Title = ''t'', pf_Filename = ''a/b'', pf_UpdateInterval = 1\<rparr> \<noteq> None"
  using provider_profile_base_valid [of "[]" "\<lparr>pf_Title = ''t'', pf_Filename = ''a/b'', pf_UpdateInterval = 1\<rparr>"
      "\<lambda>_. Inr [] :: unit + (string \<times> unit) list" "[]"]
  by auto

end
