(* ===== verification/RoutingSaveProgress.thy ===== *)
theory RoutingSaveProgress
  imports RoutingRoundTrip MihomoValidate
begin

text \<open>
  When a save succeeds: a draft the validators accept, with distinct provider names and existing
  inbounds, passes every constraint of the database.
\<close>

lemmas constraint_defs = constraints_ok_def checks_ok_def uniq_ok_def fk_ok_def Let_def list_all_iff

lemma distinct_map_filter: "distinct (map f xs) \<Longrightarrow> distinct (map f (filter P xs))"
  by (simp add: distinct_map inj_on_def)

lemma ref_in_cong: "(\<And>i. x = Some i \<Longrightarrow> i \<in> set ids) \<Longrightarrow> ref_in x ids"
  by (auto simp: ref_in_def split: option.splits)

lemma ref_in_Some [simp]: "ref_in (Some i) ids \<longleftrightarrow> i \<in> set ids" "ref_in None ids"
  by (simp_all add: ref_in_def)

lemma ref_in_append [simp]: "ref_in x (xs @ ys) \<longleftrightarrow> ref_in x xs \<or> ref_in x ys"
  by (auto simp: ref_in_def split: option.splits)

lemma distinct_map_pair: "distinct (map f xs) \<Longrightarrow> distinct (map (\<lambda>x. (c x, f x)) xs)"
  by (auto simp: distinct_map inj_on_def)

lemma exec_ok: "constraints_ok (f db) \<Longrightarrow> exec f db = Inr (f db)"
  by (simp add: exec_Inr_iff)

section \<open>The deletes\<close>

lemma constraints_delete_rules:
  assumes "constraints_ok db" and "parents_local db"
  shows "constraints_ok (delete_rules (\<lambda>r. rl_config r = cfg) db)"
proof -
  have eq: "delete_rules (\<lambda>r. rl_config r = cfg) db =
      db\<lparr>db_rules := filter (\<lambda>r. rl_config r \<noteq> cfg) (db_rules db)\<rparr>"
    using cascade_local [OF assms] by (simp add: delete_rules_def)
  have "ref_in (rl_parent r) (map rl_id (filter (\<lambda>r. rl_config r \<noteq> cfg) (db_rules db)))"
    if r: "r \<in> set (db_rules db)" "rl_config r \<noteq> cfg" for r
  proof (rule ref_in_cong)
    fix i
    assume "rl_parent r = Some i"
    then obtain q where "q \<in> set (db_rules db)" "rl_id q = i" "rl_config q \<noteq> cfg"
      using assms(2) r unfolding parents_local_def by metis
    then show "i \<in> set (map rl_id (filter (\<lambda>r. rl_config r \<noteq> cfg) (db_rules db)))" by auto
  qed
  then show ?thesis
    using assms(1) unfolding eq by (simp add: constraint_defs distinct_map_filter)
qed

lemma constraints_delete_members:
  "constraints_ok db \<Longrightarrow> constraints_ok (delete_members P db)"
  by (simp add: constraint_defs delete_members_def distinct_map_filter)

lemma constraints_delete_groups:
  assumes "constraints_ok db"
    and "\<And>m i. m \<in> set (db_members db) \<Longrightarrow> mr_ref m = Some i \<Longrightarrow>
      mr_group m \<in> gr_id ` set (filter (\<lambda>g. gr_config g \<noteq> cfg) (db_groups db)) \<Longrightarrow>
      i \<in> gr_id ` set (filter (\<lambda>g. gr_config g \<noteq> cfg) (db_groups db))"
    and "\<And>r i. r \<in> set (db_rules db) \<Longrightarrow> rl_group r = Some i \<Longrightarrow>
      i \<in> gr_id ` set (filter (\<lambda>g. gr_config g \<noteq> cfg) (db_groups db))"
  shows "constraints_ok (delete_groups (\<lambda>g. gr_config g = cfg) db)"
proof -
  let ?left = "filter (\<lambda>g. gr_config g \<noteq> cfg) (db_groups db)"
  have "mr_group m \<in> gr_id ` set ?left"
    if "m \<in> set (db_members db)" "mr_group m \<notin> gr_id ` set (filter (\<lambda>g. gr_config g = cfg) (db_groups db))" for m
    using fk_member_group [OF assms(1) that(1)] that(2) by auto
  moreover from this have "ref_in (mr_ref m) (map gr_id ?left)"
    if "m \<in> set (db_members db)" "mr_group m \<notin> gr_id ` set (filter (\<lambda>g. gr_config g = cfg) (db_groups db))" for m
    using assms(2) [OF that(1)] that by (intro ref_in_cong) simp
  moreover have "ref_in (rl_group r) (map gr_id ?left)" if "r \<in> set (db_rules db)" for r
    using assms(3) [OF that] by (intro ref_in_cong) simp
  ultimately show ?thesis
    using assms(1) by (simp add: constraint_defs delete_groups_def distinct_map_filter)
qed

lemma constraints_delete_providers:
  assumes "constraints_ok db"
    and "\<And>r i. r \<in> set (db_rules db) \<Longrightarrow> rl_provider r = Some i \<Longrightarrow>
      i \<in> pv_id ` set (filter (\<lambda>p. pv_config p \<noteq> cfg) (db_providers db))"
  shows "constraints_ok (delete_providers (\<lambda>p. pv_config p = cfg) db)"
proof -
  have "ref_in (rl_provider r) (map pv_id (filter (\<lambda>p. pv_config p \<noteq> cfg) (db_providers db)))"
    if "r \<in> set (db_rules db)" for r
    using assms(2) [OF that] by (intro ref_in_cong) simp
  then show ?thesis
    using assms(1) by (simp add: constraint_defs delete_providers_def distinct_map_filter)
qed

text \<open>The deletes of a save never fail on a database whose references stay inside configurations.\<close>

lemma save_delete_succeeds:
  assumes ok: "constraints_ok db" and local: "config_local db"
  shows "\<exists>d. save_delete cfg db = Inr d"
proof -
  let ?mine = "set (map gr_id (filter (\<lambda>g. gr_config g = cfg) (db_groups db)))"
  let ?left = "filter (\<lambda>g. gr_config g \<noteq> cfg) (db_groups db)"
  define d1 where "d1 = delete_rules (\<lambda>r. rl_config r = cfg) db"
  define d2 where "d2 = delete_members (\<lambda>m. mr_group m \<in> ?mine) d1"
  define d3 where "d3 = delete_groups (\<lambda>g. gr_config g = cfg) d2"
  define d4 where "d4 = delete_providers (\<lambda>p. pv_config p = cfg) d3"
  have par: "parents_local db" and tgt: "targets_local db" and mem: "members_local db"
    using local by (simp_all add: config_local_def)
  have rules: "db_rules d1 = filter (\<lambda>r. rl_config r \<noteq> cfg) (db_rules db)"
    using cascade_local [OF ok par] by (simp add: d1_def)
  have d1: "db_groups d1 = db_groups db" "db_members d1 = db_members db" "db_providers d1 = db_providers db"
    by (simp_all add: d1_def delete_rules_def)
  have d2: "db_groups d2 = db_groups db" "db_rules d2 = db_rules d1" "db_providers d2 = db_providers db"
    "db_members d2 = filter (\<lambda>m. mr_group m \<notin> ?mine) (db_members db)"
    by (simp_all add: d2_def delete_members_def d1)
  have d3: "db_rules d3 = db_rules d1" "db_providers d3 = db_providers db"
    by (simp_all add: d3_def delete_groups_def d2 Let_def)
  have ok1: "constraints_ok d1" unfolding d1_def by (rule constraints_delete_rules [OF ok par])
  have ok2: "constraints_ok d2" unfolding d2_def by (rule constraints_delete_members [OF ok1])
  have ok3: "constraints_ok d3"
    unfolding d3_def
  proof (rule constraints_delete_groups [OF ok2])
    fix m i
    assume m: "m \<in> set (db_members d2)" "mr_ref m = Some i"
    then obtain g h where gh: "g \<in> set (db_groups db)" "h \<in> set (db_groups db)" "gr_id g = i"
      "gr_id h = mr_group m" "gr_config g = gr_config h" and "mr_group m \<notin> ?mine"
      using mem by (fastforce simp: members_local_def d2)
    then have "gr_config h \<noteq> cfg" by (auto simp flip: gh(4))
    with gh have "g \<in> set (db_groups db)" "gr_id g = i" "gr_config g \<noteq> cfg" by simp_all
    then show "i \<in> gr_id ` set (filter (\<lambda>g. gr_config g \<noteq> cfg) (db_groups d2))"
      by (auto simp: d2)
  next
    fix r i
    assume "r \<in> set (db_rules d2)" "rl_group r = Some i"
    then show "i \<in> gr_id ` set (filter (\<lambda>g. gr_config g \<noteq> cfg) (db_groups d2))"
      using tgt by (fastforce simp: d2 rules targets_local_def)
  qed
  have ok4: "constraints_ok d4"
    unfolding d4_def
    by (rule constraints_delete_providers [OF ok3])
       (use tgt in \<open>fastforce simp: d3 rules targets_local_def\<close>)
  have "exec (delete_rules (\<lambda>r. rl_config r = cfg)) db = Inr d1"
    "exec (delete_members (\<lambda>m. mr_group m \<in>
       set (map gr_id (filter (\<lambda>g. gr_config g = cfg) (db_groups d1))))) d1 = Inr d2"
    "exec (delete_groups (\<lambda>g. gr_config g = cfg)) d2 = Inr d3"
    "exec (delete_providers (\<lambda>p. pv_config p = cfg)) d3 = Inr d4"
    using ok1 ok2 ok3 ok4 by (simp_all add: exec_Inr_iff d1_def d2_def d3_def d4_def d1(1) delete_rules_def)
  then show ?thesis by (simp only: save_delete_def bind_err_simps) simp
qed

section \<open>The inserts\<close>

lemma constraints_insert_group_rows:
  assumes ok: "constraints_ok d" and cfg: "cfg \<in> cf_id ` set (db_configs d)"
    and none: "\<And>g. g \<in> set (db_groups d) \<Longrightarrow> gr_config g \<noteq> cfg"
    and rows: "\<forall>g \<in> set rows. gr_config g = cfg" and names: "distinct (map gr_name rows)"
  shows "constraints_ok (insert_groups rows d)"
proof -
  let ?new = "number_from set_gr_id (auto_base gr_id (sq_groups d) (db_groups d) + 1) rows"
  have ids: "distinct (map gr_id (db_groups d @ ?new))"
    by (rule gids.distinct_insert) (rule uniq_ids [OF ok])
  have conf: "\<forall>g \<in> set ?new. gr_config g = cfg"
    using rows by (subst number_from_all) (simp_all add: row_simps)
  have "distinct (map gr_name ?new)"
    using names by (subst map_number_from) (simp_all add: row_simps)
  then have "distinct (map (\<lambda>g. (gr_config g, gr_name g)) ?new)" by (rule distinct_map_pair)
  moreover have "(gr_config g, gr_name g) \<noteq> (gr_config h, gr_name h)"
    if "g \<in> set (db_groups d)" "h \<in> set ?new" for g h
    using none [OF that(1)] bspec [OF conf that(2)] by simp
  ultimately have keys: "distinct (map (\<lambda>g. (gr_config g, gr_name g)) (db_groups d @ ?new))"
    using ok by (simp add: constraint_defs) blast
  show ?thesis
    using ok cfg ids keys conf
    unfolding insert_groups_def
    by (simp add: constraint_defs ball_Un)
qed

lemma constraints_insert_groups:
  assumes "constraints_ok d" and "cfg \<in> cf_id ` set (db_configs d)"
    and "\<And>g. g \<in> set (db_groups d) \<Longrightarrow> gr_config g \<noteq> cfg" and "distinct (map gd_Name gs)"
  shows "constraints_ok (insert_groups (group_rows cfg 0 gs) d)"
proof (rule constraints_insert_group_rows [OF assms(1-3)])
  show "\<forall>g \<in> set (group_rows cfg 0 gs). gr_config g = cfg" using group_rows_config by blast
  show "distinct (map gr_name (group_rows cfg 0 gs))" by (simp only: group_rows_sels assms(4))
qed

lemma constraints_insert_provider_rows:
  assumes ok: "constraints_ok d" and cfg: "cfg \<in> cf_id ` set (db_configs d)"
    and none: "\<And>p. p \<in> set (db_providers d) \<Longrightarrow> pv_config p \<noteq> cfg"
    and rows: "\<forall>p \<in> set rows. pv_config p = cfg" and names: "distinct (map pv_name rows)"
  shows "constraints_ok (insert_providers rows d)"
proof -
  let ?new = "number_from set_pv_id (auto_base pv_id (sq_providers d) (db_providers d) + 1) rows"
  have ids: "distinct (map pv_id (db_providers d @ ?new))"
    by (rule pids.distinct_insert) (rule uniq_ids [OF ok])
  have conf: "\<forall>p \<in> set ?new. pv_config p = cfg"
    using rows by (subst number_from_all) (simp_all add: row_simps)
  have "distinct (map pv_name ?new)"
    using names by (subst map_number_from) (simp_all add: row_simps)
  then have "distinct (map (\<lambda>p. (pv_config p, pv_name p)) ?new)" by (rule distinct_map_pair)
  moreover have "(pv_config p, pv_name p) \<noteq> (pv_config q, pv_name q)"
    if "p \<in> set (db_providers d)" "q \<in> set ?new" for p q
    using none [OF that(1)] bspec [OF conf that(2)] by simp
  ultimately have keys: "distinct (map (\<lambda>p. (pv_config p, pv_name p)) (db_providers d @ ?new))"
    using ok by (simp add: constraint_defs) blast
  show ?thesis
    using ok cfg ids keys conf
    unfolding insert_providers_def
    by (simp add: constraint_defs ball_Un)
qed

lemma constraints_insert_providers:
  assumes "constraints_ok d" and "cfg \<in> cf_id ` set (db_configs d)"
    and "\<And>p. p \<in> set (db_providers d) \<Longrightarrow> pv_config p \<noteq> cfg" and "distinct (map rp_Name ps)"
  shows "constraints_ok (insert_providers (map (provider_row_of cfg) ps) d)"
  using assms by (intro constraints_insert_provider_rows) (auto simp: provider_row_of_def comp_def)

text \<open>A repeated name among the providers of a draft is the one constraint a validated draft can break.\<close>

lemma insert_providers_repeated:
  assumes ok: "constraints_ok d" and names: "\<not> distinct (map rp_Name ps)"
  shows "exec (insert_providers (map (provider_row_of cfg) ps)) d = Inl (DBErr UniqueViolation)"
proof -
  let ?new = "number_from set_pv_id (auto_base pv_id (sq_providers d) (db_providers d) + 1)
    (map (provider_row_of cfg) ps)"
  have conf: "\<forall>p \<in> set ?new. pv_config p = cfg"
    using number_from_pv_config by blast
  have "map pv_name ?new = map rp_Name ps"
    by (subst map_number_from) (simp_all add: row_simps provider_row_of_def comp_def)
  moreover have "map (\<lambda>p. (pv_config p, pv_name p)) ?new = map (\<lambda>n. (cfg, n)) (map pv_name ?new)"
    using conf by simp
  ultimately have "\<not> distinct (map (\<lambda>p. (pv_config p, pv_name p)) ?new)"
    using names by (simp add: distinct_map inj_on_def)
  then have "\<not> uniq_ok (insert_providers (map (provider_row_of cfg) ps) d)"
    by (simp add: insert_providers_def uniq_ok_def Let_def)
  moreover have "checks_ok (insert_providers (map (provider_row_of cfg) ps) d)"
    using ok by (simp add: insert_providers_def constraint_defs)
  ultimately show ?thesis by (simp add: exec_def)
qed

definition member_fits :: "int list \<Rightarrow> int list \<Rightarrow> member_row \<Rightarrow> bool" where
  "member_fits inbounds gids m \<longleftrightarrow> member_check m \<and> mr_group m \<in> set gids \<and>
     ref_in (mr_inbound m) inbounds \<and> ref_in (mr_ref m) gids"

lemma constraints_insert_members:
  assumes ok: "constraints_ok d"
    and fits: "\<forall>m \<in> set rows. member_fits (map ir_id (db_inbounds d)) (map gr_id (db_groups d)) m"
  shows "constraints_ok (insert_members rows d)"
proof -
  let ?new = "number_from set_mr_id (auto_base mr_id (sq_members d) (db_members d) + 1) rows"
  have "distinct (map mr_id (db_members d))"
    using ok by (simp add: constraint_defs)
  then have ids: "distinct (map mr_id (db_members d @ ?new))"
    by (rule mids.distinct_insert)
  have new: "\<forall>m \<in> set ?new. member_fits (map ir_id (db_inbounds d)) (map gr_id (db_groups d)) m"
    using fits by (subst number_from_all) (simp_all add: member_fits_def member_check_def row_simps)
  show ?thesis
    using ok ids new
    unfolding insert_members_def
    by (simp add: constraint_defs ball_Un member_fits_def)
qed

definition rule_fits :: "int list \<Rightarrow> int list \<Rightarrow> int list \<Rightarrow> rule_row \<Rightarrow> bool" where
  "rule_fits inbounds gids pids r \<longleftrightarrow> rule_check r \<and> ref_in (rl_inbound r) inbounds \<and>
     ref_in (rl_group r) gids \<and> ref_in (rl_provider r) pids"

lemma constraints_insert_rules:
  assumes ok: "constraints_ok d" and cfg: "cfg \<in> cf_id ` set (db_configs d)"
    and ids: "distinct (map rl_id rows)" "\<And>r q. r \<in> set (db_rules d) \<Longrightarrow> q \<in> set rows \<Longrightarrow> rl_id r \<noteq> rl_id q"
    and conf: "\<forall>r \<in> set rows. rl_config r = cfg"
    and parents: "\<forall>r \<in> set rows. ref_in (rl_parent r) (map rl_id rows)"
    and fits: "\<forall>r \<in> set rows. rule_fits (map ir_id (db_inbounds d)) (map gr_id (db_groups d))
      (map pv_id (db_providers d)) r"
  shows "constraints_ok (insert_rules rows d)"
proof -
  have "distinct (map rl_id (db_rules d @ rows))"
    using uniq_ids(3) [OF ok] ids by auto
  then show ?thesis
    using ok cfg conf parents fits
    unfolding insert_rules_def
    by (simp add: constraint_defs ball_Un rule_fits_def)
qed

lemma constraints_upsert_setting:
  assumes ok: "constraints_ok d" and cfg: "sr_config x \<in> cf_id ` set (db_configs d)"
  shows "constraints_ok (upsert_setting x d)"
proof -
  have "distinct (map (\<lambda>s. (sr_config s, sr_key s)) (upsert (\<lambda>s. (sr_config s, sr_key s)) x (db_settings d)))"
    using ok by (intro distinct_upsert) (simp add: constraint_defs)
  moreover have "\<forall>s \<in> set (upsert (\<lambda>s. (sr_config s, sr_key s)) x (db_settings d)).
      sr_config s \<in> cf_id ` set (db_configs d)"
    using ok cfg set_upsert [of "\<lambda>s. (sr_config s, sr_key s)" x "db_settings d"]
    by (auto simp: constraint_defs)
  ultimately show ?thesis
    using ok unfolding upsert_setting_def by (simp add: constraint_defs)
qed

lemma constraints_upsert_profile:
  assumes ok: "constraints_ok d" and cfg: "fr_config x \<in> cf_id ` set (db_configs d)"
  shows "constraints_ok (upsert_profile x d)"
proof -
  have "distinct (map fr_config (upsert fr_config x (db_profiles d)))"
    using ok by (intro distinct_upsert) (simp add: constraint_defs)
  moreover have "\<forall>f \<in> set (upsert fr_config x (db_profiles d)). fr_config f \<in> cf_id ` set (db_configs d)"
    using ok cfg set_upsert [of fr_config x "db_profiles d"] by (auto simp: constraint_defs)
  ultimately show ?thesis
    using ok unfolding upsert_profile_def by (simp add: constraint_defs)
qed

section \<open>The rows of a valid draft\<close>

definition inbound_known :: "int list \<Rightarrow> RefDraft \<Rightarrow> bool" where
  "inbound_known inbounds m \<longleftrightarrow> ref_in (rf_InboundID m) inbounds"

lemma refColumns_ok:
  assumes "ref_ok (length gids) m" and "inbound_known inbounds m"
  shows "\<exists>ib gp. refColumns m gids = Inr (ib, gp) \<and>
    ((rf_Kind m = ''inbound'') = (ib \<noteq> None)) \<and> ((rf_Kind m = ''group'') = (gp \<noteq> None)) \<and>
    ref_in ib inbounds \<and> ref_in gp gids"
proof -
  have "rf_Kind m \<noteq> PolicyInbound" "rf_Kind m \<noteq> PolicyGroup"
    if "rf_Kind m \<in> set BuiltinPolicyKinds" using that builtin_not_ref by auto
  moreover have "nat i < length gids" if "0 \<le> i" "i < int (length gids)" for i
    using that by linarith
  ultimately show ?thesis
    using assms
    by (auto simp: ref_ok_def refColumns_def inbound_known_def PolicyInbound_def [symmetric]
        PolicyGroup_def [symmetric])
qed

lemma member_rows_of_ok:
  assumes "\<forall>m \<in> set ms. ref_ok (length gids) m \<and> inbound_known inbounds m" and "gid \<in> set gids"
  shows "\<exists>rows. member_rows_of gids gid j ms = Inr rows \<and> (\<forall>r \<in> set rows. member_fits inbounds gids r)"
  using assms(1)
proof (induction ms arbitrary: j)
  case (Cons m ms)
  from refColumns_ok [of gids m inbounds] Cons.prems
  obtain ib gp where m: "refColumns m gids = Inr (ib, gp)"
    "(rf_Kind m = ''inbound'') = (ib \<noteq> None)" "(rf_Kind m = ''group'') = (gp \<noteq> None)"
    "ref_in ib inbounds" "ref_in gp gids" by auto
  from Cons.IH [of "j + 1"] Cons.prems obtain rows where "member_rows_of gids gid (j + 1) ms = Inr rows"
    "\<forall>r \<in> set rows. member_fits inbounds gids r" by auto
  with m assms(2) show ?case by (simp add: member_fits_def member_check_def)
qed simp

lemma member_rows_ok:
  assumes "\<forall>g \<in> set gs. \<forall>m \<in> set (gd_Members g). ref_ok (length gids) m \<and> inbound_known inbounds m"
    and "i + length gs \<le> length gids"
  shows "\<exists>rows. member_rows gids i gs = Inr rows \<and> (\<forall>r \<in> set rows. member_fits inbounds gids r)"
  using assms
proof (induction gs arbitrary: i)
  case (Cons g gs)
  from Cons.prems member_rows_of_ok [of "gd_Members g" gids inbounds "gids ! i" 0]
  obtain block where "member_rows_of gids (gids ! i) 0 (gd_Members g) = Inr block"
    "\<forall>r \<in> set block. member_fits inbounds gids r" by auto
  moreover from Cons.IH [of "Suc i"] Cons.prems obtain rest where "member_rows gids (Suc i) gs = Inr rest"
    "\<forall>r \<in> set rest. member_fits inbounds gids r" by auto
  ultimately show ?case by auto
qed simp

text \<open>The references of a rule tree: the targets of the rule and its descendants.\<close>

definition targets_known :: "int list \<Rightarrow> RuleDraft \<Rightarrow> bool" where
  "targets_known inbounds d \<longleftrightarrow> (\<forall>t. rd_Target d = Some t \<longrightarrow> inbound_known inbounds t)"

lemma rule_ok_children:
  "rule_ok t ng np d \<Longrightarrow> c \<in> set (rd_Children d) \<Longrightarrow> rule_ok False ng np c"
  by (cases d) (fastforce simp: rule_ok_def)

lemma target_columns_ok:
  assumes "\<forall>t. target = Some t \<longrightarrow> ref_ok (length gids) t \<and> inbound_known inbounds t"
  shows "\<exists>ib gp kind. target_columns target gids = Inr (ib, gp, kind) \<and>
    (kind \<noteq> None) = (target \<noteq> None) \<and> ref_in ib inbounds \<and> ref_in gp gids \<and>
    (\<forall>k. kind = Some k \<longrightarrow> ((k = ''inbound'') = (ib \<noteq> None)) \<and> ((k = ''group'') = (gp \<noteq> None)))"
  using assms refColumns_ok [of gids _ inbounds]
  by (cases target) (fastforce simp: target_columns_def)+

lemma providerColumn_ok:
  assumes "\<forall>i. pidx = Some i \<longrightarrow> 0 \<le> i \<and> i < int (length pids)"
  shows "\<exists>p. providerColumn pidx pids = Inr p \<and> ref_in p pids"
proof (cases pidx)
  case (Some i)
  with assms have "nat i < length pids" "0 \<le> i" by (auto simp: nat_less_iff)
  with Some show ?thesis by (auto simp: providerColumn_def)
qed (simp add: providerColumn_def)

lemma build_rules_ok:
  assumes "\<forall>d \<in> set ds. rule_ok is_top (length gids) (length pids) d \<and> targets_known inbounds d"
    and "is_top \<longleftrightarrow> parent = None"
  shows "\<exists>rows e. build_rules cfg gids pids nx parent pos ds = Inr (rows, e) \<and>
    (\<forall>r \<in> set rows. rule_fits inbounds gids pids r)"
  using assms
proof (induction "size_list size ds" arbitrary: ds nx parent pos is_top rule: less_induct)
  case less
  show ?case
  proof (cases ds)
    case Nil
    then show ?thesis by simp
  next
    case (Cons d rs)
    obtain ty val pidx nores target children where d_eq: "d = RuleDraft ty val pidx nores target children"
      by (cases d)
    have d: "rule_ok is_top (length gids) (length pids) d" "targets_known inbounds d"
      using less.prems(1) Cons by simp_all
    have target: "\<forall>t. target = Some t \<longrightarrow> ref_ok (length gids) t \<and> inbound_known inbounds t"
      using d by (auto simp: d_eq rule_ok_def sub_ok_def targets_known_def split: if_splits)
    have kind: "target = None \<longleftrightarrow> parent \<noteq> None"
      using d less.prems(2) by (auto simp: d_eq rule_ok_def sub_ok_def split: if_splits)
    from target_columns_ok [OF target] obtain ib gp kind where cols:
      "target_columns target gids = Inr (ib, gp, kind) \<and>
       (kind \<noteq> None) = (target \<noteq> None) \<and> ref_in ib inbounds \<and> ref_in gp gids \<and>
       (\<forall>k. kind = Some k \<longrightarrow> ((k = ''inbound'') = (ib \<noteq> None)) \<and> ((k = ''group'') = (gp \<noteq> None)))"
      by (elim exE)
    note t = conjunct1 [OF cols] conjunct2 [OF cols]
    have "\<forall>i. pidx = Some i \<longrightarrow> 0 \<le> i \<and> i < int (length pids)"
      using d(1) by (simp add: d_eq rule_ok_def node_ok_def)
    from providerColumn_ok [OF this]
    obtain p where p: "providerColumn pidx pids = Inr p" "ref_in p pids" by blast
    have children: "\<forall>c \<in> set children. rule_ok False (length gids) (length pids) c \<and> targets_known inbounds c"
    proof
      fix c
      assume "c \<in> set children"
      with rule_ok_children [OF d(1)] have "rule_ok False (length gids) (length pids) c"
        by (simp add: d_eq)
      then show "rule_ok False (length gids) (length pids) c \<and> targets_known inbounds c"
        by (simp add: rule_ok_def sub_ok_def targets_known_def)
    qed
    have "\<exists>sub mid. build_rules cfg gids pids (nx + 1) (Some (nx + 1)) 0 children = Inr (sub, mid) \<and>
        (\<forall>r \<in> set sub. rule_fits inbounds gids pids r)"
      by (rule less.hyps [OF _ children]) (simp_all add: Cons d_eq)
    then obtain sub mid where sub: "(if IsLogical ty
         then build_rules cfg gids pids (nx + 1) (Some (nx + 1)) 0 children
         else Inr ([], nx + 1)) = Inr (sub, mid)" "\<forall>r \<in> set sub. rule_fits inbounds gids pids r"
      by (cases "IsLogical ty") auto
    have "\<exists>rest e. build_rules cfg gids pids mid parent (pos + 1) rs = Inr (rest, e) \<and>
        (\<forall>r \<in> set rest. rule_fits inbounds gids pids r)"
      by (rule less.hyps [OF _ _ less.prems(2)]) (use less.prems(1) Cons in auto)
    then obtain rest e where rest: "build_rules cfg gids pids mid parent (pos + 1) rs = Inr (rest, e)"
      "\<forall>r \<in> set rest. rule_fits inbounds gids pids r" by blast
    define row where "row = \<lparr>rl_id = nx + 1, rl_config = cfg, rl_parent = parent, rl_position = pos,
                  rl_type = ty, rl_value = val, rl_provider = p,
                  rl_no_resolve = boolInt (nores = Some True), rl_kind = kind,
                  rl_inbound = ib, rl_group = gp\<rparr>"
    have "build_rules cfg gids pids nx parent pos ds = Inr (row # sub @ rest, e)"
      by (simp add: Cons d_eq t(1) p(1) sub(1) rest(1) row_def Let_def)
    moreover have "(parent = None) = (kind \<noteq> None)" using kind t(2) by auto
    then have "rule_check row" using t(2) by (cases kind) (simp_all add: rule_check_def row_def)
    then have "rule_fits inbounds gids pids row"
      using t(2) p(2) by (simp add: rule_fits_def row_def)
    ultimately show ?thesis using sub(2) rest(2) by auto
  qed
qed

end
