(* ===== verification/RoutingSaveTotal.thy ===== *)
theory RoutingSaveTotal
  imports RoutingSaveProgress
begin

text \<open>
  A validated draft always saves, and the one constraint it can still break, a repeated provider
  name, is reported by its own error with nothing changed.
\<close>

lemma batch_insert_ok: "constraints_ok (ins rows db) \<Longrightarrow> \<exists>db'. batch_insert ins rows db = Inr db'"
  by (simp add: batch_insert_def exec_Inr_iff)

lemma batch_insert_constraints:
  "batch_insert ins rows db = Inr db' \<Longrightarrow> constraints_ok db \<Longrightarrow> constraints_ok db'"
  by (auto simp: batch_insert_def exec_Inr_iff split: if_splits)

definition draft_inbounds_known :: "db \<Rightarrow> ConfigDraft \<Rightarrow> bool" where
  "draft_inbounds_known db draft \<longleftrightarrow>
     (\<forall>g \<in> set (cd_Groups draft). \<forall>m \<in> set (gd_Members g).
        inbound_known (map ir_id (db_inbounds db)) m) \<and>
     (\<forall>r \<in> set (cd_Rules draft). targets_known (map ir_id (db_inbounds db)) r)"

text \<open>The state after the deletes and the groups, where the providers go in.\<close>

lemma save_until_providers:
  assumes "constraints_ok db" and "config_local db" and cfg: "cfg \<in> cf_id ` set (db_configs db)"
    and "groups_ok (cd_Groups draft)"
  obtains d dg s where "save_delete cfg db = Inr d"
    "batch_insert insert_groups (group_rows cfg 0 (cd_Groups draft)) d = Inr dg"
    "dg = d\<lparr>db_groups := db_groups d @ draft_groups cfg draft d, sq_groups := s\<rparr>"
    "group_ids cfg dg = map gr_id (draft_groups cfg draft d)"
    "constraints_ok dg" "\<And>p. p \<in> set (db_providers dg) \<Longrightarrow> pv_config p \<noteq> cfg"
    "cfg \<in> cf_id ` set (db_configs dg)"
proof -
  obtain d where d: "save_delete cfg db = Inr d"
    using save_delete_succeeds [OF assms(1,2)] by blast
  note del = save_delete_Inr [OF d]
  have cfgd: "cfg \<in> cf_id ` set (db_configs d)" using cfg by (simp add: del(7))
  have "constraints_ok (insert_groups (group_rows cfg 0 (cd_Groups draft)) d)"
    by (rule constraints_insert_groups [OF del(15) cfgd]) (use del(1) assms(4) in \<open>auto simp: groups_ok_def\<close>)
  from batch_insert_ok [of insert_groups, OF this]
  obtain dg where dg: "batch_insert insert_groups (group_rows cfg 0 (cd_Groups draft)) d = Inr dg" by blast
  note g = batch_insert_groups [OF dg, folded draft_groups_def]
  obtain s where s: "dg = d\<lparr>db_groups := db_groups d @ draft_groups cfg draft d, sq_groups := s\<rparr>"
    by (rule that, rule trans [OF g(2)]) (simp add: g(1))
  have "group_ids cfg dg = map gr_id (draft_groups cfg draft d)"
    using config_groups_after_delete [OF _ g(1)] del(1)
    by (simp add: group_ids_eq filter_empty_conv)
  with that [OF d dg s] batch_insert_constraints [OF dg del(15)] cfgd del(2) show ?thesis
    by (simp add: s)
qed

lemma fits_mono:
  "member_fits inbounds gids m \<Longrightarrow> set gids \<subseteq> set gids' \<Longrightarrow> member_fits inbounds gids' m"
  "rule_fits inbounds gids pids r \<Longrightarrow> set gids \<subseteq> set gids' \<Longrightarrow> set pids \<subseteq> set pids' \<Longrightarrow>
     rule_fits inbounds gids' pids' r"
  by (auto simp: member_fits_def rule_fits_def ref_in_def split: option.splits)

lemma maxRuleID_ge: "r \<in> set (db_rules db) \<Longrightarrow> rl_id r \<le> maxRuleID db"
  by (cases "db_rules db") (auto simp: maxRuleID_def fold_max_ge intro: fold_max_ge)

lemma save_tx_succeeds:
  assumes "constraints_ok db" and "config_local db" and "cfg \<in> cf_id ` set (db_configs db)"
    and groups: "groups_ok (cd_Groups draft)"
    and rules: "rules_ok (cd_Rules draft) (length (cd_Groups draft)) (length (cd_Providers draft))"
    and names: "distinct (map rp_Name (cd_Providers draft))"
    and known: "draft_inbounds_known db draft"
  shows "\<exists>db'. save_tx cfg draft db = Inr ((), db')"
proof -
  from save_until_providers [OF assms(1-4)]
  obtain d dg s where d: "save_delete cfg db = Inr d"
    and dg: "batch_insert insert_groups (group_rows cfg 0 (cd_Groups draft)) d = Inr dg"
    and s: "dg = d\<lparr>db_groups := db_groups d @ draft_groups cfg draft d, sq_groups := s\<rparr>"
    and gids: "group_ids cfg dg = map gr_id (draft_groups cfg draft d)"
    and okg: "constraints_ok dg" and noprov: "\<And>p. p \<in> set (db_providers dg) \<Longrightarrow> pv_config p \<noteq> cfg"
    and cfgg: "cfg \<in> cf_id ` set (db_configs dg)" by blast
  let ?gids = "map gr_id (draft_groups cfg draft d)" and ?in = "map ir_id (db_inbounds db)"
  let ?new_p = "number_from set_pv_id (auto_base pv_id (sq_providers dg) (db_providers dg) + 1)
    (map (provider_row_of cfg) (cd_Providers draft))"
  have inb: "map ir_id (db_inbounds dg) = ?in" by (simp add: s save_delete_Inr(8) [OF d])
  from batch_insert_ok [of insert_providers, OF constraints_insert_providers [OF okg cfgg noprov names]]
  obtain dp where dp: "batch_insert insert_providers (map (provider_row_of cfg) (cd_Providers draft)) dg = Inr dp"
    by blast
  note p = batch_insert_providers [OF dp]
  have okp: "constraints_ok dp" by (rule batch_insert_constraints [OF dp okg])
  obtain s2 where dp': "dp = dg\<lparr>db_providers := db_providers dg @ ?new_p, sq_providers := s2\<rparr>"
    by (rule that, rule trans [OF p(2)]) (simp add: p(1))
  have pids: "provider_ids cfg dp = map pv_id ?new_p"
    using provider_ids_after_delete [of cfg dg dp draft] noprov p(1)
    by (simp add: filter_empty_conv draft_providers_def)
  have "\<exists>rows. member_rows ?gids 0 (cd_Groups draft) = Inr rows \<and> (\<forall>r \<in> set rows. member_fits ?in ?gids r)"
    by (rule member_rows_ok) (use groups known in \<open>auto simp: groups_ok_def draft_inbounds_known_def\<close>)
  then obtain mrows where mrows: "member_rows ?gids 0 (cd_Groups draft) = Inr mrows"
    "\<forall>r \<in> set mrows. member_fits ?in ?gids r" by blast
  have "constraints_ok (insert_members mrows dp)"
    by (rule constraints_insert_members [OF okp])
       (use mrows(2) inb in \<open>auto simp: dp' s intro: fits_mono(1)\<close>)
  from batch_insert_ok [of insert_members, OF this]
  obtain dm where dm: "batch_insert insert_members mrows dp = Inr dm" by blast
  note m = batch_insert_members [OF dm]
  have okm: "constraints_ok dm" by (rule batch_insert_constraints [OF dm okp])
  have dmf: "db_configs dm = db_configs dg" "db_groups dm = db_groups dg"
    "db_providers dm = db_providers dg @ ?new_p" "map ir_id (db_inbounds dm) = ?in"
    by (subst m(2), simp add: dp' inb)+
  have "\<exists>rows e. build_rules cfg ?gids (map pv_id ?new_p) (maxRuleID dm) None 0 (cd_Rules draft) = Inr (rows, e) \<and>
      (\<forall>r \<in> set rows. rule_fits ?in ?gids (map pv_id ?new_p) r)"
    by (rule build_rules_ok [where is_top = True])
       (use rules known in \<open>auto simp: rules_ok_def draft_inbounds_known_def\<close>)
  then obtain rrows e where rrows: "build_rules cfg ?gids (map pv_id ?new_p) (maxRuleID dm) None 0 (cd_Rules draft) = Inr (rrows, e)"
    "\<forall>r \<in> set rrows. rule_fits ?in ?gids (map pv_id ?new_p) r" by blast
  note shape = build_rules_shape [OF rrows(1)]
  have ids: "rl_id r \<in> {maxRuleID dm + 1 .. e}" if "r \<in> set rrows" for r
  proof -
    have "rl_id r \<in> set (map rl_id rrows)" using that by simp
    then show ?thesis using shape by (metis set_upto)
  qed
  have "constraints_ok (insert_rules rrows dm)"
  proof (rule constraints_insert_rules [OF okm, where cfg = cfg])
    show "distinct (map rl_id rrows)" using shape by simp
    show "rl_id r \<noteq> rl_id q" if "r \<in> set (db_rules dm)" "q \<in> set rrows" for r q
      using maxRuleID_ge [OF that(1)] ids [OF that(2)] by auto
    show "\<forall>r \<in> set rrows. ref_in (rl_parent r) (map rl_id rrows)"
      using shape ids by (fastforce simp: ref_in_def split: option.splits)
    show "\<forall>r \<in> set rrows. rule_fits (map ir_id (db_inbounds dm)) (map gr_id (db_groups dm))
        (map pv_id (db_providers dm)) r"
      using rrows(2) fits_mono(2) by (fastforce simp: dmf s)
  qed (use shape cfgg in \<open>simp_all add: dmf\<close>)
  from batch_insert_ok [of insert_rules, OF this]
  obtain dr where dr: "batch_insert insert_rules rrows dm = Inr dr" by blast
  have okr: "constraints_ok dr" by (rule batch_insert_constraints [OF dr okm])
  have cfgr: "cfg \<in> cf_id ` set (db_configs dr)"
    using cfgg by (simp add: batch_insert_rules [OF dr] dmf)
  let ?set = "upsert_setting \<lparr>sr_config = cfg, sr_key = ''base_yaml'', sr_value = cd_BaseYAML draft\<rparr>"
  have oks: "constraints_ok (?set dr)"
    by (rule constraints_upsert_setting [OF okr]) (simp add: cfgr)
  let ?prof = "upsert_profile \<lparr>fr_config = cfg, fr_title = pf_Title (cd_Profile draft),
    fr_filename = pf_Filename (cd_Profile draft), fr_update_interval = pf_UpdateInterval (cd_Profile draft)\<rparr>"
  have okf: "constraints_ok (?prof (?set dr))"
    by (rule constraints_upsert_profile [OF oks]) (use cfgr in \<open>simp add: upsert_setting_def\<close>)
  show ?thesis
    by (simp add: save_tx_def d dg gids Let_def save_providers_Inr [THEN iffD2, OF dp] pids mrows(1) dm
        insertRules_def rrows(1) dr exec_ok [of ?set dr, OF oks]
        exec_ok [of ?prof, OF okf])
qed

lemma save_tx_repeated_provider:
  assumes "constraints_ok db" and "config_local db" and "cfg \<in> cf_id ` set (db_configs db)"
    and "groups_ok (cd_Groups draft)" and names: "\<not> distinct (map rp_Name (cd_Providers draft))"
  shows "save_tx cfg draft db = Inl (Domain ErrRuleProviderNameTaken)"
proof -
  from save_until_providers [OF assms(1-4)]
  obtain d dg and s :: int where d: "save_delete cfg db = Inr d"
    and dg: "batch_insert insert_groups (group_rows cfg 0 (cd_Groups draft)) d = Inr dg"
    and okg: "constraints_ok dg" by blast
  have "cd_Providers draft \<noteq> []" using names by auto
  then have "save_providers cfg (cd_Providers draft) dg = Inl (Domain ErrRuleProviderNameTaken)"
    using insert_providers_repeated [OF okg names]
    by (simp add: save_providers_def batch_insert_def IsUniqueViolation_def)
  then show ?thesis by (simp add: save_tx_def d dg Let_def)
qed

end
