(* ===== verification/RoutingLocal.thy ===== *)
theory RoutingLocal
  imports RoutingSaveTotal
begin

text \<open>
  A save keeps the invariant that references stay inside a configuration.
\<close>

lemma build_rules_range:
  assumes "build_rules cfg gids pids nx parent pos ds = Inr (rows, end_id)"
  shows "\<forall>r \<in> set rows. (\<forall>g. rl_group r = Some g \<longrightarrow> g \<in> set gids) \<and>
    (\<forall>p. rl_provider r = Some p \<longrightarrow> p \<in> set pids)"
  using assms
proof (induction "length rows" arbitrary: nx parent pos ds rows end_id rule: less_induct)
  case less
  show ?case
  proof (cases ds)
    case Nil
    with less.prems show ?thesis by simp
  next
    case (Cons d ds')
    from build_rules_Cons_Inr [OF less.prems [unfolded Cons]]
    obtain row sub mid rest where *: "rows = row # sub @ rest"
      "(if IsLogical (rd_Type d)
        then build_rules cfg gids pids (nx + 1) (Some (nx + 1)) 0 (rd_Children d)
        else Inr ([], nx + 1)) = Inr (sub, mid)"
      "build_rules cfg gids pids mid parent (pos + 1) ds' = Inr (rest, end_id)"
      "\<forall>g. rl_group row = Some g \<longrightarrow> g \<in> set gids" "\<forall>p. rl_provider row = Some p \<longrightarrow> p \<in> set pids" .
    have "\<forall>r \<in> set sub. (\<forall>g. rl_group r = Some g \<longrightarrow> g \<in> set gids) \<and>
        (\<forall>p. rl_provider r = Some p \<longrightarrow> p \<in> set pids)"
    proof (cases "IsLogical (rd_Type d)")
      case True
      with less.hyps [of sub] *(1,2) show ?thesis by simp
    next
      case False
      with *(2) show ?thesis by simp
    qed
    moreover have "\<forall>r \<in> set rest. (\<forall>g. rl_group r = Some g \<longrightarrow> g \<in> set gids) \<and>
        (\<forall>p. rl_provider r = Some p \<longrightarrow> p \<in> set pids)"
      by (rule less.hyps [OF _ *(3)]) (simp add: *(1))
    ultimately show ?thesis using * by auto
  qed
qed

lemma member_rows_of_range:
  "member_rows_of gids gid j ms = Inr rows \<Longrightarrow>
     \<forall>r \<in> set rows. \<forall>g. mr_ref r = Some g \<longrightarrow> g \<in> set gids"
  by (induction ms arbitrary: j rows) (auto simp: bind_err_Inr_iff refColumns_range)

lemma member_rows_range:
  "member_rows gids i gs = Inr rows \<Longrightarrow>
     \<forall>r \<in> set rows. \<forall>g. mr_ref r = Some g \<longrightarrow> g \<in> set gids"
  by (induction gs arbitrary: i rows) (fastforce simp: bind_err_Inr_iff dest: member_rows_of_range)+

lemma build_rules_parents:
  assumes "build_rules cfg gids pids nx None pos ds = Inr (rows, end_id)"
    and "r \<in> set rows" and "rl_parent r = Some p"
  shows "\<exists>q \<in> set rows. rl_id q = p \<and> rl_config q = rl_config r"
proof -
  note shape = build_rules_shape [OF assms(1)]
  have "rl_id r \<in> set (map rl_id rows)" using assms(2) by simp
  then have "rl_id r \<le> end_id" using shape by (metis atLeastAtMost_iff set_upto)
  moreover have "nx < p" "p < rl_id r" using shape assms(2,3) by auto
  ultimately have "p \<in> set [nx + 1 .. end_id]" by simp
  then have "p \<in> set (map rl_id rows)" using shape by simp
  then obtain q where "q \<in> set rows" "rl_id q = p" by auto
  then show ?thesis using shape assms(2) by auto
qed

text \<open>References of one table into another that stay inside a configuration.\<close>

definition refs_local ::
    "('r \<Rightarrow> int option) \<Rightarrow> ('r \<Rightarrow> int) \<Rightarrow> ('q \<Rightarrow> int) \<Rightarrow> ('q \<Rightarrow> int) \<Rightarrow> 'r list \<Rightarrow> 'q list \<Rightarrow> bool" where
  "refs_local ref cr key cq rs qs \<longleftrightarrow>
     (\<forall>r \<in> set rs. \<forall>i. ref r = Some i \<longrightarrow> (\<exists>q \<in> set qs. key q = i \<and> cq q = cr r))"

lemma refs_localD:
  "refs_local ref cr key cq rs qs \<Longrightarrow> r \<in> set rs \<Longrightarrow> ref r = Some i \<Longrightarrow>
     \<exists>q \<in> set qs. key q = i \<and> cq q = cr r"
  by (simp add: refs_local_def)

lemma refs_local_filter:
  assumes "refs_local ref cr key cq rs qs"
  shows "refs_local ref cr key cq (filter (\<lambda>r. cr r \<noteq> cfg) rs) (filter (\<lambda>q. cq q \<noteq> cfg) qs)"
  unfolding refs_local_def
proof (intro ballI allI impI)
  fix r i
  assume "r \<in> set (filter (\<lambda>r. cr r \<noteq> cfg) rs)" "ref r = Some i"
  then obtain q where "q \<in> set qs" "key q = i" "cq q = cr r" "cr r \<noteq> cfg"
    using refs_localD [OF assms] by auto
  then show "\<exists>q \<in> set (filter (\<lambda>q. cq q \<noteq> cfg) qs). key q = i \<and> cq q = cr r" by auto
qed

lemma refs_local_append:
  "refs_local ref cr key cq rs qs \<Longrightarrow> refs_local ref cr key cq rs' qs' \<Longrightarrow>
     refs_local ref cr key cq (rs @ rs') (qs @ qs')"
  unfolding refs_local_def set_append ball_Un bex_Un by blast

lemma local_refs:
  "parents_local db = refs_local rl_parent rl_config rl_id rl_config (db_rules db) (db_rules db)"
  "targets_local db \<longleftrightarrow> refs_local rl_group rl_config gr_id gr_config (db_rules db) (db_groups db) \<and>
     refs_local rl_provider rl_config pv_id pv_config (db_rules db) (db_providers db)"
  by (simp_all add: parents_local_def targets_local_def refs_local_def)

text \<open>What survives the deletes of a save still refers to rows that survive.\<close>

lemma save_delete_local:
  assumes d: "save_delete cfg db = Inr d" and ok: "constraints_ok db" and local: "config_local db"
  shows "config_local d"
proof -
  note del = save_delete_Inr [OF d]
  have par: "parents_local db" using local by (simp add: config_local_def)
  have rules: "db_rules d = filter (\<lambda>r. rl_config r \<noteq> cfg) (db_rules db)"
    using del(4) cascade_local [OF ok par] by simp
  have "parents_local d"
    using par unfolding local_refs rules by (rule refs_local_filter)
  moreover have "targets_local d"
    using local unfolding config_local_def local_refs rules del(1,2) by (blast intro: refs_local_filter)
  moreover have "members_local d"
  proof -
    have "\<exists>g \<in> set (db_groups d). \<exists>h \<in> set (db_groups d).
        gr_id g = i \<and> gr_id h = mr_group m \<and> gr_config g = gr_config h"
      if m: "m \<in> set (db_members d)" "mr_ref m = Some i" for m i
    proof -
      from m local obtain g h where gh: "g \<in> set (db_groups db)" "h \<in> set (db_groups db)"
        "gr_id g = i" "gr_id h = mr_group m" "gr_config g = gr_config h"
        by (fastforce simp: config_local_def members_local_def del(3))
      have "gr_config h \<noteq> cfg" using gh m by (auto simp: del(3) simp flip: gh(4))
      with gh show ?thesis by (auto simp: del(1))
    qed
    then show ?thesis by (simp add: members_local_def)
  qed
  ultimately show ?thesis by (simp add: config_local_def)
qed

lemma save_tx_local:
  assumes "save_tx cfg draft db = Inr (u, db')" and ok: "constraints_ok db" and local: "config_local db"
  shows "config_local db' \<and> constraints_ok db'"
proof -
  from assms(1) obtain d mrows rrows end_id where
    d: "save_delete cfg db = Inr d"
    and mrows: "member_rows (map gr_id (draft_groups cfg draft d)) 0 (cd_Groups draft) = Inr mrows"
    and rrows: "build_rules cfg (map gr_id (draft_groups cfg draft d)) (map pv_id (draft_providers cfg draft d))
       (maxRuleID d) None 0 (cd_Rules draft) = Inr (rrows, end_id)"
    and w: "wrote cfg draft d mrows rrows db'" and ok': "constraints_ok db'"
    by (rule save_txE)
  have ld: "parents_local d" "targets_local d" "members_local d"
    using save_delete_local [OF d ok local] by (simp_all add: config_local_def)
  have "parents_local db'"
    using ld(1) build_rules_parents [OF rrows] w refs_local_append
    unfolding local_refs wrote_def by (simp add: refs_local_def) blast
  moreover have "targets_local db'"
  proof -
    have "refs_local rl_group rl_config gr_id gr_config rrows (draft_groups cfg draft d)"
      using build_rules_range [OF rrows] build_rules_shape [OF rrows] draft_rows_config(1)
      unfolding refs_local_def by fastforce
    moreover have "refs_local rl_provider rl_config pv_id pv_config rrows (draft_providers cfg draft d)"
      using build_rules_range [OF rrows] build_rules_shape [OF rrows] draft_rows_config(2)
      unfolding refs_local_def by fastforce
    ultimately show ?thesis
      using ld(2) w unfolding local_refs wrote_def by (simp add: refs_local_append)
  qed
  moreover have "members_local db'"
  proof -
    let ?new = "number_from set_mr_id (auto_base mr_id (sq_members d) (db_members d) + 1) mrows"
    have old: "\<exists>g \<in> set (db_groups db'). \<exists>h \<in> set (db_groups db').
        gr_id g = i \<and> gr_id h = mr_group m \<and> gr_config g = gr_config h"
      if "m \<in> set (db_members d)" "mr_ref m = Some i" for m i
      using that ld(3) w unfolding members_local_def wrote_def by (metis (no_types, lifting) Un_iff set_append)
    have "\<forall>r \<in> set mrows. (\<forall>g. mr_ref r = Some g \<longrightarrow> g \<in> gr_id ` set (draft_groups cfg draft d)) \<and>
        mr_group r \<in> gr_id ` set (draft_groups cfg draft d)"
      using member_rows_range [OF mrows] member_rows_groups [OF mrows] by fastforce
    then have new: "\<forall>m \<in> set ?new. (\<forall>g. mr_ref m = Some g \<longrightarrow> g \<in> gr_id ` set (draft_groups cfg draft d)) \<and>
        mr_group m \<in> gr_id ` set (draft_groups cfg draft d)"
      by (subst number_from_all) (simp_all add: row_simps)
    have "\<exists>g \<in> set (db_groups db'). \<exists>h \<in> set (db_groups db').
        gr_id g = i \<and> gr_id h = mr_group m \<and> gr_config g = gr_config h"
      if m: "m \<in> set ?new" "mr_ref m = Some i" for m i
    proof -
      from bspec [OF new m(1)] m(2) obtain g h where "g \<in> set (draft_groups cfg draft d)" "gr_id g = i"
        "h \<in> set (draft_groups cfg draft d)" "gr_id h = mr_group m" by auto
      moreover from this have "gr_config g = gr_config h" by (simp add: draft_rows_config(1))
      ultimately show ?thesis using w unfolding wrote_def by auto
    qed
    with old w show ?thesis by (auto simp: members_local_def wrote_def)
  qed
  ultimately show ?thesis using ok' by (simp add: config_local_def)
qed

end
