(* ===== verification/RoutingClone.thy ===== *)
theory RoutingClone
  imports RoutingLocal
begin

text \<open>
  Copying a configuration, \<open>internal/repository/routing/clone_config.go\<close>: groups, members,
  providers, rules, settings and profile of a source configuration under a new configuration id,
  with the ids of groups, providers and rules remapped.
\<close>

section \<open>The operations\<close>

definition clone_group_row :: "int \<Rightarrow> group_row \<Rightarrow> group_row" where
  "clone_group_row dst g =
     \<lparr>gr_id = 0, gr_config = dst, gr_position = gr_position g, gr_name = gr_name g,
      gr_type = gr_type g, gr_url = gr_url g, gr_interval = gr_interval g,
      gr_tolerance = gr_tolerance g, gr_lazy = gr_lazy g\<rparr>"

text \<open>\<open>idMap[g.id] = newIDs[i]\<close> for every source row.\<close>

definition pair_ids :: "int list \<Rightarrow> int list \<Rightarrow> (int \<rightharpoonup> int)" where
  "pair_ids old new = fill_map fst snd (zip old new)"

definition cloneGroups :: "int \<Rightarrow> int \<Rightarrow> db \<Rightarrow> repo_error + ((int \<rightharpoonup> int) \<times> db)" where
  "cloneGroups src dst db =
     (let groups = sort_key gr_position (filter (\<lambda>g. gr_config g = src) (db_groups db))
      in bind_err (batch_insert insert_groups (map (clone_group_row dst) groups) db) (\<lambda>db'.
           Inr (pair_ids (map gr_id groups) (group_ids dst db'), db')))"

definition clone_member_row :: "(int \<rightharpoonup> int) \<Rightarrow> member_row \<Rightarrow> member_row option" where
  "clone_member_row idMap m =
     (case idMap (mr_group m) of
        None \<Rightarrow> None
      | Some newGroup \<Rightarrow>
          Some \<lparr>mr_id = 0, mr_group = newGroup, mr_position = mr_position m, mr_kind = mr_kind m,
                mr_inbound = mr_inbound m,
                mr_ref = (case mr_ref m of None \<Rightarrow> None | Some i \<Rightarrow> idMap i)\<rparr>)"

definition cloneMembers :: "int \<Rightarrow> (int \<rightharpoonup> int) \<Rightarrow> int list \<Rightarrow> db \<Rightarrow> repo_error + db" where
  "cloneMembers src idMap keys db =
     (if keys = [] then Inr db
      else
        (let ids = map gr_id (filter (\<lambda>g. gr_config g = src) (db_groups db));
             members = sort_key member_key (filter (\<lambda>m. mr_group m \<in> set ids) (db_members db))
         in batch_insert insert_members (List.map_filter (clone_member_row idMap) members) db))"

definition clone_provider_row :: "int \<Rightarrow> provider_row \<Rightarrow> provider_row" where
  "clone_provider_row dst p =
     \<lparr>pv_id = 0, pv_config = dst, pv_name = pv_name p, pv_behavior = pv_behavior p,
      pv_format = pv_format p, pv_mirror = pv_mirror p, pv_url = pv_url p,
      pv_interval = pv_interval p, pv_mirror_interval = pv_mirror_interval p\<rparr>"

definition cloneProviders :: "int \<Rightarrow> int \<Rightarrow> db \<Rightarrow> repo_error + ((int \<rightharpoonup> int) \<times> db)" where
  "cloneProviders src dst db =
     (let provs = sort_key pv_id (filter (\<lambda>p. pv_config p = src) (db_providers db))
      in bind_err (batch_insert insert_providers (map (clone_provider_row dst) provs) db) (\<lambda>db'.
           Inr (pair_ids (map pv_id provs) (provider_ids dst db'), db')))"

text \<open>
  The loop of \<open>cloneRules\<close>: ids from \<open>next + 1\<close>, the old-to-new map extended before the parent is
  looked up; indexing the Go map at a missing parent gives 0.
\<close>

definition clone_rule_row ::
    "int \<Rightarrow> int \<Rightarrow> int option \<Rightarrow> (int \<rightharpoonup> int) \<Rightarrow> (int \<rightharpoonup> int) \<Rightarrow> rule_row \<Rightarrow> rule_row" where
  "clone_rule_row newID dst parent groupMap provMap ru =
     \<lparr>rl_id = newID, rl_config = dst, rl_parent = parent, rl_position = rl_position ru,
      rl_type = rl_type ru, rl_value = rl_value ru,
      rl_provider = (case rl_provider ru of None \<Rightarrow> None | Some i \<Rightarrow> provMap i),
      rl_no_resolve = rl_no_resolve ru, rl_kind = rl_kind ru, rl_inbound = rl_inbound ru,
      rl_group = (case rl_group ru of None \<Rightarrow> None | Some i \<Rightarrow> groupMap i)\<rparr>"

fun clone_rule_rows ::
    "int \<Rightarrow> (int \<rightharpoonup> int) \<Rightarrow> (int \<rightharpoonup> int) \<Rightarrow> int \<Rightarrow> (int \<rightharpoonup> int) \<Rightarrow> rule_row list \<Rightarrow> rule_row list" where
  "clone_rule_rows dst groupMap provMap next idMap [] = []"
| "clone_rule_rows dst groupMap provMap next idMap (ru # rs) =
     (let newID = next + 1;
          idMap = idMap(rl_id ru \<mapsto> newID);
          parent = (case rl_parent ru of
                      None \<Rightarrow> None
                    | Some p \<Rightarrow> Some (case idMap p of None \<Rightarrow> 0 | Some q \<Rightarrow> q))
      in clone_rule_row newID dst parent groupMap provMap ru #
         clone_rule_rows dst groupMap provMap newID idMap rs)"

definition cloneRules ::
    "int \<Rightarrow> int \<Rightarrow> (int \<rightharpoonup> int) \<Rightarrow> (int \<rightharpoonup> int) \<Rightarrow> db \<Rightarrow> repo_error + db" where
  "cloneRules src dst groupMap provMap db =
     (let rules = sort_key rl_id (filter (\<lambda>r. rl_config r = src) (db_rules db))
      in batch_insert insert_rules
           (clone_rule_rows dst groupMap provMap (maxRuleID db) Map.empty rules) db)"

definition cloneSettings :: "int \<Rightarrow> int \<Rightarrow> db \<Rightarrow> repo_error + db" where
  "cloneSettings src dst =
     exec (\<lambda>db. db\<lparr>db_settings := db_settings db @
       map (\<lambda>s. s\<lparr>sr_config := dst\<rparr>) (filter (\<lambda>s. sr_config s = src) (db_settings db))\<rparr>)"

definition cloneProfile :: "int \<Rightarrow> int \<Rightarrow> db \<Rightarrow> repo_error + db" where
  "cloneProfile src dst =
     exec (\<lambda>db. db\<lparr>db_profiles := db_profiles db @
       map (\<lambda>f. f\<lparr>fr_config := dst\<rparr>) (filter (\<lambda>f. fr_config f = src) (db_profiles db))\<rparr>)"

text \<open>\<open>len(idMap) == 0\<close> is tested on the list of the keys.\<close>

definition CloneConfig :: "int \<Rightarrow> int \<Rightarrow> db \<Rightarrow> repo_error + db" where
  "CloneConfig src dst db =
     bind_err (cloneGroups src dst db) (\<lambda>(groupMap, db').
     bind_err (cloneMembers src groupMap (group_ids src db) db') (\<lambda>db'.
     bind_err (cloneProviders src dst db') (\<lambda>(provMap, db').
     bind_err (cloneRules src dst groupMap provMap db') (\<lambda>db'.
     bind_err (cloneSettings src dst db') (\<lambda>db'.
       cloneProfile src dst db')))))"

section \<open>Stable sorting under a change of keys\<close>

lemma sort_key_same_order:
  "(\<And>x y. x \<in> set xs \<Longrightarrow> y \<in> set xs \<Longrightarrow> k' x \<le> k' y \<longleftrightarrow> k x \<le> k y) \<Longrightarrow> sort_key k' xs = sort_key k xs"
proof (induction xs)
  case (Cons a xs)
  have "insort_key k' a ys = insort_key k a ys" if "set ys \<subseteq> set xs" for ys
    using that Cons.prems by (induction ys) auto
  with Cons show ?case by simp
qed simp

section \<open>The ordering invariant\<close>

text \<open>
  Rows are stored in ascending id order (their insertion order), and a sub-rule's parent has a
  smaller id.
\<close>

definition ids_ascend :: "db \<Rightarrow> bool" where
  "ids_ascend db \<longleftrightarrow> sorted (map rl_id (db_rules db)) \<and> sorted (map pv_id (db_providers db)) \<and>
     (\<forall>r \<in> set (db_rules db). \<forall>p. rl_parent r = Some p \<longrightarrow> p < rl_id r)"

definition db_inv :: "db \<Rightarrow> bool" where
  "db_inv db \<longleftrightarrow> constraints_ok db \<and> config_local db \<and> ids_ascend db"

lemma db_inv_empty: "db_inv empty_db"
  by (simp add: db_inv_def constraint_defs empty_db_def config_local_def parents_local_def
      targets_local_def members_local_def ids_ascend_def)

lemma sorted_filter_map: "sorted (map f xs) \<Longrightarrow> sorted (map f (filter P xs))"
  by (simp add: sorted_map sorted_wrt_filter)

lemma save_tx_inv:
  assumes "save_tx cfg draft db = Inr (u, db')" and inv: "db_inv db"
  shows "db_inv db'"
proof -
  have ok: "constraints_ok db" and local: "config_local db" and asc: "ids_ascend db"
    using inv by (simp_all add: db_inv_def)
  from assms(1) obtain d mrows rrows end_id where
    d: "save_delete cfg db = Inr d"
    and rrows: "build_rules cfg (map gr_id (draft_groups cfg draft d)) (map pv_id (draft_providers cfg draft d))
       (maxRuleID d) None 0 (cd_Rules draft) = Inr (rrows, end_id)"
    and w: "wrote cfg draft d mrows rrows db'"
    by (rule save_txE)
  have rules: "db_rules d = filter (\<lambda>r. rl_config r \<noteq> cfg) (db_rules db)"
    using save_delete_Inr(4) [OF d] cascade_local [OF ok] local by (simp add: config_local_def)
  have provs: "db_providers d = filter (\<lambda>p. pv_config p \<noteq> cfg) (db_providers db)"
    by (rule save_delete_Inr(2) [OF d])
  note shape = build_rules_shape [OF rrows]
  have "rl_id r \<le> rl_id q" if "r \<in> set (db_rules d)" "q \<in> set rrows" for r q
  proof -
    have "rl_id q \<in> set (map rl_id rrows)" using that by simp
    then have "maxRuleID d < rl_id q" using shape by (metis atLeastAtMost_iff set_upto add1_zle_eq)
    with maxRuleID_ge [OF that(1)] show ?thesis by simp
  qed
  moreover have "sorted (map rl_id (db_rules d))" "sorted (map rl_id rrows)"
    using asc shape by (simp_all add: ids_ascend_def rules sorted_filter_map)
  ultimately have "sorted (map rl_id (db_rules d @ rrows))"
    by (simp add: sorted_append)
  note rules_sorted = this
  have "pv_id p \<le> pv_id q"
    if "p \<in> set (db_providers d)" "q \<in> set (draft_providers cfg draft d)" for p q
    using pids.new_ids_above [OF that(1), of "pv_id q" "sq_providers d"] that(2)
    by (fastforce simp: draft_providers_def)
  moreover have "sorted (map pv_id (db_providers d))" "sorted (map pv_id (draft_providers cfg draft d))"
    using asc pids.ids_sorted by (simp_all add: ids_ascend_def provs sorted_filter_map draft_providers_def)
  ultimately have "sorted (map pv_id (db_providers d @ draft_providers cfg draft d))"
    by (simp add: sorted_append)
  moreover have "\<forall>r \<in> set (db_rules d @ rrows). \<forall>p. rl_parent r = Some p \<longrightarrow> p < rl_id r"
    using asc shape by (auto simp: ids_ascend_def rules)
  ultimately show ?thesis
    using save_tx_local [OF assms(1) ok local] w rules_sorted by (simp add: db_inv_def ids_ascend_def wrote_def)
qed

end
