(* ===== verification/RoutingProperties.thy ===== *)
theory RoutingProperties
  imports RoutingClone
begin

text \<open>
  The properties of the save of a mihomo configuration, with a small database and draft on which
  they are applied.
\<close>

section \<open>A small database and draft\<close>

definition sample_db :: db where
  "sample_db = empty_db\<lparr>
     db_configs := [\<lparr>cf_id = 1, cf_user = None, cf_kind = ''mihomo'', cf_created = 0\<rparr>,
                    \<lparr>cf_id = 2, cf_user = Some 5, cf_kind = ''mihomo'', cf_created = 0\<rparr>],
     db_users := [\<lparr>ur_id = 5, ur_name = ''ann'', ur_sub = ''s'', ur_description = None, ur_created = 0\<rparr>,
                  \<lparr>ur_id = 6, ur_name = ''bob'', ur_sub = ''t'', ur_description = None, ur_created = 0\<rparr>],
     db_nodes := [\<lparr>no_id = 3, no_name = ''nl'', no_vpn_host = ''h'', no_base_url = ''u'',
                   no_base_path = ''p'', no_token = ''t'', no_created = 0\<rparr>],
     db_inbounds := [\<lparr>ir_id = 7, ir_node = 3, ir_name = ''main'', ir_port = 443, ir_kind = ''vless'',
                      ir_settings = None\<rparr>],
     sq_users := 6, sq_nodes := 3, sq_inbounds := 7, sq_configs := 2\<rparr>"

definition direct_ref :: RefDraft where
  "direct_ref = \<lparr>rf_Kind = ''direct'', rf_InboundID = None, rf_GroupIdx = None\<rparr>"

definition sample_draft :: ConfigDraft where
  "sample_draft =
     \<lparr>cd_Groups = [\<lparr>gd_Name = ''auto'', gd_Type = ''select'', gd_URL = [], gd_Interval = None,
         gd_Tolerance = None, gd_Lazy = None,
         gd_Members = [\<lparr>rf_Kind = ''inbound'', rf_InboundID = Some 7, rf_GroupIdx = None\<rparr>, direct_ref]\<rparr>],
      cd_Rules = [RuleDraft ''AND'' None None None
           (Some \<lparr>rf_Kind = ''group'', rf_InboundID = None, rf_GroupIdx = Some 0\<rparr>)
           [RuleDraft ''DOMAIN'' (Some ''a.org'') None None None [],
            RuleDraft ''NETWORK'' (Some ''tcp'') None None None []],
         RuleDraft ''RULE-SET'' None (Some 0) None (Some direct_ref) [],
         RuleDraft ''MATCH'' None None None (Some direct_ref) []],
      cd_Providers = [\<lparr>rp_ID = 0, rp_Name = ''ads'', rp_Behavior = ''domain'', rp_Format = ''mrs'',
         rp_Mirror = True, rp_URL = ''u'', rp_Interval = 60, rp_MirrorInterval = 60\<rparr>],
      cd_BaseYAML = ''mode: rule'',
      cd_Profile = \<lparr>pf_Title = ''t'', pf_Filename = ''f'', pf_UpdateInterval = 12\<rparr>\<rparr>"

lemma sample_db_inv: "db_inv sample_db"
  by (simp add: db_inv_def constraint_defs empty_db_def sample_db_def config_local_def parents_local_def
      targets_local_def members_local_def ids_ascend_def)

lemma sample_groups_valid: "ValidateProxyGroups (cd_Groups sample_draft) = None"
  by code_simp

lemma sample_rules_valid:
  "ValidateRoutingRules (cd_Rules sample_draft) (length (cd_Groups sample_draft))
     (length (cd_Providers sample_draft)) = None"
  by code_simp

lemma sample_draft_known:
  "1 \<in> cf_id ` set (db_configs sample_db)" "draft_inbounds_known sample_db sample_draft"
  "distinct (map rp_Name (cd_Providers sample_draft))"
  by (simp_all add: sample_db_def sample_draft_def direct_ref_def draft_inbounds_known_def
      targets_known_def inbound_known_def)

lemma sample_saves: "\<exists>db'. save_tx 1 sample_draft sample_db = Inr ((), db')"
  using sample_db_inv sample_groups_valid sample_rules_valid sample_draft_known
  by (intro save_tx_succeeds) (simp_all add: db_inv_def groups_ok_iff rules_ok_iff)

lemma SaveMihomoConfig_Inr: "SaveMihomoConfig cfg draft db = (Inr (), db') \<longleftrightarrow> save_tx cfg draft db = Inr ((), db')"
  by (auto simp: SaveMihomoConfig_def in_tx_def split: sum.splits)

lemma SaveMihomoConfig_Inl: "SaveMihomoConfig cfg draft db = (Inl e, db') \<longleftrightarrow> save_tx cfg draft db = Inl e \<and> db' = db"
  by (auto simp: SaveMihomoConfig_def in_tx_def split: sum.splits)

lemma sample_saved: "\<exists>db'. SaveMihomoConfig 1 sample_draft sample_db = (Inr (), db')"
  using sample_saves by (simp add: SaveMihomoConfig_Inr)

section \<open>Properties\<close>

text \<open>
  C5: Saving and reading a configuration is a round trip: after a successful save the reads of that
  configuration return the draft's groups in order with their members, its rule tree (sub-rules of
  logical rules included) in order, its providers sorted by name, its base YAML and its profile,
  where the i-th group (provider) is known by a fresh id and every index reference of the draft has
  become the id of the group (provider) it pointed at.
\<close>
theorem save_then_read:
  assumes "SaveMihomoConfig cfg draft db = (Inr (), db')"
  shows "\<exists>gids pids. distinct gids \<and> distinct pids \<and>
     length gids = length (cd_Groups draft) \<and> length pids = length (cd_Providers draft) \<and>
     ProxyGroups cfg db' = map (\<lambda>(k, g). saved_group gids k g) (enumerate 0 (cd_Groups draft)) \<and>
     (\<exists>ts. Rules cfg db' = Some ts \<and> map erase_rule ts = map (saved_rule gids pids) (cd_Rules draft)) \<and>
     RuleProviders cfg db' = sort_key rp_Name (map2 (\<lambda>i p. p\<lparr>rp_ID := i\<rparr>) pids (cd_Providers draft)) \<and>
     Setting cfg ''base_yaml'' db' = cd_BaseYAML draft \<and>
     Profile_of cfg db' = cd_Profile draft"
  using save_tx_reads_back [of cfg draft db "()" db'] assms
  by (simp add: SaveMihomoConfig_Inr reads_back_def saved_providers_def)

theorem save_then_read_witness:
  "\<exists>db'. SaveMihomoConfig 1 sample_draft sample_db = (Inr (), db') \<and>
     length (ProxyGroups 1 db') = 1 \<and> Setting 1 ''base_yaml'' db' = ''mode: rule''"
proof -
  obtain db' where saved: "SaveMihomoConfig 1 sample_draft sample_db = (Inr (), db')"
    using sample_saved by blast
  from save_then_read [OF saved] saved show ?thesis
    by (auto simp: sample_draft_def)
qed

text \<open>
  A configuration the validators accept always saves: if the database invariant holds, the
  configuration exists, the groups and rules validate, the provider names are distinct and every
  inbound the draft refers to exists, the save returns no error, so no constraint of the schema can
  fail for a validated draft.
\<close>
theorem validated_draft_saves:
  assumes "db_inv db" and "cfg \<in> cf_id ` set (db_configs db)"
    and "ValidateProxyGroups (cd_Groups draft) = None"
    and "ValidateRoutingRules (cd_Rules draft) (length (cd_Groups draft)) (length (cd_Providers draft)) = None"
    and "distinct (map rp_Name (cd_Providers draft))"
    and "draft_inbounds_known db draft"
  shows "\<exists>db'. SaveMihomoConfig cfg draft db = (Inr (), db')"
  using assms save_tx_succeeds [of db cfg draft]
  by (simp add: SaveMihomoConfig_Inr db_inv_def groups_ok_iff rules_ok_iff)

theorem validated_draft_saves_witness:
  "\<exists>db'. SaveMihomoConfig 1 sample_draft sample_db = (Inr (), db')"
  using validated_draft_saves [OF sample_db_inv sample_draft_known(1) sample_groups_valid
      sample_rules_valid sample_draft_known(3,2)] .

text \<open>
  Two providers of the same name are refused with ErrRuleProviderNameTaken, the error derived
  from the UNIQUE constraint rather than a pre-check, and the database is left exactly as it was.
\<close>
theorem repeated_provider_refused:
  assumes "db_inv db" and "cfg \<in> cf_id ` set (db_configs db)"
    and "ValidateProxyGroups (cd_Groups draft) = None"
    and "\<not> distinct (map rp_Name (cd_Providers draft))"
  shows "SaveMihomoConfig cfg draft db = (Inl (Domain ErrRuleProviderNameTaken), db)"
  using assms save_tx_repeated_provider [of db cfg draft]
  by (simp add: SaveMihomoConfig_Inl db_inv_def groups_ok_iff)

theorem repeated_provider_refused_witness:
  "SaveMihomoConfig 1 (sample_draft\<lparr>cd_Providers := cd_Providers sample_draft @ cd_Providers sample_draft\<rparr>)
     sample_db = (Inl (Domain ErrRuleProviderNameTaken), sample_db)"
  using sample_groups_valid
  by (intro repeated_provider_refused [OF sample_db_inv sample_draft_known(1)])
     (simp_all add: sample_draft_def)

text \<open>
  C29: A save touches one configuration: every read of any other configuration returns what it
  returned before, whether the save succeeds or fails.
\<close>
theorem save_leaves_other_configs:
  assumes "db_inv db" and "other \<noteq> cfg" and "SaveMihomoConfig cfg draft db = (res, db')"
  shows "ProxyGroups other db' = ProxyGroups other db \<and> Rules other db' = Rules other db \<and>
     RuleProviders other db' = RuleProviders other db \<and>
     Setting other key db' = Setting other key db \<and> Profile_of other db' = Profile_of other db"
proof (cases res)
  case (Inl e)
  with assms(3) show ?thesis by (simp add: SaveMihomoConfig_Inl)
next
  case (Inr u)
  with assms save_tx_others [of cfg draft db "()" db' other] show ?thesis
    by (simp add: SaveMihomoConfig_Inr db_inv_def config_local_def same_config_def)
qed

theorem save_leaves_other_configs_witness:
  "\<exists>db'. SaveMihomoConfig 1 sample_draft sample_db = (Inr (), db') \<and> Rules 2 db' = Rules 2 sample_db"
proof -
  obtain db' where saved: "SaveMihomoConfig 1 sample_draft sample_db = (Inr (), db')"
    using sample_saved by blast
  from save_leaves_other_configs [OF sample_db_inv _ saved, of 2] saved show ?thesis by auto
qed

text \<open>
  The database invariant survives every save, successful or not: all constraints hold, parents,
  target groups, providers and member groups stay inside the row's configuration, ids ascend in
  table order and a sub-rule's parent has a smaller id.
\<close>
theorem save_preserves_invariant:
  assumes "db_inv db"
  shows "db_inv (snd (SaveMihomoConfig cfg draft db))"
proof (cases "save_tx cfg draft db")
  case (Inl e)
  then show ?thesis using assms by (simp add: SaveMihomoConfig_def in_tx_def)
next
  case (Inr r)
  then show ?thesis
    using save_tx_inv [of cfg draft db "fst r" "snd r"] assms
    by (cases r) (simp add: SaveMihomoConfig_def in_tx_def)
qed

theorem save_preserves_invariant_witness: "db_inv (snd (SaveMihomoConfig 1 sample_draft sample_db))"
  by (rule save_preserves_invariant [OF sample_db_inv])

end
