(* ===== verification/RoutingCloneFacts.thy ===== *)
theory RoutingCloneFacts
  imports RoutingProperties
begin

text \<open>
  The copy of a configuration reads back as the source with its ids renamed, and changes no other
  configuration.
\<close>

section \<open>Paired ids\<close>

lemma pair_ids_nth:
  assumes "distinct old" and "length old = length new" and "k < length old"
  shows "pair_ids old new (old ! k) = Some (new ! k)"
proof -
  have "(old ! k, new ! k) \<in> set (zip old new)" using assms by (auto simp: set_zip)
  moreover have "distinct (map fst (zip old new))" using assms by simp
  ultimately show ?thesis
    unfolding pair_ids_def using fill_map_distinct [of fst "zip old new" "(old ! k, new ! k)" snd] by simp
qed

lemma pair_ids_dom: "length old = length new \<Longrightarrow> dom (pair_ids old new) = set old"
  by (simp add: pair_ids_def) (metis list.set_map map_fst_zip)

lemma pair_ids_Some:
  assumes "distinct old" and "length old = length new" and "i \<in> set old"
  obtains k where "k < length old" "i = old ! k" "pair_ids old new i = Some (new ! k)"
  using assms pair_ids_nth by (metis in_set_conv_nth)

section \<open>Renaming\<close>

text \<open>What a configuration looks like with its group, provider and rule ids renamed.\<close>

definition rename_ref :: "(int \<Rightarrow> int) \<Rightarrow> PolicyRef \<Rightarrow> PolicyRef" where
  "rename_ref gm r = r\<lparr>pr_GroupID := map_option gm (pr_GroupID r)\<rparr>"

definition rename_group :: "(int \<Rightarrow> int) \<Rightarrow> ProxyGroup \<Rightarrow> ProxyGroup" where
  "rename_group gm g = g\<lparr>pg_ID := gm (pg_ID g), pg_Members := map (rename_ref gm) (pg_Members g)\<rparr>"

definition rename_provider :: "(int \<Rightarrow> int) \<Rightarrow> RuleProvider \<Rightarrow> RuleProvider" where
  "rename_provider pm p = p\<lparr>rp_ID := pm (rp_ID p)\<rparr>"

fun rename_rule :: "(int \<Rightarrow> int) \<Rightarrow> (int \<Rightarrow> int) \<Rightarrow> (int \<Rightarrow> int) \<Rightarrow> RoutingRule \<Rightarrow> RoutingRule" where
  "rename_rule rm gm pm (RoutingRule i pos ty val pid nores target children) =
     RoutingRule (rm i) pos ty val (map_option pm pid) nores (map_option (rename_ref gm) target)
       (map (rename_rule rm gm pm) children)"

section \<open>Cloned rule rows\<close>

definition renamed_row ::
    "int \<Rightarrow> (int \<Rightarrow> int) \<Rightarrow> (int \<rightharpoonup> int) \<Rightarrow> (int \<rightharpoonup> int) \<Rightarrow> rule_row \<Rightarrow> rule_row" where
  "renamed_row dst rm groupMap provMap r =
     clone_rule_row (rm (rl_id r)) dst (map_option rm (rl_parent r)) groupMap provMap r"

lemma clone_rule_rows_eq:
  assumes "\<And>k. k < length rs \<Longrightarrow> rm (rl_id (rs ! k)) = nx + 1 + int k"
    and "sorted_wrt (<) (map rl_id rs)"
    and "\<And>r p. r \<in> set rs \<Longrightarrow> rl_parent r = Some p \<Longrightarrow> p < rl_id r \<and> (p \<in> dom idMap \<or> p \<in> rl_id ` set rs)"
    and "\<And>i q. idMap i = Some q \<Longrightarrow> q = rm i"
  shows "clone_rule_rows dst groupMap provMap nx idMap rs = map (renamed_row dst rm groupMap provMap) rs"
  using assms
proof (induction rs arbitrary: nx idMap)
  case (Cons r rs)
  let ?idMap = "idMap(rl_id r \<mapsto> nx + 1)"
  have rm: "rm (rl_id r) = nx + 1" using Cons.prems(1) [of 0] by simp
  have above: "rl_id r < rl_id q" if "q \<in> set rs" for q using Cons.prems(2) that by simp
  have agrees: "q = rm i" if "?idMap i = Some q" for i q
    using that Cons.prems(4) rm by (auto split: if_splits)
  have parent: "(case rl_parent r of None \<Rightarrow> None
      | Some p \<Rightarrow> Some (case ?idMap p of None \<Rightarrow> 0 | Some q \<Rightarrow> q)) = map_option rm (rl_parent r)"
  proof (cases "rl_parent r")
    case (Some p)
    then have "p < rl_id r" "p \<in> dom idMap"
      using Cons.prems(3) [of r p] above by force+
    with Some agrees show ?thesis by (auto simp: domIff split: option.splits)
  qed simp
  have "clone_rule_rows dst groupMap provMap (nx + 1) ?idMap rs = map (renamed_row dst rm groupMap provMap) rs"
  proof (rule Cons.IH)
    show "rm (rl_id (rs ! k)) = nx + 1 + 1 + int k" if "k < length rs" for k
      using Cons.prems(1) [of "Suc k"] that by simp
    show "sorted_wrt (<) (map rl_id rs)" using Cons.prems(2) by simp
    show "p < rl_id q \<and> (p \<in> dom ?idMap \<or> p \<in> rl_id ` set rs)" if "q \<in> set rs" "rl_parent q = Some p" for q p
      using Cons.prems(3) [of q p] that by auto
  qed (rule agrees)
  then show ?case using rm parent by (simp add: Let_def renamed_row_def)
qed simp

text \<open>The renaming of rule ids: the k-th id in ascending order becomes the k-th new id.\<close>

definition rule_renaming :: "int \<Rightarrow> int list \<Rightarrow> int \<Rightarrow> int" where
  "rule_renaming base ids i = the (pair_ids ids [base + 1 .. base + int (length ids)] i)"

lemma rule_renaming_nth:
  "distinct ids \<Longrightarrow> k < length ids \<Longrightarrow> rule_renaming base ids (ids ! k) = base + 1 + int k"
  by (simp add: rule_renaming_def pair_ids_nth)

lemma rule_renaming_less:
  assumes "sorted_wrt (<) ids" and "i \<in> set ids" and "j \<in> set ids"
  shows "rule_renaming base ids i < rule_renaming base ids j \<longleftrightarrow> i < j"
proof -
  have d: "distinct ids" using assms(1) by (simp add: strict_sorted_iff)
  obtain k l where "i = ids ! k" "k < length ids" "j = ids ! l" "l < length ids"
    using assms(2,3) by (metis in_set_conv_nth)
  then show ?thesis
    using rule_renaming_nth [OF d] sorted_wrt_nth_less [OF assms(1)]
    by (metis add_less_cancel_left linorder_neqE_nat not_less_iff_gr_or_eq of_nat_less_iff)
qed

section \<open>Reading renamed rows\<close>

lemma rule_of_renamed:
  assumes "rl_group r \<noteq> None \<Longrightarrow> groupMap (the (rl_group r)) = Some (gm (the (rl_group r)))"
    and "rl_provider r \<noteq> None \<Longrightarrow> provMap (the (rl_provider r)) = Some (pm (the (rl_provider r)))"
  shows "rule_of_row (renamed_row dst rm groupMap provMap r) (map (rename_rule rm gm pm) ts) =
    rename_rule rm gm pm (rule_of_row r ts)"
  using assms
  by (auto simp: rule_of_row_def renamed_row_def clone_rule_row_def policyRef_def rename_ref_def
      split: option.splits)

lemma those_map_option: "those (map (map_option h) xs) = map_option (map h) (those xs)"
  by (induction xs) (auto simp: option.map_comp comp_def split: option.splits)

lemma freeze_renamed:
  assumes "\<And>r. r \<in> set G \<Longrightarrow> rl_group r \<noteq> None \<Longrightarrow> groupMap (the (rl_group r)) = Some (gm (the (rl_group r)))"
    and "\<And>r. r \<in> set G \<Longrightarrow> rl_provider r \<noteq> None \<Longrightarrow> provMap (the (rl_provider r)) = Some (pm (the (rl_provider r)))"
    and inj: "inj_on rm (rl_id ` set G)"
    and parents: "\<And>r p. r \<in> set G \<Longrightarrow> rl_parent r = Some p \<Longrightarrow> p \<in> rl_id ` set G"
    and "r \<in> set G"
  shows "freeze n (map (renamed_row dst rm groupMap provMap) G) (renamed_row dst rm groupMap provMap r) =
    map_option (rename_rule rm gm pm) (freeze n G r)"
  using assms(5)
proof (induction n arbitrary: r)
  case (Suc n)
  let ?f = "renamed_row dst rm groupMap provMap"
  have "rl_parent l = Some (rl_id r) \<longleftrightarrow> rl_parent (?f l) = Some (rl_id (?f r))" if "l \<in> set G" for l
    using parents [OF that] Suc.prems inj
    by (cases "rl_parent l") (auto simp: renamed_row_def clone_rule_row_def inj_on_eq_iff)
  then have "filter (\<lambda>l. rl_parent (?f l) = Some (rl_id (?f r))) G = filter (\<lambda>l. rl_parent l = Some (rl_id r)) G"
    by (intro filter_cong) simp_all
  then have kids: "child_rows (map ?f G) (rl_id (?f r)) = map ?f (child_rows G (rl_id r))"
    by (simp add: child_rows_def filter_map comp_def)
  have "set (child_rows G (rl_id r)) \<subseteq> set G" by (auto simp: child_rows_def)
  with Suc.IH have "map (freeze n (map ?f G)) (map ?f (child_rows G (rl_id r))) =
      map (map_option (rename_rule rm gm pm)) (map (freeze n G) (child_rows G (rl_id r)))"
    by (auto simp: comp_def)
  then have "those (map (freeze n (map ?f G)) (map ?f (child_rows G (rl_id r)))) =
      map_option (map (rename_rule rm gm pm)) (those (map (freeze n G) (child_rows G (rl_id r))))"
    by (simp only: those_map_option)
  then show ?case
    using rule_of_renamed [of r groupMap gm provMap pm dst rm] assms(1,2) [OF Suc.prems]
    by (simp add: kids option.map_comp comp_def del: map_map)
qed simp

lemma number_from_map:
  assumes "\<And>k. k < length xs \<Longrightarrow> m (xs ! k) = n + int k"
  shows "number_from set_id n (map f xs) = map (\<lambda>x. set_id (m x) (f x)) xs"
  by (rule nth_equalityI) (simp_all add: nth_number_from assms)

section \<open>The steps of a clone\<close>

text \<open>A configuration id no row uses yet.\<close>

definition unused_config :: "int \<Rightarrow> db \<Rightarrow> bool" where
  "unused_config dst db \<longleftrightarrow>
     (\<forall>g \<in> set (db_groups db). gr_config g \<noteq> dst) \<and> (\<forall>r \<in> set (db_rules db). rl_config r \<noteq> dst) \<and>
     (\<forall>p \<in> set (db_providers db). pv_config p \<noteq> dst) \<and> (\<forall>s \<in> set (db_settings db). sr_config s \<noteq> dst) \<and>
     (\<forall>f \<in> set (db_profiles db). fr_config f \<noteq> dst)"

definition new_group_ids :: "int \<Rightarrow> db \<Rightarrow> int list" where
  "new_group_ids src db =
     (let b = auto_base gr_id (sq_groups db) (db_groups db)
      in [b + 1 .. b + int (length (config_groups src db))])"

definition group_map :: "int \<Rightarrow> db \<Rightarrow> (int \<rightharpoonup> int)" where
  "group_map src db = pair_ids (map gr_id (config_groups src db)) (new_group_ids src db)"

definition new_groups :: "int \<Rightarrow> int \<Rightarrow> db \<Rightarrow> group_row list" where
  "new_groups src dst db =
     map (\<lambda>g. g\<lparr>gr_id := the (group_map src db (gr_id g)), gr_config := dst\<rparr>) (config_groups src db)"

definition config_providers :: "int \<Rightarrow> db \<Rightarrow> provider_row list" where
  "config_providers cfg db = filter (\<lambda>p. pv_config p = cfg) (db_providers db)"

definition provider_map :: "int \<Rightarrow> db \<Rightarrow> (int \<rightharpoonup> int)" where
  "provider_map src db =
     (let b = auto_base pv_id (sq_providers db) (db_providers db)
      in pair_ids (map pv_id (config_providers src db)) [b + 1 .. b + int (length (config_providers src db))])"

definition new_providers :: "int \<Rightarrow> int \<Rightarrow> db \<Rightarrow> provider_row list" where
  "new_providers src dst db =
     map (\<lambda>p. p\<lparr>pv_id := the (provider_map src db (pv_id p)), pv_config := dst\<rparr>) (config_providers src db)"

lemma distinct_config_rows:
  assumes "constraints_ok db"
  shows "distinct (map gr_id (config_groups src db))" "distinct (map pv_id (config_providers src db))"
  using uniq_ids [OF assms] distinct_map_filter
  by (auto simp: config_groups_def config_providers_def distinct_map intro: inj_on_subset)

lemma clone_groups_rows:
  assumes "constraints_ok db"
  shows "number_from set_gr_id (auto_base gr_id (sq_groups db) (db_groups db) + 1)
      (map (clone_group_row dst) (config_groups src db)) = new_groups src dst db"
proof -
  let ?b = "auto_base gr_id (sq_groups db) (db_groups db)" and ?G = "config_groups src db"
  have "the (group_map src db (gr_id (?G ! k))) = ?b + 1 + int k" if "k < length ?G" for k
    using pair_ids_nth [OF distinct_config_rows(1) [OF assms], of src "new_group_ids src db" k] that
    by (simp add: group_map_def new_group_ids_def Let_def)
  then have "number_from set_gr_id (?b + 1) (map (clone_group_row dst) ?G) =
      map (\<lambda>g. set_gr_id (the (group_map src db (gr_id g))) (clone_group_row dst g)) ?G"
    by (intro number_from_map) simp
  then show ?thesis by (simp add: new_groups_def set_gr_id_def clone_group_row_def)
qed

lemma clone_providers_rows:
  assumes "constraints_ok db"
  shows "number_from set_pv_id (auto_base pv_id (sq_providers db) (db_providers db) + 1)
      (map (clone_provider_row dst) (config_providers src db)) = new_providers src dst db"
proof -
  let ?b = "auto_base pv_id (sq_providers db) (db_providers db)" and ?P = "config_providers src db"
  have "the (provider_map src db (pv_id (?P ! k))) = ?b + 1 + int k" if "k < length ?P" for k
    using pair_ids_nth [OF distinct_config_rows(2) [OF assms], of src "[?b + 1 .. ?b + int (length ?P)]" k] that
    by (simp add: provider_map_def Let_def)
  then have "number_from set_pv_id (?b + 1) (map (clone_provider_row dst) ?P) =
      map (\<lambda>p. set_pv_id (the (provider_map src db (pv_id p))) (clone_provider_row dst p)) ?P"
    by (intro number_from_map) simp
  then show ?thesis by (simp add: new_providers_def set_pv_id_def clone_provider_row_def)
qed

definition source_members :: "int \<Rightarrow> db \<Rightarrow> member_row list" where
  "source_members src db =
     sort_key member_key (filter (\<lambda>m. mr_group m \<in> gr_id ` set (config_groups src db)) (db_members db))"

definition new_members :: "int \<Rightarrow> db \<Rightarrow> member_row list" where
  "new_members src db = List.map_filter (clone_member_row (group_map src db)) (source_members src db)"

definition new_rules :: "int \<Rightarrow> int \<Rightarrow> db \<Rightarrow> rule_row list" where
  "new_rules src dst db =
     clone_rule_rows dst (group_map src db) (provider_map src db) (maxRuleID db) Map.empty
       (sort_key rl_id (filter (\<lambda>r. rl_config r = src) (db_rules db)))"

definition cloned :: "int \<Rightarrow> int \<Rightarrow> db \<Rightarrow> db \<Rightarrow> bool" where
  "cloned src dst db db' \<longleftrightarrow>
     db_groups db' = db_groups db @ new_groups src dst db \<and>
     db_members db' = db_members db @
       number_from set_mr_id (auto_base mr_id (sq_members db) (db_members db) + 1) (new_members src db) \<and>
     db_providers db' = db_providers db @ new_providers src dst db \<and>
     db_rules db' = db_rules db @ new_rules src dst db \<and>
     db_settings db' = db_settings db @
       map (\<lambda>s. s\<lparr>sr_config := dst\<rparr>) (filter (\<lambda>s. sr_config s = src) (db_settings db)) \<and>
     db_profiles db' = db_profiles db @
       map (\<lambda>f. f\<lparr>fr_config := dst\<rparr>) (filter (\<lambda>f. fr_config f = src) (db_profiles db)) \<and>
     db_configs db' = db_configs db \<and> db_users db' = db_users db \<and> db_inbounds db' = db_inbounds db \<and>
     db_nodes db' = db_nodes db \<and> db_conns db' = db_conns db \<and> constraints_ok db'"

lemma new_rows_config:
  "g \<in> set (new_groups src dst db) \<Longrightarrow> gr_config g = dst"
  "p \<in> set (new_providers src dst db) \<Longrightarrow> pv_config p = dst"
  by (auto simp: new_groups_def new_providers_def)

lemma sorted_config_groups: "sorted (map gr_position (config_groups src db))"
  by (simp add: config_groups_def)

lemma config_groups_clone:
  assumes "unused_config dst db" and "db_groups db' = db_groups db @ new_groups src dst db"
  shows "config_groups dst db' = new_groups src dst db"
proof -
  have "filter (\<lambda>g. gr_config g = dst) (new_groups src dst db) = new_groups src dst db"
    by (simp add: new_rows_config filter_id_conv)
  moreover have "map gr_position (new_groups src dst db) = map gr_position (config_groups src db)"
    by (simp add: new_groups_def)
  then have "sort_key gr_position (new_groups src dst db) = new_groups src dst db"
    by (intro sort_key_sorted) (simp only: sorted_config_groups)
  ultimately show ?thesis
    using assms by (simp add: config_groups_def unused_config_def filter_empty_conv)
qed

lemma new_group_ids_eq:
  assumes "constraints_ok db"
  shows "map gr_id (new_groups src dst db) = new_group_ids src db"
proof (rule nth_equalityI)
  show "length (map gr_id (new_groups src dst db)) = length (new_group_ids src db)"
    by (simp add: new_groups_def new_group_ids_def Let_def)
  show "map gr_id (new_groups src dst db) ! k = new_group_ids src db ! k"
    if "k < length (map gr_id (new_groups src dst db))" for k
    using pair_ids_nth [OF distinct_config_rows(1) [OF assms], of src "new_group_ids src db" k] that
    by (simp add: new_groups_def group_map_def new_group_ids_def Let_def)
qed

lemma new_provider_ids_eq:
  assumes "constraints_ok db"
  shows "map pv_id (new_providers src dst db) =
    [auto_base pv_id (sq_providers db) (db_providers db) + 1 ..
     auto_base pv_id (sq_providers db) (db_providers db) + int (length (config_providers src db))]"
    (is "_ = ?new")
proof (rule nth_equalityI)
  show "length (map pv_id (new_providers src dst db)) = length ?new"
    by (simp add: new_providers_def)
  show "map pv_id (new_providers src dst db) ! k = ?new ! k"
    if "k < length (map pv_id (new_providers src dst db))" for k
    using pair_ids_nth [OF distinct_config_rows(2) [OF assms], of src ?new k] that
    by (simp add: new_providers_def provider_map_def Let_def)
qed

lemma provider_ids_clone:
  assumes ok: "constraints_ok db" and "unused_config dst db"
    and "db_providers db' = db_providers db @ new_providers src dst db"
  shows "provider_ids dst db' = map pv_id (new_providers src dst db)"
proof -
  have "filter (\<lambda>p. pv_config p = dst) (new_providers src dst db) = new_providers src dst db"
    by (simp add: new_rows_config filter_id_conv)
  moreover have "sort_key pv_id (new_providers src dst db) = new_providers src dst db"
    by (rule sort_key_sorted) (simp only: new_provider_ids_eq [OF ok] sorted_upto)
  ultimately show ?thesis
    using assms(2,3) by (simp add: provider_ids_def unused_config_def filter_empty_conv)
qed

lemma CloneConfig_cloned:
  assumes clone: "CloneConfig src dst db = Inr db'" and inv: "db_inv db"
    and unused: "unused_config dst db" and neq: "src \<noteq> dst"
  shows "cloned src dst db db'"
proof -
  have ok: "constraints_ok db" and asc: "ids_ascend db" using inv by (simp_all add: db_inv_def)
  from clone obtain gm d1 d2 pm d3 d4 d5 where
    c1: "cloneGroups src dst db = Inr (gm, d1)" and c2: "cloneMembers src gm (group_ids src db) d1 = Inr d2"
    and c3: "cloneProviders src dst d2 = Inr (pm, d3)" and c4: "cloneRules src dst gm pm d3 = Inr d4"
    and c5: "cloneSettings src dst d4 = Inr d5" and c6: "cloneProfile src dst d5 = Inr db'"
    by (auto simp: CloneConfig_def bind_err_Inr_iff)
  from c1 have g: "batch_insert insert_groups (map (clone_group_row dst) (config_groups src db)) db = Inr d1"
    and gm: "gm = pair_ids (map gr_id (config_groups src db)) (group_ids dst d1)"
    by (auto simp: cloneGroups_def Let_def bind_err_Inr_iff config_groups_def)
  note g' = batch_insert_groups [OF g, unfolded clone_groups_rows [OF ok]]
  obtain s1 where d1: "d1 = db\<lparr>db_groups := db_groups db @ new_groups src dst db, sq_groups := s1\<rparr>"
    by (rule that, rule trans [OF g'(2)]) (simp add: g'(1))
  have gm': "gm = group_map src db"
    by (simp add: gm group_map_def group_ids_eq config_groups_clone [OF unused g'(1)] new_group_ids_eq [OF ok])
  have srcg: "filter (\<lambda>g. gr_config g = src) (db_groups d1) = filter (\<lambda>g. gr_config g = src) (db_groups db)"
    using filter_mine [of "new_groups src dst db" gr_config dst src] new_rows_config neq by (simp add: d1)
  have "batch_insert insert_members (new_members src db) d1 = Inr d2"
  proof (cases "group_ids src db = []")
    case True
    then have "config_groups src db = []" by (simp add: group_ids_eq)
    then have "new_members src db = []" by (simp add: new_members_def source_members_def)
    with True c2 show ?thesis by (simp add: cloneMembers_def batch_insert_def)
  next
    case False
    have "sort_key member_key (filter (\<lambda>m. mr_group m \<in> set (map gr_id
        (filter (\<lambda>g. gr_config g = src) (db_groups d1)))) (db_members d1)) = source_members src db"
      unfolding srcg by (simp add: d1 source_members_def config_groups_def)
    with False c2 show ?thesis by (simp only: cloneMembers_def Let_def if_False gm' new_members_def)
  qed
  note m = batch_insert_members [OF this]
  obtain s2 where d2: "d2 = d1\<lparr>db_members := db_members db @
      number_from set_mr_id (auto_base mr_id (sq_members db) (db_members db) + 1) (new_members src db),
      sq_members := s2\<rparr>"
    by (rule that, rule trans [OF m(2)]) (simp add: m(1), simp add: d1)
  have provs: "sort_key pv_id (filter (\<lambda>p. pv_config p = src) (db_providers d2)) = config_providers src db"
    using asc by (simp add: d2 d1 config_providers_def ids_ascend_def sorted_filter_map sort_key_sorted)
  from c3 have p: "batch_insert insert_providers (map (clone_provider_row dst) (config_providers src db)) d2 = Inr d3"
    and pm: "pm = pair_ids (map pv_id (config_providers src db)) (provider_ids dst d3)"
    by (auto simp: cloneProviders_def Let_def bind_err_Inr_iff provs)
  have d2p: "sq_providers d2 = sq_providers db" "db_providers d2 = db_providers db" by (simp_all add: d2 d1)
  note p' = batch_insert_providers [OF p, unfolded d2p clone_providers_rows [OF ok]]
  obtain s3 where d3: "d3 = d2\<lparr>db_providers := db_providers db @ new_providers src dst db, sq_providers := s3\<rparr>"
    by (rule that, rule trans [OF p'(2)]) (simp add: p'(1))
  have pm': "pm = provider_map src db"
    by (simp add: pm provider_ids_clone [OF ok unused p'(1)] new_provider_ids_eq [OF ok] provider_map_def Let_def)
  have d3r: "db_rules d3 = db_rules db" by (simp add: d3 d2 d1)
  then have "maxRuleID d3 = maxRuleID db" by (simp add: maxRuleID_def)
  with c4 have "batch_insert insert_rules (new_rules src dst db) d3 = Inr d4"
    by (simp add: cloneRules_def Let_def d3r gm' pm' new_rules_def)
  from batch_insert_rules [OF this] have d4: "d4 = d3\<lparr>db_rules := db_rules db @ new_rules src dst db\<rparr>"
    by (simp add: d3r)
  from c5 have d5: "d5 = d4\<lparr>db_settings := db_settings d4 @
      map (\<lambda>s. s\<lparr>sr_config := dst\<rparr>) (filter (\<lambda>s. sr_config s = src) (db_settings d4))\<rparr>"
    by (simp add: cloneSettings_def exec_Inr_iff)
  from c6 have d6: "db' = d5\<lparr>db_profiles := db_profiles d5 @
      map (\<lambda>f. f\<lparr>fr_config := dst\<rparr>) (filter (\<lambda>f. fr_config f = src) (db_profiles d5))\<rparr>" and ok': "constraints_ok db'"
    by (simp_all add: cloneProfile_def exec_Inr_iff)
  show ?thesis
    using ok' by (simp add: cloned_def d6 d5 d4 d3 d2 d1)
qed

end
