(* ===== verification/RoutingCloneReads.thy ===== *)
theory RoutingCloneReads
  imports RoutingCloneFacts
begin

text \<open>
  The reads of a cloned configuration are the reads of its source with the ids renamed.
\<close>

section \<open>Groups and members\<close>

lemma group_map_some:
  assumes "constraints_ok db" and "i \<in> gr_id ` set (config_groups src db)"
  shows "group_map src db i = Some (the (group_map src db i))"
proof -
  have "i \<in> dom (group_map src db)"
    using assms(2) by (simp add: group_map_def pair_ids_dom new_group_ids_def Let_def)
  then show ?thesis by auto
qed

lemma group_map_inj:
  assumes ok: "constraints_ok db" and "i \<in> gr_id ` set (config_groups src db)"
    and "j \<in> gr_id ` set (config_groups src db)"
    and "the (group_map src db i) = the (group_map src db j)"
  shows "i = j"
proof -
  let ?old = "map gr_id (config_groups src db)" and ?new = "new_group_ids src db"
  have len: "length ?old = length ?new" by (simp add: new_group_ids_def Let_def)
  have d: "distinct ?old" by (rule distinct_config_rows [OF ok])
  have d': "distinct ?new" by (simp add: new_group_ids_def Let_def)
  obtain k where k: "k < length ?old" "i = ?old ! k" "group_map src db i = Some (?new ! k)"
    using pair_ids_Some [OF d len, of i] assms(2) by (auto simp: group_map_def)
  obtain l where l: "l < length ?old" "j = ?old ! l" "group_map src db j = Some (?new ! l)"
    using pair_ids_Some [OF d len, of j] assms(3) by (auto simp: group_map_def)
  have "?new ! k = ?new ! l" using assms(4) k(3) l(3) by simp
  then have "k = l" using d' k(1) l(1) len by (simp add: nth_eq_iff_index_eq)
  with k(2) l(2) show ?thesis by simp
qed

lemma set_source_members:
  "m \<in> set (source_members src db) \<longleftrightarrow>
     m \<in> set (db_members db) \<and> mr_group m \<in> gr_id ` set (config_groups src db)"
  by (simp add: source_members_def)

lemma member_ref_local:
  assumes inv: "db_inv db" and m: "m \<in> set (source_members src db)" "mr_ref m = Some i"
  shows "i \<in> gr_id ` set (config_groups src db)"
proof -
  have ok: "constraints_ok db" using inv by (simp add: db_inv_def)
  from m inv obtain g h where gh: "g \<in> set (db_groups db)" "h \<in> set (db_groups db)" "gr_id g = i"
    "gr_id h = mr_group m" "gr_config g = gr_config h"
    by (fastforce simp: db_inv_def config_local_def members_local_def set_source_members)
  from m(1) obtain h' where "h' \<in> set (db_groups db)" "gr_config h' = src" "gr_id h' = mr_group m"
    by (auto simp: set_source_members config_groups_def)
  with gh distinct_map_eq [OF uniq_ids(1) [OF ok], of h h'] have "gr_config g = src" by simp
  with gh show ?thesis by (auto simp: config_groups_def)
qed

text \<open>A member row of the source as its copy.\<close>

definition renamed_member :: "int \<Rightarrow> db \<Rightarrow> member_row \<Rightarrow> member_row" where
  "renamed_member src db m =
     \<lparr>mr_id = 0, mr_group = the (group_map src db (mr_group m)), mr_position = mr_position m,
      mr_kind = mr_kind m, mr_inbound = mr_inbound m,
      mr_ref = map_option (\<lambda>i. the (group_map src db i)) (mr_ref m)\<rparr>"

lemma new_members_map:
  assumes inv: "db_inv db"
  shows "new_members src db = map (renamed_member src db) (source_members src db)"
proof -
  have ok: "constraints_ok db" using inv by (simp add: db_inv_def)
  have "clone_member_row (group_map src db) m = Some (renamed_member src db m)"
    if "m \<in> set (source_members src db)" for m
  proof -
    have "group_map src db (mr_group m) = Some (the (group_map src db (mr_group m)))"
      using that by (intro group_map_some [OF ok]) (simp add: set_source_members)
    moreover have "group_map src db i = Some (the (group_map src db i))" if "mr_ref m = Some i" for i
      using member_ref_local [OF inv \<open>m \<in> _\<close> that] by (rule group_map_some [OF ok])
    ultimately show ?thesis
      by (auto simp: clone_member_row_def renamed_member_def split: option.splits)
  qed
  then have "List.map_filter (clone_member_row (group_map src db)) ms = map (renamed_member src db) ms"
    if "set ms \<subseteq> set (source_members src db)" for ms
    using that by (induction ms) auto
  then show ?thesis by (simp add: new_members_def)
qed

lemma filter_renamed_members:
  assumes inv: "db_inv db" and g: "g \<in> set (config_groups src db)"
  shows "filter (\<lambda>m. mr_group m = the (group_map src db (gr_id g))) (new_members src db) =
    map (renamed_member src db) (filter (\<lambda>m. mr_group m = gr_id g) (source_members src db))"
proof -
  have ok: "constraints_ok db" using inv by (simp add: db_inv_def)
  have "mr_group (renamed_member src db m) = the (group_map src db (gr_id g)) \<longleftrightarrow> mr_group m = gr_id g"
    if "m \<in> set (source_members src db)" for m
    using group_map_inj [OF ok, of "mr_group m" src "gr_id g"] that g
    by (auto simp: set_source_members renamed_member_def)
  then have "filter (\<lambda>m. mr_group (renamed_member src db m) = the (group_map src db (gr_id g))) (source_members src db) =
      filter (\<lambda>m. mr_group m = gr_id g) (source_members src db)"
    by (intro filter_cong) simp_all
  then show ?thesis by (simp add: new_members_map [OF inv] filter_map comp_def)
qed

lemma filter_source_members:
  assumes "g \<in> set (config_groups src db)"
  shows "filter (\<lambda>m. mr_group m = gr_id g) (source_members src db) =
    sort_key member_key (filter (\<lambda>m. mr_group m = gr_id g) (db_members db))"
proof -
  have "filter (\<lambda>m. mr_group m = gr_id g) (filter (\<lambda>m. mr_group m \<in> gr_id ` set (config_groups src db)) ms) =
      filter (\<lambda>m. mr_group m = gr_id g) ms" for ms :: "member_row list"
    using assms by (induction ms) auto
  then show ?thesis by (simp only: source_members_def filter_sort)
qed

lemma sorted_same_group:
  assumes "\<And>m. m \<in> set ms \<Longrightarrow> mr_group m = i"
  shows "sorted (map mr_position (sort_key member_key ms))"
proof -
  have "sorted (map member_key (sort_key member_key ms))" by simp
  then show ?thesis
    unfolding sorted_map
    by (rule sorted_wrt_mono_rel [rotated]) (auto simp: assms member_key_def less_eq_prod_def)
qed

lemma read_group_cloned:
  assumes inv: "db_inv db" and cl: "cloned src dst db db'" and g: "g \<in> set (config_groups src db)"
  shows "read_group db' (g\<lparr>gr_id := the (group_map src db (gr_id g)), gr_config := dst\<rparr>) =
    rename_group (\<lambda>i. the (group_map src db i)) (read_group db g)"
proof -
  have ok: "constraints_ok db" using inv by (simp add: db_inv_def)
  let ?i = "the (group_map src db (gr_id g))"
  let ?n = "auto_base mr_id (sq_members db) (db_members db) + 1"
  let ?new = "number_from set_mr_id ?n (new_members src db)"
  let ?mine = "filter (\<lambda>m. mr_group m = gr_id g) (source_members src db)"
  have len: "length (map gr_id (config_groups src db)) = length (new_group_ids src db)"
    by (simp add: new_group_ids_def Let_def)
  have "gr_id g \<in> set (map gr_id (config_groups src db))" using g by simp
  then obtain k where "k < length (map gr_id (config_groups src db))"
    "group_map src db (gr_id g) = Some (new_group_ids src db ! k)"
    unfolding group_map_def by (rule pair_ids_Some [OF distinct_config_rows(1) [OF ok] len])
  then have "?i \<in> set (new_group_ids src db)" using len by simp
  then have fresh: "gr_id h < ?i" if "h \<in> set (db_groups db)" for h
    using auto_base_ge [OF that, of gr_id "sq_groups db"] by (simp add: new_group_ids_def Let_def)
  have "mr_group m \<noteq> ?i" if "m \<in> set (db_members db)" for m
    using fk_member_group [OF ok that] fresh by force
  then have mine: "filter (\<lambda>m. mr_group m = ?i) (db_members db') = filter (\<lambda>m. mr_group m = ?i) ?new"
    using cl by (simp add: cloned_def filter_empty_conv)
  note carry = map_filter_number_from [of _ set_mr_id "\<lambda>m. mr_group m = ?i" ?n "new_members src db"]
  have refs: "map member_ref (filter (\<lambda>m. mr_group m = ?i) ?new) =
      map (\<lambda>m. rename_ref (\<lambda>i. the (group_map src db i)) (member_ref m)) ?mine"
    using carry [of member_ref] filter_renamed_members [OF inv g]
    by (simp add: row_simps member_ref_def [abs_def] renamed_member_def policyRef_def rename_ref_def comp_def)
  have "map mr_position (filter (\<lambda>m. mr_group m = ?i) ?new) = map mr_position ?mine"
    using carry [of mr_position] filter_renamed_members [OF inv g]
    by (simp add: row_simps renamed_member_def comp_def)
  then have "sorted (map mr_position (filter (\<lambda>m. mr_group m = ?i) ?new))"
    using sorted_same_group [of "filter (\<lambda>m. mr_group m = gr_id g) (db_members db)" "gr_id g"]
    by (simp add: filter_source_members [OF g])
  then have "sort_key member_key (filter (\<lambda>m. mr_group m = ?i) ?new) = filter (\<lambda>m. mr_group m = ?i) ?new"
    by (rule member_group_sorted [rotated]) auto
  with mine refs show ?thesis
    by (simp add: read_group_def rename_group_def group_of_row_def filter_source_members [OF g] comp_def)
qed

lemma ProxyGroups_cloned:
  assumes inv: "db_inv db" and cl: "cloned src dst db db'" and unused: "unused_config dst db"
  shows "ProxyGroups dst db' = map (rename_group (\<lambda>i. the (group_map src db i))) (ProxyGroups src db)"
proof -
  have ok: "constraints_ok db" "constraints_ok db'" using inv cl by (simp_all add: db_inv_def cloned_def)
  have "config_groups dst db' = new_groups src dst db"
    using config_groups_clone [OF unused] cl by (simp add: cloned_def)
  then show ?thesis
    using read_group_cloned [OF inv cl]
    by (simp add: ProxyGroups_eq [OF uniq_ids(1) [OF ok(1)]] ProxyGroups_eq [OF uniq_ids(1) [OF ok(2)]]
        new_groups_def)
qed

section \<open>Providers, settings and profile\<close>

lemma RuleProviders_cloned:
  assumes inv: "db_inv db" and cl: "cloned src dst db db'" and unused: "unused_config dst db"
  shows "RuleProviders dst db' =
    map (rename_provider (\<lambda>i. the (provider_map src db i))) (RuleProviders src db)"
proof -
  let ?f = "\<lambda>p. p\<lparr>pv_id := the (provider_map src db (pv_id p)), pv_config := dst\<rparr>"
  have "filter (\<lambda>p. pv_config p = dst) (new_providers src dst db) = new_providers src dst db"
    by (simp add: new_rows_config filter_id_conv)
  then have "filter (\<lambda>p. pv_config p = dst) (db_providers db') = map ?f (config_providers src db)"
    using cl unused by (simp add: cloned_def unused_config_def filter_empty_conv) (simp add: new_providers_def)
  then show ?thesis
    by (simp add: RuleProviders_def sort_key_map config_providers_def provider_of_row_def rename_provider_def)
qed

lemma find_map_filter:
  "(\<And>x. P (f x) \<longleftrightarrow> Q x) \<Longrightarrow> find P (map f (filter R xs)) = map_option f (find (\<lambda>x. R x \<and> Q x) xs)"
  by (induction xs) auto

lemma find_append_none: "(\<And>x. x \<in> set xs \<Longrightarrow> \<not> P x) \<Longrightarrow> find P (xs @ ys) = find P ys"
  by (induction xs) auto

lemma Setting_cloned:
  assumes cl: "cloned src dst db db'" and unused: "unused_config dst db"
  shows "Setting dst key db' = Setting src key db"
proof -
  have "find (\<lambda>s. sr_config s = dst \<and> sr_key s = key) (db_settings db') =
      map_option (\<lambda>s. s\<lparr>sr_config := dst\<rparr>) (find (\<lambda>s. sr_config s = src \<and> sr_key s = key) (db_settings db))"
    using cl unused
    by (simp add: cloned_def unused_config_def find_append_none
        find_map_filter [of _ _ "\<lambda>s. sr_key s = key"])
  then show ?thesis by (simp add: Setting_def split: option.splits)
qed

lemma Profile_cloned:
  assumes cl: "cloned src dst db db'" and unused: "unused_config dst db"
  shows "Profile_of dst db' = Profile_of src db"
proof -
  have "find (\<lambda>f. fr_config f = dst) (db_profiles db') =
      map_option (\<lambda>f. f\<lparr>fr_config := dst\<rparr>) (find (\<lambda>f. fr_config f = src) (db_profiles db))"
    using cl unused
    by (simp add: cloned_def unused_config_def find_append_none find_map_filter [of _ _ "\<lambda>s. True"])
  then show ?thesis by (simp add: Profile_of_def split: option.splits)
qed

section \<open>Rules\<close>

definition source_rules :: "int \<Rightarrow> db \<Rightarrow> rule_row list" where
  "source_rules src db = filter (\<lambda>r. rl_config r = src) (db_rules db)"

definition clone_renaming :: "int \<Rightarrow> db \<Rightarrow> int \<Rightarrow> int" where
  "clone_renaming src db = rule_renaming (maxRuleID db) (map rl_id (source_rules src db))"

lemma source_rules_ids:
  assumes "db_inv db"
  shows "sorted_wrt (<) (map rl_id (source_rules src db))"
  using assms uniq_ids(3) [of db]
  by (simp add: strict_sorted_iff db_inv_def ids_ascend_def source_rules_def sorted_filter_map distinct_map_filter)

lemma source_rules_parent:
  assumes inv: "db_inv db" and "r \<in> set (source_rules src db)" "rl_parent r = Some p"
  shows "p < rl_id r \<and> p \<in> rl_id ` set (source_rules src db)"
proof -
  have "p < rl_id r" using assms by (auto simp: db_inv_def ids_ascend_def source_rules_def)
  moreover obtain q where "q \<in> set (db_rules db)" "rl_id q = p" "rl_config q = rl_config r"
    using assms by (fastforce simp: db_inv_def config_local_def parents_local_def source_rules_def)
  ultimately show ?thesis using assms(2) by (auto simp: source_rules_def)
qed

lemma new_rules_map:
  assumes inv: "db_inv db"
  shows "new_rules src dst db =
    map (renamed_row dst (clone_renaming src db) (group_map src db) (provider_map src db)) (source_rules src db)"
proof -
  note ids = source_rules_ids [OF inv, of src]
  then have "sort_key rl_id (source_rules src db) = source_rules src db"
    by (intro sort_key_sorted) (simp add: strict_sorted_iff)
  moreover have "clone_rule_rows dst (group_map src db) (provider_map src db) (maxRuleID db) Map.empty
      (source_rules src db) =
    map (renamed_row dst (clone_renaming src db) (group_map src db) (provider_map src db)) (source_rules src db)"
  proof (rule clone_rule_rows_eq [OF _ ids])
    show "clone_renaming src db (rl_id (source_rules src db ! k)) = maxRuleID db + 1 + int k"
      if "k < length (source_rules src db)" for k
      using rule_renaming_nth [of "map rl_id (source_rules src db)" k] ids that
      by (simp add: clone_renaming_def strict_sorted_iff)
  qed (use source_rules_parent [OF inv] in auto)
  ultimately show ?thesis by (simp add: new_rules_def source_rules_def)
qed

lemma clone_renaming_less:
  assumes "db_inv db" and "i \<in> rl_id ` set (source_rules src db)" "j \<in> rl_id ` set (source_rules src db)"
  shows "clone_renaming src db i < clone_renaming src db j \<longleftrightarrow> i < j"
  using rule_renaming_less [OF source_rules_ids [OF assms(1)], of i src j] assms(2,3)
  by (simp add: clone_renaming_def)

lemma rule_refs_local:
  assumes inv: "db_inv db" and r: "r \<in> set (source_rules src db)"
  shows "rl_group r = Some i \<Longrightarrow> i \<in> gr_id ` set (config_groups src db)"
    and "rl_provider r = Some i \<Longrightarrow> i \<in> pv_id ` set (config_providers src db)"
  using assms
  by (fastforce simp: db_inv_def config_local_def targets_local_def source_rules_def config_groups_def
      config_providers_def)+

lemma provider_map_some:
  assumes "i \<in> pv_id ` set (config_providers src db)"
  shows "provider_map src db i = Some (the (provider_map src db i))"
proof -
  have "i \<in> dom (provider_map src db)"
    using assms by (simp add: provider_map_def pair_ids_dom Let_def)
  then show ?thesis by auto
qed

lemma Rules_cloned:
  assumes inv: "db_inv db" and cl: "cloned src dst db db'" and unused: "unused_config dst db"
  shows "Rules dst db' = map_option (map (rename_rule (clone_renaming src db)
      (\<lambda>i. the (group_map src db i)) (\<lambda>i. the (provider_map src db i)))) (Rules src db)"
proof -
  have ok: "constraints_ok db" using inv by (simp add: db_inv_def)
  let ?rm = "clone_renaming src db" and ?S = "source_rules src db"
  let ?f = "renamed_row dst ?rm (group_map src db) (provider_map src db)"
  let ?G = "sort_key rule_key ?S"
  let ?ren = "rename_rule ?rm (\<lambda>i. the (group_map src db i)) (\<lambda>i. the (provider_map src db i))"
  have row [simp]: "rl_config (?f r) = dst" "rl_parent (?f r) = map_option ?rm (rl_parent r)"
    "rl_position (?f r) = rl_position r" for r
    by (simp_all add: renamed_row_def clone_rule_row_def)
  have "filter (\<lambda>r. rl_config r = dst) (db_rules db') = map ?f ?S"
    using cl unused by (simp add: cloned_def unused_config_def new_rules_map [OF inv] filter_empty_conv filter_id_conv)
  then have "config_rules dst db' = map ?f (sort_key (\<lambda>r. rule_key (?f r)) ?S)"
    by (simp add: config_rules_def sort_key_map)
  moreover have "sort_key (\<lambda>r. rule_key (?f r)) ?S = ?G"
  proof (rule sort_key_same_order)
    fix r q
    assume rq: "r \<in> set ?S" "q \<in> set ?S"
    show "rule_key (?f r) \<le> rule_key (?f q) \<longleftrightarrow> rule_key r \<le> rule_key q"
    proof (cases "rl_parent r = None \<or> rl_parent q = None")
      case True
      then show ?thesis
        by (cases "rl_parent r"; cases "rl_parent q") (simp_all add: rule_key_def less_eq_prod_def)
    next
      case False
      then obtain i j where ij: "rl_parent r = Some i" "rl_parent q = Some j" by auto
      then have "i \<in> rl_id ` set ?S" "j \<in> rl_id ` set ?S"
        using source_rules_parent [OF inv] rq by blast+
      from clone_renaming_less [OF inv this] clone_renaming_less [OF inv this(2,1)]
      have "?rm i < ?rm j \<longleftrightarrow> i < j" "?rm i \<le> ?rm j \<longleftrightarrow> i \<le> j" by linarith+
      with ij show ?thesis by (simp add: rule_key_def less_eq_prod_def)
    qed
  qed
  ultimately have dst: "config_rules dst db' = map ?f ?G" by simp
  have src: "config_rules src db = ?G" by (simp add: config_rules_def source_rules_def)
  have fr: "freeze n (map ?f ?G) (?f r) = map_option ?ren (freeze n ?G r)" if "r \<in> set ?G" for r n
  proof (rule freeze_renamed)
    show "inj_on ?rm (rl_id ` set ?G)"
      using clone_renaming_less [OF inv, of _ src] by (intro inj_onI) (metis less_irrefl linorder_neqE set_sort)
  qed (use that rule_refs_local [OF inv] source_rules_parent [OF inv] group_map_some [OF ok] provider_map_some
       in \<open>auto\<close>)
  have "map (freeze n (map ?f ?G)) (map ?f (filter (\<lambda>r. rl_parent r = None) ?G)) =
      map (map_option ?ren) (map (freeze n ?G) (filter (\<lambda>r. rl_parent r = None) ?G))" for n
    using fr by simp
  then have "those (map (freeze n (map ?f ?G)) (map ?f (filter (\<lambda>r. rl_parent r = None) ?G))) =
      map_option (map ?ren) (those (map (freeze n ?G) (filter (\<lambda>r. rl_parent r = None) ?G)))" for n
    by (simp only: those_map_option)
  moreover have "filter (\<lambda>r. rl_parent r = None) (map ?f ?G) = map ?f (filter (\<lambda>r. rl_parent r = None) ?G)"
    by (simp add: filter_map comp_def)
  ultimately show ?thesis by (simp only: Rules_def dst src Let_def length_map)
qed

end
