(* ===== verification/ConfigsRepo.thy ===== *)
theory ConfigsRepo
  imports RoutingCloneReads
begin

text \<open>
  Ownership of subscription configurations, package \<open>internal/repository/configs\<close>: the base
  configuration of an engine, the per-user custom configurations, their creation as a snapshot of
  the base and their removal. The clock is an argument.
\<close>

section \<open>The operations\<close>

definition BaseConfigID :: "string \<Rightarrow> db \<Rightarrow> int option" where
  "BaseConfigID kind db =
     map_option cf_id (find (\<lambda>c. cf_user c = None \<and> cf_kind c = kind) (db_configs db))"

definition UserConfigID :: "int \<Rightarrow> string \<Rightarrow> db \<Rightarrow> int option" where
  "UserConfigID userID kind db =
     map_option cf_id (find (\<lambda>c. cf_user c = Some userID \<and> cf_kind c = kind) (db_configs db))"

definition UserConfigUserIDs :: "string \<Rightarrow> db \<Rightarrow> int list" where
  "UserConfigUserIDs kind db =
     sort (map (the \<circ> cf_user) (filter (\<lambda>c. cf_user c \<noteq> None \<and> cf_kind c = kind) (db_configs db)))"

definition next_config_id :: "db \<Rightarrow> int" where
  "next_config_id db = auto_base cf_id (sq_configs db) (db_configs db) + 1"

definition insert_config :: "config_row \<Rightarrow> db \<Rightarrow> db" where
  "insert_config row db =
     db\<lparr>db_configs := db_configs db @ [set_cf_id (next_config_id db) row],
        sq_configs := next_config_id db\<rparr>"

text \<open>
  INSERT OR IGNORE skips the row on a UNIQUE conflict and leaves the table as it is. The statement
  and the SELECT after it are not in a transaction.
\<close>

definition EnsureBaseConfigID :: "string \<Rightarrow> int \<Rightarrow> db \<Rightarrow> (repo_error + int) \<times> db" where
  "EnsureBaseConfigID kind now db =
     (let row = \<lparr>cf_id = 0, cf_user = None, cf_kind = kind, cf_created = now\<rparr>;
          ins = (case exec (insert_config row) db of
                   Inl e \<Rightarrow> if IsUniqueViolation e then Inr db else Inl e
                 | Inr db' \<Rightarrow> Inr db')
      in case ins of
           Inl e \<Rightarrow> (Inl e, db)
         | Inr db' \<Rightarrow>
             (case BaseConfigID kind db' of
                None \<Rightarrow> (Inl (Internal ''sql: no rows in result set''), db')
              | Some i \<Rightarrow> (Inr i, db')))"

definition create_user_config_tx ::
    "int \<Rightarrow> string \<Rightarrow> int \<Rightarrow> db \<Rightarrow> repo_error + (int \<times> db)" where
  "create_user_config_tx userID kind now db =
     (let base = BaseConfigID kind db;
          row = \<lparr>cf_id = 0, cf_user = Some userID, cf_kind = kind, cf_created = now\<rparr>;
          newID = next_config_id db
      in case exec (insert_config row) db of
           Inl e \<Rightarrow> Inl (if IsUniqueViolation e then Domain ErrUserConfigExists else e)
         | Inr db' \<Rightarrow>
             (case base of
                None \<Rightarrow> Inr (newID, db')
              | Some baseID \<Rightarrow> bind_err (CloneConfig baseID newID db') (\<lambda>db'. Inr (newID, db'))))"

definition CreateUserConfig :: "int \<Rightarrow> string \<Rightarrow> int \<Rightarrow> db \<Rightarrow> (repo_error + int) \<times> db" where
  "CreateUserConfig userID kind now = in_tx (create_user_config_tx userID kind now)"

text \<open>Deleting configurations cascades to every table that hangs off them.\<close>

definition delete_configs :: "(config_row \<Rightarrow> bool) \<Rightarrow> db \<Rightarrow> db" where
  "delete_configs P db =
     (let gone = map cf_id (filter P (db_configs db));
          db = delete_rules (\<lambda>r. rl_config r \<in> set gone) db;
          db = delete_groups (\<lambda>g. gr_config g \<in> set gone) db;
          db = delete_providers (\<lambda>p. pv_config p \<in> set gone) db
      in db\<lparr>db_configs := filter (\<lambda>c. \<not> P c) (db_configs db),
            db_settings := filter (\<lambda>s. sr_config s \<notin> set gone) (db_settings db),
            db_profiles := filter (\<lambda>f. fr_config f \<notin> set gone) (db_profiles db)\<rparr>)"

definition delete_user_config_tx :: "int \<Rightarrow> string \<Rightarrow> db \<Rightarrow> repo_error + (unit \<times> db)" where
  "delete_user_config_tx userID kind db =
     (let P = (\<lambda>c. cf_user c = Some userID \<and> cf_kind c = kind)
      in bind_err (exec (delete_configs P) db) (\<lambda>db'.
           if filter P (db_configs db) = [] then Inl (Domain ErrUserConfigNotFound) else Inr ((), db')))"

definition DeleteUserConfig :: "int \<Rightarrow> string \<Rightarrow> db \<Rightarrow> (repo_error + unit) \<times> db" where
  "DeleteUserConfig userID kind = in_tx (delete_user_config_tx userID kind)"

section \<open>Clones keep the invariant and the other configurations\<close>

lemma new_rules_shape:
  assumes inv: "db_inv db"
  shows "(\<forall>r \<in> set (new_rules src dst db). rl_config r = dst) \<and>
    map rl_id (new_rules src dst db) = [maxRuleID db + 1 .. maxRuleID db + int (length (source_rules src db))] \<and>
    (\<forall>r \<in> set (new_rules src dst db). \<forall>p. rl_parent r = Some p \<longrightarrow>
       p < rl_id r \<and> p \<in> rl_id ` set (new_rules src dst db))"
proof (intro conjI ballI allI impI)
  let ?S = "source_rules src db"
  note new = new_rules_map [OF inv, of src dst]
  have ids: "sorted_wrt (<) (map rl_id ?S)" by (rule source_rules_ids [OF inv])
  show "rl_config r = dst" if "r \<in> set (new_rules src dst db)" for r
    using that by (auto simp: new renamed_row_def clone_rule_row_def)
  show "map rl_id (new_rules src dst db) = [maxRuleID db + 1 .. maxRuleID db + int (length ?S)]"
    by (rule nth_equalityI)
       (use rule_renaming_nth [of "map rl_id ?S"] ids in
         \<open>auto simp: new renamed_row_def clone_rule_row_def clone_renaming_def strict_sorted_iff\<close>)
  fix r p
  assume "r \<in> set (new_rules src dst db)" "rl_parent r = Some p"
  then obtain s q where s: "s \<in> set ?S" "rl_parent s = Some q" "p = clone_renaming src db q"
    "rl_id r = clone_renaming src db (rl_id s)"
    by (auto simp: new renamed_row_def clone_rule_row_def)
  from source_rules_parent [OF inv s(1,2)] s clone_renaming_less [OF inv, of q src "rl_id s"]
  show "p < rl_id r" by auto
  from source_rules_parent [OF inv s(1,2)] obtain t where "t \<in> set ?S" "rl_id t = q" by auto
  then show "p \<in> rl_id ` set (new_rules src dst db)"
    by (auto simp: new s(3) renamed_row_def clone_rule_row_def intro!: rev_image_eqI)
qed

lemma new_rules_refs:
  assumes inv: "db_inv db" and r: "r \<in> set (new_rules src dst db)"
  shows "rl_group r = Some i \<Longrightarrow> \<exists>g \<in> set (new_groups src dst db). gr_id g = i"
    and "rl_provider r = Some i \<Longrightarrow> \<exists>p \<in> set (new_providers src dst db). pv_id p = i"
proof -
  have ok: "constraints_ok db" using inv by (simp add: db_inv_def)
  from r obtain s where s: "s \<in> set (source_rules src db)"
    "r = renamed_row dst (clone_renaming src db) (group_map src db) (provider_map src db) s"
    by (auto simp: new_rules_map [OF inv])
  show "\<exists>g \<in> set (new_groups src dst db). gr_id g = i" if "rl_group r = Some i"
  proof -
    from that s obtain j where j: "rl_group s = Some j" "group_map src db j = Some i"
      by (auto simp: renamed_row_def clone_rule_row_def split: option.splits)
    with rule_refs_local(1) [OF inv s(1)] show ?thesis by (force simp: new_groups_def)
  qed
  show "\<exists>p \<in> set (new_providers src dst db). pv_id p = i" if "rl_provider r = Some i"
  proof -
    from that s obtain j where j: "rl_provider s = Some j" "provider_map src db j = Some i"
      by (auto simp: renamed_row_def clone_rule_row_def split: option.splits)
    with rule_refs_local(2) [OF inv s(1)] show ?thesis by (force simp: new_providers_def)
  qed
qed

lemma new_members_groups:
  assumes inv: "db_inv db" and "m \<in> set (new_members src db)"
  shows "(\<exists>g \<in> set (new_groups src dst db). gr_id g = mr_group m) \<and>
    (\<forall>i. mr_ref m = Some i \<longrightarrow> (\<exists>g \<in> set (new_groups src dst db). gr_id g = i))"
proof -
  from assms obtain n where n: "n \<in> set (source_members src db)" "m = renamed_member src db n"
    by (auto simp: new_members_map [OF inv])
  have "\<exists>g \<in> set (new_groups src dst db). gr_id g = the (group_map src db j)"
    if "j \<in> gr_id ` set (config_groups src db)" for j
    using that by (force simp: new_groups_def)
  with n member_ref_local [OF inv n(1)] show ?thesis
    by (auto simp: renamed_member_def set_source_members)
qed

lemma find_append_map_none:
  "(\<And>y. \<not> P (f y)) \<Longrightarrow> find P (xs @ map f ys) = find P xs"
  by (induction xs) (auto simp: find_None_iff)

lemma new_rules_local:
  fixes src dst :: int
  assumes inv: "db_inv db"
  defines "R \<equiv> new_rules src dst db"
  shows "refs_local rl_parent rl_config rl_id rl_config R R"
    and "refs_local rl_group rl_config gr_id gr_config R (new_groups src dst db)"
    and "refs_local rl_provider rl_config pv_id pv_config R (new_providers src dst db)"
proof -
  note shape = new_rules_shape [OF inv, of src dst, folded R_def]
  have cfg: "rl_config r = dst" if "r \<in> set R" for r using shape that by blast
  show "refs_local rl_parent rl_config rl_id rl_config R R"
    unfolding refs_local_def
  proof (intro ballI allI impI)
    fix r i assume r: "r \<in> set R" "rl_parent r = Some i"
    with shape have "i \<in> rl_id ` set R" by blast
    then obtain q where "q \<in> set R" "rl_id q = i" by blast
    with r cfg show "\<exists>q \<in> set R. rl_id q = i \<and> rl_config q = rl_config r" by metis
  qed
  show "refs_local rl_group rl_config gr_id gr_config R (new_groups src dst db)"
    unfolding refs_local_def
  proof (intro ballI allI impI)
    fix r i assume r: "r \<in> set R" "rl_group r = Some i"
    then obtain q where "q \<in> set (new_groups src dst db)" "gr_id q = i"
      using new_rules_refs(1) [OF inv] unfolding R_def by blast
    with r cfg new_rows_config(1)
    show "\<exists>q \<in> set (new_groups src dst db). gr_id q = i \<and> gr_config q = rl_config r" by metis
  qed
  show "refs_local rl_provider rl_config pv_id pv_config R (new_providers src dst db)"
    unfolding refs_local_def
  proof (intro ballI allI impI)
    fix r i assume r: "r \<in> set R" "rl_provider r = Some i"
    then obtain q where "q \<in> set (new_providers src dst db)" "pv_id q = i"
      using new_rules_refs(2) [OF inv] unfolding R_def by blast
    with r cfg new_rows_config(2)
    show "\<exists>q \<in> set (new_providers src dst db). pv_id q = i \<and> pv_config q = rl_config r" by metis
  qed
qed

lemma cloned_inv:
  assumes inv: "db_inv db" and cl: "cloned src dst db db'"
  shows "db_inv db'"
proof -
  have ok: "constraints_ok db" and local: "parents_local db" "targets_local db" "members_local db"
    and asc: "ids_ascend db"
    using inv by (simp_all add: db_inv_def config_local_def)
  note shape = new_rules_shape [OF inv, of src dst]
  have "parents_local db'" "targets_local db'"
    using local(1,2) cl new_rules_local [OF inv, of src dst]
    unfolding local_refs cloned_def by (simp_all add: refs_local_append)
  moreover have "members_local db'"
  proof -
    let ?new = "number_from set_mr_id (auto_base mr_id (sq_members db) (db_members db) + 1) (new_members src db)"
    have old: "\<exists>g \<in> set (db_groups db'). \<exists>h \<in> set (db_groups db').
        gr_id g = i \<and> gr_id h = mr_group m \<and> gr_config g = gr_config h"
      if "m \<in> set (db_members db)" "mr_ref m = Some i" for m i
    proof -
      from that local(3) obtain g h where "g \<in> set (db_groups db)" "h \<in> set (db_groups db)"
        "gr_id g = i" "gr_id h = mr_group m" "gr_config g = gr_config h"
        unfolding members_local_def by blast
      then show ?thesis using cl unfolding cloned_def by auto
    qed
    have new: "\<forall>m \<in> set ?new. (\<exists>g \<in> set (new_groups src dst db). gr_id g = mr_group m) \<and>
        (\<forall>i. mr_ref m = Some i \<longrightarrow> (\<exists>g \<in> set (new_groups src dst db). gr_id g = i))"
      using new_members_groups [OF inv] by (subst number_from_all) (simp_all add: row_simps)
    have "\<exists>g \<in> set (db_groups db'). \<exists>h \<in> set (db_groups db').
        gr_id g = i \<and> gr_id h = mr_group m \<and> gr_config g = gr_config h"
      if m: "m \<in> set ?new" "mr_ref m = Some i" for m i
    proof -
      from bspec [OF new m(1)] m(2) obtain g h where "g \<in> set (new_groups src dst db)" "gr_id g = i"
        "h \<in> set (new_groups src dst db)" "gr_id h = mr_group m" by blast
      moreover from this have "gr_config g = gr_config h" by (simp add: new_rows_config(1))
      ultimately show ?thesis using cl unfolding cloned_def by auto
    qed
    with old cl show ?thesis by (auto simp: members_local_def cloned_def)
  qed
  moreover have "ids_ascend db'"
  proof -
    have "rl_id r \<le> rl_id q" if "r \<in> set (db_rules db)" "q \<in> set (new_rules src dst db)" for r q
    proof -
      have "rl_id q \<in> set (map rl_id (new_rules src dst db))" using that by simp
      then have "maxRuleID db < rl_id q" using shape by (metis atLeastAtMost_iff set_upto add1_zle_eq)
      with maxRuleID_ge [OF that(1)] show ?thesis by simp
    qed
    moreover have "sorted (map rl_id (new_rules src dst db))" using shape by simp
    ultimately have "sorted (map rl_id (db_rules db @ new_rules src dst db))"
      using asc by (simp add: sorted_append ids_ascend_def)
    moreover have "pv_id p \<le> pv_id q" if "p \<in> set (db_providers db)" "q \<in> set (new_providers src dst db)" for p q
    proof -
      have "pv_id q \<in> set (map pv_id (new_providers src dst db))" using that by simp
      then show ?thesis using auto_base_ge [OF that(1), of pv_id "sq_providers db"]
        by (simp add: new_provider_ids_eq [OF ok])
    qed
    then have "sorted (map pv_id (db_providers db @ new_providers src dst db))"
      using asc by (simp add: sorted_append ids_ascend_def) (simp only: new_provider_ids_eq [OF ok] sorted_upto)
    ultimately show ?thesis
      using asc shape cl by (auto simp: ids_ascend_def cloned_def)
  qed
  ultimately show ?thesis using cl by (simp add: db_inv_def config_local_def cloned_def)
qed

lemma cloned_others:
  assumes inv: "db_inv db" and cl: "cloned src dst db db'" and "other \<noteq> dst"
  shows "same_config other db db'"
proof -
  have ok: "constraints_ok db" "constraints_ok db'" using inv cl by (simp_all add: db_inv_def cloned_def)
  let ?new = "number_from set_mr_id (auto_base mr_id (sq_members db) (db_members db) + 1) (new_members src db)"
  have "filter (\<lambda>g. gr_config g = other) (db_groups db') = filter (\<lambda>g. gr_config g = other) (db_groups db)"
    using cl filter_mine [of "new_groups src dst db" gr_config dst other] new_rows_config(1) assms(3)
    by (simp add: cloned_def)
  moreover have "filter (\<lambda>m. mr_group m = gr_id g) (db_members db') = filter (\<lambda>m. mr_group m = gr_id g) (db_members db)"
    if g: "g \<in> set (db_groups db)" for g
  proof -
    have "\<forall>m \<in> set ?new. \<exists>h \<in> set (new_groups src dst db). gr_id h = mr_group m"
      using new_members_groups [OF inv] by (subst number_from_all) (auto simp: row_simps)
    moreover have "gr_id g < gr_id h" if "h \<in> set (new_groups src dst db)" for h
    proof -
      have "gr_id h \<in> set (new_group_ids src db)"
        using that by (simp flip: new_group_ids_eq [OF ok(1), of src dst])
      then show ?thesis using auto_base_ge [OF g, of gr_id "sq_groups db"]
        by (simp add: new_group_ids_def Let_def)
    qed
    ultimately have "filter (\<lambda>m. mr_group m = gr_id g) ?new = []"
      by (fastforce simp: filter_empty_conv)
    with cl show ?thesis by (simp add: cloned_def)
  qed
  ultimately have "ProxyGroups other db' = ProxyGroups other db"
    by (rule ProxyGroups_cong [OF ok])
  moreover have "Rules other db' = Rules other db"
    using cl filter_mine [of "new_rules src dst db" rl_config dst other] new_rules_shape [OF inv, of src dst] assms(3)
    by (intro Rules_cong) (simp add: cloned_def)
  moreover have "RuleProviders other db' = RuleProviders other db"
    using cl filter_mine [of "new_providers src dst db" pv_config dst other] new_rows_config(2) assms(3)
    by (intro RuleProviders_cong) (simp add: cloned_def)
  moreover have "Setting other key db' = Setting other key db" for key
    using cl assms(3) by (auto simp: Setting_def cloned_def find_append_map_none)
  moreover have "Profile_of other db' = Profile_of other db"
    using cl assms(3) by (auto simp: Profile_of_def cloned_def find_append_map_none)
  ultimately show ?thesis by (simp add: same_config_def)
qed

end
