(* ===== verification/ConfigsProgress.thy ===== *)
theory ConfigsProgress
  imports ConfigsRepo
begin

text \<open>
  Copying a configuration never fails: under the database invariant, every INSERT of a clone into a
  fresh configuration satisfies the constraints of the schema.
\<close>

section \<open>Batches\<close>

lemma batch_insert_result:
  assumes "constraints_ok d" and "constraints_ok (ins rows d)"
  obtains d' where "batch_insert ins rows d = Inr d'" "constraints_ok d'"
  using assms by (cases "rows = []") (auto simp: batch_insert_def exec_ok)

lemma cf_ids_refs:
  assumes "constraints_ok db"
  shows "\<And>g. g \<in> set (db_groups db) \<Longrightarrow> gr_config g \<in> cf_id ` set (db_configs db)"
    and "\<And>r. r \<in> set (db_rules db) \<Longrightarrow> rl_config r \<in> cf_id ` set (db_configs db)"
    and "\<And>p. p \<in> set (db_providers db) \<Longrightarrow> pv_config p \<in> cf_id ` set (db_configs db)"
    and "\<And>s. s \<in> set (db_settings db) \<Longrightarrow> sr_config s \<in> cf_id ` set (db_configs db)"
    and "\<And>f. f \<in> set (db_profiles db) \<Longrightarrow> fr_config f \<in> cf_id ` set (db_configs db)"
  using assms by (simp_all add: constraint_defs)

lemma distinct_config_names:
  assumes "constraints_ok db"
  shows "distinct (map gr_name (config_groups src db))" "distinct (map pv_name (config_providers src db))"
proof -
  have "distinct (map gr_name (filter (\<lambda>g. gr_config g = src) (db_groups db)))"
    "distinct (map pv_name (filter (\<lambda>p. pv_config p = src) (db_providers db)))"
    using assms by (auto simp: constraint_defs distinct_map inj_on_def)
  then show "distinct (map gr_name (config_groups src db))" "distinct (map pv_name (config_providers src db))"
    by (auto simp: config_groups_def config_providers_def distinct_map)
qed

section \<open>Groups and members\<close>

lemma cloneGroups_ok:
  assumes ok: "constraints_ok db" and dst: "dst \<in> cf_id ` set (db_configs db)"
    and unused: "unused_config dst db"
  obtains s d1 where "cloneGroups src dst db = Inr (group_map src db, d1)" "constraints_ok d1"
    "d1 = db\<lparr>db_groups := db_groups db @ new_groups src dst db, sq_groups := s\<rparr>"
proof -
  let ?rows = "map (clone_group_row dst) (config_groups src db)"
  have "constraints_ok (insert_groups ?rows db)"
  proof (rule constraints_insert_group_rows [OF ok dst])
    show "gr_config g \<noteq> dst" if "g \<in> set (db_groups db)" for g
      using unused that by (simp add: unused_config_def)
    have "map gr_name ?rows = map gr_name (config_groups src db)" by (simp add: clone_group_row_def)
    then show "distinct (map gr_name ?rows)" by (simp only: distinct_config_names [OF ok])
  qed (simp add: clone_group_row_def)
  then obtain d1 where d1: "batch_insert insert_groups ?rows db = Inr d1" "constraints_ok d1"
    by (rule batch_insert_result [OF ok])
  note g = batch_insert_groups [OF d1(1), unfolded clone_groups_rows [OF ok]]
  obtain s where eq: "d1 = db\<lparr>db_groups := db_groups db @ new_groups src dst db, sq_groups := s\<rparr>"
    by (rule that, rule trans [OF g(2)]) (simp add: g(1))
  have "pair_ids (map gr_id (config_groups src db)) (group_ids dst d1) = group_map src db"
    by (simp add: group_map_def group_ids_eq config_groups_clone [OF unused g(1)] new_group_ids_eq [OF ok])
  with d1(1) have "cloneGroups src dst db = Inr (group_map src db, d1)"
    by (simp add: cloneGroups_def Let_def config_groups_def)
  from that [OF this d1(2) eq] show thesis .
qed

lemma new_members_fit:
  assumes inv: "db_inv db" and m: "m \<in> set (new_members src db)"
  shows "member_check m \<and> ref_in (mr_inbound m) (map ir_id (db_inbounds db))"
proof -
  from m obtain n where n: "n \<in> set (source_members src db)" "m = renamed_member src db n"
    by (auto simp: new_members_map [OF inv])
  then have "n \<in> set (db_members db)" by (simp add: set_source_members)
  with inv have "member_check n" "ref_in (mr_inbound n) (map ir_id (db_inbounds db))"
    by (simp_all add: db_inv_def constraint_defs)
  then show ?thesis by (simp add: n(2) renamed_member_def member_check_def)
qed

lemma cloneMembers_ok:
  assumes inv: "db_inv db" and ok1: "constraints_ok d1" and neq: "src \<noteq> dst"
    and d1: "d1 = db\<lparr>db_groups := db_groups db @ new_groups src dst db, sq_groups := s\<rparr>"
  obtains s' ms d2 where "cloneMembers src (group_map src db) (group_ids src db) d1 = Inr d2" "constraints_ok d2"
    "d2 = d1\<lparr>db_members := ms, sq_members := s'\<rparr>"
proof (cases "group_ids src db = []")
  case True
  then have "cloneMembers src (group_map src db) (group_ids src db) d1 = Inr d1" by (simp add: cloneMembers_def)
  moreover have "d1 = d1\<lparr>db_members := db_members d1, sq_members := sq_members d1\<rparr>" by simp
  ultimately show thesis using that ok1 by blast
next
  case False
  have "\<forall>m \<in> set (new_members src db). member_fits (map ir_id (db_inbounds d1)) (map gr_id (db_groups d1)) m"
  proof
    fix m assume m: "m \<in> set (new_members src db)"
    note fit = new_members_fit [OF inv m] and gs = new_members_groups [OF inv m, of dst]
    have "mr_group m \<in> gr_id ` set (new_groups src dst db)" using gs by (metis imageI)
    moreover have "ref_in (mr_ref m) (map gr_id (new_groups src dst db))"
      using gs by (intro ref_in_cong) auto
    ultimately show "member_fits (map ir_id (db_inbounds d1)) (map gr_id (db_groups d1)) m"
      using fit by (auto simp: member_fits_def d1)
  qed
  then have "constraints_ok (insert_members (new_members src db) d1)"
    by (rule constraints_insert_members [OF ok1])
  then obtain d2 where d2: "batch_insert insert_members (new_members src db) d1 = Inr d2" "constraints_ok d2"
    by (rule batch_insert_result [OF ok1])
  have srcg: "filter (\<lambda>g. gr_config g = src) (db_groups d1) = filter (\<lambda>g. gr_config g = src) (db_groups db)"
    using filter_mine [of "new_groups src dst db" gr_config dst src] new_rows_config neq by (simp add: d1)
  have "sort_key member_key (filter (\<lambda>m. mr_group m \<in> set (map gr_id
      (filter (\<lambda>g. gr_config g = src) (db_groups d1)))) (db_members d1)) = source_members src db"
    unfolding srcg by (simp add: d1 source_members_def config_groups_def)
  with False d2(1) have "cloneMembers src (group_map src db) (group_ids src db) d1 = Inr d2"
    by (simp only: cloneMembers_def Let_def if_False new_members_def)
  from that [OF this d2(2) batch_insert_members(2) [OF d2(1)]] show thesis .
qed

section \<open>Providers and rules\<close>

lemma cloneProviders_ok:
  assumes inv: "db_inv db" and ok2: "constraints_ok d2" and unused: "unused_config dst db"
    and d2: "db_providers d2 = db_providers db" "sq_providers d2 = sq_providers db" "db_configs d2 = db_configs db"
    and dst: "dst \<in> cf_id ` set (db_configs db)"
  obtains s d3 where "cloneProviders src dst d2 = Inr (provider_map src db, d3)" "constraints_ok d3"
    "d3 = d2\<lparr>db_providers := db_providers db @ new_providers src dst db, sq_providers := s\<rparr>"
proof -
  have ok: "constraints_ok db" and asc: "ids_ascend db" using inv by (simp_all add: db_inv_def)
  let ?rows = "map (clone_provider_row dst) (config_providers src db)"
  have provs: "sort_key pv_id (filter (\<lambda>p. pv_config p = src) (db_providers d2)) = config_providers src db"
    using asc by (simp add: d2 config_providers_def ids_ascend_def sorted_filter_map sort_key_sorted)
  have "constraints_ok (insert_providers ?rows d2)"
  proof (rule constraints_insert_provider_rows [OF ok2])
    show "dst \<in> cf_id ` set (db_configs d2)" using dst by (simp add: d2)
    show "pv_config p \<noteq> dst" if "p \<in> set (db_providers d2)" for p
      using unused that by (simp add: unused_config_def d2)
    have "map pv_name ?rows = map pv_name (config_providers src db)" by (simp add: clone_provider_row_def)
    then show "distinct (map pv_name ?rows)" by (simp only: distinct_config_names [OF ok])
  qed (simp add: clone_provider_row_def)
  then obtain d3 where d3: "batch_insert insert_providers ?rows d2 = Inr d3" "constraints_ok d3"
    by (rule batch_insert_result [OF ok2])
  note p = batch_insert_providers [OF d3(1), unfolded d2(1,2) clone_providers_rows [OF ok]]
  obtain s where eq: "d3 = d2\<lparr>db_providers := db_providers db @ new_providers src dst db, sq_providers := s\<rparr>"
    by (rule that, rule trans [OF p(2)]) (simp add: p(1))
  have "pair_ids (map pv_id (config_providers src db)) (provider_ids dst d3) = provider_map src db"
    by (simp add: provider_ids_clone [OF ok unused p(1)] new_provider_ids_eq [OF ok] provider_map_def Let_def)
  with d3(1) have "cloneProviders src dst d2 = Inr (provider_map src db, d3)"
    by (simp add: cloneProviders_def Let_def provs)
  from that [OF this d3(2) eq] show thesis .
qed

lemma new_rules_fit:
  assumes inv: "db_inv db" and r: "r \<in> set (new_rules src dst db)"
  shows "rule_check r \<and> ref_in (rl_inbound r) (map ir_id (db_inbounds db))"
proof -
  have ok: "constraints_ok db" using inv by (simp add: db_inv_def)
  from r obtain s where s: "s \<in> set (source_rules src db)"
    "r = renamed_row dst (clone_renaming src db) (group_map src db) (provider_map src db) s"
    by (auto simp: new_rules_map [OF inv])
  then have "s \<in> set (db_rules db)" by (simp add: source_rules_def)
  with ok have old: "rule_check s" "ref_in (rl_inbound s) (map ir_id (db_inbounds db))"
    by (simp_all add: constraint_defs)
  have "rl_group r = None \<longleftrightarrow> rl_group s = None"
    using rule_refs_local(1) [OF inv s(1)] group_map_some [OF ok, of _ src]
    by (cases "rl_group s") (force simp: s(2) renamed_row_def clone_rule_row_def)+
  with old show ?thesis
    by (auto simp: s(2) renamed_row_def clone_rule_row_def rule_check_def split: option.splits)
qed

lemma cloneRules_ok:
  assumes inv: "db_inv db" and ok3: "constraints_ok d3" and dst: "dst \<in> cf_id ` set (db_configs d3)"
    and d3: "db_rules d3 = db_rules db" "db_inbounds d3 = db_inbounds db"
      "set (new_groups src dst db) \<subseteq> set (db_groups d3)"
      "set (new_providers src dst db) \<subseteq> set (db_providers d3)"
  obtains d4 where "cloneRules src dst (group_map src db) (provider_map src db) d3 = Inr d4" "constraints_ok d4"
    "d4 = d3\<lparr>db_rules := db_rules db @ new_rules src dst db\<rparr>"
proof -
  let ?R = "new_rules src dst db"
  note shape = new_rules_shape [OF inv, of src dst]
  have "constraints_ok (insert_rules ?R d3)"
  proof (rule constraints_insert_rules [OF ok3 dst])
    show "distinct (map rl_id ?R)" using shape by simp
    show "rl_id r \<noteq> rl_id q" if "r \<in> set (db_rules d3)" "q \<in> set ?R" for r q
    proof -
      have "rl_id q \<in> set (map rl_id ?R)" using that by simp
      then have "maxRuleID db < rl_id q" using shape by (metis atLeastAtMost_iff set_upto add1_zle_eq)
      with maxRuleID_ge [of r db] that(1) show ?thesis by (simp add: d3)
    qed
    show "\<forall>r \<in> set ?R. rl_config r = dst" using shape by blast
    show "\<forall>r \<in> set ?R. ref_in (rl_parent r) (map rl_id ?R)"
    proof
      fix r assume "r \<in> set ?R"
      then have "p \<in> rl_id ` set ?R" if "rl_parent r = Some p" for p using shape that by blast
      then show "ref_in (rl_parent r) (map rl_id ?R)" by (intro ref_in_cong) (simp only: set_map)
    qed
    show "\<forall>r \<in> set ?R. rule_fits (map ir_id (db_inbounds d3)) (map gr_id (db_groups d3))
        (map pv_id (db_providers d3)) r"
    proof
      fix r assume r: "r \<in> set ?R"
      have "ref_in (rl_group r) (map gr_id (db_groups d3))"
        using new_rules_refs(1) [OF inv r] d3(3) by (intro ref_in_cong) fastforce
      moreover have "ref_in (rl_provider r) (map pv_id (db_providers d3))"
        using new_rules_refs(2) [OF inv r] d3(4) by (intro ref_in_cong) fastforce
      ultimately show "rule_fits (map ir_id (db_inbounds d3)) (map gr_id (db_groups d3))
          (map pv_id (db_providers d3)) r"
        using new_rules_fit [OF inv r] by (simp add: rule_fits_def d3(2))
    qed
  qed
  then obtain d4 where d4: "batch_insert insert_rules ?R d3 = Inr d4" "constraints_ok d4"
    by (rule batch_insert_result [OF ok3])
  have "maxRuleID d3 = maxRuleID db" by (simp add: maxRuleID_def d3)
  with d4(1) have "cloneRules src dst (group_map src db) (provider_map src db) d3 = Inr d4"
    by (simp add: cloneRules_def Let_def d3(1) new_rules_def)
  from that [OF this d4(2)] batch_insert_rules [OF d4(1)] show thesis by (simp add: d3(1))
qed

section \<open>Settings, profile and the whole clone\<close>

lemma cloneSettings_ok:
  assumes ok: "constraints_ok d" and dst: "dst \<in> cf_id ` set (db_configs d)"
    and unused: "\<And>s. s \<in> set (db_settings d) \<Longrightarrow> sr_config s \<noteq> dst"
  obtains ss d' where "cloneSettings src dst d = Inr d'" "constraints_ok d'" "d' = d\<lparr>db_settings := ss\<rparr>"
proof -
  let ?new = "map (\<lambda>s. s\<lparr>sr_config := dst\<rparr>) (filter (\<lambda>s. sr_config s = src) (db_settings d))"
  have "distinct (map (\<lambda>s. (sr_config s, sr_key s)) (db_settings d))" using ok by (simp add: constraint_defs)
  then have "distinct (map (\<lambda>s. (sr_config s, sr_key s)) (db_settings d @ ?new))"
    using unused by (auto simp: distinct_map inj_on_def comp_def)
  then have "constraints_ok (d\<lparr>db_settings := db_settings d @ ?new\<rparr>)"
    using ok dst by (auto simp: constraint_defs)
  then show thesis
    by (intro that [of "d\<lparr>db_settings := db_settings d @ ?new\<rparr>"]) (simp_all add: cloneSettings_def exec_ok)
qed

lemma distinct_replicate_iff: "distinct (replicate n a) \<longleftrightarrow> n \<le> 1"
  by (cases n) auto

lemma cloneProfile_ok:
  assumes ok: "constraints_ok d" and dst: "dst \<in> cf_id ` set (db_configs d)"
    and unused: "\<And>f. f \<in> set (db_profiles d) \<Longrightarrow> fr_config f \<noteq> dst"
  obtains d' where "cloneProfile src dst d = Inr d'"
proof -
  let ?mine = "filter (\<lambda>f. fr_config f = src) (db_profiles d)"
  let ?new = "map (\<lambda>f. f\<lparr>fr_config := dst\<rparr>) ?mine"
  have d: "distinct (map fr_config (db_profiles d))" using ok by (simp add: constraint_defs)
  have "distinct (map fr_config ?mine)" by (rule distinct_map_filter [OF d])
  moreover have "map fr_config ?mine = map (\<lambda>f. src) ?mine" by (rule map_cong) simp_all
  ultimately have "distinct (replicate (length ?mine) src)" by (simp add: map_replicate_const)
  then have "distinct (map fr_config ?new)" by (simp add: map_replicate_const comp_def distinct_replicate_iff)
  then have "distinct (map fr_config (db_profiles d @ ?new))"
    using unused d by auto
  then have "constraints_ok (d\<lparr>db_profiles := db_profiles d @ ?new\<rparr>)"
    using ok dst by (auto simp: constraint_defs)
  then show thesis
    by (intro that [of "d\<lparr>db_profiles := db_profiles d @ ?new\<rparr>"]) (simp_all add: cloneProfile_def exec_ok)
qed

lemma CloneConfig_succeeds:
  assumes inv: "db_inv db" and dst: "dst \<in> cf_id ` set (db_configs db)"
    and unused: "unused_config dst db" and neq: "src \<noteq> dst"
  shows "\<exists>db'. CloneConfig src dst db = Inr db'"
proof -
  have ok: "constraints_ok db" using inv by (simp add: db_inv_def)
  obtain s d1 where c1: "cloneGroups src dst db = Inr (group_map src db, d1)" "constraints_ok d1"
    and d1: "d1 = db\<lparr>db_groups := db_groups db @ new_groups src dst db, sq_groups := s\<rparr>"
    by (rule cloneGroups_ok [OF ok dst unused])
  obtain s' ms d2 where c2: "cloneMembers src (group_map src db) (group_ids src db) d1 = Inr d2" "constraints_ok d2"
    and d2: "d2 = d1\<lparr>db_members := ms, sq_members := s'\<rparr>"
    by (rule cloneMembers_ok [OF inv c1(2) neq d1])
  obtain s'' d3 where c3: "cloneProviders src dst d2 = Inr (provider_map src db, d3)" "constraints_ok d3"
    and d3: "d3 = d2\<lparr>db_providers := db_providers db @ new_providers src dst db, sq_providers := s''\<rparr>"
    by (rule cloneProviders_ok [OF inv c2(2) unused _ _ _ dst, of src]) (simp_all add: d2 d1)
  obtain d4 where c4: "cloneRules src dst (group_map src db) (provider_map src db) d3 = Inr d4" "constraints_ok d4"
    and d4: "d4 = d3\<lparr>db_rules := db_rules db @ new_rules src dst db\<rparr>"
    by (rule cloneRules_ok [OF inv c3(2), where src = src and dst = dst]) (use dst in \<open>simp_all add: d3 d2 d1\<close>)
  have u4: "\<And>x. x \<in> set (db_settings d4) \<Longrightarrow> sr_config x \<noteq> dst"
    "\<And>x. x \<in> set (db_profiles d4) \<Longrightarrow> fr_config x \<noteq> dst" "dst \<in> cf_id ` set (db_configs d4)"
    using unused dst by (simp_all add: d4 d3 d2 d1 unused_config_def)
  obtain ss d5 where c5: "cloneSettings src dst d4 = Inr d5" "constraints_ok d5" and d5: "d5 = d4\<lparr>db_settings := ss\<rparr>"
    by (rule cloneSettings_ok [OF c4(2) u4(3,1)])
  obtain d6 where "cloneProfile src dst d5 = Inr d6"
    by (rule cloneProfile_ok [OF c5(2)]) (use u4 in \<open>simp_all add: d5\<close>)
  with c1 c2 c3 c4 c5 show ?thesis by (simp add: CloneConfig_def)
qed

end
