(* ===== verification/ConfigsAnchors.thy ===== *)
theory ConfigsAnchors
  imports ConfigsProgress
begin

text \<open>
  The anchor rows of the configurations: what inserting one does, when it succeeds, and that each
  owner and engine has at most one.
\<close>

section \<open>The anchor rows\<close>

lemma next_config_id_fresh: "c \<in> set (db_configs db) \<Longrightarrow> cf_id c < next_config_id db"
  using auto_base_ge [of c "db_configs db" cf_id "sq_configs db"] by (simp add: next_config_id_def)

lemma insert_config_sels [simp]:
  "db_groups (insert_config row db) = db_groups db" "db_members (insert_config row db) = db_members db"
  "db_rules (insert_config row db) = db_rules db" "db_providers (insert_config row db) = db_providers db"
  "db_settings (insert_config row db) = db_settings db" "db_profiles (insert_config row db) = db_profiles db"
  "db_inbounds (insert_config row db) = db_inbounds db" "db_users (insert_config row db) = db_users db"
  "db_nodes (insert_config row db) = db_nodes db" "db_conns (insert_config row db) = db_conns db"
  "db_configs (insert_config row db) = db_configs db @ [row\<lparr>cf_id := next_config_id db\<rparr>]"
  by (simp_all add: insert_config_def set_cf_id_def)

lemma insert_config_inv:
  assumes "constraints_ok (insert_config row db)" and "db_inv db"
  shows "db_inv (insert_config row db)"
  using assms
  by (simp add: db_inv_def config_local_def parents_local_def targets_local_def members_local_def ids_ascend_def)

lemma same_configI:
  assumes "constraints_ok db" "constraints_ok db'"
    and "db_groups db' = db_groups db" "db_members db' = db_members db" "db_rules db' = db_rules db"
    and "db_providers db' = db_providers db" "db_settings db' = db_settings db" "db_profiles db' = db_profiles db"
  shows "same_config cfg db db'"
  using assms ProxyGroups_cong [OF assms(1,2), of cfg] Rules_cong [of cfg db' db] RuleProviders_cong [of cfg db' db]
  by (simp add: same_config_def Setting_def Profile_of_def)

lemma insert_config_unused:
  assumes "constraints_ok db"
  shows "unused_config (next_config_id db) (insert_config row db)"
proof -
  have "c \<noteq> next_config_id db" if "c \<in> cf_id ` set (db_configs db)" for c
    using that next_config_id_fresh by fastforce
  with cf_ids_refs [OF assms] show ?thesis by (simp add: unused_config_def)
qed

text \<open>The key of the UNIQUE index over owner and engine: \<open>COALESCE(user_id,0), kind\<close>.\<close>

definition owner_key :: "config_row \<Rightarrow> int \<times> string" where
  "owner_key c = (case cf_user c of None \<Rightarrow> 0 | Some u \<Rightarrow> u, cf_kind c)"

lemma insert_config_ok:
  assumes ok: "constraints_ok db" and user: "ref_in (cf_user row) (map ur_id (db_users db))"
    and new: "owner_key row \<notin> owner_key ` set (db_configs db)"
  shows "constraints_ok (insert_config row db)"
proof -
  have "next_config_id db \<notin> cf_id ` set (db_configs db)"
    using next_config_id_fresh by fastforce
  moreover have "distinct (map cf_id (db_configs db))" using ok by (simp add: constraint_defs)
  ultimately have "distinct (map cf_id (db_configs (insert_config row db)))" by simp
  moreover have "distinct (map owner_key (db_configs (insert_config row db)))"
    using ok new by (simp add: constraint_defs owner_key_def [abs_def])
  ultimately show ?thesis
    using ok user by (simp add: constraint_defs owner_key_def [abs_def])
qed

lemma insert_config_taken:
  assumes ok: "constraints_ok db" and taken: "owner_key row \<in> owner_key ` set (db_configs db)"
  shows "exec (insert_config row) db = Inl (DBErr UniqueViolation)"
proof -
  have "\<not> distinct (map owner_key (db_configs (insert_config row db)))"
    using taken by (simp add: owner_key_def [abs_def])
  then have "\<not> uniq_ok (insert_config row db)"
    unfolding uniq_ok_def owner_key_def by blast
  moreover have "checks_ok (insert_config row db)" using ok by (simp add: constraint_defs)
  ultimately show ?thesis by (simp add: exec_def)
qed

lemma find_unique:
  assumes "distinct (map key xs)" and "\<And>x. P x \<longleftrightarrow> key x = k" and "x \<in> set xs" "P x"
  shows "find P xs = Some x"
  using assms
proof (induction xs)
  case (Cons y ys)
  then show ?case by (cases "x = y") (auto simp: image_iff)
qed simp

lemma config_found:
  assumes "constraints_ok db" and "0 \<notin> ur_id ` set (db_users db)"
    and "c \<in> set (db_configs db)" and "cf_kind c = kind"
  shows "cf_user c = None \<Longrightarrow> BaseConfigID kind db = Some (cf_id c)"
    and "cf_user c = Some u \<Longrightarrow> UserConfigID u kind db = Some (cf_id c)"
proof -
  have keys: "distinct (map owner_key (db_configs db))"
    using assms(1) by (simp add: constraint_defs owner_key_def [abs_def])
  have users: "cf_user d \<noteq> Some 0" if "d \<in> set (db_configs db)" for d
    using assms(1,2) that by (fastforce simp: constraint_defs)
  have same: "find P (db_configs db) = find (\<lambda>d. owner_key d = k) (db_configs db)"
    if "\<And>d. d \<in> set (db_configs db) \<Longrightarrow> P d \<longleftrightarrow> owner_key d = k" for P k
    using that by (intro find_cong) auto
  show "BaseConfigID kind db = Some (cf_id c)" if "cf_user c = None"
  proof -
    have "find (\<lambda>d. cf_user d = None \<and> cf_kind d = kind) (db_configs db) =
        find (\<lambda>d. owner_key d = (0, kind)) (db_configs db)"
      by (rule same) (use users in \<open>auto simp: owner_key_def split: option.splits\<close>)
    moreover have "find (\<lambda>d. owner_key d = (0, kind)) (db_configs db) = Some c"
      by (rule find_unique [OF keys, of _ "(0, kind)"]) (use that assms in \<open>simp_all add: owner_key_def\<close>)
    ultimately show ?thesis by (simp add: BaseConfigID_def)
  qed
  show "UserConfigID u kind db = Some (cf_id c)" if "cf_user c = Some u"
  proof -
    have "u \<noteq> 0" using that users [OF assms(3)] by auto
    then have "find (\<lambda>d. cf_user d = Some u \<and> cf_kind d = kind) (db_configs db) =
        find (\<lambda>d. owner_key d = (u, kind)) (db_configs db)"
      by (intro same) (auto simp: owner_key_def split: option.splits)
    moreover have "find (\<lambda>d. owner_key d = (u, kind)) (db_configs db) = Some c"
      by (rule find_unique [OF keys, of _ "(u, kind)"]) (use that assms in \<open>simp_all add: owner_key_def\<close>)
    ultimately show ?thesis by (simp add: UserConfigID_def)
  qed
qed

end
