(* ===== verification/ConfigsDelete.thy ===== *)
theory ConfigsDelete
  imports ConfigsAnchors
begin

text \<open>
  Deleting configurations: the cascade leaves exactly the rows of the other configurations, keeps
  the database invariant and changes no other configuration.
\<close>

definition gone_configs :: "(config_row \<Rightarrow> bool) \<Rightarrow> db \<Rightarrow> int set" where
  "gone_configs P db = cf_id ` {c \<in> set (db_configs db). P c}"

definition gone_groups :: "(config_row \<Rightarrow> bool) \<Rightarrow> db \<Rightarrow> int set" where
  "gone_groups P db = gr_id ` {g \<in> set (db_groups db). gr_config g \<in> gone_configs P db}"

lemma delete_rules_local:
  assumes ok: "constraints_ok db" and local: "parents_local db"
  shows "delete_rules (\<lambda>r. rl_config r \<in> S) db = db\<lparr>db_rules := filter (\<lambda>r. rl_config r \<notin> S) (db_rules db)\<rparr>"
proof -
  have "p \<notin> set (map rl_id (filter (\<lambda>r. rl_config r \<in> S) (db_rules db)))"
    if r: "r \<in> set (filter (\<lambda>r. rl_config r \<notin> S) (db_rules db))" "rl_parent r = Some p" for r p
  proof
    assume "p \<in> set (map rl_id (filter (\<lambda>r. rl_config r \<in> S) (db_rules db)))"
    then obtain t where t: "t \<in> set (db_rules db)" "rl_id t = p" "rl_config t \<in> S" by auto
    obtain q where q: "q \<in> set (db_rules db)" "rl_id q = p" "rl_config q = rl_config r"
      using local r unfolding parents_local_def by (metis filter_is_subset subsetD)
    have "q = t" using distinct_map_eq [OF uniq_ids(3) [OF ok] q(1) t(1)] q(2) t(2) by simp
    with q t r show False by simp
  qed
  then show ?thesis
    unfolding delete_rules_def by (subst cascade_rules_none) auto
qed

lemma delete_configs_tables:
  assumes "constraints_ok db" and "parents_local db"
  shows "delete_configs P db = db\<lparr>
    db_rules := filter (\<lambda>r. rl_config r \<notin> gone_configs P db) (db_rules db),
    db_groups := filter (\<lambda>g. gr_config g \<notin> gone_configs P db) (db_groups db),
    db_members := filter (\<lambda>m. mr_group m \<notin> gone_groups P db) (db_members db),
    db_providers := filter (\<lambda>p. pv_config p \<notin> gone_configs P db) (db_providers db),
    db_configs := filter (\<lambda>c. \<not> P c) (db_configs db),
    db_settings := filter (\<lambda>s. sr_config s \<notin> gone_configs P db) (db_settings db),
    db_profiles := filter (\<lambda>f. fr_config f \<notin> gone_configs P db) (db_profiles db)\<rparr>"
proof -
  have "set (map cf_id (filter P (db_configs db))) = gone_configs P db"
    by (auto simp: gone_configs_def)
  then show ?thesis
    using delete_rules_local [OF assms]
    by (simp add: delete_configs_def delete_groups_def delete_providers_def Let_def gone_groups_def)
qed

lemma refs_local_keep:
  assumes "refs_local ref cr key cq rs qs"
  shows "refs_local ref cr key cq (filter (\<lambda>r. cr r \<notin> S) rs) (filter (\<lambda>q. cq q \<notin> S) qs)"
  unfolding refs_local_def
proof (intro ballI allI impI)
  fix r i
  assume "r \<in> set (filter (\<lambda>r. cr r \<notin> S) rs)" "ref r = Some i"
  then obtain q where "q \<in> set qs" "key q = i" "cq q = cr r" "cr r \<notin> S"
    using refs_localD [OF assms] by auto
  then show "\<exists>q \<in> set (filter (\<lambda>q. cq q \<notin> S) qs). key q = i \<and> cq q = cr r" by auto
qed

lemma kept_group:
  assumes ok: "constraints_ok db" and m: "m \<in> set (db_members db)" "mr_group m \<notin> gone_groups P db"
  shows "\<exists>g \<in> set (db_groups db). gr_id g = mr_group m \<and> gr_config g \<notin> gone_configs P db"
proof -
  have "mr_group m \<in> gr_id ` set (db_groups db)" using fk_member_group [OF ok m(1)] .
  then obtain g where "g \<in> set (db_groups db)" "gr_id g = mr_group m" by auto
  moreover from this m(2) have "gr_config g \<notin> gone_configs P db" by (force simp: gone_groups_def)
  ultimately show ?thesis by blast
qed

lemma delete_configs_local:
  assumes inv: "db_inv db"
  shows "config_local (delete_configs P db)" and "ids_ascend (delete_configs P db)"
proof -
  have ok: "constraints_ok db" and par: "parents_local db" and tgt: "targets_local db"
    and mem: "members_local db" and asc: "ids_ascend db"
    using inv by (simp_all add: db_inv_def config_local_def)
  note t = delete_configs_tables [OF ok par, of P]
  have "members_local (delete_configs P db)"
    unfolding members_local_def
  proof (intro ballI allI impI)
    fix m i
    assume m: "m \<in> set (db_members (delete_configs P db))" "mr_ref m = Some i"
    then have keep: "m \<in> set (db_members db)" "mr_group m \<notin> gone_groups P db" by (simp_all add: t)
    with m(2) mem obtain g h where gh: "g \<in> set (db_groups db)" "h \<in> set (db_groups db)" "gr_id g = i"
      "gr_id h = mr_group m" "gr_config g = gr_config h"
      unfolding members_local_def by blast
    obtain h' where h': "h' \<in> set (db_groups db)" "gr_id h' = mr_group m" "gr_config h' \<notin> gone_configs P db"
      using kept_group [OF ok keep] by blast
    then have "h' = h" using distinct_map_eq [OF uniq_ids(1) [OF ok] h'(1) gh(2)] gh(4) by simp
    with gh h' show "\<exists>g \<in> set (db_groups (delete_configs P db)). \<exists>h \<in> set (db_groups (delete_configs P db)).
        gr_id g = i \<and> gr_id h = mr_group m \<and> gr_config g = gr_config h"
      by (intro bexI [of _ g] bexI [of _ h]) (simp_all add: t)
  qed
  moreover have "parents_local (delete_configs P db)" "targets_local (delete_configs P db)"
    using par tgt unfolding local_refs t by (simp_all add: refs_local_keep)
  ultimately show "config_local (delete_configs P db)" by (simp add: config_local_def)
  show "ids_ascend (delete_configs P db)"
    using asc by (simp add: ids_ascend_def t sorted_filter_map)
qed

lemma ref_in_kept:
  assumes "refs_local ref cr key cq rs qs" and "r \<in> set rs" and "cr r \<notin> S"
  shows "ref_in (ref r) (map key (filter (\<lambda>q. cq q \<notin> S) qs))"
proof (rule ref_in_cong)
  fix i
  assume "ref r = Some i"
  from refs_localD [OF assms(1,2) this] assms(3)
  show "i \<in> set (map key (filter (\<lambda>q. cq q \<notin> S) qs))" by auto
qed

lemma delete_configs_constraints:
  assumes inv: "db_inv db"
  shows "constraints_ok (delete_configs P db)"
proof -
  have ok: "constraints_ok db" and par: "parents_local db" and tgt: "targets_local db"
    and mem: "members_local db"
    using inv by (simp_all add: db_inv_def config_local_def)
  let ?S = "gone_configs P db"
  note t = delete_configs_tables [OF ok par, of P]
  have configs: "i \<in> cf_id ` {c \<in> set (db_configs db). \<not> P c}"
    if "i \<in> cf_id ` set (db_configs db)" "i \<notin> ?S" for i
    using that by (auto simp: gone_configs_def)
  have c: "\<forall>g \<in> set (db_groups db). gr_config g \<notin> ?S \<longrightarrow> gr_config g \<in> cf_id ` {c \<in> set (db_configs db). \<not> P c}"
    "\<forall>r \<in> set (db_rules db). rl_config r \<notin> ?S \<longrightarrow> rl_config r \<in> cf_id ` {c \<in> set (db_configs db). \<not> P c}"
    "\<forall>p \<in> set (db_providers db). pv_config p \<notin> ?S \<longrightarrow> pv_config p \<in> cf_id ` {c \<in> set (db_configs db). \<not> P c}"
    "\<forall>s \<in> set (db_settings db). sr_config s \<notin> ?S \<longrightarrow> sr_config s \<in> cf_id ` {c \<in> set (db_configs db). \<not> P c}"
    "\<forall>f \<in> set (db_profiles db). fr_config f \<notin> ?S \<longrightarrow> fr_config f \<in> cf_id ` {c \<in> set (db_configs db). \<not> P c}"
    using cf_ids_refs [OF ok] configs by blast+
  have r: "\<forall>r \<in> set (db_rules db). rl_config r \<notin> ?S \<longrightarrow>
      ref_in (rl_parent r) (map rl_id (filter (\<lambda>r. rl_config r \<notin> ?S) (db_rules db))) \<and>
      ref_in (rl_group r) (map gr_id (filter (\<lambda>g. gr_config g \<notin> ?S) (db_groups db))) \<and>
      ref_in (rl_provider r) (map pv_id (filter (\<lambda>p. pv_config p \<notin> ?S) (db_providers db)))"
    using par tgt unfolding local_refs by (blast intro: ref_in_kept)
  have m: "\<forall>m \<in> set (db_members db). mr_group m \<notin> gone_groups P db \<longrightarrow>
      mr_group m \<in> gr_id ` {g \<in> set (db_groups db). gr_config g \<notin> ?S} \<and>
      ref_in (mr_ref m) (map gr_id (filter (\<lambda>g. gr_config g \<notin> ?S) (db_groups db)))"
  proof (intro ballI impI conjI)
    fix m assume m: "m \<in> set (db_members db)" "mr_group m \<notin> gone_groups P db"
    from kept_group [OF ok m] show "mr_group m \<in> gr_id ` {g \<in> set (db_groups db). gr_config g \<notin> ?S}"
      by (metis (mono_tags, lifting) imageI mem_Collect_eq)
    show "ref_in (mr_ref m) (map gr_id (filter (\<lambda>g. gr_config g \<notin> ?S) (db_groups db)))"
    proof (rule ref_in_cong)
      fix i assume "mr_ref m = Some i"
      with delete_configs_local(1) [OF inv, of P] m
      obtain g where "g \<in> set (db_groups (delete_configs P db))" "gr_id g = i"
        by (fastforce simp: config_local_def members_local_def t)
      then show "i \<in> set (map gr_id (filter (\<lambda>g. gr_config g \<notin> ?S) (db_groups db)))" by (auto simp: t)
    qed
  qed
  show ?thesis
    using ok c r m unfolding t
    by (simp add: constraint_defs distinct_map_filter)
qed

lemma delete_configs_inv: "db_inv db \<Longrightarrow> db_inv (delete_configs P db)"
  by (simp add: db_inv_def delete_configs_constraints delete_configs_local)

lemma find_filter_kept: "(\<And>x. P x \<Longrightarrow> Q x) \<Longrightarrow> find P (filter Q xs) = find P xs"
  by (induction xs) auto

lemma delete_configs_others:
  assumes inv: "db_inv db" and other: "other \<notin> gone_configs P db"
  shows "same_config other db (delete_configs P db)"
proof -
  have ok: "constraints_ok db" and par: "parents_local db" using inv by (simp_all add: db_inv_def config_local_def)
  note t = delete_configs_tables [OF ok par, of P]
  have eq: "(cf x \<notin> gone_configs P db \<and> cf x = other) \<longleftrightarrow> cf x = other" for x and cf :: "'r \<Rightarrow> int"
    using other by auto
  have "filter (\<lambda>m. mr_group m = gr_id g) (db_members (delete_configs P db)) =
      filter (\<lambda>m. mr_group m = gr_id g) (db_members db)"
    if g: "g \<in> set (db_groups db)" "gr_config g = other" for g
  proof -
    have "gr_id g \<notin> gone_groups P db"
      using distinct_map_eq [OF uniq_ids(1) [OF ok] g(1)] g(2) other by (auto simp: gone_groups_def)
    then show ?thesis by (auto simp: t intro!: filter_cong)
  qed
  then have "ProxyGroups other (delete_configs P db) = ProxyGroups other db"
    by (intro ProxyGroups_cong [OF ok delete_configs_constraints [OF inv]]) (simp_all add: t eq)
  moreover have "Rules other (delete_configs P db) = Rules other db"
    by (rule Rules_cong) (simp add: t eq)
  moreover have "RuleProviders other (delete_configs P db) = RuleProviders other db"
    by (rule RuleProviders_cong) (simp add: t eq)
  moreover have "find (\<lambda>s. sr_config s = other \<and> sr_key s = key) (filter (\<lambda>s. sr_config s \<notin> gone_configs P db)
      (db_settings db)) = find (\<lambda>s. sr_config s = other \<and> sr_key s = key) (db_settings db)" for key
    by (rule find_filter_kept) (use other in auto)
  then have "Setting other key (delete_configs P db) = Setting other key db" for key
    by (simp add: Setting_def t)
  moreover have "find (\<lambda>f. fr_config f = other) (filter (\<lambda>f. fr_config f \<notin> gone_configs P db)
      (db_profiles db)) = find (\<lambda>f. fr_config f = other) (db_profiles db)"
    by (rule find_filter_kept) (use other in auto)
  then have "Profile_of other (delete_configs P db) = Profile_of other db"
    by (simp add: Profile_of_def t)
  ultimately show ?thesis by (simp add: same_config_def)
qed

end
