(* ===== verification/UsersRepo.thy ===== *)
theory UsersRepo
  imports ConfigsDelete
begin

text \<open>
  Subscribers and their connections, package \<open>internal/repository/users\<close>. The clock is an argument;
  so is the order in which a Go map is ranged over, which the language leaves open.
\<close>

section \<open>Rows of users and connections\<close>

definition set_ur_id :: "int \<Rightarrow> user_row \<Rightarrow> user_row" where "set_ur_id i r = r\<lparr>ur_id := i\<rparr>"
definition set_cr_id :: "int \<Rightarrow> conn_row \<Rightarrow> conn_row" where "set_cr_id i r = r\<lparr>cr_id := i\<rparr>"

interpretation uids: autoinc ur_id set_ur_id
  by unfold_locales (simp add: set_ur_id_def)

interpretation crids: autoinc cr_id set_cr_id
  by unfold_locales (simp add: set_cr_id_def)

definition next_user_id :: "db \<Rightarrow> int" where
  "next_user_id db = auto_base ur_id (sq_users db) (db_users db) + 1"

definition next_conn_id :: "db \<Rightarrow> int" where
  "next_conn_id db = auto_base cr_id (sq_conns db) (db_conns db) + 1"

definition insert_user :: "user_row \<Rightarrow> db \<Rightarrow> db" where
  "insert_user row db =
     db\<lparr>db_users := db_users db @ [set_ur_id (next_user_id db) row], sq_users := next_user_id db\<rparr>"

definition insert_conn :: "conn_row \<Rightarrow> db \<Rightarrow> db" where
  "insert_conn row db =
     db\<lparr>db_conns := db_conns db @ [set_cr_id (next_conn_id db) row], sq_conns := next_conn_id db\<rparr>"

section \<open>Writing\<close>

fun insert_conns ::
    "int \<Rightarrow> int \<Rightarrow> Connection list \<Rightarrow> db \<Rightarrow> repo_error + (Connection list \<times> db)" where
  "insert_conns now userID [] db = Inr ([], db)"
| "insert_conns now userID (c # cs) db =
     bind_err (exec (insert_conn \<lparr>cr_id = 0, cr_user = userID, cr_inbound = cn_InboundID c,
                                 cr_created = now\<rparr>) db) (\<lambda>db'.
     let c' = c\<lparr>cn_UserID := userID, cn_CreatedAt := now, cn_ID := next_conn_id db\<rparr> in
     bind_err (insert_conns now userID cs db') (\<lambda>(cs', db''). Inr (c' # cs', db'')))"

definition create_user_tx :: "int \<Rightarrow> User \<Rightarrow> db \<Rightarrow> repo_error + (User \<times> db)" where
  "create_user_tx now u db =
     (let row = \<lparr>ur_id = 0, ur_name = us_Name u, ur_sub = us_SubID u,
                 ur_description = us_Description u, ur_created = now\<rparr>
      in case exec (insert_user row) db of
           Inl e \<Rightarrow> Inl (if IsUniqueViolation e then Domain ErrNameTaken else e)
         | Inr db' \<Rightarrow>
             bind_err (insert_conns now (next_user_id db) (us_Connections u) db') (\<lambda>(cs, db'').
               Inr (u\<lparr>us_ID := next_user_id db, us_Connections := cs\<rparr>, db'')))"

definition CreateUserRow :: "int \<Rightarrow> User \<Rightarrow> db \<Rightarrow> (repo_error + User) \<times> db" where
  "CreateUserRow now u = in_tx (create_user_tx now u)"

text \<open>Deleting a user cascades to its connections and to its custom configurations.\<close>

definition delete_user_rows :: "int \<Rightarrow> db \<Rightarrow> db" where
  "delete_user_rows i db =
     (let db = delete_configs (\<lambda>c. cf_user c = Some i) db
      in db\<lparr>db_conns := filter (\<lambda>c. cr_user c \<noteq> i) (db_conns db),
            db_users := filter (\<lambda>u. ur_id u \<noteq> i) (db_users db)\<rparr>)"

definition DeleteUserRow :: "int \<Rightarrow> db \<Rightarrow> (repo_error + unit) \<times> db" where
  "DeleteUserRow i = in_tx (\<lambda>db. bind_err (exec (delete_user_rows i) db) (\<lambda>db'. Inr ((), db')))"

definition set_description :: "int \<Rightarrow> string option \<Rightarrow> db \<Rightarrow> db" where
  "set_description i d db =
     db\<lparr>db_users := map (\<lambda>u. if ur_id u = i then u\<lparr>ur_description := d\<rparr> else u) (db_users db)\<rparr>"

definition SetDescription :: "int \<Rightarrow> string option \<Rightarrow> db \<Rightarrow> (repo_error + unit) \<times> db" where
  "SetDescription i d = in_tx (\<lambda>db. bind_err (exec (set_description i d) db) (\<lambda>db'. Inr ((), db')))"

text \<open>
  ReplaceConnections ranges over two maps: \<open>ord\<close> is the order the runtime happens to visit the keys
  in, given the keys.
\<close>

fun replace_inserts ::
    "int \<Rightarrow> int \<Rightarrow> (int \<rightharpoonup> int) \<Rightarrow> int list \<Rightarrow> db \<Rightarrow> repo_error + db" where
  "replace_inserts now userID have_rows [] db = Inr db"
| "replace_inserts now userID have_rows (inb # inbs) db =
     bind_err (if have_rows inb = None
               then exec (insert_conn \<lparr>cr_id = 0, cr_user = userID, cr_inbound = inb, cr_created = now\<rparr>) db
               else Inr db) (\<lambda>db'.
       replace_inserts now userID have_rows inbs db')"

definition delete_conn :: "int \<Rightarrow> db \<Rightarrow> db" where
  "delete_conn i db = db\<lparr>db_conns := filter (\<lambda>c. cr_id c \<noteq> i) (db_conns db)\<rparr>"

fun replace_deletes :: "int set \<Rightarrow> (int \<rightharpoonup> int) \<Rightarrow> int list \<Rightarrow> db \<Rightarrow> repo_error + db" where
  "replace_deletes want have_rows [] db = Inr db"
| "replace_deletes want have_rows (inb # inbs) db =
     bind_err (if inb \<notin> want then exec (delete_conn (the (have_rows inb))) db else Inr db) (\<lambda>db'.
       replace_deletes want have_rows inbs db')"

definition replace_connections_tx ::
    "(int list \<Rightarrow> int list) \<Rightarrow> int \<Rightarrow> int \<Rightarrow> int list \<Rightarrow> db \<Rightarrow> repo_error + (unit \<times> db)" where
  "replace_connections_tx ord now userID inboundIDs db =
     (let rows = filter (\<lambda>c. cr_user c = userID) (db_conns db);
          have_rows = fill_map cr_inbound cr_id rows;
          want_keys = ord (dedup {} inboundIDs);
          have_keys = ord (dedup {} (map cr_inbound rows))
      in bind_err (replace_inserts now userID have_rows want_keys db) (\<lambda>db'.
         bind_err (replace_deletes (set inboundIDs) have_rows have_keys db') (\<lambda>db''.
           Inr ((), db''))))"

definition ReplaceConnections ::
    "(int list \<Rightarrow> int list) \<Rightarrow> int \<Rightarrow> int \<Rightarrow> int list \<Rightarrow> db \<Rightarrow> (repo_error + unit) \<times> db" where
  "ReplaceConnections ord now userID inboundIDs = in_tx (replace_connections_tx ord now userID inboundIDs)"

section \<open>Reading\<close>

text \<open>
  The join of connections, inbounds and nodes. Connections without an inbound or node, which the
  foreign keys exclude, would be dropped by the inner join.
\<close>

definition join_conn :: "db \<Rightarrow> conn_row \<Rightarrow> Connection option" where
  "join_conn db c =
     (case find (\<lambda>i. ir_id i = cr_inbound c) (db_inbounds db) of
        None \<Rightarrow> None
      | Some i \<Rightarrow>
          (case find (\<lambda>n. no_id n = ir_node i) (db_nodes db) of
             None \<Rightarrow> None
           | Some n \<Rightarrow>
               Some \<lparr>cn_ID = cr_id c, cn_UserID = cr_user c, cn_InboundID = cr_inbound c,
                     cn_CreatedAt = cr_created c, cn_NodeID = ir_node i, cn_Node = no_name n,
                     cn_Name = ir_name i, cn_Port = ir_port i, cn_Kind = ir_kind i\<rparr>))"

definition joined_connections :: "(conn_row \<Rightarrow> bool) \<Rightarrow> db \<Rightarrow> Connection list" where
  "joined_connections P db =
     sort_key (\<lambda>c. (cn_Node c, cn_Name c)) (List.map_filter (join_conn db) (filter P (db_conns db)))"

definition scanConnections :: "Connection list \<Rightarrow> User list \<Rightarrow> User list" where
  "scanConnections cs us =
     map (\<lambda>u. u\<lparr>us_Connections := us_Connections u @ filter (\<lambda>c. cn_UserID c = us_ID u) cs\<rparr>) us"

definition loadConnections :: "User list \<Rightarrow> int \<Rightarrow> db \<Rightarrow> User list" where
  "loadConnections us userID db =
     (if 0 < userID then scanConnections (joined_connections (\<lambda>c. cr_user c = userID) db) us
      else scanConnections (joined_connections (\<lambda>c. True) db) us)"

definition loadConnectionsForIDs :: "User list \<Rightarrow> int list \<Rightarrow> db \<Rightarrow> User list" where
  "loadConnectionsForIDs us ids db =
     (if ids = [] then us
      else scanConnections (joined_connections (\<lambda>c. cr_user c \<in> set ids) db) us)"

definition user_of_row :: "user_row \<Rightarrow> User" where
  "user_of_row r =
     \<lparr>us_ID = ur_id r, us_Name = ur_name r, us_SubID = ur_sub r, us_Description = ur_description r,
      us_CreatedAt = ur_created r, us_Connections = []\<rparr>"

text \<open>\<open>None\<close> is \<open>sql.ErrNoRows\<close>.\<close>

definition GetUser :: "int \<Rightarrow> db \<Rightarrow> User option" where
  "GetUser i db =
     (case find (\<lambda>r. ur_id r = i) (db_users db) of
        None \<Rightarrow> None
      | Some r \<Rightarrow> Some (hd (loadConnections [user_of_row r] (ur_id r) db)))"

text \<open>List selects no description, ListNames only id and name.\<close>

definition ListUsers :: "db \<Rightarrow> User list" where
  "ListUsers db =
     loadConnections (map (\<lambda>r. (user_of_row r)\<lparr>us_Description := None\<rparr>) (sort_key ur_name (db_users db))) 0 db"

definition ListNames :: "db \<Rightarrow> User list" where
  "ListNames db =
     map (\<lambda>r. \<lparr>us_ID = ur_id r, us_Name = ur_name r, us_SubID = [], us_Description = None,
               us_CreatedAt = 0, us_Connections = []\<rparr>) (sort_key ur_name (db_users db))"

definition SubIDs :: "db \<Rightarrow> string list" where
  "SubIDs db = map ur_sub (db_users db)"

definition IDBySubID :: "string \<Rightarrow> db \<Rightarrow> int option" where
  "IDBySubID sub db = map_option ur_id (find (\<lambda>r. ur_sub r = sub) (db_users db))"

definition InboundSubscribers :: "db \<Rightarrow> (int \<rightharpoonup> string list)" where
  "InboundSubscribers db =
     fold (\<lambda>(i, s) m. m(i \<mapsto> (case m i of None \<Rightarrow> [] | Some ss \<Rightarrow> ss) @ [s]))
       (List.map_filter (\<lambda>c. map_option (\<lambda>u. (cr_inbound c, ur_sub u))
          (find (\<lambda>u. ur_id u = cr_user c) (db_users db))) (db_conns db)) Map.empty"

section \<open>The filtered page\<close>

record UserListParams =
  lp_NameQuery :: string
  lp_InboundIDs :: "int list"
  lp_Limit :: int
  lp_Offset :: int

record UserPage =
  up_Users :: "User list"
  up_Total :: int

text \<open>
  LIKE with ESCAPE: a backslash makes the next character literal and matches nothing at the end of
  the pattern; comparison ignores the case of ASCII letters.
\<close>

datatype like_item = AnyRun | AnyOne | Lit char

fun like_items :: "string \<Rightarrow> like_item list option" where
  "like_items [] = Some []"
| "like_items (c # p) =
     (if c = CHR 0x5C then
        (case p of [] \<Rightarrow> None | d # q \<Rightarrow> map_option (\<lambda>is. Lit d # is) (like_items q))
      else map_option (\<lambda>is. (if c = CHR ''%'' then AnyRun else if c = CHR ''_'' then AnyOne else Lit c) # is)
             (like_items p))"

fun like_match :: "like_item list \<Rightarrow> string \<Rightarrow> bool" where
  "like_match [] s \<longleftrightarrow> s = []"
| "like_match (Lit c # is) [] \<longleftrightarrow> False"
| "like_match (Lit c # is) (d # s) \<longleftrightarrow> lower_char c = lower_char d \<and> like_match is s"
| "like_match (AnyOne # is) [] \<longleftrightarrow> False"
| "like_match (AnyOne # is) (d # s) \<longleftrightarrow> like_match is s"
| "like_match (AnyRun # is) [] \<longleftrightarrow> like_match is []"
| "like_match (AnyRun # is) (d # s) \<longleftrightarrow> like_match is (d # s) \<or> like_match (AnyRun # is) s"

definition sql_like :: "string \<Rightarrow> string \<Rightarrow> bool" where
  "sql_like pat s \<longleftrightarrow> (case like_items pat of None \<Rightarrow> False | Some is \<Rightarrow> like_match is s)"

definition escapeLike :: "string \<Rightarrow> string" where
  "escapeLike s =
     concat (map (\<lambda>c. if c \<in> {CHR 0x5C, CHR ''%'', CHR ''_''} then [CHR 0x5C, c] else [c]) (ToLower s))"

text \<open>LIMIT and OFFSET: a negative limit is no limit, a negative offset is none.\<close>

definition sql_page :: "int \<Rightarrow> int \<Rightarrow> 'a list \<Rightarrow> 'a list" where
  "sql_page limit offset xs =
     (let rest = drop (nat offset) xs in if limit < 0 then rest else take (nat limit) rest)"

definition name_matches :: "string \<Rightarrow> user_row \<Rightarrow> bool" where
  "name_matches name u \<longleftrightarrow> sql_like (''%'' @ escapeLike name @ ''%'') (ur_name u)"

definition has_inbound :: "int list \<Rightarrow> db \<Rightarrow> user_row \<Rightarrow> bool" where
  "has_inbound ids db u \<longleftrightarrow> ur_id u \<in> cr_user ` {c \<in> set (db_conns db). cr_inbound c \<in> set ids}"

definition page_rows :: "UserListParams \<Rightarrow> db \<Rightarrow> user_row list" where
  "page_rows p db =
     (let name = TrimSpace (lp_NameQuery p);
          hasName = (name \<noteq> []);
          hasInbound = (lp_InboundIDs p \<noteq> [])
      in if hasName \<and> hasInbound
         then filter (\<lambda>u. name_matches name u \<and> has_inbound (lp_InboundIDs p) db u) (db_users db)
         else if hasName then filter (name_matches name) (db_users db)
         else if hasInbound then filter (has_inbound (lp_InboundIDs p) db) (db_users db)
         else db_users db)"

definition ListPage :: "UserListParams \<Rightarrow> db \<Rightarrow> UserPage" where
  "ListPage p db =
     (let rows = sql_page (lp_Limit p) (lp_Offset p) (sort_key ur_name (page_rows p db));
          ids = map ur_id rows
      in \<lparr>up_Users = loadConnectionsForIDs (map user_of_row rows) ids db,
          up_Total = int (length (page_rows p db))\<rparr>)"

end
