(* ===== verification/ConfigsProperties.thy ===== *)
theory ConfigsProperties
  imports ConfigsDelete
begin

text \<open>
  The properties of the per-user configurations: a custom configuration starts as a copy of the
  base, exists at most once, and its removal brings the base back.
\<close>

section \<open>Creation\<close>

abbreviation user_anchor :: "int \<Rightarrow> string \<Rightarrow> int \<Rightarrow> config_row" where
  "user_anchor userID kind now \<equiv> \<lparr>cf_id = 0, cf_user = Some userID, cf_kind = kind, cf_created = now\<rparr>"

lemma BaseConfigID_in: "BaseConfigID kind db = Some i \<Longrightarrow> i \<in> cf_id ` set (db_configs db)"
  by (auto simp: BaseConfigID_def find_Some_iff)

lemma find_SomeD: "find P xs = Some x \<Longrightarrow> x \<in> set xs \<and> P x"
  by (induction xs) (auto split: if_splits)

lemma find_append_found: "find P xs = Some x \<Longrightarrow> find P (xs @ ys) = Some x"
  by (induction xs) auto

lemma create_user_facts:
  fixes userID :: int and kind :: string and now :: int
  assumes created: "CreateUserConfig userID kind now db = (Inr newID, db')" and inv: "db_inv db"
  defines "d \<equiv> insert_config (user_anchor userID kind now) db"
  shows "db_inv d" and "newID = next_config_id db" and "unused_config newID d"
    and "BaseConfigID kind db = None \<Longrightarrow> db' = d"
    and "BaseConfigID kind db = Some baseID \<Longrightarrow> cloned baseID newID d db'"
proof -
  from created have tx: "create_user_config_tx userID kind now db = Inr (newID, db')"
    by (auto simp: CreateUserConfig_def in_tx_def split: sum.splits)
  then obtain x where ex: "exec (insert_config (user_anchor userID kind now)) db = Inr x"
    unfolding create_user_config_tx_def by (auto simp: Let_def split: sum.splits)
  then have x: "x = d" "constraints_ok d" by (simp_all add: exec_Inr_iff d_def)
  show new: "newID = next_config_id db"
    using tx ex by (auto simp: create_user_config_tx_def Let_def bind_err_Inr_iff split: option.splits)
  show d: "db_inv d" unfolding d_def by (rule insert_config_inv [OF x(2) [unfolded d_def] inv])
  show unused: "unused_config newID d"
    unfolding new d_def using inv by (intro insert_config_unused) (simp add: db_inv_def)
  show "db' = d" if "BaseConfigID kind db = None"
    using tx ex x(1) that by (simp add: create_user_config_tx_def Let_def)
  show "cloned baseID newID d db'" if b: "BaseConfigID kind db = Some baseID"
  proof (rule CloneConfig_cloned [OF _ d unused])
    show "CloneConfig baseID newID d = Inr db'"
      using tx ex x(1) b new by (simp add: create_user_config_tx_def Let_def bind_err_Inr_iff)
    show "baseID \<noteq> newID"
      using BaseConfigID_in [OF b] next_config_id_fresh new by fastforce
  qed
qed

lemma created_configs:
  assumes "CreateUserConfig userID kind now db = (Inr newID, db')" and "db_inv db"
  shows "db_configs db' = db_configs db @ [\<lparr>cf_id = newID, cf_user = Some userID, cf_kind = kind, cf_created = now\<rparr>]"
    and "db_inv db'" and "db_users db' = db_users db"
proof -
  note d = create_user_facts [OF assms]
  have sels: "db_configs db' = db_configs (insert_config (user_anchor userID kind now) db) \<and>
      db_users db' = db_users (insert_config (user_anchor userID kind now) db) \<and> db_inv db'"
  proof (cases "BaseConfigID kind db")
    case None
    then show ?thesis using d(1,4) by simp
  next
    case (Some b)
    from d(5) [OF this] cloned_inv [OF d(1)] show ?thesis by (simp only: cloned_def)
  qed
  then show "db_configs db' = db_configs db @ [\<lparr>cf_id = newID, cf_user = Some userID, cf_kind = kind, cf_created = now\<rparr>]"
    "db_inv db'" "db_users db' = db_users db"
    by (simp_all add: d(2))
qed

text \<open>Ids under which the groups, providers and rules of a copy are known.\<close>

lemma group_map_inj_on: "constraints_ok db \<Longrightarrow> inj_on (\<lambda>i. the (group_map src db i)) (gr_id ` set (config_groups src db))"
  using group_map_inj [of db] by (intro inj_onI) blast

lemma ProxyGroups_ids: "constraints_ok db \<Longrightarrow> pg_ID ` set (ProxyGroups cfg db) = gr_id ` set (config_groups cfg db)"
  by (simp add: ProxyGroups_eq [OF uniq_ids(1)] image_image read_group_def group_of_row_def)

text \<open>
  C19: A custom configuration starts as a snapshot of the base: after a successful creation the new
  id is the user's configuration, the base is still the base, and every read of the new
  configuration returns what the base read before, groups, members, the rule tree and providers
  with their ids renamed to fresh ones (distinct groups to distinct ids), YAML and profile unchanged.
\<close>
theorem custom_config_copies_base:
  assumes "db_inv db" and "0 \<notin> ur_id ` set (db_users db)"
    and "BaseConfigID kind db = Some baseID"
    and "CreateUserConfig userID kind now db = (Inr newID, db')"
  shows "UserConfigID userID kind db' = Some newID \<and> BaseConfigID kind db' = Some baseID \<and>
     (\<exists>rm gm pm. inj_on gm (pg_ID ` set (ProxyGroups baseID db)) \<and>
        ProxyGroups newID db' = map (rename_group gm) (ProxyGroups baseID db) \<and>
        Rules newID db' = map_option (map (rename_rule rm gm pm)) (Rules baseID db) \<and>
        RuleProviders newID db' = map (rename_provider pm) (RuleProviders baseID db)) \<and>
     Setting newID key db' = Setting baseID key db \<and> Profile_of newID db' = Profile_of baseID db"
proof -
  let ?d = "insert_config (user_anchor userID kind now) db"
  note f = create_user_facts [OF assms(4,1)]
  have inv: "db_inv ?d" and unused: "unused_config newID ?d" and cl: "cloned baseID newID ?d db'"
    by (rule f(1), rule f(3), rule f(5) [OF assms(3)])
  have ok: "constraints_ok db" "constraints_ok ?d" "constraints_ok db'"
    using assms(1) inv cl by (simp_all add: db_inv_def cloned_def)
  have same: "same_config baseID db ?d" by (rule same_configI [OF ok(1,2)]) simp_all
  have configs: "db_configs db' = db_configs db @ [\<lparr>cf_id = newID, cf_user = Some userID, cf_kind = kind, cf_created = now\<rparr>]"
    "db_users db' = db_users db"
    by (rule created_configs [OF assms(4,1)])+
  have "UserConfigID userID kind db' = Some newID"
    using config_found(2) [OF ok(3), of "\<lparr>cf_id = newID, cf_user = Some userID, cf_kind = kind, cf_created = now\<rparr>"]
      assms(2) by (simp add: configs)
  moreover have "BaseConfigID kind db' = Some baseID"
    using assms(3) by (auto simp: BaseConfigID_def configs find_append_found)
  moreover have "inj_on (\<lambda>i. the (group_map baseID ?d i)) (pg_ID ` set (ProxyGroups baseID db))"
    using group_map_inj_on [OF ok(2)] ProxyGroups_ids [OF ok(2), of baseID] same by (simp add: same_config_def)
  moreover have "ProxyGroups newID db' = map (rename_group (\<lambda>i. the (group_map baseID ?d i))) (ProxyGroups baseID db)"
    using ProxyGroups_cloned [OF inv cl unused] same by (simp add: same_config_def)
  moreover have "Rules newID db' = map_option (map (rename_rule (clone_renaming baseID ?d)
      (\<lambda>i. the (group_map baseID ?d i)) (\<lambda>i. the (provider_map baseID ?d i)))) (Rules baseID db)"
    using Rules_cloned [OF inv cl unused] same by (simp add: same_config_def)
  moreover have "RuleProviders newID db' = map (rename_provider (\<lambda>i. the (provider_map baseID ?d i))) (RuleProviders baseID db)"
    using RuleProviders_cloned [OF inv cl unused] same by (simp add: same_config_def)
  ultimately show ?thesis
    using Setting_cloned [OF cl unused] Profile_cloned [OF cl unused] same by (auto simp: same_config_def)
qed

text \<open>A database where the base configuration has content, the draft of the save properties.\<close>

definition sample_saved_db :: db where
  "sample_saved_db = snd (SaveMihomoConfig 1 sample_draft sample_db)"

lemma sample_saved_db:
  "db_inv sample_saved_db" "db_configs sample_saved_db = db_configs sample_db"
  "db_users sample_saved_db = db_users sample_db"
proof -
  obtain db' where "save_tx 1 sample_draft sample_db = Inr ((), db')" using sample_saves by blast
  then have eq: "sample_saved_db = db'" and tx: "save_tx 1 sample_draft sample_db = Inr ((), db')"
    by (simp_all add: sample_saved_db_def SaveMihomoConfig_def in_tx_def)
  show "db_inv sample_saved_db" unfolding eq by (rule save_tx_inv [OF tx sample_db_inv])
  from tx obtain d mrows rrows and e :: int where d: "save_delete 1 sample_db = Inr d" "wrote 1 sample_draft d mrows rrows db'"
    by (rule save_txE)
  then show "db_configs sample_saved_db = db_configs sample_db" "db_users sample_saved_db = db_users sample_db"
    by (simp_all add: eq wrote_def save_delete_Inr [OF d(1)])
qed

lemma create_user_total:
  assumes "db_inv db" and "userID \<in> ur_id ` set (db_users db)" and "0 \<notin> ur_id ` set (db_users db)"
    and "UserConfigID userID kind db = None"
  shows "\<exists>db'. CreateUserConfig userID kind now db = (Inr (next_config_id db), db')"
proof -
  let ?row = "user_anchor userID kind now"
  have ok: "constraints_ok db" using assms(1) by (simp add: db_inv_def)
  have "owner_key c \<noteq> owner_key ?row" if c: "c \<in> set (db_configs db)" for c
    using assms(2-4) c by (force simp: owner_key_def UserConfigID_def find_None_iff split: option.splits)
  then have "owner_key ?row \<notin> owner_key ` set (db_configs db)" by (auto simp: image_iff dest: sym)
  then have "constraints_ok (insert_config ?row db)"
    using assms(2) by (intro insert_config_ok [OF ok]) simp_all
  then have ins: "exec (insert_config ?row) db = Inr (insert_config ?row db)" "db_inv (insert_config ?row db)"
    using insert_config_inv assms(1) by (simp_all add: exec_ok)
  have "\<exists>db'. create_user_config_tx userID kind now db = Inr (next_config_id db, db')"
  proof (cases "BaseConfigID kind db")
    case None
    then show ?thesis using ins(1) by (simp add: create_user_config_tx_def Let_def)
  next
    case (Some b)
    have "b \<noteq> next_config_id db" using BaseConfigID_in [OF Some] next_config_id_fresh by fastforce
    then obtain db' where "CloneConfig b (next_config_id db) (insert_config ?row db) = Inr db'"
      using CloneConfig_succeeds [OF ins(2) _ insert_config_unused [OF ok]] by auto
    with ins(1) Some show ?thesis by (simp add: create_user_config_tx_def Let_def)
  qed
  then show ?thesis by (auto simp: CreateUserConfig_def in_tx_def)
qed

lemma sample_saved_facts:
  "6 \<in> ur_id ` set (db_users sample_saved_db)" "0 \<notin> ur_id ` set (db_users sample_saved_db)"
  "UserConfigID 6 ''mihomo'' sample_saved_db = None" "BaseConfigID ''mihomo'' sample_saved_db = Some 1"
  by (simp_all add: UserConfigID_def BaseConfigID_def sample_saved_db(2,3)) (simp_all add: sample_db_def)

theorem custom_config_copies_base_witness:
  "\<exists>newID db'. CreateUserConfig 6 ''mihomo'' 9 sample_saved_db = (Inr newID, db') \<and>
     UserConfigID 6 ''mihomo'' db' = Some newID \<and>
     Setting newID ''base_yaml'' db' = Setting 1 ''base_yaml'' sample_saved_db"
proof -
  obtain i db' where created: "CreateUserConfig 6 ''mihomo'' 9 sample_saved_db = (Inr i, db')"
    using create_user_total [OF sample_saved_db(1) sample_saved_facts(1-3)] by blast
  from custom_config_copies_base [OF sample_saved_db(1) sample_saved_facts(2,4) created] created
  show ?thesis by blast
qed

text \<open>
  Creating a custom configuration never fails for a user that has none: under the database
  invariant, for an existing user without a configuration of the engine, every INSERT of the
  snapshot satisfies the schema and the id of the new configuration is returned.
\<close>
theorem create_user_config_succeeds:
  assumes "db_inv db" and "userID \<in> ur_id ` set (db_users db)" and "0 \<notin> ur_id ` set (db_users db)"
    and "UserConfigID userID kind db = None"
  shows "\<exists>db'. CreateUserConfig userID kind now db = (Inr (next_config_id db), db')"
  by (rule create_user_total [OF assms])

theorem create_user_config_succeeds_witness:
  "\<exists>db'. CreateUserConfig 6 ''mihomo'' 9 sample_saved_db = (Inr (next_config_id sample_saved_db), db')"
  by (rule create_user_config_succeeds [OF sample_saved_db(1) sample_saved_facts(1-3)])

text \<open>
  A user has at most one custom configuration per engine: a second creation returns
  ErrUserConfigExists, the error the UNIQUE index reports, and leaves the database untouched.
\<close>
theorem create_user_config_twice:
  assumes "db_inv db" and "UserConfigID userID kind db = Some i"
  shows "CreateUserConfig userID kind now db = (Inl (Domain ErrUserConfigExists), db)"
proof -
  obtain c where c: "c \<in> set (db_configs db)" "cf_user c = Some userID" "cf_kind c = kind"
    using assms(2) by (auto simp: UserConfigID_def dest!: find_SomeD)
  then have "owner_key (user_anchor userID kind now) = owner_key c" by (simp add: owner_key_def)
  then have "exec (insert_config (user_anchor userID kind now)) db = Inl (DBErr UniqueViolation)"
    using assms(1) c(1) by (intro insert_config_taken) (simp_all add: db_inv_def)
  then show ?thesis
    by (simp add: CreateUserConfig_def in_tx_def create_user_config_tx_def Let_def IsUniqueViolation_def)
qed

theorem create_user_config_twice_witness:
  "CreateUserConfig 5 ''mihomo'' 9 sample_db = (Inl (Domain ErrUserConfigExists), sample_db)"
  by (rule create_user_config_twice [OF sample_db_inv, of _ _ 2]) (simp add: UserConfigID_def sample_db_def)

section \<open>Removal\<close>

text \<open>
  Removing a custom configuration brings the base back: it succeeds exactly when the user has
  one, afterwards the user has none and the base is what it was, all content of the removed configuration is gone, every other
  configuration reads as before and the database invariant holds; for a user without one the
  answer is ErrUserConfigNotFound and nothing changes.
\<close>
theorem delete_user_config_falls_back:
  assumes "db_inv db"
  shows "case UserConfigID userID kind db of
      None \<Rightarrow> DeleteUserConfig userID kind db = (Inl (Domain ErrUserConfigNotFound), db)
    | Some i \<Rightarrow> (\<exists>db'. DeleteUserConfig userID kind db = (Inr (), db') \<and> db_inv db' \<and>
        UserConfigID userID kind db' = None \<and> BaseConfigID kind db' = BaseConfigID kind db \<and>
        ProxyGroups i db' = [] \<and> Rules i db' = Some [] \<and> RuleProviders i db' = [] \<and>
        (\<forall>other. other \<notin> cf_id ` {c \<in> set (db_configs db). cf_user c = Some userID \<and> cf_kind c = kind} \<longrightarrow>
           same_config other db db'))"
proof (cases "UserConfigID userID kind db")
  case None
  then have "filter (\<lambda>c. cf_user c = Some userID \<and> cf_kind c = kind) (db_configs db) = []"
    by (simp add: UserConfigID_def find_None_iff filter_empty_conv)
  then show ?thesis
    using None delete_configs_constraints [OF assms]
    by (simp add: DeleteUserConfig_def in_tx_def delete_user_config_tx_def Let_def exec_ok)
next
  case (Some i)
  let ?P = "\<lambda>c. cf_user c = Some userID \<and> cf_kind c = kind"
  let ?db = "delete_configs ?P db"
  have ok: "constraints_ok db" and par: "parents_local db" using assms by (simp_all add: db_inv_def config_local_def)
  note t = delete_configs_tables [OF ok par, of ?P]
  have inv: "db_inv ?db" by (rule delete_configs_inv [OF assms])
  obtain c where c: "c \<in> set (db_configs db)" "?P c" "cf_id c = i"
    using Some by (auto simp: UserConfigID_def dest!: find_SomeD)
  then have gone: "i \<in> gone_configs ?P db" by (auto simp: gone_configs_def)
  have "filter ?P (db_configs db) \<noteq> []" using c by (auto simp: filter_empty_conv)
  then have "DeleteUserConfig userID kind db = (Inr (), ?db)"
    using delete_configs_constraints [OF assms]
    by (simp add: DeleteUserConfig_def in_tx_def delete_user_config_tx_def Let_def exec_ok)
  moreover have "UserConfigID userID kind ?db = None"
    by (simp add: UserConfigID_def t find_None_iff)
  moreover have "BaseConfigID kind ?db = BaseConfigID kind db"
    unfolding BaseConfigID_def t
    by (simp add: find_filter_kept [of "\<lambda>c. cf_user c = None \<and> cf_kind c = kind"])
  moreover have rows: "filter (\<lambda>g. gr_config g = i) (db_groups ?db) = []"
    "filter (\<lambda>r. rl_config r = i) (db_rules ?db) = []" "filter (\<lambda>p. pv_config p = i) (db_providers ?db) = []"
    using gone by (auto simp: t filter_empty_conv)
  then have "config_groups i ?db = []" unfolding config_groups_def rows by simp
  with rows have "ProxyGroups i ?db = []" "Rules i ?db = Some []" "RuleProviders i ?db = []"
    using inv by (simp_all add: ProxyGroups_eq [OF uniq_ids(1)] db_inv_def Rules_def config_rules_def RuleProviders_def)
  moreover have "same_config other db ?db"
    if "other \<notin> cf_id ` {c \<in> set (db_configs db). ?P c}" for other
    using that by (intro delete_configs_others [OF assms]) (simp add: gone_configs_def)
  ultimately show ?thesis using Some inv by auto
qed

theorem delete_user_config_falls_back_witness:
  "\<exists>db'. DeleteUserConfig 5 ''mihomo'' sample_db = (Inr (), db') \<and> UserConfigID 5 ''mihomo'' db' = None"
proof -
  have "UserConfigID 5 ''mihomo'' sample_db = Some 2" by (simp add: UserConfigID_def sample_db_def)
  with delete_user_config_falls_back [OF sample_db_inv, of 5 "''mihomo''"] show ?thesis by auto
qed

section \<open>The base configuration\<close>

lemma ensure_base_present:
  assumes "db_inv db" and "BaseConfigID kind db = Some i"
  shows "EnsureBaseConfigID kind now db = (Inr i, db)"
proof -
  let ?row = "\<lparr>cf_id = 0, cf_user = None, cf_kind = kind, cf_created = now\<rparr>"
  obtain c where c: "c \<in> set (db_configs db)" "cf_user c = None" "cf_kind c = kind"
    using assms(2) by (auto simp: BaseConfigID_def dest!: find_SomeD)
  then have "owner_key ?row = owner_key c" by (simp add: owner_key_def)
  then have "exec (insert_config ?row) db = Inl (DBErr UniqueViolation)"
    using assms(1) c(1) by (intro insert_config_taken) (simp_all add: db_inv_def)
  then show ?thesis using assms(2) by (simp add: EnsureBaseConfigID_def Let_def IsUniqueViolation_def)
qed

lemma ensure_base_absent:
  fixes kind :: string and now :: int
  assumes "db_inv db" and "0 \<notin> ur_id ` set (db_users db)" and "BaseConfigID kind db = None"
  defines "d \<equiv> insert_config \<lparr>cf_id = 0, cf_user = None, cf_kind = kind, cf_created = now\<rparr> db"
  shows "EnsureBaseConfigID kind now db = (Inr (next_config_id db), d) \<and>
     BaseConfigID kind d = Some (next_config_id db) \<and> db_inv d"
proof -
  let ?row = "\<lparr>cf_id = 0, cf_user = None, cf_kind = kind, cf_created = now\<rparr>"
  have ok: "constraints_ok db" using assms(1) by (simp add: db_inv_def)
  have users: "cf_user c \<noteq> Some 0" if "c \<in> set (db_configs db)" for c
    using ok assms(2) that by (fastforce simp: constraint_defs)
  have "owner_key c \<noteq> owner_key ?row" if c: "c \<in> set (db_configs db)" for c
    using assms(3) c users [OF c] by (auto simp: owner_key_def BaseConfigID_def find_None_iff split: option.splits)
  then have "owner_key ?row \<notin> owner_key ` set (db_configs db)" by (auto simp: image_iff dest: sym)
  then have okd: "constraints_ok d" unfolding d_def by (intro insert_config_ok [OF ok]) simp_all
  have "find (\<lambda>c. cf_user c = None \<and> cf_kind c = kind) (db_configs db) = None"
    using assms(3) by (simp add: BaseConfigID_def)
  then have found: "BaseConfigID kind d = Some (next_config_id db)"
    by (simp add: BaseConfigID_def d_def find_None_iff find_append_none)
  have "exec (insert_config ?row) db = Inr d" using okd by (simp add: exec_Inr_iff d_def)
  with found have "EnsureBaseConfigID kind now db = (Inr (next_config_id db), d)"
    by (simp add: EnsureBaseConfigID_def Let_def)
  with found insert_config_inv okd assms(1) show ?thesis unfolding d_def by blast
qed

text \<open>
  EnsureBaseConfigID always returns the id of the engine's base configuration, creating the row
  only when there is none, and is idempotent: asked again it returns the same id and changes
  nothing. No configuration reads differently afterwards.
\<close>
theorem ensure_base_idempotent:
  assumes "db_inv db" and "0 \<notin> ur_id ` set (db_users db)"
  shows "\<exists>i db'. EnsureBaseConfigID kind now db = (Inr i, db') \<and> BaseConfigID kind db' = Some i \<and>
     (BaseConfigID kind db \<noteq> None \<longrightarrow> db' = db) \<and> db_inv db' \<and>
     EnsureBaseConfigID kind later db' = (Inr i, db') \<and> same_config cfg db db'"
proof (cases "BaseConfigID kind db")
  case None
  let ?d = "insert_config \<lparr>cf_id = 0, cf_user = None, cf_kind = kind, cf_created = now\<rparr> db"
  note d = ensure_base_absent [OF assms None, of now]
  then have "same_config cfg db ?d"
    using assms(1) by (intro same_configI) (simp_all add: db_inv_def)
  with None d ensure_base_present [of ?d kind "next_config_id db" later] show ?thesis by auto
next
  case (Some i)
  have "same_config cfg db db" by (simp add: same_config_def)
  with Some ensure_base_present [OF assms(1) Some] assms(1) show ?thesis by auto
qed

theorem ensure_base_idempotent_witness:
  "\<exists>i db'. EnsureBaseConfigID ''sing-box'' 9 sample_saved_db = (Inr i, db') \<and>
     EnsureBaseConfigID ''sing-box'' 10 db' = (Inr i, db')"
  using ensure_base_idempotent [OF sample_saved_db(1) sample_saved_facts(2), of "''sing-box''" 9 10 1] by blast

text \<open>
  Creating a custom configuration touches nothing else: every read of every existing
  configuration, the base included, returns what it returned before, no other user's configuration
  changes and the database invariant holds, so later edits of the base and of the copy are
  independent.
\<close>
theorem create_user_config_local:
  assumes "db_inv db" and "other \<in> cf_id ` set (db_configs db)"
    and "CreateUserConfig userID kind now db = (Inr newID, db')"
  shows "ProxyGroups other db' = ProxyGroups other db \<and> Rules other db' = Rules other db \<and>
     RuleProviders other db' = RuleProviders other db \<and> Setting other key db' = Setting other key db \<and>
     Profile_of other db' = Profile_of other db \<and> newID \<notin> cf_id ` set (db_configs db) \<and>
     ((v, k) \<noteq> (userID, kind) \<longrightarrow> UserConfigID v k db' = UserConfigID v k db) \<and> db_inv db'"
proof -
  let ?d = "insert_config (user_anchor userID kind now) db"
  note f = create_user_facts [OF assms(3,1)] and c = created_configs [OF assms(3,1)]
  have fresh: "newID \<notin> cf_id ` set (db_configs db)"
    unfolding f(2) using next_config_id_fresh by fastforce
  have same: "same_config other db ?d"
    using assms(1) f(1) by (intro same_configI) (simp_all add: db_inv_def)
  have "same_config other ?d db'"
  proof (cases "BaseConfigID kind db")
    case None
    then show ?thesis using f(4) by (simp add: same_config_def)
  next
    case (Some b)
    have "other \<noteq> newID" using fresh assms(2) by auto
    then show ?thesis by (rule cloned_others [OF f(1) f(5) [OF Some]])
  qed
  moreover have "find P (xs @ [x]) = find P xs" if "\<not> P x" for P and x :: config_row and xs
    using that by (induction xs) auto
  then have "UserConfigID v k db' = UserConfigID v k db" if "(v, k) \<noteq> (userID, kind)"
    using that by (auto simp: UserConfigID_def c(1))
  ultimately show ?thesis using same fresh c(2) by (auto simp: same_config_def)
qed

theorem create_user_config_local_witness:
  "\<exists>newID db'. CreateUserConfig 6 ''mihomo'' 9 sample_saved_db = (Inr newID, db') \<and>
     Rules 1 db' = Rules 1 sample_saved_db"
proof -
  obtain i db' where created: "CreateUserConfig 6 ''mihomo'' 9 sample_saved_db = (Inr i, db')"
    using create_user_total [OF sample_saved_db(1) sample_saved_facts(1-3)] by blast
  have "1 \<in> cf_id ` set (db_configs sample_saved_db)"
    by (simp add: sample_saved_db) (simp add: sample_db_def)
  from create_user_config_local [OF sample_saved_db(1) this created] created show ?thesis by blast
qed

end
