(* ===== verification/UsersFacts.thy ===== *)
theory UsersFacts
  imports UsersRepo ConfigsProperties
begin

text \<open>
  What the operations on users and connections do to the tables, when they succeed, and that they
  keep the store invariant.
\<close>

section \<open>The store invariant\<close>

text \<open>
  The database invariant, and ids as AUTOINCREMENT makes them: positive and at most the stored
  sequence value.
\<close>

definition positive_ids :: "db \<Rightarrow> bool" where
  "positive_ids db \<longleftrightarrow> 0 \<le> sq_users db \<and> 0 \<le> sq_nodes db \<and> 0 \<le> sq_inbounds db \<and>
     (\<forall>u \<in> set (db_users db). 0 < ur_id u \<and> ur_id u \<le> sq_users db) \<and>
     (\<forall>n \<in> set (db_nodes db). 0 < no_id n \<and> no_id n \<le> sq_nodes db) \<and>
     (\<forall>i \<in> set (db_inbounds db). 0 < ir_id i \<and> ir_id i \<le> sq_inbounds db)"

definition store_inv :: "db \<Rightarrow> bool" where
  "store_inv db \<longleftrightarrow> db_inv db \<and> positive_ids db"

lemma store_inv_empty: "store_inv empty_db"
  by (simp add: store_inv_def db_inv_empty) (simp add: positive_ids_def empty_db_def)

lemma store_invD:
  assumes "store_inv db"
  shows "db_inv db" "constraints_ok db" "positive_ids db" "0 \<notin> ur_id ` set (db_users db)"
  using assms by (auto simp: store_inv_def db_inv_def positive_ids_def)

lemma auto_base_nonneg: "0 \<le> sq \<Longrightarrow> 0 \<le> auto_base get_id sq rows"
  unfolding auto_base_def using fold_max_ge(1) order_trans by blast

text \<open>An operation that leaves the routing tables alone keeps their part of the invariant.\<close>

definition routing_same :: "db \<Rightarrow> db \<Rightarrow> bool" where
  "routing_same db db' \<longleftrightarrow> db_groups db' = db_groups db \<and> db_members db' = db_members db \<and>
     db_rules db' = db_rules db \<and> db_providers db' = db_providers db"

lemma db_inv_routing_same:
  "routing_same db db' \<Longrightarrow> db_inv db \<Longrightarrow> constraints_ok db' \<Longrightarrow> db_inv db'"
  by (simp add: routing_same_def db_inv_def config_local_def parents_local_def targets_local_def
      members_local_def ids_ascend_def)

section \<open>Inserting connections\<close>

lemma next_conn_id_fresh: "c \<in> set (db_conns db) \<Longrightarrow> cr_id c < next_conn_id db"
  using auto_base_ge [of c "db_conns db" cr_id "sq_conns db"] by (simp add: next_conn_id_def)

lemma insert_conn_ok:
  assumes ok: "constraints_ok db" and "cr_user row \<in> ur_id ` set (db_users db)"
    and "cr_inbound row \<in> ir_id ` set (db_inbounds db)"
    and new: "(cr_user row, cr_inbound row) \<notin> (\<lambda>c. (cr_user c, cr_inbound c)) ` set (db_conns db)"
  shows "constraints_ok (insert_conn row db)"
proof -
  have "next_conn_id db \<notin> cr_id ` set (db_conns db)" using next_conn_id_fresh by fastforce
  then show ?thesis
    using assms by (simp add: constraint_defs insert_conn_def set_cr_id_def)
qed

text \<open>The rows a run of INSERTs appends: one per inbound, all of the user, the rest untouched.\<close>

definition added_conns :: "int \<Rightarrow> int \<Rightarrow> int list \<Rightarrow> db \<Rightarrow> db \<Rightarrow> bool" where
  "added_conns now userID inbs db db' \<longleftrightarrow>
     (\<exists>rows s. db' = db\<lparr>db_conns := db_conns db @ rows, sq_conns := s\<rparr> \<and> map cr_inbound rows = inbs \<and>
        (\<forall>r \<in> set rows. cr_user r = userID \<and> cr_created r = now))"

lemma added_conns_Nil: "added_conns now userID [] db db"
  unfolding added_conns_def by (intro exI [of _ "[]"] exI [of _ "sq_conns db"]) simp

lemma added_conns_Cons:
  assumes "added_conns now userID inbs
    (insert_conn \<lparr>cr_id = 0, cr_user = userID, cr_inbound = inb, cr_created = now\<rparr> db) db'"
  shows "added_conns now userID (inb # inbs) db db'"
proof -
  from assms obtain rows s where
    "db' = (insert_conn \<lparr>cr_id = 0, cr_user = userID, cr_inbound = inb, cr_created = now\<rparr> db)
       \<lparr>db_conns := db_conns (insert_conn \<lparr>cr_id = 0, cr_user = userID, cr_inbound = inb, cr_created = now\<rparr> db) @ rows,
        sq_conns := s\<rparr>" "map cr_inbound rows = inbs" "\<forall>r \<in> set rows. cr_user r = userID \<and> cr_created r = now"
    by (auto simp: added_conns_def)
  then show ?thesis
    unfolding added_conns_def
    by (intro exI [of _ "\<lparr>cr_id = next_conn_id db, cr_user = userID, cr_inbound = inb, cr_created = now\<rparr> # rows"]
        exI [of _ s]) (simp add: insert_conn_def set_cr_id_def)
qed

lemma insert_conns_Inr:
  "insert_conns now userID cs db = Inr (cs', db') \<Longrightarrow>
     added_conns now userID (map cn_InboundID cs) db db' \<and> (constraints_ok db \<longrightarrow> constraints_ok db') \<and>
     map cn_InboundID cs' = map cn_InboundID cs"
proof (induction cs arbitrary: db cs')
  case (Cons c cs)
  let ?row = "\<lparr>cr_id = 0, cr_user = userID, cr_inbound = cn_InboundID c, cr_created = now\<rparr>"
  from Cons.prems obtain ds where ds: "constraints_ok (insert_conn ?row db)"
    "insert_conns now userID cs (insert_conn ?row db) = Inr (ds, db')"
    "cs' = c\<lparr>cn_UserID := userID, cn_CreatedAt := now, cn_ID := next_conn_id db\<rparr> # ds"
    by (auto simp: bind_err_Inr_iff exec_Inr_iff Let_def)
  from Cons.IH [OF ds(2)] ds(1,3) added_conns_Cons show ?case by auto
qed (simp add: added_conns_Nil)

lemma replace_inserts_Inr:
  "replace_inserts now userID hv inbs db = Inr db' \<Longrightarrow>
     added_conns now userID (filter (\<lambda>i. hv i = None) inbs) db db' \<and> (constraints_ok db \<longrightarrow> constraints_ok db')"
proof (induction inbs arbitrary: db)
  case (Cons i inbs)
  show ?case
  proof (cases "hv i")
    case None
    let ?row = "\<lparr>cr_id = 0, cr_user = userID, cr_inbound = i, cr_created = now\<rparr>"
    from Cons.prems None have "constraints_ok (insert_conn ?row db)"
      "replace_inserts now userID hv inbs (insert_conn ?row db) = Inr db'"
      by (auto simp: bind_err_Inr_iff exec_Inr_iff)
    with Cons.IH None added_conns_Cons show ?thesis by simp
  next
    case (Some r)
    with Cons show ?thesis by simp
  qed
qed (simp add: added_conns_Nil)

lemma replace_deletes_Inr:
  "replace_deletes want hv inbs db = Inr db' \<Longrightarrow>
     db' = db\<lparr>db_conns := filter (\<lambda>c. cr_id c \<notin> (\<lambda>i. the (hv i)) ` {i \<in> set inbs. i \<notin> want}) (db_conns db)\<rparr> \<and>
     (constraints_ok db \<longrightarrow> constraints_ok db')"
proof (induction inbs arbitrary: db)
  case (Cons i inbs)
  show ?case
  proof (cases "i \<in> want")
    case True
    then have "{j \<in> set (i # inbs). j \<notin> want} = {j \<in> set inbs. j \<notin> want}" by auto
    with True Cons show ?thesis by simp
  next
    case False
    with Cons.prems have ok: "constraints_ok (delete_conn (the (hv i)) db)"
      "replace_deletes want hv inbs (delete_conn (the (hv i)) db) = Inr db'"
      by (auto simp: bind_err_Inr_iff exec_Inr_iff)
    have "{j \<in> set (i # inbs). j \<notin> want} = insert i {j \<in> set inbs. j \<notin> want}" using False by auto
    with Cons.IH [OF ok(2)] ok(1) show ?thesis
      by (auto simp: delete_conn_def conj_commute intro!: filter_cong)
  qed
qed simp

lemma delete_conn_constraints: "constraints_ok db \<Longrightarrow> constraints_ok (delete_conn i db)"
  by (simp add: constraint_defs delete_conn_def distinct_map_filter)

lemma replace_deletes_ok: "constraints_ok db \<Longrightarrow> \<exists>db'. replace_deletes want hv inbs db = Inr db'"
proof (induction inbs arbitrary: db)
  case (Cons i inbs)
  from Cons.IH [OF Cons.prems] Cons.IH [OF delete_conn_constraints [OF Cons.prems]] Cons.prems show ?case
    by (auto simp: exec_ok delete_conn_constraints)
qed simp

lemma replace_inserts_ok:
  assumes "constraints_ok db" and "userID \<in> ur_id ` set (db_users db)"
    and "set inbs \<subseteq> ir_id ` set (db_inbounds db)" and "distinct inbs"
    and "\<And>i c. i \<in> set inbs \<Longrightarrow> c \<in> set (db_conns db) \<Longrightarrow> cr_user c = userID \<Longrightarrow> cr_inbound c = i \<Longrightarrow> hv i \<noteq> None"
  shows "\<exists>db'. replace_inserts now userID hv inbs db = Inr db'"
  using assms
proof (induction inbs arbitrary: db)
  case (Cons i inbs)
  let ?row = "\<lparr>cr_id = 0, cr_user = userID, cr_inbound = i, cr_created = now\<rparr>"
  show ?case
  proof (cases "hv i")
    case None
    have "(userID, i) \<notin> (\<lambda>c. (cr_user c, cr_inbound c)) ` set (db_conns db)"
      using Cons.prems(5) [of i] None by auto
    then have ok: "constraints_ok (insert_conn ?row db)"
      using Cons.prems by (intro insert_conn_ok) auto
    have "\<exists>db'. replace_inserts now userID hv inbs (insert_conn ?row db) = Inr db'"
    proof (rule Cons.IH [OF ok])
      show "hv j \<noteq> None"
        if "j \<in> set inbs" "c \<in> set (db_conns (insert_conn ?row db))" "cr_user c = userID" "cr_inbound c = j" for j c
      proof -
        have "c \<in> set (db_conns db) \<or> cr_inbound c = i"
          using that(2) by (auto simp: insert_conn_def set_cr_id_def)
        then have "c \<in> set (db_conns db)" using that(1,4) Cons.prems(4) by auto
        with that Cons.prems(5) [of j c] show ?thesis by simp
      qed
    qed (use Cons.prems in \<open>auto simp: insert_conn_def\<close>)
    with ok None show ?thesis by (simp add: exec_ok)
  next
    case (Some r)
    have "\<exists>db'. replace_inserts now userID hv inbs db = Inr db'"
      by (rule Cons.IH) (use Cons.prems in auto)
    with Some show ?thesis by simp
  qed
qed simp

section \<open>The view of the subscribers\<close>

record user_view =
  uv_Name :: string
  uv_SubID :: string
  uv_Description :: "string option"
  uv_Inbounds :: "int set"

definition inbounds_of :: "db \<Rightarrow> int \<Rightarrow> int set" where
  "inbounds_of db i = cr_inbound ` {c \<in> set (db_conns db). cr_user c = i}"

definition users_view :: "db \<Rightarrow> int \<rightharpoonup> user_view" where
  "users_view db i =
     map_option (\<lambda>u. \<lparr>uv_Name = ur_name u, uv_SubID = ur_sub u, uv_Description = ur_description u,
                     uv_Inbounds = inbounds_of db i\<rparr>)
       (find (\<lambda>u. ur_id u = i) (db_users db))"

lemma find_id_None: "find (\<lambda>u. key u = i) xs = None \<longleftrightarrow> i \<notin> key ` set xs"
  by (auto simp: find_None_iff)

lemma dom_users_view: "dom (users_view db) = ur_id ` set (db_users db)"
proof -
  have "i \<in> dom (users_view db) \<longleftrightarrow> find (\<lambda>u. ur_id u = i) (db_users db) \<noteq> None" for i
    by (auto simp: users_view_def dom_def)
  then show ?thesis by (simp only: find_id_None) blast
qed

lemma next_user_id_fresh: "u \<in> set (db_users db) \<Longrightarrow> ur_id u < next_user_id db"
  using auto_base_ge [of u "db_users db" ur_id "sq_users db"] by (simp add: next_user_id_def)

lemma find_id_append:
  "find (\<lambda>u. ur_id u = i) (us @ [x]) = (case find (\<lambda>u. ur_id u = i) us of
     None \<Rightarrow> if ur_id x = i then Some x else None | Some u \<Rightarrow> Some u)"
  by (induction us) auto

lemma create_user_rowE:
  assumes "CreateUserRow now u db = (Inr u', db')"
  obtains rows s where
    "db' = db\<lparr>db_users := db_users db @ [\<lparr>ur_id = next_user_id db, ur_name = us_Name u, ur_sub = us_SubID u,
                ur_description = us_Description u, ur_created = now\<rparr>],
             sq_users := next_user_id db, db_conns := db_conns db @ rows, sq_conns := s\<rparr>"
    "map cr_inbound rows = map cn_InboundID (us_Connections u)"
    "\<forall>r \<in> set rows. cr_user r = next_user_id db" "constraints_ok db'"
    "us_ID u' = next_user_id db" "us_Name u' = us_Name u" "us_SubID u' = us_SubID u"
    "us_Description u' = us_Description u"
    "map cn_InboundID (us_Connections u') = map cn_InboundID (us_Connections u)"
proof -
  let ?row = "\<lparr>ur_id = 0, ur_name = us_Name u, ur_sub = us_SubID u, ur_description = us_Description u, ur_created = now\<rparr>"
  from assms have "create_user_tx now u db = Inr (u', db')"
    by (auto simp: CreateUserRow_def in_tx_def split: sum.splits)
  then obtain cs where cs: "constraints_ok (insert_user ?row db)"
    "insert_conns now (next_user_id db) (us_Connections u) (insert_user ?row db) = Inr (cs, db')"
    "u' = u\<lparr>us_ID := next_user_id db, us_Connections := cs\<rparr>"
    by (auto simp: create_user_tx_def Let_def bind_err_Inr_iff exec_Inr_iff split: sum.splits)
  note ins = insert_conns_Inr [OF cs(2)]
  then obtain rows s where r: "db' = (insert_user ?row db)\<lparr>db_conns := db_conns (insert_user ?row db) @ rows, sq_conns := s\<rparr>"
    "map cr_inbound rows = map cn_InboundID (us_Connections u)" "\<forall>r \<in> set rows. cr_user r = next_user_id db"
    by (auto simp: added_conns_def)
  show thesis
    by (rule that [OF _ r(2,3)]) (use r(1) ins cs in \<open>simp_all add: insert_user_def set_ur_id_def\<close>)
qed

lemma conns_of_unknown:
  "constraints_ok db \<Longrightarrow> i \<notin> ur_id ` set (db_users db) \<Longrightarrow> c \<in> set (db_conns db) \<Longrightarrow> cr_user c \<noteq> i"
  by (auto simp: constraint_defs)

lemma create_user_view:
  assumes "CreateUserRow now u db = (Inr u', db')" and ok: "constraints_ok db"
  shows "users_view db (us_ID u') = None \<and>
    users_view db' = (users_view db)(us_ID u' \<mapsto> \<lparr>uv_Name = us_Name u, uv_SubID = us_SubID u,
      uv_Description = us_Description u, uv_Inbounds = cn_InboundID ` set (us_Connections u)\<rparr>)"
proof -
  from assms(1) obtain rows s where r:
    "db' = db\<lparr>db_users := db_users db @ [\<lparr>ur_id = next_user_id db, ur_name = us_Name u, ur_sub = us_SubID u,
                ur_description = us_Description u, ur_created = now\<rparr>],
             sq_users := next_user_id db, db_conns := db_conns db @ rows, sq_conns := s\<rparr>"
    "map cr_inbound rows = map cn_InboundID (us_Connections u)"
    "\<forall>r \<in> set rows. cr_user r = next_user_id db" "us_ID u' = next_user_id db"
    by (rule create_user_rowE)
  let ?i = "next_user_id db"
  have fresh: "?i \<notin> ur_id ` set (db_users db)" using next_user_id_fresh by fastforce
  then have none: "find (\<lambda>u. ur_id u = ?i) (db_users db) = None" by (simp add: find_id_None)
  have "cr_inbound ` set rows = cn_InboundID ` set (us_Connections u)"
    by (metis r(2) list.set_map)
  moreover have "{c \<in> set (db_conns db'). cr_user c = ?i} = set rows"
    using r(3) conns_of_unknown [OF ok fresh] by (auto simp: r(1))
  ultimately have mine: "inbounds_of db' ?i = cn_InboundID ` set (us_Connections u)"
    by (simp add: inbounds_of_def)
  have others: "inbounds_of db' i = inbounds_of db i" if "i \<noteq> ?i" for i
    using that r(3) by (auto simp: inbounds_of_def r(1))
  have "users_view db' i = ((users_view db)(?i \<mapsto> \<lparr>uv_Name = us_Name u, uv_SubID = us_SubID u,
      uv_Description = us_Description u, uv_Inbounds = cn_InboundID ` set (us_Connections u)\<rparr>)) i" for i
    using none mine others [of i]
    by (simp add: users_view_def r(1) find_id_append split: option.splits)
  moreover have "users_view db ?i = None" by (simp add: users_view_def none)
  ultimately show ?thesis by (simp add: r(4) fun_eq_iff)
qed

lemma delete_user_rows_tables:
  assumes "db_inv db"
  shows "db_users (delete_user_rows i db) = filter (\<lambda>u. ur_id u \<noteq> i) (db_users db)"
    and "db_conns (delete_user_rows i db) = filter (\<lambda>c. cr_user c \<noteq> i) (db_conns db)"
    and "db_inbounds (delete_user_rows i db) = db_inbounds db" "db_nodes (delete_user_rows i db) = db_nodes db"
    and "routing_same (delete_configs (\<lambda>c. cf_user c = Some i) db) (delete_user_rows i db)"
    and "db_configs (delete_user_rows i db) = filter (\<lambda>c. cf_user c \<noteq> Some i) (db_configs db)"
  using assms
  by (simp_all add: delete_user_rows_def Let_def routing_same_def db_inv_def config_local_def delete_configs_tables)

lemma delete_user_rows_inv:
  assumes inv: "db_inv db"
  shows "db_inv (delete_user_rows i db)"
proof -
  let ?d = "delete_configs (\<lambda>c. cf_user c = Some i) db"
  note t = delete_user_rows_tables [OF inv, of i]
  have d: "db_inv ?d" by (rule delete_configs_inv [OF inv])
  have ok: "constraints_ok db" using inv by (simp add: db_inv_def)
  have tables: "db_configs ?d = filter (\<lambda>c. cf_user c \<noteq> Some i) (db_configs db)" "db_users ?d = db_users db"
    "db_conns ?d = db_conns db"
    using inv by (simp_all add: db_inv_def config_local_def delete_configs_tables)
  have users: "\<forall>c \<in> set (db_configs db). cf_user c \<noteq> Some i \<longrightarrow>
      ref_in (cf_user c) (map ur_id (filter (\<lambda>u. ur_id u \<noteq> i) (db_users db)))"
  proof (intro ballI impI ref_in_cong)
    fix c u assume "c \<in> set (db_configs db)" "cf_user c \<noteq> Some i" "cf_user c = Some u"
    moreover from this ok have "u \<in> ur_id ` set (db_users db)" by (fastforce simp: constraint_defs)
    ultimately show "u \<in> set (map ur_id (filter (\<lambda>u. ur_id u \<noteq> i) (db_users db)))" by auto
  qed
  have conns: "\<forall>c \<in> set (db_conns db). cr_user c \<noteq> i \<longrightarrow> cr_user c \<in> ur_id ` {u \<in> set (db_users db). ur_id u \<noteq> i}"
    using ok by (auto simp: constraint_defs)
  have "constraints_ok (?d\<lparr>db_conns := filter (\<lambda>c. cr_user c \<noteq> i) (db_conns ?d),
      db_users := filter (\<lambda>u. ur_id u \<noteq> i) (db_users ?d)\<rparr>)"
    using d ok users conns by (simp add: constraint_defs tables db_inv_def distinct_map_filter)
  then have "constraints_ok (delete_user_rows i db)" by (simp add: delete_user_rows_def Let_def)
  with t(5) d show ?thesis by (rule db_inv_routing_same)
qed

lemma DeleteUserRow_ok: "db_inv db \<Longrightarrow> DeleteUserRow i db = (Inr (), delete_user_rows i db)"
  using delete_user_rows_inv [of db i] by (simp add: DeleteUserRow_def in_tx_def exec_ok db_inv_def)

lemma delete_user_view:
  assumes "db_inv db"
  shows "users_view (delete_user_rows i db) = (users_view db)(i := None)"
proof
  fix j
  note t = delete_user_rows_tables [OF assms, of i]
  have "inbounds_of (delete_user_rows i db) j = inbounds_of db j" if "j \<noteq> i"
    using that by (auto simp: inbounds_of_def t)
  moreover have "find (\<lambda>u. ur_id u = j) (filter (\<lambda>u. ur_id u \<noteq> i) (db_users db)) = find (\<lambda>u. ur_id u = j) (db_users db)"
    if "j \<noteq> i" by (rule find_filter_kept) (use that in auto)
  moreover have "find (\<lambda>u. ur_id u = i) (filter (\<lambda>u. ur_id u \<noteq> i) (db_users db)) = None"
    by (auto simp: find_id_None)
  ultimately show "users_view (delete_user_rows i db) j = ((users_view db)(i := None)) j"
    by (auto simp: users_view_def t)
qed

lemma constraints_users_cong:
  assumes "map ur_id us = map ur_id (db_users db)" "map ur_name us = map ur_name (db_users db)"
    and "map ur_sub us = map ur_sub (db_users db)" and "constraints_ok db"
  shows "constraints_ok (db\<lparr>db_users := us\<rparr>)"
proof -
  have "ur_id ` set us = ur_id ` set (db_users db)" by (metis assms(1) list.set_map)
  then show ?thesis using assms by (simp add: constraint_defs)
qed

lemma SetDescription_ok:
  assumes "constraints_ok db"
  shows "SetDescription i d db = (Inr (), set_description i d db) \<and> constraints_ok (set_description i d db)"
proof -
  have "constraints_ok (set_description i d db)"
    unfolding set_description_def
    by (rule constraints_users_cong [OF _ _ _ assms]) simp_all
  then show ?thesis by (simp add: SetDescription_def in_tx_def exec_ok)
qed

lemma find_set_description:
  fixes us :: "user_row list"
  shows "find (\<lambda>u. ur_id u = j) (map (\<lambda>u. if ur_id u = i then u\<lparr>ur_description := d\<rparr> else u) us) =
    map_option (\<lambda>u. if j = i then u\<lparr>ur_description := d\<rparr> else u) (find (\<lambda>u. ur_id u = j) us)"
  by (induction us) auto

lemma set_description_view:
  "users_view (set_description i d db) = (case users_view db i of
     None \<Rightarrow> users_view db | Some v \<Rightarrow> (users_view db)(i \<mapsto> v\<lparr>uv_Description := d\<rparr>))"
proof (rule ext)
  fix j
  show "users_view (set_description i d db) j = (case users_view db i of
     None \<Rightarrow> users_view db | Some v \<Rightarrow> (users_view db)(i \<mapsto> v\<lparr>uv_Description := d\<rparr>)) j"
    by (cases "j = i"; cases "find (\<lambda>u. ur_id u = i) (db_users db)"; cases "find (\<lambda>u. ur_id u = j) (db_users db)")
      (simp_all add: users_view_def set_description_def inbounds_of_def find_set_description)
qed

section \<open>Replacing the connections of a user\<close>

text \<open>What the language promises of ranging over a map: each key once, in some order.\<close>

definition map_order :: "(int list \<Rightarrow> int list) \<Rightarrow> bool" where
  "map_order ord \<longleftrightarrow> (\<forall>ks. distinct ks \<longrightarrow> distinct (ord ks) \<and> set (ord ks) = set ks)"

lemma map_order_dedup:
  assumes "map_order ord"
  shows "distinct (ord (dedup {} xs))" "set (ord (dedup {} xs)) = set xs"
  using assms distinct_dedup [of "{}" xs] set_dedup [of "{}" xs] by (simp_all add: map_order_def)

lemma replace_connections_tx_ok:
  assumes ord: "map_order ord" and ok: "constraints_ok db"
    and user: "userID \<in> ur_id ` set (db_users db)" and inbs: "set inboundIDs \<subseteq> ir_id ` set (db_inbounds db)"
  shows "\<exists>db'. replace_connections_tx ord now userID inboundIDs db = Inr ((), db')"
proof -
  let ?rows = "filter (\<lambda>c. cr_user c = userID) (db_conns db)"
  let ?have = "fill_map cr_inbound cr_id ?rows"
  have "\<exists>d. replace_inserts now userID ?have (ord (dedup {} inboundIDs)) db = Inr d"
  proof (rule replace_inserts_ok [OF ok user])
    show "?have i \<noteq> None" if "c \<in> set (db_conns db)" "cr_user c = userID" "cr_inbound c = i" for i c
      using that by (auto simp: fill_map_None_iff)
  qed (use inbs map_order_dedup [OF ord] in simp_all)
  then obtain d where d: "replace_inserts now userID ?have (ord (dedup {} inboundIDs)) db = Inr d" by blast
  with replace_inserts_Inr [OF d] ok have "constraints_ok d" by simp
  then obtain db' where "replace_deletes (set inboundIDs) ?have (ord (dedup {} (map cr_inbound ?rows))) d = Inr db'"
    using replace_deletes_ok by blast
  with d show ?thesis by (simp add: replace_connections_tx_def Let_def)
qed

lemma key_in_image: "distinct (map f xs) \<Longrightarrow> x \<in> set xs \<Longrightarrow> f x \<in> f ` {y \<in> set xs. Q y} \<longleftrightarrow> Q x"
  by (auto dest: distinct_map_eq)

lemma replace_connections_tx_Inr:
  assumes ord: "map_order ord" and ok: "constraints_ok db"
    and run: "replace_connections_tx ord now userID inboundIDs db = Inr ((), db')"
  shows "constraints_ok db' \<and> (\<exists>rows s.
    db' = db\<lparr>db_conns := filter (\<lambda>c. cr_user c = userID \<longrightarrow> cr_inbound c \<in> set inboundIDs) (db_conns db) @ rows,
             sq_conns := s\<rparr> \<and>
    set (map cr_inbound rows) = set inboundIDs - inbounds_of db userID \<and>
    (\<forall>r \<in> set rows. cr_user r = userID))"
proof -
  let ?rows = "filter (\<lambda>c. cr_user c = userID) (db_conns db)"
  let ?have = "fill_map cr_inbound cr_id ?rows"
  let ?keys = "ord (dedup {} (map cr_inbound ?rows))"
  from run obtain d where
    ins: "replace_inserts now userID ?have (ord (dedup {} inboundIDs)) db = Inr d" and
    del: "replace_deletes (set inboundIDs) ?have ?keys d = Inr db'"
    by (auto simp: replace_connections_tx_def Let_def bind_err_Inr_iff)
  from replace_inserts_Inr [OF ins] obtain rows s where
    d: "d = db\<lparr>db_conns := db_conns db @ rows, sq_conns := s\<rparr>" and okd: "constraints_ok d" and
    new: "map cr_inbound rows = filter (\<lambda>i. ?have i = None) (ord (dedup {} inboundIDs))"
    "\<forall>r \<in> set rows. cr_user r = userID"
    using ok by (auto simp: added_conns_def)
  let ?gone = "(\<lambda>i. the (?have i)) ` {i \<in> set ?keys. i \<notin> set inboundIDs}"
  note del' = replace_deletes_Inr [OF del]
  have ids: "distinct (map cr_id (db_conns db @ rows))" using okd by (simp add: constraint_defs d)
  have "distinct (map (\<lambda>c. (cr_user c, cr_inbound c)) (db_conns db))" using ok by (simp add: constraint_defs)
  then have keys: "distinct (map cr_inbound ?rows)" by (auto simp: distinct_map inj_on_def)
  have have_row: "?have (cr_inbound c) = Some (cr_id c)" if "c \<in> set (db_conns db)" "cr_user c = userID" for c
    by (rule fill_map_distinct [OF keys]) (use that in simp)
  have gone: "?gone = cr_id ` {c \<in> set ?rows. cr_inbound c \<notin> set inboundIDs}"
  proof -
    have keys: "{i \<in> set ?keys. i \<notin> set inboundIDs} = cr_inbound ` {c \<in> set ?rows. cr_inbound c \<notin> set inboundIDs}"
      by (auto simp: map_order_dedup [OF ord])
    have "(\<lambda>i. the (?have i)) ` cr_inbound ` {c \<in> set ?rows. cr_inbound c \<notin> set inboundIDs} =
        cr_id ` {c \<in> set ?rows. cr_inbound c \<notin> set inboundIDs}"
      unfolding image_image by (rule image_cong [OF refl]) (simp add: have_row)
    then show ?thesis unfolding keys .
  qed
  have "distinct (map cr_id (db_conns db))" using ids by simp
  note old_id = key_in_image [OF this]
  have gone': "?gone = cr_id ` {c \<in> set (db_conns db). cr_user c = userID \<and> cr_inbound c \<notin> set inboundIDs}"
    unfolding gone by simp
  have old: "filter (\<lambda>c. cr_id c \<notin> ?gone) (db_conns db) =
      filter (\<lambda>c. cr_user c = userID \<longrightarrow> cr_inbound c \<in> set inboundIDs) (db_conns db)"
    unfolding gone' by (rule filter_cong [OF refl]) (subst old_id, simp_all)
  have "?gone \<subseteq> cr_id ` set (db_conns db)" unfolding gone' by blast
  moreover have "cr_id r \<notin> cr_id ` set (db_conns db)" if "r \<in> set rows" for r
    using ids that by auto
  ultimately have "cr_id r \<notin> ?gone" if "r \<in> set rows" for r using that by blast
  then have "filter (\<lambda>c. cr_id c \<notin> ?gone) rows = rows" by (simp add: filter_id_conv)
  with old del' d have "db' = db\<lparr>db_conns := filter (\<lambda>c. cr_user c = userID \<longrightarrow> cr_inbound c \<in> set inboundIDs)
      (db_conns db) @ rows, sq_conns := s\<rparr>" by simp
  moreover have "set (map cr_inbound rows) = set inboundIDs - inbounds_of db userID"
    unfolding new(1) using map_order_dedup [OF ord]
    by (auto simp: fill_map_None_iff inbounds_of_def)
  ultimately show ?thesis using new(2) del' okd by blast
qed

lemma replace_view:
  assumes "map_order ord" and "constraints_ok db"
    and "replace_connections_tx ord now userID inboundIDs db = Inr ((), db')"
  shows "users_view db' = (case users_view db userID of
     None \<Rightarrow> users_view db | Some v \<Rightarrow> (users_view db)(userID \<mapsto> v\<lparr>uv_Inbounds := set inboundIDs\<rparr>))"
proof -
  from replace_connections_tx_Inr [OF assms] obtain rows s where
    db': "db' = db\<lparr>db_conns := filter (\<lambda>c. cr_user c = userID \<longrightarrow> cr_inbound c \<in> set inboundIDs) (db_conns db) @ rows,
             sq_conns := s\<rparr>" and
    rows: "set (map cr_inbound rows) = set inboundIDs - inbounds_of db userID" "\<forall>r \<in> set rows. cr_user r = userID"
    by blast
  have "{c \<in> set (db_conns db'). cr_user c = userID} =
      {c \<in> set (db_conns db). cr_user c = userID \<and> cr_inbound c \<in> set inboundIDs} \<union> set rows"
    using rows(2) by (auto simp: db')
  then have "inbounds_of db' userID = (inbounds_of db userID \<inter> set inboundIDs) \<union> set (map cr_inbound rows)"
    by (auto simp: inbounds_of_def)
  then have mine: "inbounds_of db' userID = set inboundIDs" using rows(1) by auto
  have others: "inbounds_of db' i = inbounds_of db i" if "i \<noteq> userID" for i
    using that rows(2) by (auto simp: inbounds_of_def db')
  have users: "db_users db' = db_users db" by (simp add: db')
  show ?thesis
  proof (rule ext)
    fix j
    show "users_view db' j = (case users_view db userID of None \<Rightarrow> users_view db
        | Some v \<Rightarrow> (users_view db)(userID \<mapsto> v\<lparr>uv_Inbounds := set inboundIDs\<rparr>)) j"
      using mine others [of j]
      by (cases "j = userID"; cases "find (\<lambda>u. ur_id u = userID) (db_users db)";
          cases "find (\<lambda>u. ur_id u = j) (db_users db)") (simp_all add: users_view_def users)
  qed
qed

end
