(* ===== verification/UsersProperties.thy ===== *)
theory UsersProperties
  imports UsersFacts
begin

text \<open>
  The contract of the user repository as an interface, its interpretation on the model, and the
  properties of the repository: the tables refine a map from ids to subscribers, and the page query
  finds what its filters say.
\<close>

section \<open>The invariant\<close>

lemma positive_ids_users:
  assumes "positive_ids db" and "sq_users db' = sq_users db" "sq_nodes db' = sq_nodes db" "sq_inbounds db' = sq_inbounds db"
    and "set (db_users db') \<subseteq> set (db_users db)" "db_nodes db' = db_nodes db" "db_inbounds db' = db_inbounds db"
  shows "positive_ids db'"
  using assms by (auto simp: positive_ids_def)

lemma next_user_id_pos: "positive_ids db \<Longrightarrow> 0 < next_user_id db"
  using auto_base_nonneg [of "sq_users db" ur_id "db_users db"] by (simp add: positive_ids_def next_user_id_def)

lemma CreateUserRow_inv:
  assumes "CreateUserRow now u db = (r, db')" and inv: "store_inv db"
  shows "store_inv db'"
proof (cases r)
  case (Inl e)
  with assms(1) have "db' = db" unfolding CreateUserRow_def by (simp add: in_tx_atomic)
  with inv show ?thesis by simp
next
  case (Inr u')
  with assms(1) have "CreateUserRow now u db = (Inr u', db')" by simp
  then obtain rows s where r:
    "db' = db\<lparr>db_users := db_users db @ [\<lparr>ur_id = next_user_id db, ur_name = us_Name u, ur_sub = us_SubID u,
                ur_description = us_Description u, ur_created = now\<rparr>],
             sq_users := next_user_id db, db_conns := db_conns db @ rows, sq_conns := s\<rparr>"
    "constraints_ok db'" by (rule create_user_rowE)
  have "db_inv db'"
    by (rule db_inv_routing_same [OF _ store_invD(1) [OF inv] r(2)]) (simp add: routing_same_def r(1))
  moreover have "positive_ids db'"
    using store_invD(3) [OF inv] next_user_id_pos [of db] next_user_id_fresh
    by (fastforce simp: positive_ids_def r(1))
  ultimately show ?thesis by (simp add: store_inv_def)
qed

lemma DeleteUserRow_inv:
  assumes inv: "store_inv db"
  shows "DeleteUserRow i db = (Inr (), delete_user_rows i db) \<and> store_inv (delete_user_rows i db)"
proof -
  note d = store_invD [OF inv]
  have "positive_ids (delete_user_rows i db)"
    by (rule positive_ids_users [OF d(3)])
      (use d(1) in \<open>auto simp: delete_user_rows_tables [OF d(1)] delete_user_rows_def Let_def db_inv_def
        config_local_def delete_configs_tables\<close>)
  with DeleteUserRow_ok [OF d(1)] delete_user_rows_inv [OF d(1)] show ?thesis by (simp add: store_inv_def)
qed

lemma SetDescription_inv:
  assumes inv: "store_inv db"
  shows "SetDescription i d db = (Inr (), set_description i d db) \<and> store_inv (set_description i d db)"
proof -
  note f = store_invD [OF inv] and s = SetDescription_ok [OF store_invD(2) [OF inv], of i d]
  have "db_inv (set_description i d db)"
    by (rule db_inv_routing_same [OF _ f(1)]) (use s in \<open>simp_all add: routing_same_def set_description_def\<close>)
  moreover have "positive_ids (set_description i d db)"
    using f(3) by (auto simp: positive_ids_def set_description_def)
  ultimately show ?thesis using s by (simp add: store_inv_def)
qed

lemma ReplaceConnections_inv:
  assumes run: "ReplaceConnections ord now userID inboundIDs db = (r, db')" and inv: "store_inv db" and ord: "map_order ord"
  shows "store_inv db'"
proof (cases r)
  case (Inl e)
  with run have "db' = db" unfolding ReplaceConnections_def by (simp add: in_tx_atomic)
  with inv show ?thesis by simp
next
  case (Inr u)
  with run have "replace_connections_tx ord now userID inboundIDs db = Inr ((), db')"
    by (auto simp: ReplaceConnections_def in_tx_def split: sum.splits)
  from replace_connections_tx_Inr [OF ord store_invD(2) [OF inv] this] obtain rows s where
    r: "constraints_ok db'" "db' = db\<lparr>db_conns := filter (\<lambda>c. cr_user c = userID \<longrightarrow> cr_inbound c \<in> set inboundIDs)
         (db_conns db) @ rows, sq_conns := s\<rparr>" by blast
  have "db_inv db'"
    by (rule db_inv_routing_same [OF _ store_invD(1) [OF inv] r(1)]) (simp add: routing_same_def r(2))
  moreover have "positive_ids db'" using store_invD(3) [OF inv] by (simp add: positive_ids_def r(2))
  ultimately show ?thesis by (simp add: store_inv_def)
qed

section \<open>The interface\<close>

definition view_of :: "User \<Rightarrow> user_view" where
  "view_of u = \<lparr>uv_Name = us_Name u, uv_SubID = us_SubID u, uv_Description = us_Description u,
     uv_Inbounds = cn_InboundID ` set (us_Connections u)\<rparr>"

definition view_upd :: "int \<Rightarrow> (user_view \<Rightarrow> user_view) \<Rightarrow> (int \<rightharpoonup> user_view) \<Rightarrow> (int \<rightharpoonup> user_view)" where
  "view_upd i f m = (case m i of None \<Rightarrow> m | Some v \<Rightarrow> m(i \<mapsto> f v))"

text \<open>What the users of the repository may rely on, over an abstract map from ids to subscribers.\<close>

locale subscriber_store =
  fixes view :: "'s \<Rightarrow> int \<rightharpoonup> user_view" and inv :: "'s \<Rightarrow> bool" and fair :: "'o \<Rightarrow> bool"
    and create :: "int \<Rightarrow> User \<Rightarrow> 's \<Rightarrow> ('e + User) \<times> 's"
    and remove :: "int \<Rightarrow> 's \<Rightarrow> ('e + unit) \<times> 's"
    and describe :: "int \<Rightarrow> string option \<Rightarrow> 's \<Rightarrow> ('e + unit) \<times> 's"
    and connect :: "'o \<Rightarrow> int \<Rightarrow> int \<Rightarrow> int list \<Rightarrow> 's \<Rightarrow> ('e + unit) \<times> 's"
  assumes create_inv: "inv s \<Longrightarrow> inv (snd (create now u s))"
    and create_done: "inv s \<Longrightarrow> create now u s = (Inr u', s') \<Longrightarrow>
      view s (us_ID u') = None \<and> view s' = (view s)(us_ID u' \<mapsto> view_of u) \<and> view_of u' = view_of u"
    and create_failed: "create now u s = (Inl e, s') \<Longrightarrow> s' = s"
    and remove_done: "inv s \<Longrightarrow> \<exists>s'. remove i s = (Inr (), s') \<and> inv s' \<and> view s' = (view s)(i := None)"
    and describe_done: "inv s \<Longrightarrow> \<exists>s'. describe i d s = (Inr (), s') \<and> inv s' \<and>
      view s' = view_upd i (uv_Description_update (\<lambda>_. d)) (view s)"
    and connect_inv: "inv s \<Longrightarrow> fair ord \<Longrightarrow> inv (snd (connect ord now i is s))"
    and connect_done: "inv s \<Longrightarrow> fair ord \<Longrightarrow> connect ord now i is s = (Inr (), s') \<Longrightarrow>
      view s' = view_upd i (uv_Inbounds_update (\<lambda>_. set is)) (view s)"
    and connect_failed: "connect ord now i is s = (Inl e, s') \<Longrightarrow> s' = s"
begin

lemma remove_created:
  assumes "inv s" and "create now u s = (Inr u', s1)"
  shows "\<exists>s2. remove (us_ID u') s1 = (Inr (), s2) \<and> view s2 = view s"
proof -
  have "inv s1" using create_inv [OF assms(1), of now u] assms(2) by simp
  from remove_done [OF this, of "us_ID u'"] obtain s2 where
    "remove (us_ID u') s1 = (Inr (), s2)" "view s2 = (view s1)(us_ID u' := None)" by blast
  with create_done [OF assms] show ?thesis by (simp add: fun_upd_idem)
qed

lemma edit_view:
  assumes "inv s" and "fair ord" and "connect ord now i is s = (Inr (), s1)" and "view s i = Some v"
  shows "\<exists>s2. describe i d s1 = (Inr (), s2) \<and> inv s2 \<and>
    view s2 = (view s)(i \<mapsto> v\<lparr>uv_Inbounds := set is, uv_Description := d\<rparr>)"
proof -
  have "inv s1" using connect_inv [OF assms(1,2), of now i "is"] assms(3) by simp
  from describe_done [OF this, of i d] connect_done [OF assms(1-3)] assms(4)
  show ?thesis by (auto simp: view_upd_def)
qed

lemma connect_again:
  assumes "inv s" and "fair ord" and "fair ord'" and "connect ord now i is s = (Inr (), s1)"
    and "connect ord' now' i js s1 = (Inr (), s2)" and "set js = set is"
  shows "view s2 = view s1"
proof -
  have "inv s1" using connect_inv [OF assms(1,2), of now i "is"] assms(4) by simp
  from connect_done [OF this assms(3,5)] connect_done [OF assms(1,2,4)] assms(6)
  show ?thesis by (auto simp: view_upd_def fun_eq_iff split: option.splits)
qed

end

interpretation users: subscriber_store users_view store_inv map_order CreateUserRow DeleteUserRow
  SetDescription ReplaceConnections
proof unfold_locales
  fix now u s
  show "store_inv (snd (CreateUserRow now u s))" if "store_inv s"
    using CreateUserRow_inv [OF prod.collapse [symmetric] that] .
next
  fix now u u' s s'
  assume inv: "store_inv s" and run: "CreateUserRow now u s = (Inr u', s')"
  obtain "us_Name u' = us_Name u" "us_SubID u' = us_SubID u" "us_Description u' = us_Description u"
    "map cn_InboundID (us_Connections u') = map cn_InboundID (us_Connections u)"
    by (rule create_user_rowE [OF run])
  moreover from this have "cn_InboundID ` set (us_Connections u') = cn_InboundID ` set (us_Connections u)"
    by (metis list.set_map)
  ultimately show "users_view s (us_ID u') = None \<and> users_view s' = (users_view s)(us_ID u' \<mapsto> view_of u) \<and>
      view_of u' = view_of u"
    using create_user_view [OF run store_invD(2) [OF inv]] by (simp add: view_of_def)
next
  fix now u e s s'
  show "s' = s" if "CreateUserRow now u s = (Inl e, s')"
    using that unfolding CreateUserRow_def by (rule in_tx_atomic)
next
  fix i s
  show "\<exists>s'. DeleteUserRow i s = (Inr (), s') \<and> store_inv s' \<and> users_view s' = (users_view s)(i := None)"
    if "store_inv s"
    using DeleteUserRow_inv [OF that, of i] delete_user_view [OF store_invD(1) [OF that], of i] by blast
next
  fix i d s
  show "\<exists>s'. SetDescription i d s = (Inr (), s') \<and> store_inv s' \<and>
      users_view s' = view_upd i (uv_Description_update (\<lambda>_. d)) (users_view s)" if "store_inv s"
    using SetDescription_inv [OF that, of i d] set_description_view [of i d s]
    by (intro exI [of _ "set_description i d s"]) (simp add: view_upd_def)
next
  fix ord now i "is" s
  show "store_inv (snd (ReplaceConnections ord now i is s))" if "store_inv s" "map_order ord"
    using ReplaceConnections_inv [OF prod.collapse [symmetric] that] .
next
  fix ord now i "is" s s'
  assume inv: "store_inv s" and ord: "map_order ord" and run: "ReplaceConnections ord now i is s = (Inr (), s')"
  from run have "replace_connections_tx ord now i is s = Inr ((), s')"
    by (auto simp: ReplaceConnections_def in_tx_def split: sum.splits)
  from replace_view [OF ord store_invD(2) [OF inv] this]
  show "users_view s' = view_upd i (uv_Inbounds_update (\<lambda>_. set is)) (users_view s)"
    by (simp add: view_upd_def)
next
  fix ord now i "is" e s s'
  show "s' = s" if "ReplaceConnections ord now i is s = (Inl e, s')"
    using that unfolding ReplaceConnections_def by (rule in_tx_atomic)
qed

section \<open>The LIKE pattern of the name search\<close>

abbreviation escape_char :: "char \<Rightarrow> string" where
  "escape_char c \<equiv> (if c \<in> {CHR 0x5C, CHR ''%'', CHR ''_''} then [CHR 0x5C, c] else [c])"

lemma like_items_escape:
  "like_items (concat (map escape_char s) @ p) = map_option ((@) (map Lit s)) (like_items p)"
proof (induction s)
  case Nil
  show ?case by (cases "like_items p") simp_all
next
  case (Cons c s)
  then show ?case by (cases "like_items p") auto
qed

lemma like_match_Lits:
  "like_match (map Lit s @ is) t \<longleftrightarrow>
     (\<exists>u v. t = u @ v \<and> map lower_char u = map lower_char s \<and> like_match is v)"
proof (induction s arbitrary: t)
  case (Cons c s)
  show ?case
  proof (cases t)
    case (Cons d t')
    have "(\<exists>u v. d # t' = u @ v \<and> map lower_char u = map lower_char (c # s) \<and> like_match is v) \<longleftrightarrow>
        lower_char c = lower_char d \<and> (\<exists>u v. t' = u @ v \<and> map lower_char u = map lower_char s \<and> like_match is v)"
      (is "?l \<longleftrightarrow> ?r")
    proof
      show "?l \<Longrightarrow> ?r" by (auto simp: Cons_eq_append_conv)
      assume ?r
      then obtain u v where "lower_char c = lower_char d" "t' = u @ v" "map lower_char u = map lower_char s"
        "like_match is v" by blast
      then show ?l by (intro exI [of _ "d # u"] exI [of _ v]) simp
    qed
    with Cons Cons.IH [of t'] show ?thesis by simp
  qed simp
qed simp

lemma like_match_AnyRun: "like_match (AnyRun # is) t \<longleftrightarrow> (\<exists>u v. t = u @ v \<and> like_match is v)"
proof (induction t)
  case (Cons d t)
  have "(\<exists>u v. d # t = u @ v \<and> like_match is v) \<longleftrightarrow>
      like_match is (d # t) \<or> (\<exists>u v. t = u @ v \<and> like_match is v)"
    by (auto simp: Cons_eq_append_conv)
  with Cons show ?case by simp
qed simp

lemma lower_char_idem [simp]: "lower_char (lower_char c) = lower_char c"
  by (auto simp: lower_char_def char_class_defs less_eq_char_def)

lemma lower_ToLower: "map lower_char (ToLower s) = ToLower s"
proof (induction s rule: ToLower.induct)
  case (2 c s)
  then show ?case by (auto simp: lower_char_def char_class_defs less_eq_char_def)
qed simp

lemma name_matches_sublist: "name_matches q u \<longleftrightarrow> sublist (ToLower q) (map lower_char (ur_name u))"
proof -
  let ?s = "ToLower q" and ?t = "ur_name u"
  have "like_items (''%'' @ escapeLike q @ ''%'') = Some (AnyRun # map Lit ?s @ [AnyRun])"
    using like_items_escape [of ?s "''%''"] by (simp add: escapeLike_def)
  then have "name_matches q u \<longleftrightarrow> (\<exists>a b. ?t = a @ b \<and> (\<exists>m v. b = m @ v \<and> map lower_char m = map lower_char ?s))"
    by (simp add: name_matches_def sql_like_def like_match_AnyRun like_match_Lits)
  also have "\<dots> \<longleftrightarrow> (\<exists>a m v. ?t = a @ m @ v \<and> map lower_char m = ?s)"
    by (auto simp: lower_ToLower)
  also have "\<dots> \<longleftrightarrow> sublist ?s (map lower_char ?t)"
  proof
    show "sublist ?s (map lower_char ?t)" if "\<exists>a m v. ?t = a @ m @ v \<and> map lower_char m = ?s"
      using that by (metis map_append sublist_def)
    assume "sublist ?s (map lower_char ?t)"
    then obtain a b where "map lower_char ?t = a @ ?s @ b" by (auto simp: sublist_def)
    then obtain a' m b' where "?t = a' @ m @ b'" "map lower_char m = ?s"
      by (metis map_eq_append_conv)
    then show "\<exists>a m v. ?t = a @ m @ v \<and> map lower_char m = ?s" by blast
  qed
  finally show ?thesis .
qed

section \<open>Properties\<close>

lemma sample_store_inv: "store_inv sample_db"
  using sample_db_inv by (simp add: store_inv_def positive_ids_def) (simp add: sample_db_def empty_db_def)

text \<open>
  C21: The user tables refine a map from ids to subscribers (name, subscription id, description, set
  of inbounds): a successful Create adds one entry under a fresh id, Delete always succeeds and
  removes exactly its entry, SetDescription changes one field of one entry; a failed Create changes
  nothing.
\<close>
theorem user_tables_refine_map:
  assumes "store_inv db"
  shows "(\<forall>u' db'. CreateUserRow now u db = (Inr u', db') \<longrightarrow>
       users_view db (us_ID u') = None \<and> users_view db' = (users_view db)(us_ID u' \<mapsto> view_of u) \<and> store_inv db') \<and>
    (\<forall>e db'. CreateUserRow now u db = (Inl e, db') \<longrightarrow> db' = db) \<and>
    (\<exists>db'. DeleteUserRow i db = (Inr (), db') \<and> users_view db' = (users_view db)(i := None) \<and> store_inv db') \<and>
    (\<exists>db'. SetDescription i d db = (Inr (), db') \<and>
       users_view db' = view_upd i (uv_Description_update (\<lambda>_. d)) (users_view db) \<and> store_inv db')"
proof (intro conjI allI impI)
  fix u' db' assume "CreateUserRow now u db = (Inr u', db')"
  from users.create_done [OF assms this] users.create_inv [OF assms, of now u] this
  show "users_view db (us_ID u') = None" "users_view db' = (users_view db)(us_ID u' \<mapsto> view_of u)" "store_inv db'"
    by simp_all
next
  show "db' = db" if "CreateUserRow now u db = (Inl e, db')" for e db'
    using that by (rule users.create_failed)
next
  from users.remove_done [OF assms, of i]
  show "\<exists>db'. DeleteUserRow i db = (Inr (), db') \<and> users_view db' = (users_view db)(i := None) \<and> store_inv db'"
    by blast
  from users.describe_done [OF assms, of i d]
  show "\<exists>db'. SetDescription i d db = (Inr (), db') \<and>
       users_view db' = view_upd i (uv_Description_update (\<lambda>_. d)) (users_view db) \<and> store_inv db'"
    by blast
qed

definition sample_user :: User where
  "sample_user = \<lparr>us_ID = 0, us_Name = ''cyd'', us_SubID = ''u'', us_Description = Some ''d'', us_CreatedAt = 0,
     us_Connections = [\<lparr>cn_ID = 0, cn_UserID = 0, cn_InboundID = 7, cn_CreatedAt = 0, cn_NodeID = 0, cn_Node = [],
       cn_Name = [], cn_Port = 0, cn_Kind = []\<rparr>]\<rparr>"

lemma sample_user_created: "\<exists>u' db'. CreateUserRow 1 sample_user sample_db = (Inr u', db')"
  by (simp add: CreateUserRow_def in_tx_def create_user_tx_def Let_def exec_def checks_ok_def uniq_ok_def fk_ok_def
      insert_user_def insert_conn_def next_user_id_def next_conn_id_def auto_base_def set_ur_id_def set_cr_id_def
      sample_db_def empty_db_def sample_user_def)

theorem user_tables_refine_map_witness:
  "\<exists>u' db'. CreateUserRow 1 sample_user sample_db = (Inr u', db') \<and>
     users_view db' = (users_view sample_db)(us_ID u' \<mapsto> view_of sample_user)"
proof -
  obtain u' db' where "CreateUserRow 1 sample_user sample_db = (Inr u', db')" using sample_user_created by blast
  with user_tables_refine_map [OF sample_store_inv, of 1 sample_user 0 None] show ?thesis by blast
qed

text \<open>
  ReplaceConnections sets a user's connections to exactly the requested inbounds, whatever order
  the runtime ranges over the maps in: for an existing user and existing inbounds it succeeds, the
  set of the user's inbounds becomes the set asked for, rows that stay keep their ids, no other
  user's connections change and the store invariant holds.
\<close>
theorem replace_connections_exact:
  assumes "store_inv db" and "map_order ord"
    and "userID \<in> ur_id ` set (db_users db)" and "set inboundIDs \<subseteq> ir_id ` set (db_inbounds db)"
  shows "\<exists>db'. ReplaceConnections ord now userID inboundIDs db = (Inr (), db') \<and> store_inv db' \<and>
    users_view db' = view_upd userID (uv_Inbounds_update (\<lambda>_. set inboundIDs)) (users_view db) \<and>
    set (filter (\<lambda>c. cr_user c = userID \<longrightarrow> cr_inbound c \<in> set inboundIDs) (db_conns db)) \<subseteq> set (db_conns db')"
proof -
  note ok = store_invD(2) [OF assms(1)]
  from replace_connections_tx_ok [OF assms(2) ok assms(3,4), of now] obtain db' where
    tx: "replace_connections_tx ord now userID inboundIDs db = Inr ((), db')" by blast
  then have run: "ReplaceConnections ord now userID inboundIDs db = (Inr (), db')"
    by (simp add: ReplaceConnections_def in_tx_def)
  from replace_connections_tx_Inr [OF assms(2) ok tx]
  have "set (filter (\<lambda>c. cr_user c = userID \<longrightarrow> cr_inbound c \<in> set inboundIDs) (db_conns db)) \<subseteq> set (db_conns db')"
    by auto
  with run users.connect_done [OF assms(1,2) run] users.connect_inv [OF assms(1,2), of now userID inboundIDs]
  show ?thesis by auto
qed

theorem replace_connections_exact_witness:
  "\<exists>db'. ReplaceConnections rev 1 6 [7, 7] sample_db = (Inr (), db') \<and>
     users_view db' = view_upd 6 (uv_Inbounds_update (\<lambda>_. {7})) (users_view sample_db)"
proof -
  have ord: "map_order rev" by (simp add: map_order_def)
  have "6 \<in> ur_id ` set (db_users sample_db)" "set [7, 7] \<subseteq> ir_id ` set (db_inbounds sample_db)"
    by (simp_all add: sample_db_def)
  from replace_connections_exact [OF sample_store_inv ord this, of 1] show ?thesis by auto
qed

text \<open>
  The name search finds exactly the users whose name contains the query, ignoring case: no
  character of the query is a wildcard, because escapeLike makes each of backslash, percent and
  underscore literal.
\<close>
theorem name_search_is_substring:
  "name_matches q u \<longleftrightarrow> (\<exists>a b. map lower_char (ur_name u) = a @ ToLower q @ b)"
  by (simp add: name_matches_sublist sublist_def)

lemma filter_map_filter:
  "(\<And>x y. f x = Some y \<Longrightarrow> Q y \<longleftrightarrow> P x) \<Longrightarrow> filter Q (List.map_filter f xs) = List.map_filter f (filter P xs)"
  by (induction xs) (auto split: option.splits)

lemma filter_joined:
  "filter (\<lambda>c. cn_UserID c = i) (joined_connections P db) = joined_connections (\<lambda>c. P c \<and> cr_user c = i) db"
proof -
  have "cn_UserID y = cr_user x" if "join_conn db x = Some y" for x y
    using that by (auto simp: join_conn_def split: option.splits)
  then have "filter (\<lambda>c. cn_UserID c = i) (List.map_filter (join_conn db) xs) =
      List.map_filter (join_conn db) (filter (\<lambda>c. cr_user c = i) xs)" for xs
    by (intro filter_map_filter) simp
  then show ?thesis by (simp add: joined_connections_def filter_sort conj_commute)
qed

lemma GetUser_row:
  assumes inv: "store_inv db" and r: "r \<in> set (db_users db)"
  shows "GetUser (ur_id r) db =
    Some ((user_of_row r)\<lparr>us_Connections := joined_connections (\<lambda>c. cr_user c = ur_id r) db\<rparr>)"
proof -
  have "distinct (map ur_id (db_users db))" using store_invD(2) [OF inv] by (simp add: constraint_defs)
  then have "find (\<lambda>q. ur_id q = ur_id r) (db_users db) = Some r"
    by (rule find_unique [OF _ refl r refl])
  moreover have "0 < ur_id r" using store_invD(3) [OF inv] r by (simp add: positive_ids_def)
  ultimately show ?thesis
    by (simp add: GetUser_def loadConnections_def scanConnections_def filter_joined user_of_row_def)
qed

text \<open>The filter of the page as its parameters describe it.\<close>

definition page_filter :: "UserListParams \<Rightarrow> db \<Rightarrow> user_row \<Rightarrow> bool" where
  "page_filter p db u \<longleftrightarrow>
     (let name = TrimSpace (lp_NameQuery p); ids = lp_InboundIDs p
      in (name = [] \<or> sublist (ToLower name) (map lower_char (ur_name u))) \<and>
         (ids = [] \<or> inbounds_of db (ur_id u) \<inter> set ids \<noteq> {}))"

lemma page_rows_filter: "page_rows p db = filter (page_filter p db) (db_users db)"
proof -
  have inbs: "has_inbound is db = (\<lambda>u. inbounds_of db (ur_id u) \<inter> set is \<noteq> {})" for "is"
  proof (rule ext)
    fix u
    have "has_inbound is db u \<longleftrightarrow> (\<exists>c \<in> set (db_conns db). cr_user c = ur_id u \<and> cr_inbound c \<in> set is)"
      by (auto simp: has_inbound_def image_iff)
    also have "\<dots> \<longleftrightarrow> inbounds_of db (ur_id u) \<inter> set is \<noteq> {}"
      by (auto simp: inbounds_of_def)
    finally show "has_inbound is db u \<longleftrightarrow> inbounds_of db (ur_id u) \<inter> set is \<noteq> {}" .
  qed
  have "name_matches q = (\<lambda>u. sublist (ToLower q) (map lower_char (ur_name u)))" for q
    by (rule ext) (rule name_matches_sublist)
  then show ?thesis by (simp add: page_rows_def page_filter_def [abs_def] Let_def inbs)
qed

lemma page_entry:
  assumes inv: "store_inv db" and rows: "set rows \<subseteq> set (db_users db)"
  shows "loadConnectionsForIDs (map user_of_row rows) (map ur_id rows) db =
    map (\<lambda>r. the (GetUser (ur_id r) db)) rows"
proof -
  have each: "joined_connections (\<lambda>c. cr_user c \<in> ur_id ` set rows \<and> cr_user c = ur_id r) db =
      joined_connections (\<lambda>c. cr_user c = ur_id r) db" if "r \<in> set rows" for r
  proof -
    have "(\<lambda>c :: conn_row. cr_user c \<in> ur_id ` set rows \<and> cr_user c = ur_id r) = (\<lambda>c. cr_user c = ur_id r)"
      using that by auto
    then show ?thesis by (simp only:)
  qed
  have "the (GetUser (ur_id r) db) = (user_of_row r)\<lparr>us_Connections := joined_connections (\<lambda>c. cr_user c = ur_id r) db\<rparr>"
    if "r \<in> set rows" for r using GetUser_row [OF inv] rows that by auto
  with each show ?thesis
    by (simp add: loadConnectionsForIDs_def scanConnections_def filter_joined user_of_row_def)
qed

text \<open>
  The users page is the slice LIMIT/OFFSET of the users that match the filters, in name order:
  a non-blank query must occur in the name, a non-empty inbound set must meet the user's inbounds;
  each entry is what Get returns for that user, so the one batched join per page equals a read per
  user, and the total counts all matches.
\<close>
theorem list_page_reads_each_user:
  assumes "store_inv db"
  shows "up_Users (ListPage p db) = map (\<lambda>r. the (GetUser (ur_id r) db))
      (sql_page (lp_Limit p) (lp_Offset p) (sort_key ur_name (filter (page_filter p db) (db_users db)))) \<and>
    up_Total (ListPage p db) = int (length (filter (page_filter p db) (db_users db)))"
proof -
  have "set (sql_page (lp_Limit p) (lp_Offset p) (sort_key ur_name (page_rows p db))) \<subseteq> set (db_users db)"
    by (auto simp: sql_page_def Let_def page_rows_filter dest!: in_set_takeD in_set_dropD)
  from page_entry [OF assms this] show ?thesis by (simp add: ListPage_def Let_def page_rows_filter)
qed

theorem list_page_reads_each_user_witness:
  "up_Total (ListPage \<lparr>lp_NameQuery = '' O'', lp_InboundIDs = [], lp_Limit = 10, lp_Offset = 0\<rparr> sample_db) = 1"
proof -
  let ?p = "\<lparr>lp_NameQuery = '' O'', lp_InboundIDs = [], lp_Limit = 10, lp_Offset = 0\<rparr>"
  have "TrimSpace '' O'' = ''O''" "sublist (ToLower ''O'') (map lower_char ''bob'')"
    "\<not> sublist (ToLower ''O'') (map lower_char ''ann'')" by code_simp+
  then have "filter (page_filter ?p sample_db) (db_users sample_db) = filter (\<lambda>u. ur_id u = 6) (db_users sample_db)"
    by (simp add: sample_db_def page_filter_def del: list.map ToLower.simps)
  then show ?thesis
    using list_page_reads_each_user [OF sample_store_inv, of ?p] by simp (simp add: sample_db_def)
qed

end
