(* ===== verification/NodesRepo.thy ===== *)
theory NodesRepo
  imports UsersProperties
begin

text \<open>
  The node registry, package \<open>internal/repository/nodes\<close>. The JSON text of a hysteria2 inbound's
  credentials is made and read by \<open>encoding/json\<close> through a struct with string fields; the two
  functions are arguments, \<open>enc\<close> and \<open>dec\<close>, where a failed decode is \<open>None\<close>.
\<close>

section \<open>Rows\<close>

definition set_no_id :: "int \<Rightarrow> node_row \<Rightarrow> node_row" where "set_no_id i r = r\<lparr>no_id := i\<rparr>"
definition set_ir_id :: "int \<Rightarrow> inbound_row \<Rightarrow> inbound_row" where "set_ir_id i r = r\<lparr>ir_id := i\<rparr>"

interpretation nids: autoinc no_id set_no_id
  by unfold_locales (simp add: set_no_id_def)

interpretation irids: autoinc ir_id set_ir_id
  by unfold_locales (simp add: set_ir_id_def)

definition next_node_id :: "db \<Rightarrow> int" where
  "next_node_id db = auto_base no_id (sq_nodes db) (db_nodes db) + 1"

definition next_inbound_id :: "db \<Rightarrow> int" where
  "next_inbound_id db = auto_base ir_id (sq_inbounds db) (db_inbounds db) + 1"

definition insert_node :: "node_row \<Rightarrow> db \<Rightarrow> db" where
  "insert_node row db =
     db\<lparr>db_nodes := db_nodes db @ [set_no_id (next_node_id db) row], sq_nodes := next_node_id db\<rparr>"

definition insert_inbound :: "inbound_row \<Rightarrow> db \<Rightarrow> db" where
  "insert_inbound row db =
     db\<lparr>db_inbounds := db_inbounds db @ [set_ir_id (next_inbound_id db) row],
        sq_inbounds := next_inbound_id db\<rparr>"

section \<open>The kind and settings columns (settings.go)\<close>

type_synonym encode = "Hysteria2Settings \<Rightarrow> string"
type_synonym decode = "string \<Rightarrow> Hysteria2Settings option"

definition inboundKindSettings :: "encode \<Rightarrow> Inbound \<Rightarrow> string \<times> string option" where
  "inboundKindSettings enc i =
     (in_Kind i,
      case in_Hysteria2 i of
        None \<Rightarrow> None
      | Some h \<Rightarrow> if in_Kind i = InboundKindHysteria2 then Some (enc h) else None)"

definition applyKindSettings :: "decode \<Rightarrow> Inbound \<Rightarrow> string \<Rightarrow> string option \<Rightarrow> Inbound" where
  "applyKindSettings dec i kind settings =
     (let i = i\<lparr>in_Kind := kind\<rparr>
      in case settings of
           None \<Rightarrow> i
         | Some text \<Rightarrow>
             if kind = InboundKindHysteria2 \<and> text \<noteq> []
             then (case dec text of None \<Rightarrow> i | Some h \<Rightarrow> i\<lparr>in_Hysteria2 := Some h\<rparr>)
             else i)"

section \<open>Create\<close>

definition inbound_row_of :: "encode \<Rightarrow> int \<Rightarrow> Inbound \<Rightarrow> inbound_row" where
  "inbound_row_of enc nodeID i =
     (let (kind, settings) = inboundKindSettings enc i
      in \<lparr>ir_id = 0, ir_node = nodeID, ir_name = in_Name i, ir_port = in_Port i, ir_kind = kind,
          ir_settings = settings\<rparr>)"

definition duplicate_error :: "entity_error \<Rightarrow> repo_error + db \<Rightarrow> repo_error + db" where
  "duplicate_error dup res =
     (case res of Inl e \<Rightarrow> Inl (if IsUniqueViolation e then Domain dup else e) | Inr db \<Rightarrow> Inr db)"

fun insertInbounds :: "encode \<Rightarrow> int \<Rightarrow> Inbound list \<Rightarrow> db \<Rightarrow> repo_error + db" where
  "insertInbounds enc nodeID [] db = Inr db"
| "insertInbounds enc nodeID (i # is) db =
     (if in_Name i = [] \<or> in_Port i = 0 then insertInbounds enc nodeID is db
      else bind_err (duplicate_error ErrInboundDuplicate
               (exec (insert_inbound (inbound_row_of enc nodeID i)) db)) (\<lambda>db'.
             insertInbounds enc nodeID is db'))"

definition create_node_tx :: "encode \<Rightarrow> int \<Rightarrow> Node \<Rightarrow> db \<Rightarrow> repo_error + (int \<times> db)" where
  "create_node_tx enc now n db =
     (let row = \<lparr>no_id = 0, no_name = nd_Name n, no_vpn_host = nd_VPNHost n, no_base_url = nd_PanelBaseURL n,
                 no_base_path = nd_PanelBasePath n, no_token = nd_Token n, no_created = now\<rparr>
      in bind_err (duplicate_error ErrNodeNameTaken (exec (insert_node row) db)) (\<lambda>db'.
         bind_err (insertInbounds enc (next_node_id db) (nd_Inbounds n) db') (\<lambda>db''.
           Inr (next_node_id db, db''))))"

definition CreateNode :: "encode \<Rightarrow> int \<Rightarrow> Node \<Rightarrow> db \<Rightarrow> (repo_error + int) \<times> db" where
  "CreateNode enc now n db =
     (if nd_Token n = [] then (Inl (Internal ''token is required''), db)
      else in_tx (create_node_tx enc now n) db)"

section \<open>Delete\<close>

definition delete_node_rows :: "int \<Rightarrow> db \<Rightarrow> db" where
  "delete_node_rows i db =
     db\<lparr>db_nodes := filter (\<lambda>n. no_id n \<noteq> i) (db_nodes db),
        db_inbounds := filter (\<lambda>r. ir_node r \<noteq> i) (db_inbounds db)\<rparr>"

definition DeleteNode :: "int \<Rightarrow> db \<Rightarrow> (repo_error + unit) \<times> db" where
  "DeleteNode i db =
     (case exec (delete_node_rows i) db of
        Inl e \<Rightarrow> (Inl (if IsForeignKeyViolation e then Domain ErrInboundReferenced else e), db)
      | Inr db' \<Rightarrow>
          if filter (\<lambda>n. no_id n = i) (db_nodes db) = [] then (Inl (Domain ErrNodeNotFound), db')
          else (Inr (), db'))"

section \<open>Update\<close>

definition update_node_row :: "int \<Rightarrow> Node \<Rightarrow> string option \<Rightarrow> db \<Rightarrow> db" where
  "update_node_row i n token db =
     db\<lparr>db_nodes := map (\<lambda>r. if no_id r = i
          then r\<lparr>no_name := nd_Name n, no_vpn_host := nd_VPNHost n, no_base_url := nd_PanelBaseURL n,
                 no_base_path := nd_PanelBasePath n,
                 no_token := (case token of None \<Rightarrow> no_token r | Some t \<Rightarrow> t)\<rparr>
          else r) (db_nodes db)\<rparr>"

definition deleteInboundsExcept :: "int \<Rightarrow> int list \<Rightarrow> db \<Rightarrow> db" where
  "deleteInboundsExcept nodeID keep db =
     db\<lparr>db_inbounds := filter (\<lambda>r. \<not> (ir_node r = nodeID \<and> (keep = [] \<or> ir_id r \<notin> set keep))) (db_inbounds db)\<rparr>"

definition update_inbound :: "encode \<Rightarrow> int \<Rightarrow> Inbound \<Rightarrow> db \<Rightarrow> db" where
  "update_inbound enc nodeID i db =
     (let (kind, settings) = inboundKindSettings enc i
      in db\<lparr>db_inbounds := map (\<lambda>r. if ir_id r = in_ID i \<and> ir_node r = nodeID
           then r\<lparr>ir_name := in_Name i, ir_port := in_Port i, ir_kind := kind, ir_settings := settings\<rparr>
           else r) (db_inbounds db)\<rparr>)"

fun update_inbounds :: "encode \<Rightarrow> int \<Rightarrow> Inbound list \<Rightarrow> db \<Rightarrow> repo_error + db" where
  "update_inbounds enc nodeID [] db = Inr db"
| "update_inbounds enc nodeID (i # is) db =
     (if in_Name i = [] \<or> in_Port i = 0 then update_inbounds enc nodeID is db
      else bind_err (duplicate_error ErrInboundDuplicate
               (if 0 < in_ID i then exec (update_inbound enc nodeID i) db
                else exec (insert_inbound (inbound_row_of enc nodeID i)) db)) (\<lambda>db'.
             update_inbounds enc nodeID is db'))"

definition update_node_tx :: "encode \<Rightarrow> int \<Rightarrow> Node \<Rightarrow> string option \<Rightarrow> db \<Rightarrow> repo_error + (unit \<times> db)" where
  "update_node_tx enc i n token db =
     bind_err (duplicate_error ErrNodeNameTaken (exec (update_node_row i n token) db)) (\<lambda>db.
     let keep = map in_ID (filter (\<lambda>i. in_Name i \<noteq> [] \<and> in_Port i \<noteq> 0 \<and> 0 < in_ID i) (nd_Inbounds n)) in
     bind_err (case exec (deleteInboundsExcept i keep) db of
                 Inl e \<Rightarrow> Inl (if IsForeignKeyViolation e then Domain ErrInboundReferenced else e)
               | Inr db' \<Rightarrow> Inr db') (\<lambda>db.
     bind_err (update_inbounds enc i (nd_Inbounds n) db) (\<lambda>db. Inr ((), db))))"

definition UpdateNode :: "encode \<Rightarrow> int \<Rightarrow> Node \<Rightarrow> bool \<Rightarrow> db \<Rightarrow> (repo_error + unit) \<times> db" where
  "UpdateNode enc i n setToken db =
     (if setToken \<and> nd_Token n = [] then (Inl (Internal ''token is empty''), db)
      else in_tx (update_node_tx enc i n (if setToken then Some (nd_Token n) else None)) db)"

section \<open>Reading\<close>

definition node_of_row :: "node_row \<Rightarrow> Node" where
  "node_of_row r =
     \<lparr>nd_ID = no_id r, nd_Name = no_name r, nd_VPNHost = no_vpn_host r, nd_PanelBaseURL = no_base_url r,
      nd_PanelBasePath = no_base_path r, nd_Token = no_token r, nd_Inbounds = []\<rparr>"

definition inbound_of_row :: "decode \<Rightarrow> inbound_row \<Rightarrow> Inbound" where
  "inbound_of_row dec r =
     applyKindSettings dec
       \<lparr>in_ID = ir_id r, in_Name = ir_name r, in_Port = ir_port r, in_Kind = [], in_Hysteria2 = None\<rparr>
       (ir_kind r) (ir_settings r)"

text \<open>\<open>None\<close> is \<open>sql.ErrNoRows\<close>.\<close>

definition GetNode :: "decode \<Rightarrow> int \<Rightarrow> db \<Rightarrow> Node option" where
  "GetNode dec i db =
     (case find (\<lambda>r. no_id r = i) (db_nodes db) of
        None \<Rightarrow> None
      | Some r \<Rightarrow>
          Some ((node_of_row r)\<lparr>nd_Inbounds := map (inbound_of_row dec)
            (sort_key ir_name (filter (\<lambda>x. ir_node x = i) (db_inbounds db)))\<rparr>))"

definition ListNodes :: "decode \<Rightarrow> db \<Rightarrow> Node list" where
  "ListNodes dec db =
     map (\<lambda>r. (node_of_row r)\<lparr>nd_Inbounds := map (inbound_of_row dec)
            (filter (\<lambda>x. ir_node x = no_id r) (db_inbounds db))\<rparr>)
       (sort_key no_name (db_nodes db))"

end
