(* ===== verification/GoText.thy ===== *)
theory GoText
  imports GoStrings
begin

text \<open>
  More of the Go standard library on strings: counting the runes of a UTF-8 text
  (\<open>unicode/utf8\<close>), printing integers in decimal (\<open>strconv\<close>, \<open>fmt\<close>'s verb d) and joining strings.
\<close>

section \<open>Runes\<close>

text \<open>
  The number of bytes \<open>utf8.DecodeRuneInString\<close> consumes: a well-formed sequence as a whole, one
  byte of anything else. The second byte's range depends on the first one (no overlong forms, no
  surrogates, nothing beyond U+10FFFF).
\<close>

definition in_range :: "nat \<Rightarrow> nat \<Rightarrow> char \<Rightarrow> bool" where
  "in_range lo hi c \<longleftrightarrow> lo \<le> of_char c \<and> of_char c \<le> hi"

definition is_cont :: "char \<Rightarrow> bool" where "is_cont = in_range 0x80 0xBF"

definition rune_width :: "char \<Rightarrow> string \<Rightarrow> nat" where
  "rune_width c s =
     (let b = of_char c :: nat in
      if 0xC2 \<le> b \<and> b \<le> 0xDF then (case s of c1 # _ \<Rightarrow> if is_cont c1 then 2 else 1 | _ \<Rightarrow> 1)
      else if 0xE0 \<le> b \<and> b \<le> 0xEF then
        (case s of c1 # c2 # _ \<Rightarrow>
           if in_range (if b = 0xE0 then 0xA0 else 0x80) (if b = 0xED then 0x9F else 0xBF) c1 \<and> is_cont c2
           then 3 else 1
         | _ \<Rightarrow> 1)
      else if 0xF0 \<le> b \<and> b \<le> 0xF4 then
        (case s of c1 # c2 # c3 # _ \<Rightarrow>
           if in_range (if b = 0xF0 then 0x90 else 0x80) (if b = 0xF4 then 0x8F else 0xBF) c1 \<and>
              is_cont c2 \<and> is_cont c3
           then 4 else 1
         | _ \<Rightarrow> 1)
      else 1)"

fun RuneCount :: "string \<Rightarrow> nat" where
  "RuneCount [] = 0"
| "RuneCount (c # s) = Suc (RuneCount (drop (rune_width c s - 1) s))"

lemma RuneCount_le: "RuneCount s \<le> length s"
proof (induction s rule: RuneCount.induct)
  case (2 c s)
  have "length (drop (rune_width c s - 1) s) \<le> length s" by simp
  with "2.IH" show ?case by (simp del: length_drop)
qed simp

lemma RuneCount_ascii: "\<forall>c \<in> set s. of_char c < (0x80 :: nat) \<Longrightarrow> RuneCount s = length s"
  by (induction s) (auto simp: rune_width_def)

section \<open>Decimal numbers\<close>

fun digits :: "nat \<Rightarrow> string" where
  "digits n = (if n < 10 then [char_of (48 + n)] else digits (n div 10) @ [char_of (48 + n mod 10)])"

declare digits.simps [simp del]

definition Itoa :: "int \<Rightarrow> string" where
  "Itoa i = (if i < 0 then ''-'' @ digits (nat (- i)) else digits (nat i))"

text \<open>Reading the digits back.\<close>

definition undigits :: "string \<Rightarrow> nat" where
  "undigits s = foldl (\<lambda>n c. 10 * n + (of_char c - 48)) 0 s"

lemma undigits_digits: "undigits (digits n) = n"
proof (induction n rule: digits.induct)
  case (1 n)
  show ?case
  proof (cases "n < 10")
    case True
    then have "(48 + n) mod 256 = 48 + n" by simp
    with True show ?thesis by (simp add: digits.simps undigits_def)
  next
    case False
    then have "(48 + n mod 10) mod 256 = 48 + n mod 10" by simp
    with False 1 show ?thesis by (simp add: digits.simps [of n] undigits_def)
  qed
qed

lemma digits_inj: "digits m = digits n \<longleftrightarrow> m = n"
  by (metis undigits_digits)

lemma digits_chars: "c \<in> set (digits n) \<Longrightarrow> CHR ''0'' \<le> c \<and> c \<le> CHR ''9''"
proof (induction n rule: digits.induct)
  case (1 n)
  have "CHR ''0'' \<le> (char_of (48 + k) :: char) \<and> (char_of (48 + k) :: char) \<le> CHR ''9''" if "k < 10" for k :: nat
    using that by (simp add: less_eq_char_def)
  with 1 show ?case by (auto simp: digits.simps [of n] split: if_splits)
qed

lemma Itoa_inj: "Itoa i = Itoa j \<longleftrightarrow> i = j"
proof
  assume eq: "Itoa i = Itoa j"
  have pos: "digits n \<noteq> CHR ''-'' # s" for n s
    using digits_chars [of "CHR ''-''" n] by (auto simp: less_eq_char_def)
  show "i = j"
    using eq pos pos [symmetric] by (auto simp: Itoa_def digits_inj split: if_splits)
qed simp

section \<open>Joining\<close>

fun Join :: "string list \<Rightarrow> string \<Rightarrow> string" where
  "Join [] sep = []"
| "Join [s] sep = s"
| "Join (s # t # ss) sep = s @ sep @ Join (t # ss) sep"

end
