(* ===== verification/Fleet.thy ===== *)
theory Fleet
  imports NodesRepo UsersRepo GoText
begin

text \<open>
  The fleet service (\<open>internal/service/fleet\<close>): \<open>build.go\<close> turns the inbounds the 3x-ui panels list
  into subscribers with their proxies, \<open>fleet.go\<close> asks every node's panel and tolerates a partial
  outage. The panel client is a function of the target, the two repositories are their results; an
  error is its text. The loops over nodes, inbounds and client stats are folds over the fleet.
\<close>

section \<open>Building the fleet (build.go)\<close>

record panelSnapshot =
  sn_node :: Node
  sn_inbounds :: "PanelInbound list"

definition empty_fleet :: Fleet where
  "empty_fleet = \<lparr>fl_Subs = Map.empty, fl_ClientsByInbound = Map.empty\<rparr>"

definition findByPort :: "PanelInbound list \<Rightarrow> int \<Rightarrow> PanelInbound option" where
  "findByPort inbounds port = find (\<lambda>p. pi_Port p = port) inbounds"

definition streamToProxy :: "string \<Rightarrow> string \<Rightarrow> int \<Rightarrow> StreamInfo \<Rightarrow> Proxy" where
  "streamToProxy name host port st =
     \<lparr>px_Name = name, px_InboundID = 0,
      px_VLESS = Some
        \<lparr>vl_Server = host, vl_Port = port, vl_UUID = uuid_Nil, vl_Flow = [],
         vl_Network = st_Network st, vl_Security = st_Security st,
         vl_PublicKey = st_PublicKey st, vl_ShortID = st_ShortID st,
         vl_ServerName = st_ServerName st, vl_Fingerprint = st_Fingerprint st,
         vl_SNI = st_SNI st, vl_ALPN = st_ALPN st,
         vl_WSPath = st_WSPath st, vl_WSHost = st_WSHost st, vl_GRPCService = st_GRPCService st\<rparr>,
      px_Hysteria2 = None\<rparr>"

text \<open>
  The set of client emails of an inbound: created when the key is absent, then every email of the
  panel inbound (when there is one) is added.
\<close>

definition observe_clients :: "int \<Rightarrow> PanelInbound option \<Rightarrow> Fleet \<Rightarrow> Fleet" where
  "observe_clients i pi fl =
     (let seen = (case fl_ClientsByInbound fl i of None \<Rightarrow> {} | Some s \<Rightarrow> s);
          emails = (case pi of None \<Rightarrow> {} | Some p \<Rightarrow> pc_Email ` set (pi_Clients p))
      in fl\<lparr>fl_ClientsByInbound := (fl_ClientsByInbound fl)(i \<mapsto> seen \<union> emails)\<rparr>)"

text \<open>Reading a missing key of a Go map of strings gives the empty string.\<close>

definition flowByEmail :: "PanelClient list \<Rightarrow> string \<Rightarrow> string" where
  "flowByEmail clients email =
     (case fill_map pc_Email pc_Flow clients email of None \<Rightarrow> [] | Some f \<Rightarrow> f)"

definition sub_or_new :: "Fleet \<Rightarrow> string \<Rightarrow> Subscriber" where
  "sub_or_new fl subID = (case fl_Subs fl subID of None \<Rightarrow> new_subscriber subID | Some s \<Rightarrow> s)"

definition put_sub :: "Subscriber \<Rightarrow> Fleet \<Rightarrow> Fleet" where
  "put_sub s fl = fl\<lparr>fl_Subs := (fl_Subs fl)(sb_SubID s \<mapsto> s)\<rparr>"

text \<open>
  The copy of the VLESS template with the client's credentials. The template streamToProxy returns
  always has the VLESS variant, so the dereference \<open>*base.VLESS\<close> of the code never meets nil.
\<close>

definition client_proxy :: "Proxy \<Rightarrow> (string \<Rightarrow> string) \<Rightarrow> PanelClientStat \<Rightarrow> Proxy" where
  "client_proxy base flows cs =
     \<lparr>px_Name = px_Name base, px_InboundID = px_InboundID base,
      px_VLESS = map_option (\<lambda>v. v\<lparr>vl_UUID := ps_UUID cs, vl_Flow := flows (ps_Email cs)\<rparr>) (px_VLESS base),
      px_Hysteria2 = None\<rparr>"

text \<open>\<open>int64\<close> counters: the sums wrap, the comparisons are signed.\<close>

definition signed_max :: "i64 \<Rightarrow> i64 \<Rightarrow> i64" where
  "signed_max a b = (if sint a < sint b then b else a)"

definition add_grant :: "PanelClientStat \<Rightarrow> Proxy \<Rightarrow> Subscriber \<Rightarrow> Subscriber" where
  "add_grant cs p sub =
     (let sub = AddEmail sub (ps_Email cs);
          sub = sub\<lparr>sb_Proxies := sb_Proxies sub @ [p], sb_Up := sb_Up sub + ps_Up cs,
                    sb_Down := sb_Down sub + ps_Down cs\<rparr>
      in sub\<lparr>sb_Total := signed_max (sb_Total sub) (ps_Total cs),
             sb_Expiry := signed_max (sb_Expiry sub) (ps_Expiry cs)\<rparr>)"

definition add_stat :: "Proxy \<Rightarrow> (string \<Rightarrow> string) \<Rightarrow> PanelClientStat \<Rightarrow> Fleet \<Rightarrow> Fleet" where
  "add_stat base flows cs fl =
     (if \<not> ps_Enable cs \<or> ps_SubID cs = [] then fl
      else put_sub (add_grant cs (client_proxy base flows cs) (sub_or_new fl (ps_SubID cs))) fl)"

definition inbound_base :: "Node \<Rightarrow> Inbound \<Rightarrow> PanelInbound \<Rightarrow> Proxy" where
  "inbound_base n cfg pi =
     (streamToProxy (InboundLabel n cfg) (nd_VPNHost n) (pi_Port pi) (pi_Stream pi))\<lparr>px_InboundID := in_ID cfg\<rparr>"

definition add_inbound :: "panelSnapshot \<Rightarrow> Inbound \<Rightarrow> Fleet \<Rightarrow> Fleet" where
  "add_inbound s cfg fl =
     (let found = findByPort (sn_inbounds s) (in_Port cfg);
          fl = observe_clients (in_ID cfg) found fl
      in case found of
           None \<Rightarrow> fl
         | Some pi \<Rightarrow>
             if \<not> pi_Enable pi then fl
             else fold (add_stat (inbound_base (sn_node s) cfg pi) (flowByEmail (pi_Clients pi))) (pi_Stats pi) fl)"

definition add_snapshot :: "panelSnapshot \<Rightarrow> Fleet \<Rightarrow> Fleet" where
  "add_snapshot s = fold (add_inbound s) (nd_Inbounds (sn_node s))"

definition buildFleet :: "panelSnapshot list \<Rightarrow> Fleet" where
  "buildFleet snaps = fold add_snapshot snaps empty_fleet"

section \<open>Static hysteria2 inbounds\<close>

definition hysteria2Proxy :: "Node \<Rightarrow> Inbound \<Rightarrow> Hysteria2Settings \<Rightarrow> Proxy" where
  "hysteria2Proxy n i h =
     \<lparr>px_Name = InboundLabel n i, px_InboundID = in_ID i, px_VLESS = None,
      px_Hysteria2 = Some
        \<lparr>hy_Server = nd_VPNHost n, hy_Port = in_Port i, hy_Password = hs_Password h,
         hy_Obfs = hs_Obfs h, hy_ObfsPassword = hs_ObfsPassword h,
         hy_SNI = (if hs_SNI h = [] then nd_VPNHost n else hs_SNI h), hy_Up = hs_Up h, hy_Down = hs_Down h\<rparr>\<rparr>"

definition add_static :: "Proxy \<Rightarrow> string \<Rightarrow> Fleet \<Rightarrow> Fleet" where
  "add_static p subID fl =
     (let sub = sub_or_new fl subID
      in fl\<lparr>fl_Subs := (fl_Subs fl)(subID \<mapsto> sub\<lparr>sb_Proxies := sb_Proxies sub @ [p]\<rparr>)\<rparr>)"

definition add_static_inbound :: "(int \<rightharpoonup> string list) \<Rightarrow> Node \<Rightarrow> Inbound \<Rightarrow> Fleet \<Rightarrow> Fleet" where
  "add_static_inbound subsByInbound n i fl =
     (if \<not> IsHysteria2 i then fl
      else case in_Hysteria2 i of
             None \<Rightarrow> fl
           | Some h \<Rightarrow>
               fold (add_static (hysteria2Proxy n i h))
                 (case subsByInbound (in_ID i) of None \<Rightarrow> [] | Some ss \<Rightarrow> ss) fl)"

definition addHysteria2Inbounds :: "Node list \<Rightarrow> (int \<rightharpoonup> string list) \<Rightarrow> Fleet \<Rightarrow> Fleet" where
  "addHysteria2Inbounds nodes subsByInbound =
     fold (\<lambda>n. fold (add_static_inbound subsByInbound n) (nd_Inbounds n)) nodes"

section \<open>Asking the panels (fleet.go)\<close>

type_synonym list_inbounds = "PanelTarget \<Rightarrow> string + PanelInbound list"

definition target :: "Node \<Rightarrow> PanelTarget" where
  "target n = \<lparr>pt_BaseURL = nd_PanelBaseURL n, pt_BasePath = nd_PanelBasePath n, pt_Token = nd_Token n\<rparr>"

text \<open>The snapshots of the panels that answered and the error texts of the others.\<close>

fun fetch_snaps :: "list_inbounds \<Rightarrow> Node list \<Rightarrow> panelSnapshot list \<times> string list" where
  "fetch_snaps client [] = ([], [])"
| "fetch_snaps client (n # ns) =
     (let (snaps, errs) = fetch_snaps client ns
      in case client (target n) of
           Inl e \<Rightarrow> (snaps, (nd_Name n @ '': '' @ e) # errs)
         | Inr inbs \<Rightarrow> (\<lparr>sn_node = n, sn_inbounds = inbs\<rparr> # snaps, errs))"

definition fetch ::
    "list_inbounds \<Rightarrow> string + Node list \<Rightarrow> string + (int \<rightharpoonup> string list) \<Rightarrow> string + Fleet" where
  "fetch client listed subscribers =
     (case listed of
        Inl e \<Rightarrow> Inl (''nodes.List: '' @ e)
      | Inr nodes \<Rightarrow>
          (let (snaps, errs) = fetch_snaps client nodes
           in if snaps = [] \<and> errs \<noteq> [] then Inl (''all panels failed: '' @ Join errs ''; '')
              else case subscribers of
                     Inl e \<Rightarrow> Inl (''conns.InboundSubscribers: '' @ e)
                   | Inr subs \<Rightarrow> Inr (addHysteria2Inbounds nodes subs (buildFleet snaps))))"

text \<open>The service over the two repositories of one database, whose reads succeed.\<close>

definition live_fleet :: "decode \<Rightarrow> list_inbounds \<Rightarrow> db \<Rightarrow> string + Fleet" where
  "live_fleet dec client db = fetch client (Inr (ListNodes dec db)) (Inr (InboundSubscribers db))"

end
