(* ===== verification/Provisioning.thy ===== *)
theory Provisioning
  imports Fleet
begin

text \<open>
  The provisioning service (\<open>internal/service/provisioning/service.go\<close>): it creates, edits, deletes
  and recreates users and reconciles the clients on the 3x-ui panels.

  The panels are an environment: what a call returns may depend on every call made before, so the
  panel client is three functions of the history of calls, and the service extends the history. An
  error of a call is its text. The state of the service is the database and that history. A random
  uuid is a function of the history at the point where it is minted, the random bytes of a
  subscription id, the clock and the order of a map range are arguments.
\<close>

section \<open>The panels as an environment\<close>

datatype panel_call =
    ListCall PanelTarget
  | AddCall PanelTarget "int list" ClientSpec
  | DelCall PanelTarget string

record panels =
  pn_list :: "panel_call list \<Rightarrow> PanelTarget \<Rightarrow> string + PanelInbound list"
  pn_add :: "panel_call list \<Rightarrow> PanelTarget \<Rightarrow> int list \<Rightarrow> ClientSpec \<Rightarrow> string option"
  pn_del :: "panel_call list \<Rightarrow> PanelTarget \<Rightarrow> string \<Rightarrow> string option"

record prov_state =
  pv_db :: db
  pv_calls :: "panel_call list"

datatype prov_error =
    Entity entity_error
  | Store string repo_error
  | NoSuchUser
  | Panel string

section \<open>Validation\<close>

definition name_char :: "char \<Rightarrow> bool" where
  "name_char c \<longleftrightarrow> is_lower c \<or> is_digit c \<or> c = CHR ''_'' \<or> c = CHR ''-''"

text \<open>The regular expression \<open>^[a-z0-9_-]{1,32}$\<close>.\<close>

definition nameRe :: "string \<Rightarrow> bool" where
  "nameRe s \<longleftrightarrow> 1 \<le> length s \<and> length s \<le> 32 \<and> (\<forall>c \<in> set s. name_char c)"

definition validateName :: "string \<Rightarrow> entity_error + string" where
  "validateName name =
     (let name = ToLower (TrimSpace name) in if nameRe name then Inr name else Inl ErrInvalidUserName)"

definition maxDescriptionLen :: nat where "maxDescriptionLen = 500"

definition validateDescription :: "string option \<Rightarrow> entity_error + string option" where
  "validateDescription d =
     (case d of
        None \<Rightarrow> Inr None
      | Some s \<Rightarrow>
          let t = TrimSpace s
          in if t = [] then Inr None
             else if maxDescriptionLen < RuneCount t then Inl ErrDescriptionTooLong else Inr (Some t))"

definition al :: string where "al = ''abcdefghijklmnopqrstuvwxyz0123456789''"

text \<open>\<open>bytes\<close> are the random bytes read; the code reads as many as it wants characters.\<close>

definition randID :: "char list \<Rightarrow> string" where
  "randID bytes = map (\<lambda>b. al ! (of_char b mod length al)) bytes"

section \<open>Targets\<close>

record connTarget =
  ct_NodeID :: int
  ct_Node :: string
  ct_Port :: int
  ct_InboundID :: int
  ct_Kind :: string

record inboundRef =
  rf_node :: Node
  rf_in :: Inbound

text \<open>The two maps nodeIndex fills in one loop over the registry.\<close>

definition node_index :: "Node list \<Rightarrow> int \<rightharpoonup> Node" where
  "node_index nodes = fill_map nd_ID (\<lambda>n. n) nodes"

definition inbound_index :: "Node list \<Rightarrow> int \<rightharpoonup> inboundRef" where
  "inbound_index nodes =
     fill_map (\<lambda>r. in_ID (rf_in r)) (\<lambda>r. r)
       (concat (map (\<lambda>n. map (\<lambda>i. \<lparr>rf_node = n, rf_in = i\<rparr>) (nd_Inbounds n)) nodes))"

definition ref_target :: "inboundRef \<Rightarrow> connTarget" where
  "ref_target r =
     \<lparr>ct_NodeID = nd_ID (rf_node r), ct_Node = nd_Name (rf_node r), ct_Port = in_Port (rf_in r),
      ct_InboundID = in_ID (rf_in r), ct_Kind = in_Kind (rf_in r)\<rparr>"

fun desired_loop :: "(int \<rightharpoonup> inboundRef) \<Rightarrow> int set \<Rightarrow> int list \<Rightarrow> entity_error + connTarget list" where
  "desired_loop byID seen [] = Inr []"
| "desired_loop byID seen (i # is) =
     (if i \<in> seen then desired_loop byID seen is
      else case byID i of
             None \<Rightarrow> Inl ErrInboundNotFound
           | Some r \<Rightarrow> bind_err (desired_loop byID (insert i seen) is) (\<lambda>ts. Inr (ref_target r # ts)))"

definition desiredTargets :: "(int \<rightharpoonup> inboundRef) \<Rightarrow> int list \<Rightarrow> entity_error + connTarget list" where
  "desiredTargets byID ids = desired_loop byID {} ids"

definition nodeIDs :: "connTarget list \<Rightarrow> int list" where
  "nodeIDs ts = dedup {} (map ct_NodeID ts)"

definition connNodeIDs :: "Connection list \<Rightarrow> int list" where
  "connNodeIDs cs = dedup {} (map cn_NodeID cs)"

definition addedNodeIDs :: "Connection list \<Rightarrow> connTarget list \<Rightarrow> int list" where
  "addedNodeIDs old desired = dedup (cn_NodeID ` set old) (map ct_NodeID desired)"

definition connInboundIDs :: "Connection list \<Rightarrow> int list" where
  "connInboundIDs cs = map cn_InboundID cs"

definition targetInboundIDs :: "connTarget list \<Rightarrow> int list" where
  "targetInboundIDs ts = map ct_InboundID ts"

text \<open>Counting up for one list and down for the other; a missing key of the map counts 0.\<close>

definition sameInboundIDs :: "int list \<Rightarrow> int list \<Rightarrow> bool" where
  "sameInboundIDs a b \<longleftrightarrow>
     length a = length b \<and>
     (let m = fold (\<lambda>x m. m(x := m x + 1)) a (\<lambda>_. 0 :: int);
          m = fold (\<lambda>x m. m(x := m x - 1)) b m
      in \<forall>x \<in> set (a @ b). m x = 0)"

section \<open>Reading a panel\<close>

definition idByPort :: "PanelInbound list \<Rightarrow> int \<rightharpoonup> int" where
  "idByPort inbs = fill_map pi_Port pi_ID inbs"

definition uuidByEmail :: "PanelInbound list \<Rightarrow> string \<rightharpoonup> UUID" where
  "uuidByEmail inbs =
     fill_map pc_Email pc_UUID (filter (\<lambda>c. pc_UUID c \<noteq> uuid_Nil) (concat (map pi_Clients inbs)))"

definition panelLookup ::
    "panels \<Rightarrow> panel_call list \<Rightarrow> PanelTarget \<Rightarrow> string + ((int \<rightharpoonup> int) \<times> (string \<rightharpoonup> UUID))" where
  "panelLookup pn h t =
     bind_err (pn_list pn h t) (\<lambda>inbs. Inr (idByPort inbs, uuidByEmail inbs))"

definition emailExistsOnPanel ::
    "panels \<Rightarrow> panel_call list \<Rightarrow> PanelTarget \<Rightarrow> string \<Rightarrow> string + bool" where
  "emailExistsOnPanel pn h t email =
     bind_err (pn_list pn h t) (\<lambda>inbs. Inr (\<exists>p \<in> set inbs. \<exists>c \<in> set (pi_Clients p). pc_Email c = email))"

text \<open>Returns the first error and the extended history.\<close>

fun ensureEmailFree ::
    "panels \<Rightarrow> (int \<rightharpoonup> Node) \<Rightarrow> int list \<Rightarrow> string \<Rightarrow> panel_call list \<Rightarrow> prov_error option \<times> panel_call list" where
  "ensureEmailFree pn byID [] email h = (None, h)"
| "ensureEmailFree pn byID (nid # nids) email h =
     (case byID nid of
        None \<Rightarrow> (Some (Entity ErrNodeNotFound), h)
      | Some n \<Rightarrow>
          (let h' = h @ [ListCall (target n)]
           in (case emailExistsOnPanel pn h (target n) email of
                 Inl e \<Rightarrow> (Some (Panel (''ensureEmailFree '' @ nd_Name n @ '': '' @ e)), h')
               | Inr taken \<Rightarrow>
                   if taken then (Some (Entity (PanelClientExistsError (nd_Name n))), h')
                   else ensureEmailFree pn byID nids email h')))"

section \<open>Reconciling the panels\<close>

definition is_static :: "string \<Rightarrow> bool" where "is_static kind \<longleftrightarrow> kind = InboundKindHysteria2"

definition desired_on :: "connTarget list \<Rightarrow> int \<Rightarrow> connTarget list" where
  "desired_on desired nid = filter (\<lambda>t. \<not> is_static (ct_Kind t) \<and> ct_NodeID t = nid) desired"

definition old_on :: "Connection list \<Rightarrow> int \<Rightarrow> Connection list" where
  "old_on old nid = filter (\<lambda>c. \<not> is_static (cn_Kind c) \<and> cn_NodeID c = nid) old"

definition touched :: "Connection list \<Rightarrow> connTarget list \<Rightarrow> int list" where
  "touched old desired =
     dedup {} (map ct_NodeID (filter (\<lambda>t. \<not> is_static (ct_Kind t)) desired) @
               map cn_NodeID (filter (\<lambda>c. \<not> is_static (cn_Kind c)) old))"

text \<open>The panel inbound ids of the wanted ports; the failure names the first missing port.\<close>

fun port_ids :: "string \<Rightarrow> (int \<rightharpoonup> int) \<Rightarrow> connTarget list \<Rightarrow> string + int list" where
  "port_ids name ids [] = Inr []"
| "port_ids name ids (w # ws) =
     (case ids (ct_Port w) of
        None \<Rightarrow> Inl (name @ '': no inbound on port '' @ Itoa (ct_Port w))
      | Some i \<Rightarrow> bind_err (port_ids name ids ws) (\<lambda>is. Inr (i # is)))"

text \<open>The part of the loop body after the checks: list the panel, drop our own client, add the new one.\<close>

definition rebind ::
    "panels \<Rightarrow> (panel_call list \<Rightarrow> UUID) \<Rightarrow> Node \<Rightarrow> User \<Rightarrow> connTarget list \<Rightarrow> bool \<Rightarrow>
     panel_call list \<times> string list \<Rightarrow> panel_call list \<times> string list" where
  "rebind pn genUUID n u want owned st =
     (let (h, failures) = st; t = target n; h' = h @ [ListCall t]
      in case panelLookup pn h t of
           Inl e \<Rightarrow> (h', failures @ [nd_Name n @ '': ListInbounds: '' @ e])
         | Inr (ids, uuids) \<Rightarrow>
             let cid = genUUID h';
                 cid = (if owned then (case uuids (us_Name u) of Some existing \<Rightarrow> existing | None \<Rightarrow> cid) else cid);
                 h' = (if owned then h' @ [DelCall t (us_Name u)] else h')
             in (case port_ids (nd_Name n) ids want of
                  Inl e \<Rightarrow> (h', failures @ [e])
                | Inr is \<Rightarrow>
                    let cs = \<lparr>cs_ID = cid, cs_Email = us_Name u, cs_Flow = [], cs_SubID = us_SubID u\<rparr>
                    in (h' @ [AddCall t is cs],
                        case pn_add pn h' t is cs of
                          None \<Rightarrow> failures
                        | Some e \<Rightarrow> failures @ [nd_Name n @ '': AddClient: '' @ e])))"

definition sync_node ::
    "panels \<Rightarrow> (panel_call list \<Rightarrow> UUID) \<Rightarrow> (int \<rightharpoonup> Node) \<Rightarrow> User \<Rightarrow> Connection list \<Rightarrow> connTarget list \<Rightarrow>
     bool \<Rightarrow> int \<Rightarrow> panel_call list \<times> string list \<Rightarrow> panel_call list \<times> string list" where
  "sync_node pn genUUID byID u old desired forceAll nid st =
     (let (h, failures) = st; want = desired_on desired nid; had = old_on old nid
      in case byID nid of
           None \<Rightarrow>
             (h, if want \<noteq> [] then failures @ [''node '' @ Itoa nid @ '': not in registry''] else failures)
         | Some n \<Rightarrow>
             if want = [] then
               (h @ [DelCall (target n) (us_Name u)],
                case pn_del pn h (target n) (us_Name u) of
                  None \<Rightarrow> failures
                | Some e \<Rightarrow> failures @ [nd_Name n @ '': DelClient: '' @ e])
             else if \<not> forceAll \<and> sameInboundIDs (connInboundIDs had) (targetInboundIDs want) then (h, failures)
             else rebind pn genUUID n u want (had \<noteq> [] \<or> forceAll) (h, failures))"

definition syncPanels ::
    "panels \<Rightarrow> (panel_call list \<Rightarrow> UUID) \<Rightarrow> (int list \<Rightarrow> int list) \<Rightarrow> (int \<rightharpoonup> Node) \<Rightarrow> User \<Rightarrow>
     Connection list \<Rightarrow> connTarget list \<Rightarrow> bool \<Rightarrow> panel_call list \<Rightarrow> prov_error option \<times> panel_call list" where
  "syncPanels pn genUUID ord byID u old desired forceAll h =
     (let (h', failures) =
        fold (sync_node pn genUUID byID u old desired forceAll) (ord (touched old desired)) (h, [])
      in (if failures = [] then None else Some (Panel (Join failures ''; '')), h'))"

section \<open>The operations\<close>

text \<open>What the operations get from outside: the panels, randomness, the map order and the clock.\<close>

record prov_env =
  en_panels :: panels
  en_genUUID :: "panel_call list \<Rightarrow> UUID"
  en_bytes :: "char list"
  en_ord :: "int list \<Rightarrow> int list"
  en_now :: int
  en_dec :: decode

definition lift_entity :: "entity_error + 'a \<Rightarrow> prov_error + 'a" where
  "lift_entity r = (case r of Inl e \<Rightarrow> Inl (Entity e) | Inr x \<Rightarrow> Inr x)"

text \<open>The checks of CreateUser before anything is stored: the new user, its targets and the history.\<close>

definition create_checks ::
    "prov_env \<Rightarrow> UserCreateParams \<Rightarrow> prov_state \<Rightarrow>
     (prov_error + (User \<times> connTarget list)) \<times> panel_call list" where
  "create_checks en p st =
     (let nodes = ListNodes (en_dec en) (pv_db st); h = pv_calls st
      in case lift_entity (bind_err (validateName (uc_Name p)) (\<lambda>name.
                if uc_InboundIDs p = [] then Inl ErrNoConnectionSelected
                else bind_err (validateDescription (uc_Description p)) (\<lambda>desc.
                     bind_err (desiredTargets (inbound_index nodes) (uc_InboundIDs p)) (\<lambda>ts.
                     Inr (name, desc, ts))))) of
           Inl e \<Rightarrow> (Inl e, h)
         | Inr (name, desc, ts) \<Rightarrow>
             (case ensureEmailFree (en_panels en) (node_index nodes) (nodeIDs ts) name h of
                (Some e, h') \<Rightarrow> (Inl e, h')
              | (None, h') \<Rightarrow>
                  (Inr (\<lparr>us_ID = 0, us_Name = name, us_SubID = randID (take 16 (en_bytes en)),
                         us_Description = desc, us_CreatedAt = 0,
                         us_Connections = map (\<lambda>t. \<lparr>cn_ID = 0, cn_UserID = 0, cn_InboundID = ct_InboundID t,
                            cn_CreatedAt = 0, cn_NodeID = 0, cn_Node = [], cn_Name = [], cn_Port = 0,
                            cn_Kind = []\<rparr>) ts\<rparr>, ts), h')))"

text \<open>The user (when one was stored), the error (when there was one), and the new state.\<close>

definition CreateUser ::
    "prov_env \<Rightarrow> UserCreateParams \<Rightarrow> prov_state \<Rightarrow> User option \<times> prov_error option \<times> prov_state" where
  "CreateUser en p st =
     (case create_checks en p st of
        (Inl e, h) \<Rightarrow> (None, Some e, st\<lparr>pv_calls := h\<rparr>)
      | (Inr (u, ts), h) \<Rightarrow>
          (case CreateUserRow (en_now en) u (pv_db st) of
             (Inl e, db') \<Rightarrow> (None, Some (Store ''users.Create'' e), \<lparr>pv_db = db', pv_calls = h\<rparr>)
           | (Inr u', db') \<Rightarrow>
               let (err, h') = syncPanels (en_panels en) (en_genUUID en) (en_ord en)
                     (node_index (ListNodes (en_dec en) (pv_db st))) u' [] ts False h
               in (Some u', err, \<lparr>pv_db = db', pv_calls = h'\<rparr>)))"

definition edit_checks ::
    "prov_env \<Rightarrow> UserEditParams \<Rightarrow> prov_state \<Rightarrow>
     (prov_error + (User \<times> string option \<times> connTarget list)) \<times> panel_call list" where
  "edit_checks en p st =
     (let nodes = ListNodes (en_dec en) (pv_db st); h = pv_calls st
      in if ue_InboundIDs p = [] then (Inl (Entity ErrNoConnectionSelected), h)
         else case validateDescription (ue_Description p) of
           Inl e \<Rightarrow> (Inl (Entity e), h)
         | Inr desc \<Rightarrow>
             (case GetUser (ue_ID p) (pv_db st) of
                None \<Rightarrow> (Inl NoSuchUser, h)
              | Some u \<Rightarrow>
                  (case desiredTargets (inbound_index nodes) (ue_InboundIDs p) of
                     Inl e \<Rightarrow> (Inl (Entity e), h)
                   | Inr desired \<Rightarrow>
                       (case ensureEmailFree (en_panels en) (node_index nodes)
                               (addedNodeIDs (us_Connections u) desired) (us_Name u) h of
                          (Some e, h') \<Rightarrow> (Inl e, h')
                        | (None, h') \<Rightarrow> (Inr (u, desc, desired), h')))))"

definition EditUser :: "prov_env \<Rightarrow> UserEditParams \<Rightarrow> prov_state \<Rightarrow> prov_error option \<times> prov_state" where
  "EditUser en p st =
     (case edit_checks en p st of
        (Inl e, h) \<Rightarrow> (Some e, st\<lparr>pv_calls := h\<rparr>)
      | (Inr (u, desc, desired), h) \<Rightarrow>
          (case ReplaceConnections (en_ord en) (en_now en) (us_ID u) (targetInboundIDs desired) (pv_db st) of
             (Inl e, db') \<Rightarrow> (Some (Store ''users.ReplaceConnections'' e), \<lparr>pv_db = db', pv_calls = h\<rparr>)
           | (Inr _, db') \<Rightarrow>
               (case SetDescription (us_ID u) desc db' of
                  (Inl e, db'') \<Rightarrow> (Some (Store ''users.SetDescription'' e), \<lparr>pv_db = db'', pv_calls = h\<rparr>)
                | (Inr _, db'') \<Rightarrow>
                    let (err, h') = syncPanels (en_panels en) (en_genUUID en) (en_ord en)
                          (node_index (ListNodes (en_dec en) (pv_db st))) u (us_Connections u) desired False h
                    in (err, \<lparr>pv_db = db'', pv_calls = h'\<rparr>))))"

text \<open>Deleting from the panels is best effort: the results of the calls are ignored.\<close>

definition drop_clients :: "(int \<rightharpoonup> Node) \<Rightarrow> string \<Rightarrow> int list \<Rightarrow> panel_call list \<Rightarrow> panel_call list" where
  "drop_clients byID email nids h =
     fold (\<lambda>nid h. case byID nid of None \<Rightarrow> h | Some n \<Rightarrow> h @ [DelCall (target n) email]) nids h"

definition DeleteUser :: "prov_env \<Rightarrow> int \<Rightarrow> prov_state \<Rightarrow> prov_error option \<times> prov_state" where
  "DeleteUser en i st =
     (case GetUser i (pv_db st) of
        None \<Rightarrow> (Some NoSuchUser, st)
      | Some u \<Rightarrow>
          let h = drop_clients (node_index (ListNodes (en_dec en) (pv_db st))) (us_Name u)
                    (connNodeIDs (us_Connections u)) (pv_calls st)
          in (case DeleteUserRow i (pv_db st) of
                (Inl e, db') \<Rightarrow> (Some (Store ''users.Delete'' e), \<lparr>pv_db = db', pv_calls = h\<rparr>)
              | (Inr _, db') \<Rightarrow> (None, \<lparr>pv_db = db', pv_calls = h\<rparr>)))"

definition conn_target :: "Connection \<Rightarrow> connTarget" where
  "conn_target c =
     \<lparr>ct_NodeID = cn_NodeID c, ct_Node = cn_Node c, ct_Port = cn_Port c,
      ct_InboundID = cn_InboundID c, ct_Kind = cn_Kind c\<rparr>"

definition RecreateUser :: "prov_env \<Rightarrow> int \<Rightarrow> prov_state \<Rightarrow> prov_error option \<times> prov_state" where
  "RecreateUser en i st =
     (case GetUser i (pv_db st) of
        None \<Rightarrow> (Some NoSuchUser, st)
      | Some u \<Rightarrow>
          let (err, h) = syncPanels (en_panels en) (en_genUUID en) (en_ord en)
                (node_index (ListNodes (en_dec en) (pv_db st))) u (us_Connections u)
                (map conn_target (us_Connections u)) True (pv_calls st)
          in (err, st\<lparr>pv_calls := h\<rparr>))"

end
