(* ===== verification/NodesProperties.thy ===== *)
theory NodesProperties
  imports NodesRepo
begin

text \<open>
  The properties of the node registry: creation and reading are a round trip, an update stays
  within its node, deletion is refused exactly while an inbound is in use.
\<close>

section \<open>Inserting inbounds\<close>

definition kept_inbound :: "Inbound \<Rightarrow> bool" where
  "kept_inbound i \<longleftrightarrow> in_Name i \<noteq> [] \<and> in_Port i \<noteq> 0"

lemma duplicate_error_Inr: "duplicate_error e r = Inr db \<longleftrightarrow> r = Inr db"
  by (cases r) (simp_all add: duplicate_error_def)

lemma next_inbound_id_fresh: "r \<in> set (db_inbounds db) \<Longrightarrow> ir_id r < next_inbound_id db"
  using auto_base_ge [of r "db_inbounds db" ir_id "sq_inbounds db"] by (simp add: next_inbound_id_def)

lemma next_node_id_fresh: "r \<in> set (db_nodes db) \<Longrightarrow> no_id r < next_node_id db"
  using auto_base_ge [of r "db_nodes db" no_id "sq_nodes db"] by (simp add: next_node_id_def)

lemma next_ids_pos:
  assumes "positive_ids db"
  shows "0 < next_inbound_id db" "0 < next_node_id db"
  using assms auto_base_nonneg [of "sq_inbounds db" ir_id "db_inbounds db"]
    auto_base_nonneg [of "sq_nodes db" no_id "db_nodes db"]
  by (simp_all add: positive_ids_def next_inbound_id_def next_node_id_def)

lemma insert_inbound_positive: "positive_ids db \<Longrightarrow> positive_ids (insert_inbound row db)"
  using next_ids_pos [of db] next_inbound_id_fresh
  by (fastforce simp: positive_ids_def insert_inbound_def set_ir_id_def)

lemma insert_node_positive: "positive_ids db \<Longrightarrow> positive_ids (insert_node row db)"
  using next_ids_pos [of db] next_node_id_fresh
  by (fastforce simp: positive_ids_def insert_node_def set_no_id_def)

text \<open>What a statement on the registry leaves alone.\<close>

definition registry_only :: "db \<Rightarrow> db \<Rightarrow> bool" where
  "registry_only db db' \<longleftrightarrow> routing_same db db' \<and> db_users db' = db_users db \<and> db_conns db' = db_conns db \<and>
     db_configs db' = db_configs db \<and> db_settings db' = db_settings db \<and> db_profiles db' = db_profiles db \<and>
     sq_users db' = sq_users db"

lemma registry_only_refl: "registry_only db db"
  by (simp add: registry_only_def routing_same_def)

lemma registry_only_trans: "registry_only a b \<Longrightarrow> registry_only b c \<Longrightarrow> registry_only a c"
  by (simp add: registry_only_def routing_same_def)

lemma registry_statements:
  "registry_only db (insert_inbound row db)" "registry_only db (insert_node nrow db)"
  "registry_only db (update_inbound enc i n db)" "registry_only db (deleteInboundsExcept i keep db)"
  "registry_only db (update_node_row i node token db)" "registry_only db (delete_node_rows i db)"
  by (simp_all add: registry_only_def routing_same_def insert_inbound_def insert_node_def update_inbound_def
      deleteInboundsExcept_def update_node_row_def delete_node_rows_def split: prod.split)

lemma insertInbounds_Inr:
  assumes "insertInbounds enc nodeID is db = Inr db'"
  shows "(\<exists>rows s. db' = db\<lparr>db_inbounds := db_inbounds db @ rows, sq_inbounds := s\<rparr> \<and>
      map (set_ir_id 0) rows = map (inbound_row_of enc nodeID) (filter kept_inbound is)) \<and>
    registry_only db db' \<and> (constraints_ok db \<longrightarrow> constraints_ok db') \<and> (positive_ids db \<longrightarrow> positive_ids db')"
  using assms
proof (induction "is" arbitrary: db)
  case Nil
  then have "db' = db\<lparr>db_inbounds := db_inbounds db @ [], sq_inbounds := sq_inbounds db\<rparr>" by simp
  then have "\<exists>rows s. db' = db\<lparr>db_inbounds := db_inbounds db @ rows, sq_inbounds := s\<rparr> \<and>
      map (set_ir_id 0) rows = map (inbound_row_of enc nodeID) (filter kept_inbound [])"
    by (intro exI [of _ "[]"] exI [of _ "sq_inbounds db"]) simp
  with Nil registry_only_refl show ?case by simp
next
  case (Cons i "is")
  show ?case
  proof (cases "kept_inbound i")
    case False
    with Cons show ?thesis by (auto simp: kept_inbound_def)
  next
    case True
    let ?d = "insert_inbound (inbound_row_of enc nodeID i) db"
    from True Cons.prems have d: "constraints_ok ?d" "insertInbounds enc nodeID is ?d = Inr db'"
      by (auto simp: kept_inbound_def bind_err_Inr_iff duplicate_error_Inr exec_Inr_iff)
    from Cons.IH [OF d(2)] obtain rows s where r: "db' = ?d\<lparr>db_inbounds := db_inbounds ?d @ rows, sq_inbounds := s\<rparr>"
      "map (set_ir_id 0) rows = map (inbound_row_of enc nodeID) (filter kept_inbound is)"
      and rest: "registry_only ?d db'" "constraints_ok ?d \<longrightarrow> constraints_ok db'" "positive_ids ?d \<longrightarrow> positive_ids db'"
      by blast
    have "db' = db\<lparr>db_inbounds := db_inbounds db @ set_ir_id (next_inbound_id db) (inbound_row_of enc nodeID i) # rows,
        sq_inbounds := s\<rparr>" by (simp add: r(1) insert_inbound_def)
    moreover have "map (set_ir_id 0) (set_ir_id (next_inbound_id db) (inbound_row_of enc nodeID i) # rows) =
        map (inbound_row_of enc nodeID) (filter kept_inbound (i # is))"
      using True r(2) by (simp add: set_ir_id_def inbound_row_of_def split: prod.split)
    ultimately show ?thesis
      using rest d(1) registry_only_trans [OF registry_statements(1) rest(1)] insert_inbound_positive by blast
  qed
qed

lemma registry_inv:
  assumes "registry_only db db'" and "constraints_ok db'" and "positive_ids db'" and "store_inv db"
  shows "store_inv db'"
  using db_inv_routing_same [of db db'] assms by (simp add: registry_only_def store_inv_def)

lemma create_node_tx_Inr:
  assumes "create_node_tx enc now n db = Inr (i, db')"
  shows "i = next_node_id db \<and> registry_only db db' \<and> constraints_ok db' \<and> (positive_ids db \<longrightarrow> positive_ids db') \<and>
    db_nodes db' = db_nodes db @ [\<lparr>no_id = i, no_name = nd_Name n, no_vpn_host = nd_VPNHost n,
      no_base_url = nd_PanelBaseURL n, no_base_path = nd_PanelBasePath n, no_token = nd_Token n, no_created = now\<rparr>] \<and>
    (\<exists>rows. db_inbounds db' = db_inbounds db @ rows \<and>
       map (set_ir_id 0) rows = map (inbound_row_of enc i) (filter kept_inbound (nd_Inbounds n)))"
proof -
  let ?row = "\<lparr>no_id = 0, no_name = nd_Name n, no_vpn_host = nd_VPNHost n, no_base_url = nd_PanelBaseURL n,
                 no_base_path = nd_PanelBasePath n, no_token = nd_Token n, no_created = now\<rparr>"
  from assms have d: "constraints_ok (insert_node ?row db)" "i = next_node_id db"
    "insertInbounds enc (next_node_id db) (nd_Inbounds n) (insert_node ?row db) = Inr db'"
    by (auto simp: create_node_tx_def Let_def bind_err_Inr_iff duplicate_error_Inr exec_Inr_iff)
  note r = insertInbounds_Inr [OF d(3)]
  have "registry_only db db'" using registry_only_trans [OF registry_statements(2)] r by blast
  moreover have "positive_ids db \<longrightarrow> positive_ids db'" using r insert_node_positive by blast
  ultimately show ?thesis
    using r d(1,2) by (auto simp: insert_node_def set_no_id_def)
qed

lemma CreateNode_inv:
  assumes "store_inv db"
  shows "store_inv (snd (CreateNode enc now n db))"
proof (cases "nd_Token n = [] \<or> (\<exists>e. create_node_tx enc now n db = Inl e)")
  case True
  with assms show ?thesis by (auto simp: CreateNode_def in_tx_def)
next
  case False
  then obtain i db' where "create_node_tx enc now n db = Inr (i, db')"
    by (cases "create_node_tx enc now n db") auto
  with create_node_tx_Inr [OF this] False assms registry_inv [of db db'] show ?thesis
    by (simp add: CreateNode_def in_tx_def store_inv_def)
qed

section \<open>Deleting a node\<close>

text \<open>An inbound of the node is used by a connection, a group member or a rule target.\<close>

definition inbound_used :: "db \<Rightarrow> int \<Rightarrow> bool" where
  "inbound_used db i \<longleftrightarrow> i \<in> cr_inbound ` set (db_conns db) \<or> Some i \<in> mr_inbound ` set (db_members db) \<or>
     Some i \<in> rl_inbound ` set (db_rules db)"

definition node_used :: "int \<Rightarrow> db \<Rightarrow> bool" where
  "node_used i db \<longleftrightarrow> (\<exists>r \<in> set (db_inbounds db). ir_node r = i \<and> inbound_used db (ir_id r))"

lemma delete_node_fk:
  assumes ok: "constraints_ok db"
  shows "fk_ok (delete_node_rows i db) \<longleftrightarrow> \<not> node_used i db"
proof -
  have d: "distinct (map ir_id (db_inbounds db))" using ok by (simp add: constraint_defs)
  have kept: "j \<in> ir_id ` {r \<in> set (db_inbounds db). ir_node r \<noteq> i} \<longleftrightarrow>
      \<not> (\<exists>r \<in> set (db_inbounds db). ir_node r = i \<and> ir_id r = j)" if "j \<in> ir_id ` set (db_inbounds db)" for j
    using that by (auto dest: distinct_map_eq [OF d])
  have conns: "(\<forall>c \<in> set (db_conns db). cr_inbound c \<in> ir_id ` {r \<in> set (db_inbounds db). ir_node r \<noteq> i}) \<longleftrightarrow>
      \<not> (\<exists>r \<in> set (db_inbounds db). ir_node r = i \<and> ir_id r \<in> cr_inbound ` set (db_conns db))"
    using ok kept by (auto simp: constraint_defs)
  have refs: "(\<forall>x \<in> set xs. ref_in (ref x) (map ir_id (filter (\<lambda>r. ir_node r \<noteq> i) (db_inbounds db)))) \<longleftrightarrow>
      \<not> (\<exists>r \<in> set (db_inbounds db). ir_node r = i \<and> Some (ir_id r) \<in> ref ` set xs)"
    if "\<forall>x \<in> set xs. ref_in (ref x) (map ir_id (db_inbounds db))" for xs :: "'x list" and ref
  proof -
    have "ref_in (ref x) (map ir_id (filter (\<lambda>r. ir_node r \<noteq> i) (db_inbounds db))) \<longleftrightarrow>
        \<not> (\<exists>r \<in> set (db_inbounds db). ir_node r = i \<and> Some (ir_id r) = ref x)" if "x \<in> set xs" for x
      using \<open>\<forall>x \<in> set xs. _\<close> that kept by (cases "ref x") (force simp: ref_in_def)+
    then show ?thesis by (auto simp: image_iff)
  qed
  have nodes: "\<forall>r \<in> set (db_inbounds db). ir_node r \<noteq> i \<longrightarrow> ir_node r \<in> no_id ` {n \<in> set (db_nodes db). no_id n \<noteq> i}"
    using ok by (auto simp: constraint_defs)
  have members: "\<forall>m \<in> set (db_members db). ref_in (mr_inbound m) (map ir_id (db_inbounds db))"
    and rules: "\<forall>r \<in> set (db_rules db). ref_in (rl_inbound r) (map ir_id (db_inbounds db))"
    using ok by (simp_all add: constraint_defs)
  let ?left = "map ir_id (filter (\<lambda>r. ir_node r \<noteq> i) (db_inbounds db))"
  have "fk_ok (delete_node_rows i db) \<longleftrightarrow>
      (\<forall>c \<in> set (db_conns db). cr_inbound c \<in> ir_id ` {r \<in> set (db_inbounds db). ir_node r \<noteq> i}) \<and>
      (\<forall>m \<in> set (db_members db). ref_in (mr_inbound m) ?left) \<and> (\<forall>r \<in> set (db_rules db). ref_in (rl_inbound r) ?left)"
    using ok nodes by (auto simp: constraint_defs delete_node_rows_def)
  also have "\<dots> \<longleftrightarrow> \<not> node_used i db"
    unfolding conns refs [OF members] refs [OF rules] node_used_def inbound_used_def by blast
  finally show ?thesis .
qed

lemma exec_delete_node:
  assumes ok: "constraints_ok db"
  shows "exec (delete_node_rows i) db = (if node_used i db then Inl (DBErr ForeignKeyViolation) else Inr (delete_node_rows i db))"
proof -
  have "checks_ok (delete_node_rows i db)" "uniq_ok (delete_node_rows i db)"
    using ok by (simp_all add: constraint_defs delete_node_rows_def distinct_map_filter)
  with delete_node_fk [OF ok] show ?thesis by (simp add: exec_def Let_def)
qed

lemma delete_unknown_node:
  assumes "constraints_ok db" and "i \<notin> no_id ` set (db_nodes db)"
  shows "delete_node_rows i db = db" and "\<not> node_used i db"
proof -
  have "ir_node r \<noteq> i" if "r \<in> set (db_inbounds db)" for r
    using assms that by (auto simp: constraint_defs)
  moreover have "no_id n \<noteq> i" if "n \<in> set (db_nodes db)" for n using assms(2) that by auto
  ultimately show "delete_node_rows i db = db" "\<not> node_used i db"
    by (simp_all add: delete_node_rows_def filter_id_conv node_used_def)
qed

lemma delete_node_positive: "positive_ids db \<Longrightarrow> positive_ids (delete_node_rows i db)"
  by (auto simp: positive_ids_def delete_node_rows_def)

lemma DeleteNode_inv:
  assumes inv: "store_inv db"
  shows "store_inv (snd (DeleteNode i db))"
proof -
  note ok = store_invD(2) [OF inv]
  have "store_inv (delete_node_rows i db)" if "\<not> node_used i db"
    using that exec_delete_node [OF ok, of i] exec_Inr_iff [of "delete_node_rows i" db]
    by (intro registry_inv [OF registry_statements(6) _ _ inv] delete_node_positive store_invD(3) [OF inv]) simp
  with inv show ?thesis by (simp add: DeleteNode_def exec_delete_node [OF ok])
qed

section \<open>Updating a node\<close>

lemma update_positive:
  "positive_ids db \<Longrightarrow> positive_ids (update_inbound enc i n db)"
  "positive_ids db \<Longrightarrow> positive_ids (deleteInboundsExcept i keep db)"
  "positive_ids db \<Longrightarrow> positive_ids (update_node_row i node token db)"
  by (auto simp: positive_ids_def update_inbound_def deleteInboundsExcept_def update_node_row_def split: prod.splits)

text \<open>Rows of other nodes, and the ids of a node's rows.\<close>

definition other_rows :: "int \<Rightarrow> db \<Rightarrow> node_row list \<times> inbound_row list" where
  "other_rows i db = (filter (\<lambda>n. no_id n \<noteq> i) (db_nodes db), filter (\<lambda>r. ir_node r \<noteq> i) (db_inbounds db))"

definition node_inbound_ids :: "int \<Rightarrow> db \<Rightarrow> int set" where
  "node_inbound_ids i db = ir_id ` {r \<in> set (db_inbounds db). ir_node r = i}"

lemma filter_map_other:
  "(\<And>x. P x \<Longrightarrow> f x = x) \<Longrightarrow> (\<And>x. P (f x) \<longleftrightarrow> P x) \<Longrightarrow> filter P (map f xs) = filter P xs"
  by (induction xs) auto

lemma update_inbound_local:
  "other_rows nodeID (update_inbound enc nodeID i db) = other_rows nodeID db"
  "node_inbound_ids nodeID (update_inbound enc nodeID i db) = node_inbound_ids nodeID db"
  "db_nodes (update_inbound enc nodeID i db) = db_nodes db"
proof -
  obtain k s where ks: "inboundKindSettings enc i = (k, s)" by (cases "inboundKindSettings enc i")
  let ?f = "\<lambda>r. if ir_id r = in_ID i \<and> ir_node r = nodeID
      then r\<lparr>ir_name := in_Name i, ir_port := in_Port i, ir_kind := k, ir_settings := s\<rparr> else r"
  have u: "update_inbound enc nodeID i db = db\<lparr>db_inbounds := map ?f (db_inbounds db)\<rparr>"
    by (simp add: update_inbound_def ks)
  show "db_nodes (update_inbound enc nodeID i db) = db_nodes db" by (simp add: u)
  have "filter (\<lambda>r. ir_node r \<noteq> nodeID) (map ?f (db_inbounds db)) = filter (\<lambda>r. ir_node r \<noteq> nodeID) (db_inbounds db)"
    by (rule filter_map_other) auto
  then show "other_rows nodeID (update_inbound enc nodeID i db) = other_rows nodeID db"
    by (simp add: other_rows_def u)
  have "{r \<in> ?f ` set (db_inbounds db). ir_node r = nodeID} = ?f ` {r \<in> set (db_inbounds db). ir_node r = nodeID}"
    by auto
  then have "ir_id ` {r \<in> ?f ` set (db_inbounds db). ir_node r = nodeID} =
      (\<lambda>r. ir_id (?f r)) ` {r \<in> set (db_inbounds db). ir_node r = nodeID}" by (simp only: image_image)
  also have "\<dots> = ir_id ` {r \<in> set (db_inbounds db). ir_node r = nodeID}" by (rule image_cong) simp_all
  finally show "node_inbound_ids nodeID (update_inbound enc nodeID i db) = node_inbound_ids nodeID db"
    by (simp add: node_inbound_ids_def u)
qed

lemma insert_inbound_local:
  assumes "ir_node row = nodeID"
  shows "other_rows nodeID (insert_inbound row db) = other_rows nodeID db"
    and "node_inbound_ids nodeID (insert_inbound row db) = insert (next_inbound_id db) (node_inbound_ids nodeID db)"
    and "db_nodes (insert_inbound row db) = db_nodes db"
proof -
  show "other_rows nodeID (insert_inbound row db) = other_rows nodeID db" "db_nodes (insert_inbound row db) = db_nodes db"
    using assms by (simp_all add: other_rows_def insert_inbound_def set_ir_id_def)
  have "{r \<in> set (db_inbounds (insert_inbound row db)). ir_node r = nodeID} =
      insert (row\<lparr>ir_id := next_inbound_id db\<rparr>) {r \<in> set (db_inbounds db). ir_node r = nodeID}"
    using assms by (auto simp: insert_inbound_def set_ir_id_def)
  then show "node_inbound_ids nodeID (insert_inbound row db) = insert (next_inbound_id db) (node_inbound_ids nodeID db)"
    by (simp add: node_inbound_ids_def)
qed

lemma inbound_row_node [simp]: "ir_node (inbound_row_of enc nodeID i) = nodeID"
  by (simp add: inbound_row_of_def split: prod.split)

lemma next_inbound_id_update: "next_inbound_id (update_inbound enc nodeID i db) = next_inbound_id db"
proof -
  obtain k s where ks: "inboundKindSettings enc i = (k, s)" by (cases "inboundKindSettings enc i")
  have "map ir_id (db_inbounds (update_inbound enc nodeID i db)) = map ir_id (db_inbounds db)"
    by (simp add: update_inbound_def ks)
  moreover have "sq_inbounds (update_inbound enc nodeID i db) = sq_inbounds db" by (simp add: update_inbound_def ks)
  ultimately show ?thesis by (simp only: next_inbound_id_def auto_base_def)
qed

lemma update_inbounds_Inr:
  "update_inbounds enc nodeID is db = Inr db' \<Longrightarrow>
     registry_only db db' \<and> (constraints_ok db \<longrightarrow> constraints_ok db') \<and> (positive_ids db \<longrightarrow> positive_ids db') \<and>
     other_rows nodeID db' = other_rows nodeID db \<and> db_nodes db' = db_nodes db \<and>
     node_inbound_ids nodeID db \<subseteq> node_inbound_ids nodeID db' \<and> next_inbound_id db \<le> next_inbound_id db' \<and>
     (\<forall>j \<in> node_inbound_ids nodeID db' - node_inbound_ids nodeID db. next_inbound_id db \<le> j)"
proof (induction "is" arbitrary: db)
  case (Cons i "is")
  show ?case
  proof (cases "kept_inbound i")
    case False
    with Cons show ?thesis by (auto simp: kept_inbound_def)
  next
    case True
    define d where "d = (if 0 < in_ID i then update_inbound enc nodeID i db
        else insert_inbound (inbound_row_of enc nodeID i) db)"
    have d: "constraints_ok d" "update_inbounds enc nodeID is d = Inr db'"
      using True Cons.prems by (auto simp: d_def kept_inbound_def bind_err_Inr_iff duplicate_error_Inr exec_Inr_iff split: if_splits)
    have step: "registry_only db d" "positive_ids db \<longrightarrow> positive_ids d" "other_rows nodeID d = other_rows nodeID db"
      "db_nodes d = db_nodes db"
      using registry_statements insert_inbound_positive update_positive(1)
      by (simp_all add: d_def update_inbound_local insert_inbound_local)
    have next_le: "next_inbound_id db \<le> next_inbound_id (insert_inbound (inbound_row_of enc nodeID i) db)"
      using next_inbound_id_fresh [of "set_ir_id (next_inbound_id db) (inbound_row_of enc nodeID i)"
          "insert_inbound (inbound_row_of enc nodeID i) db"]
      by (simp add: insert_inbound_def set_ir_id_def)
    have ids: "node_inbound_ids nodeID db \<subseteq> node_inbound_ids nodeID d" "next_inbound_id db \<le> next_inbound_id d"
      "\<forall>j \<in> node_inbound_ids nodeID d - node_inbound_ids nodeID db. next_inbound_id db \<le> j"
      using next_le by (auto simp: d_def update_inbound_local insert_inbound_local next_inbound_id_update)
    note IH = Cons.IH [OF d(2)]
    have "node_inbound_ids nodeID db \<subseteq> node_inbound_ids nodeID db'" using IH ids(1) by blast
    moreover have "\<forall>j \<in> node_inbound_ids nodeID db' - node_inbound_ids nodeID db. next_inbound_id db \<le> j"
      using IH ids(2,3) by (metis Diff_iff order_trans)
    ultimately show ?thesis
      using IH step d(1) ids(2) registry_only_trans [OF step(1)] by (auto intro: order_trans)
  qed
qed (simp add: registry_only_refl)

definition kept_ids :: "Node \<Rightarrow> int set" where
  "kept_ids n = in_ID ` {i \<in> set (nd_Inbounds n). kept_inbound i \<and> 0 < in_ID i}"

lemma delete_except_rows:
  "db_inbounds (deleteInboundsExcept i keep db) =
     filter (\<lambda>r. ir_node r = i \<longrightarrow> ir_id r \<in> set keep) (db_inbounds db)"
  by (auto simp: deleteInboundsExcept_def intro!: filter_cong)

lemma update_node_tx_Inr:
  assumes run: "update_node_tx enc i n token db = Inr ((), db')" and pos: "positive_ids db"
  shows "registry_only db db' \<and> constraints_ok db' \<and> positive_ids db' \<and> other_rows i db' = other_rows i db \<and>
    db_nodes db' = db_nodes (update_node_row i n token db) \<and>
    node_inbound_ids i db' \<inter> node_inbound_ids i db = node_inbound_ids i db \<inter> kept_ids n"
proof -
  let ?keep = "map in_ID (filter (\<lambda>i. in_Name i \<noteq> [] \<and> in_Port i \<noteq> 0 \<and> 0 < in_ID i) (nd_Inbounds n))"
  let ?d1 = "update_node_row i n token db"
  let ?d2 = "deleteInboundsExcept i ?keep ?d1"
  from run have d: "constraints_ok ?d1" "constraints_ok ?d2" "update_inbounds enc i (nd_Inbounds n) ?d2 = Inr db'"
    by (auto simp: update_node_tx_def Let_def bind_err_Inr_iff duplicate_error_Inr exec_Inr_iff split: sum.splits)
  note u = update_inbounds_Inr [OF d(3)]
  have keep: "set ?keep = kept_ids n" by (auto simp: kept_ids_def kept_inbound_def)
  have "filter (\<lambda>r. no_id r \<noteq> i) (db_nodes ?d1) = filter (\<lambda>r. no_id r \<noteq> i) (db_nodes db)"
    unfolding update_node_row_def by simp (rule filter_map_other, auto)
  moreover have "filter (\<lambda>r. ir_node r \<noteq> i) (db_inbounds ?d2) = filter (\<lambda>r. ir_node r \<noteq> i) (db_inbounds db)"
    by (auto simp: deleteInboundsExcept_def update_node_row_def intro!: filter_cong)
  ultimately have others: "other_rows i ?d2 = other_rows i db"
    by (simp add: other_rows_def deleteInboundsExcept_def)
  have old: "node_inbound_ids i ?d2 = node_inbound_ids i db \<inter> kept_ids n"
  proof -
    have "{r \<in> set (db_inbounds ?d2). ir_node r = i} = {r \<in> set (db_inbounds db). ir_node r = i \<and> ir_id r \<in> kept_ids n}"
      unfolding delete_except_rows keep by (auto simp: update_node_row_def)
    then show ?thesis by (auto simp: node_inbound_ids_def)
  qed
  have "j \<le> sq_inbounds db" if "j \<in> node_inbound_ids i db" for j
    using pos that by (auto simp: positive_ids_def node_inbound_ids_def)
  moreover have "sq_inbounds db < next_inbound_id ?d2"
    using fold_max_ge(1) [of "sq_inbounds ?d2"]
    by (simp add: next_inbound_id_def auto_base_def deleteInboundsExcept_def update_node_row_def)
  ultimately have old_less: "j < next_inbound_id ?d2" if "j \<in> node_inbound_ids i db" for j using that by fastforce
  have "node_inbound_ids i ?d2 \<subseteq> node_inbound_ids i db'" using u by blast
  moreover have "j \<in> node_inbound_ids i ?d2" if "j \<in> node_inbound_ids i db'" "j \<in> node_inbound_ids i db" for j
  proof (rule ccontr)
    assume "j \<notin> node_inbound_ids i ?d2"
    with u that(1) have "next_inbound_id ?d2 \<le> j" by blast
    with old_less [OF that(2)] show False by simp
  qed
  ultimately have "node_inbound_ids i db' \<inter> node_inbound_ids i db = node_inbound_ids i db \<inter> kept_ids n"
    unfolding old by blast
  moreover have "positive_ids ?d2" by (intro update_positive pos)
  moreover have "registry_only db db'"
    using registry_only_trans [OF registry_only_trans [OF registry_statements(5) registry_statements(4)]] u by blast
  moreover have "db_nodes ?d2 = db_nodes ?d1" by (simp add: deleteInboundsExcept_def)
  ultimately show ?thesis using u d(2) others by simp
qed

lemma UpdateNode_Inr:
  "UpdateNode enc i n setToken db = (Inr (), db') \<Longrightarrow>
     update_node_tx enc i n (if setToken then Some (nd_Token n) else None) db = Inr ((), db') \<and>
     (setToken \<longrightarrow> nd_Token n \<noteq> [])"
  by (auto simp: UpdateNode_def in_tx_def split: if_splits sum.splits)

lemma UpdateNode_inv:
  assumes inv: "store_inv db"
  shows "store_inv (snd (UpdateNode enc i n setToken db))"
proof (cases "fst (UpdateNode enc i n setToken db)")
  case (Inl e)
  then have "snd (UpdateNode enc i n setToken db) = db"
    by (auto simp: UpdateNode_def in_tx_def split: if_splits sum.splits)
  with inv show ?thesis by simp
next
  case (Inr u)
  then obtain db' where run: "UpdateNode enc i n setToken db = (Inr (), db')"
    by (cases "UpdateNode enc i n setToken db") simp
  note u = update_node_tx_Inr [OF conjunct1 [OF UpdateNode_Inr [OF run]] store_invD(3) [OF inv]]
  have "store_inv db'" by (rule registry_inv [OF _ _ _ inv]) (use u in simp_all)
  then show ?thesis by (simp add: run)
qed

section \<open>Properties\<close>

lemma sort_key_map_f: "(\<And>x. f (g x) = f x) \<Longrightarrow> sort_key f (map g xs) = map g (sort_key f xs)"
  by (simp add: sort_key_map)

text \<open>
  What reading an inbound back gives: the credentials survive for hysteria2 inbounds and are
  dropped for every other kind.
\<close>

definition stored_inbound :: "Inbound \<Rightarrow> Inbound" where
  "stored_inbound i = i\<lparr>in_ID := 0, in_Hysteria2 := (if in_Kind i = InboundKindHysteria2 then in_Hysteria2 i else None)\<rparr>"

lemma map_eq_list_all2: "map f xs = map g ys \<Longrightarrow> list_all2 (\<lambda>x y. f x = g y) xs ys"
proof -
  assume "map f xs = map g ys"
  then have "list_all2 (=) (map f xs) (map g ys)" by (simp add: list.rel_eq)
  then show ?thesis by (simp add: list.rel_map)
qed

lemma list_all2_map_eq: "list_all2 (\<lambda>x y. f x = g y) xs ys \<Longrightarrow> map f xs = map g ys"
  by (induction rule: list_all2_induct) auto

lemma inbound_round_trip:
  assumes "\<And>h. in_Hysteria2 i = Some h \<Longrightarrow> enc h \<noteq> [] \<and> dec (enc h) = Some h"
    and "set_ir_id 0 r = inbound_row_of enc nodeID i"
  shows "(inbound_of_row dec r)\<lparr>in_ID := 0\<rparr> = stored_inbound i"
proof -
  have r: "ir_name r = in_Name i" "ir_port r = in_Port i" "ir_kind r = in_Kind i"
    "ir_settings r = snd (inboundKindSettings enc i)"
    using arg_cong [OF assms(2), of ir_name] arg_cong [OF assms(2), of ir_port] arg_cong [OF assms(2), of ir_kind]
      arg_cong [OF assms(2), of ir_settings]
    by (simp_all add: set_ir_id_def inbound_row_of_def inboundKindSettings_def)
  show ?thesis
    using assms(1)
    by (auto simp: inbound_of_row_def applyKindSettings_def r inboundKindSettings_def stored_inbound_def Let_def
        split: option.splits)
qed

text \<open>A node under a fresh id, its row and its inbounds; and the inbounds as they are read.\<close>

lemma created_node_rows:
  assumes "store_inv db" and "CreateNode enc now n db = (Inr i, db')"
  shows "i \<notin> no_id ` set (db_nodes db)"
    and "find (\<lambda>r. no_id r = i) (db_nodes db') = Some \<lparr>no_id = i, no_name = nd_Name n, no_vpn_host = nd_VPNHost n,
      no_base_url = nd_PanelBaseURL n, no_base_path = nd_PanelBasePath n, no_token = nd_Token n, no_created = now\<rparr>"
    and "map (set_ir_id 0) (filter (\<lambda>r. ir_node r = i) (db_inbounds db')) =
      map (inbound_row_of enc i) (filter kept_inbound (nd_Inbounds n))"
proof -
  from assms(2) have "create_node_tx enc now n db = Inr (i, db')"
    by (auto simp: CreateNode_def in_tx_def split: if_splits sum.splits)
  note c = create_node_tx_Inr [OF this]
  then obtain rows where rows: "db_inbounds db' = db_inbounds db @ rows"
    "map (set_ir_id 0) rows = map (inbound_row_of enc i) (filter kept_inbound (nd_Inbounds n))" by blast
  show fresh: "i \<notin> no_id ` set (db_nodes db)" using c next_node_id_fresh by fastforce
  then have "no_id r \<noteq> i" if "r \<in> set (db_nodes db)" for r using that by auto
  then have "find (\<lambda>r. no_id r = i) (db_nodes db @ rs) = find (\<lambda>r. no_id r = i) rs" for rs
    by (rule find_append_none)
  then show "find (\<lambda>r. no_id r = i) (db_nodes db') = Some \<lparr>no_id = i, no_name = nd_Name n, no_vpn_host = nd_VPNHost n,
      no_base_url = nd_PanelBaseURL n, no_base_path = nd_PanelBasePath n, no_token = nd_Token n, no_created = now\<rparr>"
    using c by auto
  have "ir_node r = i" if "r \<in> set rows" for r
  proof -
    have "set_ir_id 0 r \<in> set (map (inbound_row_of enc i) (filter kept_inbound (nd_Inbounds n)))"
      using that by (simp flip: rows(2))
    then show ?thesis by (auto simp: set_ir_id_def dest!: arg_cong [of _ _ ir_node])
  qed
  moreover have "ir_node r \<noteq> i" if "r \<in> set (db_inbounds db)" for r
    using store_invD(2) [OF assms(1)] fresh that by (auto simp: constraint_defs)
  ultimately show "map (set_ir_id 0) (filter (\<lambda>r. ir_node r = i) (db_inbounds db')) =
      map (inbound_row_of enc i) (filter kept_inbound (nd_Inbounds n))"
    using rows by (simp add: filter_empty_conv filter_id_conv)
qed

lemma inbounds_read_sorted:
  assumes rows: "map (set_ir_id 0) rows = map (inbound_row_of enc i) xs"
    and codec: "\<And>x h. x \<in> set xs \<Longrightarrow> in_Hysteria2 x = Some h \<Longrightarrow> enc h \<noteq> [] \<and> dec (enc h) = Some h"
  shows "map (\<lambda>x. x\<lparr>in_ID := 0\<rparr>) (map (inbound_of_row dec) (sort_key ir_name rows)) = map stored_inbound (sort_key in_Name xs)"
proof -
  have name: "ir_name (inbound_row_of enc i x) = in_Name x" for x by (simp add: inbound_row_of_def inboundKindSettings_def)
  have "map (set_ir_id 0) (sort_key ir_name rows) = sort_key ir_name (map (set_ir_id 0) rows)"
    by (simp add: sort_key_map set_ir_id_def)
  also have "\<dots> = map (inbound_row_of enc i) (sort_key in_Name xs)" by (simp add: rows sort_key_map name)
  finally have "list_all2 (\<lambda>r x. set_ir_id 0 r = inbound_row_of enc i x) (sort_key ir_name rows) (sort_key in_Name xs)"
    by (rule map_eq_list_all2)
  then have "list_all2 (\<lambda>r x. (inbound_of_row dec r)\<lparr>in_ID := 0\<rparr> = stored_inbound x) (sort_key ir_name rows) (sort_key in_Name xs)"
  proof (rule list.rel_mono_strong)
    fix r x
    assume "x \<in> set (sort_key in_Name xs)" and row: "set_ir_id 0 r = inbound_row_of enc i x"
    then have "x \<in> set xs" by simp
    from inbound_round_trip [of x enc dec r i, OF codec [OF this] row]
    show "(inbound_of_row dec r)\<lparr>in_ID := 0\<rparr> = stored_inbound x" .
  qed
  then show ?thesis by (simp only: map_map comp_def list_all2_map_eq)
qed


definition sample_node :: Node where
  "sample_node = \<lparr>nd_ID = 0, nd_Name = ''de'', nd_VPNHost = ''h'', nd_PanelBaseURL = ''u'', nd_PanelBasePath = ''p'',
     nd_Token = ''t'',
     nd_Inbounds = [\<lparr>in_ID = 0, in_Name = ''hy'', in_Port = 443, in_Kind = ''hysteria2'',
         in_Hysteria2 = Some \<lparr>hs_Password = ''pw'', hs_Obfs = [], hs_ObfsPassword = [], hs_SNI = [], hs_Up = [], hs_Down = []\<rparr>\<rparr>,
       \<lparr>in_ID = 0, in_Name = [], in_Port = 80, in_Kind = ''vless'', in_Hysteria2 = None\<rparr>]\<rparr>"

text \<open>A codec that carries the password only.\<close>

definition password_enc :: encode where "password_enc h = ''j'' @ hs_Password h"
definition password_dec :: decode where
  "password_dec s = Some \<lparr>hs_Password = tl s, hs_Obfs = [], hs_ObfsPassword = [], hs_SNI = [], hs_Up = [], hs_Down = []\<rparr>"

lemma sample_node_created: "\<exists>i db'. CreateNode password_enc 1 sample_node sample_db = (Inr i, db')"
  by (simp add: CreateNode_def in_tx_def create_node_tx_def Let_def exec_def checks_ok_def uniq_ok_def fk_ok_def
      duplicate_error_def insert_node_def insert_inbound_def next_node_id_def next_inbound_id_def auto_base_def
      set_no_id_def set_ir_id_def inbound_row_of_def inboundKindSettings_def sample_db_def empty_db_def sample_node_def)


text \<open>
  A node can be deleted exactly when none of its inbounds is in use: Delete answers
  ErrNodeNotFound for an unknown id, ErrInboundReferenced when a connection, group member or rule
  refers to one of its inbounds, and otherwise removes the node with its inbounds and nothing else;
  an error leaves the database as it was, and the store invariant holds after it in any case.
\<close>
theorem delete_node_restricted:
  assumes "store_inv db"
  shows "DeleteNode i db =
     (if node_used i db then (Inl (Domain ErrInboundReferenced), db)
      else if i \<notin> no_id ` set (db_nodes db) then (Inl (Domain ErrNodeNotFound), db)
      else (Inr (), db\<lparr>db_nodes := filter (\<lambda>n. no_id n \<noteq> i) (db_nodes db),
                        db_inbounds := filter (\<lambda>r. ir_node r \<noteq> i) (db_inbounds db)\<rparr>)) \<and>
     store_inv (snd (DeleteNode i db))"
proof -
  note ok = store_invD(2) [OF assms]
  have empty: "filter (\<lambda>n. no_id n = i) (db_nodes db) = [] \<longleftrightarrow> i \<notin> no_id ` set (db_nodes db)"
    by (auto simp: filter_empty_conv)
  show ?thesis
    using DeleteNode_inv [OF assms, of i] delete_unknown_node [OF ok, of i]
    by (simp add: DeleteNode_def exec_delete_node [OF ok] empty IsForeignKeyViolation_def)
      (simp add: delete_node_rows_def)
qed

theorem delete_node_restricted_witness:
  "fst (DeleteNode 4 sample_db) = Inl (Domain ErrNodeNotFound) \<and> fst (DeleteNode 3 sample_db) = Inr ()"
  using delete_node_restricted [OF sample_store_inv, of 4] delete_node_restricted [OF sample_store_inv, of 3]
  by (simp add: node_used_def inbound_used_def) (simp add: sample_db_def empty_db_def)

text \<open>
  An update stays within its node: after a successful Update no row of another node has changed
  (a foreign inbound id in the request touches nothing), of the node's inbounds exactly those the
  request names keep existing under their ids, the stored token survives unless a new one was given,
  and users, connections and configurations are untouched.
\<close>
theorem update_node_local:
  assumes "store_inv db" and "UpdateNode enc i n setToken db = (Inr (), db')"
  shows "other_rows i db' = other_rows i db \<and>
     node_inbound_ids i db' \<inter> node_inbound_ids i db = node_inbound_ids i db \<inter> kept_ids n \<and>
     map no_token (filter (\<lambda>r. no_id r = i) (db_nodes db')) =
       map (\<lambda>r. if setToken then nd_Token n else no_token r) (filter (\<lambda>r. no_id r = i) (db_nodes db)) \<and>
     registry_only db db' \<and> store_inv db'"
proof -
  let ?token = "if setToken then Some (nd_Token n) else None"
  note u = update_node_tx_Inr [OF conjunct1 [OF UpdateNode_Inr [OF assms(2)]] store_invD(3) [OF assms(1)]]
  let ?f = "\<lambda>r. if no_id r = i
          then r\<lparr>no_name := nd_Name n, no_vpn_host := nd_VPNHost n, no_base_url := nd_PanelBaseURL n,
                 no_base_path := nd_PanelBasePath n,
                 no_token := (case ?token of None \<Rightarrow> no_token r | Some t \<Rightarrow> t)\<rparr>
          else r"
  have "map no_token (filter (\<lambda>r. no_id r = i) (map ?f rs)) =
      map (\<lambda>r. if setToken then nd_Token n else no_token r) (filter (\<lambda>r. no_id r = i) rs)" for rs :: "node_row list"
    by (induction rs) auto
  then have "map no_token (filter (\<lambda>r. no_id r = i) (db_nodes db')) =
      map (\<lambda>r. if setToken then nd_Token n else no_token r) (filter (\<lambda>r. no_id r = i) (db_nodes db))"
    using u by (simp only: update_node_row_def) simp
  with u UpdateNode_inv [OF assms(1), of enc i n setToken] assms(2) show ?thesis by simp
qed

theorem update_node_local_witness:
  "\<exists>db'. UpdateNode password_enc 3 (sample_node\<lparr>nd_Name := ''nl''\<rparr>) False sample_db = (Inr (), db') \<and>
     map no_token (filter (\<lambda>r. no_id r = 3) (db_nodes db')) = [''t'']"
proof -
  have "\<exists>db'. UpdateNode password_enc 3 (sample_node\<lparr>nd_Name := ''nl''\<rparr>) False sample_db = (Inr (), db')"
    by (simp add: UpdateNode_def in_tx_def update_node_tx_def Let_def exec_def checks_ok_def uniq_ok_def fk_ok_def
        duplicate_error_def update_node_row_def deleteInboundsExcept_def insert_inbound_def next_inbound_id_def
        auto_base_def set_ir_id_def inbound_row_of_def inboundKindSettings_def sample_db_def empty_db_def sample_node_def)
  then obtain db' where run: "UpdateNode password_enc 3 (sample_node\<lparr>nd_Name := ''nl''\<rparr>) False sample_db = (Inr (), db')" by blast
  from update_node_local [OF sample_store_inv run] run show ?thesis
    by (auto simp: sample_db_def)
qed

text \<open>
  Exchanging the ports of two inbounds of a node in one edit is refused: the requested set has
  distinct names and ports, but Update rewrites the rows one at a time, so the first UPDATE collides
  with the row that still holds the port and the whole edit fails with ErrInboundDuplicate.
\<close>
theorem update_node_swap_refused:
  assumes "store_inv db" and "filter (\<lambda>r. no_id r = i) (db_nodes db) = [row]"
    and "filter (\<lambda>r. ir_node r = i) (db_inbounds db) = [x, y]"
    and "ir_name x \<noteq> []" and "ir_name y \<noteq> []" and "ir_port x \<noteq> 0" and "ir_port y \<noteq> 0"
  shows "UpdateNode enc i ((node_of_row row)\<lparr>nd_Inbounds :=
       [\<lparr>in_ID = ir_id x, in_Name = ir_name x, in_Port = ir_port y, in_Kind = ir_kind x, in_Hysteria2 = None\<rparr>,
        \<lparr>in_ID = ir_id y, in_Name = ir_name y, in_Port = ir_port x, in_Kind = ir_kind y, in_Hysteria2 = None\<rparr>]\<rparr>) False db =
     (Inl (Domain ErrInboundDuplicate), db)"
proof -
  note ok = store_invD(2) [OF assms(1)]
  let ?x = "\<lparr>in_ID = ir_id x, in_Name = ir_name x, in_Port = ir_port y, in_Kind = ir_kind x, in_Hysteria2 = None\<rparr>"
  let ?y = "\<lparr>in_ID = ir_id y, in_Name = ir_name y, in_Port = ir_port x, in_Kind = ir_kind y, in_Hysteria2 = None\<rparr>"
  let ?n = "(node_of_row row)\<lparr>nd_Inbounds := [?x, ?y]\<rparr>"
  have xy: "x \<in> set (db_inbounds db)" "y \<in> set (db_inbounds db)" "ir_node x = i" "ir_node y = i"
    using arg_cong [OF assms(3), of set] by auto
  have pos: "0 < ir_id x" "0 < ir_id y" using store_invD(3) [OF assms(1)] xy by (simp_all add: positive_ids_def)
  have ids: "distinct (map ir_id (db_inbounds db))" using ok by (simp add: constraint_defs)
  then have "distinct (map ir_id [x, y])" by (simp only: assms(3) [symmetric] distinct_map_filter)
  then have neq: "ir_id x \<noteq> ir_id y" by simp
  have "r = row" if "r \<in> set (db_nodes db)" "no_id r = i" for r
  proof -
    have "r \<in> set (filter (\<lambda>r. no_id r = i) (db_nodes db))" using that by simp
    then show ?thesis unfolding assms(2) by simp
  qed
  note same = this
  let ?g = "\<lambda>r. if no_id r = i
      then r\<lparr>no_name := no_name row, no_vpn_host := no_vpn_host row, no_base_url := no_base_url row,
             no_base_path := no_base_path row\<rparr> else r"
  have "?g r = r" if "r \<in> set (db_nodes db)" for r using same [OF that] by auto
  then have "map ?g (db_nodes db) = db_nodes db" by (rule map_idI)
  moreover have "update_node_row i ?n None db = db\<lparr>db_nodes := map ?g (db_nodes db)\<rparr>"
    by (simp add: update_node_row_def node_of_row_def)
  ultimately have "update_node_row i ?n None db = db" by simp
  moreover have "deleteInboundsExcept i [ir_id x, ir_id y] db = db"
  proof -
    have "ir_id r = ir_id x \<or> ir_id r = ir_id y" if "r \<in> set (db_inbounds db)" "ir_node r = i" for r
    proof -
      have "r \<in> set (filter (\<lambda>r. ir_node r = i) (db_inbounds db))" using that by simp
      then show ?thesis unfolding assms(3) by auto
    qed
    then show ?thesis by (auto simp: deleteInboundsExcept_def filter_id_conv)
  qed
  moreover have "exec (update_inbound enc i ?x) db = Inl (DBErr UniqueViolation)"
  proof -
    let ?f = "\<lambda>r. if ir_id r = ir_id x \<and> ir_node r = i
        then r\<lparr>ir_name := ir_name x, ir_port := ir_port y, ir_kind := ir_kind x, ir_settings := None\<rparr> else r"
    have u: "update_inbound enc i ?x db = db\<lparr>db_inbounds := map ?f (db_inbounds db)\<rparr>"
      by (simp add: update_inbound_def inboundKindSettings_def)
    have "\<not> distinct (map (\<lambda>r. (ir_node r, ir_port r)) (map ?f (db_inbounds db)))"
    proof
      assume d: "distinct (map (\<lambda>r. (ir_node r, ir_port r)) (map ?f (db_inbounds db)))"
      have "?f x \<in> set (map ?f (db_inbounds db))" "?f y \<in> set (map ?f (db_inbounds db))"
        unfolding set_map by (rule imageI [OF xy(1), of ?f], rule imageI [OF xy(2), of ?f])
      from distinct_map_eq [OF d this] have "?f x = ?f y" using xy neq by simp
      then have "ir_id (?f x) = ir_id (?f y)" by (rule arg_cong)
      with neq show False by (simp split: if_splits)
    qed
    then have "\<not> uniq_ok (update_inbound enc i ?x db)" unfolding u uniq_ok_def by simp
    moreover have "checks_ok (update_inbound enc i ?x db)" using ok by (simp add: u constraint_defs)
    ultimately show ?thesis by (simp add: exec_def Let_def)
  qed
  ultimately show ?thesis
    using assms(4-7) pos ok
    by (simp add: UpdateNode_def in_tx_def update_node_tx_def Let_def exec_ok duplicate_error_def IsUniqueViolation_def)
qed

definition two_ports_db :: db where
  "two_ports_db = sample_db\<lparr>db_inbounds := db_inbounds sample_db @
     [\<lparr>ir_id = 8, ir_node = 3, ir_name = ''alt'', ir_port = 8443, ir_kind = ''vless'', ir_settings = None\<rparr>],
     sq_inbounds := 8\<rparr>"

lemma two_ports_inv: "store_inv two_ports_db"
  by (simp add: store_inv_def db_inv_def constraint_defs empty_db_def two_ports_db_def sample_db_def config_local_def
      parents_local_def targets_local_def members_local_def ids_ascend_def positive_ids_def)

theorem update_node_swap_refused_witness:
  "UpdateNode password_enc 3 ((node_of_row (hd (db_nodes two_ports_db)))\<lparr>nd_Inbounds :=
       [\<lparr>in_ID = 7, in_Name = ''main'', in_Port = 8443, in_Kind = ''vless'', in_Hysteria2 = None\<rparr>,
        \<lparr>in_ID = 8, in_Name = ''alt'', in_Port = 443, in_Kind = ''vless'', in_Hysteria2 = None\<rparr>]\<rparr>) False two_ports_db =
     (Inl (Domain ErrInboundDuplicate), two_ports_db)"
proof -
  let ?x = "\<lparr>ir_id = 7, ir_node = 3, ir_name = ''main'', ir_port = 443, ir_kind = ''vless'', ir_settings = None\<rparr>"
  let ?y = "\<lparr>ir_id = 8, ir_node = 3, ir_name = ''alt'', ir_port = 8443, ir_kind = ''vless'', ir_settings = None\<rparr>"
  have "filter (\<lambda>r. no_id r = 3) (db_nodes two_ports_db) = [hd (db_nodes two_ports_db)]"
    "filter (\<lambda>r. ir_node r = 3) (db_inbounds two_ports_db) = [?x, ?y]"
    by (simp_all add: two_ports_db_def sample_db_def)
  from update_node_swap_refused [OF two_ports_inv this, of password_enc] show ?thesis by simp
qed

end
