(* ===== verification/ProvisioningFacts.thy ===== *)
theory ProvisioningFacts
  imports Provisioning NodesProperties "HOL-Library.Multiset"
begin

text \<open>
  Facts about the reconciliation of panels: which calls each operation makes and, for panels that
  behave as the 3x-ui API documents, what the panels host afterwards.
\<close>

section \<open>Sets of inbound ids\<close>

lemma count_up: "fold (\<lambda>x m. m(x := m x + (1 :: int))) a m x = m x + int (count (mset a) x)"
  by (induction a arbitrary: m) auto

lemma count_down: "fold (\<lambda>x m. m(x := m x - (1 :: int))) b m x = m x - int (count (mset b) x)"
  by (induction b arbitrary: m) auto

lemma sameInboundIDs_mset: "sameInboundIDs a b \<longleftrightarrow> mset a = mset b"
proof -
  have "sameInboundIDs a b \<longleftrightarrow> length a = length b \<and>
      (\<forall>x \<in> set (a @ b). int (count (mset a) x) - int (count (mset b) x) = 0)"
    by (simp add: sameInboundIDs_def Let_def count_up count_down)
  also have "\<dots> \<longleftrightarrow> length a = length b \<and> (\<forall>x. count (mset a) x = count (mset b) x)"
  proof -
    have "count (mset a) x = count (mset b) x" if "x \<notin> set (a @ b)" for x
      using that by (metis Un_iff count_mset_0_iff set_append)
    then show ?thesis by force
  qed
  also have "\<dots> \<longleftrightarrow> mset a = mset b"
    by (auto simp: multiset_eq_iff) (metis multiset_eqI size_mset)
  finally show ?thesis .
qed

section \<open>The calls of a reconciliation\<close>

fun call_target :: "panel_call \<Rightarrow> PanelTarget" where
  "call_target (ListCall t) = t"
| "call_target (AddCall t is cs) = t"
| "call_target (DelCall t e) = t"

fun is_del :: "panel_call \<Rightarrow> bool" where
  "is_del (DelCall t e) = True" | "is_del _ = False"

fun is_add :: "panel_call \<Rightarrow> bool" where
  "is_add (AddCall t is cs) = True" | "is_add _ = False"

text \<open>
  What the step for one node may do: calls to that node's panel only, a deletion only of the user's
  own client and only where the user had a VLESS connection (or in a forced run), an addition only
  of the user's client and only where a VLESS inbound is wanted.
\<close>

definition node_call ::
    "(int \<rightharpoonup> Node) \<Rightarrow> User \<Rightarrow> Connection list \<Rightarrow> connTarget list \<Rightarrow> bool \<Rightarrow> int \<Rightarrow> panel_call \<Rightarrow> bool" where
  "node_call byID u old desired forceAll nid c \<longleftrightarrow>
     (\<exists>n. byID nid = Some n \<and> call_target c = target n \<and>
        (is_del c \<longrightarrow> c = DelCall (target n) (us_Name u) \<and> (old_on old nid \<noteq> [] \<or> forceAll)) \<and>
        (is_add c \<longrightarrow> desired_on desired nid \<noteq> [] \<and>
           (\<exists>is cid. c = AddCall (target n) is \<lparr>cs_ID = cid, cs_Email = us_Name u, cs_Flow = [], cs_SubID = us_SubID u\<rparr>)))"

lemma in_touched: "nid \<in> set (touched old desired) \<longleftrightarrow> desired_on desired nid \<noteq> [] \<or> old_on old nid \<noteq> []"
  by (auto simp: touched_def set_dedup desired_on_def old_on_def filter_empty_conv)

lemma rebind_calls:
  assumes "byID nid = Some n" and "desired_on desired nid \<noteq> []" and "want = desired_on desired nid"
    and "owned \<longrightarrow> old_on old nid \<noteq> [] \<or> forceAll"
  shows "\<exists>new fs'. rebind pn g n u want owned (h, fs) = (h @ new, fs @ fs') \<and>
    (\<forall>c \<in> set new. node_call byID u old desired forceAll nid c)"
proof -
  have l: "node_call byID u old desired forceAll nid (ListCall (target n))"
    using assms(1) by (simp add: node_call_def)
  have d: "owned \<Longrightarrow> node_call byID u old desired forceAll nid (DelCall (target n) (us_Name u))"
    using assms(1,4) by (simp add: node_call_def)
  have a: "node_call byID u old desired forceAll nid (AddCall (target n) is
      \<lparr>cs_ID = cid, cs_Email = us_Name u, cs_Flow = [], cs_SubID = us_SubID u\<rparr>)" for "is" cid
    using assms(1,2) by (simp add: node_call_def)
  show ?thesis
    using l d a by (auto simp: rebind_def Let_def split: sum.split option.split)
qed

lemma sync_node_calls:
  assumes "nid \<in> set (touched old desired)"
  shows "\<exists>new fs'. sync_node pn g byID u old desired forceAll nid (h, fs) = (h @ new, fs @ fs') \<and>
    (\<forall>c \<in> set new. node_call byID u old desired forceAll nid c)"
proof (cases "byID nid")
  case None
  then show ?thesis by (simp add: sync_node_def)
next
  case (Some n)
  note n = this
  show ?thesis
  proof (cases "desired_on desired nid = []")
    case True
    then have "old_on old nid \<noteq> []" using assms by (simp add: in_touched)
    with n True show ?thesis by (auto simp: sync_node_def node_call_def split: option.split)
  next
    case False
    obtain new fs' where "rebind pn g n u (desired_on desired nid) (old_on old nid \<noteq> [] \<or> forceAll) (h, fs) =
        (h @ new, fs @ fs')" "\<forall>c \<in> set new. node_call byID u old desired forceAll nid c"
      using rebind_calls [where byID = byID and desired = desired and nid = nid and forceAll = forceAll and old = old]
        n False by blast
    with n False show ?thesis by (auto simp: sync_node_def Let_def)
  qed
qed

lemma sync_nodes_calls:
  assumes "set nids \<subseteq> set (touched old desired)"
  shows "\<exists>new fs'. fold (sync_node pn g byID u old desired forceAll) nids (h, fs) = (h @ new, fs @ fs') \<and>
    (\<forall>c \<in> set new. \<exists>nid \<in> set nids. node_call byID u old desired forceAll nid c)"
  using assms
proof (induction nids arbitrary: h fs)
  case (Cons nid nids)
  obtain new fs' where one: "sync_node pn g byID u old desired forceAll nid (h, fs) = (h @ new, fs @ fs')"
      "\<forall>c \<in> set new. node_call byID u old desired forceAll nid c"
    using sync_node_calls [of nid old desired pn g byID u forceAll h fs] Cons.prems by auto
  obtain new' fs'' where rest: "fold (sync_node pn g byID u old desired forceAll) nids (h @ new, fs @ fs') =
      ((h @ new) @ new', (fs @ fs') @ fs'')"
      "\<forall>c \<in> set new'. \<exists>nid \<in> set nids. node_call byID u old desired forceAll nid c"
    using Cons.IH [of "h @ new" "fs @ fs'"] Cons.prems by auto
  show ?case
    using one rest by (intro exI [of _ "new @ new'"] exI [of _ "fs' @ fs''"]) auto
qed simp

lemma ord_touched:
  assumes "map_order ord"
  shows "set (ord (touched old desired)) = set (touched old desired)" "distinct (ord (touched old desired))"
  using assms distinct_dedup [of "{}"] unfolding map_order_def touched_def by blast+

lemma syncPanels_calls:
  assumes "map_order ord"
  shows "\<exists>new. snd (syncPanels pn g ord byID u old desired forceAll h) = h @ new \<and>
    (\<forall>c \<in> set new. \<exists>nid \<in> set (touched old desired). node_call byID u old desired forceAll nid c)"
  using sync_nodes_calls [of "ord (touched old desired)" old desired pn g byID u forceAll h "[]"]
    ord_touched(1) [OF assms, of old desired] by (auto simp: syncPanels_def)

lemma ensureEmailFree_calls:
  "\<exists>new. snd (ensureEmailFree pn byID nids email h) = h @ new \<and> (\<forall>c \<in> set new. \<exists>t. c = ListCall t)"
proof (induction nids arbitrary: h)
  case (Cons nid nids)
  show ?case
  proof (cases "byID nid")
    case (Some n)
    from Cons.IH [of "h @ [ListCall (target n)]"] Some show ?thesis
      by (fastforce simp: Let_def split: sum.split)
  qed simp
qed simp


section \<open>The registry and the targets\<close>

definition node_with :: "decode \<Rightarrow> db \<Rightarrow> node_row \<Rightarrow> Node" where
  "node_with dec db r =
     (node_of_row r)\<lparr>nd_Inbounds := map (inbound_of_row dec) (filter (\<lambda>x. ir_node x = no_id r) (db_inbounds db))\<rparr>"

lemma node_with_sel [simp]:
  "nd_ID (node_with dec db r) = no_id r" "nd_Name (node_with dec db r) = no_name r"
  "nd_Inbounds (node_with dec db r) = map (inbound_of_row dec) (filter (\<lambda>x. ir_node x = no_id r) (db_inbounds db))"
  by (simp_all add: node_with_def node_of_row_def)

lemma ListNodes_eq: "ListNodes dec db = map (node_with dec db) (sort_key no_name (db_nodes db))"
  by (simp add: ListNodes_def node_with_def)

lemma inbound_of_row_sel [simp]:
  "in_ID (inbound_of_row dec x) = ir_id x" "in_Name (inbound_of_row dec x) = ir_name x"
  "in_Port (inbound_of_row dec x) = ir_port x" "in_Kind (inbound_of_row dec x) = ir_kind x"
  by (simp_all add: inbound_of_row_def applyKindSettings_def Let_def split: option.split)

lemma node_index_row:
  assumes "constraints_ok db" and "r \<in> set (db_nodes db)"
  shows "node_index (ListNodes dec db) (no_id r) = Some (node_with dec db r)"
proof -
  have "distinct (map no_id (db_nodes db))" using assms(1) by (simp add: constraint_defs)
  then have "distinct (map nd_ID (ListNodes dec db))"
    by (simp add: ListNodes_eq o_def distinct_map inj_on_def)
  from fill_map_distinct [OF this, of "node_with dec db r"] assms(2) show ?thesis
    by (simp add: node_index_def ListNodes_eq)
qed

lemma node_index_SomeD:
  "node_index (ListNodes dec db) i = Some n \<Longrightarrow> \<exists>r \<in> set (db_nodes db). no_id r = i \<and> n = node_with dec db r"
  unfolding node_index_def ListNodes_eq by (drule fill_map_SomeD) (auto intro: bexI [rotated])

definition inbound_refs :: "Node list \<Rightarrow> inboundRef list" where
  "inbound_refs nodes = concat (map (\<lambda>n. map (\<lambda>i. \<lparr>rf_node = n, rf_in = i\<rparr>) (nd_Inbounds n)) nodes)"

lemma in_inbound_refs:
  "ref \<in> set (inbound_refs (ListNodes dec db)) \<longleftrightarrow> (\<exists>r \<in> set (db_nodes db). \<exists>x \<in> set (db_inbounds db).
     ir_node x = no_id r \<and> ref = \<lparr>rf_node = node_with dec db r, rf_in = inbound_of_row dec x\<rparr>)"
  by (auto simp: inbound_refs_def ListNodes_eq)

lemma inbound_index_row:
  assumes ok: "constraints_ok db" and x: "x \<in> set (db_inbounds db)"
  shows "\<exists>r \<in> set (db_nodes db). no_id r = ir_node x \<and> inbound_index (ListNodes dec db) (ir_id x) =
    Some \<lparr>rf_node = node_with dec db r, rf_in = inbound_of_row dec x\<rparr>"
proof -
  have "ir_node x \<in> no_id ` set (db_nodes db)" using ok x by (simp add: constraint_defs)
  then obtain r where r: "r \<in> set (db_nodes db)" "no_id r = ir_node x" by auto
  have ids: "distinct (map ir_id (db_inbounds db))" "distinct (map no_id (db_nodes db))"
    using ok by (simp_all add: constraint_defs)
  let ?refs = "inbound_refs (ListNodes dec db)"
  have def: "inbound_index (ListNodes dec db) = fill_map (\<lambda>r. in_ID (rf_in r)) (\<lambda>r. r) ?refs"
    by (simp add: inbound_index_def inbound_refs_def)
  have ref: "\<lparr>rf_node = node_with dec db r, rf_in = inbound_of_row dec x\<rparr> \<in> set ?refs"
    unfolding in_inbound_refs using r x by (intro bexI [OF _ r(1)] bexI [OF _ x]) simp
  then have "inbound_index (ListNodes dec db) (ir_id x) \<noteq> None"
    unfolding def fill_map_None_iff by (auto simp: image_iff intro!: bexI [OF _ ref])
  then obtain ref' where ref': "inbound_index (ListNodes dec db) (ir_id x) = Some ref'" by auto
  then have "ref' \<in> set ?refs" "in_ID (rf_in ref') = ir_id x" by (auto simp: def dest!: fill_map_SomeD)
  then obtain r' x' where r': "r' \<in> set (db_nodes db)" "x' \<in> set (db_inbounds db)" "ir_node x' = no_id r'"
      "ref' = \<lparr>rf_node = node_with dec db r', rf_in = inbound_of_row dec x'\<rparr>" "ir_id x' = ir_id x"
    by (auto simp: in_inbound_refs)
  from distinct_map_eq [OF ids(1) r'(2) x r'(5)] have "x' = x" .
  moreover from this r'(3) r(2) have "r' = r" by (intro distinct_map_eq [OF ids(2) r'(1) r(1)]) simp
  ultimately have "ref' = \<lparr>rf_node = node_with dec db r, rf_in = inbound_of_row dec x\<rparr>" using r'(4) by simp
  with r ref' show ?thesis by (intro bexI [OF _ r(1)]) simp
qed

lemma inbound_index_None:
  "i \<notin> ir_id ` set (db_inbounds db) \<Longrightarrow> inbound_index (ListNodes dec db) i = None"
  unfolding inbound_index_def inbound_refs_def [symmetric] fill_map_None_iff by (auto simp: in_inbound_refs)

lemma desired_loop_Inr:
  "desired_loop byID seen ids = Inr ts \<longleftrightarrow>
     (\<forall>i \<in> set (dedup seen ids). byID i \<noteq> None) \<and> ts = map (\<lambda>i. ref_target (the (byID i))) (dedup seen ids)"
  by (induction ids arbitrary: seen ts) (auto simp: bind_err_Inr_iff split: option.split)

lemma desiredTargets_Inr:
  "desiredTargets byID ids = Inr ts \<longleftrightarrow>
     (\<forall>i \<in> set ids. byID i \<noteq> None) \<and> ts = map (\<lambda>i. ref_target (the (byID i))) (dedup {} ids)"
  by (simp add: desiredTargets_def desired_loop_Inr set_dedup)

text \<open>The connections of a user, as targets, are the registry's.\<close>

lemma GetUser_SomeD:
  assumes "store_inv db" and "GetUser i db = Some u"
  shows "\<exists>r \<in> set (db_users db). ur_id r = i \<and>
    u = (user_of_row r)\<lparr>us_Connections := joined_connections (\<lambda>c. cr_user c = i) db\<rparr>"
proof -
  from assms(2) obtain r where "find (\<lambda>r. ur_id r = i) (db_users db) = Some r"
    by (auto simp: GetUser_def split: option.splits)
  then have r: "r \<in> set (db_users db)" "ur_id r = i" by (auto simp: find_Some_iff)
  with GetUser_row [OF assms(1) r(1)] assms(2) show ?thesis by auto
qed

lemma in_joined:
  assumes "constraints_ok db"
  shows "c \<in> set (joined_connections P db) \<longleftrightarrow> (\<exists>k \<in> set (db_conns db). P k \<and> join_conn db k = Some c)"
  by (auto simp: joined_connections_def in_set_map_filter)

lemma joined_target:
  assumes "constraints_ok db" and "join_conn db k = Some c"
  shows "\<exists>ref. inbound_index (ListNodes dec db) (cn_InboundID c) = Some ref \<and> ref_target ref = conn_target c"
proof -
  from assms(2) obtain x n where x: "x \<in> set (db_inbounds db)" "ir_id x = cr_inbound k"
      and n: "n \<in> set (db_nodes db)" "no_id n = ir_node x"
      and c: "c = \<lparr>cn_ID = cr_id k, cn_UserID = cr_user k, cn_InboundID = cr_inbound k,
                     cn_CreatedAt = cr_created k, cn_NodeID = ir_node x, cn_Node = no_name n,
                     cn_Name = ir_name x, cn_Port = ir_port x, cn_Kind = ir_kind x\<rparr>"
    by (auto simp: join_conn_def split: option.splits dest!: find_SomeD)
  from inbound_index_row [OF assms(1) x(1), of dec] obtain r where
    r: "r \<in> set (db_nodes db)" "no_id r = ir_node x"
      "inbound_index (ListNodes dec db) (ir_id x) = Some \<lparr>rf_node = node_with dec db r, rf_in = inbound_of_row dec x\<rparr>"
    by blast
  have "distinct (map no_id (db_nodes db))" using assms(1) by (simp add: constraint_defs)
  from distinct_map_eq [OF this n(1) r(1)] n(2) r(2) have "r = n" by simp
  with r x show ?thesis by (simp add: c ref_target_def conn_target_def)
qed

lemma user_conns_distinct:
  assumes "constraints_ok db"
  shows "distinct (map cn_InboundID (joined_connections (\<lambda>c. cr_user c = i) db))"
proof -
  let ?ks = "filter (\<lambda>c. cr_user c = i) (db_conns db)"
  have "distinct (map (\<lambda>c. (cr_user c, cr_inbound c)) ?ks)"
    using assms by (simp add: constraint_defs distinct_map_filter)
  then have ks: "distinct (map cr_inbound ?ks)"
    by (auto simp: distinct_map inj_on_def)
  have id: "cn_InboundID c = cr_inbound k" if "join_conn db k = Some c" for k c
    using that by (auto simp: join_conn_def split: option.splits)
  have sub: "set (map cn_InboundID (List.map_filter (join_conn db) ks)) \<subseteq> cr_inbound ` set ks" for ks
    by (auto simp: in_set_map_filter dest!: id)
  have "distinct (map cn_InboundID (List.map_filter (join_conn db) ks))" if "distinct (map cr_inbound ks)" for ks
    using that
  proof (induction ks)
    case (Cons k ks)
    then show ?case using sub [of ks] id by (fastforce split: option.splits)
  qed simp
  from this [OF ks] show ?thesis
    by (simp add: joined_connections_def distinct_map)
qed

end
