(* ===== verification/FleetProperties.thy ===== *)
theory FleetProperties
  imports Fleet NodesProperties
begin

text \<open>
  What the fleet says about a subscriber. The specification is the list of grants: one for every
  enabled client stat with a subscription id of an enabled panel inbound matched by port, then one
  for every connection of a hysteria2 inbound with credentials. A subscriber is computed from its
  grants alone.
\<close>

section \<open>Grants\<close>

definition inbound_grants :: "panelSnapshot \<Rightarrow> Inbound \<Rightarrow> (PanelClientStat \<times> Proxy) list" where
  "inbound_grants s cfg =
     (case findByPort (sn_inbounds s) (in_Port cfg) of
        None \<Rightarrow> []
      | Some pi \<Rightarrow>
          if pi_Enable pi
          then map (\<lambda>cs. (cs, client_proxy (inbound_base (sn_node s) cfg pi) (flowByEmail (pi_Clients pi)) cs))
                 (filter (\<lambda>cs. ps_Enable cs \<and> ps_SubID cs \<noteq> []) (pi_Stats pi))
          else [])"

definition panel_grants :: "panelSnapshot list \<Rightarrow> (PanelClientStat \<times> Proxy) list" where
  "panel_grants snaps = concat (map (\<lambda>s. concat (map (inbound_grants s) (nd_Inbounds (sn_node s)))) snaps)"

definition granted_to :: "string \<Rightarrow> (PanelClientStat \<times> Proxy) list \<Rightarrow> (PanelClientStat \<times> Proxy) list" where
  "granted_to subID gs = filter (\<lambda>(cs, p). ps_SubID cs = subID) gs"

text \<open>The subscriber a list of grants describes.\<close>

definition grants_subscriber :: "string \<Rightarrow> (PanelClientStat \<times> Proxy) list \<Rightarrow> Subscriber" where
  "grants_subscriber subID gs = fold (\<lambda>(cs, p). add_grant cs p) gs (new_subscriber subID)"

definition static_grants :: "Node list \<Rightarrow> (int \<rightharpoonup> string list) \<Rightarrow> (string \<times> Proxy) list" where
  "static_grants nodes subs =
     concat (map (\<lambda>n. concat (map (\<lambda>i.
       case in_Hysteria2 i of
         Some h \<Rightarrow> if IsHysteria2 i
                   then map (\<lambda>s. (s, hysteria2Proxy n i h)) (case subs (in_ID i) of None \<Rightarrow> [] | Some ss \<Rightarrow> ss)
                   else []
       | None \<Rightarrow> []) (nd_Inbounds n))) nodes)"

lemma add_grant_sel [simp]:
  "sb_SubID (add_grant cs p s) = sb_SubID s"
  "sb_Proxies (add_grant cs p s) = sb_Proxies s @ [p]"
  "sb_Up (add_grant cs p s) = sb_Up s + ps_Up cs"
  "sb_Down (add_grant cs p s) = sb_Down s + ps_Down cs"
  "sb_Total (add_grant cs p s) = signed_max (sb_Total s) (ps_Total cs)"
  "sb_Expiry (add_grant cs p s) = signed_max (sb_Expiry s) (ps_Expiry cs)"
  "sb_Emails (add_grant cs p s) = sb_Emails (AddEmail s (ps_Email cs))"
  by (simp_all add: add_grant_def Let_def)

lemma new_subscriber_sel [simp]:
  "sb_SubID (new_subscriber i) = i" "sb_Proxies (new_subscriber i) = []" "sb_Emails (new_subscriber i) = []"
  "sb_Up (new_subscriber i) = 0" "sb_Down (new_subscriber i) = 0" "sb_Total (new_subscriber i) = 0"
  "sb_Expiry (new_subscriber i) = 0"
  by (simp_all add: new_subscriber_def)

lemma grants_subscriber_Nil [simp]: "grants_subscriber i [] = new_subscriber i"
  by (simp add: grants_subscriber_def)

lemma grants_subscriber_snoc [simp]:
  "grants_subscriber i (gs @ [(cs, p)]) = add_grant cs p (grants_subscriber i gs)"
  by (simp add: grants_subscriber_def)

lemma grants_subscriber_id [simp]: "sb_SubID (grants_subscriber i gs) = i"
  by (induction gs rule: rev_induct) auto

lemma granted_to_simps [simp]:
  "granted_to i [] = []" "granted_to i (xs @ ys) = granted_to i xs @ granted_to i ys"
  "granted_to i [(cs, p)] = (if ps_SubID cs = i then [(cs, p)] else [])"
  by (simp_all add: granted_to_def)

text \<open>The fleet a list of grants gives, and that the folds compute it.\<close>

definition subs_of_grants :: "(PanelClientStat \<times> Proxy) list \<Rightarrow> string \<rightharpoonup> Subscriber" where
  "subs_of_grants gs subID =
     (if granted_to subID gs = [] then None else Some (grants_subscriber subID (granted_to subID gs)))"

lemma sub_or_new_of_grants:
  "fl_Subs fl = subs_of_grants gs \<Longrightarrow> sub_or_new fl i = grants_subscriber i (granted_to i gs)"
  by (simp add: sub_or_new_def subs_of_grants_def)

lemma add_stat_grants:
  assumes "fl_Subs fl = subs_of_grants gs"
  shows "fl_Subs (add_stat base flows cs fl) =
    subs_of_grants (gs @ map (\<lambda>cs. (cs, client_proxy base flows cs))
                      (filter (\<lambda>cs. ps_Enable cs \<and> ps_SubID cs \<noteq> []) [cs]))"
proof (cases "ps_Enable cs \<and> ps_SubID cs \<noteq> []")
  case True
  then show ?thesis
    using sub_or_new_of_grants [OF assms, of "ps_SubID cs"] assms
    by (auto simp: add_stat_def put_sub_def fun_eq_iff subs_of_grants_def)
qed (use assms in \<open>auto simp: add_stat_def\<close>)

lemma add_stats_grants:
  "fl_Subs fl = subs_of_grants gs \<Longrightarrow> fl_Subs (fold (add_stat base flows) css fl) =
    subs_of_grants (gs @ map (\<lambda>cs. (cs, client_proxy base flows cs))
                      (filter (\<lambda>cs. ps_Enable cs \<and> ps_SubID cs \<noteq> []) css))"
proof (induction css arbitrary: fl gs)
  case (Cons cs css)
  from Cons.IH [OF add_stat_grants [OF Cons.prems, of base flows cs]] show ?case by simp
qed simp

lemma observe_clients_Subs [simp]: "fl_Subs (observe_clients i pi fl) = fl_Subs fl"
  by (simp add: observe_clients_def Let_def)

lemma add_inbound_grants:
  "fl_Subs fl = subs_of_grants gs \<Longrightarrow>
     fl_Subs (add_inbound s cfg fl) = subs_of_grants (gs @ inbound_grants s cfg)"
  by (auto simp: add_inbound_def inbound_grants_def Let_def add_stats_grants split: option.split)

lemma add_snapshot_grants:
  "fl_Subs fl = subs_of_grants gs \<Longrightarrow>
     fl_Subs (fold (add_inbound s) cfgs fl) = subs_of_grants (gs @ concat (map (inbound_grants s) cfgs))"
  by (induction cfgs arbitrary: fl gs) (simp_all add: add_inbound_grants)

lemma buildFleet_Subs: "fl_Subs (buildFleet snaps) = subs_of_grants (panel_grants snaps)"
proof -
  have "fl_Subs (fold add_snapshot snaps fl) = subs_of_grants (gs @ panel_grants snaps)"
    if "fl_Subs fl = subs_of_grants gs" for fl gs
    using that by (induction snaps arbitrary: fl gs)
      (simp_all add: panel_grants_def add_snapshot_def add_snapshot_grants)
  from this [of empty_fleet "[]"] show ?thesis
    by (simp add: buildFleet_def empty_fleet_def subs_of_grants_def fun_eq_iff)
qed

section \<open>Static grants\<close>

definition with_static :: "(string \<times> Proxy) list \<Rightarrow> (string \<rightharpoonup> Subscriber) \<Rightarrow> string \<rightharpoonup> Subscriber" where
  "with_static ss subs subID =
     (let ps = map snd (filter (\<lambda>g. fst g = subID) ss)
      in if ps = [] then subs subID
         else let s = (case subs subID of None \<Rightarrow> new_subscriber subID | Some s \<Rightarrow> s)
              in Some (s\<lparr>sb_Proxies := sb_Proxies s @ ps\<rparr>))"

lemma with_static_Nil [simp]: "with_static [] subs = subs"
  by (simp add: with_static_def fun_eq_iff)

lemma add_static_with:
  "fl_Subs fl = with_static ss subs \<Longrightarrow> fl_Subs (add_static p i fl) = with_static (ss @ [(i, p)]) subs"
  by (auto simp: add_static_def sub_or_new_def with_static_def Let_def fun_eq_iff split: option.splits)

lemma add_statics_with:
  "fl_Subs fl = with_static ss subs \<Longrightarrow>
     fl_Subs (fold (add_static p) is fl) = with_static (ss @ map (\<lambda>i. (i, p)) is) subs"
  by (induction "is" arbitrary: fl ss) (simp_all add: add_static_with)

lemma add_static_inbounds_with:
  assumes "fl_Subs fl = with_static ss subs"
  shows "fl_Subs (fold (add_static_inbound sbi n) is fl) =
    with_static (ss @ concat (map (\<lambda>i. case in_Hysteria2 i of
         Some h \<Rightarrow> if IsHysteria2 i
                   then map (\<lambda>s. (s, hysteria2Proxy n i h)) (case sbi (in_ID i) of None \<Rightarrow> [] | Some ss \<Rightarrow> ss)
                   else []
       | None \<Rightarrow> []) is)) subs"
  using assms
proof (induction "is" arbitrary: fl ss)
  case (Cons i "is")
  have "fl_Subs (add_static_inbound sbi n i fl) = with_static (ss @ (case in_Hysteria2 i of
         Some h \<Rightarrow> if IsHysteria2 i
                   then map (\<lambda>s. (s, hysteria2Proxy n i h)) (case sbi (in_ID i) of None \<Rightarrow> [] | Some ss \<Rightarrow> ss)
                   else []
       | None \<Rightarrow> [])) subs"
    using Cons.prems by (auto simp: add_static_inbound_def add_statics_with split: option.split)
  from Cons.IH [OF this] show ?case by simp
qed simp

lemma addHysteria2Inbounds_Subs:
  "fl_Subs (addHysteria2Inbounds nodes sbi fl) = with_static (static_grants nodes sbi) (fl_Subs fl)"
proof -
  have "fl_Subs (fold (\<lambda>n. fold (add_static_inbound sbi n) (nd_Inbounds n)) nodes fl) =
      with_static (ss @ static_grants nodes sbi) subs" if "fl_Subs fl = with_static ss subs" for fl ss subs
    using that by (induction nodes arbitrary: fl ss)
      (simp_all add: static_grants_def add_static_inbounds_with)
  from this [of fl "[]" "fl_Subs fl"] show ?thesis by (simp add: addHysteria2Inbounds_def)
qed

lemma addHysteria2Inbounds_Clients:
  "fl_ClientsByInbound (addHysteria2Inbounds nodes sbi fl) = fl_ClientsByInbound fl"
proof -
  have s: "fl_ClientsByInbound (fold (add_static p) is fl) = fl_ClientsByInbound fl" for p "is" fl
    by (induction "is" arbitrary: fl) (simp_all add: add_static_def Let_def)
  have i: "fl_ClientsByInbound (fold (add_static_inbound sbi n) is fl) = fl_ClientsByInbound fl" for n "is" fl
    by (induction "is" arbitrary: fl) (simp_all add: add_static_inbound_def s split: option.split)
  show ?thesis unfolding addHysteria2Inbounds_def
    by (induction nodes arbitrary: fl) (simp_all add: i)
qed

section \<open>Reachable panels\<close>

definition reachable_snaps :: "list_inbounds \<Rightarrow> Node list \<Rightarrow> panelSnapshot list" where
  "reachable_snaps client nodes =
     List.map_filter (\<lambda>n. case client (target n) of Inl e \<Rightarrow> None | Inr inbs \<Rightarrow>
        Some \<lparr>sn_node = n, sn_inbounds = inbs\<rparr>) nodes"

lemma fetch_snaps_fst: "fst (fetch_snaps client nodes) = reachable_snaps client nodes"
  by (induction nodes) (auto simp: reachable_snaps_def split: sum.split prod.splits)

lemma fetch_snaps_snd: "snd (fetch_snaps client nodes) = [] \<longleftrightarrow> (\<forall>n \<in> set nodes. \<not> isl (client (target n)))"
  by (induction nodes) (auto split: sum.split prod.splits)

lemma reachable_snaps_Nil [simp]: "reachable_snaps client [] = []"
  by (simp add: reachable_snaps_def)

lemma reachable_Nil: "reachable_snaps client nodes = [] \<longleftrightarrow> (\<forall>n \<in> set nodes. isl (client (target n)))"
  by (induction nodes) (auto simp: reachable_snaps_def split: sum.split)

lemma all_failed_iff:
  "fst (fetch_snaps client nodes) = [] \<and> snd (fetch_snaps client nodes) \<noteq> [] \<longleftrightarrow>
     nodes \<noteq> [] \<and> (\<forall>n \<in> set nodes. isl (client (target n)))"
  by (cases nodes) (auto simp: fetch_snaps_fst fetch_snaps_snd reachable_Nil simp del: fetch_snaps.simps)

lemma fetch_Inr_iff:
  "fetch client (Inr nodes) (Inr subs) = Inr fl \<longleftrightarrow>
     (nodes = [] \<or> (\<exists>n \<in> set nodes. \<not> isl (client (target n)))) \<and>
     fl = addHysteria2Inbounds nodes subs (buildFleet (reachable_snaps client nodes))"
  using all_failed_iff [of client nodes]
  by (auto simp: fetch_def split_beta Let_def fetch_snaps_fst split: if_splits)


lemma in_reachable_snaps:
  "s \<in> set (reachable_snaps client nodes) \<longleftrightarrow>
     sn_node s \<in> set nodes \<and> client (target (sn_node s)) = Inr (sn_inbounds s)"
proof -
  have "(case client (target n) of Inl e \<Rightarrow> None | Inr inbs \<Rightarrow> Some \<lparr>sn_node = n, sn_inbounds = inbs\<rparr>) = Some s \<longleftrightarrow>
      n = sn_node s \<and> client (target n) = Inr (sn_inbounds s)" for n
    by (cases s; cases "client (target n)") auto
  then show ?thesis by (auto simp: reachable_snaps_def in_set_map_filter)
qed

section \<open>Reading a subscriber\<close>

lemma grants_subscriber_fields:
  "sb_Proxies (grants_subscriber i gs) = map snd gs"
  "sb_Up (grants_subscriber i gs) = sum_list (map (ps_Up \<circ> fst) gs)"
  "sb_Down (grants_subscriber i gs) = sum_list (map (ps_Down \<circ> fst) gs)"
  "distinct (sb_Emails (grants_subscriber i gs))"
  "set (sb_Emails (grants_subscriber i gs)) = (ps_Email \<circ> fst) ` set gs - {[]}"
proof -
  show "sb_Proxies (grants_subscriber i gs) = map snd gs"
    "sb_Up (grants_subscriber i gs) = sum_list (map (ps_Up \<circ> fst) gs)"
    "sb_Down (grants_subscriber i gs) = sum_list (map (ps_Down \<circ> fst) gs)"
    by (induction gs rule: rev_induct) auto
  show "distinct (sb_Emails (grants_subscriber i gs))"
    by (induction gs rule: rev_induct) (auto simp: distinct_AddEmail)
  show "set (sb_Emails (grants_subscriber i gs)) = (ps_Email \<circ> fst) ` set gs - {[]}"
  proof (induction gs rule: rev_induct)
    case (snoc g gs)
    then show ?case by (cases g) (simp add: insert_Diff_if)
  qed simp
qed

lemma sint_sum_list:
  fixes f :: "'a \<Rightarrow> i64"
  assumes "\<forall>g \<in> set gs. 0 \<le> sint (f g)" and "sum_list (map (\<lambda>g. sint (f g)) gs) < 2 ^ 63"
  shows "sint (sum_list (map f gs)) = sum_list (map (\<lambda>g. sint (f g)) gs)"
  using assms
proof (induction gs)
  case (Cons g gs)
  have nonneg: "0 \<le> sum_list (map (\<lambda>g. sint (f g)) gs)" using Cons.prems(1) by (intro sum_list_nonneg) auto
  moreover have "0 \<le> sint (f g)" using Cons.prems(1) by simp
  moreover have "sint (f g) + sum_list (map (\<lambda>g. sint (f g)) gs) < 2 ^ 63" using Cons.prems(2) by simp
  ultimately have "sum_list (map (\<lambda>g. sint (f g)) gs) < 2 ^ 63" by linarith
  then have IH: "sint (sum_list (map f gs)) = sum_list (map (\<lambda>g. sint (f g)) gs)" using Cons by simp
  have "sint (f g) + sint (sum_list (map f gs)) < 2 ^ 63" using Cons.prems(2) by (simp add: IH)
  moreover have "- (2 ^ 63) \<le> sint (f g) + sint (sum_list (map f gs))"
    using nonneg \<open>0 \<le> sint (f g)\<close> by (simp add: IH)
  ultimately have "sint (f g + sum_list (map f gs)) = sint (f g) + sint (sum_list (map f gs))"
    by (simp add: sint_word_ariths(1) signed_take_bit_int_eq_self)
  then show ?case using IH by simp
qed simp

lemma sint_signed_max: "sint (signed_max a b) = max (sint a) (sint b)"
  by (simp add: signed_max_def)

lemma grants_subscriber_limits:
  "sint (sb_Total (grants_subscriber i gs)) = Max (insert 0 (set (map (sint \<circ> ps_Total \<circ> fst) gs)))"
  "sint (sb_Expiry (grants_subscriber i gs)) = Max (insert 0 (set (map (sint \<circ> ps_Expiry \<circ> fst) gs)))"
proof -
  have m: "max a (Max (insert 0 S)) = Max (insert 0 (insert a S))" if "finite S" for a :: int and S
    using that by (metis Max_insert empty_not_insert finite.insertI insert_commute)
  show "sint (sb_Total (grants_subscriber i gs)) = Max (insert 0 (set (map (sint \<circ> ps_Total \<circ> fst) gs)))"
    "sint (sb_Expiry (grants_subscriber i gs)) = Max (insert 0 (set (map (sint \<circ> ps_Expiry \<circ> fst) gs)))"
    by (induction gs rule: rev_induct) (auto simp: sint_signed_max m max.commute)
qed

text \<open>The grants of a subscription in a fleet, panels first.\<close>

definition vless_grants :: "list_inbounds \<Rightarrow> Node list \<Rightarrow> string \<Rightarrow> (PanelClientStat \<times> Proxy) list" where
  "vless_grants client nodes subID = granted_to subID (panel_grants (reachable_snaps client nodes))"

definition static_proxies :: "Node list \<Rightarrow> (int \<rightharpoonup> string list) \<Rightarrow> string \<Rightarrow> Proxy list" where
  "static_proxies nodes subs subID = map snd (filter (\<lambda>g. fst g = subID) (static_grants nodes subs))"

lemma fetched_Sub:
  assumes "fetch client (Inr nodes) (Inr subs) = Inr fl"
  shows "Fleet_Sub (Some fl) sid =
    (if vless_grants client nodes sid = [] \<and> static_proxies nodes subs sid = [] then None
     else Some ((grants_subscriber sid (vless_grants client nodes sid))\<lparr>sb_Proxies :=
            map snd (vless_grants client nodes sid) @ static_proxies nodes subs sid\<rparr>))"
proof -
  have same: "(grants_subscriber sid gs)\<lparr>sb_Proxies := map snd gs\<rparr> = grants_subscriber sid gs" for gs
    using grants_subscriber_fields(1) [of sid gs] by (metis Subscriber.surjective Subscriber.update_convs(3))
  have "fl_Subs fl = with_static (static_grants nodes subs)
      (subs_of_grants (panel_grants (reachable_snaps client nodes)))"
    using assms by (simp add: fetch_Inr_iff addHysteria2Inbounds_Subs buildFleet_Subs)
  then show ?thesis
    by (auto simp: Fleet_Sub_def with_static_def subs_of_grants_def vless_grants_def static_proxies_def
        Let_def same grants_subscriber_fields(1))
qed

section \<open>Observed clients\<close>

lemma add_stats_Clients [simp]:
  "fl_ClientsByInbound (fold (add_stat base flows) css fl) = fl_ClientsByInbound fl"
  by (induction css arbitrary: fl) (simp_all add: add_stat_def put_sub_def)

definition inbound_emails :: "panelSnapshot \<Rightarrow> Inbound \<Rightarrow> string set" where
  "inbound_emails s cfg =
     (case findByPort (sn_inbounds s) (in_Port cfg) of None \<Rightarrow> {} | Some p \<Rightarrow> pc_Email ` set (pi_Clients p))"

lemma add_inbound_Clients:
  "fl_ClientsByInbound (add_inbound s cfg fl) = (fl_ClientsByInbound fl)(in_ID cfg \<mapsto>
     (case fl_ClientsByInbound fl (in_ID cfg) of None \<Rightarrow> {} | Some e \<Rightarrow> e) \<union> inbound_emails s cfg)"
  by (auto simp: add_inbound_def observe_clients_def inbound_emails_def Let_def split: option.split)

text \<open>Every configured inbound of the snapshots, with its snapshot.\<close>

definition observed :: "panelSnapshot list \<Rightarrow> (panelSnapshot \<times> Inbound) list" where
  "observed snaps = concat (map (\<lambda>s. map (Pair s) (nd_Inbounds (sn_node s))) snaps)"

lemma in_observed: "(s, cfg) \<in> set (observed snaps) \<longleftrightarrow> s \<in> set snaps \<and> cfg \<in> set (nd_Inbounds (sn_node s))"
  by (auto simp: observed_def)

lemma buildFleet_fold: "buildFleet snaps = fold (\<lambda>(s, cfg). add_inbound s cfg) (observed snaps) empty_fleet"
proof -
  have one: "fold (\<lambda>(s, cfg). add_inbound s cfg) (map (Pair s) cfgs) = fold (add_inbound s) cfgs" for s cfgs
    by (induction cfgs) auto
  have "fold add_snapshot snaps = fold (\<lambda>(s, cfg). add_inbound s cfg) (observed snaps)"
    by (induction snaps) (simp_all add: observed_def add_snapshot_def one)
  then show ?thesis by (simp add: buildFleet_def)
qed

definition observed_as :: "int \<Rightarrow> (panelSnapshot \<times> Inbound) list \<Rightarrow> (panelSnapshot \<times> Inbound) list" where
  "observed_as i os = filter (\<lambda>(s, cfg). in_ID cfg = i) os"

lemma buildFleet_Clients:
  "fl_ClientsByInbound (buildFleet snaps) i =
     (let os = observed_as i (observed snaps)
      in if os = [] then None else Some (\<Union>(set (map (\<lambda>(s, cfg). inbound_emails s cfg) os))))"
proof -
  have "fl_ClientsByInbound (fold (\<lambda>(s, cfg). add_inbound s cfg) os empty_fleet) i =
     (if observed_as i os = [] then None
      else Some (\<Union>(set (map (\<lambda>(s, cfg). inbound_emails s cfg) (observed_as i os)))))" for os
    by (induction os rule: rev_induct)
      (auto simp: empty_fleet_def observed_as_def add_inbound_Clients simp del: set_map)
  then show ?thesis by (simp add: buildFleet_fold Let_def)
qed


lemma observed_node_iff:
  "(\<exists>(s :: panelSnapshot) cfg. sn_node s \<in> set nodes \<and> client (target (sn_node s)) = Inr (sn_inbounds s) \<and>
      cfg \<in> set (nd_Inbounds (sn_node s)) \<and> in_ID cfg = i) \<longleftrightarrow>
   (\<exists>n \<in> set nodes. \<exists>cfg \<in> set (nd_Inbounds n). \<not> isl (client (target n)) \<and> in_ID cfg = i)"
proof safe
  fix s :: panelSnapshot and cfg assume "client (target (sn_node s)) = Inr (sn_inbounds s)" "sn_node s \<in> set nodes"
    "cfg \<in> set (nd_Inbounds (sn_node s))"
  then show "\<exists>n \<in> set nodes. \<exists>cfg' \<in> set (nd_Inbounds n). \<not> isl (client (target n)) \<and> in_ID cfg' = in_ID cfg"
    by (intro bexI [of _ "sn_node s"] bexI [of _ cfg]) simp_all
next
  fix n cfg assume n: "n \<in> set nodes" "cfg \<in> set (nd_Inbounds n)" "\<not> isl (client (target n))"
  let ?s = "\<lparr>sn_node = n, sn_inbounds = projr (client (target n))\<rparr>"
  from n show "\<exists>(s :: panelSnapshot) cfg'. sn_node s \<in> set nodes \<and> client (target (sn_node s)) = Inr (sn_inbounds s) \<and>
      cfg' \<in> set (nd_Inbounds (sn_node s)) \<and> in_ID cfg' = in_ID cfg"
    by (intro exI [of _ ?s] exI [of _ cfg]) simp
qed

lemma observed_emails_iff:
  "(\<exists>(s :: panelSnapshot) cfg. (sn_node s \<in> set nodes \<and> client (target (sn_node s)) = Inr (sn_inbounds s) \<and>
      cfg \<in> set (nd_Inbounds (sn_node s)) \<and> in_ID cfg = i) \<and> email \<in> inbound_emails s cfg) \<longleftrightarrow>
   (\<exists>n \<in> set nodes. \<exists>cfg \<in> set (nd_Inbounds n). \<exists>inbs. client (target n) = Inr inbs \<and> in_ID cfg = i \<and>
      email \<in> inbound_emails \<lparr>sn_node = n, sn_inbounds = inbs\<rparr> cfg)"
proof safe
  fix s :: panelSnapshot and cfg assume s: "client (target (sn_node s)) = Inr (sn_inbounds s)" "sn_node s \<in> set nodes"
    "cfg \<in> set (nd_Inbounds (sn_node s))" "email \<in> inbound_emails s cfg"
  from s(4) have "email \<in> inbound_emails \<lparr>sn_node = sn_node s, sn_inbounds = sn_inbounds s\<rparr> cfg" by (cases s) simp
  with s show "\<exists>n \<in> set nodes. \<exists>cfg' \<in> set (nd_Inbounds n). \<exists>inbs. client (target n) = Inr inbs \<and>
      in_ID cfg' = in_ID cfg \<and> email \<in> inbound_emails \<lparr>sn_node = n, sn_inbounds = inbs\<rparr> cfg'"
    by (intro bexI [of _ "sn_node s"] bexI [of _ cfg] exI [of _ "sn_inbounds s"]) simp_all
next
  fix n cfg inbs assume n: "n \<in> set nodes" "cfg \<in> set (nd_Inbounds n)" "client (target n) = Inr inbs"
    "email \<in> inbound_emails \<lparr>sn_node = n, sn_inbounds = inbs\<rparr> cfg"
  then show "\<exists>(s :: panelSnapshot) cfg'. (sn_node s \<in> set nodes \<and> client (target (sn_node s)) = Inr (sn_inbounds s) \<and>
      cfg' \<in> set (nd_Inbounds (sn_node s)) \<and> in_ID cfg' = in_ID cfg) \<and> email \<in> inbound_emails s cfg'"
    by (intro exI [of _ "\<lparr>sn_node = n, sn_inbounds = inbs\<rparr>"] exI [of _ cfg]) simp
qed

lemma ClientMissing_iff:
  assumes "fetch client (Inr nodes) (Inr subs) = Inr fl"
  shows "ClientMissing (Some fl) i email \<longleftrightarrow>
    (\<exists>n \<in> set nodes. \<exists>cfg \<in> set (nd_Inbounds n). \<not> isl (client (target n)) \<and> in_ID cfg = i) \<and>
    \<not> (\<exists>n \<in> set nodes. \<exists>cfg \<in> set (nd_Inbounds n). \<exists>inbs. client (target n) = Inr inbs \<and> in_ID cfg = i \<and>
         email \<in> inbound_emails \<lparr>sn_node = n, sn_inbounds = inbs\<rparr> cfg)"
proof -
  let ?os = "observed_as i (observed (reachable_snaps client nodes))"
  have mem: "(s, cfg) \<in> set ?os \<longleftrightarrow> sn_node s \<in> set nodes \<and> client (target (sn_node s)) = Inr (sn_inbounds s) \<and>
      cfg \<in> set (nd_Inbounds (sn_node s)) \<and> in_ID cfg = i" for s cfg
    by (auto simp: observed_as_def in_observed in_reachable_snaps)
  have "fl_ClientsByInbound fl i =
      (if ?os = [] then None else Some (\<Union>(set (map (\<lambda>(s, cfg). inbound_emails s cfg) ?os))))"
    using assms by (simp add: fetch_Inr_iff addHysteria2Inbounds_Clients buildFleet_Clients Let_def)
  then have "ClientMissing (Some fl) i email \<longleftrightarrow>
      (\<exists>s cfg. (s, cfg) \<in> set ?os) \<and> \<not> (\<exists>s cfg. (s, cfg) \<in> set ?os \<and> email \<in> inbound_emails s cfg)"
    by (cases ?os) (auto simp: ClientMissing_def)
  also have "(\<exists>s cfg. (s, cfg) \<in> set ?os) \<longleftrightarrow>
      (\<exists>n \<in> set nodes. \<exists>cfg \<in> set (nd_Inbounds n). \<not> isl (client (target n)) \<and> in_ID cfg = i)"
    unfolding mem by (rule observed_node_iff)
  also have "(\<exists>s cfg. (s, cfg) \<in> set ?os \<and> email \<in> inbound_emails s cfg) \<longleftrightarrow>
      (\<exists>n \<in> set nodes. \<exists>cfg \<in> set (nd_Inbounds n). \<exists>inbs. client (target n) = Inr inbs \<and> in_ID cfg = i \<and>
         email \<in> inbound_emails \<lparr>sn_node = n, sn_inbounds = inbs\<rparr> cfg)"
    unfolding mem by (rule observed_emails_iff)
  finally show ?thesis .
qed

text \<open>Where the proxies of a subscriber come from.\<close>

lemma vless_grants_from:
  assumes "(cs, p) \<in> set (vless_grants client nodes sid)"
  shows "\<exists>n \<in> set nodes. \<exists>i \<in> set (nd_Inbounds n). \<exists>pi flows.
    p = client_proxy (inbound_base n i pi) flows cs \<and> ps_SubID cs = sid \<and> ps_Enable cs"
proof -
  from assms obtain s cfg where s: "s \<in> set (reachable_snaps client nodes)"
      "cfg \<in> set (nd_Inbounds (sn_node s))" "(cs, p) \<in> set (inbound_grants s cfg)" and sid: "ps_SubID cs = sid"
    by (auto simp: vless_grants_def granted_to_def panel_grants_def)
  from s(3) obtain pi where "p = client_proxy (inbound_base (sn_node s) cfg pi) (flowByEmail (pi_Clients pi)) cs"
      "ps_Enable cs"
    by (auto simp: inbound_grants_def split: option.splits if_splits)
  with s(1,2) sid show ?thesis by (auto simp: in_reachable_snaps intro!: bexI [of _ "sn_node s"] bexI [of _ cfg])
qed

lemma static_proxies_from:
  "p \<in> set (static_proxies nodes subs sid) \<longleftrightarrow>
     (\<exists>n \<in> set nodes. \<exists>i \<in> set (nd_Inbounds n). \<exists>h ss. IsHysteria2 i \<and> in_Hysteria2 i = Some h \<and>
        subs (in_ID i) = Some ss \<and> sid \<in> set ss \<and> p = hysteria2Proxy n i h)"
proof -
  have one: "(sid, p) \<in> set (case in_Hysteria2 i of
         Some h \<Rightarrow> if IsHysteria2 i
                   then map (\<lambda>s. (s, hysteria2Proxy n i h)) (case subs (in_ID i) of None \<Rightarrow> [] | Some ss \<Rightarrow> ss)
                   else []
       | None \<Rightarrow> []) \<longleftrightarrow> (\<exists>h ss. IsHysteria2 i \<and> in_Hysteria2 i = Some h \<and>
        subs (in_ID i) = Some ss \<and> sid \<in> set ss \<and> p = hysteria2Proxy n i h)" for n i
    by (cases "in_Hysteria2 i"; cases "subs (in_ID i)") auto
  have "p \<in> set (static_proxies nodes subs sid) \<longleftrightarrow> (sid, p) \<in> set (static_grants nodes subs)"
    by (force simp: static_proxies_def)
  also have "\<dots> \<longleftrightarrow> (\<exists>n \<in> set nodes. \<exists>i \<in> set (nd_Inbounds n). \<exists>h ss. IsHysteria2 i \<and> in_Hysteria2 i = Some h \<and>
        subs (in_ID i) = Some ss \<and> sid \<in> set ss \<and> p = hysteria2Proxy n i h)"
    unfolding static_grants_def set_concat set_map UN_iff bex_simps image_iff one by blast
  finally show ?thesis .
qed

lemma fetched_proxy_wf:
  assumes "fetch client (Inr nodes) (Inr subs) = Inr fl" and "Fleet_Sub (Some fl) sid = Some s"
    and "p \<in> set (sb_Proxies s)"
  shows "proxy_wf p \<and> (\<exists>n \<in> set nodes. \<exists>i \<in> set (nd_Inbounds n). px_Name p = InboundLabel n i \<and> px_InboundID p = in_ID i)"
proof -
  have "sb_Proxies s = map snd (vless_grants client nodes sid) @ static_proxies nodes subs sid"
    using fetched_Sub [OF assms(1), of sid] assms(2) by (auto split: if_splits)
  with assms(3) consider cs where "(cs, p) \<in> set (vless_grants client nodes sid)"
    | "p \<in> set (static_proxies nodes subs sid)" by auto
  then show ?thesis
  proof cases
    case 1
    from vless_grants_from [OF this] show ?thesis
      by (fastforce simp: client_proxy_def inbound_base_def streamToProxy_def proxy_wf_def)
  next
    case 2
    then show ?thesis
      by (fastforce simp: static_proxies_from hysteria2Proxy_def proxy_wf_def)
  qed
qed

section \<open>Properties\<close>

text \<open>A registry of one node with a VLESS and a hysteria2 inbound, and a panel listing the first.\<close>

definition demo_force :: Inbound where
  "demo_force = \<lparr>in_ID = 7, in_Name = ''force'', in_Port = 443, in_Kind = ''vless'', in_Hysteria2 = None\<rparr>"

definition demo_hy :: Inbound where
  "demo_hy = \<lparr>in_ID = 8, in_Name = ''hy'', in_Port = 8443, in_Kind = ''hysteria2'',
     in_Hysteria2 = Some \<lparr>hs_Password = ''pw'', hs_Obfs = [], hs_ObfsPassword = [], hs_SNI = [],
                          hs_Up = [], hs_Down = []\<rparr>\<rparr>"

definition demo_node :: Node where
  "demo_node =
     \<lparr>nd_ID = 3, nd_Name = ''RU1'', nd_VPNHost = ''vpn.example.org'', nd_PanelBaseURL = ''http://panel'',
      nd_PanelBasePath = ''/x'', nd_Token = ''t'', nd_Inbounds = [demo_force, demo_hy]\<rparr>"

definition down_node :: Node where
  "down_node = demo_node\<lparr>nd_ID := 4, nd_Name := ''DE1'', nd_PanelBaseURL := ''http://other''\<rparr>"

definition demo_stream :: StreamInfo where
  "demo_stream =
     \<lparr>st_Network = ''tcp'', st_Security = ''reality'', st_PublicKey = ''pk'', st_ShortID = ''ab'',
      st_ServerName = ''example.org'', st_Fingerprint = ''chrome'', st_SNI = [], st_ALPN = [],
      st_WSPath = [], st_WSHost = [], st_GRPCService = []\<rparr>"

definition demo_stat :: PanelClientStat where
  "demo_stat =
     \<lparr>ps_Email = ''ann'', ps_UUID = ''11111111-1111-4111-8111-111111111111'', ps_SubID = ''s1'',
      ps_Up = 5, ps_Down = 6, ps_Total = 0, ps_Expiry = 0, ps_Enable = True\<rparr>"

definition demo_panel :: PanelInbound where
  "demo_panel =
     \<lparr>pi_ID = 1, pi_Port = 443, pi_Remark = [], pi_Enable = True, pi_Stream = demo_stream,
      pi_Clients = [\<lparr>pc_UUID = ''11111111-1111-4111-8111-111111111111'', pc_Email = ''ann'',
                     pc_Flow = ''xtls-rprx-vision'', pc_SubID = ''s1''\<rparr>],
      pi_Stats = [demo_stat]\<rparr>"

definition demo_client :: list_inbounds where
  "demo_client t = (if t = target demo_node then Inr [demo_panel] else Inl ''down'')"

definition demo_subs :: "int \<rightharpoonup> string list" where "demo_subs = [8 \<mapsto> [''s1'']]"

definition demo_proxy :: Proxy where
  "demo_proxy = client_proxy (inbound_base demo_node demo_force demo_panel) (flowByEmail (pi_Clients demo_panel)) demo_stat"

lemma demo_reachable: "reachable_snaps demo_client [demo_node] = [\<lparr>sn_node = demo_node, sn_inbounds = [demo_panel]\<rparr>]"
  by (simp add: reachable_snaps_def demo_client_def)

lemma demo_node_inbounds: "nd_Inbounds demo_node = [demo_force, demo_hy]"
  by (simp add: demo_node_def)

lemma demo_find: "findByPort [demo_panel] (in_Port demo_force) = Some demo_panel"
  "findByPort [demo_panel] (in_Port demo_hy) = None"
  by (simp_all add: findByPort_def demo_force_def demo_hy_def demo_panel_def)

lemma demo_stats: "pi_Enable demo_panel" "pi_Stats demo_panel = [demo_stat]" "ps_Enable demo_stat"
  "ps_SubID demo_stat = ''s1''"
  by (simp_all add: demo_panel_def demo_stat_def)

lemma demo_grants: "vless_grants demo_client [demo_node] ''s1'' = [(demo_stat, demo_proxy)]"
  by (simp add: vless_grants_def demo_reachable panel_grants_def demo_node_inbounds inbound_grants_def demo_find
      demo_stats granted_to_def demo_proxy_def)

lemma demo_fetched: "\<exists>fl. fetch demo_client (Inr [demo_node]) (Inr demo_subs) = Inr fl"
  by (simp add: fetch_Inr_iff demo_client_def)

text \<open>
  C15: A subscription is computed from its grants alone: when the fleet is fetched, a subscription id
  is known exactly when it has a VLESS grant (an enabled client stat under that id of an enabled
  panel inbound on the port of a configured inbound of a reachable node) or a connection to a
  hysteria2 inbound with credentials; its proxies are those of its grants in registry order, VLESS
  before hysteria2, its emails the non-empty emails of its stats without repetition, its traffic the
  sum over its stats and its quota and expiry their signed maxima, never below 0.
\<close>
theorem subscriber_from_grants:
  assumes "fetch client (Inr nodes) (Inr subs) = Inr fl"
  shows "case Fleet_Sub (Some fl) sid of
      None \<Rightarrow> vless_grants client nodes sid = [] \<and> static_proxies nodes subs sid = []
    | Some s \<Rightarrow>
        (vless_grants client nodes sid \<noteq> [] \<or> static_proxies nodes subs sid \<noteq> []) \<and> sb_SubID s = sid \<and>
        sb_Proxies s = map snd (vless_grants client nodes sid) @ static_proxies nodes subs sid \<and>
        distinct (sb_Emails s) \<and>
        set (sb_Emails s) = (ps_Email \<circ> fst) ` set (vless_grants client nodes sid) - {[]} \<and>
        sb_Up s = sum_list (map (ps_Up \<circ> fst) (vless_grants client nodes sid)) \<and>
        sb_Down s = sum_list (map (ps_Down \<circ> fst) (vless_grants client nodes sid)) \<and>
        sint (sb_Total s) = Max (insert 0 (set (map (sint \<circ> ps_Total \<circ> fst) (vless_grants client nodes sid)))) \<and>
        sint (sb_Expiry s) = Max (insert 0 (set (map (sint \<circ> ps_Expiry \<circ> fst) (vless_grants client nodes sid))))"
  by (simp only: fetched_Sub [OF assms])
    (simp add: grants_subscriber_fields(2-5) [unfolded o_def] grants_subscriber_limits [unfolded o_def] o_def)

theorem subscriber_from_grants_witness:
  "\<exists>fl s. fetch demo_client (Inr [demo_node]) (Inr demo_subs) = Inr fl \<and> Fleet_Sub (Some fl) ''s1'' = Some s \<and>
     map px_Name (sb_Proxies s) = [''RU1-force'', ''RU1-hy''] \<and> sb_Up s = 5"
proof -
  obtain fl where fl: "fetch demo_client (Inr [demo_node]) (Inr demo_subs) = Inr fl"
    using demo_fetched by blast
  have h: "map px_Name (static_proxies [demo_node] demo_subs ''s1'') = [''RU1-hy'']"
    by (simp add: static_proxies_def static_grants_def demo_node_def demo_force_def demo_hy_def demo_subs_def IsHysteria2_def
        InboundKindHysteria2_def hysteria2Proxy_def InboundLabel_def)
  have n: "px_Name demo_proxy = ''RU1-force''"
    by (simp add: demo_proxy_def client_proxy_def inbound_base_def streamToProxy_def InboundLabel_def demo_node_def
        demo_force_def)
  obtain s where s: "Fleet_Sub (Some fl) ''s1'' = Some s"
    using fetched_Sub [OF fl, of "''s1''"] demo_grants by auto
  have "map px_Name (sb_Proxies s) = [''RU1-force'', ''RU1-hy'']" and "sb_Up s = ps_Up demo_stat"
    using subscriber_from_grants [OF fl, of "''s1''", unfolded s demo_grants] by (simp_all add: h n)
  with fl s show ?thesis by (simp add: demo_stat_def)
qed

text \<open>
  C36: Traffic totals are exact as long as they fit: when the counters of a subscription's stats are
  not negative and their true sums stay below 2 ^ 63, the stored 64-bit totals are those sums.
\<close>
theorem traffic_totals_exact:
  assumes "fetch client (Inr nodes) (Inr subs) = Inr fl" and "Fleet_Sub (Some fl) sid = Some s"
    and "\<forall>(cs, p) \<in> set (vless_grants client nodes sid). 0 \<le> sint (ps_Up cs) \<and> 0 \<le> sint (ps_Down cs)"
    and "sum_list (map (sint \<circ> ps_Up \<circ> fst) (vless_grants client nodes sid)) < 2 ^ 63"
    and "sum_list (map (sint \<circ> ps_Down \<circ> fst) (vless_grants client nodes sid)) < 2 ^ 63"
  shows "sint (sb_Up s) = sum_list (map (sint \<circ> ps_Up \<circ> fst) (vless_grants client nodes sid)) \<and>
    sint (sb_Down s) = sum_list (map (sint \<circ> ps_Down \<circ> fst) (vless_grants client nodes sid))"
proof -
  have s: "sb_Up s = sum_list (map (ps_Up \<circ> fst) (vless_grants client nodes sid))"
    "sb_Down s = sum_list (map (ps_Down \<circ> fst) (vless_grants client nodes sid))"
    using fetched_Sub [OF assms(1), of sid] assms(2)
    by (auto simp: grants_subscriber_fields(2,3) split: if_splits)
  have exact: "sint (sum_list (map f gs)) = sum_list (map (sint \<circ> f) gs)"
    if "\<forall>g \<in> set gs. 0 \<le> sint (f g)" "sum_list (map (sint \<circ> f) gs) < 2 ^ 63" for f :: "_ \<Rightarrow> i64" and gs
    using sint_sum_list [of gs f] that by (simp add: o_def)
  have pos: "\<forall>g \<in> set (vless_grants client nodes sid). 0 \<le> sint ((ps_Up \<circ> fst) g)"
    "\<forall>g \<in> set (vless_grants client nodes sid). 0 \<le> sint ((ps_Down \<circ> fst) g)"
    using assms(3) by auto
  show ?thesis
    using exact [OF pos(1)] exact [OF pos(2)] assms(4,5) by (simp add: s o_def)
qed

theorem traffic_totals_exact_witness:
  "\<exists>fl s. fetch demo_client (Inr [demo_node]) (Inr demo_subs) = Inr fl \<and> Fleet_Sub (Some fl) ''s1'' = Some s \<and>
     sint (sb_Up s) = 5 \<and> sint (sb_Down s) = 6"
proof -
  obtain fl where fl: "fetch demo_client (Inr [demo_node]) (Inr demo_subs) = Inr fl"
    using demo_fetched by blast
  from fetched_Sub [OF fl, of "''s1''"] demo_grants obtain s where s: "Fleet_Sub (Some fl) ''s1'' = Some s" by auto
  from traffic_totals_exact [OF fl s] have "sint (sb_Up s) = 5 \<and> sint (sb_Down s) = 6"
    by (simp add: demo_grants) (simp add: demo_stat_def)
  with fl s show ?thesis by blast
qed

text \<open>
  Exactly one total outage is an error: the fetch fails only when there are nodes and every
  panel failed; otherwise an unreachable panel just drops its own node, the panel side of the fleet is that of
  the registry without the unreachable nodes.
\<close>
theorem partial_outage_tolerated:
  "(isl (fetch client (Inr nodes) (Inr subs)) \<longleftrightarrow> nodes \<noteq> [] \<and> (\<forall>n \<in> set nodes. isl (client (target n)))) \<and>
   (isl (fetch client (Inr nodes) (Inr subs)) \<or>
     fetch client (Inr nodes) (Inr Map.empty) =
     fetch client (Inr (filter (\<lambda>n. \<not> isl (client (target n))) nodes)) (Inr Map.empty))"
proof (intro conjI)
  show "isl (fetch client (Inr nodes) (Inr subs)) \<longleftrightarrow> nodes \<noteq> [] \<and> (\<forall>n \<in> set nodes. isl (client (target n)))"
    using all_failed_iff [of client nodes] by (auto simp: fetch_def split_beta Let_def)
next
  let ?up = "filter (\<lambda>n. \<not> isl (client (target n))) nodes"
  have up: "reachable_snaps client ?up = reachable_snaps client nodes"
    by (induction nodes) (auto simp: reachable_snaps_def split: sum.split)
  have none: "addHysteria2Inbounds ns Map.empty fl = fl" for ns fl
  proof -
    have "add_static_inbound Map.empty n i fl = fl" for n i fl
      by (simp add: add_static_inbound_def split: option.split)
    then have "fold (add_static_inbound Map.empty n) is fl = fl" for n "is" fl
      by (induction "is") simp_all
    then show ?thesis unfolding addHysteria2Inbounds_def by (induction ns) simp_all
  qed
  show "isl (fetch client (Inr nodes) (Inr subs)) \<or>
     fetch client (Inr nodes) (Inr Map.empty) = fetch client (Inr ?up) (Inr Map.empty)"
    using all_failed_iff [of client nodes] all_failed_iff [of client ?up]
    by (auto simp: fetch_def split_beta Let_def fetch_snaps_fst up none)
qed

theorem partial_outage_tolerated_witness:
  "isl (fetch demo_client (Inr [down_node]) (Inr demo_subs)) \<and>
   fetch demo_client (Inr [demo_node, down_node]) (Inr Map.empty) = fetch demo_client (Inr [demo_node]) (Inr Map.empty)"
proof -
  have up: "\<not> isl (demo_client (target demo_node))" and down: "isl (demo_client (target down_node))"
    by (simp_all add: demo_client_def down_node_def demo_node_def target_def)
  have "isl (fetch demo_client (Inr [down_node]) (Inr demo_subs))"
    using partial_outage_tolerated [of demo_client "[down_node]" demo_subs] down by simp
  moreover have "filter (\<lambda>n. \<not> isl (demo_client (target n))) [demo_node, down_node] = [demo_node]"
    using up down by simp
  moreover have "\<exists>n \<in> set [demo_node, down_node]. \<not> isl (demo_client (target n))"
    using up by simp
  ultimately show ?thesis
    using partial_outage_tolerated [of demo_client "[demo_node, down_node]" Map.empty] by metis
qed

text \<open>
  The health badge: the client of a user is reported missing from an inbound exactly when the
  inbound belongs to a node whose panel answered and no panel inbound matched to it lists the email;
  an inbound of an unreachable node, or an unknown one, is never reported.
\<close>
theorem ClientMissing_observed:
  assumes "fetch client (Inr nodes) (Inr subs) = Inr fl"
  shows "ClientMissing (Some fl) i email \<longleftrightarrow>
    (\<exists>n \<in> set nodes. \<exists>cfg \<in> set (nd_Inbounds n). \<not> isl (client (target n)) \<and> in_ID cfg = i) \<and>
    \<not> (\<exists>n \<in> set nodes. \<exists>cfg \<in> set (nd_Inbounds n). \<exists>inbs. client (target n) = Inr inbs \<and> in_ID cfg = i \<and>
         email \<in> inbound_emails \<lparr>sn_node = n, sn_inbounds = inbs\<rparr> cfg)"
  using assms by (rule ClientMissing_iff)

theorem ClientMissing_observed_witness:
  "\<exists>fl. fetch demo_client (Inr [demo_node]) (Inr demo_subs) = Inr fl \<and>
     \<not> ClientMissing (Some fl) 7 ''ann'' \<and> ClientMissing (Some fl) 7 ''bob'' \<and> \<not> ClientMissing (Some fl) 9 ''ann''"
proof -
  obtain fl where fl: "fetch demo_client (Inr [demo_node]) (Inr demo_subs) = Inr fl"
    using demo_fetched by blast
  note c = ClientMissing_observed [OF fl]
  have e: "inbound_emails \<lparr>sn_node = demo_node, sn_inbounds = [demo_panel]\<rparr> demo_force = {''ann''}"
    by (simp add: inbound_emails_def demo_find) (simp add: demo_panel_def)
  have ids: "in_ID demo_force = 7" "in_ID demo_hy = 8" by (simp_all add: demo_force_def demo_hy_def)
  show ?thesis using fl
    by (intro exI [of _ fl]) (simp add: c demo_client_def demo_node_inbounds ids e)
qed


text \<open>
  C37: Every proxy of a fetched subscriber has exactly one protocol variant and carries the label and
  the id of a configured inbound of the registry.
\<close>
theorem fetched_proxies_well_formed:
  assumes "fetch client (Inr nodes) (Inr subs) = Inr fl" and "Fleet_Sub (Some fl) sid = Some s"
  shows "\<forall>p \<in> set (sb_Proxies s). proxy_wf p \<and>
    (\<exists>n \<in> set nodes. \<exists>i \<in> set (nd_Inbounds n). px_Name p = InboundLabel n i \<and> px_InboundID p = in_ID i)"
  using fetched_proxy_wf [OF assms] by blast

theorem fetched_proxies_well_formed_witness:
  "\<exists>fl s. fetch demo_client (Inr [demo_node]) (Inr demo_subs) = Inr fl \<and> Fleet_Sub (Some fl) ''s1'' = Some s \<and>
     sb_Proxies s \<noteq> [] \<and> (\<forall>p \<in> set (sb_Proxies s). proxy_wf p)"
proof -
  obtain fl where fl: "fetch demo_client (Inr [demo_node]) (Inr demo_subs) = Inr fl"
    using demo_fetched by blast
  obtain s where s: "Fleet_Sub (Some fl) ''s1'' = Some s" "sb_Proxies s \<noteq> []"
    using fetched_Sub [OF fl, of "''s1''"] demo_grants by auto
  from fetched_proxies_well_formed [OF fl s(1)] fl s show ?thesis by blast
qed

text \<open>
  A hysteria2 connection is served and flagged at the same time: a user connected to a hysteria2
  inbound of a reachable node gets its proxy in the subscription, yet the health badge reports the
  client of every email missing from that inbound, because no panel lists hysteria2 clients and
  buildFleet records an empty client set for the inbound.
\<close>
theorem hysteria2_flagged_missing:
  assumes "fetch client (Inr nodes) (Inr subs) = Inr fl"
    and "n \<in> set nodes" and "i \<in> set (nd_Inbounds n)" and "client (target n) = Inr inbs"
    and "IsHysteria2 i" and "in_Hysteria2 i = Some h" and "in_Port i \<notin> pi_Port ` set inbs"
    and "subs (in_ID i) = Some ss" and "sid \<in> set ss"
    and "\<forall>n' \<in> set nodes. \<forall>i' \<in> set (nd_Inbounds n'). in_ID i' = in_ID i \<longrightarrow> n' = n \<and> i' = i"
  shows "ClientMissing (Some fl) (in_ID i) email \<and>
    (\<exists>s. Fleet_Sub (Some fl) sid = Some s \<and> hysteria2Proxy n i h \<in> set (sb_Proxies s))"
proof (rule conjI)
  have none: "inbound_emails \<lparr>sn_node = n, sn_inbounds = inbs\<rparr> i = {}"
  proof -
    have "findByPort inbs (in_Port i) = None"
      using assms(7) unfolding findByPort_def find_None_iff by (metis image_eqI)
    then show ?thesis by (simp add: inbound_emails_def)
  qed
  show "ClientMissing (Some fl) (in_ID i) email"
    unfolding ClientMissing_iff [OF assms(1)]
  proof (intro conjI notI)
    show "\<exists>n\<in>set nodes. \<exists>cfg\<in>set (nd_Inbounds n). \<not> isl (client (target n)) \<and> in_ID cfg = in_ID i"
      using assms(2-4) by (intro bexI [of _ n] bexI [of _ i]) simp_all
  next
    assume "\<exists>n\<in>set nodes. \<exists>cfg\<in>set (nd_Inbounds n). \<exists>inbs. client (target n) = Inr inbs \<and> in_ID cfg = in_ID i \<and>
         email \<in> inbound_emails \<lparr>sn_node = n, sn_inbounds = inbs\<rparr> cfg"
    then obtain n' i' inbs' where n': "n' \<in> set nodes" "i' \<in> set (nd_Inbounds n')" "in_ID i' = in_ID i"
      and e: "client (target n') = Inr inbs'" "email \<in> inbound_emails \<lparr>sn_node = n', sn_inbounds = inbs'\<rparr> i'"
      by blast
    from bspec [OF bspec [OF assms(10) n'(1)] n'(2)] n'(3) have "n' = n" "i' = i" by simp_all
    with e assms(4) none show False by simp
  qed
  have "hysteria2Proxy n i h \<in> set (static_proxies nodes subs sid)"
    unfolding static_proxies_from
    by (intro bexI [of _ n] bexI [of _ i] exI [of _ h] exI [of _ ss] conjI refl assms(2,3,5,6,8,9))
  then show "\<exists>s. Fleet_Sub (Some fl) sid = Some s \<and> hysteria2Proxy n i h \<in> set (sb_Proxies s)"
    using fetched_Sub [OF assms(1), of sid] by force
qed

theorem hysteria2_flagged_missing_witness:
  "\<exists>fl s h. fetch demo_client (Inr [demo_node]) (Inr demo_subs) = Inr fl \<and> ClientMissing (Some fl) 8 ''ann'' \<and>
     Fleet_Sub (Some fl) ''s1'' = Some s \<and> hysteria2Proxy demo_node demo_hy h \<in> set (sb_Proxies s)"
proof -
  obtain fl where fl: "fetch demo_client (Inr [demo_node]) (Inr demo_subs) = Inr fl"
    using demo_fetched by blast
  obtain h where h: "in_Hysteria2 demo_hy = Some h" by (simp add: demo_hy_def)
  have ids: "in_ID demo_hy = 8" "in_ID demo_force = 7" by (simp_all add: demo_hy_def demo_force_def)
  have "ClientMissing (Some fl) (in_ID demo_hy) ''ann'' \<and>
      (\<exists>s. Fleet_Sub (Some fl) ''s1'' = Some s \<and> hysteria2Proxy demo_node demo_hy h \<in> set (sb_Proxies s))"
    by (rule hysteria2_flagged_missing [OF fl, where inbs = "[demo_panel]" and ss = "[''s1'']"])
      (simp_all add: h demo_node_inbounds demo_client_def ids demo_subs_def,
       simp_all add: IsHysteria2_def InboundKindHysteria2_def demo_hy_def demo_panel_def demo_force_def)
  with fl ids show ?thesis by auto
qed

end
