(* ===== verification/ProvisioningProperties.thy ===== *)
theory ProvisioningProperties
  imports ProvisioningFacts FleetProperties
begin

text \<open>
  The properties of provisioning: what each operation stores, which panel calls it makes, and what
  well-behaved panels host afterwards.
\<close>

section \<open>Running the operations\<close>

lemma target_id: "inbound_index nodes i = Some r \<Longrightarrow> ct_InboundID (ref_target r) = i"
  unfolding inbound_index_def by (drule fill_map_SomeD) (auto simp: ref_target_def)

lemma desired_ids:
  assumes "desiredTargets (inbound_index (ListNodes dec db)) ids = Inr ts"
  shows "targetInboundIDs ts = dedup {} ids" "set ids \<subseteq> ir_id ` set (db_inbounds db)"
proof -
  have "ct_InboundID (ref_target (the (inbound_index (ListNodes dec db) i))) = i"
    if "i \<in> set (dedup {} ids)" for i
    using that assms target_id by (fastforce simp: desiredTargets_Inr set_dedup)
  with assms show "targetInboundIDs ts = dedup {} ids"
    by (simp add: desiredTargets_Inr targetInboundIDs_def map_idI)
  show "set ids \<subseteq> ir_id ` set (db_inbounds db)"
    using assms inbound_index_None by (fastforce simp: desiredTargets_Inr)
qed

lemma GetUser_fields:
  assumes "store_inv db" and "GetUser i db = Some u"
  shows "us_ID u = i" "i \<in> ur_id ` set (db_users db)"
    "us_Connections u = joined_connections (\<lambda>c. cr_user c = i) db"
  using GetUser_SomeD [OF assms] by (auto simp: user_of_row_def)

lemma ReplaceConnections_ok:
  assumes "store_inv db" and "map_order ord" and "i \<in> ur_id ` set (db_users db)"
    and "set is \<subseteq> ir_id ` set (db_inbounds db)"
  shows "\<exists>db'. ReplaceConnections ord now i is db = (Inr (), db')"
  using replace_connections_tx_ok [OF assms(2) store_invD(2) [OF assms(1)] assms(3,4), of now]
  by (auto simp: ReplaceConnections_def in_tx_def)

text \<open>After its checks an edit always stores the new selection and description; only the panels can fail.\<close>

lemma EditUser_runs:
  assumes inv: "store_inv (pv_db st)" and ord: "map_order (en_ord en)"
    and checks: "edit_checks en p st = (Inr (u, desc, desired), h)"
  shows "\<exists>db' v. users_view (pv_db st) (ue_ID p) = Some v \<and> store_inv db' \<and>
    users_view db' = (users_view (pv_db st))(ue_ID p \<mapsto> v\<lparr>uv_Inbounds := set (ue_InboundIDs p), uv_Description := desc\<rparr>) \<and>
    EditUser en p st =
      (fst (syncPanels (en_panels en) (en_genUUID en) (en_ord en) (node_index (ListNodes (en_dec en) (pv_db st)))
              u (us_Connections u) desired False h),
       \<lparr>pv_db = db', pv_calls = snd (syncPanels (en_panels en) (en_genUUID en) (en_ord en)
              (node_index (ListNodes (en_dec en) (pv_db st))) u (us_Connections u) desired False h)\<rparr>)"
proof -
  let ?db = "pv_db st"
  have u: "GetUser (ue_ID p) ?db = Some u"
    and d: "desiredTargets (inbound_index (ListNodes (en_dec en) ?db)) (ue_InboundIDs p) = Inr desired"
    using checks by (auto simp: edit_checks_def Let_def split: if_splits sum.splits option.splits prod.splits)
  note f = GetUser_fields [OF inv u] and ids = desired_ids [OF d]
  have sub: "set (targetInboundIDs desired) \<subseteq> ir_id ` set (db_inbounds ?db)" using ids by (simp add: set_dedup)
  have "ue_ID p \<in> dom (users_view ?db)" using f(2) by (simp add: dom_users_view)
  then obtain v where v: "users_view ?db (ue_ID p) = Some v" by auto
  obtain db1 where db1: "ReplaceConnections (en_ord en) (en_now en) (ue_ID p) (targetInboundIDs desired) ?db = (Inr (), db1)"
    using ReplaceConnections_ok [OF inv ord f(2) sub] by blast
  from users.edit_view [OF inv ord this v, of desc] obtain db2 where
    db2: "SetDescription (ue_ID p) desc db1 = (Inr (), db2)" "store_inv db2"
      "users_view db2 = (users_view ?db)(ue_ID p \<mapsto> v\<lparr>uv_Inbounds := set (targetInboundIDs desired), uv_Description := desc\<rparr>)"
    by blast
  have "set (targetInboundIDs desired) = set (ue_InboundIDs p)" by (simp add: ids(1) set_dedup)
  with v db2 db1 checks show ?thesis
    by (intro exI [of _ db2] exI [of _ v]) (simp add: EditUser_def f(1) split_beta Let_def)
qed

lemma EditUser_refused:
  "edit_checks en p st = (Inl e, h) \<Longrightarrow> EditUser en p st = (Some e, st\<lparr>pv_calls := h\<rparr>)"
  by (simp add: EditUser_def)

lemma edit_checks_calls:
  "\<exists>new. snd (edit_checks en p st) = pv_calls st @ new \<and> (\<forall>c \<in> set new. \<exists>t. c = ListCall t)"
proof -
  have e: "\<exists>new. h' = h @ new \<and> (\<forall>c \<in> set new. \<exists>t. c = ListCall t)"
    if "ensureEmailFree pn byID nids email h = (r, h')" for pn byID nids email h r h'
    using ensureEmailFree_calls [of pn byID nids email h] that by simp
  show ?thesis
    unfolding edit_checks_def Let_def by (auto split: sum.split option.split prod.split dest!: e)
qed


lemma create_checks_Inr:
  assumes "create_checks en p st = (Inr (u, ts), h)"
  shows "nameRe (us_Name u)" "cn_InboundID ` set (us_Connections u) = set (uc_InboundIDs p)"
proof -
  let ?nodes = "ListNodes (en_dec en) (pv_db st)"
  from assms obtain name desc where
    n: "validateName (uc_Name p) = Inr name" "desiredTargets (inbound_index ?nodes) (uc_InboundIDs p) = Inr ts"
    and u: "us_Name u = name" "us_Connections u = map (\<lambda>t. \<lparr>cn_ID = 0, cn_UserID = 0, cn_InboundID = ct_InboundID t,
        cn_CreatedAt = 0, cn_NodeID = 0, cn_Node = [], cn_Name = [], cn_Port = 0, cn_Kind = []\<rparr>) ts"
    by (auto simp: create_checks_def lift_entity_def Let_def bind_err_Inr_iff
        split: sum.splits if_splits prod.splits option.splits)
  show "nameRe (us_Name u)" using n(1) u(1) by (auto simp: validateName_def Let_def split: if_splits)
  have "ct_InboundID ` set ts = set (targetInboundIDs ts)" by (simp add: targetInboundIDs_def)
  also have "\<dots> = set (uc_InboundIDs p)" by (simp add: desired_ids(1) [OF n(2)] set_dedup)
  finally show "cn_InboundID ` set (us_Connections u) = set (uc_InboundIDs p)"
    by (simp add: u(2) image_image)
qed

lemma create_checks_calls:
  "\<exists>new. snd (create_checks en p st) = pv_calls st @ new \<and> (\<forall>c \<in> set new. \<exists>t. c = ListCall t)"
proof -
  have e: "\<exists>new. h' = h @ new \<and> (\<forall>c \<in> set new. \<exists>t. c = ListCall t)"
    if "ensureEmailFree pn byID nids email h = (r, h')" for pn byID nids email h r h'
    using ensureEmailFree_calls [of pn byID nids email h] that by simp
  show ?thesis
    unfolding create_checks_def Let_def by (auto split: sum.split option.split prod.split dest!: e)
qed

lemma list_call_kinds: "\<exists>t. c = ListCall t \<Longrightarrow> \<not> is_del c \<and> \<not> is_add c"
  by auto

section \<open>A sample installation\<close>

text \<open>
  The sample database with a hysteria2 inbound; user 5 is connected to it only, user 6 to the VLESS
  inbound. The one panel always lists the same inbound, hosting a client called ann, and accepts
  every change.
\<close>

definition prov_db :: db where
  "prov_db = sample_db\<lparr>
     db_inbounds := db_inbounds sample_db @
       [\<lparr>ir_id = 8, ir_node = 3, ir_name = ''hy'', ir_port = 8443, ir_kind = ''hysteria2'', ir_settings = Some ''jpw''\<rparr>],
     db_conns := [\<lparr>cr_id = 1, cr_user = 5, cr_inbound = 8, cr_created = 0\<rparr>,
                  \<lparr>cr_id = 2, cr_user = 6, cr_inbound = 7, cr_created = 0\<rparr>],
     sq_inbounds := 8, sq_conns := 2\<rparr>"

lemma prov_db_inv: "store_inv prov_db"
  by (simp add: store_inv_def db_inv_def constraint_defs empty_db_def prov_db_def sample_db_def config_local_def
      parents_local_def targets_local_def members_local_def ids_ascend_def positive_ids_def)

definition prov_node :: Node where
  "prov_node = node_with password_dec prov_db (hd (db_nodes prov_db))"

definition prov_panels :: panels where
  "prov_panels =
     \<lparr>pn_list = \<lambda>h t. Inr [demo_panel], pn_add = \<lambda>h t is cs. None, pn_del = \<lambda>h t email. None\<rparr>"

definition prov_sample :: prov_env where
  "prov_sample =
     \<lparr>en_panels = prov_panels, en_genUUID = \<lambda>h. ''22222222-2222-4222-8222-222222222222'',
      en_bytes = replicate 16 (CHR ''A''), en_ord = rev, en_now = 9, en_dec = password_dec\<rparr>"

lemma prov_ord: "map_order (en_ord prov_sample)"
  by (simp add: prov_sample_def map_order_def)

definition prov_start :: prov_state where "prov_start = \<lparr>pv_db = prov_db, pv_calls = []\<rparr>"

lemma prov_start_db [simp]: "pv_db prov_start = prov_db" "pv_calls prov_start = []"
  by (simp_all add: prov_start_def)

lemma prov_nodes: "ListNodes password_dec prov_db = [prov_node]"
  by (simp add: ListNodes_eq prov_node_def) (simp add: prov_db_def sample_db_def)

definition prov_hy :: Inbound where
  "prov_hy =
  \<lparr>in_ID = 8, in_Name = ''hy'', in_Port = 8443, in_Kind = ''hysteria2'',
   in_Hysteria2 = Some \<lparr>hs_Password = ''pw'', hs_Obfs = [], hs_ObfsPassword = [], hs_SNI = [], hs_Up = [], hs_Down = []\<rparr>\<rparr>"

definition prov_main :: Inbound where
  "prov_main =
  \<lparr>in_ID = 7, in_Name = ''main'', in_Port = 443, in_Kind = ''vless'', in_Hysteria2 = None\<rparr>"

lemma prov_node_eq: "prov_node = \<lparr>nd_ID = 3, nd_Name = ''nl'', nd_VPNHost = ''h'', nd_PanelBaseURL = ''u'', nd_PanelBasePath = ''p'',
  nd_Token = ''t'', nd_Inbounds = [prov_main, prov_hy]\<rparr>"
  by (simp add: prov_node_def node_with_def node_of_row_def prov_db_def sample_db_def inbound_of_row_def applyKindSettings_def
     InboundKindHysteria2_def password_dec_def prov_hy_def prov_main_def Let_def)

lemma prov_index: "node_index [prov_node] = [3 \<mapsto> prov_node]"
  "inbound_index [prov_node] = [7 \<mapsto> \<lparr>rf_node = prov_node, rf_in = prov_main\<rparr>, 8 \<mapsto> \<lparr>rf_node = prov_node, rf_in = prov_hy\<rparr>]"
  by (simp_all add: node_index_def inbound_index_def fill_map_def prov_node_eq) (simp add: prov_main_def prov_hy_def)

lemma prov_user: "\<exists>u. GetUser 5 prov_db = Some u \<and> us_Name u = ''ann'' \<and> us_Connections u = [\<lparr>cn_ID = 1, cn_UserID = 5, cn_InboundID = 8,
   cn_CreatedAt = 0, cn_NodeID = 3, cn_Node = ''nl'', cn_Name = ''hy'', cn_Port = 8443, cn_Kind = ''hysteria2''\<rparr>]"
  by (simp add: GetUser_def loadConnections_def scanConnections_def user_of_row_def joined_connections_def join_conn_def prov_db_def sample_db_def)

lemma prov_sample_sel [simp]:
  "en_panels prov_sample = prov_panels" "en_dec prov_sample = password_dec" "en_ord prov_sample = rev"
  by (simp_all add: prov_sample_def)

lemma prov_taken: "emailExistsOnPanel prov_panels h t email = Inr (email = ''ann'')"
  by (auto simp: emailExistsOnPanel_def prov_panels_def demo_panel_def)

definition zoe :: UserCreateParams where
  "zoe = \<lparr>uc_Name = ''Zoe '', uc_Description = None, uc_InboundIDs = [7, 8]\<rparr>"

definition prov_main_target :: connTarget where
  "prov_main_target = \<lparr>ct_NodeID = 3, ct_Node = ''nl'', ct_Port = 443, ct_InboundID = 7, ct_Kind = ''vless''\<rparr>"

definition prov_hy_target :: connTarget where
  "prov_hy_target = \<lparr>ct_NodeID = 3, ct_Node = ''nl'', ct_Port = 8443, ct_InboundID = 8, ct_Kind = ''hysteria2''\<rparr>"

lemma prov_refs:
  "ref_target \<lparr>rf_node = prov_node, rf_in = prov_main\<rparr> = prov_main_target"
  "ref_target \<lparr>rf_node = prov_node, rf_in = prov_hy\<rparr> = prov_hy_target"
  by (simp_all add: ref_target_def prov_node_eq prov_main_def prov_hy_def prov_main_target_def prov_hy_target_def)

lemma prov_target_sel [simp]:
  "ct_NodeID prov_main_target = 3" "ct_NodeID prov_hy_target = 3"
  "ct_InboundID prov_main_target = 7" "ct_InboundID prov_hy_target = 8"
  by (simp_all add: prov_main_target_def prov_hy_target_def)

lemma zoe_targets: "desiredTargets (inbound_index [prov_node]) [7, 8] = Inr [prov_main_target, prov_hy_target]"
  by (simp add: desiredTargets_def prov_index prov_refs)

lemma zoe_name: "validateName ''Zoe '' = Inr ''zoe''" by code_simp

lemma zoe_checks:
  "\<exists>u ts. create_checks prov_sample zoe prov_start = (Inr (u, ts), [ListCall (target prov_node)]) \<and>
     us_Name u = ''zoe'' \<and> us_SubID u = replicate 16 (CHR ''3'') \<and> map cn_InboundID (us_Connections u) = [7, 8]"
proof -
  have "randID (take 16 (en_bytes prov_sample)) = replicate 16 (CHR ''3'')" by code_simp
  then show ?thesis
    by (simp add: create_checks_def prov_nodes zoe_def zoe_name zoe_targets [unfolded prov_index] validateDescription_def lift_entity_def
        nodeIDs_def prov_index prov_taken)
qed

section \<open>Properties\<close>

text \<open>The second half of CreateUser: the row is stored, then the panels are synchronised without a deletion.\<close>

lemma create_user_stores:
  assumes "store_inv (pv_db st)" and "map_order (en_ord en)" and "CreateUser en p st = (r, e, st')"
    and ok: "create_checks en p st = (Inr (u, ts), pv_calls st @ new)"
    and run: "CreateUserRow (en_now en) u (pv_db st) = (Inr u', db')"
  shows "r = Some u' \<and> pv_db st' = db' \<and> (\<exists>more. pv_calls st' = pv_calls st @ new @ more \<and> (\<forall>c \<in> set more. \<not> is_del c))"
proof -
  let ?sync = "syncPanels (en_panels en) (en_genUUID en) (en_ord en)
     (node_index (ListNodes (en_dec en) (pv_db st))) u' [] ts False (pv_calls st @ new)"
  obtain more where sync: "snd ?sync = (pv_calls st @ new) @ more"
      "\<forall>c \<in> set more. \<exists>nid \<in> set (touched [] ts). node_call (node_index (ListNodes (en_dec en) (pv_db st))) u' [] ts False nid c"
    using syncPanels_calls [OF assms(2), of "en_panels en" "en_genUUID en"
        "node_index (ListNodes (en_dec en) (pv_db st))" u' "[]" ts False "pv_calls st @ new"] by blast
  have "\<forall>c \<in> set more. \<not> is_del c" using sync(2) by (auto simp: node_call_def old_on_def)
  with sync(1) show ?thesis using assms(3) ok run by (auto simp: CreateUser_def split_beta Let_def)
qed



text \<open>
  A nickname that is already a client on the panel of a target node is refused: when the panel of a
  selected inbound's node lists a client with that email, CreateUser stores nothing and adds nothing,
  whatever the other panels answer.
\<close>
theorem taken_nickname_refused:
  assumes "validateName (uc_Name p) = Inr name"
    and "desiredTargets (inbound_index (ListNodes (en_dec en) (pv_db st))) (uc_InboundIDs p) = Inr ts"
    and "t \<in> set ts" and "node_index (ListNodes (en_dec en) (pv_db st)) (ct_NodeID t) = Some n"
    and "\<forall>h. emailExistsOnPanel (en_panels en) h (target n) name = Inr True"
  shows "\<exists>e new. CreateUser en p st = (None, Some e, st\<lparr>pv_calls := pv_calls st @ new\<rparr>) \<and>
    (\<forall>c \<in> set new. \<exists>t. c = ListCall t)"
proof -
  let ?byID = "node_index (ListNodes (en_dec en) (pv_db st))"
  have taken: "fst (ensureEmailFree (en_panels en) ?byID nids name h) \<noteq> None" if "ct_NodeID t \<in> set nids" for nids h
    using that by (induction nids arbitrary: h) (auto simp: assms(4,5) Let_def split: option.split sum.split)
  have "ct_NodeID t \<in> set (nodeIDs ts)" using assms(3) by (simp add: nodeIDs_def set_dedup)
  from taken [OF this, of "pv_calls st"] assms(1,2) have "\<exists>e. fst (create_checks en p st) = Inl e"
    by (auto simp: create_checks_def lift_entity_def Let_def bind_err_Inr_iff
        split: sum.split option.split prod.split if_splits)
  moreover obtain new where "snd (create_checks en p st) = pv_calls st @ new" "\<forall>c \<in> set new. \<exists>t. c = ListCall t"
    using create_checks_calls by blast
  ultimately show ?thesis by (auto simp: CreateUser_def split_beta)
qed

theorem taken_nickname_refused_witness:
  "\<exists>e new. CreateUser prov_sample \<lparr>uc_Name = ''Ann'', uc_Description = None, uc_InboundIDs = [7, 8]\<rparr> prov_start =
     (None, Some e, prov_start\<lparr>pv_calls := new\<rparr>)"
proof -
  let ?p = "\<lparr>uc_Name = ''Ann'', uc_Description = None, uc_InboundIDs = [7, 8]\<rparr>"
  have n: "validateName (uc_Name ?p) = Inr ''ann''" by (simp, code_simp)
  have d: "desiredTargets (inbound_index (ListNodes (en_dec prov_sample) (pv_db prov_start))) (uc_InboundIDs ?p) =
      Inr [prov_main_target, prov_hy_target]"
    using zoe_targets by (simp add: prov_nodes)
  have t: "prov_main_target \<in> set [prov_main_target, prov_hy_target]" by simp
  have i: "node_index (ListNodes (en_dec prov_sample) (pv_db prov_start)) (ct_NodeID prov_main_target) = Some prov_node"
    by (simp add: prov_nodes prov_index)
  have e: "\<forall>h. emailExistsOnPanel (en_panels prov_sample) h (target prov_node) ''ann'' = Inr True"
    by (simp add: prov_taken)
  from taken_nickname_refused [OF n d t i e] show ?thesis by auto
qed

text \<open>
  An edit is stored exactly: after its checks pass, the user's inbounds are the requested ones and
  the description the normalised one, nobody else changes, and a panel failure is only reported; when
  a check fails the database stays as it was.
\<close>
theorem edit_user_stores:
  assumes "store_inv (pv_db st)" and "map_order (en_ord en)" and "EditUser en p st = (e, st')"
  shows "store_inv (pv_db st') \<and>
    (case fst (edit_checks en p st) of
       Inl e' \<Rightarrow> e = Some e' \<and> pv_db st' = pv_db st
     | Inr (u, desc, desired) \<Rightarrow>
         validateDescription (ue_Description p) = Inr desc \<and>
         users_view (pv_db st') = view_upd (ue_ID p)
           (\<lambda>v. v\<lparr>uv_Inbounds := set (ue_InboundIDs p), uv_Description := desc\<rparr>) (users_view (pv_db st)))"
proof (cases "fst (edit_checks en p st)")
  case (Inl e')
  then have "edit_checks en p st = (Inl e', snd (edit_checks en p st))" by (metis prod.collapse)
  from EditUser_refused [OF this] assms(1,3) Inl show ?thesis by auto
next
  case (Inr x)
  obtain u desc desired where x: "x = (u, desc, desired)" by (cases x)
  with Inr have checks: "edit_checks en p st = (Inr (u, desc, desired), snd (edit_checks en p st))"
    by (metis prod.collapse)
  then have "validateDescription (ue_Description p) = Inr desc"
    by (auto simp: edit_checks_def Let_def split: if_splits sum.splits option.splits prod.splits)
  with EditUser_runs [OF assms(1,2) checks] assms(3) Inr x show ?thesis
    by (auto simp: view_upd_def)
qed


definition bob_edit :: UserEditParams where
  "bob_edit = \<lparr>ue_ID = 6, ue_Description = Some '' vip '', ue_InboundIDs = [8, 7, 8]\<rparr>"

theorem edit_user_stores_witness:
  "\<exists>e st'. EditUser prov_sample bob_edit prov_start = (e, st') \<and>
     users_view (pv_db st') 6 = Some \<lparr>uv_Name = ''bob'', uv_SubID = ''t'', uv_Description = Some ''vip'', uv_Inbounds = {7, 8}\<rparr>"
proof -
  have desc: "validateDescription (Some '' vip '') = Inr (Some ''vip'')" by code_simp
  have u: "\<exists>u. GetUser 6 prov_db = Some u \<and> us_Connections u = [\<lparr>cn_ID = 2, cn_UserID = 6, cn_InboundID = 7,
      cn_CreatedAt = 0, cn_NodeID = 3, cn_Node = ''nl'', cn_Name = ''main'', cn_Port = 443, cn_Kind = ''vless''\<rparr>]"
    by (simp add: GetUser_def loadConnections_def scanConnections_def user_of_row_def joined_connections_def
        join_conn_def prov_db_def sample_db_def)
  then obtain u where u: "GetUser 6 prov_db = Some u" "cn_NodeID ` set (us_Connections u) = {3}" by auto
  have "fst (edit_checks prov_sample bob_edit prov_start) = Inr (u, Some ''vip'',
      [prov_hy_target, prov_main_target])"
    by (simp add: edit_checks_def prov_nodes bob_edit_def desc u desiredTargets_def prov_index addedNodeIDs_def
        prov_refs)
  moreover obtain e st' where run: "EditUser prov_sample bob_edit prov_start = (e, st')" by (metis prod.collapse)
  moreover have "users_view prov_db 6 =
      Some \<lparr>uv_Name = ''bob'', uv_SubID = ''t'', uv_Description = None, uv_Inbounds = {7}\<rparr>"
    by (simp add: users_view_def inbounds_of_def prov_db_def sample_db_def) force
  ultimately show ?thesis
    using edit_user_stores [OF _ prov_ord run] prov_db_inv by (auto simp: bob_edit_def view_upd_def)
qed

end
