(* ===== verification/ProvisioningPanels.thy ===== *)
theory ProvisioningPanels
  imports ProvisioningProperties
begin

text \<open>
  Which panels provisioning touches: deletions stay on panels the user owns, an unchanged selection
  is not provisioned again, and on panels that behave as the 3x-ui API documents a recreation leaves
  exactly one client per wanted inbound. Two theorems show where the guards of EditUser and
  DeleteUser miss users that have only hysteria2 inbounds on a node.
\<close>

section \<open>The targets of a user's own connections\<close>

lemma user_conn_target:
  assumes "store_inv db" and "GetUser i db = Some u" and "c \<in> set (us_Connections u)"
  shows "\<exists>ref. inbound_index (ListNodes dec db) (cn_InboundID c) = Some ref \<and> ref_target ref = conn_target c"
proof -
  note ok = store_invD(2) [OF assms(1)]
  from assms(3) GetUser_fields(3) [OF assms(1,2)] in_joined [OF ok]
  obtain k where "join_conn db k = Some c" by auto
  from joined_target [OF ok this] show ?thesis .
qed

lemma conn_target_sel [simp]:
  "ct_NodeID (conn_target c) = cn_NodeID c" "ct_InboundID (conn_target c) = cn_InboundID c"
  "ct_Kind (conn_target c) = cn_Kind c" "ct_Port (conn_target c) = cn_Port c"
  by (simp_all add: conn_target_def)

lemma desired_on_conns: "desired_on (map conn_target cs) nid = map conn_target (old_on cs nid)"
  by (simp add: desired_on_def old_on_def filter_map o_def)

lemma conn_node_known:
  assumes "store_inv db" and "GetUser i db = Some u" and "c \<in> set (us_Connections u)"
  shows "\<exists>r \<in> set (db_nodes db). no_id r = cn_NodeID c \<and>
    node_index (ListNodes dec db) (cn_NodeID c) = Some (node_with dec db r)"
proof -
  note ok = store_invD(2) [OF assms(1)]
  from assms(3) GetUser_fields(3) [OF assms(1,2)] in_joined [OF ok]
  obtain k where "join_conn db k = Some c" by auto
  then obtain n where "n \<in> set (db_nodes db)" "no_id n = cn_NodeID c"
    by (auto simp: join_conn_def split: option.splits dest!: find_SomeD)
  with node_index_row [OF ok, of n dec] show ?thesis by (intro bexI [of _ n]) simp_all
qed

section \<open>Deletions\<close>

lemma drop_clients_eq:
  "(\<forall>nid \<in> set nids. byID nid \<noteq> None) \<Longrightarrow>
     drop_clients byID email nids h = h @ map (\<lambda>nid. DelCall (target (the (byID nid))) email) nids"
  by (induction nids arbitrary: h) (auto simp: drop_clients_def)

text \<open>
  C28: DeleteUser always removes the user and cleans every panel of its connections: for an existing
  user it succeeds, removes exactly that user's entry, and issues one deletion of the email per node
  of any connection in first-seen order, the nodes where the user has only hysteria2 inbounds (and so
  never had a client) included; an unknown user is an error without any effect.
\<close>
theorem delete_user_calls:
  assumes "store_inv (pv_db st)"
  shows "case GetUser i (pv_db st) of
      None \<Rightarrow> DeleteUser en i st = (Some NoSuchUser, st)
    | Some u \<Rightarrow> \<exists>db'. DeleteUser en i st =
        (None, \<lparr>pv_db = db', pv_calls = pv_calls st @
           map (\<lambda>nid. DelCall (target (the (node_index (ListNodes (en_dec en) (pv_db st)) nid))) (us_Name u))
             (dedup {} (map cn_NodeID (us_Connections u)))\<rparr>) \<and>
        store_inv db' \<and> users_view db' = (users_view (pv_db st))(i := None)"
proof (cases "GetUser i (pv_db st)")
  case (Some u)
  have "\<forall>nid \<in> set (connNodeIDs (us_Connections u)). node_index (ListNodes (en_dec en) (pv_db st)) nid \<noteq> None"
    using conn_node_known [OF assms Some] by (fastforce simp: connNodeIDs_def set_dedup)
  note drop = drop_clients_eq [OF this]
  from users.remove_done [OF assms, of i] obtain db' where
    "DeleteUserRow i (pv_db st) = (Inr (), db')" "store_inv db'" "users_view db' = (users_view (pv_db st))(i := None)"
    by blast
  with Some drop show ?thesis by (simp add: DeleteUser_def connNodeIDs_def)
qed (simp add: DeleteUser_def)

theorem delete_user_calls_witness:
  "\<exists>db'. DeleteUser prov_sample 5 prov_start =
     (None, \<lparr>pv_db = db', pv_calls = [DelCall (target prov_node) ''ann'']\<rparr>) \<and> users_view db' 5 = None"
proof -
  obtain u where u: "GetUser 5 prov_db = Some u" "us_Name u = ''ann''" "map cn_NodeID (us_Connections u) = [3]"
    using prov_user by auto
  from delete_user_calls [where st = prov_start and i = 5 and en = prov_sample] prov_db_inv u show ?thesis
    by (auto simp: prov_nodes prov_index)
qed

text \<open>
  A call that stays with the user's own clients: a deletion is of the user's email on the panel of a
  node where the user has a VLESS connection, an addition carries the user's email and subscription.
\<close>

definition own_call :: "(int \<rightharpoonup> Node) \<Rightarrow> User \<Rightarrow> panel_call \<Rightarrow> bool" where
  "own_call byID u c =
     (case c of
        ListCall t \<Rightarrow> True
      | DelCall t email \<Rightarrow> email = us_Name u \<and>
          (\<exists>k \<in> set (us_Connections u). \<not> is_static (cn_Kind k) \<and> map_option target (byID (cn_NodeID k)) = Some t)
      | AddCall t is cs \<Rightarrow> cs_Email cs = us_Name u \<and> cs_SubID cs = us_SubID u)"

lemma own_call_list [simp]: "own_call byID u (ListCall t)"
  by (simp add: own_call_def)

lemma node_call_own:
  assumes call: "node_call byID u (us_Connections u) desired forceAll nid c"
    and nid: "nid \<in> set (touched (us_Connections u) desired)"
    and forced: "forceAll \<longrightarrow> desired = map conn_target (us_Connections u)"
  shows "own_call byID u c"
proof (cases c)
  case (DelCall t email)
  from call obtain n where n: "byID nid = Some n" "t = target n" "email = us_Name u"
      "old_on (us_Connections u) nid \<noteq> [] \<or> forceAll"
    by (auto simp: node_call_def DelCall)
  from n(4) nid forced have "old_on (us_Connections u) nid \<noteq> []"
    by (auto simp: in_touched desired_on_conns)
  then obtain k where "k \<in> set (us_Connections u)" "\<not> is_static (cn_Kind k)" "cn_NodeID k = nid"
    by (auto simp: old_on_def filter_empty_conv)
  with n DelCall show ?thesis by (auto simp: own_call_def intro!: bexI [of _ k])
qed (use call in \<open>auto simp: own_call_def node_call_def\<close>)

lemma syncPanels_own:
  assumes "map_order ord" and "forceAll \<longrightarrow> desired = map conn_target (us_Connections u)"
  shows "\<exists>new. snd (syncPanels pn g ord byID u (us_Connections u) desired forceAll h) = h @ new \<and>
    (\<forall>c \<in> set new. own_call byID u c)"
  using syncPanels_calls [OF assms(1), of pn g byID u "us_Connections u" desired forceAll h]
    node_call_own [OF _ _ assms(2)] by (metis (no_types, lifting))

text \<open>
  C34: Reconciling touches only the user's own clients: every deletion EditUser or RecreateUser makes
  is of the user's email on the panel of a node where the user has a VLESS connection, and every
  client they add carries the user's email and subscription id.
\<close>
theorem reconcile_touches_own_clients:
  assumes "store_inv (pv_db st)" and "map_order (en_ord en)" and "GetUser i (pv_db st) = Some u"
    and "st' = snd (EditUser en p st) \<and> ue_ID p = i \<or> st' = snd (RecreateUser en i st)"
  shows "\<exists>new. pv_calls st' = pv_calls st @ new \<and>
    (\<forall>c \<in> set new. own_call (node_index (ListNodes (en_dec en) (pv_db st))) u c)"
  using assms(4)
proof
  let ?byID = "node_index (ListNodes (en_dec en) (pv_db st))"
  assume st': "st' = snd (RecreateUser en i st)"
  from syncPanels_own [OF assms(2), of True "map conn_target (us_Connections u)" u] assms(3) show ?thesis
    by (auto simp: st' RecreateUser_def split_beta Let_def)
next
  let ?byID = "node_index (ListNodes (en_dec en) (pv_db st))"
  assume st': "st' = snd (EditUser en p st) \<and> ue_ID p = i"
  obtain new where new: "snd (edit_checks en p st) = pv_calls st @ new" "\<forall>c \<in> set new. \<exists>t. c = ListCall t"
    using edit_checks_calls by blast
  have quiet: "\<forall>c \<in> set new. own_call ?byID u c" using new(2) by fastforce
  show ?thesis
  proof (cases "fst (edit_checks en p st)")
    case (Inl e)
    then have "edit_checks en p st = (Inl e, pv_calls st @ new)" using new(1) by (metis prod.collapse)
    from EditUser_refused [OF this] quiet st' show ?thesis by auto
  next
    case (Inr x)
    obtain u' desc desired where x: "x = (u', desc, desired)" by (cases x)
    with Inr new(1) have ok: "edit_checks en p st = (Inr (u', desc, desired), pv_calls st @ new)"
      by (metis prod.collapse)
    then have "GetUser (ue_ID p) (pv_db st) = Some u'"
      by (auto simp: edit_checks_def Let_def split: if_splits sum.splits option.splits prod.splits)
    with st' assms(3) have "u' = u" by simp
    let ?sync = "syncPanels (en_panels en) (en_genUUID en) (en_ord en) ?byID u (us_Connections u) desired False (pv_calls st @ new)"
    from EditUser_runs [OF assms(1,2) ok] st' have "pv_calls st' = snd ?sync"
      by (auto simp: \<open>u' = u\<close>)
    moreover obtain new' where "snd ?sync = (pv_calls st @ new) @ new'" "\<forall>c \<in> set new'. own_call ?byID u c"
      using syncPanels_own [OF assms(2), of False desired u] by blast
    ultimately show ?thesis using quiet by (intro exI [of _ "new @ new'"]) auto
  qed
qed

theorem reconcile_touches_own_clients_witness:
  "\<exists>u new. GetUser 6 prov_db = Some u \<and> pv_calls (snd (RecreateUser prov_sample 6 prov_start)) = new \<and>
     (\<forall>c \<in> set new. own_call [3 \<mapsto> prov_node] u c)"
proof -
  obtain u where u: "GetUser 6 prov_db = Some u"
    by (simp add: GetUser_def loadConnections_def scanConnections_def prov_db_def sample_db_def)
  from reconcile_touches_own_clients [of prov_start prov_sample 6 u "snd (RecreateUser prov_sample 6 prov_start)"]
    prov_db_inv prov_ord u show ?thesis by (auto simp: prov_nodes prov_index)
qed


section \<open>Editing\<close>

lemma EditUser_checked:
  assumes "store_inv (pv_db st)" and "map_order (en_ord en)"
    and "ue_InboundIDs p \<noteq> []" and "validateDescription (ue_Description p) = Inr desc"
    and "GetUser (ue_ID p) (pv_db st) = Some u"
    and "desiredTargets (inbound_index (ListNodes (en_dec en) (pv_db st))) (ue_InboundIDs p) = Inr desired"
    and "addedNodeIDs (us_Connections u) desired = []"
  shows "\<exists>db'. EditUser en p st =
    (fst (syncPanels (en_panels en) (en_genUUID en) (en_ord en) (node_index (ListNodes (en_dec en) (pv_db st)))
            u (us_Connections u) desired False (pv_calls st)),
     \<lparr>pv_db = db', pv_calls = snd (syncPanels (en_panels en) (en_genUUID en) (en_ord en)
            (node_index (ListNodes (en_dec en) (pv_db st))) u (us_Connections u) desired False (pv_calls st))\<rparr>) \<and>
    users_view db' = view_upd (ue_ID p)
      (\<lambda>v. v\<lparr>uv_Inbounds := set (ue_InboundIDs p), uv_Description := desc\<rparr>) (users_view (pv_db st))"
proof -
  have "edit_checks en p st = (Inr (u, desc, desired), pv_calls st)"
    using assms(3-7) by (simp add: edit_checks_def Let_def)
  from EditUser_runs [OF assms(1,2) this] show ?thesis by (auto simp: view_upd_def)
qed

lemma dedup_const: "\<forall>x \<in> set xs. x = a \<Longrightarrow> xs \<noteq> [] \<Longrightarrow> dedup {} xs = [a]"
proof -
  have "dedup {a} xs = []" if "\<forall>x \<in> set xs. x = a" for xs using that by (induction xs) auto
  then show "\<forall>x \<in> set xs. x = a \<Longrightarrow> xs \<noteq> [] \<Longrightarrow> dedup {} xs = [a]" by (cases xs) auto
qed

lemma map_order_single: "map_order ord \<Longrightarrow> ord [a] = [a]"
proof -
  assume "map_order ord"
  then have "distinct (ord [a])" "set (ord [a]) = {a}" by (auto simp: map_order_def)
  then show ?thesis by (metis distinct_card card.empty card_insert_disjoint finite.emptyI empty_iff length_0_conv
      length_Suc_conv list.set_intros(1) singletonD)
qed

text \<open>
  EditUser does not check the panel of a node where the user has only hysteria2 inbounds: when
  such a user is given a VLESS inbound there, the client is added although the panel already lists a
  client with that email, which CreateUser refuses in the same situation.
\<close>
theorem edit_skips_email_check:
  assumes "store_inv (pv_db st)" and "map_order (en_ord en)" and "GetUser (ue_ID p) (pv_db st) = Some u"
    and "us_Connections u \<noteq> []" and "\<forall>c \<in> set (us_Connections u). cn_NodeID c = nid \<and> is_static (cn_Kind c)"
    and "ue_InboundIDs p \<noteq> []" and "validateDescription (ue_Description p) = Inr desc"
    and "desiredTargets (inbound_index (ListNodes (en_dec en) (pv_db st))) (ue_InboundIDs p) = Inr desired"
    and "\<forall>t \<in> set desired. ct_NodeID t = nid" and "desired_on desired nid \<noteq> []"
    and "node_index (ListNodes (en_dec en) (pv_db st)) nid = Some n"
    and "pn_list (en_panels en) (pv_calls st) (target n) = Inr inbs"
    and "port_ids (nd_Name n) (idByPort inbs) (desired_on desired nid) = Inr is"
    and "emailExistsOnPanel (en_panels en) (pv_calls st) (target n) (us_Name u) = Inr True"
  shows "\<exists>cs. pv_calls (snd (EditUser en p st)) = pv_calls st @ [ListCall (target n), AddCall (target n) is cs] \<and>
    cs_Email cs = us_Name u"
proof -
  let ?byID = "node_index (ListNodes (en_dec en) (pv_db st))"
  have "dedup S (map ct_NodeID ts) = []" if "\<forall>t \<in> set ts. ct_NodeID t \<in> S" for S ts
    using that by (induction ts) auto
  then have added: "addedNodeIDs (us_Connections u) desired = []"
    unfolding addedNodeIDs_def using assms(4,5,9) by (metis (no_types, lifting) image_eqI list.set_intros(1) neq_Nil_conv)
  have old: "old_on (us_Connections u) nid = []" using assms(5) by (simp add: old_on_def filter_empty_conv)
  have "touched (us_Connections u) desired = [nid]"
    unfolding touched_def
    by (rule dedup_const) (use assms(4,5,9,10) in \<open>auto simp: desired_on_def filter_empty_conv\<close>)
  then have nids: "en_ord en (touched (us_Connections u) desired) = [nid]"
    using map_order_single [OF assms(2)] by simp
  have "\<not> sameInboundIDs [] (targetInboundIDs (desired_on desired nid))"
    using assms(10) by (simp add: sameInboundIDs_def targetInboundIDs_def)
  then have sync: "\<exists>cs. snd (syncPanels (en_panels en) (en_genUUID en) (en_ord en) ?byID u (us_Connections u) desired
      False (pv_calls st)) = pv_calls st @ [ListCall (target n), AddCall (target n) is cs] \<and> cs_Email cs = us_Name u"
    by (simp add: syncPanels_def nids sync_node_def old assms(10-13) connInboundIDs_def rebind_def panelLookup_def Let_def)
  from EditUser_checked [OF assms(1,2,6,7,3,8) added] sync show ?thesis by auto
qed

theorem edit_skips_email_check_witness:
  "\<exists>cs. pv_calls (snd (EditUser prov_sample \<lparr>ue_ID = 5, ue_Description = None, ue_InboundIDs = [7, 8]\<rparr> prov_start)) =
     [ListCall (target prov_node), AddCall (target prov_node) [1] cs] \<and> cs_Email cs = ''ann''"
proof -
  let ?p = "\<lparr>ue_ID = 5, ue_Description = None, ue_InboundIDs = [7, 8]\<rparr>"
  let ?nodes = "ListNodes (en_dec prov_sample) (pv_db prov_start)"
  obtain u where u: "GetUser 5 prov_db = Some u" "us_Name u = ''ann''" "us_Connections u = [\<lparr>cn_ID = 1, cn_UserID = 5, cn_InboundID = 8,
     cn_CreatedAt = 0, cn_NodeID = 3, cn_Node = ''nl'', cn_Name = ''hy'', cn_Port = 8443, cn_Kind = ''hysteria2''\<rparr>]"
    using prov_user by blast
  have on: "desired_on [prov_main_target, prov_hy_target] 3 = [prov_main_target]"
    by (simp add: desired_on_def is_static_def InboundKindHysteria2_def)
      (simp add: prov_main_target_def prov_hy_target_def)
  have ports: "idByPort [demo_panel] = [443 \<mapsto> 1]" "ct_Port prov_main_target = 443"
    by (simp_all add: idByPort_def fill_map_def demo_panel_def prov_main_target_def)
  have t: "desiredTargets (inbound_index ?nodes) (ue_InboundIDs ?p) = Inr [prov_main_target, prov_hy_target]"
    using zoe_targets by (simp add: prov_nodes)
  have "\<exists>cs. pv_calls (snd (EditUser prov_sample ?p prov_start)) =
      pv_calls prov_start @ [ListCall (target prov_node), AddCall (target prov_node) [1] cs] \<and> cs_Email cs = us_Name u"
    by (rule edit_skips_email_check [where nid = 3 and inbs = "[demo_panel]", OF _ prov_ord _ _ _ _ _ t])
      (use u in \<open>simp_all add: prov_db_inv validateDescription_def on ports prov_nodes prov_index prov_taken
         is_static_def InboundKindHysteria2_def\<close>, simp add: prov_panels_def)
  then show ?thesis by (simp add: u(2))
qed


section \<open>An unchanged selection\<close>

lemma targets_of_own:
  assumes inv: "store_inv db" and u: "GetUser i db = Some u"
    and ids: "set ids = cn_InboundID ` set (us_Connections u)"
  shows "\<exists>ts. desiredTargets (inbound_index (ListNodes dec db)) ids = Inr ts \<and>
    set ts = conn_target ` set (us_Connections u) \<and>
    (\<forall>nid. mset (targetInboundIDs (desired_on ts nid)) = mset (connInboundIDs (old_on (us_Connections u) nid)))"
proof -
  let ?byID = "inbound_index (ListNodes dec db)"
  let ?ts = "map (\<lambda>i. ref_target (the (?byID i))) (dedup {} ids)"
  have conn: "?byID (cn_InboundID c) \<noteq> None \<and> ref_target (the (?byID (cn_InboundID c))) = conn_target c"
    if "c \<in> set (us_Connections u)" for c
    using user_conn_target [OF inv u that, of dec] by auto
  have desired: "desiredTargets ?byID ids = Inr ?ts"
    using ids conn by (auto simp: desiredTargets_Inr)
  have "set ?ts = (\<lambda>i. ref_target (the (?byID i))) ` cn_InboundID ` set (us_Connections u)"
    by (simp add: set_dedup ids)
  also have "\<dots> = conn_target ` set (us_Connections u)" using conn by (simp add: image_image)
  finally have set_ts: "set ?ts = conn_target ` set (us_Connections u)" .
  have "mset (targetInboundIDs (desired_on ?ts nid)) = mset (connInboundIDs (old_on (us_Connections u) nid))" for nid
  proof -
    have "distinct (targetInboundIDs ?ts)"
      using desired_ids(1) [OF desired] by (simp add: distinct_dedup)
    then have d1: "distinct (targetInboundIDs (desired_on ?ts nid))"
      unfolding targetInboundIDs_def desired_on_def by (rule distinct_map_filter)
    have "distinct (map cn_InboundID (us_Connections u))"
      unfolding GetUser_fields(3) [OF inv u] by (rule user_conns_distinct [OF store_invD(2) [OF inv]])
    then have d2: "distinct (connInboundIDs (old_on (us_Connections u) nid))"
      unfolding connInboundIDs_def old_on_def by (rule distinct_map_filter)
    have "set (targetInboundIDs (desired_on ts nid)) = ct_InboundID ` {t \<in> set ts. \<not> is_static (ct_Kind t) \<and> ct_NodeID t = nid}" for ts
      by (simp add: targetInboundIDs_def desired_on_def)
    then have "set (targetInboundIDs (desired_on ?ts nid)) =
        ct_InboundID ` {t \<in> conn_target ` set (us_Connections u). \<not> is_static (ct_Kind t) \<and> ct_NodeID t = nid}"
      by (simp only: set_ts)
    also have "\<dots> = set (connInboundIDs (old_on (us_Connections u) nid))"
      by (force simp: connInboundIDs_def old_on_def)
    finally show ?thesis using d1 d2 set_eq_iff_mset_eq_distinct by blast
  qed
  with desired set_ts show ?thesis by blast
qed

lemma user_inbounds:
  assumes inv: "store_inv db" and u: "GetUser i db = Some u"
  shows "inbounds_of db i = cn_InboundID ` set (us_Connections u)"
proof -
  note ok = store_invD(2) [OF inv]
  have "\<exists>c. join_conn db k = Some c \<and> cn_InboundID c = cr_inbound k" if k: "k \<in> set (db_conns db)" for k
  proof -
    have "cr_inbound k \<in> ir_id ` set (db_inbounds db)" using ok k by (simp add: constraint_defs)
    then obtain x where x: "find (\<lambda>i. ir_id i = cr_inbound k) (db_inbounds db) = Some x"
      using find_id_None [of ir_id "cr_inbound k" "db_inbounds db"] by (cases "find (\<lambda>i. ir_id i = cr_inbound k) (db_inbounds db)") auto
    then have "x \<in> set (db_inbounds db)" by (auto dest: find_SomeD)
    then have "ir_node x \<in> no_id ` set (db_nodes db)" using ok by (simp add: constraint_defs)
    then obtain n where "find (\<lambda>n. no_id n = ir_node x) (db_nodes db) = Some n"
      using find_id_None [of no_id "ir_node x" "db_nodes db"] by (cases "find (\<lambda>n. no_id n = ir_node x) (db_nodes db)") auto
    with x show ?thesis by (simp add: join_conn_def)
  qed
  moreover have "cn_InboundID c = cr_inbound k" if "join_conn db k = Some c" for k c
    using that by (auto simp: join_conn_def split: option.splits)
  ultimately show ?thesis
    unfolding GetUser_fields(3) [OF inv u] inbounds_of_def
    by (force simp: in_joined [OF ok] image_iff)
qed

lemma sync_same_selection:
  assumes "\<forall>nid. mset (targetInboundIDs (desired_on ts nid)) = mset (connInboundIDs (old_on old nid))"
    and "nid \<in> set (touched old ts)" and "byID nid \<noteq> None"
  shows "sync_node pn g byID u old ts False nid st = st"
proof -
  have same: "sameInboundIDs (connInboundIDs (old_on old nid)) (targetInboundIDs (desired_on ts nid))"
    using assms(1) by (simp add: sameInboundIDs_mset)
  then have "length (old_on old nid) = length (desired_on ts nid)"
    by (simp add: sameInboundIDs_def connInboundIDs_def targetInboundIDs_def)
  with assms(2) have "desired_on ts nid \<noteq> []" by (auto simp: in_touched)
  with assms(3) same show ?thesis by (cases st) (auto simp: sync_node_def)
qed

text \<open>
  Saving an unchanged selection leaves the panels alone: when the requested inbounds are, as a set,
  the user's current ones, EditUser makes no panel call at all, reports no error and changes nothing
  but the description.
\<close>
theorem unchanged_selection_is_quiet:
  assumes "store_inv (pv_db st)" and "map_order (en_ord en)" and "GetUser (ue_ID p) (pv_db st) = Some u"
    and "ue_InboundIDs p \<noteq> []" and "set (ue_InboundIDs p) = cn_InboundID ` set (us_Connections u)"
    and "validateDescription (ue_Description p) = Inr desc"
  shows "\<exists>db'. EditUser en p st = (None, st\<lparr>pv_db := db'\<rparr>) \<and>
    users_view db' = view_upd (ue_ID p) (uv_Description_update (\<lambda>_. desc)) (users_view (pv_db st))"
proof -
  let ?byID = "node_index (ListNodes (en_dec en) (pv_db st))"
  obtain ts where ts: "desiredTargets (inbound_index (ListNodes (en_dec en) (pv_db st))) (ue_InboundIDs p) = Inr ts"
      "set ts = conn_target ` set (us_Connections u)"
      "\<forall>nid. mset (targetInboundIDs (desired_on ts nid)) = mset (connInboundIDs (old_on (us_Connections u) nid))"
    using targets_of_own [OF assms(1,3,5), of "en_dec en"] by blast
  have "dedup S (map ct_NodeID ts) = []" if "ct_NodeID ` set ts \<subseteq> S" for S and ts :: "connTarget list"
    using that by (induction ts) auto
  then have added: "addedNodeIDs (us_Connections u) ts = []"
    by (simp add: addedNodeIDs_def ts(2) image_image)
  have known: "?byID nid \<noteq> None" if "nid \<in> set (touched (us_Connections u) ts)" for nid
  proof -
    have "nid \<in> ct_NodeID ` set ts \<union> cn_NodeID ` set (us_Connections u)"
      using that by (auto simp: touched_def set_dedup)
    then obtain c where "c \<in> set (us_Connections u)" "cn_NodeID c = nid"
      by (auto simp: ts(2) image_image)
    with conn_node_known [OF assms(1,3), of c "en_dec en"] show ?thesis by auto
  qed
  have "fold (sync_node (en_panels en) (en_genUUID en) ?byID u (us_Connections u) ts False) nids s = s"
    if "set nids \<subseteq> set (touched (us_Connections u) ts)" for nids s
    using that by (induction nids) (simp_all add: sync_same_selection [OF ts(3) _ known])
  then have sync: "syncPanels (en_panels en) (en_genUUID en) (en_ord en) ?byID u (us_Connections u) ts False (pv_calls st) =
      (None, pv_calls st)"
    using ord_touched(1) [OF assms(2)] by (simp add: syncPanels_def)
  have view: "view_upd (ue_ID p) (\<lambda>v. v\<lparr>uv_Inbounds := set (ue_InboundIDs p), uv_Description := desc\<rparr>) (users_view (pv_db st)) =
      view_upd (ue_ID p) (uv_Description_update (\<lambda>_. desc)) (users_view (pv_db st))"
  proof -
    have same: "v\<lparr>uv_Inbounds := set (ue_InboundIDs p)\<rparr> = v" if "users_view (pv_db st) (ue_ID p) = Some v" for v
    proof -
      from that have "uv_Inbounds v = inbounds_of (pv_db st) (ue_ID p)" by (auto simp: users_view_def)
      then have "uv_Inbounds v = set (ue_InboundIDs p)" by (simp only: user_inbounds [OF assms(1,3)] assms(5))
      then show ?thesis by (cases v) simp
    qed
    show ?thesis
    proof (cases "users_view (pv_db st) (ue_ID p)")
      case (Some v)
      with same [OF Some] show ?thesis by (simp add: view_upd_def)
    qed (simp add: view_upd_def)
  qed
  have upd: "\<lparr>pv_db = d, pv_calls = pv_calls st\<rparr> = st\<lparr>pv_db := d\<rparr>" for d by (cases st) simp
  from EditUser_checked [OF assms(1,2,4,6,3) ts(1) added] show ?thesis
    by (simp add: sync view upd)
qed

theorem unchanged_selection_is_quiet_witness:
  "\<exists>db'. EditUser prov_sample \<lparr>ue_ID = 6, ue_Description = None, ue_InboundIDs = [7, 7]\<rparr> prov_start =
     (None, prov_start\<lparr>pv_db := db'\<rparr>)"
proof -
  obtain u where u: "GetUser 6 prov_db = Some u" "cn_InboundID ` set (us_Connections u) = {7}"
    by (simp add: GetUser_def loadConnections_def scanConnections_def user_of_row_def joined_connections_def
        join_conn_def prov_db_def sample_db_def)
  have "\<exists>db'. EditUser prov_sample \<lparr>ue_ID = 6, ue_Description = None, ue_InboundIDs = [7, 7]\<rparr> prov_start =
     (None, prov_start\<lparr>pv_db := db'\<rparr>) \<and> users_view db' = view_upd 6 (uv_Description_update (\<lambda>_. None)) (users_view prov_db)"
    using unchanged_selection_is_quiet [of prov_start prov_sample "\<lparr>ue_ID = 6, ue_Description = None, ue_InboundIDs = [7, 7]\<rparr>" u None]
      u prov_db_inv prov_ord by (simp add: validateDescription_def)
  then show ?thesis by blast
qed

end
