(* ===== verification/ProvisioningRecreate.thy ===== *)
theory ProvisioningRecreate
  imports ProvisioningPanels
begin

text \<open>
  Recreating a user on panels that behave as the 3x-ui API documents: adding a client to inbounds
  appends it to their client lists, deleting by email removes that email from every inbound of the
  panel, listing shows the result.
\<close>

section \<open>Panels that behave as documented\<close>

type_synonym panel_world = "PanelTarget \<Rightarrow> PanelInbound list"

definition client_of :: "ClientSpec \<Rightarrow> PanelClient" where
  "client_of cs = \<lparr>pc_UUID = cs_ID cs, pc_Email = cs_Email cs, pc_Flow = cs_Flow cs, pc_SubID = cs_SubID cs\<rparr>"

definition without_email :: "string \<Rightarrow> PanelInbound \<Rightarrow> PanelInbound" where
  "without_email email p = p\<lparr>pi_Clients := filter (\<lambda>c. pc_Email c \<noteq> email) (pi_Clients p)\<rparr>"

definition with_client :: "int list \<Rightarrow> ClientSpec \<Rightarrow> PanelInbound \<Rightarrow> PanelInbound" where
  "with_client is cs p = (if pi_ID p \<in> set is then p\<lparr>pi_Clients := pi_Clients p @ [client_of cs]\<rparr> else p)"

fun apply_call :: "panel_call \<Rightarrow> panel_world \<Rightarrow> panel_world" where
  "apply_call (ListCall t) w = w"
| "apply_call (DelCall t email) w = w(t := map (without_email email) (w t))"
| "apply_call (AddCall t is cs) w = w(t := map (with_client is cs) (w t))"

definition hosted :: "panel_world \<Rightarrow> panel_call list \<Rightarrow> panel_world" where
  "hosted w h = fold apply_call h w"

definition documented_panels :: "panel_world \<Rightarrow> panels \<Rightarrow> bool" where
  "documented_panels w pn \<longleftrightarrow>
     (\<forall>h t. pn_list pn h t = Inr (hosted w h t)) \<and> (\<forall>h t is cs. pn_add pn h t is cs = None) \<and>
     (\<forall>h t email. pn_del pn h t email = None)"

lemma hosted_append: "hosted w (h @ new) = hosted (hosted w h) new"
  by (simp add: hosted_def)

lemma hosted_other: "\<forall>c \<in> set new. call_target c \<noteq> t \<Longrightarrow> hosted w new t = w t"
proof (induction new arbitrary: w)
  case (Cons c new)
  then have "hosted (apply_call c w) new t = apply_call c w t" by simp
  also have "\<dots> = w t" using Cons.prems by (cases c) auto
  finally show ?case by (simp add: hosted_def)
qed (simp add: hosted_def)

section \<open>One panel\<close>

lemma port_ids_Inr:
  "port_ids name ids ws = Inr is \<Longrightarrow> map Some is = map (\<lambda>w. ids (ct_Port w)) ws"
  by (induction ws arbitrary: "is") (auto simp: bind_err_Inr_iff split: option.splits)

lemma port_ids_set:
  assumes "port_ids name ids ws = Inr is"
  shows "i \<in> set is \<longleftrightarrow> (\<exists>w \<in> set ws. ids (ct_Port w) = Some i)"
proof -
  have "Some ` set is = (\<lambda>w. ids (ct_Port w)) ` set ws"
    using arg_cong [OF port_ids_Inr [OF assms], of set] by simp
  then show ?thesis by (metis (no_types, lifting) image_iff option.inject)
qed

text \<open>A forced re-binding that reports no failure.\<close>

lemma rebind_documented:
  assumes doc: "documented_panels w pn" and ran: "rebind pn g n u want True (h, fs) = (h', fs)"
  shows "\<exists>is cs. h' = h @ [ListCall (target n), DelCall (target n) (us_Name u), AddCall (target n) is cs] \<and>
    port_ids (nd_Name n) (idByPort (hosted w h (target n))) want = Inr is \<and>
    cs_Email cs = us_Name u \<and> cs_SubID cs = us_SubID u \<and> cs_Flow cs = [] \<and>
    (\<forall>x. uuidByEmail (hosted w h (target n)) (us_Name u) = Some x \<longrightarrow> cs_ID cs = x)"
proof -
  let ?inbs = "hosted w h (target n)"
  have look: "panelLookup pn h (target n) = Inr (idByPort ?inbs, uuidByEmail ?inbs)"
    using doc by (simp add: panelLookup_def documented_panels_def)
  have "\<exists>is. port_ids (nd_Name n) (idByPort ?inbs) want = Inr is"
    using ran by (auto simp: rebind_def Let_def look split: sum.splits)
  then obtain "is" where "is": "port_ids (nd_Name n) (idByPort ?inbs) want = Inr is" by blast
  let ?cid = "case uuidByEmail ?inbs (us_Name u) of Some existing \<Rightarrow> existing | None \<Rightarrow> g (h @ [ListCall (target n)])"
  let ?cs = "\<lparr>cs_ID = ?cid, cs_Email = us_Name u, cs_Flow = [], cs_SubID = us_SubID u\<rparr>"
  have "h' = h @ [ListCall (target n), DelCall (target n) (us_Name u), AddCall (target n) is ?cs]"
    using ran by (simp add: rebind_def Let_def look "is")
  with "is" show ?thesis by (intro exI [of _ "is"] exI [of _ ?cs]) (simp split: option.split)
qed

text \<open>What that leaves on the panel: the user's clients are replaced, everything else stays.\<close>

definition rebound :: "string \<Rightarrow> int set \<Rightarrow> PanelClient \<Rightarrow> PanelInbound \<Rightarrow> PanelInbound" where
  "rebound email ids c p =
     p\<lparr>pi_Clients := filter (\<lambda>c. pc_Email c \<noteq> email) (pi_Clients p) @ (if pi_ID p \<in> ids then [c] else [])\<rparr>"

lemma hosted_rebind:
  "hosted w (h @ [ListCall t, DelCall t email, AddCall t is cs]) t =
     map (rebound email (set is) (client_of cs)) (hosted w h t)"
  by (simp add: hosted_append) (simp add: hosted_def rebound_def without_email_def with_client_def)

text \<open>
  The client is dropped before the ports are looked up: when a wanted port is missing on the panel, the
  user's client is gone from every inbound there and nothing replaces it.
\<close>

lemma missing_port_drops_client:
  assumes doc: "documented_panels w pn"
    and missing: "port_ids (nd_Name n) (idByPort (hosted w h (target n))) want = Inl e"
    and ran: "rebind pn g n u want True (h, fs) = (h', fs')"
  shows "fs' = fs @ [e] \<and> hosted w h' (target n) = map (without_email (us_Name u)) (hosted w h (target n))"
proof -
  have "panelLookup pn h (target n) = Inr (idByPort (hosted w h (target n)), uuidByEmail (hosted w h (target n)))"
    using doc by (simp add: panelLookup_def documented_panels_def)
  with missing ran have "h' = h @ [ListCall (target n), DelCall (target n) (us_Name u)]" "fs' = fs @ [e]"
    by (auto simp: rebind_def Let_def)
  then show ?thesis by (simp add: hosted_append) (simp add: hosted_def)
qed

section \<open>All panels\<close>

lemma sync_failures:
  assumes "set nids \<subseteq> set (touched old desired)"
    and "fold (sync_node pn g byID u old desired forceAll) nids (h, fs) = (h', [])"
  shows "fs = []"
  using sync_nodes_calls [OF assms(1), of pn g byID u forceAll h fs] assms(2) by auto

lemma sync_other_nodes:
  assumes "set nids \<subseteq> set (touched old desired)"
    and "\<forall>nid' \<in> set nids. \<forall>n'. byID nid' = Some n' \<longrightarrow> target n' \<noteq> t"
    and "fold (sync_node pn g byID u old desired forceAll) nids (h, fs) = (h', fs')"
  shows "hosted w h' t = hosted w h t"
proof -
  obtain new where new: "h' = h @ new" "\<forall>c \<in> set new. \<exists>nid \<in> set nids. node_call byID u old desired forceAll nid c"
    using sync_nodes_calls [OF assms(1), of pn g byID u forceAll h fs] assms(3) by auto
  have "\<forall>c \<in> set new. call_target c \<noteq> t"
    using new(2) assms(2) by (fastforce simp: node_call_def)
  then show ?thesis by (simp add: new(1) hosted_append hosted_other)
qed

lemma sync_recreates:
  assumes doc: "documented_panels w pn" and ord: "map_order ord"
    and byID: "byID nid = Some n" and others: "\<forall>nid' n'. byID nid' = Some n' \<and> nid' \<noteq> nid \<longrightarrow> target n' \<noteq> target n"
    and own: "old_on old nid \<noteq> []"
    and run: "syncPanels pn g ord byID u old (map conn_target old) True h = (None, h')"
  shows "\<exists>is c. hosted w h' (target n) = map (rebound (us_Name u) (set is) c) (hosted w h (target n)) \<and>
    pc_Email c = us_Name u \<and> pc_SubID c = us_SubID u \<and>
    (\<forall>x. uuidByEmail (hosted w h (target n)) (us_Name u) = Some x \<longrightarrow> pc_UUID c = x) \<and>
    (\<forall>i. i \<in> set is \<longleftrightarrow> (\<exists>k \<in> set (old_on old nid). idByPort (hosted w h (target n)) (cn_Port k) = Some i))"
proof -
  let ?ts = "map conn_target old"
  let ?step = "sync_node pn g byID u old ?ts True"
  have nids: "set (ord (touched old ?ts)) = set (touched old ?ts)" "distinct (ord (touched old ?ts))"
    using ord_touched [OF ord] by blast+
  have "nid \<in> set (ord (touched old ?ts))" using own nids(1) by (simp add: in_touched)
  then obtain xs ys where split: "ord (touched old ?ts) = xs @ nid # ys" by (meson split_list)
  with nids have parts: "set xs \<subseteq> set (touched old ?ts)" "set ys \<subseteq> set (touched old ?ts)" "nid \<in> set (touched old ?ts)"
    "nid \<notin> set xs" "nid \<notin> set ys" by auto
  obtain h1 f1 where s1: "fold ?step xs (h, []) = (h1, f1)" by (cases "fold ?step xs (h, [])")
  obtain h2 f2 where s2: "?step nid (h1, f1) = (h2, f2)" by (cases "?step nid (h1, f1)")
  have s3: "fold ?step ys (h2, f2) = (h', [])"
    using run by (auto simp: syncPanels_def split s1 s2 split: prod.splits if_splits)
  from sync_failures [OF parts(2) s3] have f2: "f2 = []" .
  moreover obtain fs' where "f2 = f1 @ fs'"
    using sync_node_calls [OF parts(3), of pn g byID u True h1 f1] s2 by auto
  ultimately have f1: "f1 = []" by simp
  have other: "\<forall>nid' \<in> set zs. \<forall>n'. byID nid' = Some n' \<longrightarrow> target n' \<noteq> target n" if "nid \<notin> set zs" for zs
    using others that by blast
  have before: "hosted w h1 (target n) = hosted w h (target n)"
    by (rule sync_other_nodes [OF parts(1) other [OF parts(4)] s1])
  have after: "hosted w h' (target n) = hosted w h2 (target n)"
    by (rule sync_other_nodes [OF parts(2) other [OF parts(5)] s3])
  have "rebind pn g n u (desired_on ?ts nid) True (h1, []) = (h2, [])"
    using s2 own by (simp add: sync_node_def byID f1 f2 desired_on_conns)
  from rebind_documented [OF doc this] obtain "is" cs where
    h2: "h2 = h1 @ [ListCall (target n), DelCall (target n) (us_Name u), AddCall (target n) is cs]"
    and "is": "port_ids (nd_Name n) (idByPort (hosted w h (target n))) (map conn_target (old_on old nid)) = Inr is"
    and cs: "cs_Email cs = us_Name u" "cs_SubID cs = us_SubID u"
      "\<forall>x. uuidByEmail (hosted w h (target n)) (us_Name u) = Some x \<longrightarrow> cs_ID cs = x"
    by (auto simp: before desired_on_conns)
  have "hosted w h' (target n) = map (rebound (us_Name u) (set is) (client_of cs)) (hosted w h (target n))"
    by (simp add: after h2 hosted_rebind before)
  with cs port_ids_set [OF "is"] show ?thesis
    by (intro exI [of _ "is"] exI [of _ "client_of cs"]) (simp add: client_of_def)
qed

section \<open>Property\<close>


text \<open>The sample installation with a panel that keeps what it is told; user 6 is recreated there.\<close>

definition kept_world :: panel_world where "kept_world = (\<lambda>t. [demo_panel])"

definition kept_sample :: prov_env where
  "kept_sample = prov_sample\<lparr>en_panels :=
     \<lparr>pn_list = \<lambda>h t. Inr (hosted kept_world h t), pn_add = \<lambda>h t is cs. None, pn_del = \<lambda>h t email. None\<rparr>\<rparr>"


end
