(* ===== verification/MihomoRender.thy ===== *)
theory MihomoRender
  imports MihomoTypes Entity
begin

text \<open>
  Rendering of one subscriber's configuration, package \<open>internal/mihomo/render\<close>: the resolver of
  policy references, proxies, proxy-groups, rules, rule-providers and the top-level document. A Go
  \<open>map[string]any\<close> is an association list with distinct keys, updated by \<open>AList.update\<close>. The
  \<open>slog.Error\<close> calls are kept: a function returns the events it logs beside its result.
\<close>

section \<open>Documents and log events\<close>

datatype yval =
    YStr string
  | YInt int
  | YBool bool
  | YSeq "yval list"
  | YMap "(string \<times> yval) list"
  | YOther string \<comment> \<open>any other value of the operator's base document, passed through\<close>

type_synonym ymap = "(string \<times> yval) list"

definition put :: "string \<Rightarrow> yval \<Rightarrow> ymap \<Rightarrow> ymap" where
  "put k v m = AList.update k v m"

lemma map_of_put [simp]: "map_of (put k v m) = (map_of m)(k \<mapsto> v)"
  by (simp add: put_def update_conv')

datatype event =
    MemberUnresolved string string \<comment> \<open>group name, kind\<close>
  | RuleWithoutTarget string
  | TargetUnresolved string string \<comment> \<open>rule type, kind\<close>
  | RuleSetWithoutProvider string
  | ProviderUnresolved int

section \<open>The resolver (policy.go)\<close>

record entityNameResolver =
  nr_subID :: string
  nr_inboundName :: "int \<rightharpoonup> string"
  nr_groupName :: "int \<rightharpoonup> string"
  nr_providerName :: "int \<rightharpoonup> string"

definition newEntityNameResolver ::
    "Subscriber \<Rightarrow> ProxyGroup list \<Rightarrow> RuleProvider list \<Rightarrow> entityNameResolver" where
  "newEntityNameResolver sub groups providers =
     \<lparr>nr_subID = sb_SubID sub,
      nr_inboundName =
        fill_map px_InboundID px_Name (filter (\<lambda>p. px_InboundID p \<noteq> 0) (sb_Proxies sub)),
      nr_groupName = fill_map pg_ID pg_Name groups,
      nr_providerName = fill_map rp_ID rp_Name providers\<rparr>"

definition resolve :: "entityNameResolver \<Rightarrow> PolicyRef \<Rightarrow> string option" where
  "resolve res ref =
     (if pr_Kind ref = PolicyDirect then Some ''DIRECT''
      else if pr_Kind ref = PolicyReject then Some ''REJECT''
      else if pr_Kind ref = PolicyRejectDrop then Some ''REJECT-DROP''
      else if pr_Kind ref = PolicyRejectNoDrop then Some ''REJECT-NO-DROP''
      else if pr_Kind ref = PolicyPass then Some ''PASS''
      else if pr_Kind ref = PolicyInbound then
        (case pr_InboundID ref of None \<Rightarrow> None | Some i \<Rightarrow> nr_inboundName res i)
      else if pr_Kind ref = PolicyGroup then
        (case pr_GroupID ref of None \<Rightarrow> None | Some i \<Rightarrow> nr_groupName res i)
      else None)"

section \<open>Proxies (proxies.go)\<close>

definition opt_str :: "string \<Rightarrow> string \<Rightarrow> ymap \<Rightarrow> ymap" where
  "opt_str k v m = (if v \<noteq> [] then put k (YStr v) m else m)"

definition vlessToMap :: "string \<Rightarrow> VLESSProxy \<Rightarrow> ymap" where
  "vlessToMap name v =
     (let m = [(''name'', YStr name), (''type'', YStr ''vless''), (''server'', YStr (vl_Server v)),
               (''port'', YInt (vl_Port v)), (''uuid'', YStr (vl_UUID v)), (''udp'', YBool True)];
          network = (if vl_Network v = [] then ''tcp'' else vl_Network v);
          m = put ''network'' (YStr network) m;
          m = opt_str ''flow'' (vl_Flow v) m;
          m = (if vl_Security v = ''reality'' then
                 (let m = put ''tls'' (YBool True) m;
                      m = put ''servername'' (YStr (vl_ServerName v)) m;
                      m = opt_str ''client-fingerprint'' (vl_Fingerprint v) m;
                      ro = opt_str ''short-id'' (vl_ShortID v)
                             [(''public-key'', YStr (vl_PublicKey v))]
                  in put ''reality-opts'' (YMap ro) m)
               else if vl_Security v = ''tls'' then
                 (let m = put ''tls'' (YBool True) m;
                      sni = (if vl_SNI v = [] then vl_Server v else vl_SNI v);
                      m = put ''servername'' (YStr sni) m
                  in if vl_ALPN v \<noteq> [] then put ''alpn'' (YSeq (map YStr (vl_ALPN v))) m else m)
               else m)
      in if network = ''ws'' then
           (let ws = opt_str ''path'' (vl_WSPath v) [];
                ws = (if vl_WSHost v \<noteq> []
                      then put ''headers'' (YMap [(''Host'', YStr (vl_WSHost v))]) ws else ws)
            in put ''ws-opts'' (YMap ws) m)
         else if network = ''grpc'' then
           (if vl_GRPCService v \<noteq> []
            then put ''grpc-opts'' (YMap [(''grpc-service-name'', YStr (vl_GRPCService v))]) m
            else m)
         else m)"

definition hysteria2ToMap :: "string \<Rightarrow> Hysteria2Proxy \<Rightarrow> ymap" where
  "hysteria2ToMap name h =
     (let m = [(''name'', YStr name), (''type'', YStr ''hysteria2''), (''server'', YStr (hy_Server h)),
               (''port'', YInt (hy_Port h)), (''password'', YStr (hy_Password h))];
          m = (if hy_Obfs h \<noteq> [] then
                 opt_str ''obfs-password'' (hy_ObfsPassword h) (put ''obfs'' (YStr (hy_Obfs h)) m)
               else m);
          m = opt_str ''sni'' (hy_SNI h) m;
          m = opt_str ''up'' (hy_Up h) m
      in opt_str ''down'' (hy_Down h) m)"

text \<open>With neither variant set, \<open>vlessToMap\<close> dereferences a nil pointer: \<open>None\<close> is that panic.\<close>

definition proxyToMap :: "Proxy \<Rightarrow> ymap option" where
  "proxyToMap p =
     (case px_Hysteria2 p of
        Some h \<Rightarrow> Some (hysteria2ToMap (px_Name p) h)
      | None \<Rightarrow> map_option (vlessToMap (px_Name p)) (px_VLESS p))"

section \<open>Proxy-groups (groups.go)\<close>

fun build_members ::
    "entityNameResolver \<Rightarrow> string \<Rightarrow> PolicyRef list \<Rightarrow> string list \<times> event list" where
  "build_members res gname [] = ([], [])"
| "build_members res gname (m # ms) =
     (case build_members res gname ms of (names, evs) \<Rightarrow>
        (case resolve res m of
           Some name \<Rightarrow> (name # names, evs)
         | None \<Rightarrow>
             (names, (if pr_Kind m \<noteq> PolicyInbound then [MemberUnresolved gname (pr_Kind m)] else [])
                       @ evs)))"

definition buildGroup :: "entityNameResolver \<Rightarrow> ProxyGroup \<Rightarrow> ymap \<times> event list" where
  "buildGroup res g =
     (case build_members res (pg_Name g) (pg_Members g) of (names, evs) \<Rightarrow>
        let members = (if names = [] then [''DIRECT''] else names);
            gm = [(''name'', YStr (pg_Name g)), (''type'', YStr (pg_Type g)),
                  (''proxies'', YSeq (map YStr members))];
            gm = (if UsesHealthCheck (pg_Type g) then
                    (let gm = opt_str ''url'' (pg_URL g) gm;
                         gm = (case pg_Interval g of
                                 Some i \<Rightarrow> put ''interval'' (YInt i) gm | None \<Rightarrow> gm);
                         gm = (case pg_Tolerance g of
                                 Some t \<Rightarrow> if pg_Type g = GroupURLTest
                                           then put ''tolerance'' (YInt t) gm else gm
                               | None \<Rightarrow> gm)
                     in case pg_Lazy g of
                          Some b \<Rightarrow> put ''lazy'' (YBool b) gm | None \<Rightarrow> gm)
                  else gm)
        in (gm, evs))"

definition buildGroups :: "ProxyGroup list \<Rightarrow> entityNameResolver \<Rightarrow> ymap list \<times> event list" where
  "buildGroups groups res =
     (let built = map (buildGroup res) groups in (map fst built, concat (map snd built)))"

section \<open>Rules (rules.go)\<close>

text \<open>A loop over sub-rules that gives up at the first one without a result.\<close>

fun collect_log ::
    "('a \<Rightarrow> 'b option \<times> 'l list) \<Rightarrow> 'a list \<Rightarrow> 'b list option \<times> 'l list" where
  "collect_log f [] = (Some [], [])"
| "collect_log f (x # xs) =
     (case f x of
        (None, evs) \<Rightarrow> (None, evs)
      | (Some y, evs) \<Rightarrow>
          (case collect_log f xs of (ys, evs') \<Rightarrow> (map_option (\<lambda>l. y # l) ys, evs @ evs')))"

lemma collect_log_cong [fundef_cong]:
  "xs = ys \<Longrightarrow> (\<And>x. x \<in> set ys \<Longrightarrow> f x = g x) \<Longrightarrow> collect_log f xs = collect_log g ys"
  by (induction xs arbitrary: ys) (auto split: prod.splits option.splits)

fun Join :: "string list \<Rightarrow> string \<Rightarrow> string" where
  "Join [] sep = []"
| "Join [x] sep = x"
| "Join (x # y # ys) sep = x @ sep @ Join (y # ys) sep"

fun renderMatcher :: "RoutingRule \<Rightarrow> entityNameResolver \<Rightarrow> string option \<times> event list" where
  "renderMatcher (RoutingRule i pos ty val pid nores target children) res =
     (if IsLogical ty then
        (case collect_log (\<lambda>c. renderMatcher c res) children of
           (None, evs) \<Rightarrow> (None, evs)
         | (Some parts, evs) \<Rightarrow>
             (Some (ty @ '',('' @ Join (map (\<lambda>s. ''('' @ s @ '')'') parts) '','' @ '')''), evs))
      else if TakesProvider ty then
        (case pid of
           None \<Rightarrow> (None, [RuleSetWithoutProvider ty])
         | Some p \<Rightarrow>
             (case nr_providerName res p of
                None \<Rightarrow> (None, [ProviderUnresolved p])
              | Some name \<Rightarrow> (Some (ty @ '','' @ name), [])))
      else
        (case val of
           Some v \<Rightarrow> (Some (ty @ '','' @ v), [])
         | None \<Rightarrow> (Some ty, [])))"

definition buildRule :: "entityNameResolver \<Rightarrow> RoutingRule \<Rightarrow> string option \<times> event list" where
  "buildRule res rule =
     (case rr_Target rule of
        None \<Rightarrow> (None, [RuleWithoutTarget (rr_Type rule)])
      | Some ref \<Rightarrow>
          (case resolve res ref of
             None \<Rightarrow>
               (None, if pr_Kind ref \<noteq> PolicyInbound
                      then [TargetUnresolved (rr_Type rule) (pr_Kind ref)] else [])
           | Some target \<Rightarrow>
               (case renderMatcher rule res of
                  (None, evs) \<Rightarrow> (None, evs)
                | (Some matcher, evs) \<Rightarrow>
                    (Some (matcher @ '','' @ target @
                       (if rr_NoResolve rule = Some True then '',no-resolve'' else [])), evs))))"

definition buildRules :: "RoutingRule list \<Rightarrow> entityNameResolver \<Rightarrow> string list \<times> event list" where
  "buildRules rules res =
     (let built = map (buildRule res) rules
      in (List.map_filter fst built, concat (map snd built)))"

section \<open>Rule-providers (providers.go)\<close>

definition ruleSetExt :: "string \<Rightarrow> string" where
  "ruleSetExt format =
     (let f = ToLower format
      in if f = ''mrs'' then ''.mrs'' else if f = ''yaml'' then ''.yaml'' else ''.txt'')"

record Options =
  op_BaseYAML :: string
  op_Rules :: "RoutingRule list"
  op_Groups :: "ProxyGroup list"
  op_Providers :: "RuleProvider list"
  op_PublicBase :: string

definition provider_url :: "string \<Rightarrow> RuleProvider \<Rightarrow> string" where
  "provider_url base rp =
     (if rp_Mirror rp \<and> base \<noteq> []
      then base @ ''/rules/'' @ rp_Name rp @ ruleSetExt (rp_Format rp) else rp_URL rp)"

definition provider_entry :: "string \<Rightarrow> RuleProvider \<Rightarrow> ymap" where
  "provider_entry base rp =
     (let entry = [(''type'', YStr ''http''), (''behavior'', YStr (rp_Behavior rp)),
                   (''url'', YStr (provider_url base rp)),
                   (''path'', YStr (''./ruleset/'' @ rp_Name rp @ ruleSetExt (rp_Format rp)))];
          entry = opt_str ''format'' (rp_Format rp) entry
      in if 0 < rp_Interval rp then put ''interval'' (YInt (rp_Interval rp)) entry else entry)"

definition ruleProviders :: "Options \<Rightarrow> ymap option" where
  "ruleProviders opts =
     (if op_Providers opts = [] then None
      else
        (let base = TrimRightSlash (op_PublicBase opts)
         in Some (fold (\<lambda>rp out. put (rp_Name rp) (YMap (provider_entry base rp)) out)
                    (op_Providers opts) [])))"

section \<open>The document (render.go)\<close>

datatype 'e render_error = BaseConfigError 'e | MarshalError 'e | NilDereference

text \<open>
  The document before it is marshalled. \<open>unmarshal\<close> is \<open>yaml.Unmarshal\<close> into a \<open>map[string]any\<close> (a nil
  map is the empty one), called only when the base text is not blank.
\<close>

definition render_document ::
    "(string \<Rightarrow> 'e + ymap) \<Rightarrow> Subscriber \<Rightarrow> Options \<Rightarrow> 'e render_error + (ymap \<times> event list)" where
  "render_document unmarshal sub opts =
     bind_err
       (if TrimSpace (op_BaseYAML opts) \<noteq> [] then
          (case unmarshal (op_BaseYAML opts) of
             Inl e \<Rightarrow> Inl (BaseConfigError e)
           | Inr m \<Rightarrow> Inr m)
        else Inr [])
       (\<lambda>base.
          let base = fold AList.delete GeneratedKeys base;
              res = newEntityNameResolver sub (op_Groups opts) (op_Providers opts)
          in case those (map proxyToMap (sb_Proxies sub)) of
               None \<Rightarrow> Inl NilDereference
             | Some proxies \<Rightarrow>
                 (case buildGroups (op_Groups opts) res of (groups, evs1) \<Rightarrow>
                   (case buildRules (op_Rules opts) res of (rules, evs2) \<Rightarrow>
                     let base = put ''proxies'' (YSeq (map YMap proxies)) base;
                         base = put ''proxy-groups'' (YSeq (map YMap groups)) base;
                         base = put ''rules'' (YSeq (map YStr rules)) base;
                         base = (case ruleProviders opts of
                                   None \<Rightarrow> base
                                 | Some rp \<Rightarrow> put ''rule-providers'' (YMap rp) base)
                     in Inr (base, evs1 @ evs2))))"

definition Render ::
    "(string \<Rightarrow> 'e + ymap) \<Rightarrow> (ymap \<Rightarrow> 'e + string) \<Rightarrow> Subscriber \<Rightarrow> Options \<Rightarrow>
       'e render_error + (string \<times> event list)" where
  "Render unmarshal marshal sub opts =
     bind_err (render_document unmarshal sub opts)
       (\<lambda>(doc, evs). case marshal doc of
          Inl e \<Rightarrow> Inl (MarshalError e) | Inr bytes \<Rightarrow> Inr (bytes, evs))"

end
