(* ===== verification/GoNet.thy ===== *)
theory GoNet
  imports GoText
begin

text \<open>
  The parts of Go's standard library that check addresses and tokens: the runes of a string,
  \<open>strings.Split\<close> and \<open>strings.Cut\<close>, \<open>strconv.ParseInt\<close>, \<open>net.ParseIP\<close> and \<open>net/url\<close>
  (parsing and escaping, Go 1.25).
\<close>

section \<open>Runes and splitting\<close>

text \<open>
  The runes a \<open>for range\<close> over a string yields: a well-formed sequence as its code point, any other
  byte as U+FFFD.
\<close>

definition rune_at :: "char \<Rightarrow> string \<Rightarrow> nat" where
  "rune_at c s =
     (let b = of_char c; cont = (\<lambda>i. of_char (s ! i) mod 0x40) in
      if b < 0x80 then b
      else if rune_width c s = 2 then (b mod 0x20) * 0x40 + cont 0
      else if rune_width c s = 3 then (b mod 0x10) * 0x1000 + cont 0 * 0x40 + cont 1
      else if rune_width c s = 4 then (b mod 0x08) * 0x40000 + cont 0 * 0x1000 + cont 1 * 0x40 + cont 2
      else 0xFFFD)"

fun runes :: "string \<Rightarrow> nat list" where
  "runes [] = []"
| "runes (c # s) = rune_at c s # runes (drop (rune_width c s - 1) s)"

fun Split :: "char \<Rightarrow> string \<Rightarrow> string list" where
  "Split sep [] = [[]]"
| "Split sep (c # s) =
     (if c = sep then [] # Split sep s
      else case Split sep s of [] \<Rightarrow> [[c]] | p # ps \<Rightarrow> (c # p) # ps)"

definition Cut :: "char \<Rightarrow> string \<Rightarrow> string \<times> string \<times> bool" where
  "Cut sep s = (takeWhile (\<lambda>c. c \<noteq> sep) s, drop 1 (dropWhile (\<lambda>c. c \<noteq> sep) s), sep \<in> set s)"

text \<open>Split at the last occurrence; the separator stays with the second half.\<close>

definition cut_last :: "char \<Rightarrow> string \<Rightarrow> (string \<times> string) option" where
  "cut_last sep s =
     (if sep \<in> set s
      then Some (rev (drop 1 (dropWhile (\<lambda>c. c \<noteq> sep) (rev s))), sep # rev (takeWhile (\<lambda>c. c \<noteq> sep) (rev s)))
      else None)"

lemma Split_not_Nil [simp]: "Split sep s \<noteq> []"
  by (induction s) (auto split: list.splits)

lemma Split_plain: "sep \<notin> set s \<Longrightarrow> Split sep s = [s]"
  by (induction s) auto

lemma Cut_found: "sep \<notin> set s \<Longrightarrow> Cut sep (s @ sep # t) = (s, t, True)"
  by (induction s) (auto simp: Cut_def)

lemma Cut_recover: "Cut sep s = (a, b, True) \<Longrightarrow> s = a @ sep # b \<and> sep \<notin> set a"
proof -
  assume cut: "Cut sep s = (a, b, True)"
  then have mem: "sep \<in> set s" and a: "a = takeWhile (\<lambda>c. c \<noteq> sep) s"
    and b: "b = drop 1 (dropWhile (\<lambda>c. c \<noteq> sep) s)" by (auto simp: Cut_def)
  from mem have ne: "dropWhile (\<lambda>c. c \<noteq> sep) s \<noteq> []" by (auto simp: dropWhile_eq_Nil_conv)
  then have "hd (dropWhile (\<lambda>c. c \<noteq> sep) s) = sep" using hd_dropWhile [OF ne] by simp
  with ne b have "dropWhile (\<lambda>c. c \<noteq> sep) s = sep # b"
    by (cases "dropWhile (\<lambda>c. c \<noteq> sep) s") auto
  then have "s = a @ sep # b" using takeWhile_dropWhile_id [of "\<lambda>c. c \<noteq> sep" s] a by simp
  moreover have "sep \<notin> set a" using a by (auto dest: set_takeWhileD)
  ultimately show ?thesis by simp
qed

section \<open>Numbers\<close>

definition max_int64 :: int where "max_int64 = 9223372036854775807"

text \<open>\<open>strconv.ParseInt(s, 10, 64)\<close>, and \<open>strconv.Atoi\<close> on a 64-bit platform.\<close>

definition parse_digits :: "string \<Rightarrow> nat option" where
  "parse_digits s = (if s \<noteq> [] \<and> list_all is_digit s then Some (undigits s) else None)"

definition ParseInt :: "string \<Rightarrow> int option" where
  "ParseInt s =
     (let neg = HasPrefix s ''-''; body = (if HasPrefix s ''+'' \<or> neg then drop 1 s else s)
      in case parse_digits body of
           None \<Rightarrow> None
         | Some n \<Rightarrow>
             (let v = (if neg then - int n else int n)
              in if - max_int64 - 1 \<le> v \<and> v \<le> max_int64 then Some v else None))"

lemma digits_all: "list_all is_digit (digits n)" "digits n \<noteq> []"
proof -
  show "list_all is_digit (digits n)" using digits_chars by (auto simp: list_all_iff is_digit_def between_def)
  show "digits n \<noteq> []" by (subst digits.simps) simp
qed

lemma parse_digits_digits [simp]: "parse_digits (digits n) = Some n"
  by (simp add: parse_digits_def digits_all undigits_digits)

lemma ParseInt_Itoa:
  assumes "- max_int64 - 1 \<le> i" "i \<le> max_int64"
  shows "ParseInt (Itoa i) = Some i"
proof -
  have "\<not> HasPrefix (digits n) ''-'' \<and> \<not> HasPrefix (digits n) ''+''" for n
    using digits_all [of n] by (cases "digits n") (auto simp: HasPrefix_iff char_class_defs less_eq_char_def)
  moreover have "HasPrefix (CHR ''-'' # s) ''-''" for s by (simp add: HasPrefix_iff)
  ultimately show ?thesis using assms by (simp add: ParseInt_def Itoa_def Let_def)
qed

section \<open>IP addresses\<close>

definition is_hex :: "char \<Rightarrow> bool" where
  "is_hex c \<longleftrightarrow> is_digit c \<or> between CHR ''a'' CHR ''f'' c \<or> between CHR ''A'' CHR ''F'' c"

text \<open>Four decimal octets without leading zeros.\<close>

definition ipv4_octet :: "string \<Rightarrow> bool" where
  "ipv4_octet p \<longleftrightarrow>
     p \<noteq> [] \<and> list_all is_digit p \<and> (1 < length p \<longrightarrow> hd p \<noteq> CHR ''0'') \<and> undigits p \<le> 255"

definition ipv4_fields :: "string \<Rightarrow> bool" where
  "ipv4_fields s \<longleftrightarrow> length (Split CHR ''.'' s) = 4 \<and> list_all ipv4_octet (Split CHR ''.'' s)"

text \<open>
  The loop of \<open>parseIPv6\<close> with \<open>n\<close> 16-bit groups left to fill; \<open>e\<close> records that the double colon was
  seen. The address is complete when all groups are filled, or fewer with a double colon.
\<close>

fun ipv6_groups :: "nat \<Rightarrow> bool \<Rightarrow> string \<Rightarrow> bool" where
  "ipv6_groups 0 e s \<longleftrightarrow> s = [] \<and> \<not> e"
| "ipv6_groups (Suc n) e s \<longleftrightarrow>
     (let digs = takeWhile is_hex s; rest = dropWhile is_hex s
      in digs \<noteq> [] \<and> length digs \<le> 4 \<and>
         (case rest of
            [] \<Rightarrow> e = (0 < n)
          | c # rest' \<Rightarrow>
              if c = CHR ''.'' then
                (e \<or> n = 1) \<and> 1 \<le> n \<and> ipv4_fields s \<and> e = (1 < n)
              else c = CHR '':'' \<and>
                (case rest' of
                   [] \<Rightarrow> False
                 | d # rest'' \<Rightarrow>
                     if d = CHR '':'' then
                       \<not> e \<and> (if rest'' = [] then 0 < n else ipv6_groups n True rest'')
                     else ipv6_groups n e rest')))"

definition ipv6_address :: "string \<Rightarrow> bool" where
  "ipv6_address s \<longleftrightarrow>
     CHR ''%'' \<notin> set s \<and>
     (if HasPrefix s ''::'' then s = ''::'' \<or> ipv6_groups 8 True (drop 2 s) else ipv6_groups 8 False s)"

text \<open>\<open>net.ParseIP(s) != nil\<close>: the first dot or colon decides the version; a zone is refused.\<close>

definition ParseIP :: "string \<Rightarrow> bool" where
  "ParseIP s =
     (case find (\<lambda>c. c \<in> {CHR ''.'', CHR '':'', CHR ''%''}) s of
        None \<Rightarrow> False
      | Some c \<Rightarrow> if c = CHR ''.'' then ipv4_fields s else c = CHR '':'' \<and> ipv6_address s)"

lemma ParseIP_examples:
  "ParseIP ''1.2.3.4''" "\<not> ParseIP ''1.2.3.04''" "\<not> ParseIP ''1.2.3.256''" "\<not> ParseIP ''1.2.3''" "ParseIP ''::''"
  "ParseIP ''2001:db8::1''" "ParseIP ''::ffff:1.2.3.4''" "\<not> ParseIP ''1:2:3:4:5:6:7::8:9''" "\<not> ParseIP ''fe80::1%eth0''"
  "ParseIP ''1:2:3:4:5:6:7:8''" "ParseIP ''1:2:3:4:5:6:1.2.3.4''" "\<not> ParseIP ''1:2:3:4:5:6:7::8''"
  "\<not> ParseIP ''example.org''" "\<not> ParseIP ''12345::''" "ParseIP ''1::''"
  by code_simp+

section \<open>URLs (net/url)\<close>

definition hex_val :: "char \<Rightarrow> nat" where
  "hex_val c =
     (if is_digit c then of_char c - 48 else if between CHR ''a'' CHR ''f'' c then of_char c - 87 else of_char c - 55)"

datatype url_part = HostPart | ZonePart | OtherPart

text \<open>\<open>shouldEscape\<close> for the host: everything but letters, digits and these marks.\<close>

definition escape_in_host :: "char \<Rightarrow> bool" where
  "escape_in_host c \<longleftrightarrow>
     \<not> is_alnum c \<and> c \<notin> set ''!$&()*+,;=:[]<>-_.~'' \<and> c \<noteq> CHR 0x22 \<and> c \<noteq> CHR 0x27"

fun url_unescape :: "url_part \<Rightarrow> string \<Rightarrow> string option" where
  "url_unescape m [] = Some []"
| "url_unescape m (c # s) =
     (if c = CHR ''%'' then
        (case s of
           a # b # t \<Rightarrow>
             (let v = char_of (16 * hex_val a + hex_val b) in
              if is_hex a \<and> is_hex b \<and>
                 (m = HostPart \<longrightarrow> 8 \<le> hex_val a \<or> [a, b] = ''25'') \<and>
                 (m = ZonePart \<longrightarrow> [a, b] = ''25'' \<or> v = CHR '' '' \<or> \<not> escape_in_host v)
              then map_option (Cons v) (url_unescape m t) else None)
         | _ \<Rightarrow> None)
      else if m \<noteq> OtherPart \<and> of_char c < (0x80 :: nat) \<and> escape_in_host c then None
      else map_option (Cons c) (url_unescape m s))"

text \<open>A colon and digits, maybe none, or nothing.\<close>

definition validOptionalPort :: "string \<Rightarrow> bool" where
  "validOptionalPort p \<longleftrightarrow> (case p of [] \<Rightarrow> True | c # ds \<Rightarrow> c = CHR '':'' \<and> list_all is_digit ds)"

definition scheme_char :: "char \<Rightarrow> bool" where
  "scheme_char c \<longleftrightarrow> is_alnum c \<or> c \<in> set ''+-.''"

definition getScheme :: "string \<Rightarrow> (string \<times> string) option" where
  "getScheme s =
     (let scheme = takeWhile scheme_char s
      in if scheme \<noteq> [] \<and> \<not> (is_lower (hd scheme) \<or> is_upper (hd scheme)) then Some ([], s)
         else case dropWhile scheme_char s of
           [] \<Rightarrow> Some ([], s)
         | c # rest \<Rightarrow>
             if c = CHR '':'' then (if scheme = [] then None else Some (scheme, rest)) else Some ([], s))"

text \<open>The position of a substring, as what comes before it and the rest from it on.\<close>

fun find_sub :: "string \<Rightarrow> string \<Rightarrow> (string \<times> string) option" where
  "find_sub p [] = (if p = [] then Some ([], []) else None)"
| "find_sub p (c # s) =
     (if HasPrefix (c # s) p then Some ([], c # s)
      else map_option (\<lambda>(a, b). (c # a, b)) (find_sub p s))"

definition parseHost :: "string \<Rightarrow> string option" where
  "parseHost host =
     (if HasPrefix host ''['' then
        (case cut_last CHR '']'' host of
           None \<Rightarrow> None
         | Some (inner, close) \<Rightarrow>
             if \<not> validOptionalPort (drop 1 close) then None
             else (case find_sub ''%25'' inner of
                     Some (addr, zone) \<Rightarrow>
                       (case (url_unescape HostPart addr, url_unescape ZonePart zone, url_unescape HostPart close) of
                          (Some a, Some z, Some c) \<Rightarrow> Some (a @ z @ c)
                        | _ \<Rightarrow> None)
                   | None \<Rightarrow> url_unescape HostPart host))
      else
        (case cut_last CHR '':'' host of
           Some (_, port) \<Rightarrow> if validOptionalPort port then url_unescape HostPart host else None
         | None \<Rightarrow> url_unescape HostPart host))"

definition validUserinfo :: "string \<Rightarrow> bool" where
  "validUserinfo s \<longleftrightarrow> list_all (\<lambda>c. is_alnum c \<or> c \<in> set ''-._:~!$&()*+,;=%@'' \<or> c = CHR 0x27) s"

text \<open>The host of an authority; the user information is only checked.\<close>

definition parseAuthority :: "string \<Rightarrow> string option" where
  "parseAuthority s =
     (case cut_last CHR ''@'' s of
        None \<Rightarrow> parseHost s
      | Some (info, at_host) \<Rightarrow>
          (case parseHost (drop 1 at_host) of
             None \<Rightarrow> None
           | Some h \<Rightarrow>
               if validUserinfo info \<and> url_unescape OtherPart info \<noteq> None then Some h else None))"

record URL =
  url_Scheme :: string
  url_Opaque :: string
  url_Host :: string
  url_Path :: string
  url_RawQuery :: string
  url_Fragment :: string

definition empty_url :: URL where
  "empty_url = \<lparr>url_Scheme = [], url_Opaque = [], url_Host = [], url_Path = [], url_RawQuery = [], url_Fragment = []\<rparr>"

definition cut_query :: "string \<Rightarrow> string \<times> string" where
  "cut_query rest =
     (if HasSuffix rest ''?'' \<and> count_list rest CHR ''?'' = 1 then (butlast rest, [])
      else case Cut CHR ''?'' rest of (path, query, _) \<Rightarrow> (path, query))"

definition set_path :: "string \<Rightarrow> URL \<Rightarrow> URL option" where
  "set_path p u = map_option (\<lambda>path. u\<lparr>url_Path := path\<rparr>) (url_unescape OtherPart p)"

definition is_ctl :: "char \<Rightarrow> bool" where
  "is_ctl c \<longleftrightarrow> of_char c < (0x20 :: nat) \<or> c = CHR 0x7F"

definition parse_no_fragment :: "string \<Rightarrow> URL option" where
  "parse_no_fragment s =
     (if list_ex is_ctl s then None
      else if s = ''*'' then Some (empty_url\<lparr>url_Path := ''*''\<rparr>)
      else case getScheme s of
        None \<Rightarrow> None
      | Some (scheme, rest) \<Rightarrow>
          (let (rest, query) = cut_query rest;
               u = empty_url\<lparr>url_Scheme := ToLower scheme, url_RawQuery := query\<rparr>
           in if \<not> HasPrefix rest ''/'' \<and> scheme \<noteq> [] then Some (u\<lparr>url_Opaque := rest\<rparr>)
              else if \<not> HasPrefix rest ''/'' \<and> CHR '':'' \<in> set (fst (Cut CHR ''/'' rest)) then None
              else if (scheme \<noteq> [] \<or> \<not> HasPrefix rest ''///'') \<and> HasPrefix rest ''//'' then
                (case Cut CHR ''/'' (drop 2 rest) of
                   (authority, tail, slash) \<Rightarrow>
                     (case parseAuthority authority of
                        None \<Rightarrow> None
                      | Some host \<Rightarrow> set_path (if slash then CHR ''/'' # tail else []) (u\<lparr>url_Host := host\<rparr>)))
              else set_path rest u))"

definition url_Parse :: "string \<Rightarrow> URL option" where
  "url_Parse s =
     (case Cut CHR ''#'' s of
        (u, frag, _) \<Rightarrow>
          (case parse_no_fragment u of
             None \<Rightarrow> None
           | Some url \<Rightarrow> map_option (\<lambda>f. url\<lparr>url_Fragment := f\<rparr>) (url_unescape OtherPart frag)))"

text \<open>\<open>Hostname\<close> and \<open>Port\<close> of a parsed URL.\<close>

definition splitHostPort :: "string \<Rightarrow> string \<times> string" where
  "splitHostPort hp =
     (let (host, port) = (case cut_last CHR '':'' hp of
                            Some (h, p) \<Rightarrow> if validOptionalPort p then (h, drop 1 p) else (hp, [])
                          | None \<Rightarrow> (hp, []))
      in (if HasPrefix host ''['' \<and> HasSuffix host '']'' then butlast (drop 1 host) else host, port))"

definition Hostname :: "URL \<Rightarrow> string" where "Hostname u = fst (splitHostPort (url_Host u))"
definition Port :: "URL \<Rightarrow> string" where "Port u = snd (splitHostPort (url_Host u))"

text \<open>\<open>url.PathEscape\<close>: one path segment.\<close>

definition segment_unreserved :: "char \<Rightarrow> bool" where
  "segment_unreserved c \<longleftrightarrow> is_alnum c \<or> c \<in> set ''-_.~$&+:=@''"

definition hex_upper :: "nat \<Rightarrow> char" where "hex_upper n = ''0123456789ABCDEF'' ! n"

definition PathEscape :: "string \<Rightarrow> string" where
  "PathEscape s = concat (map (\<lambda>c. if segment_unreserved c then [c]
     else [CHR ''%'', hex_upper (of_char c div 16), hex_upper (of_char c mod 16)]) s)"

lemma url_examples:
  "map_option url_Host (url_Parse ''https://1.2.3.4:2096'') = Some ''1.2.3.4:2096''"
  "map_option Hostname (url_Parse ''http://[::1]:80'') = Some ''::1''"
  "map_option url_Path (url_Parse ''https://h/a%20b?q#f'') = Some ''/a b''"
  "map_option url_RawQuery (url_Parse ''https://h/?'') = Some []"
  "url_Parse ''https://h:8x/'' = None" "url_Parse '':x'' = None" "url_Parse ''http://a b/'' = None"
  by code_simp+

end
