(* ===== verification/Delivery.thy ===== *)
theory Delivery
  imports Fleet ConfigsRepo MihomoRender GoNet
begin

text \<open>
  Subscription delivery: the token of a subscription (\<open>internal/token/token.go\<close>), the handler of
  GET /sub/kind/token (\<open>internal/handlers/sub/handler.go\<close>), the mihomo engine renderer
  (\<open>mihomo_renderer.go\<close>) and the copyable links of the admin UI
  (\<open>internal/service/sublinks/sublinks.go\<close>).

  Parameters: \<open>hmac\<close> is HMAC-SHA256 of a secret and a message, as bytes; \<open>quote\<close> is the verb q of
  \<open>fmt\<close>; the YAML functions are those of the renderer; the fleet is a result. The repositories read
  one database. The content type the renderer reports is not sent (the media type is fixed by the
  API description).
\<close>

section \<open>Tokens\<close>

type_synonym mac = "string \<Rightarrow> string \<Rightarrow> string"

definition hex_digit :: "nat \<Rightarrow> char" where "hex_digit n = ''0123456789abcdef'' ! n"

definition hex_byte :: "char \<Rightarrow> string" where
  "hex_byte c = [hex_digit (of_char c div 16), hex_digit (of_char c mod 16)]"

definition EncodeToString :: "string \<Rightarrow> string" where
  "EncodeToString bytes = concat (map hex_byte bytes)"

definition token_length :: nat where "token_length = 24"

definition Make :: "mac \<Rightarrow> string \<Rightarrow> string \<Rightarrow> string" where
  "Make hmac secret subID = take token_length (EncodeToString (hmac secret subID))"

text \<open>\<open>subtle.ConstantTimeCompare\<close> returns 1 exactly for equal contents.\<close>

definition Match :: "mac \<Rightarrow> string \<Rightarrow> string \<Rightarrow> string \<Rightarrow> bool" where
  "Match hmac secret subID token \<longleftrightarrow> Make hmac secret subID = token"

section \<open>The mihomo engine renderer\<close>

definition ConfigKindMihomo :: string where "ConfigKindMihomo = ''mihomo''"

record RenderMeta =
  rm_ContentType :: string
  rm_Filename :: string
  rm_ProfileTitle :: string
  rm_UpdateInterval :: int

text \<open>
  \<open>NotTerminating\<close> stands for reading a rule tree whose parent pointers form a cycle; the database
  invariant excludes it.
\<close>

datatype 'e sub_error =
    UnknownSub
  | FleetError string
  | NotTerminating
  | RenderError "'e render_error"

definition stored_options :: "int \<Rightarrow> db \<Rightarrow> RoutingRule list \<Rightarrow> string \<Rightarrow> Options" where
  "stored_options cfg db rules publicBase =
     \<lparr>op_BaseYAML = Setting cfg ''base_yaml'' db, op_Rules = rules, op_Groups = ProxyGroups cfg db,
      op_Providers = RuleProviders cfg db, op_PublicBase = publicBase\<rparr>"

definition options :: "string \<Rightarrow> int \<Rightarrow> db \<Rightarrow> Options option" where
  "options publicBase cfg db = map_option (\<lambda>rules. stored_options cfg db rules publicBase) (Rules cfg db)"

type_synonym 'e engine = "Subscriber \<Rightarrow> int \<Rightarrow> db \<Rightarrow> 'e sub_error + (string \<times> RenderMeta)"

definition MihomoRender ::
    "(string \<Rightarrow> 'e + ymap) \<Rightarrow> (ymap \<Rightarrow> 'e + string) \<Rightarrow> string \<Rightarrow> 'e engine" where
  "MihomoRender unmarshal marshal publicBase sub cfg db =
     (case options publicBase cfg db of
        None \<Rightarrow> Inl NotTerminating
      | Some opts \<Rightarrow>
          (case Render unmarshal marshal sub opts of
             Inl e \<Rightarrow> Inl (RenderError e)
           | Inr (body, evs) \<Rightarrow>
               let profile = Profile_of cfg db
               in Inr (body, \<lparr>rm_ContentType = ''text/yaml; charset=utf-8'', rm_Filename = pf_Filename profile,
                              rm_ProfileTitle = pf_Title profile, rm_UpdateInterval = pf_UpdateInterval profile\<rparr>)))"

section \<open>The handler\<close>

record SubOKHeaders =
  sh_ProfileUpdateInterval :: string
  sh_ProfileTitle :: string
  sh_ContentDisposition :: string
  sh_SubscriptionUserinfo :: string
  sh_Response :: string

datatype sub_res = SubNotFound string | SubOK SubOKHeaders

text \<open>\<open>base64.StdEncoding\<close>.\<close>

definition b64_char :: "nat \<Rightarrow> char" where
  "b64_char n = ''ABCDEFGHIJKLMNOPQRSTUVWXYZabcdefghijklmnopqrstuvwxyz0123456789+/'' ! n"

fun Base64 :: "string \<Rightarrow> string" where
  "Base64 [] = []"
| "Base64 [a] = (let n = of_char a * 16 in [b64_char (n div 64), b64_char (n mod 64), CHR ''='', CHR ''=''])"
| "Base64 [a, b] =
     (let n = (of_char a * 256 + of_char b) * 4
      in [b64_char (n div 4096), b64_char (n div 64 mod 64), b64_char (n mod 64), CHR ''=''])"
| "Base64 (a # b # c # s) =
     (let n = (of_char a * 256 + of_char b) * 256 + of_char c
      in b64_char (n div 262144) # b64_char (n div 4096 mod 64) # b64_char (n div 64 mod 64) # b64_char (n mod 64) #
         Base64 s)"

text \<open>The quotient of two positive numbers; Go truncates.\<close>

definition userinfo :: "i64 \<Rightarrow> i64 \<Rightarrow> i64 \<Rightarrow> i64 \<Rightarrow> string" where
  "userinfo up down totalBytes expiryMs =
     ''upload='' @ Itoa (sint up) @ ''; download='' @ Itoa (sint down) @ ''; total='' @ Itoa (sint totalBytes) @
     (if 0 < sint expiryMs then ''; expire='' @ Itoa (sint expiryMs div 1000) else [])"

definition configID :: "int \<Rightarrow> string \<Rightarrow> db \<Rightarrow> int" where
  "configID userID kind db =
     (case UserConfigID userID kind db of
        Some i \<Rightarrow> i
      | None \<Rightarrow> (case BaseConfigID kind db of Some i \<Rightarrow> i | None \<Rightarrow> 0))"

definition sub_headers :: "(string \<Rightarrow> string) \<Rightarrow> Subscriber \<Rightarrow> string \<Rightarrow> RenderMeta \<Rightarrow> SubOKHeaders" where
  "sub_headers quote sub body meta =
     \<lparr>sh_ProfileUpdateInterval = Itoa (rm_UpdateInterval meta),
      sh_ProfileTitle = ''base64:'' @ Base64 (rm_ProfileTitle meta),
      sh_ContentDisposition = ''attachment; filename='' @ quote (rm_Filename meta),
      sh_SubscriptionUserinfo = userinfo (sb_Up sub) (sb_Down sub) (sb_Total sub) (sb_Expiry sub),
      sh_Response = body\<rparr>"

text \<open>The subscription id whose token this is; the empty string when there is none.\<close>

definition match_sub :: "mac \<Rightarrow> string \<Rightarrow> string list \<Rightarrow> string \<Rightarrow> string" where
  "match_sub hmac secret subIDs token =
     (case find (\<lambda>i. Match hmac secret i token) subIDs of None \<Rightarrow> [] | Some i \<Rightarrow> i)"

definition not_found :: sub_res where "not_found = SubNotFound (''not found'' @ [CHR 0x0A])"

definition Sub ::
    "mac \<Rightarrow> (string \<Rightarrow> string) \<Rightarrow> (string \<rightharpoonup> 'e engine) \<Rightarrow> string \<Rightarrow> string + Fleet \<Rightarrow> string \<Rightarrow> string \<Rightarrow> db \<Rightarrow>
     'e sub_error + sub_res" where
  "Sub hmac quote renderers secret fleet kind token db =
     (case renderers kind of
        None \<Rightarrow> Inr not_found
      | Some renderer \<Rightarrow>
          if token = [] then Inr not_found
          else let subID = match_sub hmac secret (SubIDs db) token in
               if subID = [] then Inr not_found
               else (case IDBySubID subID db of
                       None \<Rightarrow> Inl UnknownSub
                     | Some userID \<Rightarrow>
                         let cfg = configID userID kind db
                         in (case fleet of
                               Inl e \<Rightarrow> Inl (FleetError e)
                             | Inr fl \<Rightarrow>
                                 let sub = (case Fleet_Sub (Some fl) subID of
                                              None \<Rightarrow> new_subscriber subID | Some s \<Rightarrow> s)
                                 in bind_err (renderer sub cfg db) (\<lambda>(body, meta).
                                      Inr (SubOK (sub_headers quote sub body meta))))))"

text \<open>The registry built in \<open>cmd/service/main.go\<close>: mihomo is the one engine.\<close>

definition engines :: "(string \<Rightarrow> 'e + ymap) \<Rightarrow> (ymap \<Rightarrow> 'e + string) \<Rightarrow> string \<Rightarrow> (string \<rightharpoonup> 'e engine)" where
  "engines unmarshal marshal publicBase = [ConfigKindMihomo \<mapsto> MihomoRender unmarshal marshal publicBase]"

section \<open>Copyable links (sublinks)\<close>

record SubLink =
  sl_Title :: string
  sl_Value :: string

text \<open>\<open>url.QueryEscape\<close>: letters, digits and four marks stay, a space becomes a plus.\<close>

definition query_unreserved :: "char \<Rightarrow> bool" where
  "query_unreserved c \<longleftrightarrow> is_alnum c \<or> c \<in> set ''-_.~''"

definition escape_char :: "char \<Rightarrow> string" where
  "escape_char c =
     (if query_unreserved c then [c]
      else if c = CHR '' '' then ''+''
      else [CHR ''%'', hex_upper (of_char c div 16), hex_upper (of_char c mod 16)])"

definition QueryEscape :: "string \<Rightarrow> string" where
  "QueryEscape s = concat (map escape_char s)"

definition rawURL :: "string \<Rightarrow> string \<Rightarrow> string" where "rawURL subURL title = subURL"

definition clashmiDeeplink :: "string \<Rightarrow> string \<Rightarrow> string" where
  "clashmiDeeplink subURL profileTitle =
     ''clashmi://install-config?url='' @ QueryEscape subURL @ ''&name='' @ QueryEscape profileTitle @
     ''&overwrite=false''"

record linkSpec =
  ls_title :: string
  ls_kind :: string
  ls_build :: "string \<Rightarrow> string \<Rightarrow> string"

definition catalog :: "linkSpec list" where
  "catalog =
     [\<lparr>ls_title = ''Mihomo'', ls_kind = ConfigKindMihomo, ls_build = rawURL\<rparr>,
      \<lparr>ls_title = ''Clashmi'', ls_kind = ConfigKindMihomo, ls_build = clashmiDeeplink\<rparr>]"

definition catalogKinds :: "string list" where "catalogKinds = dedup {} (map ls_kind catalog)"

definition link_title :: "int \<Rightarrow> db \<Rightarrow> string" where "link_title cfg db = pf_Title (Profile_of cfg db)"

definition baseTitle :: "string \<Rightarrow> db \<Rightarrow> string" where
  "baseTitle kind db = (case BaseConfigID kind db of None \<Rightarrow> [] | Some i \<Rightarrow> link_title i db)"

definition userTitle :: "int \<Rightarrow> string \<Rightarrow> db \<Rightarrow> string" where
  "userTitle userID kind db = (case UserConfigID userID kind db of None \<Rightarrow> [] | Some i \<Rightarrow> link_title i db)"

definition customUsers :: "string \<Rightarrow> db \<Rightarrow> int set" where
  "customUsers kind db = set (UserConfigUserIDs kind db)"

text \<open>A missing key of the two-level map reads as the empty title.\<close>

definition titlesByUser :: "User list \<Rightarrow> db \<Rightarrow> int \<Rightarrow> string \<Rightarrow> string" where
  "titlesByUser users db =
     fold (\<lambda>kind. fold (\<lambda>u out. out(us_ID u := (out (us_ID u))(kind :=
               if us_ID u \<in> customUsers kind db then userTitle (us_ID u) kind db else baseTitle kind db))) users)
       catalogKinds (\<lambda>_ _. [])"

definition sub_url :: "mac \<Rightarrow> string \<Rightarrow> string \<Rightarrow> string \<Rightarrow> string \<Rightarrow> string" where
  "sub_url hmac secret base kind subID = base @ ''/sub/'' @ kind @ ''/'' @ Make hmac secret subID"

text \<open>New trims the trailing slashes of the base once.\<close>

definition Links :: "mac \<Rightarrow> string \<Rightarrow> string \<Rightarrow> User list \<Rightarrow> db \<Rightarrow> (int \<rightharpoonup> SubLink list)" where
  "Links hmac secret publicBase users db =
     (if users = [] then Map.empty
      else let titles = titlesByUser users db; base = TrimRightSlash publicBase
           in fill_map us_ID (\<lambda>u. map (\<lambda>spec.
                \<lparr>sl_Title = ls_title spec,
                 sl_Value = ls_build spec (sub_url hmac secret base (ls_kind spec) (us_SubID u))
                              (titles (us_ID u) (ls_kind spec))\<rparr>) catalog) users)"

end
