(* ===== verification/AdminSession.thy ===== *)
theory AdminSession
  imports Delivery
begin

text \<open>
  The admin session and what it gates: the signed cookie (\<open>handlers/web/auth.go\<close>), signing in and out
  (\<open>handlers/login\<close>, \<open>handlers/logout\<close>), the page routes (\<open>handlers/admin_shell\<close>), the security and error
  handlers of the API (\<open>handlers/api/server.go\<close>) and the generated dispatch that calls them. Time is
  an argument, in Unix seconds; HMAC-SHA256 is the argument of \<open>Delivery\<close>.
\<close>

section \<open>Replies of the handlers\<close>

text \<open>
  What a handler returns: the typed response of its operation, or a Go error, which the dispatch
  answers with a 500.
\<close>

datatype 'a reply =
    Reply 'a
  | BadRequest string
  | Conflict string
  | NotFound
  | Failed

section \<open>The session cookie (web/auth.go)\<close>

definition sign :: "mac \<Rightarrow> string \<Rightarrow> int \<Rightarrow> string" where
  "sign hmac secret expiry =
     (let payload = Itoa expiry
      in payload @ ''.'' @ EncodeToString (hmac secret (''admin|'' @ payload)))"

definition session_valid :: "mac \<Rightarrow> string \<Rightarrow> int \<Rightarrow> string \<Rightarrow> bool" where
  "session_valid hmac secret now v =
     (case Cut CHR ''.'' v of
        (expiry, rest, found) \<Rightarrow>
          if \<not> found then False
          else (case ParseInt expiry of
                  None \<Rightarrow> False
                | Some exp \<Rightarrow> if exp < now then False else sign hmac secret exp = v))"

record Cookie =
  ck_Name :: string
  ck_Value :: string
  ck_Path :: string
  ck_HttpOnly :: bool
  ck_Secure :: bool
  ck_SameSite :: string
  ck_MaxAge :: int

definition adminTTL :: int where "adminTTL = 12 * 3600"

definition IssueCookie :: "mac \<Rightarrow> string \<Rightarrow> int \<Rightarrow> Cookie" where
  "IssueCookie hmac secret now =
     \<lparr>ck_Name = ''subgen_admin'', ck_Value = sign hmac secret (now + adminTTL), ck_Path = ''/admin'',
      ck_HttpOnly = True, ck_Secure = True, ck_SameSite = ''Lax'', ck_MaxAge = adminTTL\<rparr>"

definition ClearCookie :: Cookie where
  "ClearCookie =
     \<lparr>ck_Name = ''subgen_admin'', ck_Value = [], ck_Path = ''/admin'', ck_HttpOnly = True, ck_Secure = True,
      ck_SameSite = ''Lax'', ck_MaxAge = - 1\<rparr>"

section \<open>Signing in and out\<close>

record Session =
  se_hmac :: mac
  se_secret :: string

definition Valid :: "Session \<Rightarrow> int \<Rightarrow> string \<Rightarrow> bool" where
  "Valid s now v = session_valid (se_hmac s) (se_secret s) now v"

record credentials =
  cr_User :: string
  cr_Password :: string

text \<open>The 401 of a rejected sign-in carries its message.\<close>

datatype login_res = LoggedIn Cookie | Rejected string

definition Login :: "Session \<Rightarrow> credentials \<Rightarrow> int \<Rightarrow> credentials \<Rightarrow> login_res" where
  "Login s admin now req =
     (if cr_User req \<noteq> cr_User admin \<or> cr_Password req \<noteq> cr_Password admin
      then Rejected ''Invalid username or password''
      else LoggedIn (IssueCookie (se_hmac s) (se_secret s) now))"

definition Logout :: Cookie where "Logout = ClearCookie"

text \<open>A page is served from the assets, whose reading may fail; the cookie may be absent.\<close>

datatype page_res = Redirect string | Page string | PageFailed

definition cookie_or_empty :: "string option \<Rightarrow> string" where
  "cookie_or_empty c = (case c of None \<Rightarrow> [] | Some v \<Rightarrow> v)"

definition serve_page :: "(string \<rightharpoonup> string) \<Rightarrow> string \<Rightarrow> page_res" where
  "serve_page assets name = (case assets name of None \<Rightarrow> PageFailed | Some p \<Rightarrow> Page p)"

definition LoginPage :: "Session \<Rightarrow> int \<Rightarrow> (string \<rightharpoonup> string) \<Rightarrow> string option \<Rightarrow> page_res" where
  "LoginPage s now assets cookie =
     (if Valid s now (cookie_or_empty cookie) then Redirect ''/admin/users'' else serve_page assets ''login.html'')"

definition AdminShell :: "Session \<Rightarrow> int \<Rightarrow> (string \<rightharpoonup> string) \<Rightarrow> string option \<Rightarrow> page_res" where
  "AdminShell s now assets cookie =
     (if \<not> Valid s now (cookie_or_empty cookie) then Redirect ''/admin/login'' else serve_page assets ''index.html'')"

definition AdminShellView :: "Session \<Rightarrow> int \<Rightarrow> (string \<rightharpoonup> string) \<Rightarrow> string \<Rightarrow> string option \<Rightarrow> page_res" where
  "AdminShellView s now assets view cookie = AdminShell s now assets cookie"

section \<open>The API's security and error handlers (api/server.go)\<close>

datatype api_error =
    ErrUnauthorized
  | SecurityError
  | DecodeRequestError
  | DecodeParamsError
  | HandlerError

definition HandleAdminSession :: "Session \<Rightarrow> int \<Rightarrow> string \<Rightarrow> api_error option" where
  "HandleAdminSession s now key = (if Valid s now key then None else Some ErrUnauthorized)"

definition isBadRequest :: "api_error \<Rightarrow> bool" where
  "isBadRequest e \<longleftrightarrow> e = DecodeRequestError \<or> e = DecodeParamsError"

definition ErrorHandler :: "api_error \<Rightarrow> int \<times> string" where
  "ErrorHandler e =
     (if e = ErrUnauthorized \<or> e = SecurityError then (401, ''Authorization required'')
      else if isBadRequest e then (400, ''Bad request'')
      else (500, ''Internal error''))"

text \<open>
  The generated dispatch of a secured operation (\<open>internal/oas\<close>): the session cookie first, then the
  decoding of the request, then the handler. A request without a cookie leaves the requirement
  unsatisfied.
\<close>

datatype 'a answer = Answered "'a reply" | Refused int string

definition securityAdminSession :: "Session \<Rightarrow> int \<Rightarrow> string option \<Rightarrow> api_error + bool" where
  "securityAdminSession s now cookie =
     (case cookie of
        None \<Rightarrow> Inr False
      | Some v \<Rightarrow> (case HandleAdminSession s now v of Some e \<Rightarrow> Inl e | None \<Rightarrow> Inr True))"

definition refuse :: "api_error \<Rightarrow> 'a answer" where
  "refuse e = (case ErrorHandler e of (status, msg) \<Rightarrow> Refused status msg)"

definition serve_secured ::
    "Session \<Rightarrow> int \<Rightarrow> ('body \<Rightarrow> 'req option) \<Rightarrow> ('req \<Rightarrow> 's \<Rightarrow> 'a reply \<times> 's) \<Rightarrow>
     string option \<Rightarrow> 'body \<Rightarrow> 's \<Rightarrow> 'a answer \<times> 's" where
  "serve_secured s now decode handler cookie body st =
     (case securityAdminSession s now cookie of
        Inl e \<Rightarrow> (refuse SecurityError, st)
      | Inr False \<Rightarrow> (refuse SecurityError, st)
      | Inr True \<Rightarrow>
          (case decode body of
             None \<Rightarrow> (refuse DecodeRequestError, st)
           | Some req \<Rightarrow>
               (case handler req st of
                  (Failed, st') \<Rightarrow> (refuse HandlerError, st')
                | (r, st') \<Rightarrow> (Answered r, st'))))"

section \<open>Which cookies are valid\<close>

lemma Itoa_no_dot: "CHR ''.'' \<notin> set (Itoa i)"
proof -
  have "CHR ''.'' \<notin> set (digits n)" for n using digits_chars by (fastforce simp: less_eq_char_def)
  then show ?thesis by (simp add: Itoa_def)
qed

lemma Cut_sign: "Cut CHR ''.'' (sign hmac secret e) = (Itoa e, EncodeToString (hmac secret (''admin|'' @ Itoa e)), True)"
  using Cut_found [OF Itoa_no_dot, of e] by (simp add: sign_def Let_def)

definition int64_range :: "int \<Rightarrow> bool" where
  "int64_range i \<longleftrightarrow> - max_int64 - 1 \<le> i \<and> i \<le> max_int64"

lemma ParseInt_range: "ParseInt s = Some i \<Longrightarrow> int64_range i"
  by (auto simp: ParseInt_def Let_def int64_range_def split: option.splits if_splits)

lemma sign_inj: "sign hmac secret a = sign hmac secret b \<longleftrightarrow> a = b"
  using Cut_sign [of hmac secret a] Cut_sign [of hmac secret b] Itoa_inj [of a b] by auto

lemma session_valid_iff:
  "session_valid hmac secret now v \<longleftrightarrow> (\<exists>e. int64_range e \<and> now \<le> e \<and> v = sign hmac secret e)"
proof
  assume "session_valid hmac secret now v"
  then obtain a b e where "Cut CHR ''.'' v = (a, b, True)" "ParseInt a = Some e" "now \<le> e" "sign hmac secret e = v"
    by (auto simp: session_valid_def split: prod.splits if_splits option.splits)
  with ParseInt_range show "\<exists>e. int64_range e \<and> now \<le> e \<and> v = sign hmac secret e" by blast
next
  assume "\<exists>e. int64_range e \<and> now \<le> e \<and> v = sign hmac secret e"
  then show "session_valid hmac secret now v"
    by (auto simp: session_valid_def Cut_sign int64_range_def ParseInt_Itoa)
qed

end
