(* ===== verification/NodesService.thy ===== *)
theory NodesService
  imports NodesProperties GoNet
begin

text \<open>
  The nodes service, package \<open>internal/service/nodes\<close>: validation of a node and its inbounds, then
  persistence through the nodes repository. Validation also prefixes the base path with a slash,
  which Go does by mutating the node; here the checked node is returned.
\<close>

section \<open>Sentinels (validation\_errors.go)\<close>

datatype validation_error =
    ErrValidationNodeName | ErrValidationHost | ErrValidationPanelURL | ErrValidationBasePath
  | ErrValidationNoInbounds | ErrValidationInboundName | ErrValidationInboundPort
  | ErrValidationInboundNameUq | ErrValidationInboundPortUq | ErrValidationInboundKind
  | ErrValidationInboundSettings | ErrValidationHysteria2Pass | ErrValidationHysteria2Obfs
  | ErrValidationHysteria2Band | ErrValidationHysteria2SNI

datatype node_error = Invalid validation_error | Repo string repo_error

section \<open>Names, hosts and URLs (validate.go)\<close>

text \<open>On runes, as the Go code: a rune outside ASCII is none of the letters.\<close>

definition isASCIIAlnum :: "nat \<Rightarrow> bool" where
  "isASCIIAlnum r \<longleftrightarrow> 97 \<le> r \<and> r \<le> 122 \<or> 65 \<le> r \<and> r \<le> 90 \<or> 48 \<le> r \<and> r \<le> 57"

definition isRegionalIndicator :: "nat \<Rightarrow> bool" where
  "isRegionalIndicator r \<longleftrightarrow> 0x1F1E6 \<le> r \<and> r \<le> 0x1F1FF"

definition isInboundName :: "string \<Rightarrow> bool" where
  "isInboundName s \<longleftrightarrow> s \<noteq> [] \<and> list_all (\<lambda>r. isASCIIAlnum r \<or> r = 45) (runes s)"

definition isNodeName :: "string \<Rightarrow> bool" where
  "isNodeName s \<longleftrightarrow>
     s \<noteq> [] \<and> list_all (\<lambda>r. isASCIIAlnum r \<or> r = 45 \<or> r = 32 \<or> isRegionalIndicator r) (runes s)"

definition host_label :: "string \<Rightarrow> bool" where
  "host_label l \<longleftrightarrow>
     l \<noteq> [] \<and> length l \<le> 63 \<and> \<not> HasPrefix l ''-'' \<and> \<not> HasSuffix l ''-'' \<and>
     list_all (\<lambda>r. isASCIIAlnum r \<or> r = 45) (runes l)"

definition isHostOrIP :: "string \<Rightarrow> bool" where
  "isHostOrIP s \<longleftrightarrow>
     s \<noteq> [] \<and> (ParseIP s \<or> length s \<le> 253 \<and> list_all host_label (Split CHR ''.'' s))"

definition validPanelURL :: "string \<Rightarrow> bool" where
  "validPanelURL s =
     (case url_Parse s of
        None \<Rightarrow> False
      | Some u \<Rightarrow>
          if (url_Scheme u \<noteq> ''http'' \<and> url_Scheme u \<noteq> ''https'') \<or> url_Host u = [] then False
          else if url_Path u \<noteq> [] \<or> url_RawQuery u \<noteq> [] \<or> url_Fragment u \<noteq> [] then False
          else if \<not> isHostOrIP (Hostname u) then False
          else Port u = [] \<or> (case ParseInt (Port u) of None \<Rightarrow> False | Some p \<Rightarrow> 1 \<le> p \<and> p \<le> 65535))"

section \<open>Inbounds\<close>

text \<open>
  The regular expression of a bandwidth: digits, white space, an optional unit in any case. With the
  flag for case folding, RE2 also matches U+212A (the Kelvin sign) as k and U+017F (the long s) as s.
\<close>

definition re_space :: "char \<Rightarrow> bool" where
  "re_space c \<longleftrightarrow> c \<in> {CHR 0x09, CHR 0x0A, CHR 0x0C, CHR 0x0D, CHR '' ''}"

fun folds_to :: "string \<Rightarrow> string \<Rightarrow> bool" where
  "folds_to [] s \<longleftrightarrow> s = []"
| "folds_to (p # ps) s \<longleftrightarrow>
     (case s of
        [] \<Rightarrow> False
      | c # t \<Rightarrow>
          lower_char c = p \<and> folds_to ps t \<or>
          p = CHR ''k'' \<and> HasPrefix s [CHR 0xE2, CHR 0x84, CHR 0xAA] \<and> folds_to ps (drop 3 s) \<or>
          p = CHR ''s'' \<and> HasPrefix s [CHR 0xC5, CHR 0xBF] \<and> folds_to ps (drop 2 s))"

definition bandwidthRe :: "string \<Rightarrow> bool" where
  "bandwidthRe s \<longleftrightarrow>
     takeWhile is_digit s \<noteq> [] \<and>
     (let unit = dropWhile re_space (dropWhile is_digit s)
      in unit = [] \<or> list_ex (\<lambda>u. folds_to u unit) [''bps'', ''kbps'', ''mbps'', ''gbps'', ''tbps''])"

definition isBandwidth :: "string \<Rightarrow> bool" where
  "isBandwidth s = (let s = TrimSpace s in s = [] \<or> bandwidthRe s)"

definition validateHysteria2 :: "Hysteria2Settings option \<Rightarrow> validation_error option" where
  "validateHysteria2 h =
     (case h of
        None \<Rightarrow> Some ErrValidationInboundSettings
      | Some h \<Rightarrow>
          if TrimSpace (hs_Password h) = [] then Some ErrValidationHysteria2Pass
          else (let obfs = TrimSpace (hs_Obfs h); obfsPass = TrimSpace (hs_ObfsPassword h)
                in if obfs \<noteq> [] \<and> obfs \<noteq> ''salamander'' then Some ErrValidationHysteria2Obfs
                   else if (obfs = []) \<noteq> (obfsPass = []) then Some ErrValidationHysteria2Obfs
                   else if \<not> isBandwidth (hs_Up h) \<or> \<not> isBandwidth (hs_Down h) then Some ErrValidationHysteria2Band
                   else if TrimSpace (hs_SNI h) \<noteq> [] \<and> \<not> isHostOrIP (TrimSpace (hs_SNI h))
                   then Some ErrValidationHysteria2SNI
                   else None))"

definition validateInboundKind :: "Inbound \<Rightarrow> validation_error option" where
  "validateInboundKind i =
     (if in_Kind i = InboundKindVLESS then
        (if in_Hysteria2 i \<noteq> None then Some ErrValidationInboundSettings else None)
      else if in_Kind i = InboundKindHysteria2 then validateHysteria2 (in_Hysteria2 i)
      else Some ErrValidationInboundKind)"

fun validate_inbounds :: "int list \<Rightarrow> string list \<Rightarrow> Inbound list \<Rightarrow> validation_error option" where
  "validate_inbounds seenPort seenName [] = None"
| "validate_inbounds seenPort seenName (i # is) =
     (if \<not> isInboundName (in_Name i) then Some ErrValidationInboundName
      else if in_Port i < 1 \<or> 65535 < in_Port i then Some ErrValidationInboundPort
      else if in_Name i \<in> set seenName then Some ErrValidationInboundNameUq
      else if in_Port i \<in> set seenPort then Some ErrValidationInboundPortUq
      else and_then (validateInboundKind i)
             (validate_inbounds (in_Port i # seenPort) (in_Name i # seenName) is))"

definition validateNode :: "Node \<Rightarrow> validation_error + Node" where
  "validateNode n =
     (if \<not> isNodeName (nd_Name n) then Inl ErrValidationNodeName
      else if \<not> isHostOrIP (nd_VPNHost n) then Inl ErrValidationHost
      else if \<not> validPanelURL (nd_PanelBaseURL n) then Inl ErrValidationPanelURL
      else if nd_PanelBasePath n = [] then Inl ErrValidationBasePath
      else
        (let n = (if HasPrefix (nd_PanelBasePath n) ''/'' then n
                  else n\<lparr>nd_PanelBasePath := CHR ''/'' # nd_PanelBasePath n\<rparr>)
         in if nd_Inbounds n = [] then Inl ErrValidationNoInbounds
            else case validate_inbounds [] [] (nd_Inbounds n) of Some e \<Rightarrow> Inl e | None \<Rightarrow> Inr n))"

section \<open>Saving and deleting (service.go)\<close>

definition Save :: "encode \<Rightarrow> int \<Rightarrow> Node \<Rightarrow> db \<Rightarrow> (node_error + int) \<times> db" where
  "Save enc now n db =
     (case validateNode n of
        Inl e \<Rightarrow> (Inl (Invalid e), db)
      | Inr n \<Rightarrow>
          if nd_ID n \<le> 0 then
            (case CreateNode enc now n db of
               (Inl e, db') \<Rightarrow> (Inl (Repo ''nodes.Create: '' e), db')
             | (Inr i, db') \<Rightarrow> (Inr i, db'))
          else
            (case UpdateNode enc (nd_ID n) n (nd_Token n \<noteq> []) db of
               (Inl e, db') \<Rightarrow> (Inl (Repo ''nodes.Update: '' e), db')
             | (Inr _, db') \<Rightarrow> (Inr (nd_ID n), db')))"

definition Delete :: "int \<Rightarrow> db \<Rightarrow> (node_error + unit) \<times> db" where
  "Delete i db =
     (case DeleteNode i db of
        (Inl e, db') \<Rightarrow> (Inl (Repo ''nodes.Delete: '' e), db')
      | (Inr _, db') \<Rightarrow> (Inr (), db'))"

section \<open>What a successful validation says\<close>

definition inbound_valid :: "Inbound \<Rightarrow> bool" where
  "inbound_valid i \<longleftrightarrow>
     isInboundName (in_Name i) \<and> 1 \<le> in_Port i \<and> in_Port i \<le> 65535 \<and> validateInboundKind i = None"

definition node_valid :: "Node \<Rightarrow> bool" where
  "node_valid n \<longleftrightarrow>
     isNodeName (nd_Name n) \<and> isHostOrIP (nd_VPNHost n) \<and> validPanelURL (nd_PanelBaseURL n) \<and>
     HasPrefix (nd_PanelBasePath n) ''/'' \<and> nd_Inbounds n \<noteq> [] \<and> (\<forall>i \<in> set (nd_Inbounds n). inbound_valid i) \<and>
     distinct (map in_Name (nd_Inbounds n)) \<and> distinct (map in_Port (nd_Inbounds n))"

lemma validate_inbounds_None_iff:
  "validate_inbounds ports names is = None \<longleftrightarrow>
     (\<forall>i \<in> set is. inbound_valid i) \<and> distinct (map in_Name is) \<and> distinct (map in_Port is) \<and>
     set ports \<inter> in_Port ` set is = {} \<and> set names \<inter> in_Name ` set is = {}"
proof (induction "is" arbitrary: ports names)
  case (Cons i "is")
  then show ?case by (auto simp: inbound_valid_def)
qed simp

lemma validateNode_Inr_iff [validation_simps]:
  "validateNode n = Inr n' \<longleftrightarrow>
     nd_PanelBasePath n \<noteq> [] \<and> node_valid n' \<and>
     n' = (if HasPrefix (nd_PanelBasePath n) ''/'' then n
           else n\<lparr>nd_PanelBasePath := CHR ''/'' # nd_PanelBasePath n\<rparr>)"
proof -
  have slash: "HasPrefix (CHR ''/'' # s) ''/''" for s by (simp add: HasPrefix_iff)
  show ?thesis
  proof (cases "validate_inbounds [] [] (nd_Inbounds n)")
    case None
    then show ?thesis
      using validate_inbounds_None_iff [of "[]" "[]" "nd_Inbounds n"]
      by (auto simp: validateNode_def node_valid_def slash)
  next
    case (Some e)
    then show ?thesis
      using validate_inbounds_None_iff [of "[]" "[]" "nd_Inbounds n"]
      by (auto simp: validateNode_def node_valid_def)
  qed
qed

lemma validateNode_valid: "validateNode n = Inr n' \<Longrightarrow> node_valid n'"
  unfolding validateNode_Inr_iff by blast

lemma validateNode_id [simp]: "node_valid n \<Longrightarrow> validateNode n = Inr n"
  unfolding validateNode_Inr_iff by (auto simp: node_valid_def HasPrefix_def)

text \<open>A valid inbound is one the repository stores: it has a name and a port.\<close>

lemma valid_kept: "inbound_valid i \<Longrightarrow> kept_inbound i"
  by (auto simp: inbound_valid_def isInboundName_def kept_inbound_def)

end
