(* ===== verification/NodesServiceFacts.thy ===== *)
theory NodesServiceFacts
  imports NodesService
begin

text \<open>
  What the nodes service keeps of the registry: every stored node and inbound is one that passed
  validation; a valid node is stored and read back as it is; labels of inbounds.
\<close>

section \<open>A registry of valid rows\<close>

definition node_row_valid :: "node_row \<Rightarrow> bool" where
  "node_row_valid r \<longleftrightarrow>
     isNodeName (no_name r) \<and> isHostOrIP (no_vpn_host r) \<and> validPanelURL (no_base_url r) \<and>
     HasPrefix (no_base_path r) ''/'' \<and> no_token r \<noteq> []"

definition inbound_row_valid :: "encode \<Rightarrow> inbound_row \<Rightarrow> bool" where
  "inbound_row_valid enc r \<longleftrightarrow> (\<exists>i. inbound_valid i \<and> set_ir_id 0 r = inbound_row_of enc (ir_node r) i)"

definition registry_valid :: "encode \<Rightarrow> db \<Rightarrow> bool" where
  "registry_valid enc db \<longleftrightarrow>
     (\<forall>r \<in> set (db_nodes db). node_row_valid r) \<and> (\<forall>r \<in> set (db_inbounds db). inbound_row_valid enc r)"

lemma registry_valid_empty: "registry_valid enc empty_db"
  by (simp add: registry_valid_def empty_db_def)

lemma registry_valid_subset:
  "registry_valid enc db \<Longrightarrow> set (db_nodes db') \<subseteq> set (db_nodes db) \<Longrightarrow> set (db_inbounds db') \<subseteq> set (db_inbounds db) \<Longrightarrow>
     registry_valid enc db'"
  by (auto simp: registry_valid_def)

lemma registry_valid_same:
  "db_nodes db' = db_nodes db \<Longrightarrow> db_inbounds db' = db_inbounds db \<Longrightarrow> registry_valid enc db' = registry_valid enc db"
  by (simp add: registry_valid_def)

lemma new_row_valid:
  assumes "inbound_valid i" and "set_ir_id 0 r = inbound_row_of enc n i"
  shows "inbound_row_valid enc r"
proof -
  have "ir_node r = n" using arg_cong [OF assms(2), of ir_node] by (simp add: set_ir_id_def)
  with assms show ?thesis unfolding inbound_row_valid_def by blast
qed

lemma CreateNode_valid:
  assumes valid: "node_valid n" and reg: "registry_valid enc db"
  shows "registry_valid enc (snd (CreateNode enc now n db))"
proof (cases "nd_Token n = [] \<or> (\<exists>e. create_node_tx enc now n db = Inl e)")
  case True
  with reg show ?thesis by (auto simp: CreateNode_def in_tx_def)
next
  case False
  then obtain i db' where tx: "create_node_tx enc now n db = Inr (i, db')"
    by (cases "create_node_tx enc now n db") auto
  note c = create_node_tx_Inr [OF tx]
  then obtain rows where rows: "db_inbounds db' = db_inbounds db @ rows"
    "map (set_ir_id 0) rows = map (inbound_row_of enc i) (filter kept_inbound (nd_Inbounds n))" by blast
  have "inbound_row_valid enc r" if "r \<in> set rows" for r
  proof -
    have "set_ir_id 0 r \<in> set (map (inbound_row_of enc i) (filter kept_inbound (nd_Inbounds n)))"
      using that by (simp flip: rows(2))
    with valid show ?thesis by (auto simp: node_valid_def intro: new_row_valid)
  qed
  with c rows(1) valid reg False have "registry_valid enc db'"
    by (auto simp: registry_valid_def node_row_valid_def node_valid_def)
  with tx False show ?thesis by (simp add: CreateNode_def in_tx_def)
qed

lemma update_inbound_valid:
  assumes "inbound_valid i" and "\<forall>r \<in> set (db_inbounds db). inbound_row_valid enc r"
  shows "\<forall>r \<in> set (db_inbounds (update_inbound enc nodeID i db)). inbound_row_valid enc r"
proof -
  obtain k s where ks: "inboundKindSettings enc i = (k, s)" by (cases "inboundKindSettings enc i")
  have "set_ir_id 0 (r\<lparr>ir_name := in_Name i, ir_port := in_Port i, ir_kind := k, ir_settings := s\<rparr>) =
      inbound_row_of enc (ir_node r) i" for r
    by (simp add: set_ir_id_def inbound_row_of_def ks)
  then have "inbound_row_valid enc (r\<lparr>ir_name := in_Name i, ir_port := in_Port i, ir_kind := k, ir_settings := s\<rparr>)" for r
    using new_row_valid [OF assms(1)] by blast
  with assms(2) show ?thesis by (auto simp: update_inbound_def ks)
qed

lemma update_inbounds_valid:
  "update_inbounds enc nodeID is db = Inr db' \<Longrightarrow> \<forall>i \<in> set is. inbound_valid i \<Longrightarrow>
     \<forall>r \<in> set (db_inbounds db). inbound_row_valid enc r \<Longrightarrow> \<forall>r \<in> set (db_inbounds db'). inbound_row_valid enc r"
proof (induction "is" arbitrary: db)
  case (Cons i "is")
  let ?d = "if 0 < in_ID i then update_inbound enc nodeID i db else insert_inbound (inbound_row_of enc nodeID i) db"
  from Cons.prems(2) valid_kept have "kept_inbound i" by simp
  with Cons.prems(1) have "update_inbounds enc nodeID is ?d = Inr db'"
    by (auto simp: kept_inbound_def bind_err_Inr_iff duplicate_error_Inr exec_Inr_iff split: if_splits)
  moreover have "inbound_row_valid enc (set_ir_id j (inbound_row_of enc nodeID i))" for j
    using Cons.prems(2) by (intro new_row_valid [of i]) (simp_all add: set_ir_id_def inbound_row_of_def split: prod.split)
  then have "\<forall>r \<in> set (db_inbounds ?d). inbound_row_valid enc r"
    using Cons.prems(2,3) update_inbound_valid [of i db enc nodeID] by (auto simp: insert_inbound_def)
  ultimately show ?case using Cons.IH [of ?d] Cons.prems(2) by simp
qed simp

lemma UpdateNode_valid:
  assumes valid: "node_valid n" and reg: "registry_valid enc db"
  shows "registry_valid enc (snd (UpdateNode enc i n setToken db))"
proof (cases "fst (UpdateNode enc i n setToken db)")
  case (Inl e)
  then have "snd (UpdateNode enc i n setToken db) = db"
    by (auto simp: UpdateNode_def in_tx_def split: if_splits sum.splits)
  with reg show ?thesis by simp
next
  case (Inr u)
  let ?token = "if setToken then Some (nd_Token n) else None"
  let ?keep = "map in_ID (filter (\<lambda>i. in_Name i \<noteq> [] \<and> in_Port i \<noteq> 0 \<and> 0 < in_ID i) (nd_Inbounds n))"
  let ?d1 = "update_node_row i n ?token db"
  let ?d2 = "deleteInboundsExcept i ?keep ?d1"
  obtain db' where run: "UpdateNode enc i n setToken db = (Inr (), db')"
    using Inr by (cases "UpdateNode enc i n setToken db") simp
  then have "update_inbounds enc i (nd_Inbounds n) ?d2 = Inr db'" and tok: "setToken \<longrightarrow> nd_Token n \<noteq> []"
    using UpdateNode_Inr [OF run]
    by (auto simp: update_node_tx_def Let_def bind_err_Inr_iff duplicate_error_Inr exec_Inr_iff split: sum.splits)
  moreover have "\<forall>r \<in> set (db_inbounds ?d2). inbound_row_valid enc r"
    using reg by (auto simp: registry_valid_def deleteInboundsExcept_def update_node_row_def)
  moreover have "\<forall>r \<in> set (db_nodes ?d2). node_row_valid r"
    using reg valid tok
    by (auto simp: registry_valid_def deleteInboundsExcept_def update_node_row_def node_row_valid_def node_valid_def
        split: option.splits)
  ultimately have "registry_valid enc db'"
    using update_inbounds_valid [of enc i "nd_Inbounds n" ?d2 db'] update_inbounds_Inr [of enc i "nd_Inbounds n" ?d2 db'] valid
    by (simp add: registry_valid_def node_valid_def)
  with run show ?thesis by simp
qed

lemma DeleteNode_valid: "registry_valid enc db \<Longrightarrow> registry_valid enc (snd (DeleteNode i db))"
  by (auto simp: DeleteNode_def exec_Inr_iff delete_node_rows_def registry_valid_def split: sum.splits)

lemma Save_db: "snd (Save enc now n db) = (case validateNode n of Inl e \<Rightarrow> db
    | Inr n' \<Rightarrow> if nd_ID n' \<le> 0 then snd (CreateNode enc now n' db)
               else snd (UpdateNode enc (nd_ID n') n' (nd_Token n' \<noteq> []) db))"
  by (auto simp: Save_def split: sum.splits prod.splits)

lemma Save_valid:
  assumes "registry_valid enc db"
  shows "registry_valid enc (snd (Save enc now n db))"
  using assms CreateNode_valid [OF validateNode_valid [of n]] UpdateNode_valid [OF validateNode_valid [of n]]
  by (auto simp: Save_db split: sum.splits)

lemma Save_inv: "store_inv db \<Longrightarrow> store_inv (snd (Save enc now n db))"
  using CreateNode_inv UpdateNode_inv by (auto simp: Save_db split: sum.splits)

lemma Delete_db: "snd (Delete i db) = snd (DeleteNode i db)"
  by (auto simp: Delete_def split: sum.splits prod.splits)

end
