(* ===== verification/AdminNodes.thy ===== *)
theory AdminNodes
  imports AdminSession NodesServiceFacts
begin

text \<open>
  The node handlers of the admin API: \<open>handlers/node_save\<close>, \<open>handlers/node_delete\<close> and
  \<open>handlers/nodes_get\<close>. Optional request fields are options, as in the generated types.
\<close>

section \<open>Saving a node (node\_save)\<close>

record Hysteria2Item =
  hi_Password :: "string option"
  hi_Obfs :: "string option"
  hi_ObfsPassword :: "string option"
  hi_SNI :: "string option"
  hi_Up :: "string option"
  hi_Down :: "string option"

record InboundItem =
  ii_ID :: "int option"
  ii_Name :: string
  ii_Port :: int
  ii_Kind :: "string option"
  ii_Hysteria2 :: "Hysteria2Item option"

record NodeSaveReq =
  ns_ID :: "int option"
  ns_Name :: string
  ns_VpnHost :: string
  ns_PanelBaseURL :: string
  ns_PanelBasePath :: string
  ns_Token :: "string option"
  ns_Inbounds :: "InboundItem list"

definition or_else :: "'a option \<Rightarrow> 'a \<Rightarrow> 'a" where
  "or_else x d = (case x of None \<Rightarrow> d | Some v \<Rightarrow> v)"

definition no_hysteria2 :: Hysteria2Item where
  "no_hysteria2 = \<lparr>hi_Password = None, hi_Obfs = None, hi_ObfsPassword = None, hi_SNI = None, hi_Up = None, hi_Down = None\<rparr>"

definition hysteria2_of_item :: "Hysteria2Item \<Rightarrow> Hysteria2Settings" where
  "hysteria2_of_item h =
     \<lparr>hs_Password = TrimSpace (or_else (hi_Password h) []), hs_Obfs = TrimSpace (or_else (hi_Obfs h) []),
      hs_ObfsPassword = TrimSpace (or_else (hi_ObfsPassword h) []), hs_SNI = TrimSpace (or_else (hi_SNI h) []),
      hs_Up = TrimSpace (or_else (hi_Up h) []), hs_Down = TrimSpace (or_else (hi_Down h) [])\<rparr>"

definition inbound_of_item :: "InboundItem \<Rightarrow> Inbound" where
  "inbound_of_item i =
     (let kind = (case ii_Kind i of Some k \<Rightarrow> if k \<noteq> [] then k else InboundKindVLESS | None \<Rightarrow> InboundKindVLESS)
      in \<lparr>in_ID = or_else (ii_ID i) 0, in_Name = TrimSpace (ii_Name i), in_Port = ii_Port i, in_Kind = kind,
          in_Hysteria2 = (if kind = InboundKindHysteria2
                          then Some (hysteria2_of_item (or_else (ii_Hysteria2 i) no_hysteria2)) else None)\<rparr>)"

text \<open>Rows without a port are blank form rows and skipped.\<close>

definition node_of_request :: "NodeSaveReq \<Rightarrow> Node" where
  "node_of_request req =
     \<lparr>nd_ID = or_else (ns_ID req) 0, nd_Name = TrimSpace (ns_Name req), nd_VPNHost = TrimSpace (ns_VpnHost req),
      nd_PanelBaseURL = TrimSpace (ns_PanelBaseURL req), nd_PanelBasePath = TrimSpace (ns_PanelBasePath req),
      nd_Token = TrimSpace (or_else (ns_Token req) []),
      nd_Inbounds = map inbound_of_item (filter (\<lambda>i. ii_Port i \<noteq> 0) (ns_Inbounds req))\<rparr>"

definition node_message :: "validation_error \<Rightarrow> string" where
  "node_message e =
     (case e of
        ErrValidationNodeName \<Rightarrow> ''Node name: allowed characters are a-z, 0-9, -, space and country flags''
      | ErrValidationHost \<Rightarrow> ''VPN host address is invalid '' @ [CHR 0xE2, CHR 0x80, CHR 0x94] @ '' expected a host or IP (no scheme or port)''
      | ErrValidationPanelURL \<Rightarrow> ''3x-ui base URL is invalid '' @ [CHR 0xE2, CHR 0x80, CHR 0x94] @ '' expected https://host:port (no path)''
      | ErrValidationBasePath \<Rightarrow> ''Enter the panel base path (e.g. /secret/)''
      | ErrValidationNoInbounds \<Rightarrow> ''Add at least one inbound''
      | ErrValidationInboundName \<Rightarrow> ''Inbound name: allowed characters are a-z, 0-9 and -''
      | ErrValidationInboundPort \<Rightarrow> ''Inbound port must be a number between 1 and 65535''
      | ErrValidationInboundNameUq \<Rightarrow> ''Duplicate inbound name''
      | ErrValidationInboundPortUq \<Rightarrow> ''Duplicate inbound port''
      | ErrValidationInboundKind \<Rightarrow> ''Inbound kind must be vless or hysteria2''
      | ErrValidationInboundSettings \<Rightarrow> ''Hysteria2 settings are missing, or set on a non-hysteria2 inbound''
      | ErrValidationHysteria2Pass \<Rightarrow> ''Hysteria2 inbound requires a password''
      | ErrValidationHysteria2Obfs \<Rightarrow> ''Hysteria2 obfs must be '' @ [CHR 0x22] @ ''salamander'' @ [CHR 0x22] @ '' and paired with an obfs password''
      | ErrValidationHysteria2Band \<Rightarrow> ''Hysteria2 up/down must be a bandwidth, e.g. '' @ [CHR 0x22] @ ''50 Mbps'' @ [CHR 0x22]
      | ErrValidationHysteria2SNI \<Rightarrow> ''Hysteria2 SNI must be a valid host (no scheme or port)'')"

definition mapErr :: "node_error \<Rightarrow> string reply" where
  "mapErr e =
     (case e of
        Invalid v \<Rightarrow> BadRequest (node_message v)
      | Repo _ r \<Rightarrow>
          if r = Domain ErrNodeNameTaken then Conflict ''A node with this name already exists''
          else if r = Domain ErrInboundDuplicate then Conflict ''Inbound name or port already taken on this node''
          else if r = Domain ErrInboundReferenced
          then BadRequest (''Inbound is in use '' @ [CHR 0xE2, CHR 0x80, CHR 0x94] @ '' first detach users and rules from it'')
          else Failed)"

definition NodeSave :: "encode \<Rightarrow> int \<Rightarrow> NodeSaveReq \<Rightarrow> db \<Rightarrow> string reply \<times> db" where
  "NodeSave enc now req db =
     (let n = node_of_request req
      in case Save enc now n db of
           (Inl e, db') \<Rightarrow> (mapErr e, db')
         | (Inr _, db') \<Rightarrow> (Reply (''Node saved: '' @ nd_Name n), db'))"

section \<open>Deleting a node (node\_delete)\<close>

definition NodeDelete :: "int \<Rightarrow> db \<Rightarrow> string reply \<times> db" where
  "NodeDelete i db =
     (case Delete i db of
        (Inr _, db') \<Rightarrow> (Reply ''Node deleted'', db')
      | (Inl e, db') \<Rightarrow>
          (case e of
             Repo _ r \<Rightarrow>
               if r = Domain ErrNodeNotFound then (BadRequest ''Node not found'', db')
               else if r = Domain ErrInboundReferenced
               then (BadRequest (''Node is in use '' @ [CHR 0xE2, CHR 0x80, CHR 0x94] @ '' first detach its inbounds from users and rules''), db')
               else (Failed, db')
           | Invalid _ \<Rightarrow> (Failed, db')))"

section \<open>The registry for the admin page (nodes\_get)\<close>

record Hysteria2View =
  hv_Obfs :: string
  hv_SNI :: string
  hv_Up :: string
  hv_Down :: string

record InboundView =
  iv_ID :: int
  iv_Name :: string
  iv_Port :: int
  iv_Kind :: string
  iv_Hysteria2 :: "Hysteria2View option"

record NodeView =
  nv_ID :: int
  nv_Name :: string
  nv_VpnHost :: string
  nv_PanelBaseURL :: string
  nv_PanelBasePath :: string
  nv_Inbounds :: "InboundView list"

definition inbound_view :: "Inbound \<Rightarrow> InboundView" where
  "inbound_view i =
     \<lparr>iv_ID = in_ID i, iv_Name = in_Name i, iv_Port = in_Port i, iv_Kind = in_Kind i,
      iv_Hysteria2 = map_option (\<lambda>h. \<lparr>hv_Obfs = hs_Obfs h, hv_SNI = hs_SNI h, hv_Up = hs_Up h, hv_Down = hs_Down h\<rparr>)
                       (in_Hysteria2 i)\<rparr>"

text \<open>
  \<open>sort.Slice\<close> is not stable, but the names of one node's inbounds are distinct, so the order is
  that of any sort.
\<close>

definition node_view :: "Node \<Rightarrow> NodeView" where
  "node_view n =
     \<lparr>nv_ID = nd_ID n, nv_Name = nd_Name n, nv_VpnHost = nd_VPNHost n, nv_PanelBaseURL = nd_PanelBaseURL n,
      nv_PanelBasePath = nd_PanelBasePath n, nv_Inbounds = sort_key iv_Name (map inbound_view (nd_Inbounds n))\<rparr>"

definition NodesGet :: "decode \<Rightarrow> db \<Rightarrow> NodeView list reply" where
  "NodesGet dec db = Reply (map node_view (ListNodes dec db))"

end
