(* ===== verification/RenderFacts.thy ===== *)
theory RenderFacts
  imports MihomoRender
begin

text \<open>
  What the renderer guarantees: which rules survive for a subscriber, that every rendered name
  refers to something the document defines, that the operator's own keys pass through, and that a
  coherent stored configuration is rendered without a logged error.
\<close>

section \<open>The resolver\<close>

definition builtin_names :: "string list" where
  "builtin_names = [''DIRECT'', ''REJECT'', ''REJECT-DROP'', ''REJECT-NO-DROP'', ''PASS'']"

lemma resolve_builtin: "pr_Kind ref \<in> set BuiltinPolicyKinds \<Longrightarrow> \<exists>n \<in> set builtin_names. resolve res ref = Some n"
  by (auto simp: BuiltinPolicyKinds_def resolve_def builtin_names_def)

lemma resolve_inbound:
  "pr_Kind ref = PolicyInbound \<Longrightarrow>
     resolve res ref = (case pr_InboundID ref of None \<Rightarrow> None | Some i \<Rightarrow> nr_inboundName res i)"
  by (simp add: resolve_def policy_kinds)

lemma resolve_group:
  "pr_Kind ref = PolicyGroup \<Longrightarrow>
     resolve res ref = (case pr_GroupID ref of None \<Rightarrow> None | Some i \<Rightarrow> nr_groupName res i)"
  by (simp add: resolve_def policy_kinds)

lemma resolve_SomeD:
  assumes "resolve res ref = Some n"
  shows "n \<in> set builtin_names \<or>
    (\<exists>i. pr_Kind ref = PolicyInbound \<and> pr_InboundID ref = Some i \<and> nr_inboundName res i = Some n) \<or>
    (\<exists>i. pr_Kind ref = PolicyGroup \<and> pr_GroupID ref = Some i \<and> nr_groupName res i = Some n)"
  using assms by (auto simp: resolve_def builtin_names_def split: if_splits option.splits)

lemma resolver_inboundName:
  "nr_inboundName (newEntityNameResolver sub groups providers) i = Some n \<Longrightarrow>
     i \<noteq> 0 \<and> (\<exists>p \<in> set (sb_Proxies sub). px_InboundID p = i \<and> px_Name p = n)"
  by (auto simp: newEntityNameResolver_def dest!: fill_map_SomeD)

lemma resolver_groupName:
  "nr_groupName (newEntityNameResolver sub groups providers) i = Some n \<Longrightarrow>
     \<exists>g \<in> set groups. pg_ID g = i \<and> pg_Name g = n"
  by (auto simp: newEntityNameResolver_def dest!: fill_map_SomeD)

lemma resolver_providerName:
  "nr_providerName (newEntityNameResolver sub groups providers) i = Some n \<Longrightarrow>
     \<exists>p \<in> set providers. rp_ID p = i \<and> rp_Name p = n"
  by (auto simp: newEntityNameResolver_def dest!: fill_map_SomeD)

text \<open>The names a document for this subscriber defines or mihomo predefines.\<close>

definition known_policy :: "Subscriber \<Rightarrow> ProxyGroup list \<Rightarrow> string \<Rightarrow> bool" where
  "known_policy sub groups n \<longleftrightarrow>
     n \<in> set builtin_names \<or> n \<in> px_Name ` set (sb_Proxies sub) \<or> n \<in> pg_Name ` set groups"

lemma resolve_known:
  "resolve (newEntityNameResolver sub groups providers) ref = Some n \<Longrightarrow> known_policy sub groups n"
  by (drule resolve_SomeD)
     (auto simp: known_policy_def dest!: resolver_inboundName resolver_groupName)

section \<open>Rules\<close>

text \<open>
  A declarative reading of \<open>renderMatcher\<close>: the nodes it visits, the matcher text when every
  RULE-SET node has a provider name.
\<close>

fun visited :: "RoutingRule \<Rightarrow> RoutingRule list" where
  "visited (RoutingRule i pos ty val pid nores target children) =
     RoutingRule i pos ty val pid nores target children #
       (if IsLogical ty then concat (map visited children) else [])"

definition provider_of :: "entityNameResolver \<Rightarrow> RoutingRule \<Rightarrow> string option" where
  "provider_of res r =
     (case rr_ProviderID r of None \<Rightarrow> None | Some p \<Rightarrow> nr_providerName res p)"

definition renderable :: "entityNameResolver \<Rightarrow> RoutingRule \<Rightarrow> bool" where
  "renderable res r \<longleftrightarrow>
     (\<forall>n \<in> set (visited r). TakesProvider (rr_Type n) \<longrightarrow> provider_of res n \<noteq> None)"

fun matcher_text :: "entityNameResolver \<Rightarrow> RoutingRule \<Rightarrow> string" where
  "matcher_text res (RoutingRule i pos ty val pid nores target children) =
     (if IsLogical ty then
        ty @ '',('' @ Join (map (\<lambda>c. ''('' @ matcher_text res c @ '')'') children) '','' @ '')''
      else if TakesProvider ty then
        ty @ '','' @ the (provider_of res (RoutingRule i pos ty val pid nores target children))
      else (case val of Some v \<Rightarrow> ty @ '','' @ v | None \<Rightarrow> ty))"

lemma collect_log_Some:
  "(\<And>x. x \<in> set xs \<Longrightarrow> f x = (Some (g x), [])) \<Longrightarrow> collect_log f xs = (Some (map g xs), [])"
  by (induction xs) auto

lemma collect_log_None:
  "(\<And>x. x \<in> set xs \<Longrightarrow> ok x \<Longrightarrow> f x = (Some (g x), [])) \<Longrightarrow>
   (\<And>x. x \<in> set xs \<Longrightarrow> \<not> ok x \<Longrightarrow> \<exists>e. f x = (None, [e])) \<Longrightarrow>
   \<exists>x \<in> set xs. \<not> ok x \<Longrightarrow> \<exists>e. collect_log f xs = (None, [e])"
proof (induction xs)
  case (Cons x xs)
  show ?case
  proof (cases "ok x")
    case True
    with Cons.prems have "f x = (Some (g x), [])" "\<exists>x \<in> set xs. \<not> ok x" by auto
    moreover from this(2) Cons.IH Cons.prems(1,2) have "\<exists>e. collect_log f xs = (None, [e])"
      by auto
    ultimately show ?thesis by auto
  next
    case False
    with Cons.prems(2) obtain e where "f x = (None, [e])" by auto
    then show ?thesis by auto
  qed
qed simp

lemma renderable_logical:
  "IsLogical ty \<Longrightarrow> renderable res (RoutingRule i pos ty val pid nores target children) \<longleftrightarrow>
     (\<forall>c \<in> set children. renderable res c)"
  by (auto simp: renderable_def dest: rule_kinds_disjoint)

lemma renderMatcher_spec:
  "(renderable res r \<longrightarrow> renderMatcher r res = (Some (matcher_text res r), [])) \<and>
   (\<not> renderable res r \<longrightarrow> (\<exists>e. renderMatcher r res = (None, [e])))"
proof (induction r)
  case (RoutingRule i pos ty val pid nores target children)
  let ?r = "RoutingRule i pos ty val pid nores target children"
  show ?case
  proof (cases "IsLogical ty")
    case True
    have "(\<forall>c \<in> set children. renderable res c) \<longrightarrow>
        collect_log (\<lambda>c. renderMatcher c res) children = (Some (map (matcher_text res) children), [])"
      using RoutingRule by (auto intro!: collect_log_Some)
    moreover have "(\<exists>c \<in> set children. \<not> renderable res c) \<longrightarrow>
        (\<exists>e. collect_log (\<lambda>c. renderMatcher c res) children = (None, [e]))"
      using RoutingRule
      by (intro impI collect_log_None [where ok = "renderable res" and g = "matcher_text res"]) auto
    ultimately show ?thesis
      using True by (auto simp: renderable_logical comp_def)
  next
    case False
    then show ?thesis
      by (auto simp: renderable_def provider_of_def split: option.splits)
  qed
qed

lemma renderMatcher_Some [simp]:
  "renderable res r \<Longrightarrow> renderMatcher r res = (Some (matcher_text res r), [])"
  using renderMatcher_spec by blast

lemma renderMatcher_None: "\<not> renderable res r \<Longrightarrow> \<exists>e. renderMatcher r res = (None, [e])"
  using renderMatcher_spec by blast

definition rule_shown :: "entityNameResolver \<Rightarrow> RoutingRule \<Rightarrow> bool" where
  "rule_shown res r \<longleftrightarrow>
     (\<exists>t. rr_Target r = Some t \<and> resolve res t \<noteq> None) \<and> renderable res r"

definition rule_line :: "entityNameResolver \<Rightarrow> RoutingRule \<Rightarrow> string" where
  "rule_line res r =
     matcher_text res r @ '','' @ the (resolve res (the (rr_Target r))) @
       (if rr_NoResolve r = Some True then '',no-resolve'' else [])"

lemma buildRule_shown: "rule_shown res r \<Longrightarrow> buildRule res r = (Some (rule_line res r), [])"
  by (auto simp: rule_shown_def buildRule_def rule_line_def)

lemma buildRule_hidden: "\<not> rule_shown res r \<Longrightarrow> fst (buildRule res r) = None"
  using renderMatcher_None [of res r]
  by (auto simp: rule_shown_def buildRule_def split: option.splits)

lemma buildRules_eq:
  "fst (buildRules rules res) = map (rule_line res) (filter (rule_shown res) rules)"
proof (induction rules)
  case (Cons r rules)
  then show ?case
    by (cases "rule_shown res r")
       (auto simp: buildRules_def buildRule_shown buildRule_hidden)
qed (simp add: buildRules_def)

section \<open>Groups\<close>

lemma build_members_eq:
  "fst (build_members res gname ms) = List.map_filter (resolve res) ms"
  by (induction ms) (auto split: prod.splits option.splits)

definition shown_members :: "entityNameResolver \<Rightarrow> ProxyGroup \<Rightarrow> string list" where
  "shown_members res g =
     (let ns = List.map_filter (resolve res) (pg_Members g)
      in if ns = [] then [''DIRECT''] else ns)"

lemma map_of_opt_str [simp]:
  "map_of (opt_str k v m) = (if v = [] then map_of m else (map_of m)(k \<mapsto> YStr v))"
  by (simp add: opt_str_def)

lemma buildGroup_fields:
  "map_of (fst (buildGroup res g)) ''name'' = Some (YStr (pg_Name g))"
  "map_of (fst (buildGroup res g)) ''type'' = Some (YStr (pg_Type g))"
  "map_of (fst (buildGroup res g)) ''proxies'' = Some (YSeq (map YStr (shown_members res g)))"
  using build_members_eq [of res "pg_Name g" "pg_Members g"]
  by (auto simp: buildGroup_def shown_members_def Let_def split: prod.splits option.splits)

lemma buildGroup_health:
  "\<not> UsesHealthCheck (pg_Type g) \<Longrightarrow>
     map fst (fst (buildGroup res g)) = [''name'', ''type'', ''proxies'']"
  by (auto simp: buildGroup_def Let_def split: prod.splits)

lemma shown_members_known:
  "n \<in> set (shown_members (newEntityNameResolver sub groups providers) g) \<Longrightarrow>
     known_policy sub groups n"
  by (auto simp: shown_members_def Let_def in_set_map_filter split: if_splits dest: resolve_known)
     (simp add: known_policy_def builtin_names_def)

lemma shown_members_nonempty: "shown_members res g \<noteq> []"
  by (simp add: shown_members_def Let_def)

section \<open>Events\<close>

text \<open>
  A reference is coherent with the stored groups when it is built in, an inbound with an id, or a
  group the store has. A rule tree is coherent when every RULE-SET node names a stored provider.
\<close>

definition ref_coherent :: "ProxyGroup list \<Rightarrow> PolicyRef \<Rightarrow> bool" where
  "ref_coherent groups ref \<longleftrightarrow>
     pr_Kind ref \<in> set BuiltinPolicyKinds \<or> pr_Kind ref = PolicyInbound \<or>
     (pr_Kind ref = PolicyGroup \<and> (\<exists>i \<in> pg_ID ` set groups. pr_GroupID ref = Some i))"

definition rule_coherent :: "ProxyGroup list \<Rightarrow> RuleProvider list \<Rightarrow> RoutingRule \<Rightarrow> bool" where
  "rule_coherent groups providers r \<longleftrightarrow>
     (\<exists>t. rr_Target r = Some t \<and> ref_coherent groups t) \<and>
     (\<forall>n \<in> set (visited r). TakesProvider (rr_Type n) \<longrightarrow>
        (\<exists>i \<in> rp_ID ` set providers. rr_ProviderID n = Some i))"

lemma ref_coherent_resolves:
  assumes "ref_coherent groups ref" and "pr_Kind ref \<noteq> PolicyInbound"
  shows "resolve (newEntityNameResolver sub groups providers) ref \<noteq> None"
proof -
  let ?res = "newEntityNameResolver sub groups providers"
  consider "pr_Kind ref \<in> set BuiltinPolicyKinds"
    | i where "pr_Kind ref = PolicyGroup" "i \<in> pg_ID ` set groups" "pr_GroupID ref = Some i"
    using assms by (auto simp: ref_coherent_def)
  then show ?thesis
  proof cases
    case 1
    then show ?thesis using resolve_builtin [of ref ?res] by auto
  next
    case 2
    then show ?thesis
      by (auto simp: resolve_group newEntityNameResolver_def fill_map_None_iff)
  qed
qed

lemma rule_coherent_renderable:
  "rule_coherent groups providers r \<Longrightarrow> renderable (newEntityNameResolver sub groups providers) r"
  unfolding renderable_def
proof (intro ballI impI)
  fix n
  assume "rule_coherent groups providers r" "n \<in> set (visited r)" "TakesProvider (rr_Type n)"
  then obtain i where "i \<in> rp_ID ` set providers" "rr_ProviderID n = Some i"
    unfolding rule_coherent_def by blast
  then show "provider_of (newEntityNameResolver sub groups providers) n \<noteq> None"
    by (simp add: provider_of_def newEntityNameResolver_def fill_map_None_iff)
qed

lemma buildRule_silent:
  assumes "rule_coherent groups providers r"
  shows "snd (buildRule (newEntityNameResolver sub groups providers) r) = []"
proof -
  obtain t where t: "rr_Target r = Some t" "ref_coherent groups t"
    using assms by (auto simp: rule_coherent_def)
  show ?thesis
    using t rule_coherent_renderable [OF assms, of sub]
      ref_coherent_resolves [OF t(2), of sub providers]
    by (auto simp: buildRule_def split: option.splits)
qed

lemma buildRule_hidden_coherent:
  assumes "rule_coherent groups providers r"
    and "fst (buildRule (newEntityNameResolver sub groups providers) r) = None"
  shows "\<exists>t. rr_Target r = Some t \<and> pr_Kind t = PolicyInbound"
proof -
  let ?res = "newEntityNameResolver sub groups providers"
  obtain t where t: "rr_Target r = Some t" "ref_coherent groups t"
    using assms by (auto simp: rule_coherent_def)
  have "\<not> rule_shown ?res r"
    using assms(2) buildRule_shown [of ?res r] by auto
  then have "resolve ?res t = None"
    using t rule_coherent_renderable [OF assms(1), of sub] by (auto simp: rule_shown_def)
  then show ?thesis
    using t ref_coherent_resolves by blast
qed

lemma build_members_silent:
  assumes "\<forall>m \<in> set ms. ref_coherent groups m"
  shows "snd (build_members (newEntityNameResolver sub groups providers) gname ms) = []"
  using assms
proof (induction ms)
  case (Cons m ms)
  then show ?case
    using ref_coherent_resolves [of groups m sub providers]
    by (cases "pr_Kind m = PolicyInbound") (auto split: prod.splits option.splits)
qed simp

lemma buildGroup_silent:
  "\<forall>m \<in> set (pg_Members g). ref_coherent groups m \<Longrightarrow>
     snd (buildGroup (newEntityNameResolver sub groups providers) g) = []"
  using build_members_silent [of "pg_Members g" groups sub providers "pg_Name g"]
  by (auto simp: buildGroup_def Let_def split: prod.splits)

section \<open>Rule-providers\<close>

lemma ruleProviders_fold:
  "map_of (fold (\<lambda>rp out. put (rp_Name rp) (YMap (f rp)) out) ps m) =
     map_of m ++ fill_map rp_Name (\<lambda>rp. YMap (f rp)) ps"
  by (induction ps arbitrary: m) (simp_all add: fill_map_Cons)

lemma ruleProviders_map:
  "ruleProviders opts = Some rp \<Longrightarrow>
     map_of rp = fill_map rp_Name
       (\<lambda>p. YMap (provider_entry (TrimRightSlash (op_PublicBase opts)) p)) (op_Providers opts)"
  by (auto simp: ruleProviders_def Let_def ruleProviders_fold split: if_splits)

lemma ruleProviders_None_iff: "ruleProviders opts = None \<longleftrightarrow> op_Providers opts = []"
  by (simp add: ruleProviders_def Let_def)

section \<open>The document\<close>

lemma map_of_fold_delete:
  "map_of (fold AList.delete ks m) k = (if k \<in> set ks then None else map_of m k)"
  by (induction ks arbitrary: m) (auto simp: delete_conv')

definition base_of :: "(string \<Rightarrow> 'e + ymap) \<Rightarrow> string \<Rightarrow> ymap" where
  "base_of unmarshal text = (if TrimSpace text = [] then [] else projr (unmarshal text))"

definition document ::
    "ymap \<Rightarrow> ymap list \<Rightarrow> ymap list \<Rightarrow> string list \<Rightarrow> ymap option \<Rightarrow> ymap" where
  "document base proxies groups rules rp =
     (let doc = put ''rules'' (YSeq (map YStr rules))
                  (put ''proxy-groups'' (YSeq (map YMap groups))
                    (put ''proxies'' (YSeq (map YMap proxies)) base))
      in case rp of None \<Rightarrow> doc | Some m \<Rightarrow> put ''rule-providers'' (YMap m) doc)"

lemma map_of_document:
  "map_of (document base proxies groups rules rp) k =
     (if k = ''proxies'' then Some (YSeq (map YMap proxies))
      else if k = ''proxy-groups'' then Some (YSeq (map YMap groups))
      else if k = ''rules'' then Some (YSeq (map YStr rules))
      else if k = ''rule-providers'' \<and> rp \<noteq> None then map_option YMap rp
      else map_of base k)"
  by (auto simp: document_def Let_def split: option.splits)

lemma generated_rule_providers: "''rule-providers'' \<in> set GeneratedKeys"
  by (simp add: GeneratedKeys_def)

lemma document_passes_through:
  assumes "k \<notin> set GeneratedKeys"
  shows "map_of (document (fold AList.delete GeneratedKeys base) proxies groups rules rp) k = map_of base k"
proof -
  have "k \<noteq> ''proxies''" "k \<noteq> ''proxy-groups''" "k \<noteq> ''rules''" "k \<noteq> ''rule-providers''"
    using assms by (auto simp: GeneratedKeys_def)
  with assms show ?thesis by (simp add: map_of_document map_of_fold_delete)
qed

abbreviation resolver_of :: "Subscriber \<Rightarrow> Options \<Rightarrow> entityNameResolver" where
  "resolver_of sub opts \<equiv> newEntityNameResolver sub (op_Groups opts) (op_Providers opts)"

text \<open>The parts of a successfully rendered document.\<close>

lemma render_document_parts:
  assumes "render_document unmarshal sub opts = Inr (doc, evs)"
  obtains proxies where
    "those (map proxyToMap (sb_Proxies sub)) = Some proxies"
    "doc = document (fold AList.delete GeneratedKeys (base_of unmarshal (op_BaseYAML opts))) proxies
       (fst (buildGroups (op_Groups opts) (resolver_of sub opts)))
       (fst (buildRules (op_Rules opts) (resolver_of sub opts))) (ruleProviders opts)"
    "evs = snd (buildGroups (op_Groups opts) (resolver_of sub opts)) @
       snd (buildRules (op_Rules opts) (resolver_of sub opts))"
proof -
  have "those (map proxyToMap (sb_Proxies sub)) \<noteq> None"
    using assms by (auto simp: render_document_def bind_err_Inr_iff Let_def split: option.splits)
  then obtain proxies where p: "those (map proxyToMap (sb_Proxies sub)) = Some proxies" by blast
  show ?thesis
    using assms
    by (intro that [OF p])
       (auto simp: render_document_def p base_of_def document_def bind_err_Inr_iff Let_def
         split: if_splits sum.splits prod.splits option.splits)
qed

lemma those_map_proxyToMap:
  assumes "\<forall>p \<in> set ps. proxy_wf p"
  shows "those (map proxyToMap ps) \<noteq> None"
proof -
  have "proxyToMap p = Some (the (proxyToMap p))" if "p \<in> set ps" for p
    using assms that by (auto simp: proxy_wf_def proxyToMap_def split: option.splits)
  from those_Some_cong [of ps, OF this] show ?thesis by simp
qed

section \<open>A small configuration\<close>

definition sample_sub :: Subscriber where
  "sample_sub = (new_subscriber ''s1'')\<lparr>sb_Proxies :=
     [\<lparr>px_Name = ''nl-main'', px_InboundID = 7, px_VLESS = None,
       px_Hysteria2 = Some \<lparr>hy_Server = ''h'', hy_Port = 443, hy_Password = ''pw'', hy_Obfs = [],
         hy_ObfsPassword = [], hy_SNI = [], hy_Up = [], hy_Down = []\<rparr>\<rparr>]\<rparr>"

definition sample_groups :: "ProxyGroup list" where
  "sample_groups =
     [\<lparr>pg_ID = 1, pg_Position = 0, pg_Name = ''auto'', pg_Type = ''select'', pg_URL = [],
       pg_Interval = None, pg_Tolerance = None, pg_Lazy = None,
       pg_Members = [\<lparr>pr_Kind = ''inbound'', pr_InboundID = Some 7, pr_GroupID = None\<rparr>,
                     \<lparr>pr_Kind = ''inbound'', pr_InboundID = Some 8, pr_GroupID = None\<rparr>]\<rparr>]"

definition sample_providers :: "RuleProvider list" where
  "sample_providers =
     [\<lparr>rp_ID = 3, rp_Name = ''ads'', rp_Behavior = ''domain'', rp_Format = ''mrs'', rp_Mirror = True,
       rp_URL = ''u'', rp_Interval = 60, rp_MirrorInterval = 0\<rparr>]"

definition sample_rules :: "RoutingRule list" where
  "sample_rules =
     [RoutingRule 1 0 ''RULE-SET'' None (Some 3) None
        (Some \<lparr>pr_Kind = ''reject'', pr_InboundID = None, pr_GroupID = None\<rparr>) [],
      RoutingRule 2 1 ''DOMAIN'' (Some ''x.org'') None None
        (Some \<lparr>pr_Kind = ''inbound'', pr_InboundID = Some 8, pr_GroupID = None\<rparr>) [],
      RoutingRule 3 2 ''MATCH'' None None None
        (Some \<lparr>pr_Kind = ''group'', pr_InboundID = None, pr_GroupID = Some 1\<rparr>) []]"

definition sample_opts :: Options where
  "sample_opts = \<lparr>op_BaseYAML = ''b'', op_Rules = sample_rules, op_Groups = sample_groups,
     op_Providers = sample_providers, op_PublicBase = ''https://x''\<rparr>"

definition sample_unmarshal :: "string \<Rightarrow> unit + ymap" where
  "sample_unmarshal text = Inr [(''mode'', YStr ''rule''), (''rules'', YSeq [])]"

lemmas sample_defs = sample_sub_def sample_groups_def sample_providers_def sample_rules_def
  sample_opts_def sample_unmarshal_def

section \<open>Properties\<close>

text \<open>
  The rendered rules are exactly the lines of the rules that apply to the subscriber, in the
  stored order: a rule is dropped precisely when its target is absent or does not resolve for this
  subscriber, or when some RULE-SET node in its (logical) tree has no provider name; a surviving
  rule's line is MATCHER,TARGET[,no-resolve], the matcher being the rule tree in mihomo's syntax.
\<close>
theorem buildRules_filter_map:
  "fst (buildRules rules res) =
     map (\<lambda>r. matcher_text res r @ '','' @ the (resolve res (the (rr_Target r))) @
            (if rr_NoResolve r = Some True then '',no-resolve'' else []))
       (filter (\<lambda>r. (\<exists>t. rr_Target r = Some t \<and> resolve res t \<noteq> None) \<and> renderable res r) rules)"
  using buildRules_eq [of rules res] by (simp add: rule_line_def [abs_def] rule_shown_def [abs_def])

text \<open>
  C27: In a rendered document every proxy-group of the configuration appears once, in order, under
  its own name, with a non-empty list of members, each of them a built-in policy, a proxy of this
  subscriber or a group of the configuration. So the document never names a policy it does not
  define, and a group left without members for this subscriber still has one.
\<close>
theorem rendered_groups_closed:
  assumes "render_document unmarshal sub opts = Inr (doc, evs)"
  shows "\<exists>gms. map_of doc ''proxy-groups'' = Some (YSeq (map YMap gms)) \<and>
    list_all2 (\<lambda>g gm. map_of gm ''name'' = Some (YStr (pg_Name g)) \<and>
        map_of gm ''type'' = Some (YStr (pg_Type g)) \<and>
        (\<exists>ns. map_of gm ''proxies'' = Some (YSeq (map YStr ns)) \<and> ns \<noteq> [] \<and>
           (\<forall>n \<in> set ns. n \<in> set [''DIRECT'', ''REJECT'', ''REJECT-DROP'', ''REJECT-NO-DROP'', ''PASS''] \<or>
              n \<in> px_Name ` set (sb_Proxies sub) \<or> n \<in> pg_Name ` set (op_Groups opts))))
      (op_Groups opts) gms"
proof (intro exI conjI)
  let ?gms = "map (\<lambda>g. fst (buildGroup (resolver_of sub opts) g)) (op_Groups opts)"
  show "map_of doc ''proxy-groups'' = Some (YSeq (map YMap ?gms))"
    using assms by (rule render_document_parts) (simp add: map_of_document buildGroups_def comp_def)
  show "list_all2 (\<lambda>g gm. map_of gm ''name'' = Some (YStr (pg_Name g)) \<and>
        map_of gm ''type'' = Some (YStr (pg_Type g)) \<and>
        (\<exists>ns. map_of gm ''proxies'' = Some (YSeq (map YStr ns)) \<and> ns \<noteq> [] \<and>
           (\<forall>n \<in> set ns. n \<in> set [''DIRECT'', ''REJECT'', ''REJECT-DROP'', ''REJECT-NO-DROP'', ''PASS''] \<or>
              n \<in> px_Name ` set (sb_Proxies sub) \<or> n \<in> pg_Name ` set (op_Groups opts))))
      (op_Groups opts) ?gms"
    unfolding list_all2_map2
    using shown_members_known [of _ sub "op_Groups opts" "op_Providers opts",
        unfolded known_policy_def builtin_names_def] shown_members_nonempty
    by (intro list.rel_refl_strong conjI exI) (rule buildGroup_fields | blast)+
qed

lemma sample_rendered_check:
  "case render_document sample_unmarshal sample_sub sample_opts of
     Inr (doc, evs) \<Rightarrow> evs = [] | Inl e \<Rightarrow> False"
  by code_simp

lemma sample_base_text: "TrimSpace (op_BaseYAML sample_opts) = ''b''"
  by code_simp

definition sample_doc :: ymap where
  "sample_doc = fst (projr (render_document sample_unmarshal sample_sub sample_opts))"

lemma sample_rendered: "render_document sample_unmarshal sample_sub sample_opts = Inr (sample_doc, [])"
  using sample_rendered_check by (auto simp: sample_doc_def split: sum.splits)

theorem rendered_groups_closed_witness:
  "\<exists>gms. map_of sample_doc ''proxy-groups'' = Some (YSeq (map YMap gms)) \<and> length gms = 1"
  using rendered_groups_closed [OF sample_rendered]
  by (auto simp: sample_opts_def sample_groups_def dest!: list_all2_lengthD)

text \<open>
  The operator's base document passes through untouched except for the generated keys: every
  other top-level key keeps its value, the sub-rules key is gone, proxies are the subscriber's
  proxies in order, and rule-providers is present exactly when providers are configured, with one
  entry per provider name.
\<close>
theorem rendered_document_keys:
  assumes "render_document unmarshal sub opts = Inr (doc, evs)"
  shows "(\<forall>k. k \<notin> set GeneratedKeys \<longrightarrow>
      map_of doc k = (if TrimSpace (op_BaseYAML opts) = [] then None
                      else map_of (projr (unmarshal (op_BaseYAML opts))) k)) \<and>
    map_of doc ''sub-rules'' = None \<and>
    map_of doc ''proxies'' =
      Some (YSeq (map (\<lambda>p. YMap (the (proxyToMap p))) (sb_Proxies sub))) \<and>
    (op_Providers opts = [] \<longrightarrow> map_of doc ''rule-providers'' = None) \<and>
      (op_Providers opts \<noteq> [] \<longrightarrow> (\<exists>rp. map_of doc ''rule-providers'' = Some (YMap rp) \<and>
         dom (map_of rp) = rp_Name ` set (op_Providers opts)))"
proof -
  obtain proxies where px: "those (map proxyToMap (sb_Proxies sub)) = Some proxies"
    and doc: "doc = document (fold AList.delete GeneratedKeys (base_of unmarshal (op_BaseYAML opts))) proxies
       (fst (buildGroups (op_Groups opts) (resolver_of sub opts)))
       (fst (buildRules (op_Rules opts) (resolver_of sub opts))) (ruleProviders opts)"
    using assms by (rule render_document_parts)
  have "\<forall>k. k \<notin> set GeneratedKeys \<longrightarrow>
      map_of doc k = (if TrimSpace (op_BaseYAML opts) = [] then None
                      else map_of (projr (unmarshal (op_BaseYAML opts))) k)"
    by (simp add: doc document_passes_through base_of_def)
  moreover have "map_of doc ''sub-rules'' = None"
    by (simp add: doc map_of_document map_of_fold_delete) (simp add: GeneratedKeys_def)
  moreover have "map the (map proxyToMap (sb_Proxies sub)) = proxies"
    using px by (rule those_SomeD)
  then have "map_of doc ''proxies'' =
      Some (YSeq (map (\<lambda>p. YMap (the (proxyToMap p))) (sb_Proxies sub)))"
    by (auto simp: doc map_of_document)
  moreover have "(op_Providers opts = [] \<longrightarrow> map_of doc ''rule-providers'' = None) \<and>
      (op_Providers opts \<noteq> [] \<longrightarrow> (\<exists>rp. map_of doc ''rule-providers'' = Some (YMap rp) \<and>
         dom (map_of rp) = rp_Name ` set (op_Providers opts)))"
    using ruleProviders_map [of opts] ruleProviders_None_iff [of opts]
    by (cases "ruleProviders opts")
       (auto simp: doc map_of_document map_of_fold_delete generated_rule_providers)
  ultimately show ?thesis by blast
qed

theorem rendered_document_keys_witness:
  "map_of sample_doc ''mode'' = Some (YStr ''rule'')"
  using conjunct1 [OF rendered_document_keys [OF sample_rendered]]
  by (simp add: sample_base_text GeneratedKeys_def sample_unmarshal_def)

lemma render_coherent:
  assumes "TrimSpace (op_BaseYAML opts) = [] \<or> (\<exists>m. unmarshal (op_BaseYAML opts) = Inr m)"
    and "\<forall>p \<in> set (sb_Proxies sub). proxy_wf p"
    and "\<forall>g \<in> set (op_Groups opts). \<forall>m \<in> set (pg_Members g). ref_coherent (op_Groups opts) m"
    and "\<forall>r \<in> set (op_Rules opts). rule_coherent (op_Groups opts) (op_Providers opts) r"
  shows "\<exists>doc. render_document unmarshal sub opts = Inr (doc, []) \<and>
    (\<forall>r \<in> set (op_Rules opts).
       fst (buildRule (newEntityNameResolver sub (op_Groups opts) (op_Providers opts)) r) = None \<longrightarrow>
       (\<exists>t. rr_Target r = Some t \<and> pr_Kind t = PolicyInbound))"
proof -
  have silent: "snd (buildGroups (op_Groups opts) (resolver_of sub opts)) = []"
    "snd (buildRules (op_Rules opts) (resolver_of sub opts)) = []"
    using assms(3,4) by (auto simp: buildGroups_def buildRules_def Let_def buildGroup_silent buildRule_silent)
  obtain proxies where px: "those (map proxyToMap (sb_Proxies sub)) = Some proxies"
    using those_map_proxyToMap [OF assms(2)] by blast
  have "\<exists>doc evs. render_document unmarshal sub opts = Inr (doc, evs)"
    using assms(1) px
    by (cases "buildGroups (op_Groups opts) (resolver_of sub opts)";
        cases "buildRules (op_Rules opts) (resolver_of sub opts)")
       (auto simp: render_document_def Let_def)
  then obtain doc evs where doc: "render_document unmarshal sub opts = Inr (doc, evs)" by blast
  then have "evs = []"
    by (rule render_document_parts) (simp add: silent)
  moreover have "\<exists>t. rr_Target r = Some t \<and> pr_Kind t = PolicyInbound"
    if "r \<in> set (op_Rules opts)" "fst (buildRule (resolver_of sub opts) r) = None" for r
    using buildRule_hidden_coherent [OF bspec [OF assms(4) that(1)] that(2)] .
  ultimately show ?thesis using doc by blast
qed

text \<open>
  Rendering a coherent configuration succeeds and logs nothing: if the base document parses,
  every proxy of the subscriber has exactly one variant, every reference is built in, an inbound, or
  a stored group, every rule has a target and every RULE-SET node names a stored provider, then a
  document results and no error event is recorded, so the only rules and members left out are those
  of inbounds the subscriber lacks.
\<close>
theorem coherent_config_renders_silently:
  assumes "TrimSpace (op_BaseYAML opts) = [] \<or> (\<exists>m. unmarshal (op_BaseYAML opts) = Inr m)"
    and "\<forall>p \<in> set (sb_Proxies sub). proxy_wf p"
    and "\<forall>g \<in> set (op_Groups opts). \<forall>m \<in> set (pg_Members g). ref_coherent (op_Groups opts) m"
    and "\<forall>r \<in> set (op_Rules opts). rule_coherent (op_Groups opts) (op_Providers opts) r"
  shows "\<exists>doc. render_document unmarshal sub opts = Inr (doc, []) \<and>
    (\<forall>r \<in> set (op_Rules opts).
       fst (buildRule (newEntityNameResolver sub (op_Groups opts) (op_Providers opts)) r) = None \<longrightarrow>
       (\<exists>t. rr_Target r = Some t \<and> pr_Kind t = PolicyInbound))"
  using assms by (rule render_coherent)

lemma sample_coherent:
  "\<forall>p \<in> set (sb_Proxies sample_sub). proxy_wf p"
  "\<forall>g \<in> set (op_Groups sample_opts). \<forall>m \<in> set (pg_Members g). ref_coherent (op_Groups sample_opts) m"
  "\<forall>r \<in> set (op_Rules sample_opts). rule_coherent (op_Groups sample_opts) (op_Providers sample_opts) r"
  by (simp_all add: sample_defs proxy_wf_def ref_coherent_def rule_coherent_def
      BuiltinPolicyKinds_def policy_kinds TakesProvider_iff IsLogical_iff rule_types)

theorem coherent_config_renders_silently_witness:
  "\<exists>doc. render_document sample_unmarshal sample_sub sample_opts = Inr (doc, [])"
  using coherent_config_renders_silently [of sample_opts sample_unmarshal sample_sub, OF _ sample_coherent]
  by (auto simp: sample_unmarshal_def)

text \<open>
  A RULE-SET never refers to a provider the document lacks: for every rule whose line is
  rendered and every RULE-SET node in it, the provider id resolves to a name that is a key of the
  document's rule-providers mapping.
\<close>
theorem rendered_rule_sets_defined:
  assumes "render_document unmarshal sub opts = Inr (doc, evs)"
    and "r \<in> set (op_Rules opts)"
    and "fst (buildRule (newEntityNameResolver sub (op_Groups opts) (op_Providers opts)) r) \<noteq> None"
    and "n \<in> set (visited r)" and "TakesProvider (rr_Type n)"
  shows "\<exists>name rp. provider_of (newEntityNameResolver sub (op_Groups opts) (op_Providers opts)) n = Some name \<and>
    map_of doc ''rule-providers'' = Some (YMap rp) \<and> map_of rp name \<noteq> None"
proof -
  have "rule_shown (resolver_of sub opts) r"
    using assms(3) by (rule contrapos_np) (simp add: buildRule_hidden)
  then obtain name where name: "provider_of (resolver_of sub opts) n = Some name"
    using assms(4,5) by (auto simp: rule_shown_def renderable_def)
  then obtain p where p: "p \<in> set (op_Providers opts)" "rp_Name p = name"
    by (auto simp: provider_of_def dest!: resolver_providerName split: option.splits)
  then obtain rp where rp: "ruleProviders opts = Some rp"
    using ruleProviders_None_iff [of opts] by fastforce
  from assms(1) have "map_of doc ''rule-providers'' = Some (YMap rp)"
    by (rule render_document_parts) (simp add: map_of_document rp)
  moreover have "map_of rp name \<noteq> None"
    using p by (auto simp: ruleProviders_map [OF rp] fill_map_None_iff)
  ultimately show ?thesis using name by blast
qed

theorem rendered_rule_sets_defined_witness:
  "\<exists>rp. map_of sample_doc ''rule-providers'' = Some (YMap rp) \<and> map_of rp ''ads'' \<noteq> None"
proof -
  have "fst (buildRule (resolver_of sample_sub sample_opts) (hd sample_rules)) \<noteq> None"
    "provider_of (resolver_of sample_sub sample_opts) (hd sample_rules) = Some ''ads''"
    by code_simp+
  then show ?thesis
    using rendered_rule_sets_defined [OF sample_rendered, of "hd sample_rules" "hd sample_rules"]
    by (auto simp: sample_opts_def sample_rules_def TakesProvider_iff rule_types)
qed

end
