(* ===== verification/PipelineFacts.thy ===== *)
theory PipelineFacts
  imports RoutingProperties RenderFacts
begin

text \<open>
  The path of a configuration from the admin form to the subscription: what is validated, saved and
  read back is coherent in the sense the renderer needs.
\<close>

lemma rr_erase [simp]:
  "rr_Type (erase_rule t) = rr_Type t" "rr_Target (erase_rule t) = rr_Target t"
  "rr_ProviderID (erase_rule t) = rr_ProviderID t" "rr_NoResolve (erase_rule t) = rr_NoResolve t"
  "rr_Value (erase_rule t) = rr_Value t"
  by (cases t; simp)+

lemma visited_erase: "visited (erase_rule t) = map erase_rule (visited t)"
  by (induction t) (auto simp: map_concat comp_def intro!: arg_cong [where f = concat])

lemma visited_saved:
  "rule_ok is_top ng (length pids) d \<Longrightarrow> n \<in> set (visited (saved_rule gids pids d)) \<Longrightarrow>
     TakesProvider (rr_Type n) \<Longrightarrow> \<exists>i \<in> set pids. rr_ProviderID n = Some i"
proof (induction d arbitrary: is_top n)
  case (RuleDraft ty val pidx nores target children)
  let ?d = "RuleDraft ty val pidx nores target children"
  have self: "\<exists>i \<in> set pids. map_option (\<lambda>i. pids ! nat i) pidx = Some i" if "TakesProvider ty"
  proof -
    from RuleDraft.prems(1) that obtain i where "pidx = Some i" "0 \<le> i" "i < int (length pids)"
      by (auto simp: rule_ok_def node_ok_def RuleDraft_Valid_None_iff)
    moreover from this have "nat i < length pids" by linarith
    ultimately show ?thesis by simp
  qed
  consider "n = saved_rule gids pids ?d"
    | c where "c \<in> set children" "IsLogical ty" "n \<in> set (visited (saved_rule gids pids c))"
    using RuleDraft.prems(2) by (auto split: if_splits)
  then show ?case
  proof cases
    case 1
    with RuleDraft.prems(3) self show ?thesis by simp
  next
    case 2
    with rule_ok_children [OF RuleDraft.prems(1), of c] RuleDraft.IH [of c False n] RuleDraft.prems(3)
    show ?thesis by simp
  qed
qed

lemma saved_ref_coherent:
  assumes "ref_ok (length gids) m" and "pg_ID ` set groups = set gids"
  shows "ref_coherent groups (saved_ref gids m)"
proof -
  have "gids ! nat i \<in> set gids" if "0 \<le> i" "i < int (length gids)" for i
    using that by simp
  with assms show ?thesis
    by (auto simp: ref_coherent_def saved_ref_def ref_ok_def)
qed

lemma saved_rule_sels:
  "rr_Target (saved_rule gids pids d) = map_option (saved_ref gids) (rd_Target d)"
  by (cases d) simp

lemma saved_rule_coherent:
  assumes "rule_ok True (length gids) (length pids) d" and "erase_rule t = saved_rule gids pids d"
    and "pg_ID ` set groups = set gids" and "rp_ID ` set providers = set pids"
  shows "rule_coherent groups providers t"
proof -
  obtain m where m: "rd_Target d = Some m" "ref_ok (length gids) m"
    using assms(1) by (auto simp: rule_ok_def)
  have "rr_Target t = rr_Target (erase_rule t)" by simp
  also have "\<dots> = Some (saved_ref gids m)"
    using m(1) by (simp only: assms(2) saved_rule_sels) simp
  finally have target: "rr_Target t = Some (saved_ref gids m)" .
  have "\<exists>i \<in> rp_ID ` set providers. rr_ProviderID n = Some i"
    if n: "n \<in> set (visited t)" "TakesProvider (rr_Type n)" for n
  proof -
    have "erase_rule n \<in> set (visited (saved_rule gids pids d))"
      using n(1) by (simp flip: assms(2) add: visited_erase)
    from visited_saved [OF assms(1) this] n(2) assms(4) show ?thesis by simp
  qed
  with target saved_ref_coherent [OF m(2) assms(3)] show ?thesis
    by (simp add: rule_coherent_def)
qed

lemma reads_back_coherent:
  assumes "reads_back cfg draft gids pids db" and rules: "Rules cfg db = Some ts"
    and groups_ok: "groups_ok (cd_Groups draft)"
    and rules_ok: "rules_ok (cd_Rules draft) (length (cd_Groups draft)) (length (cd_Providers draft))"
  shows "\<forall>g \<in> set (ProxyGroups cfg db). \<forall>m \<in> set (pg_Members g). ref_coherent (ProxyGroups cfg db) m"
    and "\<forall>r \<in> set ts. rule_coherent (ProxyGroups cfg db) (RuleProviders cfg db) r"
proof -
  note rb = assms(1) [unfolded reads_back_def]
  have groups: "ProxyGroups cfg db = map (\<lambda>(k, g). saved_group gids k g) (enumerate 0 (cd_Groups draft))"
    and len: "length gids = length (cd_Groups draft)" "length pids = length (cd_Providers draft)"
    using rb by simp_all
  have "map pg_ID (ProxyGroups cfg db) = gids"
    unfolding groups by (rule nth_equalityI) (simp_all add: len nth_enumerate_eq saved_group_def)
  then have ids: "pg_ID ` set (ProxyGroups cfg db) = set gids" by (metis list.set_map)
  have "map rp_ID (saved_providers pids (cd_Providers draft)) = pids"
    by (rule nth_equalityI) (simp_all add: len saved_providers_def)
  then have pids: "rp_ID ` set (RuleProviders cfg db) = set pids"
    using rb by (metis list.set_map set_sort)
  have "\<exists>k d. g = saved_group gids k d \<and> d \<in> set (cd_Groups draft)" if "g \<in> set (ProxyGroups cfg db)" for g
    using that unfolding groups by (auto simp: in_set_enumerate_eq) (metis nth_mem)
  then show "\<forall>g \<in> set (ProxyGroups cfg db). \<forall>m \<in> set (pg_Members g). ref_coherent (ProxyGroups cfg db) m"
    using groups_ok saved_ref_coherent [OF _ ids] by (fastforce simp: saved_group_def groups_ok_def len)
  have erased: "map erase_rule ts = map (saved_rule gids pids) (cd_Rules draft)"
    using rb rules by auto
  have "\<exists>d \<in> set (cd_Rules draft). erase_rule r = saved_rule gids pids d" if "r \<in> set ts" for r
  proof -
    have "erase_rule r \<in> set (map erase_rule ts)" using that by simp
    then show ?thesis by (auto simp: erased)
  qed
  then show "\<forall>r \<in> set ts. rule_coherent (ProxyGroups cfg db) (RuleProviders cfg db) r"
    using rules_ok saved_rule_coherent [OF _ _ ids pids] by (fastforce simp: rules_ok_def len)
qed

end
