(* ===== verification/AdminConfig.thy ===== *)
theory AdminConfig
  imports AdminNodes PipelineFacts ConfigsProperties
begin

text \<open>
  The configuration handlers of the admin API: \<open>handlers/config_save\<close>, \<open>config_get\<close>, \<open>config_customs\<close>,
  \<open>config_schema\<close>, \<open>custom_create\<close> and \<open>custom_delete\<close>.

  The wire types of a configuration in the generated package have the same JSON form, field by field,
  as the request DTOs of \<open>internal/mihomo\<close>, so one type stands for both: \<open>configDTO\<close> with its
  groups, rules, providers and references. Encoding to and decoding from JSON are the arguments
  \<open>json\<close> and \<open>unjson\<close>, parsing YAML is \<open>yaml\<close>.
\<close>

section \<open>Saving a configuration (config\_save)\<close>

record ConfigSaveReq =
  csr_Config :: configDTO
  csr_UserId :: "int option"

definition validationMessage :: "mihomo_error \<Rightarrow> string option" where
  "validationMessage e =
     (case e of
        ErrGroupNameEmpty \<Rightarrow> Some ''Enter a proxy-group name''
      | ErrGroupNameTaken \<Rightarrow> Some ''A proxy-group with this name already exists''
      | ErrGroupUnknownType \<Rightarrow> Some ''Unknown proxy-group type''
      | ErrGroupNoMembers \<Rightarrow> Some ''Empty proxy-group''
      | ErrGroupCycle \<Rightarrow> Some ''Proxy-groups form a cyclic reference''
      | ErrGroupFieldNotAllowed \<Rightarrow> Some ''This field does not apply to this proxy-group type''
      | ErrBadRef \<Rightarrow> Some ''Invalid rule/group-member target''
      | ErrGroupRefRange \<Rightarrow> Some ''Reference to a non-existent group''
      | ErrUnknownRuleType \<Rightarrow> Some ''Unknown rule type''
      | ErrMatchNotLast \<Rightarrow> Some ''The MATCH rule must be last''
      | ErrRuleValueRequired \<Rightarrow> Some ''The rule has no value''
      | ErrRulePayloadNotAllowed \<Rightarrow> Some ''This rule type does not accept a value''
      | ErrNoResolveUnsupported \<Rightarrow> Some ''no-resolve does not apply to this rule type''
      | ErrChildrenNotAllowed \<Rightarrow> Some ''Nested rules are allowed only for logical rules (AND/OR/NOT)''
      | ErrNotArity \<Rightarrow> Some ''NOT must contain exactly one nested rule''
      | ErrLogicalArity \<Rightarrow> Some ''AND/OR must contain at least two nested rules''
      | ErrMatchChild \<Rightarrow> Some ''MATCH cannot be used as a nested rule''
      | ErrTargetRequired \<Rightarrow> Some ''The rule has no target''
      | ErrChildTarget \<Rightarrow> Some ''A nested rule must not have a target''
      | ErrBaseYAMLInvalid \<Rightarrow> Some (''Invalid YAML '' @ [CHR 0xE2, CHR 0x80, CHR 0x94] @ '' check the syntax'')
      | ErrGeneratedKeyPresent \<Rightarrow> Some ''Remove the generated sections from the YAML''
      | ErrProviderNameEmpty \<Rightarrow> Some ''Enter a rule-provider name''
      | ErrProviderBadBehavior \<Rightarrow> Some ''Unknown rule-provider behavior''
      | ErrProviderBadFormat \<Rightarrow> Some ''Unknown rule-provider format''
      | ErrProviderURLEmpty \<Rightarrow> Some ''Enter the rule-provider URL''
      | ErrProviderRefRange \<Rightarrow> Some ''RULE-SET references a non-existent rule-provider''
      | ErrProfileTitleEmpty \<Rightarrow> Some ''Enter the profile title (Profile title)''
      | ErrProfileFilenameEmpty \<Rightarrow> Some ''Enter the subscription filename''
      | ErrProfileFilenameInvalid \<Rightarrow> Some (''The filename must not contain / '' @ [CHR 0x5C] @ '' or control characters'')
      | ErrProfileUpdateIntervalInvalid \<Rightarrow> Some ''Update interval must be a positive number of hours'')"

text \<open>The validators in the order of the handler; the first error stops.\<close>

definition config_error :: "(string \<Rightarrow> 'e + (string \<times> 'v) list) \<Rightarrow> ConfigDraft \<Rightarrow> mihomo_error option" where
  "config_error yaml draft =
     and_then (ValidateBaseYAML yaml (cd_BaseYAML draft))
    (and_then (ValidateProxyGroups (cd_Groups draft))
    (and_then (ValidateRoutingRules (cd_Rules draft) (length (cd_Groups draft)) (length (cd_Providers draft)))
    (and_then (ValidateRuleProviders (cd_Providers draft))
       (ValidateProfile (cd_Profile draft)))))"

definition save_scope :: "int \<Rightarrow> int \<Rightarrow> db \<Rightarrow> (repo_error + int) \<times> db" where
  "save_scope userID now db =
     (if userID = 0 then EnsureBaseConfigID ConfigKindMihomo now db
      else case UserConfigID userID ConfigKindMihomo db of
             None \<Rightarrow> (Inl (Domain ErrUserConfigNotFound), db)
           | Some i \<Rightarrow> (Inr i, db))"

definition ConfigSave ::
    "(ConfigSaveReq \<Rightarrow> 'j + 'raw) \<Rightarrow> ('raw \<Rightarrow> 'j + configDTO) \<Rightarrow> (string \<Rightarrow> 'e + (string \<times> 'v) list) \<Rightarrow> int \<Rightarrow>
     ConfigSaveReq \<Rightarrow> db \<Rightarrow> string reply \<times> db" where
  "ConfigSave json unjson yaml now req db =
     (case bind_err (json req) (DecodeConfig unjson) of
        Inl _ \<Rightarrow> (Failed, db)
      | Inr draft \<Rightarrow>
          (case config_error yaml draft of
             Some e \<Rightarrow> (case validationMessage e of Some msg \<Rightarrow> (BadRequest msg, db) | None \<Rightarrow> (Failed, db))
           | None \<Rightarrow>
               (case save_scope (or_else (csr_UserId req) 0) now db of
                  (Inl e, db') \<Rightarrow>
                    (if e = Domain ErrUserConfigNotFound then BadRequest ''The user has no custom config'' else Failed, db')
                | (Inr cfg, db') \<Rightarrow>
                    (case SaveMihomoConfig cfg draft db' of
                       (Inl e, db'') \<Rightarrow>
                         (if e = Domain ErrRuleProviderNameTaken
                          then BadRequest ''A rule-provider with this name already exists'' else Failed, db'')
                     | (Inr _, db'') \<Rightarrow> (Reply ''Config saved'', db'')))))"

section \<open>Reading a configuration (config\_get)\<close>

definition refToView :: "PolicyRef \<Rightarrow> (int \<rightharpoonup> nat) \<Rightarrow> policyRefDTO" where
  "refToView ref idx =
     \<lparr>prd_Kind = pr_Kind ref,
      prd_InboundID = (if pr_Kind ref = PolicyInbound then pr_InboundID ref else None),
      prd_GroupIdx = (if pr_Kind ref = PolicyGroup
                      then (case pr_GroupID ref of None \<Rightarrow> None | Some i \<Rightarrow> map_option int (idx i)) else None)\<rparr>"

fun ruleToView :: "(int \<rightharpoonup> nat) \<Rightarrow> (int \<rightharpoonup> nat) \<Rightarrow> RoutingRule \<Rightarrow> ruleDTO" where
  "ruleToView idx provIdx (RoutingRule i pos ty val pid nores tgt children) =
     ruleDTO ty val (case pid of None \<Rightarrow> None | Some p \<Rightarrow> map_option int (provIdx p)) nores
       (map_option (\<lambda>t. refToView t idx) tgt) (map (ruleToView idx provIdx) children)"

definition groupToView :: "(int \<rightharpoonup> nat) \<Rightarrow> ProxyGroup \<Rightarrow> groupDTO" where
  "groupToView idx g =
     \<lparr>grd_Name = pg_Name g, grd_Type = pg_Type g, grd_URL = pg_URL g, grd_Interval = pg_Interval g,
      grd_Tolerance = pg_Tolerance g, grd_Lazy = pg_Lazy g, grd_Members = map (\<lambda>m. refToView m idx) (pg_Members g)\<rparr>"

definition providerToView :: "RuleProvider \<Rightarrow> providerDTO" where
  "providerToView p =
     \<lparr>pvd_Name = rp_Name p, pvd_Behavior = rp_Behavior p, pvd_Format = rp_Format p, pvd_URL = rp_URL p,
      pvd_Interval = rp_Interval p, pvd_Mirror = rp_Mirror p, pvd_MirrorInterval = rp_MirrorInterval p\<rparr>"

definition id_index :: "int list \<Rightarrow> (int \<rightharpoonup> nat)" where
  "id_index ids = fill_map snd fst (zip [0..<length ids] ids)"

definition empty_view :: configDTO where
  "empty_view = \<lparr>cfd_BaseYAML = [], cfd_Groups = [], cfd_Rules = [], cfd_Providers = [], cfd_ProfileTitle = [],
     cfd_Filename = [], cfd_ProfileUpdateInterval = 0\<rparr>"

definition config_view :: "int \<Rightarrow> db \<Rightarrow> RoutingRule list \<Rightarrow> configDTO" where
  "config_view cfg db rules =
     (let groups = ProxyGroups cfg db; provs = RuleProviders cfg db; profile = Profile_of cfg db;
          idx = id_index (map pg_ID groups); provIdx = id_index (map rp_ID provs)
      in \<lparr>cfd_BaseYAML = Setting cfg ''base_yaml'' db,
          cfd_Groups = map (groupToView idx) groups,
          cfd_Rules = map (ruleToView idx provIdx) rules,
          cfd_Providers = map providerToView provs,
          cfd_ProfileTitle = pf_Title profile, cfd_Filename = pf_Filename profile,
          cfd_ProfileUpdateInterval = pf_UpdateInterval profile\<rparr>)"

text \<open>
  The optional user of the query. A rule tree that does not end (excluded by the invariant) has no
  answer at all; \<open>Failed\<close> stands for it.
\<close>

definition get_scope :: "int option \<Rightarrow> db \<Rightarrow> int option" where
  "get_scope user db =
     (case user of None \<Rightarrow> BaseConfigID ConfigKindMihomo db | Some u \<Rightarrow> UserConfigID u ConfigKindMihomo db)"

definition ConfigGet :: "int option \<Rightarrow> db \<Rightarrow> configDTO reply" where
  "ConfigGet user db =
     (case get_scope user db of
        None \<Rightarrow> if user \<noteq> None then NotFound else Reply empty_view
      | Some cfg \<Rightarrow>
          (case Rules cfg db of None \<Rightarrow> Failed | Some rules \<Rightarrow> Reply (config_view cfg db rules)))"

section \<open>Custom configurations (custom\_create, custom\_delete, config\_customs)\<close>

definition CustomCreate :: "int \<Rightarrow> int \<Rightarrow> db \<Rightarrow> string reply \<times> db" where
  "CustomCreate userId now db =
     (case CreateUserConfig userId ConfigKindMihomo now db of
        (Inl e, db') \<Rightarrow>
          (if e = Domain ErrUserConfigExists then BadRequest ''The user already has a custom config'' else Failed, db')
      | (Inr _, db') \<Rightarrow> (Reply ''Custom config created'', db'))"

definition CustomDelete :: "int \<Rightarrow> db \<Rightarrow> string reply \<times> db" where
  "CustomDelete userId db =
     (case DeleteUserConfig userId ConfigKindMihomo db of
        (Inl e, db') \<Rightarrow>
          (if e = Domain ErrUserConfigNotFound then BadRequest ''The user has no custom config'' else Failed, db')
      | (Inr _, db') \<Rightarrow> (Reply ''Custom config deleted'', db'))"

text \<open>
  The owners of custom configurations by name, and all users. User names are distinct, so
  \<open>sort.Slice\<close>, which is not stable, gives the order of any sort.
\<close>

record CustomsView =
  cv_Customs :: "(int \<times> string) list"
  cv_Users :: "(int \<times> string) list"

definition ConfigCustoms :: "db \<Rightarrow> CustomsView reply" where
  "ConfigCustoms db =
     (let users = ListNames (db); name = fill_map us_ID us_Name users
      in Reply \<lparr>cv_Customs = sort_key snd (map (\<lambda>i. (i, or_else (name i) [])) (UserConfigUserIDs ConfigKindMihomo db)),
                cv_Users = map (\<lambda>u. (us_ID u, us_Name u)) users\<rparr>)"

section \<open>The schema catalogue (config\_schema)\<close>

definition upper_char :: "char \<Rightarrow> char" where
  "upper_char c = (if is_lower c then char_of (of_char c - 32 :: nat) else c)"

record RuleTypeView =
  rtv_Type :: string
  rtv_TakesProvider :: bool
  rtv_SupportsNoResolve :: bool
  rtv_IsMatch :: bool
  rtv_IsLogical :: bool
  rtv_Destinations :: "string list"

record GroupTypeView =
  gtv_Type :: string
  gtv_UsesHealthCheck :: bool
  gtv_UsesTolerance :: bool
  gtv_Items :: "string list"

record SchemaView =
  sv_Actions :: "(string \<times> string) list"
  sv_Behaviors :: "string list"
  sv_Formats :: "string list"
  sv_Groups :: "GroupTypeView list"
  sv_Rules :: "RuleTypeView list"
  sv_GeneratedKeys :: "string list"

definition build_schema :: SchemaView where
  "build_schema =
     \<lparr>sv_Actions = map (\<lambda>k. (k, map upper_char k)) BuiltinPolicyKinds,
      sv_Behaviors = RuleProviderBehaviors, sv_Formats = RuleProviderFormats,
      sv_Groups = sort_key gtv_Type (map (\<lambda>(g, opts).
         \<lparr>gtv_Type = g, gtv_UsesHealthCheck = gto_UsesHealthCheck opts, gtv_UsesTolerance = gto_UsesTolerance opts,
          gtv_Items = PolicyCategories\<rparr>) proxyGroupTypes),
      sv_Rules = sort_key rtv_Type (map (\<lambda>(t, opts).
         \<lparr>rtv_Type = t, rtv_TakesProvider = rto_TakesProvider opts, rtv_SupportsNoResolve = rto_SupportsNoResolve opts,
          rtv_IsMatch = IsMatch t, rtv_IsLogical = rto_Logical opts, rtv_Destinations = PolicyCategories\<rparr>) ruleTypes),
      sv_GeneratedKeys = GeneratedKeys\<rparr>"

end
