(* ===== verification/AdminUsers.thy ===== *)
theory AdminUsers
  imports AdminSession Provisioning
begin

text \<open>
  The user handlers of the admin API: \<open>handlers/user_create\<close>, \<open>user_edit\<close>, \<open>user_delete\<close>,
  \<open>user_recreate\<close> and \<open>users_get\<close>. An optional description arrives as an option.
\<close>

section \<open>Creating, editing, deleting, recreating\<close>

text \<open>The domain error that \<open>errors.Is\<close> and \<open>errors.As\<close> find in a provisioning error.\<close>

definition entity_of :: "prov_error \<Rightarrow> entity_error option" where
  "entity_of e =
     (case e of
        Entity x \<Rightarrow> Some x
      | Store _ r \<Rightarrow> (case r of Domain x \<Rightarrow> Some x | _ \<Rightarrow> None)
      | NoSuchUser \<Rightarrow> None
      | Panel _ \<Rightarrow> None)"

definition UserCreate :: "prov_env \<Rightarrow> UserCreateParams \<Rightarrow> prov_state \<Rightarrow> string reply \<times> prov_state" where
  "UserCreate en req st =
     (case CreateUser en req st of
        (_, None, st') \<Rightarrow> (Reply ''User created'', st')
      | (_, Some e, st') \<Rightarrow>
          (case entity_of e of
             Some ErrNameTaken \<Rightarrow> Conflict ''Name already taken''
           | Some (PanelClientExistsError node) \<Rightarrow>
               Conflict (''panel '' @ [CHR 0x22] @ node @ [CHR 0x22] @ '' already has a client with this name '' @
                 [CHR 0xE2, CHR 0x80, CHR 0x94] @ '' delete it there manually or pick another name'')
           | Some ErrInvalidUserName \<Rightarrow>
               BadRequest ''Client name: allowed characters are a-z, 0-9, _ and -. From 1 to 32 characters''
           | Some ErrNoConnectionSelected \<Rightarrow> BadRequest ''Select at least one connection''
           | Some ErrDescriptionTooLong \<Rightarrow> BadRequest ''Description is too long (max 500 characters)''
           | Some ErrInboundNotFound \<Rightarrow> BadRequest ''The specified inbound was not found''
           | Some ErrNodeNotFound \<Rightarrow> BadRequest ''Node not found''
           | _ \<Rightarrow> Failed, st'))"

definition UserEdit :: "prov_env \<Rightarrow> UserEditParams \<Rightarrow> prov_state \<Rightarrow> string reply \<times> prov_state" where
  "UserEdit en req st =
     (case EditUser en req st of
        (None, st') \<Rightarrow> (Reply ''Connections updated'', st')
      | (Some e, st') \<Rightarrow>
          (case entity_of e of
             Some ErrNoConnectionSelected \<Rightarrow> BadRequest ''Select at least one connection''
           | Some ErrDescriptionTooLong \<Rightarrow> BadRequest ''Description is too long (max 500 characters)''
           | Some ErrInboundNotFound \<Rightarrow> BadRequest ''The specified inbound was not found''
           | _ \<Rightarrow> Failed, st'))"

definition UserDelete :: "prov_env \<Rightarrow> int \<Rightarrow> prov_state \<Rightarrow> string reply \<times> prov_state" where
  "UserDelete en i st =
     (case DeleteUser en i st of (None, st') \<Rightarrow> (Reply ''User deleted'', st') | (Some _, st') \<Rightarrow> (Failed, st'))"

definition UserRecreate :: "prov_env \<Rightarrow> int \<Rightarrow> prov_state \<Rightarrow> string reply \<times> prov_state" where
  "UserRecreate en i st =
     (case RecreateUser en i st of (None, st') \<Rightarrow> (Reply ''Clients recreated'', st') | (Some _, st') \<Rightarrow> (Failed, st'))"

section \<open>The users page (users\_get)\<close>

record UsersGetParams =
  ug_Q :: "string option"
  ug_Inbound :: "int list"
  ug_Page :: "int option"
  ug_PerPage :: "int option"

record ConnectionView =
  nw_ID :: int
  nw_Label :: string
  nw_Port :: int
  nw_Missing :: bool

record UserView =
  uv_ID :: int
  uv_Name :: string
  uv_Description :: "string option"
  uv_Inbounds :: "ConnectionView list"
  uv_Links :: "SubLink list"
  uv_Up :: i64
  uv_Down :: i64

record UsersView =
  uw_Users :: "UserView list"
  uw_Total :: int
  uw_Page :: int
  uw_PerPage :: int

definition default_or :: "int option \<Rightarrow> int \<Rightarrow> int" where
  "default_or x d = (case x of None \<Rightarrow> d | Some v \<Rightarrow> v)"

definition page_of :: "int option \<Rightarrow> int" where
  "page_of p = (let page = default_or p 1 in if page < 1 then 1 else page)"

definition perPage_of :: "int option \<Rightarrow> int" where
  "perPage_of p =
     (let n = default_or p 50; n = (if n < 1 then 50 else n) in if 200 < n then 200 else n)"

text \<open>Go's \<open>int\<close> on a 64-bit platform: the product wraps around.\<close>

definition wrap64 :: "int \<Rightarrow> int" where "wrap64 i = sint (word_of_int i :: i64)"

definition list_params :: "UsersGetParams \<Rightarrow> UserListParams" where
  "list_params p =
     \<lparr>lp_NameQuery = (case ug_Q p of None \<Rightarrow> [] | Some q \<Rightarrow> q), lp_InboundIDs = ug_Inbound p,
      lp_Limit = perPage_of (ug_PerPage p),
      lp_Offset = wrap64 ((page_of (ug_Page p) - 1) * perPage_of (ug_PerPage p))\<rparr>"

definition user_view :: "Fleet option \<Rightarrow> (int \<rightharpoonup> SubLink list) \<Rightarrow> User \<Rightarrow> UserView" where
  "user_view fl links u =
     \<lparr>uv_ID = us_ID u, uv_Name = us_Name u, uv_Description = us_Description u,
      uv_Inbounds = map (\<lambda>c. \<lparr>nw_ID = cn_InboundID c, nw_Label = cn_Node c @ ''-'' @ cn_Name c, nw_Port = cn_Port c,
                              nw_Missing = ClientMissing fl (cn_InboundID c) (us_Name u)\<rparr>) (us_Connections u),
      uv_Links = (case links (us_ID u) of None \<Rightarrow> [] | Some l \<Rightarrow> l),
      uv_Up = (case Fleet_Sub fl (us_SubID u) of None \<Rightarrow> 0 | Some s \<Rightarrow> sb_Up s),
      uv_Down = (case Fleet_Sub fl (us_SubID u) of None \<Rightarrow> 0 | Some s \<Rightarrow> sb_Down s)\<rparr>"

text \<open>An error of the fleet is ignored: there is no fleet then.\<close>

definition UsersGet :: "mac \<Rightarrow> string \<Rightarrow> string \<Rightarrow> string + Fleet \<Rightarrow> UsersGetParams \<Rightarrow> db \<Rightarrow> UsersView reply" where
  "UsersGet hmac secret publicBase fleet p db =
     (let page = ListPage (list_params p) db;
          fl = (case fleet of Inl _ \<Rightarrow> None | Inr f \<Rightarrow> Some f);
          links = Links hmac secret publicBase (up_Users page) db
      in Reply \<lparr>uw_Users = map (user_view fl links) (up_Users page), uw_Total = up_Total page,
                uw_Page = page_of (ug_Page p), uw_PerPage = perPage_of (ug_PerPage p)\<rparr>)"

end
