(* ===== verification/AdminRuns.thy ===== *)
theory AdminRuns
  imports NodesProperties
begin

text \<open>
  The administration of the store as a step relation over all operations of the repositories, and
  what holds in every database reachable from the empty one.
\<close>

section \<open>Reads never run out of fuel\<close>

lemma those_map_None_iff: "those (map f xs) = None \<longleftrightarrow> (\<exists>x \<in> set xs. f x = None)"
  by (induction xs) (auto split: option.splits)

text \<open>A child has a larger id than its parent, so the depth is at most the number of larger ids.\<close>

lemma freeze_total:
  assumes "\<And>q p. q \<in> set rows \<Longrightarrow> rl_parent q = Some p \<Longrightarrow> p < rl_id q"
    and "card {q \<in> set rows. rl_id r < rl_id q} < n"
  shows "freeze n rows r \<noteq> None"
  using assms(2)
proof (induction n arbitrary: r)
  case (Suc n)
  have "freeze n rows c \<noteq> None" if "c \<in> set (child_rows rows (rl_id r))" for c
  proof (rule Suc.IH)
    have c: "c \<in> set rows" "rl_parent c = Some (rl_id r)" using that by (simp_all add: child_rows_def)
    have less: "rl_id r < rl_id c" by (rule assms(1) [OF c])
    have "{q \<in> set rows. rl_id c < rl_id q} \<subset> {q \<in> set rows. rl_id r < rl_id q}"
      using c(1) less by force
    then have "card {q \<in> set rows. rl_id c < rl_id q} < card {q \<in> set rows. rl_id r < rl_id q}"
      by (rule psubset_card_mono [rotated]) simp
    with Suc.prems show "card {q \<in> set rows. rl_id c < rl_id q} < n" by simp
  qed
  then show ?case by (auto simp: those_map_None_iff)
qed simp

lemma Rules_total:
  assumes "ids_ascend db"
  shows "Rules cfg db \<noteq> None"
proof -
  let ?rows = "config_rules cfg db"
  have sub: "set ?rows \<subseteq> set (db_rules db)" by (auto simp: config_rules_def)
  have "freeze (length ?rows) ?rows r \<noteq> None" if r: "r \<in> set ?rows" for r
  proof (rule freeze_total)
    show "p < rl_id q" if "q \<in> set ?rows" "rl_parent q = Some p" for q p
      using assms sub that by (auto simp: ids_ascend_def)
    have "{q \<in> set ?rows. rl_id r < rl_id q} \<subset> set ?rows" using r by auto
    then have "card {q \<in> set ?rows. rl_id r < rl_id q} < card (set ?rows)" by (rule psubset_card_mono [rotated]) simp
    also have "\<dots> \<le> length ?rows" by (rule card_length)
    finally show "card {q \<in> set ?rows. rl_id r < rl_id q} < length ?rows" .
  qed
  then show ?thesis by (auto simp: Rules_def Let_def those_map_None_iff)
qed

section \<open>The configuration operations keep the store invariant\<close>

definition registry :: "db \<Rightarrow> user_row list \<times> node_row list \<times> inbound_row list \<times> int \<times> int \<times> int" where
  "registry db = (db_users db, db_nodes db, db_inbounds db, sq_users db, sq_nodes db, sq_inbounds db)"

lemma registry_positive: "registry db' = registry db \<Longrightarrow> positive_ids db \<Longrightarrow> positive_ids db'"
  by (simp add: registry_def positive_ids_def)

lemma registry_statements_same:
  "registry (delete_rules P1 db) = registry db" "registry (delete_members P2 db) = registry db"
  "registry (delete_groups P3 db) = registry db" "registry (delete_providers P4 db) = registry db"
  "registry (insert_groups gs db) = registry db" "registry (insert_members ms db) = registry db"
  "registry (insert_providers ps db) = registry db" "registry (insert_rules rs db) = registry db"
  "registry (upsert_setting s db) = registry db" "registry (upsert_profile f db) = registry db"
  "registry (insert_config c db) = registry db" "registry (delete_configs Q db) = registry db"
  by (simp_all add: registry_def delete_rules_def delete_members_def delete_groups_def delete_providers_def
      insert_groups_def insert_members_def insert_providers_def insert_rules_def upsert_setting_def
      upsert_profile_def insert_config_def delete_configs_def Let_def)

lemma registry_exec: "exec f db = Inr db' \<Longrightarrow> (\<And>d. registry (f d) = registry d) \<Longrightarrow> registry db' = registry db"
  by (simp add: exec_Inr_iff)

lemma registry_batch:
  "batch_insert ins rows db = Inr db' \<Longrightarrow> (\<And>d. registry (ins rows d) = registry d) \<Longrightarrow> registry db' = registry db"
  by (auto simp: batch_insert_def exec_Inr_iff split: if_splits)

lemma registry_save_delete: "save_delete cfg db = Inr d \<Longrightarrow> registry d = registry db"
  by (auto simp: save_delete_def bind_err_Inr_iff exec_Inr_iff registry_statements_same)

lemma registry_save_tx:
  assumes "save_tx cfg draft db = Inr (u, db')"
  shows "registry db' = registry db"
proof -
  from assms obtain d1 d2 d3 mrows d4 d5 d6 where
    "save_delete cfg db = Inr d1" "batch_insert insert_groups (group_rows cfg 0 (cd_Groups draft)) d1 = Inr d2"
    "save_providers cfg (cd_Providers draft) d2 = Inr d3" "batch_insert insert_members mrows d3 = Inr d4"
    "insertRules cfg (cd_Rules draft) (group_ids cfg d2) (provider_ids cfg d3) d4 = Inr d5"
    "registry d6 = registry d5" "registry db' = registry d6"
    unfolding save_tx_def Let_def bind_err_Inr_iff
    by (auto simp: exec_Inr_iff registry_statements_same)
  moreover have "registry b = registry a" if "save_providers cfg ps a = Inr b" for ps a b
    using that by (auto simp: save_providers_def registry_statements_same split: sum.splits dest!: registry_batch)
  moreover have "registry b = registry a" if "insertRules cfg rs g p a = Inr b" for rs g p a b
    using that by (auto simp: insertRules_def bind_err_Inr_iff registry_statements_same dest!: registry_batch)
  ultimately show ?thesis
    using registry_save_delete registry_batch [of insert_groups] registry_batch [of insert_members]
    by (metis registry_statements_same(5,6))
qed

lemma registry_clone:
  assumes "CloneConfig src dst db = Inr db'"
  shows "registry db' = registry db"
proof -
  from assms obtain gm d1 d2 pm d3 d4 d5 where
    c: "cloneGroups src dst db = Inr (gm, d1)" "cloneMembers src gm (group_ids src db) d1 = Inr d2"
    "cloneProviders src dst d2 = Inr (pm, d3)" "cloneRules src dst gm pm d3 = Inr d4"
    "cloneSettings src dst d4 = Inr d5" "cloneProfile src dst d5 = Inr db'"
    by (auto simp: CloneConfig_def bind_err_Inr_iff)
  have "registry d1 = registry db"
    using c(1) by (auto simp: cloneGroups_def Let_def bind_err_Inr_iff registry_statements_same dest!: registry_batch)
  moreover have "registry d2 = registry d1"
    using c(2) by (auto simp: cloneMembers_def Let_def registry_statements_same split: if_splits dest!: registry_batch)
  moreover have "registry d3 = registry d2"
    using c(3) by (auto simp: cloneProviders_def Let_def bind_err_Inr_iff registry_statements_same dest!: registry_batch)
  moreover have "registry d4 = registry d3"
    using c(4) by (auto simp: cloneRules_def Let_def registry_statements_same dest!: registry_batch)
  moreover have "registry db' = registry d4"
    using c(5,6) by (simp add: cloneSettings_def cloneProfile_def exec_Inr_iff registry_def)
  ultimately show ?thesis by simp
qed

lemma SaveMihomoConfig_inv:
  assumes "store_inv db"
  shows "store_inv (snd (SaveMihomoConfig cfg draft db))"
proof (cases "save_tx cfg draft db")
  case (Inl e)
  with assms show ?thesis by (simp add: SaveMihomoConfig_def in_tx_def)
next
  case (Inr r)
  obtain u db' where r: "r = (u, db')" by (cases r)
  with Inr have "save_tx cfg draft db = Inr (u, db')" by simp
  with registry_positive [OF registry_save_tx [OF this]] save_tx_inv [OF this] assms r Inr show ?thesis
    by (simp add: SaveMihomoConfig_def in_tx_def store_inv_def)
qed

lemma EnsureBaseConfigID_inv:
  assumes "store_inv db"
  shows "store_inv (snd (EnsureBaseConfigID kind now db))"
proof (cases "BaseConfigID kind db")
  case None
  note e = ensure_base_absent [OF store_invD(1,4) [OF assms] None, of now]
  with registry_positive [OF registry_statements_same(11)] store_invD(3) [OF assms] show ?thesis
    by (simp add: store_inv_def)
next
  case (Some i)
  with ensure_base_present [OF store_invD(1) [OF assms] Some] assms show ?thesis by simp
qed

lemma CreateUserConfig_inv:
  assumes "store_inv db"
  shows "store_inv (snd (CreateUserConfig userID kind now db))"
proof (cases "CreateUserConfig userID kind now db")
  case (Pair r db')
  show ?thesis
  proof (cases r)
    case (Inl e)
    with Pair have "db' = db" unfolding CreateUserConfig_def by (simp add: in_tx_atomic)
    with Pair assms show ?thesis by simp
  next
    case (Inr i)
    with Pair have run: "CreateUserConfig userID kind now db = (Inr i, db')" by simp
    note f = create_user_facts [OF run store_invD(1) [OF assms]]
    have "create_user_config_tx userID kind now db = Inr (i, db')"
      using run by (auto simp: CreateUserConfig_def in_tx_def split: sum.splits)
    then have "registry db' = registry db"
      by (auto simp: create_user_config_tx_def Let_def bind_err_Inr_iff exec_Inr_iff registry_statements_same
          dest!: registry_clone split: sum.splits option.splits)
    with created_configs(2) [OF run store_invD(1) [OF assms]] registry_positive store_invD(3) [OF assms]
    show ?thesis by (simp add: Pair store_inv_def)
  qed
qed

lemma DeleteUserConfig_inv:
  assumes "store_inv db"
  shows "store_inv (snd (DeleteUserConfig userID kind db))"
proof -
  have "store_inv (delete_configs P db)" for P
    using delete_configs_inv [OF store_invD(1) [OF assms]] store_invD(3) [OF assms]
      registry_positive [OF registry_statements_same(12)] by (simp add: store_inv_def)
  with assms show ?thesis
    by (auto simp: DeleteUserConfig_def in_tx_def delete_user_config_tx_def Let_def exec_Inr_iff bind_err_Inr_iff
        split: sum.splits)
qed

section \<open>Steps and runs\<close>

datatype admin_op =
    SaveConfig int ConfigDraft | EnsureBase string int | CreateConfig int string int | DeleteConfig int string
  | AddUser int User | DropUser int | Describe int "string option" | Connect int int "int list"
  | AddNode int Node | EditNode int Node bool | DropNode int

text \<open>
  One rule per operation, with any arguments and whatever the result; the order in which a map is
  ranged over is any the language allows.
\<close>

inductive admin_step :: "encode \<Rightarrow> db \<Rightarrow> admin_op \<Rightarrow> db \<Rightarrow> bool" for enc where
  save: "admin_step enc db (SaveConfig cfg draft) (snd (SaveMihomoConfig cfg draft db))"
| ensure: "admin_step enc db (EnsureBase kind now) (snd (EnsureBaseConfigID kind now db))"
| create_config: "admin_step enc db (CreateConfig u kind now) (snd (CreateUserConfig u kind now db))"
| delete_config: "admin_step enc db (DeleteConfig u kind) (snd (DeleteUserConfig u kind db))"
| add_user: "admin_step enc db (AddUser now u) (snd (CreateUserRow now u db))"
| drop_user: "admin_step enc db (DropUser i) (snd (DeleteUserRow i db))"
| describe: "admin_step enc db (Describe i d) (snd (SetDescription i d db))"
| connect: "map_order ord \<Longrightarrow> admin_step enc db (Connect now i inbs) (snd (ReplaceConnections ord now i inbs db))"
| add_node: "admin_step enc db (AddNode now n) (snd (CreateNode enc now n db))"
| edit_node: "admin_step enc db (EditNode i n tok) (snd (UpdateNode enc i n tok db))"
| drop_node: "admin_step enc db (DropNode i) (snd (DeleteNode i db))"

inductive_cases admin_step_ConnectE: "admin_step enc db (Connect now i inbs) db'"
inductive_simps admin_step_simps:
  "admin_step enc db (SaveConfig cfg draft) db'" "admin_step enc db (DropNode i) db'"

inductive runs :: "('s \<Rightarrow> 'o \<Rightarrow> 's \<Rightarrow> bool) \<Rightarrow> 's \<Rightarrow> 'o list \<Rightarrow> 's \<Rightarrow> bool" for step where
  run_none: "runs step s [] s"
| run_more: "step s x t \<Longrightarrow> runs step t xs u \<Longrightarrow> runs step s (x # xs) u"

text \<open>A system whose steps keep an invariant.\<close>

locale safe_system =
  fixes step :: "'s \<Rightarrow> 'o \<Rightarrow> 's \<Rightarrow> bool" and start :: 's and safe :: "'s \<Rightarrow> bool"
  assumes start_safe: "safe start"
    and step_safe: "step s x t \<Longrightarrow> safe s \<Longrightarrow> safe t"
begin

lemma runs_safe: "runs step s xs t \<Longrightarrow> safe s \<Longrightarrow> safe t"
  by (induction rule: runs.induct) (auto intro: step_safe)

lemma reachable_safe: "runs step start xs t \<Longrightarrow> safe t"
  by (erule runs_safe) (rule start_safe)

end

lemma admin_step_inv: "admin_step enc db x db' \<Longrightarrow> store_inv db \<Longrightarrow> store_inv db'"
proof (induction rule: admin_step.induct)
  case (add_user db now u)
  then show ?case by (rule users.create_inv)
next
  case (drop_user db i)
  with DeleteUserRow_inv [of db i] show ?case by simp
next
  case (describe db i d)
  with SetDescription_inv [of db i d] show ?case by simp
next
  case (connect ord db now i inbs)
  then show ?case by (intro users.connect_inv)
qed (simp_all add: SaveMihomoConfig_inv EnsureBaseConfigID_inv CreateUserConfig_inv DeleteUserConfig_inv
    CreateNode_inv UpdateNode_inv DeleteNode_inv)

interpretation admin: safe_system "admin_step enc" empty_db store_inv for enc
  by unfold_locales (rule store_inv_empty, rule admin_step_inv)

section \<open>Properties\<close>

lemma sample_run:
  "\<exists>db. runs (admin_step password_enc) empty_db
     [EnsureBase ''mihomo'' 1, AddNode 2 sample_node, AddUser 3 sample_user, CreateConfig 1 ''mihomo'' 4, DropNode 1] db"
  by (rule exI, rule run_more, rule ensure, rule run_more, rule add_node, rule run_more, rule add_user,
      rule run_more, rule create_config, rule run_more, rule drop_node, rule run_none)

text \<open>
  C14: Whatever sequence of administration operations runs, from the empty database, successful or
  failing, with any arguments, the store invariant holds: every CHECK, UNIQUE and FOREIGN KEY
  constraint, references of a configuration stay inside it, rules and providers are in id order with
  parents before their sub-rules, and ids are positive and never reused below the sequence.
\<close>
theorem administration_keeps_invariant:
  assumes "runs (admin_step enc) empty_db ops db"
  shows "store_inv db"
  using assms by (rule admin.reachable_safe)

theorem administration_keeps_invariant_witness:
  "\<exists>db. runs (admin_step password_enc) empty_db
     [EnsureBase ''mihomo'' 1, AddNode 2 sample_node, AddUser 3 sample_user, CreateConfig 1 ''mihomo'' 4, DropNode 1] db \<and> store_inv db"
  using sample_run administration_keeps_invariant by blast



end
