(* ===== verification/ConfigsCoherent.thy ===== *)
theory ConfigsCoherent
  imports PipelineFacts UsersProperties
begin

text \<open>
  Coherence of the stored configurations: what the renderer needs of a configuration to produce a
  document without logging an error, and that saving a validated draft, copying the base for a user
  and deleting configurations keep it for every configuration of the store.
\<close>

section \<open>Coherent configurations\<close>

definition parts_coherent :: "ProxyGroup list \<Rightarrow> RuleProvider list \<Rightarrow> RoutingRule list \<Rightarrow> bool" where
  "parts_coherent groups providers rules \<longleftrightarrow>
     (\<forall>g \<in> set groups. \<forall>m \<in> set (pg_Members g). ref_coherent groups m) \<and>
     (\<forall>r \<in> set rules. rule_coherent groups providers r)"

definition base_parses :: "(string \<Rightarrow> 'e + (string \<times> 'v) list) \<Rightarrow> string \<Rightarrow> bool" where
  "base_parses yaml base \<longleftrightarrow> TrimSpace base = [] \<or> (\<exists>m. yaml base = Inr m)"

definition config_coherent :: "(string \<Rightarrow> 'e + (string \<times> 'v) list) \<Rightarrow> int \<Rightarrow> db \<Rightarrow> bool" where
  "config_coherent yaml cfg db \<longleftrightarrow>
     base_parses yaml (Setting cfg ''base_yaml'' db) \<and>
     (\<forall>rules. Rules cfg db = Some rules \<longrightarrow> parts_coherent (ProxyGroups cfg db) (RuleProviders cfg db) rules)"

definition configs_coherent :: "(string \<Rightarrow> 'e + (string \<times> 'v) list) \<Rightarrow> db \<Rightarrow> bool" where
  "configs_coherent yaml db \<longleftrightarrow> (\<forall>cfg. config_coherent yaml cfg db)"

lemma coherent_same: "same_config cfg db db' \<Longrightarrow> config_coherent yaml cfg db \<Longrightarrow> config_coherent yaml cfg db'"
  by (simp add: config_coherent_def same_config_def)

lemma coherent_empty:
  "ProxyGroups cfg db = [] \<Longrightarrow> Rules cfg db = Some [] \<Longrightarrow> Setting cfg ''base_yaml'' db = [] \<Longrightarrow> config_coherent yaml cfg db"
  by (simp add: config_coherent_def parts_coherent_def base_parses_def)

lemma configs_coherent_empty: "configs_coherent yaml empty_db"
  unfolding configs_coherent_def
  by (intro allI coherent_empty)
     (simp_all add: empty_db_def ProxyGroups_def loadMembers_def Rules_def config_rules_def Setting_def Let_def)

text \<open>An operation that leaves the content of the configurations alone.\<close>

definition content_same :: "db \<Rightarrow> db \<Rightarrow> bool" where
  "content_same db db' \<longleftrightarrow> routing_same db db' \<and> db_settings db' = db_settings db \<and> db_profiles db' = db_profiles db"

lemma content_same_refl [simp]: "content_same db db"
  by (simp add: content_same_def routing_same_def)

lemma content_same_reads: "content_same db db' \<Longrightarrow> constraints_ok db \<Longrightarrow> constraints_ok db' \<Longrightarrow> same_config cfg db db'"
  by (rule same_configI) (simp_all add: content_same_def routing_same_def)

lemma configs_coherent_same:
  "content_same db db' \<Longrightarrow> store_inv db \<Longrightarrow> store_inv db' \<Longrightarrow> configs_coherent yaml db \<Longrightarrow> configs_coherent yaml db'"
  using coherent_same content_same_reads store_invD(2) unfolding configs_coherent_def by meson

section \<open>Saving\<close>

lemma save_coherent:
  assumes saved: "save_tx cfg draft db = Inr ((), db')" and inv: "store_inv db" and coh: "configs_coherent yaml db"
    and valid: "ValidateProxyGroups (cd_Groups draft) = None"
      "ValidateRoutingRules (cd_Rules draft) (length (cd_Groups draft)) (length (cd_Providers draft)) = None"
    and base: "yaml (cd_BaseYAML draft) = Inr m"
  shows "configs_coherent yaml db'"
proof -
  have "config_coherent yaml other db'" if "other \<noteq> cfg" for other
    using save_tx_others [OF saved _ _ that] store_invD(1) [OF inv] coh coherent_same
    unfolding configs_coherent_def db_inv_def config_local_def by blast
  moreover obtain gids pids where rb: "reads_back cfg draft gids pids db'"
    using save_tx_reads_back [OF saved] by blast
  then have "Setting cfg ''base_yaml'' db' = cd_BaseYAML draft" by (simp add: reads_back_def)
  with base have "config_coherent yaml cfg db'"
    using reads_back_coherent [OF rb] valid
    by (simp add: config_coherent_def parts_coherent_def base_parses_def groups_ok_iff rules_ok_iff)
  ultimately show ?thesis unfolding configs_coherent_def by metis
qed

section \<open>Copying\<close>

lemma ref_coherent_renamed:
  "ref_coherent groups ref \<Longrightarrow> ref_coherent (map (rename_group gm) groups) (rename_ref gm ref)"
  by (auto simp: ref_coherent_def rename_ref_def rename_group_def image_image)

lemma visited_renamed: "visited (rename_rule rm gm pm r) = map (rename_rule rm gm pm) (visited r)"
  by (induction r) (auto simp: map_concat comp_def intro!: arg_cong [where f = concat])

lemma rr_renamed [simp]:
  "rr_Type (rename_rule rm gm pm r) = rr_Type r"
  "rr_Target (rename_rule rm gm pm r) = map_option (rename_ref gm) (rr_Target r)"
  "rr_ProviderID (rename_rule rm gm pm r) = map_option pm (rr_ProviderID r)"
  by (cases r; simp)+

lemma rule_coherent_renamed:
  assumes "rule_coherent groups providers r"
  shows "rule_coherent (map (rename_group gm) groups) (map (rename_provider pm) providers) (rename_rule rm gm pm r)"
proof -
  have "rp_ID ` set (map (rename_provider pm) providers) = pm ` rp_ID ` set providers"
    by (simp add: image_image rename_provider_def)
  with assms ref_coherent_renamed show ?thesis
    by (fastforce simp: rule_coherent_def visited_renamed)
qed

lemma parts_coherent_renamed:
  assumes "parts_coherent groups providers rules"
  shows "parts_coherent (map (rename_group gm) groups) (map (rename_provider pm) providers)
    (map (rename_rule rm gm pm) rules)"
  using assms ref_coherent_renamed rule_coherent_renamed unfolding parts_coherent_def
  by (fastforce simp: rename_group_def)

lemma create_coherent:
  assumes run: "CreateUserConfig userID kind now db = (Inr newID, db')" and inv: "store_inv db"
    and coh: "configs_coherent yaml db"
  shows "configs_coherent yaml db'"
proof -
  let ?d = "insert_config (user_anchor userID kind now) db"
  note f = create_user_facts [OF run store_invD(1) [OF inv]]
  have d: "configs_coherent yaml ?d"
  proof -
    have "same_config cfg db ?d" for cfg
      using store_invD(2) [OF inv] f(1) by (intro same_configI) (simp_all add: db_inv_def)
    with coh coherent_same show ?thesis unfolding configs_coherent_def by blast
  qed
  show ?thesis
  proof (cases "BaseConfigID kind db")
    case None
    with d f(4) show ?thesis by simp
  next
    case (Some b)
    note cl = f(5) [OF Some]
    have "config_coherent yaml other db'" if "other \<noteq> newID" for other
      using cloned_others [OF f(1) cl that] d coherent_same unfolding configs_coherent_def by blast
    moreover have "config_coherent yaml newID db'"
      using d parts_coherent_renamed ProxyGroups_cloned [OF f(1) cl f(3)] RuleProviders_cloned [OF f(1) cl f(3)]
        Rules_cloned [OF f(1) cl f(3)] Setting_cloned [OF cl f(3)]
      by (auto simp: configs_coherent_def config_coherent_def)
    ultimately show ?thesis unfolding configs_coherent_def by metis
  qed
qed

section \<open>Deleting\<close>

lemma gone_config_empty:
  assumes inv: "db_inv db" and gone: "cfg \<in> gone_configs P db"
  shows "config_coherent yaml cfg (delete_configs P db)"
proof (rule coherent_empty)
  have par: "constraints_ok db" "parents_local db" using inv by (simp_all add: db_inv_def config_local_def)
  note t = delete_configs_tables [OF par, of P]
  have ok: "db_inv (delete_configs P db)" by (rule delete_configs_inv [OF inv])
  have rows: "filter (\<lambda>g. gr_config g = cfg) (db_groups (delete_configs P db)) = []"
    "filter (\<lambda>r. rl_config r = cfg) (db_rules (delete_configs P db)) = []"
    using gone by (auto simp: t filter_empty_conv)
  then have "config_groups cfg (delete_configs P db) = []" unfolding config_groups_def rows by simp
  with rows ok show "ProxyGroups cfg (delete_configs P db) = []" "Rules cfg (delete_configs P db) = Some []"
    by (simp_all add: ProxyGroups_eq [OF uniq_ids(1)] db_inv_def Rules_def config_rules_def)
  have "find (\<lambda>s. sr_config s = cfg \<and> sr_key s = ''base_yaml'') (db_settings (delete_configs P db)) = None"
    using gone by (auto simp: t find_None_iff)
  then show "Setting cfg ''base_yaml'' (delete_configs P db) = []" by (simp add: Setting_def)
qed

lemma delete_coherent:
  assumes "db_inv db" and "configs_coherent yaml db"
  shows "configs_coherent yaml (delete_configs P db)"
  unfolding configs_coherent_def
proof
  fix cfg
  show "config_coherent yaml cfg (delete_configs P db)"
  proof (cases "cfg \<in> gone_configs P db")
    case True
    then show ?thesis by (rule gone_config_empty [OF assms(1)])
  next
    case False
    from delete_configs_others [OF assms(1) this] have "same_config cfg db (delete_configs P db)" .
    moreover have "config_coherent yaml cfg db" using assms(2) by (simp add: configs_coherent_def)
    ultimately show ?thesis by (rule coherent_same)
  qed
qed

lemma DeleteUserConfig_db: "store_inv db \<Longrightarrow> \<exists>P. snd (DeleteUserConfig userID kind db) \<in> {db, delete_configs P db}"
  by (auto simp: DeleteUserConfig_def in_tx_def delete_user_config_tx_def Let_def exec_Inr_iff bind_err_Inr_iff
      split: sum.splits)

section \<open>Users and nodes leave the configurations alone\<close>

lemma ensure_base_content: "content_same db (snd (EnsureBaseConfigID kind now db))"
  by (auto simp: EnsureBaseConfigID_def Let_def exec_Inr_iff content_same_def routing_same_def split: sum.splits option.splits)

lemma create_user_content: "content_same db (snd (CreateUserRow now u db))"
proof (cases "CreateUserRow now u db")
  case (Pair r db')
  show ?thesis
  proof (cases r)
    case (Inl e)
    with Pair have "db' = db" unfolding CreateUserRow_def by (simp add: in_tx_atomic)
    with Pair show ?thesis by simp
  next
    case (Inr u')
    with Pair have "CreateUserRow now u db = (Inr u', db')" by simp
    then show ?thesis by (rule create_user_rowE) (simp add: Pair content_same_def routing_same_def)
  qed
qed

lemma replace_content:
  assumes "map_order ord" and "store_inv db"
  shows "content_same db (snd (ReplaceConnections ord now i inbs db)) \<and>
    db_users (snd (ReplaceConnections ord now i inbs db)) = db_users db"
proof (cases "replace_connections_tx ord now i inbs db")
  case (Inl e)
  then show ?thesis by (simp add: ReplaceConnections_def in_tx_def)
next
  case (Inr r)
  then obtain db' where "replace_connections_tx ord now i inbs db = Inr ((), db')" by (cases r) simp
  from replace_connections_tx_Inr [OF assms(1) store_invD(2) [OF assms(2)] this] this show ?thesis
    by (auto simp: ReplaceConnections_def in_tx_def content_same_def routing_same_def)
qed

lemma describe_content:
  "store_inv db \<Longrightarrow> content_same db (snd (SetDescription i d db)) \<and>
     map ur_sub (db_users (snd (SetDescription i d db))) = map ur_sub (db_users db)"
  by (simp add: SetDescription_ok store_invD(2) set_description_def content_same_def routing_same_def comp_def
      if_distrib cong: if_cong)

lemma drop_user_coherent:
  assumes "store_inv db" and "configs_coherent yaml db"
  shows "configs_coherent yaml (snd (DeleteUserRow i db))"
proof -
  let ?d = "delete_configs (\<lambda>c. cf_user c = Some i) db"
  note inv = store_invD(1) [OF assms(1)]
  have "content_same ?d (delete_user_rows i db)"
    by (simp add: content_same_def routing_same_def delete_user_rows_def Let_def)
  then have "same_config cfg ?d (delete_user_rows i db)" for cfg
    using delete_user_rows_inv [OF inv, of i] delete_configs_inv [OF inv]
    by (intro content_same_reads) (simp_all add: db_inv_def)
  with delete_coherent [OF inv assms(2)] coherent_same DeleteUserRow_ok [OF inv] show ?thesis
    unfolding configs_coherent_def by (metis snd_conv)
qed

end
