(* ===== verification/AdminApi.thy ===== *)
theory AdminApi
  imports AdminConfig AdminUsers AdminRuns ConfigsCoherent
begin

text \<open>
  The admin API as one system: its state-changing operations behind the session check, as a step
  relation on the database and the history of panel calls, and the invariant of all its runs.
\<close>

section \<open>Requests\<close>

datatype api_req =
    SaveNode NodeSaveReq | RemoveNode int
  | SaveMihomo ConfigSaveReq | NewCustom int | RemoveCustom int
  | NewUser UserCreateParams | ChangeUser UserEditParams | RemoveUser int | RebuildUser int

text \<open>
  What stays the same over the runs of a deployment: the session secret, the codec of the inbound
  settings, the JSON and YAML libraries.
\<close>

record ('j, 'raw, 'e) deployment =
  dp_session :: Session
  dp_enc :: encode
  dp_dec :: decode
  dp_json :: "ConfigSaveReq \<Rightarrow> 'j + 'raw"
  dp_unjson :: "'raw \<Rightarrow> 'j + configDTO"
  dp_yaml :: "string \<Rightarrow> 'e + ymap"

definition on_db :: "(db \<Rightarrow> 'a reply \<times> db) \<Rightarrow> prov_state \<Rightarrow> 'a reply \<times> prov_state" where
  "on_db f st = (case f (pv_db st) of (r, db') \<Rightarrow> (r, st\<lparr>pv_db := db'\<rparr>))"

fun handle :: "('j, 'raw, 'e) deployment \<Rightarrow> prov_env \<Rightarrow> api_req \<Rightarrow> prov_state \<Rightarrow> string reply \<times> prov_state" where
  "handle dp en (SaveNode req) = on_db (NodeSave (dp_enc dp) (en_now en) req)"
| "handle dp en (RemoveNode i) = on_db (NodeDelete i)"
| "handle dp en (SaveMihomo req) = on_db (ConfigSave (dp_json dp) (dp_unjson dp) (dp_yaml dp) (en_now en) req)"
| "handle dp en (NewCustom u) = on_db (CustomCreate u (en_now en))"
| "handle dp en (RemoveCustom u) = on_db (CustomDelete u)"
| "handle dp en (NewUser req) = UserCreate en req"
| "handle dp en (ChangeUser req) = UserEdit en req"
| "handle dp en (RemoveUser i) = UserDelete en i"
| "handle dp en (RebuildUser i) = UserRecreate en i"

text \<open>
  What a request may find: panels that answer anything, any clock, any 16 random bytes, maps ranged
  over in any order.
\<close>

definition env_ok :: "('j, 'raw, 'e) deployment \<Rightarrow> prov_env \<Rightarrow> bool" where
  "env_ok dp en \<longleftrightarrow> map_order (en_ord en) \<and> 16 \<le> length (en_bytes en) \<and> en_dec en = dp_dec dp"

text \<open>A body that cannot be decoded is \<open>None\<close>.\<close>

record api_call =
  ac_cookie :: "string option"
  ac_body :: "api_req option"
  ac_env :: prov_env

definition serve :: "('j, 'raw, 'e) deployment \<Rightarrow> api_call \<Rightarrow> prov_state \<Rightarrow> string answer \<times> prov_state" where
  "serve dp c =
     serve_secured (dp_session dp) (en_now (ac_env c)) id (handle dp (ac_env c)) (ac_cookie c) (ac_body c)"

inductive api_step :: "('j, 'raw, 'e) deployment \<Rightarrow> prov_state \<Rightarrow> api_call \<Rightarrow> prov_state \<Rightarrow> bool" for dp where
  served: "env_ok dp (ac_env c) \<Longrightarrow> serve dp c st = (a, st') \<Longrightarrow> api_step dp st c st'"

inductive_cases api_stepE: "api_step dp st c st'"

definition fresh_start :: prov_state where "fresh_start = \<lparr>pv_db = empty_db, pv_calls = []\<rparr>"

section \<open>What the session check lets through\<close>

definition admitted :: "Session \<Rightarrow> int \<Rightarrow> string option \<Rightarrow> bool" where
  "admitted s now cookie \<longleftrightarrow> (\<exists>e. int64_range e \<and> now \<le> e \<and> cookie = Some (sign (se_hmac s) (se_secret s) e))"

lemma securityAdminSession_iff:
  "securityAdminSession s now cookie = Inr True \<longleftrightarrow> admitted s now cookie"
  by (auto simp: securityAdminSession_def HandleAdminSession_def Valid_def session_valid_iff admitted_def
      split: option.splits)

lemma serve_refused:
  assumes "\<not> admitted s now cookie"
  shows "serve_secured s now decode handler cookie body st = (Refused 401 ''Authorization required'', st)"
proof -
  have "securityAdminSession s now cookie \<noteq> Inr True" using assms by (simp add: securityAdminSession_iff)
  then show ?thesis
    by (auto simp: serve_secured_def refuse_def ErrorHandler_def split: sum.splits bool.splits)
qed

lemma serve_admitted:
  assumes "admitted s now cookie"
  shows "snd (serve_secured s now decode handler cookie body st) =
    (case decode body of None \<Rightarrow> st | Some req \<Rightarrow> snd (handler req st))"
proof -
  have "securityAdminSession s now cookie = Inr True" using assms by (simp add: securityAdminSession_iff)
  then show ?thesis
    by (auto simp: serve_secured_def split: option.splits prod.splits reply.splits)
qed

section \<open>The invariant of the runs\<close>

definition subs_set :: "db \<Rightarrow> bool" where "subs_set db \<longleftrightarrow> [] \<notin> ur_sub ` set (db_users db)"

definition api_inv :: "('j, 'raw, 'e) deployment \<Rightarrow> db \<Rightarrow> bool" where
  "api_inv dp db \<longleftrightarrow> store_inv db \<and> registry_valid (dp_enc dp) db \<and> configs_coherent (dp_yaml dp) db \<and> subs_set db"

lemma api_inv_empty: "api_inv dp empty_db"
  by (simp add: api_inv_def store_inv_empty registry_valid_empty configs_coherent_empty)
     (simp add: subs_set_def empty_db_def)

text \<open>The tables that the rest of the invariant speaks of are left alone.\<close>

lemma api_inv_kept:
  assumes "api_inv dp db" and "store_inv db'" and "content_same db db'"
    and "db_nodes db' = db_nodes db" "db_inbounds db' = db_inbounds db" "set (map ur_sub (db_users db')) \<subseteq> set (map ur_sub (db_users db))"
  shows "api_inv dp db'"
  using assms configs_coherent_same [of db db'] registry_valid_same [of db' db] by (auto simp: api_inv_def subs_set_def)

lemma api_inv_registry:
  assumes inv: "api_inv dp db" and "store_inv db'" "registry_valid (dp_enc dp) db'" and only: "registry_only db db'"
  shows "api_inv dp db'"
proof -
  have "content_same db db'" "db_users db' = db_users db" using only by (simp_all add: registry_only_def content_same_def)
  with assms configs_coherent_same [of db db'] show ?thesis by (auto simp: api_inv_def subs_set_def)
qed

end
