(* ===== verification/AdminApiFacts.thy ===== *)
theory AdminApiFacts
  imports AdminApi
begin

text \<open>
  What each handler does to the database, and that every request keeps the invariant of the API.
\<close>

section \<open>Nodes\<close>

lemma CreateNode_only: "registry_only db (snd (CreateNode enc now n db))"
proof (cases "create_node_tx enc now n db")
  case (Inl e)
  then show ?thesis by (simp add: CreateNode_def in_tx_def registry_only_refl)
next
  case (Inr r)
  then obtain i db' where "create_node_tx enc now n db = Inr (i, db')" by (cases r) simp
  from this create_node_tx_Inr [OF this] show ?thesis by (simp add: CreateNode_def in_tx_def registry_only_refl)
qed

lemma UpdateNode_only: "store_inv db \<Longrightarrow> registry_only db (snd (UpdateNode enc i n setToken db))"
proof (cases "fst (UpdateNode enc i n setToken db)")
  case (Inl e)
  then have "snd (UpdateNode enc i n setToken db) = db"
    by (auto simp: UpdateNode_def in_tx_def split: if_splits sum.splits)
  then show ?thesis by (simp add: registry_only_refl)
next
  case (Inr u)
  assume "store_inv db"
  moreover obtain db' where run: "UpdateNode enc i n setToken db = (Inr (), db')"
    using Inr by (cases "UpdateNode enc i n setToken db") simp
  ultimately show ?thesis using update_node_tx_Inr [of enc i n _ db db'] UpdateNode_Inr [OF run] store_invD(3) by auto
qed

lemma DeleteNode_only: "registry_only db (snd (DeleteNode i db))"
  using registry_only_refl registry_statements(6)
  by (auto simp: DeleteNode_def exec_Inr_iff split: sum.splits)

lemma NodeSave_db: "snd (NodeSave enc now req db) = snd (Save enc now (node_of_request req) db)"
  by (auto simp: NodeSave_def Let_def split: sum.splits prod.splits)

lemma NodeDelete_db: "snd (NodeDelete i db) = snd (DeleteNode i db)"
  by (auto simp: NodeDelete_def Delete_db [symmetric] split: sum.splits prod.splits node_error.splits)

lemma NodeSave_inv:
  assumes "api_inv dp db"
  shows "api_inv dp (snd (NodeSave (dp_enc dp) now req db))"
proof (rule api_inv_registry [OF assms])
  have inv: "store_inv db" "registry_valid (dp_enc dp) db" using assms by (simp_all add: api_inv_def)
  show "store_inv (snd (NodeSave (dp_enc dp) now req db))" using Save_inv [OF inv(1)] by (simp add: NodeSave_db)
  show "registry_valid (dp_enc dp) (snd (NodeSave (dp_enc dp) now req db))"
    using Save_valid [OF inv(2)] by (simp add: NodeSave_db)
  show "registry_only db (snd (NodeSave (dp_enc dp) now req db))"
    using CreateNode_only UpdateNode_only [OF inv(1)] registry_only_refl by (auto simp: NodeSave_db Save_db split: sum.splits)
qed

lemma NodeDelete_inv: "api_inv dp db \<Longrightarrow> api_inv dp (snd (NodeDelete i db))"
  unfolding NodeDelete_db
  by (rule api_inv_registry) (auto simp: api_inv_def DeleteNode_inv DeleteNode_valid DeleteNode_only)

section \<open>Configurations\<close>

lemma config_error_None:
  "config_error yaml draft = None \<Longrightarrow>
     (\<exists>m. yaml (cd_BaseYAML draft) = Inr m) \<and> ValidateProxyGroups (cd_Groups draft) = None \<and>
     ValidateRoutingRules (cd_Rules draft) (length (cd_Groups draft)) (length (cd_Providers draft)) = None"
  by (auto simp: config_error_def ValidateBaseYAML_def split: sum.splits)

lemma save_config_inv:
  assumes inv: "api_inv dp db" and valid: "config_error (dp_yaml dp) draft = None"
  shows "api_inv dp (snd (SaveMihomoConfig cfg draft db))"
proof (cases "save_tx cfg draft db")
  case (Inl e)
  with inv show ?thesis by (simp add: SaveMihomoConfig_def in_tx_def)
next
  case (Inr r)
  then obtain db' where tx: "save_tx cfg draft db = Inr ((), db')" by (cases r) simp
  then have run: "snd (SaveMihomoConfig cfg draft db) = db'" by (simp add: SaveMihomoConfig_def in_tx_def)
  have "registry db' = registry db" by (rule registry_save_tx [OF tx])
  moreover have "store_inv db'" using SaveMihomoConfig_inv [of db cfg draft] inv run by (simp add: api_inv_def)
  moreover have "configs_coherent (dp_yaml dp) db'"
    using save_coherent [OF tx] config_error_None [OF valid] inv by (auto simp: api_inv_def)
  ultimately show ?thesis
    using inv registry_valid_same [of db' db] by (simp add: run api_inv_def subs_set_def registry_def)
qed

lemma EnsureBase_same_tables:
  "db_users (snd (EnsureBaseConfigID kind now db)) = db_users db"
  "db_nodes (snd (EnsureBaseConfigID kind now db)) = db_nodes db"
  "db_inbounds (snd (EnsureBaseConfigID kind now db)) = db_inbounds db"
  by (auto simp: EnsureBaseConfigID_def Let_def exec_Inr_iff split: sum.splits option.splits)

lemma save_scope_inv:
  assumes "api_inv dp db"
  shows "api_inv dp (snd (save_scope userID now db))"
proof -
  have "api_inv dp (snd (EnsureBaseConfigID ConfigKindMihomo now db))"
    using assms EnsureBaseConfigID_inv [of db]
    by (intro api_inv_kept [OF assms _ ensure_base_content]) (simp_all add: api_inv_def EnsureBase_same_tables)
  with assms show ?thesis by (simp add: save_scope_def split: option.splits)
qed

lemma ConfigSave_db:
  "snd (ConfigSave json unjson yaml now req db) =
     (case bind_err (json req) (DecodeConfig unjson) of
        Inl _ \<Rightarrow> db
      | Inr draft \<Rightarrow>
          if config_error yaml draft \<noteq> None then db
          else (case save_scope (or_else (csr_UserId req) 0) now db of
                  (Inl e, db') \<Rightarrow> db'
                | (Inr cfg, db') \<Rightarrow> snd (SaveMihomoConfig cfg draft db')))"
  by (auto simp: ConfigSave_def split: sum.splits option.splits prod.splits)

lemma ConfigSave_inv:
  assumes "api_inv dp db"
  shows "api_inv dp (snd (ConfigSave (dp_json dp) (dp_unjson dp) (dp_yaml dp) now req db))"
proof -
  have "api_inv dp db'" if "save_scope (or_else (csr_UserId req) 0) now db = (r, db')" for r db'
    using save_scope_inv [OF assms, of "or_else (csr_UserId req) 0" now] that by simp
  with assms save_config_inv show ?thesis
    by (auto simp: ConfigSave_db split: sum.splits prod.splits)
qed

lemma registry_created:
  assumes "CreateUserConfig userID kind now db = (Inr i, db')"
  shows "registry db' = registry db"
proof -
  have "create_user_config_tx userID kind now db = Inr (i, db')"
    using assms by (auto simp: CreateUserConfig_def in_tx_def split: sum.splits)
  then show ?thesis
    by (auto simp: create_user_config_tx_def Let_def bind_err_Inr_iff exec_Inr_iff registry_statements_same
        dest!: registry_clone split: sum.splits option.splits)
qed

lemma CustomCreate_db: "snd (CustomCreate u now db) = snd (CreateUserConfig u ConfigKindMihomo now db)"
  by (auto simp: CustomCreate_def split: sum.splits prod.splits)

lemma CustomCreate_inv:
  assumes "api_inv dp db"
  shows "api_inv dp (snd (CustomCreate u now db))"
proof (cases "CreateUserConfig u ConfigKindMihomo now db")
  case (Pair r db')
  show ?thesis
  proof (cases r)
    case (Inl e)
    with Pair have "db' = db" unfolding CreateUserConfig_def by (simp add: in_tx_atomic)
    with Pair assms show ?thesis by (simp add: CustomCreate_db)
  next
    case (Inr i)
    with Pair have run: "CreateUserConfig u ConfigKindMihomo now db = (Inr i, db')" by simp
    have "store_inv db'" using CreateUserConfig_inv [of db u ConfigKindMihomo now] assms Pair by (simp add: api_inv_def)
    moreover have "configs_coherent (dp_yaml dp) db'" using create_coherent [OF run, of "dp_yaml dp"] assms by (simp add: api_inv_def)
    ultimately show ?thesis
      using registry_created [OF run] registry_valid_same [of db' db] assms
      by (simp add: CustomCreate_db Pair api_inv_def subs_set_def registry_def)
  qed
qed

lemma delete_configs_api:
  assumes "api_inv dp db"
  shows "api_inv dp (delete_configs P db)"
proof -
  have reg: "registry (delete_configs P db) = registry db" by (rule registry_statements_same(12))
  have inv: "store_inv db" "configs_coherent (dp_yaml dp) db" using assms by (simp_all add: api_inv_def)
  have "store_inv (delete_configs P db)"
    using delete_configs_inv [OF store_invD(1) [OF inv(1)]] registry_positive [OF reg] store_invD(3) [OF inv(1)]
    by (simp add: store_inv_def)
  with delete_coherent [OF store_invD(1) [OF inv(1)] inv(2)] reg assms
    registry_valid_same [of "delete_configs P db" db] show ?thesis
    by (simp add: api_inv_def subs_set_def registry_def)
qed

lemma CustomDelete_inv:
  assumes "api_inv dp db"
  shows "api_inv dp (snd (CustomDelete u db))"
proof -
  have "snd (CustomDelete u db) = snd (DeleteUserConfig u ConfigKindMihomo db)"
    by (auto simp: CustomDelete_def split: sum.splits prod.splits)
  moreover have "\<exists>P. snd (DeleteUserConfig u ConfigKindMihomo db) \<in> {db, delete_configs P db}"
    using assms by (intro DeleteUserConfig_db) (simp add: api_inv_def)
  ultimately show ?thesis using assms delete_configs_api by auto
qed

section \<open>Users\<close>

text \<open>The user handlers reach the database through the operations of the users repository only.\<close>

inductive user_writes :: "prov_env \<Rightarrow> db \<Rightarrow> db \<Rightarrow> bool" for en where
  untouched: "user_writes en db db"
| create_user: "us_SubID u = randID (take 16 (en_bytes en)) \<Longrightarrow> user_writes en db (snd (CreateUserRow (en_now en) u db))"
| connect_user: "user_writes en db (snd (ReplaceConnections (en_ord en) (en_now en) i inbs db))"
| reconnect: "user_writes en db (snd (SetDescription i d (snd (ReplaceConnections (en_ord en) (en_now en) i inbs db))))"
| drop_user: "user_writes en db (snd (DeleteUserRow i db))"

lemma created_sub: "create_checks en p st = (Inr (u, ts), h) \<Longrightarrow> us_SubID u = randID (take 16 (en_bytes en))"
  by (auto simp: create_checks_def Let_def split: sum.splits prod.splits option.splits)

lemma CreateUser_writes: "CreateUser en p st = (u, e, st') \<Longrightarrow> user_writes en (pv_db st) (pv_db st')"
proof -
  assume run: "CreateUser en p st = (u, e, st')"
  show ?thesis
  proof (cases "fst (create_checks en p st)")
    case (Inl x)
    with run show ?thesis by (auto simp: CreateUser_def untouched split: prod.splits)
  next
    case (Inr t)
    then obtain v ts h where c: "create_checks en p st = (Inr (v, ts), h)"
      by (cases "create_checks en p st"; cases t) auto
    obtain r d where r: "CreateUserRow (en_now en) v (pv_db st) = (r, d)" by fastforce
    show ?thesis
      using run create_user [OF created_sub [OF c], of "pv_db st"]
      by (auto simp: CreateUser_def c r Let_def split: sum.splits prod.splits)
  qed
qed

lemma EditUser_writes: "EditUser en p st = (e, st') \<Longrightarrow> user_writes en (pv_db st) (pv_db st')"
proof -
  assume run: "EditUser en p st = (e, st')"
  show ?thesis
  proof (cases "fst (edit_checks en p st)")
    case (Inl x)
    with run show ?thesis by (auto simp: EditUser_def untouched split: prod.splits)
  next
    case (Inr t)
    then obtain u desc desired h where c: "edit_checks en p st = (Inr (u, desc, desired), h)"
      by (cases "edit_checks en p st"; cases t) auto
    obtain r d where r: "ReplaceConnections (en_ord en) (en_now en) (us_ID u) (targetInboundIDs desired) (pv_db st) = (r, d)"
      by fastforce
    obtain q d' where q: "SetDescription (us_ID u) desc d = (q, d')" by fastforce
    show ?thesis
      using run connect_user [of en "pv_db st" "us_ID u" "targetInboundIDs desired"]
        reconnect [of en "pv_db st" "us_ID u" desc "targetInboundIDs desired"]
      by (auto simp: EditUser_def c r q Let_def split: sum.splits prod.splits)
  qed
qed

lemma DeleteUser_writes: "DeleteUser en i st = (e, st') \<Longrightarrow> user_writes en (pv_db st) (pv_db st')"
  using drop_user [of en "pv_db st" i]
  by (cases "DeleteUserRow i (pv_db st)")
     (auto simp: DeleteUser_def Let_def untouched split: sum.splits prod.splits option.splits)

lemma RecreateUser_writes: "RecreateUser en i st = (e, st') \<Longrightarrow> user_writes en (pv_db st) (pv_db st')"
  by (auto simp: RecreateUser_def Let_def untouched split: prod.splits option.splits)

lemma user_handler_writes:
  "user_writes en (pv_db st) (pv_db (snd (UserCreate en cp st)))"
  "user_writes en (pv_db st) (pv_db (snd (UserEdit en ep st)))"
  "user_writes en (pv_db st) (pv_db (snd (UserDelete en i st)))"
  "user_writes en (pv_db st) (pv_db (snd (UserRecreate en i st)))"
proof -
  have "snd (UserCreate en cp st) = snd (snd (CreateUser en cp st))"
    by (auto simp: UserCreate_def split: prod.splits option.splits entity_error.splits)
  with CreateUser_writes show "user_writes en (pv_db st) (pv_db (snd (UserCreate en cp st)))"
    by (metis prod.collapse)
  have "snd (UserEdit en ep st) = snd (EditUser en ep st)"
    by (auto simp: UserEdit_def split: prod.splits option.splits entity_error.splits)
  with EditUser_writes show "user_writes en (pv_db st) (pv_db (snd (UserEdit en ep st)))"
    by (metis prod.collapse)
  have "snd (UserDelete en i st) = snd (DeleteUser en i st)"
    by (auto simp: UserDelete_def split: prod.splits option.splits)
  with DeleteUser_writes show "user_writes en (pv_db st) (pv_db (snd (UserDelete en i st)))"
    by (metis prod.collapse)
  have "snd (UserRecreate en i st) = snd (RecreateUser en i st)"
    by (auto simp: UserRecreate_def split: prod.splits option.splits)
  with RecreateUser_writes show "user_writes en (pv_db st) (pv_db (snd (UserRecreate en i st)))"
    by (metis prod.collapse)
qed

lemma randID_nonempty: "bytes \<noteq> [] \<Longrightarrow> randID bytes \<noteq> []"
  by (simp add: randID_def)

lemma create_row_tables:
  "db_nodes (snd (CreateUserRow now u db)) = db_nodes db \<and> db_inbounds (snd (CreateUserRow now u db)) = db_inbounds db \<and>
     set (map ur_sub (db_users (snd (CreateUserRow now u db)))) \<subseteq> insert (us_SubID u) (set (map ur_sub (db_users db)))"
proof (cases "CreateUserRow now u db")
  case (Pair r db')
  show ?thesis
  proof (cases r)
    case (Inl e)
    with Pair have "db' = db" unfolding CreateUserRow_def by (simp add: in_tx_atomic)
    with Pair show ?thesis by auto
  next
    case (Inr u')
    with Pair have "CreateUserRow now u db = (Inr u', db')" by simp
    then show ?thesis by (rule create_user_rowE) (auto simp: Pair)
  qed
qed

lemma replace_tables:
  assumes "map_order ord" and "store_inv db"
  shows "db_nodes (snd (ReplaceConnections ord now i inbs db)) = db_nodes db \<and>
    db_inbounds (snd (ReplaceConnections ord now i inbs db)) = db_inbounds db"
proof (cases "replace_connections_tx ord now i inbs db")
  case (Inl e)
  then show ?thesis by (simp add: ReplaceConnections_def in_tx_def)
next
  case (Inr r)
  then obtain db' where "replace_connections_tx ord now i inbs db = Inr ((), db')" by (cases r) simp
  from replace_connections_tx_Inr [OF assms(1) store_invD(2) [OF assms(2)] this] this show ?thesis
    by (auto simp: ReplaceConnections_def in_tx_def)
qed

lemma user_create_inv:
  assumes inv: "api_inv dp db" and "us_SubID u \<noteq> []"
  shows "api_inv dp (snd (CreateUserRow now u db))"
proof -
  note t = create_row_tables [of now u db]
  have "store_inv (snd (CreateUserRow now u db))"
    using inv by (intro users.create_inv) (simp add: api_inv_def)
  moreover from this have "configs_coherent (dp_yaml dp) (snd (CreateUserRow now u db))"
    using configs_coherent_same [OF create_user_content [of db now u], of "dp_yaml dp"] inv by (simp add: api_inv_def)
  moreover have "subs_set (snd (CreateUserRow now u db))"
    using t inv assms(2) by (auto simp: api_inv_def subs_set_def)
  ultimately show ?thesis using t inv registry_valid_same [of "snd (CreateUserRow now u db)" db] by (simp add: api_inv_def)
qed

lemma replace_inv:
  assumes inv: "api_inv dp db" and ord: "map_order ord"
  shows "api_inv dp (snd (ReplaceConnections ord now i inbs db))"
proof (rule api_inv_kept [OF inv])
  have s: "store_inv db" using inv by (simp add: api_inv_def)
  show "store_inv (snd (ReplaceConnections ord now i inbs db))" by (rule users.connect_inv [OF s ord])
qed (use inv replace_content [OF ord, of db] replace_tables [OF ord, of db] in \<open>auto simp: api_inv_def\<close>)

lemma describe_inv:
  assumes inv: "api_inv dp db"
  shows "api_inv dp (snd (SetDescription i d db))"
proof (rule api_inv_kept [OF inv])
  have s: "store_inv db" using inv by (simp add: api_inv_def)
  note r = SetDescription_inv [OF s, of i d] and c = describe_content [OF s, of i d]
  show "store_inv (snd (SetDescription i d db))" "content_same db (snd (SetDescription i d db))"
    "set (map ur_sub (db_users (snd (SetDescription i d db)))) \<subseteq> set (map ur_sub (db_users db))"
    using r c by simp_all
  show "db_nodes (snd (SetDescription i d db)) = db_nodes db" "db_inbounds (snd (SetDescription i d db)) = db_inbounds db"
    using r by (simp_all add: set_description_def)
qed

lemma drop_user_inv:
  assumes inv: "api_inv dp db"
  shows "api_inv dp (snd (DeleteUserRow i db))"
proof -
  have s: "store_inv db" using inv by (simp add: api_inv_def)
  note d = DeleteUserRow_inv [OF s, of i] and t = delete_user_rows_tables [OF store_invD(1) [OF s], of i]
  have "subs_set (snd (DeleteUserRow i db))" using inv d t(1) by (auto simp: api_inv_def subs_set_def)
  moreover have "registry_valid (dp_enc dp) (snd (DeleteUserRow i db))"
    using inv d t(3,4) registry_valid_same [of "delete_user_rows i db" db] by (simp add: api_inv_def)
  moreover have "configs_coherent (dp_yaml dp) (snd (DeleteUserRow i db))"
    using inv by (intro drop_user_coherent) (simp_all add: api_inv_def)
  ultimately show ?thesis using d by (simp add: api_inv_def)
qed

lemma user_writes_inv: "user_writes en db db' \<Longrightarrow> env_ok dp en \<Longrightarrow> api_inv dp db \<Longrightarrow> api_inv dp db'"
proof (induction rule: user_writes.induct)
  case (create_user u db)
  then have "us_SubID u \<noteq> []" by (auto simp: env_ok_def intro!: randID_nonempty)
  with create_user show ?case by (intro user_create_inv)
qed (auto simp: env_ok_def intro: replace_inv describe_inv drop_user_inv)

section \<open>Every request\<close>

lemma handle_inv:
  assumes "env_ok dp en" and "api_inv dp (pv_db st)"
  shows "api_inv dp (pv_db (snd (handle dp en req st)))"
proof -
  have on: "pv_db (snd (on_db f st)) = snd (f (pv_db st))" for f :: "db \<Rightarrow> string reply \<times> db"
    by (simp add: on_db_def split: prod.split)
  show ?thesis
    using assms user_writes_inv [OF user_handler_writes(1)] user_writes_inv [OF user_handler_writes(2)]
      user_writes_inv [OF user_handler_writes(3)] user_writes_inv [OF user_handler_writes(4)]
    by (cases req)
       (simp_all add: on NodeSave_inv NodeDelete_inv ConfigSave_inv CustomCreate_inv CustomDelete_inv)
qed

lemma serve_inv:
  assumes "env_ok dp (ac_env c)" and "api_inv dp (pv_db st)"
  shows "api_inv dp (pv_db (snd (serve dp c st)))"
proof (cases "admitted (dp_session dp) (en_now (ac_env c)) (ac_cookie c)")
  case True
  with assms handle_inv [OF assms] show ?thesis
    by (auto simp: serve_def serve_admitted split: option.splits)
next
  case False
  with assms(2) show ?thesis by (simp add: serve_def serve_refused)
qed

interpretation api: safe_system "api_step dp" fresh_start "\<lambda>st. api_inv dp (pv_db st)" for dp
proof unfold_locales
  show "api_inv dp (pv_db fresh_start)" by (simp add: fresh_start_def api_inv_empty)
  show "api_step dp s x t \<Longrightarrow> api_inv dp (pv_db s) \<Longrightarrow> api_inv dp (pv_db t)" for s x t
    by (erule api_stepE) (metis serve_inv snd_conv)
qed

end
