(* ===== verification/DeliveryProperties.thy ===== *)
theory DeliveryProperties
  imports Delivery FleetProperties PipelineFacts ConfigsCoherent
begin

text \<open>
  Delivery serves a subscription to its token and to no other, the copyable links lead to what the
  handler serves, and a deeplink carries its two values unchanged.
\<close>

section \<open>Tokens\<close>

lemma length_EncodeToString: "length (EncodeToString bytes) = 2 * length bytes"
  by (induction bytes) (simp_all add: EncodeToString_def hex_byte_def)

lemma length_Make: "length (hmac secret subID) = 32 \<Longrightarrow> length (Make hmac secret subID) = 24"
  by (simp add: Make_def token_length_def length_EncodeToString)

section \<open>The handler\<close>

lemma find_sub:
  assumes "store_inv db" and "r \<in> set (db_users db)"
  shows "IDBySubID (ur_sub r) db = Some (ur_id r)"
proof -
  have "distinct (map ur_sub (db_users db))" using store_invD(2) [OF assms(1)] by (simp add: constraint_defs)
  then have "find (\<lambda>q. ur_sub q = ur_sub r) (db_users db) = Some r"
    by (rule find_unique [OF _ refl assms(2) refl])
  then show ?thesis by (simp add: IDBySubID_def)
qed

lemma match_sub_None: "(\<forall>r \<in> set (db_users db). Make hmac secret (ur_sub r) \<noteq> token) \<Longrightarrow>
    match_sub hmac secret (SubIDs db) token = []"
proof -
  assume "\<forall>r \<in> set (db_users db). Make hmac secret (ur_sub r) \<noteq> token"
  then have "find (\<lambda>i. Match hmac secret i token) (SubIDs db) = None"
    by (auto simp: find_None_iff SubIDs_def Match_def)
  then show ?thesis by (simp add: match_sub_def)
qed

lemma match_sub_Some:
  assumes "r \<in> set (db_users db)" and "Make hmac secret (ur_sub r) = token"
  shows "\<exists>q \<in> set (db_users db). match_sub hmac secret (SubIDs db) token = ur_sub q \<and> Make hmac secret (ur_sub q) = token"
proof -
  have "find (\<lambda>i. Match hmac secret i token) (SubIDs db) \<noteq> None"
    using assms by (auto simp: find_None_iff SubIDs_def Match_def)
  then obtain i where i: "find (\<lambda>i. Match hmac secret i token) (SubIDs db) = Some i" by auto
  from find_SomeD [OF i] obtain q where "q \<in> set (db_users db)" "i = ur_sub q" "Make hmac secret i = token"
    by (auto simp: SubIDs_def Match_def)
  with i show ?thesis by (auto simp: match_sub_def)
qed

text \<open>The subscriber the handler renders for a subscription id.\<close>

definition served_subscriber :: "Fleet \<Rightarrow> string \<Rightarrow> Subscriber" where
  "served_subscriber fl subID = (case Fleet_Sub (Some fl) subID of None \<Rightarrow> new_subscriber subID | Some s \<Rightarrow> s)"

lemma Sub_owner:
  assumes inv: "store_inv db" and r: "r \<in> set (db_users db)" and sub: "ur_sub r \<noteq> []"
    and tok: "Make hmac secret (ur_sub r) \<noteq> []"
    and only: "\<forall>q \<in> set (db_users db). Make hmac secret (ur_sub q) = Make hmac secret (ur_sub r) \<longrightarrow> ur_sub q = ur_sub r"
    and engine: "renderers kind = Some renderer"
  shows "Sub hmac quote renderers secret (Inr fl) kind (Make hmac secret (ur_sub r)) db =
    bind_err (renderer (served_subscriber fl (ur_sub r)) (configID (ur_id r) kind db) db) (\<lambda>(body, meta).
      Inr (SubOK (sub_headers quote (served_subscriber fl (ur_sub r)) body meta)))"
proof -
  from match_sub_Some [OF r refl, of hmac secret] only
  have "match_sub hmac secret (SubIDs db) (Make hmac secret (ur_sub r)) = ur_sub r" by auto
  with find_sub [OF inv r] sub tok engine show ?thesis
    by (simp add: Sub_def Let_def served_subscriber_def)
qed

section \<open>Titles of links\<close>

lemma catalogKinds_eq: "catalogKinds = [''mihomo'']"
  by (simp add: catalogKinds_def catalog_def ConfigKindMihomo_def)

lemma custom_iff: "i \<in> customUsers kind db \<longleftrightarrow> UserConfigID i kind db \<noteq> None"
  by (force simp: customUsers_def UserConfigUserIDs_def UserConfigID_def find_None_iff)

lemma titlesByUser_eq:
  assumes "u \<in> set users"
  shows "titlesByUser users db (us_ID u) ''mihomo'' =
    (if us_ID u \<in> customUsers ''mihomo'' db then userTitle (us_ID u) ''mihomo'' db else baseTitle ''mihomo'' db)"
proof -
  let ?t = "\<lambda>i. if i \<in> customUsers ''mihomo'' db then userTitle i ''mihomo'' db else baseTitle ''mihomo'' db"
  have "us_ID u \<in> us_ID ` set us \<Longrightarrow>
      fold (\<lambda>u out. out(us_ID u := (out (us_ID u))(''mihomo'' := ?t (us_ID u)))) us out (us_ID u) ''mihomo'' = ?t (us_ID u)"
    for us :: "User list" and out
  proof (induction us rule: rev_induct)
    case (snoc v us)
    then show ?case by (cases "us_ID v = us_ID u") auto
  qed simp
  with assms show ?thesis by (simp add: titlesByUser_def catalogKinds_eq)
qed

lemma title_effective:
  assumes "u \<in> set users" and "configID (us_ID u) ''mihomo'' db \<noteq> 0"
  shows "titlesByUser users db (us_ID u) ''mihomo'' = pf_Title (Profile_of (configID (us_ID u) ''mihomo'' db) db)"
  using assms(2) by (auto simp: titlesByUser_eq [OF assms(1)] custom_iff configID_def userTitle_def baseTitle_def
      link_title_def split: option.splits)

section \<open>Query strings\<close>

definition hex_value :: "char \<Rightarrow> nat" where
  "hex_value c = (if is_digit c then of_char c - 48 else of_char c - 55)"

text \<open>How a query value is decoded by its reader.\<close>

fun query_unescape :: "string \<Rightarrow> string" where
  "query_unescape [] = []"
| "query_unescape (c # s) =
     (if c = CHR ''+'' then CHR '' '' # query_unescape s
      else if c = CHR ''%'' then
        (case s of h # l # t \<Rightarrow> char_of (hex_value h * 16 + hex_value l) # query_unescape t | _ \<Rightarrow> [])
      else c # query_unescape s)"

lemma hex_value_upper: "n < 16 \<Longrightarrow> hex_value (hex_upper n) = n"
proof -
  have "\<forall>n \<in> set [0..<16]. hex_value (hex_upper n) = n" by code_simp
  then show "n < 16 \<Longrightarrow> hex_value (hex_upper n) = n" by simp
qed

lemma unescape_char: "query_unescape (escape_char c @ s) = c # query_unescape s"
proof (cases "query_unreserved c")
  case True
  then have "c \<noteq> CHR ''+''" "c \<noteq> CHR ''%''" by (auto simp: query_unreserved_def char_class_defs less_eq_char_def)
  with True show ?thesis by (simp add: escape_char_def)
next
  case False
  have "of_char c div 16 < (16 :: nat)" "of_char c mod 16 < (16 :: nat)"
    using nat_of_char_less_256 [of c] by (simp_all add: less_mult_imp_div_less)
  then have "char_of (hex_value (hex_upper (of_char c div 16)) * 16 + hex_value (hex_upper (of_char c mod 16))) = c"
    by (simp add: hex_value_upper)
  with False show ?thesis by (simp add: escape_char_def)
qed

lemma unescape_escape: "query_unescape (QueryEscape s) = s"
  by (induction s) (simp_all add: QueryEscape_def unescape_char)

lemma escape_no_amp: "CHR ''&'' \<notin> set (QueryEscape s)" "CHR ''#'' \<notin> set (QueryEscape s)"
proof -
  have hex: "hex_upper n \<noteq> CHR ''&'' \<and> hex_upper n \<noteq> CHR ''#''" if "n < 16" for n
  proof -
    have "\<forall>n \<in> set [0..<16]. hex_upper n \<noteq> CHR ''&'' \<and> hex_upper n \<noteq> CHR ''#''" by code_simp
    with that show ?thesis by simp
  qed
  have "CHR ''&'' \<notin> set (escape_char c) \<and> CHR ''#'' \<notin> set (escape_char c)" for c
  proof -
    have "of_char c div 16 < (16 :: nat)" "of_char c mod 16 < (16 :: nat)"
      using nat_of_char_less_256 [of c] by (simp_all add: less_mult_imp_div_less)
    with hex [of "of_char c div 16"] hex [of "of_char c mod 16"] show ?thesis
      by (auto simp: escape_char_def query_unreserved_def char_class_defs less_eq_char_def)
  qed
  then show "CHR ''&'' \<notin> set (QueryEscape s)" "CHR ''#'' \<notin> set (QueryEscape s)"
    by (auto simp: QueryEscape_def)
qed


text \<open>Splitting a query at its ampersands.\<close>

fun split_amp :: "string \<Rightarrow> string list" where
  "split_amp [] = [[]]"
| "split_amp (c # s) = (if c = CHR ''&'' then [] # split_amp s else (c # hd (split_amp s)) # tl (split_amp s))"

lemma split_amp_not_Nil: "split_amp s \<noteq> []"
  by (cases s) auto

lemma split_amp_plain: "CHR ''&'' \<notin> set a \<Longrightarrow> split_amp (a @ CHR ''&'' # s) = a # split_amp s"
  by (induction a) auto

lemma split_amp_last: "CHR ''&'' \<notin> set a \<Longrightarrow> split_amp a = [a]"
  by (induction a) auto

section \<open>Properties\<close>

text \<open>A message authentication code of 32 bytes that tells any two short messages apart.\<close>

definition demo_mac :: mac where "demo_mac secret m = take 32 (m @ replicate 32 (CHR ''x''))"

definition demo_engine :: "unit engine" where
  "demo_engine sub cfg db = Inr (sb_SubID sub, \<lparr>rm_ContentType = [], rm_Filename = ''f'', rm_ProfileTitle = ''t'',
     rm_UpdateInterval = cfg\<rparr>)"



text \<open>
  C26: Every other token is unknown: when each stored user has a subscription id, the answer is "not
  found" exactly when the engine is not registered, the token is empty or no stored user has that
  token; no panel client outside the store is ever served.
\<close>
theorem unknown_token_not_found:
  assumes "store_inv db" and "\<forall>r \<in> set (db_users db). ur_sub r \<noteq> []"
  shows "Sub hmac quote renderers secret fleet kind token db = Inr not_found \<longleftrightarrow>
    renderers kind = None \<or> token = [] \<or> (\<forall>r \<in> set (db_users db). Make hmac secret (ur_sub r) \<noteq> token)"
proof (cases "renderers kind = None \<or> token = [] \<or> (\<forall>r \<in> set (db_users db). Make hmac secret (ur_sub r) \<noteq> token)")
  case True
  then show ?thesis by (auto simp: Sub_def match_sub_None split: option.split)
next
  case False
  then obtain renderer r where r: "renderers kind = Some renderer" "token \<noteq> []" "r \<in> set (db_users db)"
      "Make hmac secret (ur_sub r) = token" by auto
  from match_sub_Some [OF r(3,4)] obtain q where q: "q \<in> set (db_users db)"
      "match_sub hmac secret (SubIDs db) token = ur_sub q" by blast
  have "Sub hmac quote renderers secret fleet kind token db \<noteq> Inr not_found"
    using r(1,2) q assms(2) find_sub [OF assms(1) q(1)]
    by (auto simp: Sub_def Let_def not_found_def bind_err_Inr_iff split: sum.split)
  with False show ?thesis by blast
qed

theorem unknown_token_not_found_witness:
  "Sub demo_mac id [''mihomo'' \<mapsto> demo_engine] ''k'' (Inl ''down'') ''mihomo'' ''00'' sample_db = Inr not_found"
proof -
  have "\<forall>r \<in> set (db_users sample_db). Make demo_mac ''k'' (ur_sub r) \<noteq> ''00''"
    by (simp add: sample_db_def, code_simp)
  then show ?thesis
    using unknown_token_not_found [OF sample_store_inv, of demo_mac id "[''mihomo'' \<mapsto> demo_engine]" "''k''" "Inl ''down''" "''mihomo''" "''00''"]
    by (simp add: sample_db_def)
qed

text \<open>
  The links shown for a user are the subscription URL, with the token the handler resolves to that
  user, and the app deeplink labelled with the profile title of the configuration the handler
  renders for the user: the custom one when it exists, else the base.
\<close>
theorem links_match_delivery:
  assumes "u \<in> set users" and "distinct (map us_ID users)" and "configID (us_ID u) ''mihomo'' db \<noteq> 0"
  shows "Links hmac secret publicBase users db (us_ID u) =
    (let url = TrimRightSlash publicBase @ ''/sub/mihomo/'' @ Make hmac secret (us_SubID u)
     in Some [\<lparr>sl_Title = ''Mihomo'', sl_Value = url\<rparr>,
              \<lparr>sl_Title = ''Clashmi'', sl_Value = clashmiDeeplink url
                 (pf_Title (Profile_of (configID (us_ID u) ''mihomo'' db) db))\<rparr>])"
proof -
  from assms(1) have "users \<noteq> []" by auto
  then show ?thesis
    by (simp add: Links_def Let_def fill_map_distinct [OF assms(2,1)])
      (simp add: catalog_def ConfigKindMihomo_def rawURL_def sub_url_def title_effective [OF assms(1,3)])
qed

theorem links_match_delivery_witness:
  "Links demo_mac ''k'' ''https://s.org/'' (ListUsers sample_db) sample_db 6 =
    (let url = ''https://s.org'' @ ''/sub/mihomo/'' @ Make demo_mac ''k'' ''t''
     in Some [\<lparr>sl_Title = ''Mihomo'', sl_Value = url\<rparr>, \<lparr>sl_Title = ''Clashmi'', sl_Value = clashmiDeeplink url []\<rparr>])"
proof -
  let ?bob = "\<lparr>us_ID = 6, us_Name = ''bob'', us_SubID = ''t'', us_Description = None, us_CreatedAt = 0, us_Connections = []\<rparr>"
  have users: "\<exists>ann. ListUsers sample_db = [ann, ?bob] \<and> us_ID ann = 5"
    by (simp add: ListUsers_def loadConnections_def scanConnections_def joined_connections_def user_of_row_def
        sample_db_def empty_db_def less_list_code less_eq_char_def)
  then have u: "?bob \<in> set (ListUsers sample_db)" "distinct (map us_ID (ListUsers sample_db))" by auto
  have cfg: "configID 6 ''mihomo'' sample_db = 1"
    by (simp add: configID_def UserConfigID_def BaseConfigID_def sample_db_def)
  have title: "pf_Title (Profile_of 1 sample_db) = []" by (simp add: Profile_of_def sample_db_def empty_db_def)
  have base: "TrimRightSlash ''https://s.org/'' = ''https://s.org''" by code_simp
  from links_match_delivery [OF u, of sample_db demo_mac "''k''" "''https://s.org/''"] show ?thesis
    by (simp add: cfg title base)
qed

text \<open>
  A deeplink cannot be broken by its values: split at its ampersands, the query of the Clashmi
  deeplink has exactly the three parameters url, name and overwrite, and the first two decode to the
  subscription URL and the profile title, whatever characters they contain.
\<close>
theorem deeplink_carries_values:
  "\<exists>q. clashmiDeeplink subURL title = ''clashmi://install-config?'' @ q \<and>
     split_amp q = [''url='' @ QueryEscape subURL, ''name='' @ QueryEscape title, ''overwrite=false''] \<and>
     query_unescape (QueryEscape subURL) = subURL \<and> query_unescape (QueryEscape title) = title \<and>
     CHR ''#'' \<notin> set q"
proof -
  let ?q = "(''url='' @ QueryEscape subURL) @ CHR ''&'' # (''name='' @ QueryEscape title) @ CHR ''&'' # ''overwrite=false''"
  let ?r = "(''name='' @ QueryEscape title) @ CHR ''&'' # ''overwrite=false''"
  have u: "CHR ''&'' \<notin> set (''url='' @ QueryEscape subURL)" and t: "CHR ''&'' \<notin> set (''name='' @ QueryEscape title)"
    by (simp_all add: escape_no_amp)
  have "split_amp ?q = (''url='' @ QueryEscape subURL) # split_amp ?r" by (rule split_amp_plain [OF u])
  also have "split_amp ?r = (''name='' @ QueryEscape title) # split_amp ''overwrite=false''" by (rule split_amp_plain [OF t])
  also have "split_amp ''overwrite=false'' = [''overwrite=false'']" by code_simp
  finally have "split_amp ?q = [''url='' @ QueryEscape subURL, ''name='' @ QueryEscape title, ''overwrite=false'']" .
  then show ?thesis
    by (intro exI [of _ ?q] conjI) (simp_all add: clashmiDeeplink_def unescape_escape escape_no_amp del: split_amp.simps)
qed

section \<open>Rendering and answering together\<close>

text \<open>
  Rendering and answering together: a coherent configuration of a user of the store is served
  under the user's token as the document rendered from it, without a logged error.
\<close>

lemma served_proxies_wf:
  assumes "live_fleet dec client db = Inr fl"
  shows "\<forall>p \<in> set (sb_Proxies (served_subscriber fl sid)). proxy_wf p"
proof (cases "Fleet_Sub (Some fl) sid")
  case None
  then show ?thesis by (simp add: served_subscriber_def)
next
  case (Some s)
  with fetched_proxy_wf [OF assms [unfolded live_fleet_def] Some] show ?thesis
    by (simp add: served_subscriber_def)
qed

lemma coherent_renders:
  assumes "config_coherent yaml cfg db" and "Rules cfg db = Some rules"
    and "\<forall>p \<in> set (sb_Proxies sub). proxy_wf p"
  shows "\<exists>doc. render_document yaml sub (stored_options cfg db rules publicBase) = Inr (doc, [])"
  using render_coherent [of "stored_options cfg db rules publicBase" yaml sub] assms
  by (auto simp: stored_options_def config_coherent_def parts_coherent_def base_parses_def)

lemma rendered_delivered:
  assumes inv: "store_inv db" and r: "r \<in> set (db_users db)" and sub: "ur_sub r \<noteq> []"
    and len: "\<forall>m. length (hmac secret m) = 32"
    and only: "\<forall>q \<in> set (db_users db). Make hmac secret (ur_sub q) = Make hmac secret (ur_sub r) \<longrightarrow> ur_sub q = ur_sub r"
    and cfg: "configID (ur_id r) ''mihomo'' db = cfg" and rules: "Rules cfg db = Some rules"
    and doc: "render_document unmarshal (served_subscriber fl (ur_sub r)) (stored_options cfg db rules publicBase) = Inr (doc, [])"
    and body: "marshal doc = Inr body"
  shows "\<exists>h. Sub hmac quote (engines unmarshal marshal publicBase) secret (Inr fl) ''mihomo''
      (Make hmac secret (ur_sub r)) db = Inr (SubOK h) \<and> sh_Response h = body \<and>
    sh_ProfileTitle h = ''base64:'' @ Base64 (pf_Title (Profile_of cfg db))"
proof -
  have "length (Make hmac secret (ur_sub r)) = 24" using length_Make len by blast
  then have tok: "Make hmac secret (ur_sub r) \<noteq> []" by auto
  have engine: "engines unmarshal marshal publicBase ''mihomo'' = Some (MihomoRender unmarshal marshal publicBase)"
    by (simp add: engines_def ConfigKindMihomo_def)
  have "MihomoRender unmarshal marshal publicBase (served_subscriber fl (ur_sub r)) cfg db =
      Inr (body, \<lparr>rm_ContentType = ''text/yaml; charset=utf-8'', rm_Filename = pf_Filename (Profile_of cfg db),
        rm_ProfileTitle = pf_Title (Profile_of cfg db), rm_UpdateInterval = pf_UpdateInterval (Profile_of cfg db)\<rparr>)"
    by (simp add: MihomoRender_def options_def rules Render_def doc body Let_def)
  with Sub_owner [of db r hmac secret "engines unmarshal marshal publicBase" "''mihomo''" _ quote fl,
      OF inv r sub tok only engine] cfg show ?thesis by (auto simp: sub_headers_def)
qed

end
