(* ===== verification/ApiSamples.thy ===== *)
theory ApiSamples
  imports AdminApiFacts DeliveryProperties
begin

text \<open>
  A sample deployment and a run of it: a node is registered, a user is created on it and a
  configuration is saved; the inputs of the witnesses.
\<close>

section \<open>A deployment\<close>

text \<open>A codec of the inbound settings: every character is marked, a zero byte ends a field.\<close>

definition quoted :: "string \<Rightarrow> string" where
  "quoted s = concat (map (\<lambda>c. [CHR ''x'', c]) s) @ [CHR 0x00]"

fun unquoted :: "string \<Rightarrow> string \<times> string" where
  "unquoted (a # c # s) = (if a = CHR ''x'' then (case unquoted s of (t, r) \<Rightarrow> (c # t, r)) else ([], c # s))"
| "unquoted s = ([], [])"

definition field_enc :: encode where
  "field_enc h = quoted (hs_Password h) @ quoted (hs_Obfs h) @ quoted (hs_ObfsPassword h) @ quoted (hs_SNI h) @
     quoted (hs_Up h) @ quoted (hs_Down h)"

definition field_dec :: decode where
  "field_dec s =
     (let (a, s) = unquoted s; (b, s) = unquoted s; (c, s) = unquoted s; (d, s) = unquoted s; (e, s) = unquoted s;
          (f, s) = unquoted s
      in Some \<lparr>hs_Password = a, hs_Obfs = b, hs_ObfsPassword = c, hs_SNI = d, hs_Up = e, hs_Down = f\<rparr>)"

lemma unquoted_quoted: "unquoted (quoted t @ s) = (t, s)"
  by (induction t) (cases s; simp add: quoted_def)+

lemma field_codec: "field_enc h \<noteq> [] \<and> field_dec (field_enc h) = Some h"
proof -
  have "quoted t \<noteq> []" for t by (simp add: quoted_def)
  moreover have "unquoted (quoted t) = (t, [])" for t using unquoted_quoted [of t "[]"] by simp
  ultimately show ?thesis by (simp add: field_enc_def field_dec_def unquoted_quoted)
qed

definition demo_yaml :: "string \<Rightarrow> unit + ymap" where "demo_yaml s = Inr [(''mode'', YStr s)]"

definition demo_deployment :: "(unit, configDTO, unit) deployment" where
  "demo_deployment =
     \<lparr>dp_session = \<lparr>se_hmac = demo_mac, se_secret = ''k''\<rparr>, dp_enc = field_enc, dp_dec = field_dec,
      dp_json = Inr \<circ> csr_Config, dp_unjson = Inr, dp_yaml = demo_yaml\<rparr>"

definition demo_env :: prov_env where
  "demo_env =
     \<lparr>en_panels = \<lparr>pn_list = \<lambda>h t. Inr [], pn_add = \<lambda>h t is cs. None, pn_del = \<lambda>h t email. None\<rparr>,
      en_genUUID = \<lambda>h. ''22222222-2222-4222-8222-222222222222'',
      en_bytes = replicate 16 (CHR ''A''), en_ord = id, en_now = 9, en_dec = field_dec\<rparr>"

section \<open>Requests of a signed-in administrator\<close>

definition demo_cookie :: string where "demo_cookie = ck_Value (IssueCookie demo_mac ''k'' 5)"

definition demo_call :: "api_req \<Rightarrow> api_call" where
  "demo_call req = \<lparr>ac_cookie = Some demo_cookie, ac_body = Some req, ac_env = demo_env\<rparr>"

definition demo_node_req :: NodeSaveReq where
  "demo_node_req =
     \<lparr>ns_ID = None, ns_Name = '' de '', ns_VpnHost = ''vpn.example.org'', ns_PanelBaseURL = ''https://p.org:2053'',
      ns_PanelBasePath = ''x'', ns_Token = Some ''t'',
      ns_Inbounds = [\<lparr>ii_ID = None, ii_Name = ''main'', ii_Port = 443, ii_Kind = None, ii_Hysteria2 = None\<rparr>,
        \<lparr>ii_ID = None, ii_Name = '''', ii_Port = 0, ii_Kind = None, ii_Hysteria2 = None\<rparr>,
        \<lparr>ii_ID = None, ii_Name = ''hy'', ii_Port = 8443, ii_Kind = Some ''hysteria2'',
         ii_Hysteria2 = Some (no_hysteria2\<lparr>hi_Password := Some ''pw''\<rparr>)\<rparr>]\<rparr>"

definition demo_config_req :: ConfigSaveReq where
  "demo_config_req =
     \<lparr>csr_Config = \<lparr>cfd_BaseYAML = ''mode: rule'',
        cfd_Groups = [\<lparr>grd_Name = ''auto'', grd_Type = ''select'', grd_URL = [], grd_Interval = None,
          grd_Tolerance = None, grd_Lazy = None,
          grd_Members = [\<lparr>prd_Kind = ''inbound'', prd_InboundID = Some 1, prd_GroupIdx = None\<rparr>,
             \<lparr>prd_Kind = ''direct'', prd_InboundID = None, prd_GroupIdx = None\<rparr>]\<rparr>],
        cfd_Rules = [ruleDTO ''MATCH'' None None None (Some \<lparr>prd_Kind = ''group'', prd_InboundID = None, prd_GroupIdx = Some 0\<rparr>) []],
        cfd_Providers = [], cfd_ProfileTitle = ''t'', cfd_Filename = ''f'', cfd_ProfileUpdateInterval = 12\<rparr>,
      csr_UserId = None\<rparr>"

definition demo_user_req :: UserCreateParams where
  "demo_user_req = \<lparr>uc_Name = ''Zoe'', uc_Description = None, uc_InboundIDs = [2]\<rparr>"

lemma demo_admitted: "admitted (dp_session demo_deployment) 9 (Some demo_cookie)"
proof -
  have "demo_cookie = sign demo_mac ''k'' (5 + adminTTL)" by (simp add: demo_cookie_def IssueCookie_def)
  moreover have "int64_range (5 + adminTTL)" "9 \<le> 5 + adminTTL"
    by (simp_all add: int64_range_def adminTTL_def max_int64_def)
  ultimately show ?thesis unfolding admitted_def by (auto simp: demo_deployment_def)
qed

lemma demo_env_ok: "env_ok demo_deployment demo_env"
  by (simp add: env_ok_def demo_deployment_def demo_env_def map_order_def)

lemma demo_serve: "snd (serve demo_deployment (demo_call req) st) = snd (handle demo_deployment demo_env req st)"
proof -
  have "admitted (dp_session demo_deployment) (en_now demo_env) (Some demo_cookie)"
    using demo_admitted by (simp add: demo_env_def)
  then show ?thesis by (simp add: serve_def demo_call_def serve_admitted)
qed

lemma demo_step: "api_step demo_deployment st (demo_call req) (snd (handle demo_deployment demo_env req st))"
  by (rule served [where a = "fst (serve demo_deployment (demo_call req) st)"])
     (simp_all add: demo_call_def demo_env_ok flip: demo_serve)

section \<open>The run\<close>

definition demo_db1 :: db where
  "demo_db1 = empty_db\<lparr>
     db_nodes := [\<lparr>no_id = 1, no_name = ''de'', no_vpn_host = ''vpn.example.org'', no_base_url = ''https://p.org:2053'',
       no_base_path = ''/x'', no_token = ''t'', no_created = 9\<rparr>],
     db_inbounds := [\<lparr>ir_id = 1, ir_node = 1, ir_name = ''main'', ir_port = 443, ir_kind = ''vless'', ir_settings = None\<rparr>,
       \<lparr>ir_id = 2, ir_node = 1, ir_name = ''hy'', ir_port = 8443, ir_kind = ''hysteria2'',
        ir_settings = Some (field_enc (hysteria2_of_item (no_hysteria2\<lparr>hi_Password := Some ''pw''\<rparr>)))\<rparr>],
     sq_nodes := 1, sq_inbounds := 2\<rparr>"

lemma demo_node_parsed:
  "validateNode (node_of_request demo_node_req) = Inr \<lparr>nd_ID = 0, nd_Name = ''de'', nd_VPNHost = ''vpn.example.org'',
     nd_PanelBaseURL = ''https://p.org:2053'', nd_PanelBasePath = ''/x'', nd_Token = ''t'',
     nd_Inbounds = [\<lparr>in_ID = 0, in_Name = ''main'', in_Port = 443, in_Kind = ''vless'', in_Hysteria2 = None\<rparr>,
       \<lparr>in_ID = 0, in_Name = ''hy'', in_Port = 8443, in_Kind = ''hysteria2'',
        in_Hysteria2 = Some (hysteria2_of_item (no_hysteria2\<lparr>hi_Password := Some ''pw''\<rparr>))\<rparr>]\<rparr>"
  by code_simp

lemma demo_node_saved: "snd (handle demo_deployment demo_env (SaveNode demo_node_req) fresh_start) = \<lparr>pv_db = demo_db1, pv_calls = []\<rparr>"
proof -
  have "snd (NodeSave field_enc 9 demo_node_req empty_db) = demo_db1"
    unfolding NodeSave_db Save_db demo_node_parsed
    by (simp add: CreateNode_def in_tx_def create_node_tx_def Let_def exec_def checks_ok_def uniq_ok_def fk_ok_def
      duplicate_error_def insert_node_def insert_inbound_def next_node_id_def next_inbound_id_def auto_base_def
      set_no_id_def set_ir_id_def inbound_row_of_def inboundKindSettings_def empty_db_def demo_db1_def InboundKindHysteria2_def)
  then show ?thesis
    by (auto simp: on_db_def fresh_start_def demo_deployment_def demo_env_def split: prod.split)
qed

lemma ConfigSave_registry: "registry (snd (ConfigSave json unjson yaml now req db)) = registry db"
proof -
  have "registry (snd (EnsureBaseConfigID kind now db)) = registry db" for kind
    by (auto simp: EnsureBaseConfigID_def Let_def exec_Inr_iff registry_statements_same split: sum.splits option.splits)
  moreover have "registry (snd (SaveMihomoConfig cfg draft d)) = registry d" for cfg draft d
    using registry_save_tx [of cfg draft d] by (auto simp: SaveMihomoConfig_def in_tx_def split: sum.splits)
  moreover have "registry db' = registry db" if "save_scope u now db = (r, db')" for u r db'
    using that calculation(1) [of ConfigKindMihomo]
    by (auto simp: save_scope_def split: if_splits option.splits)
  ultimately show ?thesis
    by (auto simp: ConfigSave_db split: sum.splits prod.splits)
qed

definition demo_user :: user_row where
  "demo_user = \<lparr>ur_id = 1, ur_name = ''zoe'', ur_sub = replicate 16 (CHR ''3''), ur_description = None, ur_created = 9\<rparr>"

definition demo_db2 :: db where
  "demo_db2 = demo_db1\<lparr>db_users := [demo_user],
     db_conns := [\<lparr>cr_id = 1, cr_user = 1, cr_inbound = 2, cr_created = 9\<rparr>], sq_users := 1, sq_conns := 1\<rparr>"

definition demo_new_user :: User where
  "demo_new_user = \<lparr>us_ID = 0, us_Name = ''zoe'', us_SubID = replicate 16 (CHR ''3''), us_Description = None, us_CreatedAt = 0,
     us_Connections = [\<lparr>cn_ID = 0, cn_UserID = 0, cn_InboundID = 2, cn_CreatedAt = 0, cn_NodeID = 0, cn_Node = [], cn_Name = [],
       cn_Port = 0, cn_Kind = []\<rparr>]\<rparr>"

lemma demo_checks: "map_prod (map_sum id fst) id (create_checks demo_env demo_user_req \<lparr>pv_db = demo_db1, pv_calls = []\<rparr>) =
    (Inr demo_new_user, [ListCall \<lparr>pt_BaseURL = ''https://p.org:2053'', pt_BasePath = ''/x'', pt_Token = ''t''\<rparr>])"
  by code_simp

lemma demo_user_created:
  "\<exists>calls. snd (handle demo_deployment demo_env (NewUser demo_user_req) \<lparr>pv_db = demo_db1, pv_calls = []\<rparr>) = \<lparr>pv_db = demo_db2, pv_calls = calls\<rparr>"
proof -
  let ?st = "\<lparr>pv_db = demo_db1, pv_calls = []\<rparr>"
  obtain ts h where c: "create_checks demo_env demo_user_req ?st = (Inr (demo_new_user, ts), h)"
    using demo_checks by (cases "create_checks demo_env demo_user_req ?st") (auto simp: map_sum_def split: sum.splits)
  have "\<exists>u'. CreateUserRow 9 demo_new_user demo_db1 = (Inr u', demo_db2)"
    by (simp add: CreateUserRow_def in_tx_def create_user_tx_def Let_def exec_def checks_ok_def uniq_ok_def fk_ok_def
        insert_user_def insert_conn_def next_user_id_def next_conn_id_def auto_base_def set_ur_id_def set_cr_id_def
        demo_db1_def demo_db2_def empty_db_def demo_new_user_def ref_in_def demo_user_def)
  then obtain u' where row: "CreateUserRow (en_now demo_env) demo_new_user demo_db1 = (Inr u', demo_db2)" by (auto simp: demo_env_def)
  have "snd (UserCreate demo_env demo_user_req ?st) = snd (snd (CreateUser demo_env demo_user_req ?st))"
    by (auto simp: UserCreate_def split: prod.splits option.splits entity_error.splits)
  with row c show ?thesis by (auto simp: CreateUser_def split_beta Let_def)
qed

definition demo_calls :: "api_call list" where
  "demo_calls = map demo_call [SaveNode demo_node_req, NewUser demo_user_req, SaveMihomo demo_config_req]"

lemma demo_run:
  "\<exists>st. runs (api_step demo_deployment) fresh_start demo_calls st \<and> db_users (pv_db st) = [demo_user] \<and>
     db_nodes (pv_db st) = db_nodes demo_db1 \<and> db_inbounds (pv_db st) = db_inbounds demo_db1"
proof -
  obtain calls where 2: "snd (handle demo_deployment demo_env (NewUser demo_user_req) \<lparr>pv_db = demo_db1, pv_calls = []\<rparr>) =
      \<lparr>pv_db = demo_db2, pv_calls = calls\<rparr>"
    using demo_user_created by blast
  let ?st = "snd (handle demo_deployment demo_env (SaveMihomo demo_config_req) \<lparr>pv_db = demo_db2, pv_calls = calls\<rparr>)"
  have "runs (api_step demo_deployment) fresh_start demo_calls ?st"
    unfolding demo_calls_def list.map
    by (rule run_more, rule demo_step, unfold demo_node_saved, rule run_more, rule demo_step, unfold 2,
        rule run_more, rule demo_step, rule run_none)
  moreover have "registry (pv_db ?st) = registry demo_db2"
    using ConfigSave_registry [of "dp_json demo_deployment" "dp_unjson demo_deployment" "dp_yaml demo_deployment"
        "en_now demo_env" demo_config_req demo_db2]
    by (simp add: on_db_def split_beta)
  then have "db_users (pv_db ?st) = db_users demo_db2" "db_nodes (pv_db ?st) = db_nodes demo_db2"
    "db_inbounds (pv_db ?st) = db_inbounds demo_db2" by (simp_all add: registry_def)
  ultimately show ?thesis by (intro exI [of _ ?st]) (simp add: demo_db2_def)
qed

end
