(* ===== verification/ApiProperties.thy ===== *)
theory ApiProperties
  imports ApiSamples ProvisioningFacts
begin

text \<open>
  What holds in every state the admin API can reach: every user's subscription renders, everything
  in the registry passed validation, and only requests with a signed, unexpired cookie act.
\<close>

section \<open>Subscriptions\<close>

text \<open>
  Whatever requests the admin API served, in any order, with any outcome, from the empty
  database: every user's subscription is answered under its token with a document rendered without
  a logged error from the configuration in effect, provided the document can be printed, not every
  panel is down and tokens of different users differ.
\<close>
theorem reachable_subscriptions_render:
  assumes "runs (api_step dp) fresh_start calls st" and "r \<in> set (db_users (pv_db st))"
    and "\<forall>m. length (hmac secret m) = 32"
    and "\<forall>q \<in> set (db_users (pv_db st)). Make hmac secret (ur_sub q) = Make hmac secret (ur_sub r) \<longrightarrow> ur_sub q = ur_sub r"
    and "live_fleet (dp_dec dp) client (pv_db st) = Inr fl" and "\<forall>doc. \<exists>body. marshal doc = Inr body"
  shows "\<exists>rules doc body h. Rules (configID (ur_id r) ''mihomo'' (pv_db st)) (pv_db st) = Some rules \<and>
    render_document (dp_yaml dp) (served_subscriber fl (ur_sub r))
      (stored_options (configID (ur_id r) ''mihomo'' (pv_db st)) (pv_db st) rules publicBase) = Inr (doc, []) \<and>
    marshal doc = Inr body \<and>
    Sub hmac quote (engines (dp_yaml dp) marshal publicBase) secret (live_fleet (dp_dec dp) client (pv_db st)) ''mihomo''
      (Make hmac secret (ur_sub r)) (pv_db st) = Inr (SubOK h) \<and> sh_Response h = body"
proof -
  let ?db = "pv_db st" and ?cfg = "configID (ur_id r) ''mihomo'' (pv_db st)"
  have inv: "store_inv ?db" "configs_coherent (dp_yaml dp) ?db" "subs_set ?db"
    using api.reachable_safe [OF assms(1)] by (simp_all add: api_inv_def)
  obtain rules where rules: "Rules ?cfg ?db = Some rules"
    using Rules_total [of ?db ?cfg] inv(1) by (auto simp: store_inv_def db_inv_def)
  obtain doc where doc: "render_document (dp_yaml dp) (served_subscriber fl (ur_sub r))
      (stored_options ?cfg ?db rules publicBase) = Inr (doc, [])"
    using coherent_renders [OF _ rules served_proxies_wf [OF assms(5)], of "dp_yaml dp" "ur_sub r" publicBase] inv(2)
    by (auto simp: configs_coherent_def)
  obtain body where body: "marshal doc = Inr body" using assms(6) by blast
  have "ur_sub r \<noteq> []" using inv(3) assms(2) unfolding subs_set_def by (metis image_eqI)
  from rendered_delivered [where db = ?db and r = r and hmac = hmac and secret = secret and cfg = ?cfg and
      unmarshal = "dp_yaml dp" and marshal = marshal, OF inv(1) assms(2) this assms(3,4) refl rules doc body] rules doc body assms(5)
  show ?thesis by auto
qed

theorem reachable_subscriptions_render_witness:
  "\<exists>st h. runs (api_step demo_deployment) fresh_start demo_calls st \<and>
     Sub demo_mac id (engines demo_yaml (\<lambda>doc. Inr ''y'') []) ''k'' (live_fleet field_dec (\<lambda>t. Inr []) (pv_db st)) ''mihomo''
       (Make demo_mac ''k'' (replicate 16 (CHR ''3''))) (pv_db st) = Inr (SubOK h) \<and> sh_Response h = ''y''"
proof -
  obtain st where st: "runs (api_step demo_deployment) fresh_start demo_calls st" "db_users (pv_db st) = [demo_user]"
    using demo_run by blast
  have user: "demo_user \<in> set (db_users (pv_db st))" by (simp add: st(2))
  have len: "\<forall>m. length (demo_mac ''k'' m) = 32" by (auto simp: demo_mac_def)
  have only: "\<forall>q \<in> set (db_users (pv_db st)). Make demo_mac ''k'' (ur_sub q) = Make demo_mac ''k'' (ur_sub demo_user) \<longrightarrow>
      ur_sub q = ur_sub demo_user"
    by (simp add: st(2))
  obtain fl where fl: "live_fleet (dp_dec demo_deployment) (\<lambda>t. Inr []) (pv_db st) = Inr fl"
    by (cases "ListNodes (dp_dec demo_deployment) (pv_db st)") (auto simp: live_fleet_def fetch_Inr_iff)
  have prints: "\<forall>doc. \<exists>body. (\<lambda>doc. Inr ''y'' :: unit + string) doc = Inr body" by simp
  from reachable_subscriptions_render [OF st(1) user len only fl prints, of "[]" id] st(1)
  show ?thesis by (auto simp: demo_deployment_def demo_user_def)
qed

section \<open>The session\<close>

text \<open>
  A state-changing request acts only behind the session: unless its cookie is the signature, under
  the session secret, of an expiry that has not passed, the answer is the 401 of the error handler,
  and neither the database nor any panel is touched.
\<close>
theorem only_signed_requests_act:
  "(\<exists>e. int64_range e \<and> en_now (ac_env c) \<le> e \<and>
       ac_cookie c = Some (sign (se_hmac (dp_session dp)) (se_secret (dp_session dp)) e)) \<or>
   serve dp c st = (Refused 401 ''Authorization required'', st)"
  using serve_refused [of "dp_session dp" "en_now (ac_env c)" "ac_cookie c" id "handle dp (ac_env c)" "ac_body c" st]
  unfolding serve_def admitted_def by auto

text \<open>
  Signing in succeeds exactly for the configured credentials, and the cookie it sets is accepted,
  under the same secret, exactly until twelve hours later; the cookie of a sign-out never is.
\<close>
theorem login_cookie_lifetime:
  assumes "int64_range (now + 12 * 3600)"
  shows "HandleAdminSession s later (ck_Value Logout) = Some ErrUnauthorized \<and>
   (case Login s admin now req of
      Rejected msg \<Rightarrow> cr_User req \<noteq> cr_User admin \<or> cr_Password req \<noteq> cr_Password admin
    | LoggedIn ck \<Rightarrow> cr_User req = cr_User admin \<and> cr_Password req = cr_Password admin \<and>
        (HandleAdminSession s later (ck_Value ck) = None \<longleftrightarrow> later \<le> now + 12 * 3600))"
proof
  have "sign (se_hmac s) (se_secret s) e \<noteq> []" for e by (simp add: sign_def Let_def)
  then show "HandleAdminSession s later (ck_Value Logout) = Some ErrUnauthorized"
    by (auto simp: HandleAdminSession_def Valid_def session_valid_iff Logout_def ClearCookie_def dest: sym)
  have "Valid s later (sign (se_hmac s) (se_secret s) (now + 12 * 3600)) \<longleftrightarrow> later \<le> now + 12 * 3600"
    using assms by (auto simp: Valid_def session_valid_iff sign_inj)
  then show "case Login s admin now req of
      Rejected msg \<Rightarrow> cr_User req \<noteq> cr_User admin \<or> cr_Password req \<noteq> cr_Password admin
    | LoggedIn ck \<Rightarrow> cr_User req = cr_User admin \<and> cr_Password req = cr_Password admin \<and>
        (HandleAdminSession s later (ck_Value ck) = None \<longleftrightarrow> later \<le> now + 12 * 3600)"
    by (simp add: Login_def HandleAdminSession_def IssueCookie_def adminTTL_def)
qed

theorem login_cookie_lifetime_witness:
  "int64_range (5 + 12 * 3600) \<and>
   (case Login (dp_session demo_deployment) \<lparr>cr_User = ''a'', cr_Password = ''b''\<rparr> 5 \<lparr>cr_User = ''a'', cr_Password = ''b''\<rparr> of
      Rejected msg \<Rightarrow> False
    | LoggedIn ck \<Rightarrow> HandleAdminSession (dp_session demo_deployment) 43206 (ck_Value ck) \<noteq> None)"
proof -
  have range: "int64_range (5 + 12 * 3600)" by (simp add: int64_range_def max_int64_def)
  from login_cookie_lifetime [OF this, of "dp_session demo_deployment" 43206 "\<lparr>cr_User = ''a'', cr_Password = ''b''\<rparr>"
      "\<lparr>cr_User = ''a'', cr_Password = ''b''\<rparr>"] range
  show ?thesis by (simp add: Login_def)
qed

section \<open>The registry in reachable states\<close>

text \<open>
  The registry in reachable states: what the fleet and the provisioning read of it passed the
  validation of the admin API.
\<close>

lemma stored_inbound_valid:
  assumes codec: "\<forall>h. enc h \<noteq> [] \<and> dec (enc h) = Some h" and row: "inbound_row_valid enc r"
  shows "inbound_valid (inbound_of_row dec r)"
proof -
  obtain i where i: "inbound_valid i" "set_ir_id 0 r = inbound_row_of enc (ir_node r) i"
    using row by (auto simp: inbound_row_valid_def)
  have "(inbound_of_row dec r)\<lparr>in_ID := 0\<rparr> = stored_inbound i"
    by (rule inbound_round_trip [OF _ i(2)]) (use codec in blast)
  moreover have "inbound_valid (stored_inbound i)"
    using i(1) by (auto simp: inbound_valid_def stored_inbound_def validateInboundKind_def split: if_splits)
  moreover have "inbound_valid (x\<lparr>in_ID := k\<rparr>) \<longleftrightarrow> inbound_valid x" for x k
    by (simp add: inbound_valid_def validateInboundKind_def)
  ultimately show ?thesis by metis
qed

lemma listed_node_valid:
  assumes inv: "store_inv db" "registry_valid enc db" and codec: "\<forall>h. enc h \<noteq> [] \<and> dec (enc h) = Some h"
    and n: "n \<in> set (ListNodes dec db)"
  shows "nd_Token n \<noteq> [] \<and> (nd_Inbounds n \<noteq> [] \<longrightarrow> node_valid n)"
proof -
  obtain r where r: "r \<in> set (db_nodes db)" "n = node_with dec db r" using n by (auto simp: ListNodes_eq)
  let ?rows = "filter (\<lambda>x. ir_node x = no_id r) (db_inbounds db)"
  have "\<forall>i \<in> set (nd_Inbounds n). inbound_valid i"
    using inv(2) stored_inbound_valid [OF codec] by (auto simp: r(2) registry_valid_def)
  moreover have "distinct (map in_Name (nd_Inbounds n))" "distinct (map in_Port (nd_Inbounds n))"
    using store_invD(2) [OF inv(1)] by (auto simp: r(2) o_def constraint_defs distinct_map inj_on_def)
  moreover have "node_row_valid r" using inv(2) r(1) by (simp add: registry_valid_def)
  ultimately show ?thesis
    by (simp add: node_valid_def node_row_valid_def r(2) node_with_def node_of_row_def)
qed



end
