(* ===== verification/ConfigView.thy ===== *)
theory ConfigView
  imports AdminConfig ConfigsCoherent NodesProperties
begin

text \<open>
  What the configuration form reads back after a save: the view of a saved configuration, decoded
  again, is the saved draft with its rule-providers in name order.
\<close>

section \<open>The form's draft after a save\<close>

text \<open>
  The providers come back ordered by name, so their indexes move: \<open>rank order i\<close> is where the
  provider with index \<open>i\<close> ends up. An explicit "no no-resolve" is stored like an absent one.
\<close>

definition provider_order :: "RuleProvider list \<Rightarrow> nat list" where
  "provider_order ps = sort_key (\<lambda>i. rp_Name (ps ! i)) [0..<length ps]"

definition rank :: "nat list \<Rightarrow> int \<Rightarrow> int" where
  "rank order i = int (length (takeWhile (\<lambda>j. j \<noteq> nat i) order))"

fun reread_rule :: "nat list \<Rightarrow> RuleDraft \<Rightarrow> RuleDraft" where
  "reread_rule order (RuleDraft ty val pidx nores tgt children) =
     RuleDraft ty val (map_option (rank order) pidx) (if nores = Some True then Some True else None) tgt
       (map (reread_rule order) children)"

definition reread :: "ConfigDraft \<Rightarrow> ConfigDraft" where
  "reread d =
     (let order = provider_order (cd_Providers d)
      in d\<lparr>cd_Providers := map ((!) (cd_Providers d)) order, cd_Rules := map (reread_rule order) (cd_Rules d)\<rparr>)"

section \<open>Indexes\<close>

lemma id_index_nth: "distinct ids \<Longrightarrow> k < length ids \<Longrightarrow> id_index ids (ids ! k) = Some k"
proof -
  assume "distinct ids" "k < length ids"
  moreover from this have "(k, ids ! k) \<in> set (zip [0..<length ids] ids)" by (force simp: set_zip)
  ultimately show ?thesis
    using fill_map_distinct [of snd "zip [0..<length ids] ids" "(k, ids ! k)" fst] by (simp add: id_index_def)
qed

lemma takeWhile_index: "distinct xs \<Longrightarrow> k < length xs \<Longrightarrow> length (takeWhile (\<lambda>x. x \<noteq> xs ! k) xs) = k"
proof (induction xs arbitrary: k)
  case (Cons x xs)
  then show ?case by (cases k) (auto simp: nth_Cons')
qed simp

lemma provider_order_perm: "set (provider_order ps) = {..<length ps}" "distinct (provider_order ps)"
  "length (provider_order ps) = length ps"
  by (auto simp: provider_order_def)

lemma id_index_rank:
  assumes "distinct pids" "length pids = length ps" "i < length ps"
  shows "id_index (map ((!) pids) (provider_order ps)) (pids ! i) = Some (nat (rank (provider_order ps) (int i)))"
proof -
  let ?o = "provider_order ps"
  obtain k where k: "k < length ?o" "?o ! k = i"
    using assms(3) by (metis in_set_conv_nth lessThan_iff provider_order_perm(1))
  have "distinct (map ((!) pids) ?o)"
    using assms provider_order_perm [of ps] by (auto simp: distinct_map inj_on_def nth_eq_iff_index_eq)
  from id_index_nth [OF this, of k] takeWhile_index [OF provider_order_perm(2) k(1)] k show ?thesis
    by (simp add: rank_def)
qed

lemma saved_providers_order:
  assumes "length pids = length ps"
  shows "sort_key rp_Name (saved_providers pids ps) = map (\<lambda>i. (ps ! i)\<lparr>rp_ID := pids ! i\<rparr>) (provider_order ps)"
proof -
  have "saved_providers pids ps = map (\<lambda>i. (ps ! i)\<lparr>rp_ID := pids ! i\<rparr>) [0..<length ps]"
    by (rule nth_equalityI) (simp_all add: saved_providers_def assms)
  then show ?thesis by (simp add: sort_key_map provider_order_def)
qed

section \<open>References, rules, groups and providers\<close>

lemma ref_reread:
  assumes "ref_ok (length gids) m" and "ref_normal m" and "distinct gids"
  shows "refFromDTO (refToView (saved_ref gids m) (id_index gids)) = m"
proof -
  have "TrimSpace (rf_Kind m) = rf_Kind m" using assms(2) by (simp add: ref_normal_def trimmed_def)
  moreover have "PolicyInbound \<noteq> PolicyGroup" by (simp add: policy_kinds)
  moreover have "PolicyInbound \<notin> set BuiltinPolicyKinds" "PolicyGroup \<notin> set BuiltinPolicyKinds" by simp_all
  ultimately show ?thesis
    using assms(1) id_index_nth [OF assms(3)]
    by (cases m) (auto simp: refFromDTO_def refToView_def saved_ref_def ref_ok_def Let_def)
qed

lemma ruleToView_erase: "ruleToView gi pi (erase_rule t) = ruleToView gi pi t"
  by (induction t) simp

lemma trimPtr_id: "(\<And>v. val = Some v \<Longrightarrow> v \<noteq> [] \<and> trimmed v) \<Longrightarrow> trimPtr val = val"
  by (auto simp: trimPtr_def trimmed_def Let_def split: option.split)

lemma rule_reread:
  assumes "distinct gids" "distinct pids" "length pids = length ps"
  shows "rule_ok is_top (length gids) (length ps) d \<Longrightarrow> rule_normal d \<Longrightarrow>
    ruleFromDTO (ruleToView (id_index gids) (id_index (map ((!) pids) (provider_order ps))) (saved_rule gids pids d)) =
      reread_rule (provider_order ps) d"
proof (induction d arbitrary: is_top)
  case (RuleDraft ty val pidx nores tgt children)
  let ?d = "RuleDraft ty val pidx nores tgt children"
  have node: "node_ok (length ps) ?d" using RuleDraft.prems(1) by (simp add: rule_ok_def)
  have ty: "TrimSpace ty = ty" and "trimPtr val = val"
    using RuleDraft.prems(2) by (auto simp: trimmed_def intro!: trimPtr_id)
  moreover have "map_option (refFromDTO \<circ> (\<lambda>t. refToView (saved_ref gids t) (id_index gids))) tgt = tgt"
  proof (cases tgt)
    case (Some t)
    with RuleDraft.prems have "ref_ok (length gids) t" "ref_normal t"
      by (auto simp: rule_ok_def sub_ok_def split: if_splits)
    with Some ref_reread [OF _ _ assms(1)] show ?thesis by simp
  qed simp
  moreover have "id_index (map ((!) pids) (provider_order ps)) (pids ! nat i) = Some (nat (rank (provider_order ps) i))"
    if "pidx = Some i" for i
    using node that id_index_rank [OF assms(2,3), of "nat i"] by (auto simp: node_ok_def)
  then have "(case map_option (\<lambda>i. pids ! nat i) pidx of None \<Rightarrow> None
      | Some p \<Rightarrow> map_option int (id_index (map ((!) pids) (provider_order ps)) p)) = map_option (rank (provider_order ps)) pidx"
    by (cases pidx) (simp_all add: rank_def)
  moreover have "map (\<lambda>c. ruleFromDTO (ruleToView (id_index gids) (id_index (map ((!) pids) (provider_order ps)))
      (saved_rule gids pids c))) children = map (reread_rule (provider_order ps)) children"
    using RuleDraft.IH [where is_top = False] rule_ok_children [OF RuleDraft.prems(1)] RuleDraft.prems(2) by auto
  moreover have "\<not> IsLogical ty \<Longrightarrow> children = []"
    using node by (auto simp: node_ok_def RuleDraft_Valid_None_iff)
  ultimately show ?case by (auto simp: option.map_comp comp_def)
qed

lemma group_reread:
  assumes "distinct gids" and "\<forall>m \<in> set (gd_Members g). ref_ok (length gids) m \<and> ref_normal m"
    and "trimmed (gd_Name g)" "trimmed (gd_Type g)" "trimmed (gd_URL g)"
  shows "groupFromDTO (groupToView (id_index gids) (saved_group gids k g)) = g"
proof -
  have "map (\<lambda>m. refFromDTO (refToView (saved_ref gids m) (id_index gids))) (gd_Members g) = gd_Members g"
    using assms(2) ref_reread [OF _ _ assms(1)] by (intro map_idI) blast
  then show ?thesis
    using assms(3-5) by (cases g) (simp add: groupFromDTO_def groupToView_def saved_group_def trimmed_def comp_def)
qed

lemma provider_reread:
  "trimmed (rp_Name p) \<Longrightarrow> trimmed (rp_URL p) \<Longrightarrow> providerFromDTO (providerToView p) = p\<lparr>rp_ID := 0\<rparr>"
  by (cases p) (simp add: providerFromDTO_def providerToView_def trimmed_def)

section \<open>The whole view\<close>

lemma view_reread:
  assumes rb: "reads_back cfg draft gids pids db" and rules: "Rules cfg db = Some ts"
    and groups_ok: "groups_ok (cd_Groups draft)"
    and rules_ok: "rules_ok (cd_Rules draft) (length (cd_Groups draft)) (length (cd_Providers draft))"
    and normal: "draft_normal draft" and fresh: "\<forall>p \<in> set (cd_Providers draft). rp_ID p = 0"
  shows "draftFromDTO (config_view cfg db ts) = reread draft"
proof -
  note r = rb [unfolded reads_back_def]
  let ?o = "provider_order (cd_Providers draft)"
  have len: "length gids = length (cd_Groups draft)" "length pids = length (cd_Providers draft)"
    and d: "distinct gids" "distinct pids" using r by simp_all
  have groups: "ProxyGroups cfg db = map (\<lambda>(k, g). saved_group gids k g) (enumerate 0 (cd_Groups draft))"
    using r by simp
  then have gids: "map pg_ID (ProxyGroups cfg db) = gids"
    by (intro nth_equalityI) (simp_all add: len nth_enumerate_eq saved_group_def)
  have provs: "RuleProviders cfg db = map (\<lambda>i. (cd_Providers draft ! i)\<lparr>rp_ID := pids ! i\<rparr>) ?o"
    using r saved_providers_order [OF len(2)] by simp
  then have pids: "map rp_ID (RuleProviders cfg db) = map ((!) pids) ?o" by (simp add: comp_def)
  have "map (\<lambda>x. groupFromDTO (groupToView (id_index gids) x)) (ProxyGroups cfg db) = cd_Groups draft"
  proof -
    have "groupFromDTO (groupToView (id_index gids) (saved_group gids k g)) = g" if "g \<in> set (cd_Groups draft)" for k g
      using that groups_ok normal by (intro group_reread [OF d(1)]) (auto simp: groups_ok_def draft_normal_def len)
    then show ?thesis by (intro nth_equalityI) (simp_all add: groups nth_enumerate_eq)
  qed
  moreover have "map (\<lambda>x. providerFromDTO (providerToView x)) (RuleProviders cfg db) = map ((!) (cd_Providers draft)) ?o"
  proof -
    have "providerFromDTO (providerToView ((cd_Providers draft ! i)\<lparr>rp_ID := pids ! i\<rparr>)) = cd_Providers draft ! i"
      if "i \<in> set ?o" for i
      using that normal fresh by (subst provider_reread) (simp_all add: provider_order_perm(1) draft_normal_def)
    then show ?thesis by (simp add: provs)
  qed
  moreover have "map (\<lambda>x. ruleFromDTO (ruleToView (id_index gids) (id_index (map ((!) pids) ?o)) x)) ts =
      map (reread_rule ?o) (cd_Rules draft)"
  proof -
    have "map erase_rule ts = map (saved_rule gids pids) (cd_Rules draft)" using r rules by auto
    then have "list_all2 (\<lambda>t d. erase_rule t = saved_rule gids pids d) ts (cd_Rules draft)" by (rule map_eq_list_all2)
    then show ?thesis
    proof (intro list_all2_map_eq, elim list.rel_mono_strong)
      fix t x
      assume "x \<in> set (cd_Rules draft)" and saved: "erase_rule t = saved_rule gids pids x"
      then have "rule_ok True (length gids) (length (cd_Providers draft)) x" "rule_normal x"
        using rules_ok normal by (simp_all add: rules_ok_def draft_normal_def len)
      from rule_reread [OF d len(2) this]
      show "ruleFromDTO (ruleToView (id_index gids) (id_index (map ((!) pids) ?o)) t) = reread_rule ?o x"
        by (metis saved ruleToView_erase)
    qed
  qed
  moreover have "trimmed (pf_Title (cd_Profile draft))" "trimmed (pf_Filename (cd_Profile draft))"
    using normal by (simp_all add: draft_normal_def)
  moreover have "Setting cfg ''base_yaml'' db = cd_BaseYAML draft" "Profile_of cfg db = cd_Profile draft"
    using r by simp_all
  ultimately show ?thesis
    by (cases draft; cases "cd_Profile draft")
      (simp add: draftFromDTO_def config_view_def reread_def Let_def gids pids rulesFromDTO_def comp_def trimmed_def)
qed

end
