(* ===== verification/ApiErrors.thy ===== *)
theory ApiErrors
  imports ApiSamples ProvisioningProperties
begin

text \<open>
  Error answers of the admin API: a request that is answered with a refusal leaves no trace, and
  saving a configuration is refused for the reasons it may be and never fails.
\<close>

section \<open>Refusals of each handler\<close>

lemma in_tx_Inl: "in_tx f db = (Inl e, db') \<Longrightarrow> db' = db"
  by (auto simp: in_tx_def split: sum.splits)

lemma NodeSave_refused:
  assumes "NodeSave enc now req db = (r, db')" and "r \<notin> range Reply"
  shows "db' = db"
proof -
  obtain e where "Save enc now (node_of_request req) db = (Inl e, db')"
    using assms by (auto simp: NodeSave_def Let_def split: sum.splits prod.splits)
  then show ?thesis
    by (auto simp: Save_def CreateNode_def UpdateNode_def split: sum.splits prod.splits if_splits dest!: in_tx_Inl)
qed

lemma NodeDelete_refused:
  assumes "NodeDelete i db = (r, db')" and "r \<notin> range Reply" and inv: "store_inv db"
  shows "db' = db"
proof -
  obtain e where "Delete i db = (Inl e, db')"
    using assms(1,2) by (auto simp: NodeDelete_def split: sum.splits prod.splits node_error.splits if_splits)
  then obtain x where "DeleteNode i db = (Inl x, db')"
    by (auto simp: Delete_def split: sum.splits prod.splits)
  moreover have "delete_node_rows i db = db" if "filter (\<lambda>n. no_id n = i) (db_nodes db) = []"
    using that by (intro delete_unknown_node(1) [OF store_invD(2) [OF inv]]) (auto simp: filter_empty_conv)
  ultimately show ?thesis
    by (auto simp: DeleteNode_def exec_Inr_iff split: sum.splits if_splits)
qed

lemma Custom_refused:
  "CustomCreate u now db = (r, db') \<Longrightarrow> r \<notin> range Reply \<Longrightarrow> db' = db"
  "CustomDelete u db = (r, db') \<Longrightarrow> r \<notin> range Reply \<Longrightarrow> db' = db"
  by (auto simp: CustomCreate_def CustomDelete_def CreateUserConfig_def DeleteUserConfig_def
      split: sum.splits prod.splits dest!: in_tx_Inl)

lemma ConfigSave_refused:
  assumes "ConfigSave json unjson yaml now req db = (r, db')" and "r \<notin> range Reply"
  shows "db' = db \<or> db' = snd (EnsureBaseConfigID ConfigKindMihomo now db)"
proof -
  have scope: "d = db \<or> d = snd (EnsureBaseConfigID ConfigKindMihomo now db)" if "save_scope u now db = (q, d)" for u q d
    using that by (auto simp: save_scope_def split: if_splits option.splits)
  have tx: "d' = d" if "SaveMihomoConfig cfg draft d = (Inl e, d')" for cfg draft d d' e
    using that by (auto simp: SaveMihomoConfig_def dest!: in_tx_Inl)
  show ?thesis
    using assms by (auto simp: ConfigSave_def split: sum.splits option.splits prod.splits dest: tx dest!: scope)
qed

lemma SetDescription_no_entity: "SetDescription i d db = (Inl e, db') \<Longrightarrow> entity_of (Store s e) = None"
  by (auto simp: SetDescription_def in_tx_def bind_err_def exec_def entity_of_def Let_def split: sum.splits if_splits)

lemma UserCreate_refused:
  assumes "UserCreate en p st = (r, st')" and "r \<notin> range Reply" and "r \<noteq> Failed"
  shows "pv_db st' = pv_db st \<and> pv_calls st' = snd (create_checks en p st)"
proof -
  obtain u e where run: "CreateUser en p st = (u, Some e, st')" and "entity_of e \<noteq> None"
    using assms by (auto simp: UserCreate_def split: prod.splits option.splits)
  then show ?thesis
    by (auto simp: CreateUser_def CreateUserRow_def entity_of_def syncPanels_def Let_def
        split: sum.splits prod.splits if_splits dest!: in_tx_Inl)
qed

lemma UserEdit_refused:
  assumes "UserEdit en p st = (r, st')" and "r \<notin> range Reply" and "r \<noteq> Failed"
  shows "pv_db st' = pv_db st \<and> pv_calls st' = snd (edit_checks en p st)"
proof -
  obtain e where run: "EditUser en p st = (Some e, st')" and e: "entity_of e \<noteq> None"
    using assms by (auto simp: UserEdit_def split: prod.splits option.splits)
  have sync: "entity_of e = None" if "syncPanels pn g ord byID u old d f h = (Some e, h')" for pn g ord byID u old d f h h' e
    using that by (auto simp: syncPanels_def entity_of_def Let_def split: prod.splits if_splits)
  show ?thesis
    using run e by (auto simp: EditUser_def ReplaceConnections_def Let_def SetDescription_no_entity
        split: sum.splits prod.splits dest!: in_tx_Inl sync)
qed

section \<open>Refused requests\<close>

lemma UserDelete_never_refused: "UserDelete en i st = (r, st') \<Longrightarrow> r \<in> range Reply \<or> r = Failed"
  by (auto simp: UserDelete_def split: prod.splits option.splits)

lemma UserRecreate_never_refused: "UserRecreate en i st = (r, st') \<Longrightarrow> r \<in> range Reply \<or> r = Failed"
  by (auto simp: UserRecreate_def split: prod.splits option.splits)

lemma on_db_pair: "on_db f st = (r, st') \<longleftrightarrow> f (pv_db st) = (r, pv_db st') \<and> pv_calls st' = pv_calls st"
  by (cases st; cases st') (auto simp: on_db_def split: prod.split)

definition only_lists :: "prov_state \<Rightarrow> prov_state \<Rightarrow> bool" where
  "only_lists st st' \<longleftrightarrow> (\<exists>new. pv_calls st' = pv_calls st @ new \<and> (\<forall>c \<in> set new. \<exists>t. c = ListCall t))"

lemma only_lists_same: "pv_calls st' = pv_calls st \<Longrightarrow> only_lists st st'"
  by (simp add: only_lists_def)

lemma handle_refused:
  assumes "handle dp en req st = (r, st')" and "r \<notin> range Reply" "r \<noteq> Failed" and inv: "store_inv (pv_db st)"
  shows "(pv_db st' = pv_db st \<or> pv_db st' = snd (EnsureBaseConfigID ConfigKindMihomo (en_now en) (pv_db st))) \<and>
    only_lists st st'"
proof (cases req)
  case (SaveNode q)
  with assms show ?thesis by (auto simp: on_db_pair only_lists_same dest: NodeSave_refused)
next
  case (RemoveNode i)
  with assms show ?thesis by (auto simp: on_db_pair only_lists_same dest: NodeDelete_refused)
next
  case (SaveMihomo q)
  with assms show ?thesis by (auto simp: on_db_pair only_lists_same dest!: ConfigSave_refused)
next
  case (NewUser q)
  with assms UserCreate_refused [of en q st r st'] create_checks_calls [of en q st] show ?thesis
    by (auto simp: only_lists_def)
next
  case (ChangeUser q)
  with assms UserEdit_refused [of en q st r st'] edit_checks_calls [of en q st] show ?thesis
    by (auto simp: only_lists_def)
qed (use assms in \<open>auto simp: on_db_pair only_lists_same dest: Custom_refused UserDelete_never_refused UserRecreate_never_refused\<close>)

text \<open>
  A refused request leaves no trace: when the API answers 400, 404 or 409, the database is exactly as
  before, or has at most gained the row of a base configuration that did not exist, and no panel
  was asked to add or delete a client.
\<close>
theorem refused_request_changes_nothing:
  assumes "store_inv (pv_db st)" and "serve dp c st = (Answered r, st')" and "r \<notin> range Reply"
  shows "(pv_db st' = pv_db st \<or>
      pv_db st' = snd (EnsureBaseConfigID ''mihomo'' (en_now (ac_env c)) (pv_db st))) \<and>
    (\<exists>new. pv_calls st' = pv_calls st @ new \<and> (\<forall>x \<in> set new. \<exists>t. x = ListCall t))"
proof -
  from assms(2) have "ac_body c \<noteq> None" and "r \<noteq> Failed" and
    "\<And>req. ac_body c = Some req \<Longrightarrow> handle dp (ac_env c) req st = (r, st')"
    by (auto simp: serve_def serve_secured_def refuse_def ErrorHandler_def
        split: sum.splits bool.splits option.splits prod.splits reply.splits)
  then obtain req where "handle dp (ac_env c) req st = (r, st')" and "r \<noteq> Failed" by blast
  from handle_refused [OF this(1) assms(3) this(2) assms(1)] show ?thesis
    by (simp add: only_lists_def ConfigKindMihomo_def)
qed

lemma demo_refusal:
  "serve demo_deployment (demo_call (RemoveCustom 7)) fresh_start = (Answered (BadRequest ''The user has no custom config''), fresh_start)"
proof -
  have "admitted (dp_session demo_deployment) (en_now demo_env) (Some demo_cookie)"
    using demo_admitted by (simp add: demo_env_def)
  then have "securityAdminSession (dp_session demo_deployment) (en_now demo_env) (Some demo_cookie) = Inr True"
    by (simp add: securityAdminSession_iff)
  moreover have "DeleteUserConfig 7 ConfigKindMihomo empty_db = (Inl (Domain ErrUserConfigNotFound), empty_db)"
    by code_simp
  ultimately show ?thesis
    by (simp add: serve_def demo_call_def serve_secured_def on_db_def CustomDelete_def fresh_start_def)
qed

theorem refused_request_changes_nothing_witness:
  "fst (serve demo_deployment (demo_call (RemoveCustom 7)) fresh_start) =
     Answered (BadRequest ''The user has no custom config'') \<and>
   (\<exists>new. pv_calls (snd (serve demo_deployment (demo_call (RemoveCustom 7)) fresh_start)) = [] @ new \<and>
     (\<forall>x \<in> set new. \<exists>t. x = ListCall t))"
  using refused_request_changes_nothing [OF _ demo_refusal] demo_refusal
  by (auto simp: fresh_start_def store_inv_empty)

end
