(* ===== verification/ConfigApi.thy ===== *)
theory ConfigApi
  imports ConfigView ApiErrors RoutingProperties
begin

text \<open>
  Saving and reading configurations through the API: which answers a save gives, and that the form
  reads back what it saved.
\<close>

section \<open>The configuration a save goes to\<close>

lemma UserConfigID_in: "UserConfigID u kind db = Some i \<Longrightarrow> i \<in> cf_id ` set (db_configs db)"
  by (auto simp: UserConfigID_def dest!: find_SomeD)

lemma ensure_base_total:
  assumes "store_inv db"
  shows "\<exists>i d. EnsureBaseConfigID kind now db = (Inr i, d) \<and> BaseConfigID kind d = Some i"
proof (cases "BaseConfigID kind db")
  case None
  with ensure_base_absent [OF store_invD(1,4) [OF assms]] show ?thesis by blast
next
  case (Some i)
  with ensure_base_present [OF store_invD(1) [OF assms] Some] show ?thesis by blast
qed

definition asked_user :: "int option \<Rightarrow> int option" where
  "asked_user u = (if or_else u 0 = 0 then None else u)"

lemma save_scope_Inr:
  assumes inv: "store_inv db" and run: "save_scope (or_else u 0) now db = (Inr cfg, d)"
  shows "store_inv d \<and> cfg \<in> cf_id ` set (db_configs d) \<and> get_scope (asked_user u) d = Some cfg \<and>
    db_inbounds d = db_inbounds db"
proof (cases "or_else u 0 = 0")
  case True
  with run have e: "EnsureBaseConfigID ConfigKindMihomo now db = (Inr cfg, d)" by (simp add: save_scope_def)
  with ensure_base_total [OF inv, of ConfigKindMihomo now] have "BaseConfigID ConfigKindMihomo d = Some cfg" by auto
  moreover from this have "cfg \<in> cf_id ` set (db_configs d)" by (rule BaseConfigID_in)
  ultimately show ?thesis
    using True e EnsureBaseConfigID_inv [OF inv, of ConfigKindMihomo now] EnsureBase_same_tables(3) [of ConfigKindMihomo now db]
    by (simp add: asked_user_def get_scope_def)
next
  case False
  with run inv show ?thesis
    by (cases u) (auto simp: save_scope_def asked_user_def get_scope_def or_else_def UserConfigID_in split: option.splits)
qed

lemma save_scope_Inl:
  assumes "store_inv db" and "save_scope (or_else u 0) now db = (Inl e, d)"
  shows "e = Domain ErrUserConfigNotFound \<and> get_scope (asked_user u) db = None \<and> asked_user u \<noteq> None"
  using assms ensure_base_total [OF assms(1), of ConfigKindMihomo now]
  by (cases u) (auto simp: save_scope_def asked_user_def get_scope_def or_else_def split: if_splits option.splits)

lemma save_keeps_configs: "SaveMihomoConfig cfg draft db = (r, db') \<Longrightarrow> db_configs db' = db_configs db"
  by (auto simp: SaveMihomoConfig_def in_tx_def wrote_def split: sum.splits elim!: save_txE dest: save_delete_Inr)

section \<open>Answers of a save\<close>

lemma validationMessage_total: "\<exists>m. validationMessage e = Some m"
  by (cases e) (simp_all add: validationMessage_def)

text \<open>
  A save never ends in a server error: when the request decodes and every inbound the draft refers to
  exists, the answer is "Config saved" exactly when the draft passes the validators, its provider
  names differ and the user has a custom configuration (or the base was asked for); otherwise it is a
  400 with a message.
\<close>
theorem config_save_answers:
  assumes "store_inv db" and "bind_err (json req) (DecodeConfig unjson) = Inr draft"
    and "draft_inbounds_known db draft"
  shows "if config_error yaml draft = None \<and> distinct (map rp_Name (cd_Providers draft)) \<and>
       (asked_user (csr_UserId req) = None \<or> get_scope (asked_user (csr_UserId req)) db \<noteq> None)
    then fst (ConfigSave json unjson yaml now req db) = Reply ''Config saved''
    else (\<exists>msg. fst (ConfigSave json unjson yaml now req db) = BadRequest msg)"
proof (cases "config_error yaml draft")
  case (Some e)
  with assms(2) validationMessage_total [of e] show ?thesis by (auto simp: ConfigSave_def)
next
  case None
  note valid = config_error_None [OF None]
  obtain q d where scope: "save_scope (or_else (csr_UserId req) 0) now db = (q, d)" by fastforce
  show ?thesis
  proof (cases q)
    case (Inl e)
    with scope have "save_scope (or_else (csr_UserId req) 0) now db = (Inl e, d)" by simp
    from save_scope_Inl [OF assms(1) this] this None assms(2) show ?thesis by (auto simp: ConfigSave_def)
  next
    case (Inr cfg)
    note s = save_scope_Inr [OF assms(1) scope [unfolded Inr]]
    then have db: "db_inv d" "cfg \<in> cf_id ` set (db_configs d)" "draft_inbounds_known d draft"
      using assms(3) store_invD(1) by (simp_all add: draft_inbounds_known_def)
    have found: "asked_user (csr_UserId req) = None \<or> get_scope (asked_user (csr_UserId req)) db \<noteq> None"
      using s scope Inr
      by (cases "csr_UserId req") (auto simp: asked_user_def or_else_def save_scope_def get_scope_def split: if_splits option.splits)
    show ?thesis
    proof (cases "distinct (map rp_Name (cd_Providers draft))")
      case True
      then obtain db' where "save_tx cfg draft d = Inr ((), db')"
        using save_tx_succeeds [of d cfg draft] db valid by (auto simp: db_inv_def groups_ok_iff rules_ok_iff)
      then have "SaveMihomoConfig cfg draft d = (Inr (), db')" by (simp add: SaveMihomoConfig_Inr)
      with True found None scope Inr assms(2) show ?thesis by (simp add: ConfigSave_def)
    next
      case False
      from repeated_provider_refused [OF db(1,2) conjunct1 [OF conjunct2 [OF valid]] False]
      have "SaveMihomoConfig cfg draft d = (Inl (Domain ErrRuleProviderNameTaken), d)" .
      with False None scope Inr assms(2) show ?thesis by (simp add: ConfigSave_def)
    qed
  qed
qed

lemma demo_db1_inv: "store_inv demo_db1"
proof -
  have "api_step demo_deployment fresh_start (demo_call (SaveNode demo_node_req)) \<lparr>pv_db = demo_db1, pv_calls = []\<rparr>"
    using demo_step [of fresh_start "SaveNode demo_node_req"] by (simp only: demo_node_saved)
  then have "runs (api_step demo_deployment) fresh_start [demo_call (SaveNode demo_node_req)] \<lparr>pv_db = demo_db1, pv_calls = []\<rparr>"
    by (rule run_more) (rule run_none)
  from api.reachable_safe [OF this] show ?thesis by (simp add: api_inv_def)
qed

abbreviation plain_marshal :: "ConfigSaveReq \<Rightarrow> unit + configDTO" where "plain_marshal \<equiv> Inr \<circ> csr_Config"
abbreviation plain_json :: "configDTO \<Rightarrow> unit + configDTO" where "plain_json \<equiv> Inr"

definition demo_draft :: ConfigDraft where "demo_draft = draftFromDTO (csr_Config demo_config_req)"

lemma demo_draft: "bind_err (plain_marshal demo_config_req) (DecodeConfig plain_json) = Inr demo_draft"
  by (simp add: DecodeConfig_def demo_draft_def)

lemma demo_draft_valid: "config_error demo_yaml demo_draft = None" "distinct (map rp_Name (cd_Providers demo_draft))"
  by code_simp+

lemma demo_draft_known: "draft_inbounds_known demo_db1 demo_draft"
proof -
  have "map ir_id (db_inbounds demo_db1) = [1, 2]" by (simp add: demo_db1_def)
  moreover have "\<forall>g \<in> set (cd_Groups demo_draft). \<forall>m \<in> set (gd_Members g). inbound_known [1, 2] m" by code_simp
  moreover have "map rd_Target (cd_Rules demo_draft) = [Some \<lparr>rf_Kind = PolicyGroup, rf_InboundID = None, rf_GroupIdx = Some 0\<rparr>]"
    by code_simp
  then have "\<forall>r \<in> set (cd_Rules demo_draft). targets_known [1, 2] r"
    by (auto simp: targets_known_def inbound_known_def policy_kinds)
  ultimately show ?thesis by (simp add: draft_inbounds_known_def)
qed

lemma demo_scope: "asked_user (csr_UserId demo_config_req) = None"
  by (simp add: asked_user_def or_else_def demo_config_req_def)

theorem config_save_answers_witness:
  "fst (ConfigSave plain_marshal plain_json demo_yaml 9 demo_config_req demo_db1) = Reply ''Config saved''"
  using config_save_answers [where json = plain_marshal and unjson = plain_json and yaml = demo_yaml and now = 9,
      OF demo_db1_inv demo_draft demo_draft_known] demo_draft_valid demo_scope
  by simp

section \<open>What the form reads back\<close>

lemma decoded_normal: "DecodeConfig unjson raw = Inr draft \<Longrightarrow> draft_normal draft \<and> (\<forall>p \<in> set (cd_Providers draft). rp_ID p = 0)"
  using draftFromDTO_normal by (auto simp: DecodeConfig_def bind_err_Inr_iff) (auto simp: draftFromDTO_def providerFromDTO_def)

text \<open>
  What is saved is what the form reads back: after a save answered "Config saved", the read with the
  same scope returns a configuration that decodes to the saved draft, with the rule-providers in
  name order and the rules' provider indexes moved along, and an explicit false no-resolve dropped.
\<close>
theorem config_get_after_save:
  assumes "store_inv db" and "bind_err (json req) (DecodeConfig unjson) = Inr draft"
    and "ConfigSave json unjson yaml now req db = (Reply msg, db')"
  shows "\<exists>view. ConfigGet (asked_user (csr_UserId req)) db' = Reply view \<and> draftFromDTO view = reread draft"
proof -
  have valid: "config_error yaml draft = None"
    using assms(2,3) by (auto simp: ConfigSave_def split: option.splits)
  with assms(2,3) obtain cfg d where scope: "save_scope (or_else (csr_UserId req) 0) now db = (Inr cfg, d)"
    and saved: "SaveMihomoConfig cfg draft d = (Inr (), db')"
    by (auto simp: ConfigSave_def split: sum.splits prod.splits if_splits)
  note s = save_scope_Inr [OF assms(1) scope]
  have "get_scope (asked_user (csr_UserId req)) db' = Some cfg"
    using s save_keeps_configs [OF saved] by (simp add: get_scope_def BaseConfigID_def UserConfigID_def split: option.splits)
  moreover obtain gids pids where rb: "reads_back cfg draft gids pids db'"
    using save_tx_reads_back [of cfg draft d "()" db'] saved by (auto simp: SaveMihomoConfig_Inr)
  moreover from rb obtain rules where "Rules cfg db' = Some rules" by (auto simp: reads_back_def)
  moreover obtain raw where "DecodeConfig unjson raw = Inr draft" using assms(2) by (auto simp: bind_err_Inr_iff)
  ultimately show ?thesis
    using view_reread [OF rb] decoded_normal [of unjson raw draft] config_error_None [OF valid]
    by (auto simp: ConfigGet_def groups_ok_iff rules_ok_iff)
qed

lemma demo_saves: "\<exists>msg db'. ConfigSave plain_marshal plain_json demo_yaml 9 demo_config_req demo_db1 = (Reply msg, db')"
proof -
  obtain i d where scope: "save_scope (or_else (csr_UserId demo_config_req) 0) 9 demo_db1 = (Inr i, d)"
    using ensure_base_total [OF demo_db1_inv, of ConfigKindMihomo 9]
    by (auto simp: save_scope_def demo_config_req_def or_else_def)
  note s = save_scope_Inr [OF demo_db1_inv scope] and valid = config_error_None [OF demo_draft_valid(1)]
  then obtain db' where "save_tx i demo_draft d = Inr ((), db')"
    using save_tx_succeeds [of d i demo_draft] demo_draft_known demo_draft_valid(2) store_invD(1) [of d]
    by (auto simp: db_inv_def groups_ok_iff rules_ok_iff draft_inbounds_known_def)
  then have "SaveMihomoConfig i demo_draft d = (Inr (), db')" by (simp add: SaveMihomoConfig_Inr)
  with scope demo_draft_valid(1) show ?thesis unfolding ConfigSave_def demo_draft by simp
qed

theorem config_get_after_save_witness:
  "\<exists>msg db' view. ConfigSave plain_marshal plain_json demo_yaml 9 demo_config_req demo_db1 = (Reply msg, db') \<and>
     ConfigGet None db' = Reply view \<and> draftFromDTO view = demo_draft"
proof -
  obtain msg db' where saved: "ConfigSave plain_marshal plain_json demo_yaml 9 demo_config_req demo_db1 = (Reply msg, db')"
    using demo_saves by blast
  have "reread demo_draft = demo_draft" by code_simp
  with config_get_after_save [OF demo_db1_inv demo_draft saved] saved show ?thesis
    unfolding demo_scope by metis
qed

end
