(* ===== verification/GoUtf8.thy ===== *)
theory GoUtf8
  imports GoNet
begin

text \<open>
  UTF-8 as package \<open>unicode/utf8\<close> has it: \<open>utf8.Valid\<close>, \<open>utf8.EncodeRune\<close>, and the text Go makes of
  arbitrary bytes when it replaces every byte outside a well-formed sequence by U+FFFD.
\<close>

definition is_ascii :: "char \<Rightarrow> bool" where "is_ascii c \<longleftrightarrow> of_char c < (0x80 :: nat)"

definition rune_error :: string where "rune_error = [CHR 0xEF, CHR 0xBF, CHR 0xBD]"

fun utf8_valid :: "string \<Rightarrow> bool" where
  "utf8_valid [] = True"
| "utf8_valid (c # s) \<longleftrightarrow> (is_ascii c \<or> 1 < rune_width c s) \<and> utf8_valid (drop (rune_width c s - 1) s)"

fun to_utf8 :: "string \<Rightarrow> string" where
  "to_utf8 [] = []"
| "to_utf8 (c # s) =
     (if is_ascii c \<or> 1 < rune_width c s then c # take (rune_width c s - 1) s else rune_error) @
     to_utf8 (drop (rune_width c s - 1) s)"

definition encode_rune :: "nat \<Rightarrow> string" where
  "encode_rune n =
     (if n < 0x80 then [char_of n]
      else if n < 0x800 then [char_of (0xC0 + n div 0x40), char_of (0x80 + n mod 0x40)]
      else if n < 0x10000 then
        [char_of (0xE0 + n div 0x1000), char_of (0x80 + n div 0x40 mod 0x40), char_of (0x80 + n mod 0x40)]
      else
        [char_of (0xF0 + n div 0x40000), char_of (0x80 + n div 0x1000 mod 0x40),
         char_of (0x80 + n div 0x40 mod 0x40), char_of (0x80 + n mod 0x40)])"

lemma to_utf8_valid: "utf8_valid s \<Longrightarrow> to_utf8 s = s"
  by (induction s rule: to_utf8.induct) simp_all

lemma ascii_width: "is_ascii c \<Longrightarrow> rune_width c s = 1"
  by (simp add: is_ascii_def rune_width_def Let_def)

lemma ascii_valid: "list_all is_ascii s \<Longrightarrow> utf8_valid s"
  by (induction s) (simp_all add: ascii_width)

text \<open>A well-formed sequence has two to four bytes, all there, and is recognised by its own bytes alone.\<close>

lemma rune_width_pos [simp]: "0 < rune_width c s"
  unfolding rune_width_def Let_def by (simp split: list.split)

lemma rune_width_length: "rune_width c s \<le> 1 + length s"
  unfolding rune_width_def Let_def
  by (simp split: list.split)

lemma rune_width_take:
  assumes "1 < rune_width c s"
  shows "rune_width c (take (rune_width c s - 1) s @ t) = rune_width c s"
proof (cases s)
  case Nil
  with assms show ?thesis using rune_width_length [of c s] by simp
next
  case (Cons c1 s1)
  note s = this
  show ?thesis
  proof (cases s1)
    case Nil
    with s assms show ?thesis by (simp add: rune_width_def Let_def split: if_splits)
  next
    case (Cons c2 s2)
    with s assms show ?thesis by (cases s2; simp add: rune_width_def Let_def split: if_split_asm)
  qed
qed
lemma rune_width_not_ascii: "1 < rune_width c s \<Longrightarrow> \<not> is_ascii c"
  using ascii_width by force

end
