(* ===== verification/GoJson.thy ===== *)
theory GoJson
  imports GoUtf8 Entity
begin

text \<open>
  The part of Go's \<open>encoding/json\<close> the program uses: the scanner's grammar with its nesting limit,
  unquoting of strings, decoding into structs, slices, pointers and maps, and \<open>json.Marshal\<close> of maps,
  slices, strings, numbers and booleans.

  Parsing and decoding are separate: a text becomes a tree, where every member of an object also keeps
  the source text of its value (what a \<open>json.RawMessage\<close> receives), and a decoder stores a tree into the
  old value of a variable, as Go's decoder does. \<open>None\<close> is an error, whatever its text.
\<close>

section \<open>The tree\<close>

datatype json =
    JNull
  | JBool bool
  | JNum string
  | JStr string
  | JArr "json list"
  | JObj "(string \<times> string \<times> json) list"

definition json_space :: "char \<Rightarrow> bool" where
  "json_space c \<longleftrightarrow> c \<in> {CHR '' '', CHR 0x09, CHR 0x0D, CHR 0x0A}"

definition skip_ws :: "string \<Rightarrow> string" where "skip_ws s = dropWhile json_space s"

lemma skip_ws_Cons: "skip_ws s = c # t \<Longrightarrow> length t < length s"
  using length_dropWhile_le [of json_space s] by (simp add: skip_ws_def)

section \<open>Strings\<close>

definition hex4 :: "string \<Rightarrow> nat option" where
  "hex4 s =
     (if 4 \<le> length s \<and> list_all is_hex (take 4 s)
      then Some (foldl (\<lambda>n c. 16 * n + hex_val c) 0 (take 4 s)) else None)"

definition escaped_unit :: "string \<Rightarrow> nat option" where
  "escaped_unit s = (if HasPrefix s [CHR 0x5C, CHR ''u''] then hex4 (drop 2 s) else None)"

definition high_surrogate :: "nat \<Rightarrow> bool" where "high_surrogate n \<longleftrightarrow> 0xD800 \<le> n \<and> n < 0xDC00"
definition low_surrogate :: "nat \<Rightarrow> bool" where "low_surrogate n \<longleftrightarrow> 0xDC00 \<le> n \<and> n < 0xE000"

definition simple_escape :: "char \<Rightarrow> char option" where
  "simple_escape e =
     map_of [(CHR 0x22, CHR 0x22), (CHR 0x5C, CHR 0x5C), (CHR ''/'', CHR ''/''), (CHR ''b'', CHR 0x08),
             (CHR ''f'', CHR 0x0C), (CHR ''n'', CHR 0x0A), (CHR ''r'', CHR 0x0D), (CHR ''t'', CHR 0x09)] e"

definition text_then :: "string \<Rightarrow> (string \<times> string) option \<Rightarrow> (string \<times> string) option" where
  "text_then t r = map_option (\<lambda>(u, rest). (t @ u, rest)) r"

lemma text_then_simps [simp]: "text_then t None = None" "text_then t (Some (u, rest)) = Some (t @ u, rest)"
  by (simp_all add: text_then_def)

text \<open>
  The literal after its opening quote: the text it stands for and what follows the closing quote. An
  escaped surrogate that is not the first half of a pair, and a byte outside a well-formed UTF-8
  sequence, become U+FFFD.
\<close>

fun json_string :: "string \<Rightarrow> (string \<times> string) option" where
  "json_string [] = None"
| "json_string (c # s) =
     (if c = CHR 0x22 then Some ([], s)
      else if of_char c < (0x20 :: nat) then None
      else if c = CHR 0x5C then
        (case s of
           [] \<Rightarrow> None
         | e # t \<Rightarrow>
             if e = CHR ''u'' then
               (case hex4 t of
                  None \<Rightarrow> None
                | Some n \<Rightarrow>
                    if high_surrogate n \<or> low_surrogate n then
                      (case escaped_unit (drop 4 t) of
                         Some m \<Rightarrow>
                           if high_surrogate n \<and> low_surrogate m
                           then text_then (encode_rune (0x10000 + (n - 0xD800) * 0x400 + (m - 0xDC00)))
                                  (json_string (drop 10 t))
                           else text_then rune_error (json_string (drop 4 t))
                       | None \<Rightarrow> text_then rune_error (json_string (drop 4 t)))
                    else text_then (encode_rune n) (json_string (drop 4 t)))
             else (case simple_escape e of None \<Rightarrow> None | Some d \<Rightarrow> text_then [d] (json_string t)))
      else if is_ascii c \<or> 1 < rune_width c s then
        text_then (c # take (rune_width c s - 1) s) (json_string (drop (rune_width c s - 1) s))
      else text_then rune_error (json_string s))"

section \<open>Numbers\<close>

definition number_int :: "string \<Rightarrow> (string \<times> string) option" where
  "number_int s =
     (case s of
        [] \<Rightarrow> None
      | c # t \<Rightarrow>
          if c = CHR ''0'' then Some ([c], t)
          else if is_digit c then Some (takeWhile is_digit s, dropWhile is_digit s) else None)"

definition number_frac :: "string \<Rightarrow> (string \<times> string) option" where
  "number_frac s =
     (if HasPrefix s ''.'' then
        (let ds = takeWhile is_digit (drop 1 s)
         in if ds = [] then None else Some (CHR ''.'' # ds, dropWhile is_digit (drop 1 s)))
      else Some ([], s))"

definition number_exp :: "string \<Rightarrow> (string \<times> string) option" where
  "number_exp s =
     (case s of
        e # t \<Rightarrow>
          if e \<in> {CHR ''e'', CHR ''E''} then
            (let sign = takeWhile (\<lambda>c. c \<in> {CHR ''+'', CHR ''-''}) (take 1 t); u = drop (length sign) t;
                 ds = takeWhile is_digit u
             in if ds = [] then None else Some (e # sign @ ds, dropWhile is_digit u))
          else Some ([], s)
      | [] \<Rightarrow> Some ([], s))"

definition json_number :: "string \<Rightarrow> (string \<times> string) option" where
  "json_number s =
     (let sign = (if HasPrefix s ''-'' then ''-'' else []) in
      Option.bind (number_int (drop (length sign) s)) (\<lambda>(i, s1).
      Option.bind (number_frac s1) (\<lambda>(f, s2).
      Option.bind (number_exp s2) (\<lambda>(e, s3).
        Some (sign @ i @ f @ e, s3)))))"

section \<open>Values\<close>

definition json_literal :: "string \<Rightarrow> (json \<times> string) option" where
  "json_literal s =
     (if HasPrefix s ''null'' then Some (JNull, drop 4 s)
      else if HasPrefix s ''true'' then Some (JBool True, drop 4 s)
      else if HasPrefix s ''false'' then Some (JBool False, drop 5 s)
      else None)"

text \<open>
  A value, the elements of an array up to its closing bracket, the members of an object up to its
  closing brace. \<open>d\<close> is how many levels may still be opened. The tests that a value consumes
  something always hold (\<open>json_value_shorter\<close> below); they make the recursion well-founded.
\<close>

function (sequential) json_value :: "nat \<Rightarrow> string \<Rightarrow> (json \<times> string) option"
  and json_elems :: "nat \<Rightarrow> string \<Rightarrow> (json list \<times> string) option"
  and json_members :: "nat \<Rightarrow> string \<Rightarrow> ((string \<times> string \<times> json) list \<times> string) option" where
  "json_value d s =
     (case skip_ws s of
        [] \<Rightarrow> None
      | c # t \<Rightarrow>
          if c = CHR 0x22 then map_option (\<lambda>(x, r). (JStr x, r)) (json_string t)
          else if c = CHR ''{'' then
            (if d = 0 then None
             else if HasPrefix (skip_ws t) ''}'' then Some (JObj [], drop 1 (skip_ws t))
             else map_option (\<lambda>(ms, r). (JObj ms, r)) (json_members (d - 1) t))
          else if c = CHR ''['' then
            (if d = 0 then None
             else if HasPrefix (skip_ws t) '']'' then Some (JArr [], drop 1 (skip_ws t))
             else map_option (\<lambda>(es, r). (JArr es, r)) (json_elems (d - 1) t))
          else if c = CHR ''-'' \<or> is_digit c then map_option (\<lambda>(x, r). (JNum x, r)) (json_number (c # t))
          else json_literal (c # t))"
| "json_elems d s =
     (case json_value d s of
        None \<Rightarrow> None
      | Some (v, r) \<Rightarrow>
          (case skip_ws r of
             [] \<Rightarrow> None
           | c # t \<Rightarrow>
               if c = CHR '']'' then Some ([v], t)
               else if c = CHR '','' \<and> length t < length s
               then map_option (\<lambda>(vs, u). (v # vs, u)) (json_elems d t)
               else None))"
| "json_members d s =
     (case skip_ws s of
        [] \<Rightarrow> None
      | q # s1 \<Rightarrow>
          (if q \<noteq> CHR 0x22 then None
           else (case json_string s1 of
                   None \<Rightarrow> None
                 | Some (k, s2) \<Rightarrow>
                     (case skip_ws s2 of
                        [] \<Rightarrow> None
                      | c # s3 \<Rightarrow>
                          (if c \<noteq> CHR '':'' \<or> \<not> length s3 < length s then None
                           else (case json_value d s3 of
                                   None \<Rightarrow> None
                                 | Some (v, r) \<Rightarrow>
                                     (let raw = take (length (skip_ws s3) - length r) (skip_ws s3) in
                                      case skip_ws r of
                                        [] \<Rightarrow> None
                                      | e # t \<Rightarrow>
                                          (if e = CHR ''}'' then Some ([(k, raw, v)], t)
                                           else if e = CHR '','' \<and> length t < length s
                                           then map_option (\<lambda>(ms, u). ((k, raw, v) # ms, u)) (json_members d t)
                                           else None))))))))"
  by pat_completeness auto
termination
proof (relation "measure (\<lambda>x. case x of Inl (d, s) \<Rightarrow> 2 * length s
                        | Inr (Inl (d, s)) \<Rightarrow> 2 * length s + 1 | Inr (Inr (d, s)) \<Rightarrow> 2 * length s + 1)")
qed (auto dest!: skip_ws_Cons)


declare json_value.simps [simp del] json_elems.simps [simp del] json_members.simps [simp del]

definition max_depth :: nat where "max_depth = 10000"

definition json_parse :: "string \<Rightarrow> json option" where
  "json_parse s =
     (case json_value max_depth s of
        None \<Rightarrow> None
      | Some (v, r) \<Rightarrow> if skip_ws r = [] then Some v else None)"

section \<open>Decoding\<close>

text \<open>
  A decoder stores a value into the old contents of a variable: \<open>null\<close> leaves scalars and structs as
  they are and clears pointers, slices and maps; a value of another type is an error. A slice keeps the
  elements it already has as the old contents of the new ones.
\<close>

type_synonym 'a dec = "json \<Rightarrow> 'a \<Rightarrow> 'a option"

definition into_string :: "string dec" where
  "into_string j old = (case j of JNull \<Rightarrow> Some old | JStr s \<Rightarrow> Some s | _ \<Rightarrow> None)"

definition into_bool :: "bool dec" where
  "into_bool j old = (case j of JNull \<Rightarrow> Some old | JBool b \<Rightarrow> Some b | _ \<Rightarrow> None)"

text \<open>\<open>int\<close> has 64 bits; a fraction, an exponent or a number out of range is an error.\<close>

definition into_int :: "int dec" where
  "into_int j old = (case j of JNull \<Rightarrow> Some old | JNum t \<Rightarrow> ParseInt t | _ \<Rightarrow> None)"

definition into_int64 :: "i64 dec" where
  "into_int64 j old =
     (case j of JNull \<Rightarrow> Some old | JNum t \<Rightarrow> map_option word_of_int (ParseInt t) | _ \<Rightarrow> None)"

definition into_slice :: "'a dec \<Rightarrow> 'a \<Rightarrow> 'a list dec" where
  "into_slice d zero j old =
     (case j of
        JNull \<Rightarrow> Some []
      | JArr es \<Rightarrow> those (map (\<lambda>(i, e). d e (if i < length old then old ! i else zero)) (enumerate 0 es))
      | _ \<Rightarrow> None)"

definition into_ptr :: "'a dec \<Rightarrow> 'a \<Rightarrow> 'a option dec" where
  "into_ptr d zero j old =
     (case j of JNull \<Rightarrow> Some None | _ \<Rightarrow> map_option Some (d j (case old of Some x \<Rightarrow> x | None \<Rightarrow> zero)))"

text \<open>A Go map of strings is an association list with distinct keys.\<close>

definition into_string_map :: "(string \<times> string) list dec" where
  "into_string_map j old =
     (case j of
        JNull \<Rightarrow> Some []
      | JObj ms \<Rightarrow> foldl (\<lambda>acc (k, _, v). Option.bind acc (\<lambda>m. map_option (\<lambda>x. AList.update k x m) (into_string v [])))
                   (Some old) ms
      | _ \<Rightarrow> None)"

text \<open>
  A struct is its list of fields: the name in the tag and how the field is stored, from the source text
  and the tree. A member's key matches the field of its exact name, else one of the same folded name;
  the letters outside ASCII that fold to a letter are U+017F (s) and U+212A (k). Members that match no
  field are skipped.
\<close>

type_synonym 'a field = "string \<times> (string \<Rightarrow> json \<Rightarrow> 'a \<Rightarrow> 'a option)"

fun fold_name :: "string \<Rightarrow> string" where
  "fold_name [] = []"
| "fold_name (c # s) =
     (if c = CHR 0xC5 \<and> take 1 s = [CHR 0xBF] then CHR ''s'' # fold_name (drop 1 s)
      else if c = CHR 0xE2 \<and> take 2 s = [CHR 0x84, CHR 0xAA] then CHR ''k'' # fold_name (drop 2 s)
      else lower_char c # fold_name s)"

definition find_field :: "'a field list \<Rightarrow> string \<Rightarrow> 'a field option" where
  "find_field fs k =
     (case find (\<lambda>f. fst f = k) fs of
        Some f \<Rightarrow> Some f
      | None \<Rightarrow> find (\<lambda>f. fold_name (fst f) = fold_name k) fs)"

definition into_struct :: "'a field list \<Rightarrow> 'a dec" where
  "into_struct fs j old =
     (case j of
        JNull \<Rightarrow> Some old
      | JObj ms \<Rightarrow>
          foldl (\<lambda>acc (k, raw, v). Option.bind acc (\<lambda>r.
                   case find_field fs k of None \<Rightarrow> Some r | Some (_, store) \<Rightarrow> store raw v r)) (Some old) ms
      | _ \<Rightarrow> None)"

definition field_of :: "string \<Rightarrow> 'b dec \<Rightarrow> ('a \<Rightarrow> 'b) \<Rightarrow> (('b \<Rightarrow> 'b) \<Rightarrow> 'a \<Rightarrow> 'a) \<Rightarrow> 'a field" where
  "field_of name d get upd = (name, \<lambda>_ v r. map_option (\<lambda>x. upd (\<lambda>_. x) r) (d v (get r)))"

definition raw_field :: "string \<Rightarrow> ((string \<Rightarrow> string) \<Rightarrow> 'a \<Rightarrow> 'a) \<Rightarrow> 'a field" where
  "raw_field name upd = (name, \<lambda>raw _ r. Some (upd (\<lambda>_. raw) r))"

text \<open>\<open>json.Unmarshal\<close> into a variable that holds \<open>old\<close>.\<close>

definition Unmarshal :: "'a dec \<Rightarrow> string \<Rightarrow> 'a \<Rightarrow> 'a option" where
  "Unmarshal d text old = Option.bind (json_parse text) (\<lambda>j. d j old)"

section \<open>Encoding\<close>

datatype jval =
    VBool bool
  | VInt int
  | VStr string
  | VArr "jval list"
  | VObj "(string \<times> jval) list"

definition hex_lower :: "nat \<Rightarrow> char" where "hex_lower n = ''0123456789abcdef'' ! n"

definition backslash :: char where "backslash = CHR 0x5C"

text \<open>\<open>json.Marshal\<close> also escapes the characters that are special in HTML, and U+2028 and U+2029.\<close>

definition quote_char :: "char \<Rightarrow> string" where
  "quote_char c =
     (if c = CHR 0x22 \<or> c = backslash then [backslash, c]
      else if c = CHR 0x08 then [backslash, CHR ''b'']
      else if c = CHR 0x0C then [backslash, CHR ''f'']
      else if c = CHR 0x0A then [backslash, CHR ''n'']
      else if c = CHR 0x0D then [backslash, CHR ''r'']
      else if c = CHR 0x09 then [backslash, CHR ''t'']
      else if of_char c < (0x20 :: nat) \<or> c \<in> {CHR ''<'', CHR ''>'', CHR ''&''} then
        backslash # ''u00'' @ [hex_lower (of_char c div 16), hex_lower (of_char c mod 16)]
      else [c])"

definition quote_rune :: "string \<Rightarrow> string" where
  "quote_rune u =
     (if u = [CHR 0xE2, CHR 0x80, CHR 0xA8] then backslash # ''u2028''
      else if u = [CHR 0xE2, CHR 0x80, CHR 0xA9] then backslash # ''u2029''
      else u)"

fun quote_body :: "string \<Rightarrow> string" where
  "quote_body [] = []"
| "quote_body (c # s) =
     (if is_ascii c then quote_char c
      else if 1 < rune_width c s then quote_rune (c # take (rune_width c s - 1) s)
      else backslash # ''ufffd'') @
     quote_body (drop (rune_width c s - 1) s)"

definition json_quote :: "string \<Rightarrow> string" where
  "json_quote s = CHR 0x22 # quote_body s @ [CHR 0x22]"

fun print_json :: "jval \<Rightarrow> string" where
  "print_json (VBool b) = (if b then ''true'' else ''false'')"
| "print_json (VInt i) = Itoa i"
| "print_json (VStr s) = json_quote s"
| "print_json (VArr vs) = ''['' @ Join (map print_json vs) '','' @ '']''"
| "print_json (VObj ms) = ''{'' @ Join (map (\<lambda>(k, v). json_quote k @ '':'' @ print_json v) ms) '','' @ ''}''"

text \<open>The keys of a map come out sorted.\<close>

definition map_val :: "(string \<times> jval) list \<Rightarrow> jval" where
  "map_val ms = VObj (sort_key fst ms)"

end
