(* ===== verification/XuiClient.thy ===== *)
theory XuiClient
  imports GoJson Provisioning
begin

text \<open>
  The adapter to the 3x-ui panel API (\<open>internal/clients/xui\<close>): the requests it builds, the answers it
  accepts, and the wire format of an inbound with its two nested JSON documents.

  The network is a function from a request to an answer: the status and as much of the body as could
  be read, or the text of a transport error. \<open>uuid.Parse\<close> (package \<open>github.com/google/uuid\<close>) is the
  parameter \<open>parse_uuid\<close>, which returns the value and whether there was no error.
\<close>

section \<open>Requests (client.go)\<close>

record http_req =
  hq_method :: string
  hq_url :: string
  hq_headers :: "(string \<times> string) list"
  hq_body :: "string option"

datatype http_answer =
    NoAnswer string
  | Answer int string

type_synonym network = "http_req \<Rightarrow> http_answer"

datatype xui_error =
    BadURL string
  | Transport string string string
  | BadStatus string string int
  | BadReply string
  | PanelRefused string string
  | BadInbound int

definition TrimSlash :: "string \<Rightarrow> string" where
  "TrimSlash s = TrimRightSlash (dropWhile (\<lambda>c. c = CHR ''/'') s)"

definition reqURL :: "PanelTarget \<Rightarrow> string \<Rightarrow> string" where
  "reqURL t path =
     (let base = TrimRightSlash (pt_BaseURL t) @ ''/'' @ TrimSlash (pt_BasePath t);
          base = TrimRightSlash base
      in base @ path)"

text \<open>\<open>http.NewRequestWithContext\<close> fails when the URL does not parse.\<close>

definition newRequest :: "string \<Rightarrow> string \<Rightarrow> (string \<times> string) list \<Rightarrow> string option \<Rightarrow> xui_error + http_req" where
  "newRequest m url headers body =
     (case url_Parse url of
        None \<Rightarrow> Inl (BadURL url)
      | Some _ \<Rightarrow> Inr \<lparr>hq_method = m, hq_url = url, hq_headers = headers, hq_body = body\<rparr>)"

definition StatusOK :: int where "StatusOK = 200"

definition get :: "network \<Rightarrow> PanelTarget \<Rightarrow> string \<Rightarrow> xui_error + string" where
  "get net t path =
     bind_err (newRequest ''GET'' (reqURL t path) [(''Authorization'', ''Bearer '' @ pt_Token t)] None) (\<lambda>req.
     case net req of
       NoAnswer msg \<Rightarrow> Inl (Transport ''GET'' path msg)
     | Answer status raw \<Rightarrow>
         (let body = take (2 ^ 24) raw in
          if status \<noteq> StatusOK then Inl (BadStatus ''GET'' path status) else Inr body))"

record envelope =
  en_Success :: bool
  en_Msg :: string

definition envelope_zero :: envelope where "envelope_zero = \<lparr>en_Success = False, en_Msg = []\<rparr>"

definition envelope_fields :: "envelope field list" where
  "envelope_fields =
     [field_of ''success'' into_bool en_Success en_Success_update,
      field_of ''msg'' into_string en_Msg en_Msg_update]"

definition postJSON :: "network \<Rightarrow> PanelTarget \<Rightarrow> string \<Rightarrow> jval option \<Rightarrow> xui_error option" where
  "postJSON net t path body =
     (case newRequest ''POST'' (reqURL t path)
             [(''Authorization'', ''Bearer '' @ pt_Token t), (''Content-Type'', ''application/json'')]
             (map_option print_json body) of
        Inl e \<Rightarrow> Some e
      | Inr req \<Rightarrow>
          (case net req of
             NoAnswer msg \<Rightarrow> Some (Transport ''POST'' path msg)
           | Answer status raw \<Rightarrow>
               if status \<noteq> StatusOK then Some (BadStatus ''POST'' path status)
               else (case Unmarshal (into_struct envelope_fields) (take (2 ^ 20) raw) envelope_zero of
                       None \<Rightarrow> Some (BadReply path)
                     | Some r \<Rightarrow>
                         if \<not> en_Success r then Some (PanelRefused path (TrimSpace (en_Msg r))) else None)))"

section \<open>The wire format (model.go)\<close>

record ClientStat =
  cst_Email :: string
  cst_UUID :: string
  cst_SubID :: string
  cst_Up :: i64
  cst_Down :: i64
  cst_Total :: i64
  cst_ExpiryTime :: i64
  cst_Enable :: bool

definition ClientStat_zero :: ClientStat where
  "ClientStat_zero =
     \<lparr>cst_Email = [], cst_UUID = [], cst_SubID = [], cst_Up = 0, cst_Down = 0, cst_Total = 0, cst_ExpiryTime = 0,
      cst_Enable = False\<rparr>"

definition ClientStat_fields :: "ClientStat field list" where
  "ClientStat_fields =
     [field_of ''email'' into_string cst_Email cst_Email_update,
      field_of ''uuid'' into_string cst_UUID cst_UUID_update,
      field_of ''subId'' into_string cst_SubID cst_SubID_update,
      field_of ''up'' into_int64 cst_Up cst_Up_update,
      field_of ''down'' into_int64 cst_Down cst_Down_update,
      field_of ''total'' into_int64 cst_Total cst_Total_update,
      field_of ''expiryTime'' into_int64 cst_ExpiryTime cst_ExpiryTime_update,
      field_of ''enable'' into_bool cst_Enable cst_Enable_update]"

record SettingsClient =
  sc_ID :: string
  sc_Email :: string
  sc_Flow :: string
  sc_SubID :: string
  sc_TotalGB :: i64
  sc_ExpiryTime :: i64
  sc_Enable :: bool

definition SettingsClient_zero :: SettingsClient where
  "SettingsClient_zero =
     \<lparr>sc_ID = [], sc_Email = [], sc_Flow = [], sc_SubID = [], sc_TotalGB = 0, sc_ExpiryTime = 0, sc_Enable = False\<rparr>"

definition SettingsClient_fields :: "SettingsClient field list" where
  "SettingsClient_fields =
     [field_of ''id'' into_string sc_ID sc_ID_update,
      field_of ''email'' into_string sc_Email sc_Email_update,
      field_of ''flow'' into_string sc_Flow sc_Flow_update,
      field_of ''subId'' into_string sc_SubID sc_SubID_update,
      field_of ''totalGB'' into_int64 sc_TotalGB sc_TotalGB_update,
      field_of ''expiryTime'' into_int64 sc_ExpiryTime sc_ExpiryTime_update,
      field_of ''enable'' into_bool sc_Enable sc_Enable_update]"

record inboundSettings =
  is_Clients :: "SettingsClient list"

definition inboundSettings_zero :: inboundSettings where "inboundSettings_zero = \<lparr>is_Clients = []\<rparr>"

definition inboundSettings_fields :: "inboundSettings field list" where
  "inboundSettings_fields =
     [field_of ''clients'' (into_slice (into_struct SettingsClient_fields) SettingsClient_zero)
        is_Clients is_Clients_update]"

record RealityClient =
  rc_PublicKey :: string
  rc_Fingerprint :: string
  rc_SpiderX :: string

record RealitySettings =
  re_ServerNames :: "string list"
  re_ShortIds :: "string list"
  re_Settings :: RealityClient

record TLSSettings =
  tl_ServerName :: string
  tl_ALPN :: "string list"

record WSSettings =
  ws_Path :: string
  ws_Headers :: "(string \<times> string) list"

record GRPCSettings =
  gr_ServiceName :: string

record streamSettings =
  ss_Network :: string
  ss_Security :: string
  ss_Reality :: "RealitySettings option"
  ss_TLS :: "TLSSettings option"
  ss_WS :: "WSSettings option"
  ss_GRPC :: "GRPCSettings option"

definition RealitySettings_zero :: RealitySettings where
  "RealitySettings_zero =
     \<lparr>re_ServerNames = [], re_ShortIds = [],
      re_Settings = \<lparr>rc_PublicKey = [], rc_Fingerprint = [], rc_SpiderX = []\<rparr>\<rparr>"

definition streamSettings_zero :: streamSettings where
  "streamSettings_zero =
     \<lparr>ss_Network = [], ss_Security = [], ss_Reality = None, ss_TLS = None, ss_WS = None, ss_GRPC = None\<rparr>"

definition RealityClient_fields :: "RealityClient field list" where
  "RealityClient_fields =
     [field_of ''publicKey'' into_string rc_PublicKey rc_PublicKey_update,
      field_of ''fingerprint'' into_string rc_Fingerprint rc_Fingerprint_update,
      field_of ''spiderX'' into_string rc_SpiderX rc_SpiderX_update]"

definition RealitySettings_fields :: "RealitySettings field list" where
  "RealitySettings_fields =
     [field_of ''serverNames'' (into_slice into_string []) re_ServerNames re_ServerNames_update,
      field_of ''shortIds'' (into_slice into_string []) re_ShortIds re_ShortIds_update,
      field_of ''settings'' (into_struct RealityClient_fields) re_Settings re_Settings_update]"

definition TLSSettings_fields :: "TLSSettings field list" where
  "TLSSettings_fields =
     [field_of ''serverName'' into_string tl_ServerName tl_ServerName_update,
      field_of ''alpn'' (into_slice into_string []) tl_ALPN tl_ALPN_update]"

definition WSSettings_fields :: "WSSettings field list" where
  "WSSettings_fields =
     [field_of ''path'' into_string ws_Path ws_Path_update,
      field_of ''headers'' into_string_map ws_Headers ws_Headers_update]"

definition GRPCSettings_fields :: "GRPCSettings field list" where
  "GRPCSettings_fields = [field_of ''serviceName'' into_string gr_ServiceName gr_ServiceName_update]"

definition streamSettings_fields :: "streamSettings field list" where
  "streamSettings_fields =
     [field_of ''network'' into_string ss_Network ss_Network_update,
      field_of ''security'' into_string ss_Security ss_Security_update,
      field_of ''realitySettings'' (into_ptr (into_struct RealitySettings_fields) RealitySettings_zero)
        ss_Reality ss_Reality_update,
      field_of ''tlsSettings'' (into_ptr (into_struct TLSSettings_fields) \<lparr>tl_ServerName = [], tl_ALPN = []\<rparr>)
        ss_TLS ss_TLS_update,
      field_of ''wsSettings'' (into_ptr (into_struct WSSettings_fields) \<lparr>ws_Path = [], ws_Headers = []\<rparr>)
        ss_WS ss_WS_update,
      field_of ''grpcSettings'' (into_ptr (into_struct GRPCSettings_fields) \<lparr>gr_ServiceName = []\<rparr>)
        ss_GRPC ss_GRPC_update]"

record inbound =
  ib_ID :: int
  ib_Port :: int
  ib_Protocol :: string
  ib_Remark :: string
  ib_Enable :: bool
  ib_Settings :: string
  ib_StreamSettings :: string
  ib_ClientStats :: "ClientStat list"
  ib_clients :: "SettingsClient list option"
  ib_stream :: "streamSettings option"

definition inbound_zero :: inbound where
  "inbound_zero =
     \<lparr>ib_ID = 0, ib_Port = 0, ib_Protocol = [], ib_Remark = [], ib_Enable = False, ib_Settings = [],
      ib_StreamSettings = [], ib_ClientStats = [], ib_clients = None, ib_stream = None\<rparr>"

definition inbound_fields :: "inbound field list" where
  "inbound_fields =
     [field_of ''id'' into_int ib_ID ib_ID_update,
      field_of ''port'' into_int ib_Port ib_Port_update,
      field_of ''protocol'' into_string ib_Protocol ib_Protocol_update,
      field_of ''remark'' into_string ib_Remark ib_Remark_update,
      field_of ''enable'' into_bool ib_Enable ib_Enable_update,
      raw_field ''settings'' ib_Settings_update,
      raw_field ''streamSettings'' ib_StreamSettings_update,
      field_of ''clientStats'' (into_slice (into_struct ClientStat_fields) ClientStat_zero)
        ib_ClientStats ib_ClientStats_update]"

text \<open>The two nested documents arrive as objects or, from older panels, as strings that hold them.\<close>

definition unwrapJSON :: "'a dec \<Rightarrow> string \<Rightarrow> 'a \<Rightarrow> 'a option" where
  "unwrapJSON d text v =
     (let raw = TrimSpace text in
      if raw = [] \<or> raw = ''null'' \<or> raw = [CHR 0x22, CHR 0x22] then Some v
      else if HasPrefix raw [CHR 0x22] then
        (case Unmarshal into_string raw [] of
           None \<Rightarrow> None
         | Some s \<Rightarrow> if TrimSpace s = [] then Some v else Unmarshal d s v)
      else Unmarshal d raw v)"

definition decode :: "inbound \<Rightarrow> inbound option" where
  "decode ib =
     Option.bind
       (case ib_stream ib of
          None \<Rightarrow>
            map_option (\<lambda>s. ib\<lparr>ib_stream := Some s\<rparr>)
              (unwrapJSON (into_struct streamSettings_fields) (ib_StreamSettings ib) streamSettings_zero)
        | Some _ \<Rightarrow> Some ib)
       (\<lambda>ib. case ib_clients ib of
          None \<Rightarrow>
            map_option (\<lambda>s. ib\<lparr>ib_clients := Some (is_Clients s)\<rparr>)
              (unwrapJSON (into_struct inboundSettings_fields) (ib_Settings ib) inboundSettings_zero)
        | Some _ \<Rightarrow> Some ib)"

definition StreamInfo_zero :: StreamInfo where
  "StreamInfo_zero =
     \<lparr>st_Network = [], st_Security = [], st_PublicKey = [], st_ShortID = [], st_ServerName = [],
      st_Fingerprint = [], st_SNI = [], st_ALPN = [], st_WSPath = [], st_WSHost = [], st_GRPCService = []\<rparr>"

definition first_or_empty :: "string list \<Rightarrow> string" where
  "first_or_empty xs = (case xs of [] \<Rightarrow> [] | x # _ \<Rightarrow> x)"

definition toStreamInfo :: "streamSettings \<Rightarrow> StreamInfo" where
  "toStreamInfo st =
     (let si = StreamInfo_zero\<lparr>st_Network := ss_Network st, st_Security := ss_Security st\<rparr>;
          si = (if ss_Security st = ''reality'' then
                  (case ss_Reality st of
                     None \<Rightarrow> si
                   | Some r \<Rightarrow> si\<lparr>st_PublicKey := rc_PublicKey (re_Settings r),
                                st_Fingerprint := rc_Fingerprint (re_Settings r),
                                st_ShortID := first_or_empty (re_ShortIds r),
                                st_ServerName := first_or_empty (re_ServerNames r)\<rparr>)
                else if ss_Security st = ''tls'' then
                  (case ss_TLS st of
                     None \<Rightarrow> si
                   | Some t \<Rightarrow> si\<lparr>st_SNI := tl_ServerName t, st_ALPN := tl_ALPN t\<rparr>)
                else si)
      in if ss_Network st = ''ws'' then
           (case ss_WS st of
              None \<Rightarrow> si
            | Some w \<Rightarrow> si\<lparr>st_WSPath := ws_Path w,
                         st_WSHost := (case map_of (ws_Headers w) ''Host'' of Some h \<Rightarrow> h | None \<Rightarrow> [])\<rparr>)
         else if ss_Network st = ''grpc'' then
           (case ss_GRPC st of None \<Rightarrow> si | Some g \<Rightarrow> si\<lparr>st_GRPCService := gr_ServiceName g\<rparr>)
         else si)"

definition toPanelClient :: "(string \<Rightarrow> UUID \<times> bool) \<Rightarrow> SettingsClient \<Rightarrow> PanelClient" where
  "toPanelClient parse_uuid sc =
     \<lparr>pc_UUID = fst (parse_uuid (sc_ID sc)), pc_Email = sc_Email sc, pc_Flow = sc_Flow sc, pc_SubID = sc_SubID sc\<rparr>"

definition toPanelStat :: "(string \<Rightarrow> UUID \<times> bool) \<Rightarrow> ClientStat \<Rightarrow> PanelClientStat option" where
  "toPanelStat parse_uuid cs =
     (case parse_uuid (cst_UUID cs) of
        (_, False) \<Rightarrow> None
      | (u, True) \<Rightarrow>
          Some \<lparr>ps_Email = cst_Email cs, ps_UUID = u, ps_SubID = cst_SubID cs, ps_Up = cst_Up cs,
                ps_Down = cst_Down cs, ps_Total = cst_Total cs, ps_Expiry = cst_ExpiryTime cs,
                ps_Enable = cst_Enable cs\<rparr>)"

definition toPanelInbound :: "(string \<Rightarrow> UUID \<times> bool) \<Rightarrow> inbound \<Rightarrow> PanelInbound" where
  "toPanelInbound parse_uuid ib =
     \<lparr>pi_ID = ib_ID ib, pi_Port = ib_Port ib, pi_Remark = ib_Remark ib, pi_Enable = ib_Enable ib,
      pi_Stream = (case ib_stream ib of None \<Rightarrow> StreamInfo_zero | Some st \<Rightarrow> toStreamInfo st),
      pi_Clients = map (toPanelClient parse_uuid) (case ib_clients ib of None \<Rightarrow> [] | Some cs \<Rightarrow> cs),
      pi_Stats = List.map_filter (toPanelStat parse_uuid) (ib_ClientStats ib)\<rparr>"

section \<open>The operations\<close>

record list_reply =
  lr_Success :: bool
  lr_Msg :: string
  lr_Obj :: "inbound list"

definition list_reply_zero :: list_reply where
  "list_reply_zero = \<lparr>lr_Success = False, lr_Msg = [], lr_Obj = []\<rparr>"

definition list_reply_fields :: "list_reply field list" where
  "list_reply_fields =
     [field_of ''success'' into_bool lr_Success lr_Success_update,
      field_of ''msg'' into_string lr_Msg lr_Msg_update,
      field_of ''obj'' (into_slice (into_struct inbound_fields) inbound_zero) lr_Obj lr_Obj_update]"

definition list_path :: string where "list_path = ''/panel/api/inbounds/list''"

definition ListInbounds :: "(string \<Rightarrow> UUID \<times> bool) \<Rightarrow> network \<Rightarrow> PanelTarget \<Rightarrow> xui_error + PanelInbound list" where
  "ListInbounds parse_uuid net t =
     bind_err (get net t list_path) (\<lambda>body.
     case Unmarshal (into_struct list_reply_fields) body list_reply_zero of
       None \<Rightarrow> Inl (BadReply ''list'')
     | Some r \<Rightarrow>
         if \<not> lr_Success r then Inl (PanelRefused ''list'' (TrimSpace (lr_Msg r)))
         else map_err (\<lambda>ib. case decode ib of
                None \<Rightarrow> Inl (BadInbound (ib_Port ib))
              | Some ib' \<Rightarrow> Inr (toPanelInbound parse_uuid ib')) (lr_Obj r))"

definition client_val :: "ClientSpec \<Rightarrow> jval" where
  "client_val cs =
     map_val
       [(''id'', VStr (cs_ID cs)), (''email'', VStr (cs_Email cs)), (''flow'', VStr (cs_Flow cs)),
        (''enable'', VBool True), (''subId'', VStr (cs_SubID cs)), (''totalGB'', VInt 0),
        (''expiryTime'', VInt 0), (''limitIp'', VInt 0), (''tgId'', VInt 0), (''reset'', VInt 0),
        (''comment'', VStr ''client managed by SubGen'')]"

definition add_body :: "int list \<Rightarrow> ClientSpec \<Rightarrow> jval" where
  "add_body inboundIDs cs = map_val [(''client'', client_val cs), (''inboundIds'', VArr (map VInt inboundIDs))]"

definition AddClient :: "network \<Rightarrow> PanelTarget \<Rightarrow> int list \<Rightarrow> ClientSpec \<Rightarrow> xui_error option" where
  "AddClient net t inboundIDs cs = postJSON net t ''/panel/api/clients/add'' (Some (add_body inboundIDs cs))"

definition DelClient :: "network \<Rightarrow> PanelTarget \<Rightarrow> string \<Rightarrow> xui_error option" where
  "DelClient net t email = postJSON net t (''/panel/api/clients/del/'' @ PathEscape email) None"

text \<open>
  The panels of the provisioning service, reached through this client: \<open>net\<close> may answer differently
  after every call, \<open>text\<close> is the text of an error.
\<close>

definition xui_panels ::
  "(string \<Rightarrow> UUID \<times> bool) \<Rightarrow> (xui_error \<Rightarrow> string) \<Rightarrow> (panel_call list \<Rightarrow> network) \<Rightarrow> panels" where
  "xui_panels parse_uuid err_text net =
     \<lparr>pn_list = (\<lambda>h t. case ListInbounds parse_uuid (net h) t of Inl e \<Rightarrow> Inl (err_text e) | Inr ps \<Rightarrow> Inr ps),
      pn_add = (\<lambda>h t ids cs. map_option err_text (AddClient (net h) t ids cs)),
      pn_del = (\<lambda>h t email. map_option err_text (DelClient (net h) t email))\<rparr>"

end
