(* ===== verification/GoJsonFacts.thy ===== *)
theory GoJsonFacts
  imports GoJson
begin

text \<open>
  What \<open>json.Marshal\<close> prints, \<open>json.Unmarshal\<close> reads: a quoted string is unquoted to the same text
  (with bytes that are not UTF-8 replaced), and the tree of a printed value is the tree of the value.
  Parsing consumes something, so the guards of the parser never refuse a text.
\<close>

section \<open>The parser consumes\<close>

lemma text_then_Some: "text_then t m = Some (u, r) \<longleftrightarrow> (\<exists>v. m = Some (v, r) \<and> u = t @ v)"
  by (auto simp: text_then_def)

lemma json_string_shorter: "json_string s = Some (t, r) \<Longrightarrow> length r < length s"
proof (induction s arbitrary: t rule: json_string.induct)
  case (2 c s)
  then show ?case
    by (auto simp: text_then_Some split: if_splits list.splits option.splits)
      (fastforce simp: text_then_Some dest: order_trans less_le_trans)+
qed simp

lemma json_number_shorter: "json_number s = Some (x, r) \<Longrightarrow> length r < length s"
proof -
  assume n: "json_number s = Some (x, r)"
  define sign where "sign = (if HasPrefix s ''-'' then ''-'' else [])"
  from n obtain i s1 f s2 e where
    i: "number_int (drop (length sign) s) = Some (i, s1)" and f: "number_frac s1 = Some (f, s2)"
    and e: "number_exp s2 = Some (e, r)"
    unfolding json_number_def Let_def sign_def [symmetric] by (auto simp: bind_eq_Some_conv)
  have le: "length (dropWhile P u) \<le> length u" for P and u :: string by (rule length_dropWhile_le)
  have "length s1 < length (drop (length sign) s)"
  proof (cases "drop (length sign) s")
    case (Cons c t)
    have "length s1 \<le> length t"
      using i Cons le [of is_digit t] by (auto simp: number_int_def split: if_split_asm)
    with Cons show ?thesis by simp
  qed (use i in \<open>simp add: number_int_def\<close>)
  moreover have "length s2 \<le> length s1"
    using f le [of is_digit "drop 1 s1"] by (auto simp: number_frac_def Let_def split: if_splits)
  moreover have "length r \<le> length s2"
  proof (cases s2)
    case (Cons a t)
    define sg where "sg = takeWhile (\<lambda>c. c \<in> {CHR ''+'', CHR ''-''}) (take 1 t)"
    from e Cons show ?thesis using le [of is_digit "drop (length sg) t"]
      by (auto simp: number_exp_def Let_def sg_def split: if_splits)
  qed (use e in \<open>simp add: number_exp_def\<close>)
  ultimately show ?thesis by simp
qed

lemma json_literal_shorter: "json_literal s = Some (x, r) \<Longrightarrow> length r < length s"
  by (auto simp: json_literal_def HasPrefix_iff prefix_def split: if_splits)

lemma json_members_Some:
  assumes "json_members d s = Some (ms, r)"
  obtains s1 k s2 s3 v r' e t where
    "skip_ws s = CHR 0x22 # s1" "json_string s1 = Some (k, s2)" "skip_ws s2 = CHR '':'' # s3"
    "length s3 < length s" "json_value d s3 = Some (v, r')" "skip_ws r' = e # t"
    "e = CHR ''}'' \<and> r = t \<or>
     e \<noteq> CHR ''}'' \<and> e = CHR '','' \<and> length t < length s \<and> (\<exists>ms'. json_members d t = Some (ms', r))"
proof -
  note m = assms [unfolded json_members.simps [of d s]]
  from m obtain s1 where s1: "skip_ws s = CHR 0x22 # s1"
    by (cases "skip_ws s") (simp_all split: if_split_asm)
  from m obtain k s2 where s2: "json_string s1 = Some (k, s2)"
    by (cases "json_string s1") (auto simp: s1)
  from m obtain s3 where s3: "skip_ws s2 = CHR '':'' # s3" "length s3 < length s"
    by (cases "skip_ws s2") (simp_all add: s1 s2 split: if_split_asm)
  from m obtain v r' where v: "json_value d s3 = Some (v, r')"
    by (cases "json_value d s3") (auto simp: s1 s2 s3)
  from m obtain e t where t: "skip_ws r' = e # t"
    by (cases "skip_ws r'") (simp_all add: s1 s2 s3 v Let_def)
  from m have "e = CHR ''}'' \<and> r = t \<or>
     e \<noteq> CHR ''}'' \<and> e = CHR '','' \<and> length t < length s \<and> (\<exists>ms'. json_members d t = Some (ms', r))"
    by (auto simp: s1 s2 s3 v t Let_def split: if_split_asm)
  with s1 s2 s3 v t show thesis by (rule that)
qed

lemma json_value_shorter:
  "json_value d s = Some (v, r) \<Longrightarrow> length r < length s"
  "json_elems d s = Some (vs, r) \<Longrightarrow> length r < length s"
  "json_members d s = Some (ms, r) \<Longrightarrow> length r < length s"
proof (induction d s and d s and d s arbitrary: v r and vs r and ms r
    rule: json_value_json_elems_json_members.induct)
  case (1 d s)
  show ?case
  proof (cases "skip_ws s")
    case Nil
    with "1.prems" show ?thesis by (simp add: json_value.simps)
  next
    case (Cons c t)
    have "length r < Suc (length t)"
    proof -
      consider (str) x where "json_string t = Some (x, r)"
        | (empty) "r = drop 1 (skip_ws t)"
        | (obj) ms where "c = CHR ''{''" "d \<noteq> 0" "\<not> HasPrefix (skip_ws t) ''}''" "json_members (d - 1) t = Some (ms, r)"
        | (arr) es where "c = CHR ''[''" "d \<noteq> 0" "\<not> HasPrefix (skip_ws t) '']''" "json_elems (d - 1) t = Some (es, r)"
        | (num) x where "json_number (c # t) = Some (x, r)"
        | (lit) x where "json_literal (c # t) = Some (x, r)"
        using "1.prems" by (auto simp: json_value.simps [of d s] Cons split: if_split_asm)
      then show ?thesis
      proof cases
        case str
        then show ?thesis by (simp add: json_string_shorter less_SucI)
      next
        case empty
        then show ?thesis using length_dropWhile_le [of json_space t] by (simp add: skip_ws_def)
      next
        case obj
        then show ?thesis using "1.IH"(1) [OF Cons] by (simp add: less_SucI)
      next
        case arr
        then show ?thesis using "1.IH"(2) [OF Cons] by (simp add: less_SucI)
      next
        case num
        then show ?thesis using json_number_shorter by force
      next
        case lit
        then show ?thesis using json_literal_shorter by force
      qed
    qed
    with skip_ws_Cons [OF Cons] show ?thesis by simp
  qed
next
  case (2 d s)
  then obtain w r' where v: "json_value d s = Some (w, r')"
    by (auto simp: json_elems.simps [of d s] split: option.splits)
  with "2.IH"(1) have r': "length r' < length s" by blast
  from "2.prems" v obtain c t where t: "skip_ws r' = c # t"
    by (cases "skip_ws r'") (auto simp: json_elems.simps [of d s])
  from skip_ws_Cons [OF t] r' "2.prems" "2.IH"(2) [OF v refl t] show ?case
    by (auto simp: json_elems.simps [of d s] v t split: if_split_asm)
next
  case (3 d s)
  from "3.prems" show ?case
  proof (cases rule: json_members_Some)
    case (1 s1 k s2 s3 v r' e t)
    have "length r' < length s3" using "3.IH"(1) 1 by auto
    then have t: "length t < length s" using skip_ws_Cons 1(4,6) by fastforce
    show ?thesis
    proof (cases "e = CHR ''}''")
      case True
      with 1(7) t show ?thesis by simp
    next
      case False
      then show ?thesis using "3.IH"(2) 1 t by fastforce
    qed
  qed
qed

section \<open>Strings are read back\<close>

lemmas hex_digit_defs = is_hex_def hex_val_def char_class_defs less_eq_char_def

lemma hex_lower_val: "k < 16 \<Longrightarrow> is_hex (hex_lower k) \<and> hex_val (hex_lower k) = k"
proof -
  have all: "\<forall>k \<in> set [0..<16]. is_hex (hex_lower k) \<and> hex_val (hex_lower k) = k"
    by (simp add: upt_rec hex_lower_def hex_digit_defs)
  assume "k < 16"
  then have "k \<in> set [0..<16]" by simp
  with all show ?thesis by blast
qed

lemma hex4_digits:
  "hex4 (a # b # c # d # x) =
     (if is_hex a \<and> is_hex b \<and> is_hex c \<and> is_hex d
      then Some (16 * (16 * (16 * hex_val a + hex_val b) + hex_val c) + hex_val d) else None)"
  by (simp add: hex4_def)

lemma hex_digit_values:
  "is_hex CHR ''0''" "hex_val CHR ''0'' = 0" "is_hex CHR ''2''" "hex_val CHR ''2'' = 2"
  "is_hex CHR ''8''" "hex_val CHR ''8'' = 8" "is_hex CHR ''9''" "hex_val CHR ''9'' = 9"
  "is_hex CHR ''d''" "hex_val CHR ''d'' = 13" "is_hex CHR ''f''" "hex_val CHR ''f'' = 15"
  by (simp_all add: hex_digit_defs)

lemma hex4_byte:
  assumes "n < 256"
  shows "hex4 (CHR ''0'' # CHR ''0'' # hex_lower (n div 16) # hex_lower (n mod 16) # x) = Some n"
proof -
  have "n div 16 < 16" using assms by simp
  then show ?thesis using hex_lower_val [of "n div 16"] hex_lower_val [of "n mod 16"]
    by (simp add: hex4_digits hex_digit_values)
qed

lemma hex4_ufffd: "hex4 (''fffd'' @ x) = Some 0xFFFD"
  by (simp add: hex4_digits hex_digit_values)

lemma hex4_2028: "hex4 (''2028'' @ x) = Some 0x2028" "hex4 (''2029'' @ x) = Some 0x2029"
  by (simp_all add: hex4_digits hex_digit_values)

lemma encode_rune_fixed:
  "encode_rune 0xFFFD = rune_error" "encode_rune 0x2028 = [CHR 0xE2, CHR 0x80, CHR 0xA8]"
  "encode_rune 0x2029 = [CHR 0xE2, CHR 0x80, CHR 0xA9]"
  by (simp_all add: encode_rune_def rune_error_def char_of_eq_iff take_bit_eq_mod)

lemma json_string_escape:
  "simple_escape e = Some d \<Longrightarrow> e \<noteq> CHR ''u'' \<Longrightarrow> json_string (backslash # e # x) = text_then [d] (json_string x)"
  by (simp add: backslash_def)

lemma json_string_unit:
  "hex4 (u @ x) = Some n \<Longrightarrow> length u = 4 \<Longrightarrow> n < 0xD800 \<or> 0xE000 \<le> n \<Longrightarrow>
   json_string (backslash # CHR ''u'' # u @ x) = text_then (encode_rune n) (json_string x)"
  by (auto simp: backslash_def high_surrogate_def low_surrogate_def)

lemma json_string_plain:
  "is_ascii c \<Longrightarrow> 0x20 \<le> (of_char c :: nat) \<Longrightarrow> c \<noteq> CHR 0x22 \<Longrightarrow> c \<noteq> CHR 0x5C \<Longrightarrow>
   json_string (c # x) = text_then [c] (json_string x)"
  by (simp add: ascii_width)

lemma json_string_quote_char:
  assumes "is_ascii c"
  shows "json_string (quote_char c @ x) = text_then [c] (json_string x)"
proof -
  have byte: "(of_char c :: nat) < 256" "char_of (of_char c :: nat) = c" by simp_all
  consider (esc) e where "simple_escape e = Some c" "e \<noteq> CHR ''u''" "quote_char c = [backslash, e]"
    | (unit) "quote_char c = backslash # ''u00'' @ [hex_lower (of_char c div 16), hex_lower (of_char c mod 16)]"
    | (plain) "quote_char c = [c]" "0x20 \<le> (of_char c :: nat)" "c \<noteq> CHR 0x22" "c \<noteq> CHR 0x5C"
  proof (cases "c = CHR 0x22 \<or> c = backslash \<or> c = CHR 0x08 \<or> c = CHR 0x0C \<or> c = CHR 0x0A \<or> c = CHR 0x0D \<or> c = CHR 0x09")
    case True
    then show thesis using esc
      by (elim disjE) (force simp: quote_char_def backslash_def simple_escape_def)+
  next
    case False
    then show thesis using unit plain by (cases "of_char c < (0x20 :: nat) \<or> c \<in> {CHR ''<'', CHR ''>'', CHR ''&''}")
        (auto simp: quote_char_def backslash_def not_less)
  qed
  then show ?thesis
  proof cases
    case esc
    then show ?thesis by (simp add: json_string_escape del: json_string.simps)
  next
    case unit
    have "encode_rune (of_char c) = [c]" using assms by (simp add: encode_rune_def is_ascii_def)
    moreover have "json_string (backslash # CHR ''u'' # (''00'' @ [hex_lower (of_char c div 16), hex_lower (of_char c mod 16)]) @ x)
        = text_then (encode_rune (of_char c)) (json_string x)"
      using assms by (intro json_string_unit) (simp_all add: hex4_byte is_ascii_def)
    ultimately show ?thesis by (simp add: unit del: json_string.simps)
  next
    case plain
    with assms show ?thesis by (simp add: json_string_plain del: json_string.simps)
  qed
qed

lemma json_string_quote_rune:
  assumes "1 < rune_width c s"
  shows "json_string (quote_rune (c # take (rune_width c s - 1) s) @ x)
    = text_then (c # take (rune_width c s - 1) s) (json_string x)"
proof -
  define u where "u = take (rune_width c s - 1) s"
  have len: "length u = rune_width c s - 1" using rune_width_length [of c s] by (simp add: u_def min_absorb2)
  have na: "\<not> is_ascii c" using assms by (rule rune_width_not_ascii)
  then have "0x80 \<le> (of_char c :: nat)" by (simp add: is_ascii_def)
  then have plain: "c \<noteq> CHR 0x22" "\<not> (of_char c :: nat) < 0x20" "c \<noteq> CHR 0x5C" by auto
  have w: "rune_width c (u @ x) = rune_width c s"
    unfolding u_def by (rule rune_width_take [OF assms])
  show ?thesis
  proof (cases "c # u = [CHR 0xE2, CHR 0x80, CHR 0xA8] \<or> c # u = [CHR 0xE2, CHR 0x80, CHR 0xA9]")
    case True
    have "json_string (backslash # CHR ''u'' # ''2028'' @ x) = text_then (encode_rune 0x2028) (json_string x)"
      by (rule json_string_unit) (simp_all add: hex4_2028 [simplified])
    moreover have "json_string (backslash # CHR ''u'' # ''2029'' @ x) = text_then (encode_rune 0x2029) (json_string x)"
      by (rule json_string_unit) (simp_all add: hex4_2028 [simplified])
    ultimately show ?thesis using True
      unfolding u_def [symmetric] by (auto simp: quote_rune_def encode_rune_fixed simp del: json_string.simps)
  next
    case False
    then have "quote_rune (c # u) = c # u" by (simp add: quote_rune_def)
    then show ?thesis using plain w assms len unfolding u_def [symmetric] by simp
  qed
qed

lemma json_string_quoted: "json_string (quote_body s @ CHR 0x22 # r) = Some (to_utf8 s, r)"
proof (induction s rule: quote_body.induct)
  case (2 c s)
  define w where "w = rune_width c s"
  consider (ascii) "is_ascii c" | (wide) "\<not> is_ascii c" "1 < w" | (bad) "\<not> is_ascii c" "\<not> 1 < w" by blast
  then show ?case
  proof cases
    case ascii
    with 2 show ?thesis by (simp add: json_string_quote_char ascii_width del: json_string.simps)
  next
    case wide
    with 2 show ?thesis by (simp add: json_string_quote_rune w_def del: json_string.simps One_nat_def)
  next
    case bad
    have "json_string (backslash # CHR ''u'' # ''fffd'' @ x) = text_then (encode_rune 0xFFFD) (json_string x)" for x
      by (rule json_string_unit) (simp_all add: hex4_ufffd [simplified])
    with bad 2 show ?thesis by (simp add: w_def encode_rune_fixed del: json_string.simps)
  qed
qed simp

section \<open>Printed values are read back\<close>

text \<open>The tree of a printed value; \<open>nests d\<close> says it opens at most \<open>d\<close> levels.\<close>

fun tree :: "jval \<Rightarrow> json" where
  "tree (VBool b) = JBool b"
| "tree (VInt i) = JNum (Itoa i)"
| "tree (VStr s) = JStr (to_utf8 s)"
| "tree (VArr vs) = JArr (map tree vs)"
| "tree (VObj ms) = JObj (map (\<lambda>(k, v). (to_utf8 k, print_json v, tree v)) ms)"

fun nests :: "nat \<Rightarrow> jval \<Rightarrow> bool" where
  "nests d (VArr vs) \<longleftrightarrow> 0 < d \<and> (\<forall>v \<in> set vs. nests (d - 1) v)"
| "nests d (VObj ms) \<longleftrightarrow> 0 < d \<and> (\<forall>(k, v) \<in> set ms. nests (d - 1) v)"
| "nests d _ \<longleftrightarrow> True"

text \<open>What follows a value inside a text: nothing, a comma or a closing bracket.\<close>

definition ends :: "string \<Rightarrow> bool" where
  "ends r \<longleftrightarrow> (case r of [] \<Rightarrow> True | c # _ \<Rightarrow> c \<in> {CHR '','', CHR '']'', CHR ''}''})"

lemma ends_simps [simp]: "ends []" "ends (CHR '','' # r)" "ends (CHR '']'' # r)" "ends (CHR ''}'' # r)"
  by (simp_all add: ends_def)

lemma ends_no_digit: "ends r \<Longrightarrow> takeWhile is_digit r = [] \<and> dropWhile is_digit r = r"
  by (cases r) (auto simp: ends_def char_class_defs less_eq_char_def)

lemma ends_number: "ends r \<Longrightarrow> number_frac r = Some ([], r) \<and> number_exp r = Some ([], r)"
  by (cases r) (auto simp: ends_def number_frac_def number_exp_def HasPrefix_def)

lemma digits_Cons: "\<exists>c ds. digits n = c # ds \<and> is_digit c"
  using digits_all [of n] by (cases "digits n") auto

lemma digits_zero: "digits n = CHR ''0'' # ds \<Longrightarrow> ds = []"
proof (induction n arbitrary: ds rule: digits.induct)
  case (1 n)
  show ?case
  proof (cases "n < 10")
    case True
    with 1 show ?thesis by (simp add: digits.simps [of n])
  next
    case False
    then have n: "digits n = digits (n div 10) @ [char_of (48 + n mod 10)]" by (simp add: digits.simps [of n])
    obtain c es where c: "digits (n div 10) = c # es" using digits_Cons by blast
    with n 1 False have "es = []" "c = CHR ''0''" by auto
    with c have "undigits (digits (n div 10)) = 0" by (simp add: undigits_def)
    with False show ?thesis by (simp add: undigits_digits)
  qed
qed

lemma number_int_digits: "ends r \<Longrightarrow> number_int (digits n @ r) = Some (digits n, r)"
proof -
  assume r: "ends r"
  obtain c ds where c: "digits n = c # ds" "is_digit c" using digits_Cons by blast
  have all: "list_all is_digit (c # ds)" using digits_all(1) [of n] c by simp
  then have "takeWhile is_digit (ds @ r) = ds" "dropWhile is_digit (ds @ r) = r"
    using ends_no_digit [OF r] by (simp_all add: list_all_iff)
  then show ?thesis using c digits_zero [of n ds] by (auto simp: number_int_def)
qed

lemma json_number_Itoa:
  assumes "ends r"
  shows "json_number (Itoa i @ r) = Some (Itoa i, r)"
proof -
  have "\<not> HasPrefix (digits n @ r) ''-''" for n
    using digits_Cons [of n] by (auto simp: HasPrefix_def char_class_defs less_eq_char_def)
  then show ?thesis using number_int_digits [OF assms] ends_number [OF assms]
    by (simp add: json_number_def Itoa_def HasPrefix_def)
qed

lemma skip_ws_first: "\<not> json_space c \<Longrightarrow> skip_ws (c # s) = c # s"
  by (simp add: skip_ws_def)

lemma digit_not_space: "is_digit c \<Longrightarrow> \<not> json_space c"
  by (auto simp: json_space_def char_class_defs less_eq_char_def)

lemma Itoa_first: "\<exists>c s. Itoa i = c # s \<and> (c = CHR ''-'' \<or> is_digit c)"
  using digits_Cons [of "nat i"] by (auto simp: Itoa_def)

lemma print_first: "\<exists>c s. print_json v = c # s \<and> \<not> json_space c \<and> c \<noteq> CHR ''}'' \<and> c \<noteq> CHR '']''"
proof (cases v)
  case (VInt i)
  then show ?thesis using Itoa_first [of i]
    by (auto simp: digit_not_space json_space_def) (auto simp: char_class_defs less_eq_char_def)
qed (auto simp: json_quote_def json_space_def)

lemma skip_ws_print [simp]: "skip_ws (print_json v @ r) = print_json v @ r"
  using print_first [of v] by (auto simp: skip_ws_first)

lemma Join_cons: "xs \<noteq> [] \<Longrightarrow> Join (x # xs) sep = x @ sep @ Join xs sep"
  by (cases xs) simp_all

lemma read_elems:
  assumes "vs \<noteq> []" "\<And>v r. v \<in> set vs \<Longrightarrow> ends r \<Longrightarrow> json_value d (print_json v @ r) = Some (tree v, r)"
  shows "json_elems d (Join (map print_json vs) '','' @ CHR '']'' # r) = Some (map tree vs, r)"
  using assms
proof (induction vs rule: induct_list012)
  case (2 v)
  then show ?case by (simp add: json_elems.simps skip_ws_first json_space_def)
next
  case (3 v w vs)
  let ?rest = "Join (map print_json (w # vs)) '','' @ CHR '']'' # r"
  have "json_elems d ?rest = Some (map tree (w # vs), r)" using 3 by simp
  moreover have "json_value d (print_json v @ CHR '','' # ?rest) = Some (tree v, CHR '','' # ?rest)" using 3(4) by simp
  ultimately show ?case by (simp add: json_elems.simps [of d "print_json v @ _"] skip_ws_first json_space_def)
qed simp

definition member_text :: "string \<times> jval \<Rightarrow> string" where
  "member_text = (\<lambda>(k, v). json_quote k @ '':'' @ print_json v)"

lemma read_member:
  assumes "json_value d (print_json v @ e # t) = Some (tree v, e # t)" "\<not> json_space e"
  shows "json_members d (member_text (k, v) @ e # t) =
    (if e = CHR ''}'' then Some ([(to_utf8 k, print_json v, tree v)], t)
     else if e = CHR '','' then map_option (\<lambda>(ms, u). ((to_utf8 k, print_json v, tree v) # ms, u)) (json_members d t)
     else None)"
proof -
  let ?s = "CHR 0x22 # quote_body k @ CHR 0x22 # CHR '':'' # print_json v @ e # t"
  have s: "member_text (k, v) @ e # t = ?s" by (simp add: member_text_def json_quote_def)
  have "skip_ws ?s = ?s" "skip_ws (CHR '':'' # print_json v @ e # t) = CHR '':'' # print_json v @ e # t"
    "skip_ws (e # t) = e # t"
    using assms(2) by (simp_all add: skip_ws_first json_space_def)
  then show ?thesis
    unfolding s by (simp add: json_members.simps [of d ?s] json_string_quoted assms(1) Let_def del: json_string.simps)
qed

lemma read_members:
  assumes "ms \<noteq> []"
    "\<And>k v r. (k, v) \<in> set ms \<Longrightarrow> ends r \<Longrightarrow> json_value d (print_json v @ r) = Some (tree v, r)"
  shows "json_members d (Join (map member_text ms) '','' @ CHR ''}'' # r)
    = Some (map (\<lambda>(k, v). (to_utf8 k, print_json v, tree v)) ms, r)"
  using assms
proof (induction ms rule: induct_list012)
  case (2 m)
  obtain k v where m: "m = (k, v)" by (cases m)
  have "json_value d (print_json v @ CHR ''}'' # r) = Some (tree v, CHR ''}'' # r)" using 2 m by simp
  from read_member [OF this] show ?case by (simp add: m json_space_def)
next
  case (3 m n ms)
  obtain k v where m: "m = (k, v)" by (cases m)
  let ?rest = "Join (map member_text (n # ms)) '','' @ CHR ''}'' # r"
  have rest: "json_members d ?rest = Some (map (\<lambda>(k, v). (to_utf8 k, print_json v, tree v)) (n # ms), r)"
    using 3(4) by (intro 3(2)) auto
  have "json_value d (print_json v @ CHR '','' # ?rest) = Some (tree v, CHR '','' # ?rest)"
    using 3(4) [of k v "CHR '','' # ?rest"] m by simp
  from read_member [OF this] rest show ?case by (simp add: m json_space_def)
qed simp

lemma Join_nonempty_first:
  "xs \<noteq> [] \<Longrightarrow> (\<And>x. x \<in> set xs \<Longrightarrow> \<exists>c s. x = c # s \<and> P c) \<Longrightarrow> \<exists>c s. Join xs sep = c # s \<and> P c"
  by (induction xs rule: induct_list012) fastforce+

lemma no_close:
  assumes "xs \<noteq> []" "\<And>x. x \<in> set xs \<Longrightarrow> \<exists>c s. x = c # s \<and> \<not> json_space c \<and> c \<noteq> CHR ''}'' \<and> c \<noteq> CHR '']''"
  shows "\<not> HasPrefix (skip_ws (Join xs sep @ r)) ''}''" "\<not> HasPrefix (skip_ws (Join xs sep @ r)) '']''"
  using Join_nonempty_first [OF assms, of sep] by (auto simp: skip_ws_first HasPrefix_def)

lemma json_value_print:
  "nests d v \<Longrightarrow> ends r \<Longrightarrow> json_value d (print_json v @ r) = Some (tree v, r)"
proof (induction d v arbitrary: r rule: nests.induct [case_names array object bool int str])
  case (array d vs)
  show ?case
  proof (cases "vs = []")
    case True
    with array show ?thesis by (simp add: json_value.simps skip_ws_first json_space_def HasPrefix_def)
  next
    case False
    have "\<not> HasPrefix (skip_ws (Join (map print_json vs) '','' @ x)) '']''" for x
      using False print_first by (intro no_close) auto
    moreover have "json_elems (d - 1) (Join (map print_json vs) '','' @ CHR '']'' # r) = Some (map tree vs, r)"
      using array False by (intro read_elems) auto
    ultimately show ?thesis using array(2)
      by (simp add: json_value.simps [of d "CHR ''['' # _"] skip_ws_first json_space_def)
  qed
next
  case (object d ms)
  show ?case
  proof (cases "ms = []")
    case True
    with object show ?thesis by (simp add: json_value.simps skip_ws_first json_space_def HasPrefix_def)
  next
    case False
    have "\<not> HasPrefix (skip_ws (Join (map member_text ms) '','' @ x)) ''}''" for x
      using False by (intro no_close) (auto simp: member_text_def json_quote_def json_space_def)
    moreover have "json_members (d - 1) (Join (map member_text ms) '','' @ CHR ''}'' # r)
      = Some (map (\<lambda>(k, v). (to_utf8 k, print_json v, tree v)) ms, r)"
      using object False by (intro read_members) fastforce+
    ultimately show ?thesis using object(2)
      by (simp add: json_value.simps [of d "CHR ''{'' # _"] skip_ws_first json_space_def member_text_def)
  qed
next
  case (bool d b)
  then show ?case by (simp add: json_value.simps skip_ws_first json_space_def HasPrefix_def json_literal_def is_digit_def between_def)
next
  case (int d i)
  obtain c s where c: "Itoa i = c # s" "c = CHR ''-'' \<or> is_digit c" using Itoa_first by blast
  moreover have "c \<noteq> CHR 0x22" "c \<noteq> CHR ''{''" "c \<noteq> CHR ''[''" "\<not> json_space c"
    using c(2) digit_not_space [of c] by (auto simp: json_space_def char_class_defs less_eq_char_def)
  ultimately show ?case using json_number_Itoa [OF int(2), of i]
    by (simp add: json_value.simps [of d "c # _"] skip_ws_first)
next
  case (str d s)
  then show ?case
    by (simp add: json_value.simps [of d "CHR 0x22 # _"] json_quote_def skip_ws_first json_space_def json_string_quoted
        del: json_string.simps)
qed

lemma json_parse_print: "nests max_depth v \<Longrightarrow> json_parse (print_json v) = Some (tree v)"
  using json_value_print [of max_depth v "[]"] by (simp add: json_parse_def skip_ws_def)

end
