(* ===== verification/XuiFacts.thy ===== *)
theory XuiFacts
  imports XuiClient GoJsonFacts NodesService
begin

text \<open>
  What the panel client promises: the two forms of the nested documents decode alike, a listing comes
  only from a successful answer, a client reported as added was sent whole, a deletion names its e-mail
  in one path segment.
\<close>

section \<open>Strings that hold documents\<close>

lemma json_string_step:
  assumes "json_string (c # s) = Some (t, r)" "c \<noteq> CHR 0x22"
  shows "\<exists>n u. json_string (drop n s) = Some (u, r)"
proof (cases "c = CHR 0x5C")
  case True
  with assms obtain e x where s: "s = e # x" by (cases s) auto
  have "\<exists>n u. json_string (drop n x) = Some (u, r)"
  proof (cases "e = CHR ''u''")
    case True
    with assms \<open>c = CHR 0x5C\<close> s show ?thesis
      by (auto simp: text_then_Some split: option.splits if_split_asm)
  next
    case False
    with assms \<open>c = CHR 0x5C\<close> s have "\<exists>u. json_string (drop 0 x) = Some (u, r)"
      by (auto simp: text_then_Some split: option.splits)
    then show ?thesis by blast
  qed
  then obtain n u where "json_string (drop (Suc n) s) = Some (u, r)" by (auto simp: s)
  then show ?thesis by blast
next
  case False
  consider u where "json_string (drop 0 s) = Some (u, r)"
    | u where "json_string (drop (rune_width c s - 1) s) = Some (u, r)"
    using assms False by (auto simp: text_then_Some split: if_split_asm)
  then show ?thesis by cases blast+
qed

lemma json_string_closed: "json_string s = Some (t, r) \<Longrightarrow> \<exists>q. s = q @ CHR 0x22 # r"
proof (induction s arbitrary: t rule: length_induct)
  case (1 s)
  then obtain c s' where s: "s = c # s'" by (cases s) auto
  show ?case
  proof (cases "c = CHR 0x22")
    case True
    with 1(2) s show ?thesis by auto
  next
    case False
    with 1(2) s obtain n u where n: "json_string (drop n s') = Some (u, r)" using json_string_step by blast
    with 1(1) s obtain q where "drop n s' = q @ CHR 0x22 # r" by fastforce
    then have "s = (c # take n s' @ q) @ CHR 0x22 # r" using s by (metis append_Cons append_assoc append_take_drop_id)
    then show ?thesis by blast
  qed
qed

lemma no_space_run: "c \<notin> hd ` set space_runes \<Longrightarrow> strip_left space_runes (c # s) = c # s"
  by (rule strip_left_id) (force simp: prefix_Cons image_iff)

lemma no_space_run_back: "c \<notin> last ` set space_runes \<Longrightarrow> strip_left (map rev space_runes) (c # s) = c # s"
  by (rule strip_left_id) (force simp: prefix_Cons image_iff last_rev hd_rev)

lemma TrimSpace_quoted: "TrimSpace (CHR 0x22 # q @ [CHR 0x22]) = CHR 0x22 # q @ [CHR 0x22]"
proof -
  have "CHR 0x22 \<notin> hd ` set space_runes" "CHR 0x22 \<notin> last ` set space_runes" by (simp_all add: space_runes_def)
  then show ?thesis by (simp add: TrimSpace_def no_space_run no_space_run_back)
qed

lemma TrimSpace_literal: "json_string q = Some (t, []) \<Longrightarrow> TrimSpace (CHR 0x22 # q) = CHR 0x22 # q"
  using json_string_closed TrimSpace_quoted by fastforce

lemma Unmarshal_literal:
  "json_string q = Some (t, []) \<Longrightarrow> Unmarshal into_string (CHR 0x22 # q) v = Some t"
  by (simp add: Unmarshal_def json_parse_def json_value.simps skip_ws_def json_space_def into_string_def
      del: json_string.simps)

text \<open>A document and a string literal that holds it: \<open>q\<close> is the literal after its opening quote.\<close>

lemma unwrap_literal:
  assumes q: "json_string q = Some (t, [])" and t: "TrimSpace t = t" "\<not> HasPrefix t [CHR 0x22]"
    and null: "d JNull v = Some v"
  shows "unwrapJSON d (CHR 0x22 # q) v = unwrapJSON d t v"
proof -
  have q_ne: "q \<noteq> []" using q by auto
  show ?thesis
  proof (cases "q = [CHR 0x22]")
    case True
    with q have "t = []" by simp
    with True show ?thesis using TrimSpace_literal [OF q] by (simp add: unwrapJSON_def)
  next
    case False
    have lit: "unwrapJSON d (CHR 0x22 # q) v = (if t = [] then Some v else Unmarshal d t v)"
      using False TrimSpace_literal [OF q] Unmarshal_literal [OF q]
      by (simp add: unwrapJSON_def HasPrefix_def t(1))
    have "Unmarshal d ''null'' v = Some v"
      using null by (simp add: Unmarshal_def json_parse_def json_value.simps skip_ws_def json_space_def
          json_literal_def HasPrefix_def is_digit_def between_def less_eq_char_def)
    then show ?thesis using t unfolding lit by (auto simp: unwrapJSON_def HasPrefix_def)
  qed
qed

lemma into_struct_null: "into_struct fs JNull v = Some v"
  by (simp add: into_struct_def)

text \<open>
  C18: An older panel sends the two nested documents of an inbound as strings, a newer one as objects.
  Whatever literal the older panel writes for a document, the inbound the client hands out is the same.
\<close>

theorem string_and_object_forms_agree:
  assumes "json_string q1 = Some (settings, [])" "json_string q2 = Some (stream, [])"
    and "TrimSpace settings = settings" "\<not> HasPrefix settings [CHR 0x22]"
    and "TrimSpace stream = stream" "\<not> HasPrefix stream [CHR 0x22]"
    and "ib_clients ib = None" "ib_stream ib = None"
  shows "map_option (toPanelInbound parse_uuid)
           (decode (ib\<lparr>ib_Settings := CHR 0x22 # q1, ib_StreamSettings := CHR 0x22 # q2\<rparr>)) =
         map_option (toPanelInbound parse_uuid)
           (decode (ib\<lparr>ib_Settings := settings, ib_StreamSettings := stream\<rparr>))"
proof -
  note 1 = unwrap_literal [where d = "into_struct inboundSettings_fields" and v = inboundSettings_zero,
      OF assms(1,3,4) into_struct_null]
  note 2 = unwrap_literal [where d = "into_struct streamSettings_fields" and v = streamSettings_zero,
      OF assms(2,5,6) into_struct_null]
  show ?thesis
    by (cases "unwrapJSON (into_struct streamSettings_fields) stream streamSettings_zero";
        cases "unwrapJSON (into_struct inboundSettings_fields) settings inboundSettings_zero")
      (simp_all add: decode_def assms(7,8) 1 2 toPanelInbound_def)
qed

section \<open>Listing\<close>

definition list_request :: "PanelTarget \<Rightarrow> http_req" where
  "list_request t =
     \<lparr>hq_method = ''GET'', hq_url = reqURL t list_path,
      hq_headers = [(''Authorization'', ''Bearer '' @ pt_Token t)], hq_body = None\<rparr>"

lemma get_Inr:
  "get net t list_path = Inr body \<longleftrightarrow>
     url_Parse (reqURL t list_path) \<noteq> None \<and>
     (\<exists>raw. net (list_request t) = Answer StatusOK raw \<and> body = take (2 ^ 24) raw)"
  by (auto simp: get_def newRequest_def list_request_def bind_err_def Let_def simp del: power_numeral
      split: option.splits http_answer.splits if_splits)

lemma decode_keeps: "decode ib = Some ib' \<Longrightarrow>
  ib_Port ib' = ib_Port ib \<and> ib_ID ib' = ib_ID ib \<and> ib_ClientStats ib' = ib_ClientStats ib"
  by (auto simp: decode_def bind_eq_Some_conv split: option.splits)

lemma stat_credential: "toPanelStat parse_uuid cs = Some s \<Longrightarrow> \<exists>u. parse_uuid u = (ps_UUID s, True)"
  by (auto simp: toPanelStat_def split: prod.splits bool.splits)

lemma panel_credential: "s \<in> set (pi_Stats (toPanelInbound parse_uuid ib)) \<Longrightarrow> \<exists>u. parse_uuid u = (ps_UUID s, True)"
  by (auto simp: toPanelInbound_def in_set_map_filter dest: stat_credential)

lemma ListInbounds_Inr:
  assumes "ListInbounds parse_uuid net t = Inr ps"
  shows "\<exists>raw r. net (list_request t) = Answer StatusOK raw \<and>
           Unmarshal (into_struct list_reply_fields) (take (2 ^ 24) raw) list_reply_zero = Some r \<and>
           lr_Success r \<and> map pi_Port ps = map ib_Port (lr_Obj r) \<and>
           (\<forall>p \<in> set ps. \<forall>s \<in> set (pi_Stats p). \<exists>u. parse_uuid u = (ps_UUID s, True))"
proof -
  from assms obtain body r where body: "get net t list_path = Inr body"
    and r: "Unmarshal (into_struct list_reply_fields) body list_reply_zero = Some r" "lr_Success r"
    and ps: "map_err (\<lambda>ib. case decode ib of None \<Rightarrow> Inl (BadInbound (ib_Port ib))
               | Some ib' \<Rightarrow> Inr (toPanelInbound parse_uuid ib')) (lr_Obj r) = Inr ps"
    by (auto simp: ListInbounds_def bind_err_Inr_iff split: option.splits if_splits)
  have each: "list_all2 (\<lambda>ib p. pi_Port p = ib_Port ib \<and>
      (\<forall>s \<in> set (pi_Stats p). \<exists>u. parse_uuid u = (ps_UUID s, True))) (lr_Obj r) ps"
    using map_err_InrD [OF ps]
  proof (rule list_all2_mono)
    fix ib p
    assume "(case decode ib of None \<Rightarrow> Inl (BadInbound (ib_Port ib))
      | Some ib' \<Rightarrow> Inr (toPanelInbound parse_uuid ib')) = Inr p"
    then obtain ib' where "decode ib = Some ib'" "p = toPanelInbound parse_uuid ib'" by (auto split: option.splits)
    then show "pi_Port p = ib_Port ib \<and> (\<forall>s \<in> set (pi_Stats p). \<exists>u. parse_uuid u = (ps_UUID s, True))"
      using decode_keeps panel_credential by (auto simp: toPanelInbound_def)
  qed
  then have "map pi_Port ps = map ib_Port (lr_Obj r)" by (induction rule: list_all2_induct) simp_all
  moreover from each have "\<forall>p \<in> set ps. \<forall>s \<in> set (pi_Stats p). \<exists>u. parse_uuid u = (ps_UUID s, True)"
    by (induction rule: list_all2_induct) simp_all
  moreover from body obtain raw where "net (list_request t) = Answer StatusOK raw" "body = take (2 ^ 24) raw"
    unfolding get_Inr by (elim conjE exE)
  ultimately show ?thesis using r by (intro exI [of _ raw] exI [of _ r] conjI) simp_all
qed

text \<open>
  A listing comes only from an answer with status 200 whose body, cut at 16 MiB, parses and says
  success; it has one entry per inbound of the body with its port, and every statistic in it carries a
  credential that parsed.
\<close>

theorem listing_needs_success:
  assumes "ListInbounds parse_uuid net t = Inr ps"
  shows "\<exists>raw r. net (list_request t) = Answer StatusOK raw \<and>
           Unmarshal (into_struct list_reply_fields) (take (2 ^ 24) raw) list_reply_zero = Some r \<and>
           lr_Success r \<and> map pi_Port ps = map ib_Port (lr_Obj r) \<and>
           (\<forall>p \<in> set ps. \<forall>s \<in> set (pi_Stats p). \<exists>u. parse_uuid u = (ps_UUID s, True))"
  using ListInbounds_Inr [OF assms] .

section \<open>Adding and deleting\<close>

lemma client_val_eq:
  "client_val cs = VObj
     [(''comment'', VStr ''client managed by SubGen''), (''email'', VStr (cs_Email cs)), (''enable'', VBool True),
      (''expiryTime'', VInt 0), (''flow'', VStr (cs_Flow cs)), (''id'', VStr (cs_ID cs)), (''limitIp'', VInt 0),
      (''reset'', VInt 0), (''subId'', VStr (cs_SubID cs)), (''tgId'', VInt 0), (''totalGB'', VInt 0)]"
  by (simp add: client_val_def map_val_def sort_key_def less_char_def)

lemma add_body_eq:
  "add_body ids cs = VObj [(''client'', client_val cs), (''inboundIds'', VArr (map VInt ids))]"
  by (simp add: add_body_def map_val_def sort_key_def less_char_def)

lemma nests_add_body: "nests max_depth (add_body ids cs)"
  by (simp add: add_body_eq client_val_eq max_depth_def)

definition add_request :: "PanelTarget \<Rightarrow> int list \<Rightarrow> ClientSpec \<Rightarrow> http_req" where
  "add_request t ids cs =
     \<lparr>hq_method = ''POST'', hq_url = reqURL t ''/panel/api/clients/add'',
      hq_headers = [(''Authorization'', ''Bearer '' @ pt_Token t), (''Content-Type'', ''application/json'')],
      hq_body = Some (print_json (add_body ids cs))\<rparr>"

lemma postJSON_None:
  assumes "postJSON net t path body = None"
  shows "\<exists>raw r. net \<lparr>hq_method = ''POST'', hq_url = reqURL t path,
             hq_headers = [(''Authorization'', ''Bearer '' @ pt_Token t), (''Content-Type'', ''application/json'')],
             hq_body = map_option print_json body\<rparr> = Answer StatusOK raw \<and>
           Unmarshal (into_struct envelope_fields) (take (2 ^ 20) raw) envelope_zero = Some r \<and> en_Success r"
  using assms
  by (auto simp: postJSON_def newRequest_def simp del: power_numeral
      split: option.splits http_answer.splits if_splits sum.splits)

definition spec_utf8 :: "ClientSpec \<Rightarrow> bool" where
  "spec_utf8 cs \<longleftrightarrow>
     utf8_valid (cs_ID cs) \<and> utf8_valid (cs_Email cs) \<and> utf8_valid (cs_Flow cs) \<and> utf8_valid (cs_SubID cs)"

lemma wire_keys:
  "to_utf8 ''client'' = ''client''" "to_utf8 ''inboundIds'' = ''inboundIds''" "to_utf8 ''comment'' = ''comment''"
  "to_utf8 ''email'' = ''email''" "to_utf8 ''enable'' = ''enable''" "to_utf8 ''expiryTime'' = ''expiryTime''"
  "to_utf8 ''flow'' = ''flow''" "to_utf8 ''id'' = ''id''" "to_utf8 ''limitIp'' = ''limitIp''"
  "to_utf8 ''reset'' = ''reset''" "to_utf8 ''subId'' = ''subId''" "to_utf8 ''tgId'' = ''tgId''"
  "to_utf8 ''totalGB'' = ''totalGB''"
  by (rule to_utf8_valid [OF ascii_valid], simp add: is_ascii_def)+

lemma plain_keys:
  "fold_name ''comment'' = ''comment''" "fold_name ''limitIp'' = ''limitip''" "fold_name ''reset'' = ''reset''"
  "fold_name ''tgId'' = ''tgid''" "fold_name ''id'' = ''id''" "fold_name ''email'' = ''email''"
  "fold_name ''flow'' = ''flow''" "fold_name ''subId'' = ''subid''" "fold_name ''totalGB'' = ''totalgb''"
  "fold_name ''expiryTime'' = ''expirytime''" "fold_name ''enable'' = ''enable''"
  by code_simp+

lemma skipped_key: "(\<forall>f \<in> set fs. fold_name (fst f) \<noteq> fold_name k) \<Longrightarrow> find_field fs k = None"
proof -
  assume none: "\<forall>f \<in> set fs. fold_name (fst f) \<noteq> fold_name k"
  then have "find (\<lambda>f. fst f = k) fs = None" by (auto simp: find_None_iff)
  moreover have "find (\<lambda>f. fold_name (fst f) = fold_name k) fs = None" using none by (auto simp: find_None_iff)
  ultimately show ?thesis by (simp add: find_field_def)
qed

lemma skipped_keys:
  "find_field SettingsClient_fields ''comment'' = None" "find_field SettingsClient_fields ''limitIp'' = None"
  "find_field SettingsClient_fields ''reset'' = None" "find_field SettingsClient_fields ''tgId'' = None"
  by (rule skipped_key, simp add: SettingsClient_fields_def field_of_def plain_keys del: fold_name.simps)+

definition stored :: "'a field list \<Rightarrow> string \<Rightarrow> string \<Rightarrow> json \<Rightarrow> 'a \<Rightarrow> 'a option" where
  "stored fs k raw v r = (case find_field fs k of None \<Rightarrow> Some r | Some (_, store) \<Rightarrow> store raw v r)"

lemma into_struct_stored:
  "into_struct fs (JObj ms) old = foldl (\<lambda>acc (k, raw, v). Option.bind acc (stored fs k raw v)) (Some old) ms"
  by (simp add: into_struct_def stored_def [abs_def])

lemma stored_client:
  "stored SettingsClient_fields ''comment'' raw v r = Some r" "stored SettingsClient_fields ''limitIp'' raw v r = Some r"
  "stored SettingsClient_fields ''reset'' raw v r = Some r" "stored SettingsClient_fields ''tgId'' raw v r = Some r"
  "stored SettingsClient_fields ''id'' raw (JStr s) r = Some (r\<lparr>sc_ID := s\<rparr>)"
  "stored SettingsClient_fields ''email'' raw (JStr s) r = Some (r\<lparr>sc_Email := s\<rparr>)"
  "stored SettingsClient_fields ''flow'' raw (JStr s) r = Some (r\<lparr>sc_Flow := s\<rparr>)"
  "stored SettingsClient_fields ''subId'' raw (JStr s) r = Some (r\<lparr>sc_SubID := s\<rparr>)"
  "stored SettingsClient_fields ''totalGB'' raw (JNum t) r = map_option (\<lambda>i. r\<lparr>sc_TotalGB := word_of_int i\<rparr>) (ParseInt t)"
  "stored SettingsClient_fields ''expiryTime'' raw (JNum t) r =
     map_option (\<lambda>i. r\<lparr>sc_ExpiryTime := word_of_int i\<rparr>) (ParseInt t)"
  "stored SettingsClient_fields ''enable'' raw (JBool b) r = Some (r\<lparr>sc_Enable := b\<rparr>)"
  by (simp_all add: stored_def skipped_keys)
    (simp_all add: find_field_def SettingsClient_fields_def field_of_def into_string_def into_int64_def into_bool_def
      option.map_comp o_def)

lemma client_reads_back:
  assumes "spec_utf8 cs"
  shows "into_struct SettingsClient_fields (tree (client_val cs)) SettingsClient_zero =
    Some \<lparr>sc_ID = cs_ID cs, sc_Email = cs_Email cs, sc_Flow = cs_Flow cs, sc_SubID = cs_SubID cs,
          sc_TotalGB = 0, sc_ExpiryTime = 0, sc_Enable = True\<rparr>"
proof -
  have "ParseInt (Itoa 0) = Some 0" by (rule ParseInt_Itoa) (simp_all add: max_int64_def)
  with assms show ?thesis
    by (simp add: client_val_eq into_struct_stored wire_keys stored_client spec_utf8_def to_utf8_valid
        SettingsClient_zero_def del: to_utf8.simps)
qed

text \<open>
  C16: A client reported as added was accepted by the panel in a request to the target's add path whose
  JSON body holds exactly that client -- read with the reader the client uses for the panel's own
  settings it is the given uuid, e-mail, flow and subscription id, without limits, enabled -- and exactly
  the given inbound ids.
\<close>

theorem added_client_was_sent:
  assumes "AddClient net t ids cs = None" "spec_utf8 cs"
  shows "\<exists>raw r client text1 text2.
     net (add_request t ids cs) = Answer StatusOK raw \<and>
     Unmarshal (into_struct envelope_fields) (take (2 ^ 20) raw) envelope_zero = Some r \<and> en_Success r \<and>
     Option.bind (hq_body (add_request t ids cs)) json_parse =
       Some (JObj [(''client'', text1, client), (''inboundIds'', text2, JArr (map (\<lambda>i. JNum (Itoa i)) ids))]) \<and>
     into_struct SettingsClient_fields client SettingsClient_zero =
       Some \<lparr>sc_ID = cs_ID cs, sc_Email = cs_Email cs, sc_Flow = cs_Flow cs, sc_SubID = cs_SubID cs,
             sc_TotalGB = 0, sc_ExpiryTime = 0, sc_Enable = True\<rparr>"
proof -
  have post: "\<exists>raw r. net (add_request t ids cs) = Answer StatusOK raw \<and>
      Unmarshal (into_struct envelope_fields) (take (2 ^ 20) raw) envelope_zero = Some r \<and> en_Success r"
    using postJSON_None [OF assms(1) [unfolded AddClient_def]] by (simp add: add_request_def)
  have "Option.bind (hq_body (add_request t ids cs)) json_parse = Some (tree (add_body ids cs))"
    by (simp add: add_request_def json_parse_print [OF nests_add_body])
  also have "\<dots> = Some (JObj [(''client'', print_json (client_val cs), tree (client_val cs)),
      (''inboundIds'', print_json (VArr (map VInt ids)), JArr (map (\<lambda>i. JNum (Itoa i)) ids))])"
    by (simp add: add_body_eq wire_keys o_def del: to_utf8.simps)
  finally show ?thesis using post client_reads_back [OF assms(2)] by blast
qed

lemma hex_upper_val: "k < 16 \<Longrightarrow> is_hex (hex_upper k) \<and> hex_val (hex_upper k) = k"
proof -
  have all: "\<forall>k \<in> set [0..<16]. is_hex (hex_upper k) \<and> hex_val (hex_upper k) = k"
    by (simp add: upt_rec hex_upper_def hex_digit_defs)
  assume "k < 16"
  then have "k \<in> set [0..<16]" by simp
  with all show ?thesis by blast
qed

lemma PathEscape_Cons:
  "PathEscape (c # s) = (if segment_unreserved c then [c]
     else [CHR ''%'', hex_upper (of_char c div 16), hex_upper (of_char c mod 16)]) @ PathEscape s"
  by (simp add: PathEscape_def)

lemma unescape_PathEscape: "url_unescape OtherPart (PathEscape s) = Some s"
proof (induction s)
  case (Cons c s)
  have "(of_char c :: nat) < 256" by simp
  then have "of_char c div 16 < (16 :: nat)" "of_char c mod 16 < (16 :: nat)" by linarith+
  note h = hex_upper_val [OF this(1)] hex_upper_val [OF this(2)]
  show ?case
  proof (cases "segment_unreserved c")
    case True
    then have "c \<noteq> CHR ''%''" by (auto simp: segment_unreserved_def char_class_defs less_eq_char_def)
    with True Cons show ?thesis by (simp add: PathEscape_Cons)
  next
    case False
    with Cons h show ?thesis by (simp add: PathEscape_Cons)
  qed
qed (simp add: PathEscape_def)

lemma hex_upper_alnum: "k < 16 \<Longrightarrow> is_alnum (hex_upper k)"
proof -
  have all: "\<forall>k \<in> set [0..<16]. is_alnum (hex_upper k)"
    by (simp add: upt_rec hex_upper_def char_class_defs less_eq_char_def)
  assume "k < 16"
  then have "k \<in> set [0..<16]" by simp
  with all show ?thesis by blast
qed

lemma alnum_segment: "is_alnum c \<Longrightarrow> c \<notin> {CHR ''/'', CHR ''?'', CHR ''#''}"
  by (auto simp: char_class_defs less_eq_char_def)

lemma PathEscape_segment: "set (PathEscape s) \<inter> {CHR ''/'', CHR ''?'', CHR ''#''} = {}"
proof (induction s)
  case (Cons c s)
  have "(of_char c :: nat) < 256" by simp
  then have "of_char c div 16 < (16 :: nat)" "of_char c mod 16 < (16 :: nat)" by linarith+
  then have "hex_upper (of_char c div 16) \<notin> {CHR ''/'', CHR ''?'', CHR ''#''}"
    "hex_upper (of_char c mod 16) \<notin> {CHR ''/'', CHR ''?'', CHR ''#''}"
    by (metis alnum_segment hex_upper_alnum)+
  then have "set [CHR ''%'', hex_upper (of_char c div 16), hex_upper (of_char c mod 16)] \<inter>
      {CHR ''/'', CHR ''?'', CHR ''#''} = {}"
    by auto
  moreover have "segment_unreserved c \<Longrightarrow> c \<notin> {CHR ''/'', CHR ''?'', CHR ''#''}"
    by (auto simp: segment_unreserved_def char_class_defs less_eq_char_def)
  ultimately show ?case using Cons by (auto simp: PathEscape_Cons)
qed (simp add: PathEscape_def)

text \<open>
  A client reported as deleted was deleted by a request whose last path segment, free of the characters
  that end a segment, unescapes to exactly the given e-mail.
\<close>

theorem deletion_names_email:
  assumes "DelClient net t email = None"
  shows "\<exists>raw r seg.
     net \<lparr>hq_method = ''POST'', hq_url = reqURL t (''/panel/api/clients/del/'' @ seg),
          hq_headers = [(''Authorization'', ''Bearer '' @ pt_Token t), (''Content-Type'', ''application/json'')],
          hq_body = None\<rparr> = Answer StatusOK raw \<and>
     Unmarshal (into_struct envelope_fields) (take (2 ^ 20) raw) envelope_zero = Some r \<and> en_Success r \<and>
     url_unescape OtherPart seg = Some email \<and> set seg \<inter> {CHR ''/'', CHR ''?'', CHR ''#''} = {}"
  using postJSON_None [OF assms [unfolded DelClient_def]] unescape_PathEscape [of email] PathEscape_segment [of email]
  by (simp only: option.map) blast

section \<open>A panel URL that ends in a question mark\<close>

text \<open>
  The validation of nodes accepts a panel URL with an empty query; the request then carries the whole
  API path in the query, and its path is empty.
\<close>

lemma query_swallows_path:
  "validPanelURL ''https://panel.example?''"
  "map_option (\<lambda>u. (url_Path u, url_RawQuery u))
     (url_Parse (reqURL \<lparr>pt_BaseURL = ''https://panel.example?'', pt_BasePath = ''/x'', pt_Token = []\<rparr> list_path)) =
   Some ([], ''/x/panel/api/inbounds/list'')"
  by code_simp+

section \<open>Witnesses\<close>

definition demo_target :: PanelTarget where
  "demo_target = \<lparr>pt_BaseURL = ''https://p'', pt_BasePath = ''/'', pt_Token = ''k''\<rparr>"

definition yes_body :: string where "yes_body = print_json (VObj [(''success'', VBool True)])"

definition yes_net :: network where "yes_net = (\<lambda>_. Answer StatusOK yes_body)"

lemma yes_parsed: "json_parse yes_body = Some (JObj [(''success'', ''true'', JBool True)])"
proof -
  have "to_utf8 ''success'' = ''success''" by (rule to_utf8_valid [OF ascii_valid]) (simp add: is_ascii_def)
  then show ?thesis
    unfolding yes_body_def by (subst json_parse_print) (simp_all add: max_depth_def del: to_utf8.simps)
qed

lemma yes_short: "length yes_body = 16"
  by (simp add: yes_body_def json_quote_def is_ascii_def quote_char_def backslash_def ascii_width)

lemma yes_envelope:
  "Unmarshal (into_struct envelope_fields) (take (2 ^ 20) yes_body) envelope_zero = Some \<lparr>en_Success = True, en_Msg = []\<rparr>"
  using yes_short
  by (simp add: Unmarshal_def yes_parsed into_struct_def find_field_def envelope_fields_def field_of_def
      envelope_zero_def into_bool_def)

lemma yes_list:
  "Unmarshal (into_struct list_reply_fields) (take (2 ^ 24) yes_body) list_reply_zero =
     Some \<lparr>lr_Success = True, lr_Msg = [], lr_Obj = []\<rparr>"
  using yes_short
  by (simp add: Unmarshal_def yes_parsed into_struct_def find_field_def list_reply_fields_def field_of_def
      list_reply_zero_def into_bool_def)

lemma yes_post: "url_Parse (reqURL t path) \<noteq> None \<Longrightarrow> postJSON yes_net t path body = None"
  by (auto simp: postJSON_def newRequest_def yes_net_def yes_envelope simp del: power_numeral)

theorem string_and_object_forms_agree_witness:
  "map_option (toPanelInbound (\<lambda>s. (s, True)))
     (decode (inbound_zero\<lparr>ib_Settings := json_quote ''{}'', ib_StreamSettings := json_quote ''{}''\<rparr>)) =
   map_option (toPanelInbound (\<lambda>s. (s, True)))
     (decode (inbound_zero\<lparr>ib_Settings := ''{}'', ib_StreamSettings := ''{}''\<rparr>))"
proof -
  have "to_utf8 ''{}'' = ''{}''" by (rule to_utf8_valid [OF ascii_valid]) (simp add: is_ascii_def)
  then have q: "json_string (quote_body ''{}'' @ [CHR 0x22]) = Some (''{}'', [])" by (simp only: json_string_quoted)
  have t: "TrimSpace ''{}'' = ''{}''" "\<not> HasPrefix ''{}'' [CHR 0x22]" by code_simp+
  show ?thesis unfolding json_quote_def
    by (rule string_and_object_forms_agree [OF q q t t]) (simp_all add: inbound_zero_def)
qed

theorem listing_needs_success_witness:
  "ListInbounds (\<lambda>s. (s, True)) yes_net demo_target = Inr [] \<and>
   (\<exists>raw r. yes_net (list_request demo_target) = Answer StatusOK raw \<and>
      Unmarshal (into_struct list_reply_fields) (take (2 ^ 24) raw) list_reply_zero = Some r \<and> lr_Success r)"
proof -
  have "url_Parse (reqURL demo_target list_path) \<noteq> None" by code_simp
  then have "get yes_net demo_target list_path = Inr (take (2 ^ 24) yes_body)"
    by (simp add: get_Inr yes_net_def del: power_numeral)
  then have "ListInbounds (\<lambda>s. (s, True)) yes_net demo_target = Inr []"
    by (simp add: ListInbounds_def yes_list del: power_numeral)
  from this listing_needs_success [OF this] show ?thesis by blast
qed

definition zoe_spec :: ClientSpec where
  "zoe_spec = \<lparr>cs_ID = ''u-1'', cs_Email = ''zoe-eu'', cs_Flow = [], cs_SubID = ''s1''\<rparr>"

theorem added_client_was_sent_witness:
  "AddClient yes_net demo_target [3, 5] zoe_spec = None \<and>
   (\<exists>client text1 text2. Option.bind (hq_body (add_request demo_target [3, 5] zoe_spec)) json_parse =
      Some (JObj [(''client'', text1, client), (''inboundIds'', text2, JArr [JNum ''3'', JNum ''5''])]))"
proof -
  have "url_Parse (reqURL demo_target ''/panel/api/clients/add'') \<noteq> None" by code_simp
  then have add: "AddClient yes_net demo_target [3, 5] zoe_spec = None" by (simp add: AddClient_def yes_post)
  have "spec_utf8 zoe_spec" by code_simp
  moreover have "Itoa 3 = ''3''" "Itoa 5 = ''5''" by code_simp+
  ultimately show ?thesis using add added_client_was_sent [OF add] by fastforce
qed

theorem deletion_names_email_witness:
  "DelClient yes_net demo_target ''a/b'' = None \<and>
   (\<exists>seg. url_unescape OtherPart seg = Some ''a/b'' \<and> CHR ''/'' \<notin> set seg)"
proof -
  have "url_Parse (reqURL demo_target (''/panel/api/clients/del/'' @ PathEscape ''a/b'')) \<noteq> None" by code_simp
  then have del: "DelClient yes_net demo_target ''a/b'' = None" by (simp add: DelClient_def yes_post)
  from del deletion_names_email [OF del] show ?thesis by blast
qed

end
