(* ===== verification/WireFleet.thy ===== *)
theory WireFleet
  imports XuiFacts FleetProperties
begin

text \<open>
  The fleet over the wire: the fleet service with the panel client it is built with in
  \<open>cmd/service/main.go\<close>, so that what a subscriber is served is traced back to the answers of the panels.
\<close>

text \<open>\<open>fleet.New(xui.New(), ...)\<close>: the client's listing, an error as its text.\<close>

definition wire_client :: "(string \<Rightarrow> UUID \<times> bool) \<Rightarrow> (xui_error \<Rightarrow> string) \<Rightarrow> network \<Rightarrow> list_inbounds" where
  "wire_client parse_uuid err_text net t =
     (case ListInbounds parse_uuid net t of Inl e \<Rightarrow> Inl (err_text e) | Inr ps \<Rightarrow> Inr ps)"

lemma wire_client_panels:
  "wire_client parse_uuid err_text net = pn_list (xui_panels parse_uuid err_text (\<lambda>_. net)) h"
  by (simp add: wire_client_def xui_panels_def fun_eq_iff)

lemma wire_client_Inr: "wire_client parse_uuid err_text net t = Inr ps \<longleftrightarrow> ListInbounds parse_uuid net t = Inr ps"
  by (simp add: wire_client_def split: sum.split)

lemma granted_stat:
  assumes "(cs, p) \<in> set (vless_grants client nodes sid)"
  shows "\<exists>n \<in> set nodes. \<exists>inbs. client (target n) = Inr inbs \<and> (\<exists>i \<in> set inbs. cs \<in> set (pi_Stats i)) \<and>
    map_option vl_UUID (px_VLESS p) = Some (ps_UUID cs)"
proof -
  from assms obtain s cfg where s: "s \<in> set (reachable_snaps client nodes)" "(cs, p) \<in> set (inbound_grants s cfg)"
    by (auto simp: vless_grants_def granted_to_def panel_grants_def)
  then obtain i where i: "findByPort (sn_inbounds s) (in_Port cfg) = Some i" "cs \<in> set (pi_Stats i)"
      "p = client_proxy (inbound_base (sn_node s) cfg i) (flowByEmail (pi_Clients i)) cs"
    by (cases "findByPort (sn_inbounds s) (in_Port cfg)") (auto simp: inbound_grants_def split: if_splits)
  then have "i \<in> set (sn_inbounds s)" by (auto simp: findByPort_def find_Some_iff)
  with s(1) i show ?thesis
    by (auto simp: in_reachable_snaps client_proxy_def inbound_base_def streamToProxy_def)
qed


section \<open>A fleet fetched over the wire\<close>

definition in_quotes :: "string \<Rightarrow> string" where "in_quotes s = CHR 0x22 # s @ [CHR 0x22]"

definition wire_body :: string where
  "wire_body =
     ''{'' @ in_quotes ''success'' @ '':true,'' @ in_quotes ''obj'' @ '':[{'' @ in_quotes ''port'' @ '':443,'' @
     in_quotes ''enable'' @ '':true,'' @ in_quotes ''clientStats'' @ '':[{'' @ in_quotes ''uuid'' @ '':'' @ in_quotes ''u-1'' @
     '','' @ in_quotes ''subId'' @ '':'' @ in_quotes ''s1'' @ '','' @ in_quotes ''enable'' @ '':true}]}]}''"

definition wire_net :: network where "wire_net = (\<lambda>_. Answer StatusOK wire_body)"

definition wire_node :: Node where
  "wire_node =
     \<lparr>nd_ID = 1, nd_Name = ''nl'', nd_VPNHost = ''h'', nd_PanelBaseURL = ''https://p'', nd_PanelBasePath = ''/'',
      nd_Token = ''k'', nd_Inbounds = [\<lparr>in_ID = 7, in_Name = ''main'', in_Port = 443, in_Kind = ''vless'', in_Hysteria2 = None\<rparr>]\<rparr>"

definition wire_reply :: list_reply where
  "wire_reply =
     \<lparr>lr_Success = True, lr_Msg = [], lr_Obj =
        [inbound_zero\<lparr>ib_Port := 443, ib_Enable := True, ib_ClientStats :=
           [ClientStat_zero\<lparr>cst_UUID := ''u-1'', cst_SubID := ''s1'', cst_Enable := True\<rparr>]\<rparr>]\<rparr>"

lemma wire_parsed: "Unmarshal (into_struct list_reply_fields) wire_body list_reply_zero = Some wire_reply"
  by code_simp

lemma wire_short: "length wire_body \<le> 2 ^ 24"
proof -
  have "length wire_body < 200" by (simp add: wire_body_def in_quotes_def)
  then show ?thesis by simp
qed

lemma wire_listed:
  "ListInbounds (\<lambda>s. (s, True)) wire_net (target wire_node) =
     Inr [\<lparr>pi_ID = 0, pi_Port = 443, pi_Remark = [], pi_Enable = True, pi_Stream = StreamInfo_zero, pi_Clients = [],
         pi_Stats = [\<lparr>ps_Email = [], ps_UUID = ''u-1'', ps_SubID = ''s1'', ps_Up = 0, ps_Down = 0, ps_Total = 0,
                       ps_Expiry = 0, ps_Enable = True\<rparr>]\<rparr>]"
proof -
  have "url_Parse (reqURL (target wire_node) list_path) \<noteq> None" by code_simp
  then have "get wire_net (target wire_node) list_path = Inr wire_body"
    using wire_short by (auto simp: get_Inr wire_net_def simp del: power_numeral)
  then show ?thesis
    by (simp add: ListInbounds_def wire_parsed)
      (simp add: wire_reply_def decode_def unwrapJSON_def inbound_zero_def inboundSettings_zero_def streamSettings_zero_def
        toPanelInbound_def toStreamInfo_def toPanelStat_def ClientStat_zero_def StreamInfo_zero_def)
qed

lemma wire_fetched:
  "\<exists>fl s p v. fetch (wire_client (\<lambda>s. (s, True)) (\<lambda>_. []) wire_net) (Inr [wire_node]) (Inr (\<lambda>_. None)) = Inr fl \<and>
     Fleet_Sub (Some fl) ''s1'' = Some s \<and> p \<in> set (sb_Proxies s) \<and> px_VLESS p = Some v \<and> vl_UUID v = ''u-1''"
proof -
  let ?client = "wire_client (\<lambda>s. (s, True)) (\<lambda>_. []) wire_net"
  have listed: "?client (target wire_node) = Inr [\<lparr>pi_ID = 0, pi_Port = 443, pi_Remark = [], pi_Enable = True,
      pi_Stream = StreamInfo_zero, pi_Clients = [], pi_Stats = [\<lparr>ps_Email = [], ps_UUID = ''u-1'', ps_SubID = ''s1'',
      ps_Up = 0, ps_Down = 0, ps_Total = 0, ps_Expiry = 0, ps_Enable = True\<rparr>]\<rparr>]"
    by (simp add: wire_client_Inr wire_listed)
  then obtain fl where fl: "fetch ?client (Inr [wire_node]) (Inr (\<lambda>_. None)) = Inr fl" by (simp add: fetch_Inr_iff)
  have snaps: "reachable_snaps ?client [wire_node] = [\<lparr>sn_node = wire_node, sn_inbounds = [\<lparr>pi_ID = 0, pi_Port = 443,
      pi_Remark = [], pi_Enable = True, pi_Stream = StreamInfo_zero, pi_Clients = [], pi_Stats = [\<lparr>ps_Email = [],
      ps_UUID = ''u-1'', ps_SubID = ''s1'', ps_Up = 0, ps_Down = 0, ps_Total = 0, ps_Expiry = 0, ps_Enable = True\<rparr>]\<rparr>]\<rparr>]"
    by (simp add: reachable_snaps_def listed)
  have "vless_grants ?client [wire_node] ''s1'' \<noteq> [] \<and>
      (\<forall>g \<in> set (vless_grants ?client [wire_node] ''s1''). map_option vl_UUID (px_VLESS (snd g)) = Some ''u-1'')"
    unfolding vless_grants_def panel_grants_def snaps granted_to_def
    by (simp add: inbound_grants_def findByPort_def wire_node_def client_proxy_def inbound_base_def streamToProxy_def)
  then obtain g where "g \<in> set (vless_grants ?client [wire_node] ''s1'')" "map_option vl_UUID (px_VLESS (snd g)) = Some ''u-1''"
    by (meson hd_in_set)
  with fl fetched_Sub [OF fl, of "''s1''"] show ?thesis by force
qed


end
