(* ===== verification/Ruleset.thy ===== *)
theory Ruleset
  imports AdminSession GoUtf8
begin

text \<open>
  Rule-provider files: the mirror that serves copies of upstream files
  (\<open>internal/service/ruleset/mirror.go\<close>, \<open>handlers/rules\<close>) and the probe of a provider URL
  (\<open>check.go\<close>, \<open>handlers/provider_check\<close>).

  The web is a function from a URL to what a GET of it does: no response, or a status with the bytes
  that arrive and the error that ends them, if one does. The YAML parser is the one of the renderer,
  \<open>quote\<close> is the verb q of \<open>fmt\<close>.
\<close>

datatype web_answer =
    NoResponse string
  | Response int string "string option"

type_synonym web = "string \<Rightarrow> web_answer"

text \<open>
  \<open>io.ReadAll(io.LimitReader(body, n))\<close>: at most \<open>n\<close> bytes; an error behind them is not reached.
\<close>

definition read_limited :: "nat \<Rightarrow> string \<Rightarrow> string option \<Rightarrow> string + string" where
  "read_limited n bytes err =
     (if n \<le> length bytes then Inr (take n bytes)
      else case err of Some e \<Rightarrow> Inl e | None \<Rightarrow> Inr bytes)"

section \<open>The mirror (mirror.go)\<close>

record entry =
  en_data :: string
  en_contentType :: string

record source =
  so_url :: string
  so_ext :: string
  so_interval :: int

record Mirror =
  mr_data :: "string \<rightharpoonup> entry"
  mr_srcs :: "string \<rightharpoonup> source"

definition extFor :: "string \<Rightarrow> string" where
  "extFor format =
     (let f = ToLower format
      in if f = ''mrs'' then ''.mrs'' else if f = ''yaml'' then ''.yaml'' else ''.txt'')"

definition contentTypeFor :: "string \<Rightarrow> string" where
  "contentTypeFor ext =
     (if ext = ''.yaml'' then ''application/yaml; charset=utf-8''
      else if ext = ''.txt'' then ''text/plain; charset=utf-8''
      else ''application/octet-stream'')"

text \<open>A \<open>time.Duration\<close> counts nanoseconds in 64 bits; the product wraps.\<close>

definition nanos :: i64 where "nanos = 1000000000"

definition mirror_interval :: "int \<Rightarrow> int" where
  "mirror_interval seconds =
     (let interval = sint (word_of_int seconds * nanos)
      in if interval \<le> 0 then sint (24 * 3600 * nanos) else interval)"

definition source_file :: "RuleProvider \<Rightarrow> string" where
  "source_file rp = rp_Name rp @ extFor (rp_Format rp)"

definition New :: "RuleProvider list \<Rightarrow> Mirror" where
  "New providers =
     \<lparr>mr_data = Map.empty,
      mr_srcs = fill_map source_file
        (\<lambda>rp. \<lparr>so_url = rp_URL rp, so_ext = extFor (rp_Format rp), so_interval = mirror_interval (rp_MirrorInterval rp)\<rparr>)
        (filter rp_Mirror providers)\<rparr>"

definition Get :: "Mirror \<Rightarrow> string \<Rightarrow> (string \<times> string) option" where
  "Get m file = map_option (\<lambda>e. (en_data e, en_contentType e)) (mr_data m file)"

definition download :: "web \<Rightarrow> string \<Rightarrow> string + string" where
  "download web url =
     (if url_Parse url = None then Inl ''parse''
      else (case web url of
              NoResponse e \<Rightarrow> Inl e
            | Response status bytes err \<Rightarrow>
                if status \<noteq> 200 then Inl (''status '' @ Itoa status) else read_limited (64 * 2 ^ 20) bytes err))"

definition mirror_fetch :: "web \<Rightarrow> string \<Rightarrow> source \<Rightarrow> Mirror \<Rightarrow> Mirror" where
  "mirror_fetch web file src m =
     (case download web (so_url src) of
        Inl _ \<Rightarrow> m
      | Inr data \<Rightarrow>
          if data = [] then m
          else m\<lparr>mr_data := (mr_data m)(file \<mapsto> \<lparr>en_data = data, en_contentType = contentTypeFor (so_ext src)\<rparr>)\<rparr>)"

text \<open>
  The fetches of \<open>Run\<close> and of the loops it starts, in the order they take the lock: each names a file
  of the mirror and the web at that time. A name outside the sources is never fetched.
\<close>

fun run_fetches :: "(string \<times> web) list \<Rightarrow> Mirror \<Rightarrow> Mirror" where
  "run_fetches [] m = m"
| "run_fetches ((file, web) # fs) m =
     run_fetches fs (case mr_srcs m file of None \<Rightarrow> m | Some src \<Rightarrow> mirror_fetch web file src m)"

text \<open>The first round of \<open>Run\<close>: every source once, in the order of the map.\<close>

definition initial_load :: "(string set \<Rightarrow> string list) \<Rightarrow> web \<Rightarrow> Mirror \<Rightarrow> Mirror" where
  "initial_load ord web m = run_fetches (map (\<lambda>file. (file, web)) (ord (dom (mr_srcs m)))) m"

section \<open>GET /rules/file (handlers/rules)\<close>

datatype rules_res = RulesNotFound string | RulesOK string string

definition Rules_handler :: "Mirror \<Rightarrow> string \<Rightarrow> rules_res" where
  "Rules_handler m file =
     (if file = [] then RulesNotFound (''not found'' @ [CHR 0x0A])
      else case Get m file of
        None \<Rightarrow> RulesNotFound (''not found'' @ [CHR 0x0A])
      | Some (data, _) \<Rightarrow> RulesOK ''nosniff'' data)"

section \<open>The checker (check.go)\<close>

datatype RulesetCheckOutcome =
    RulesetCheckOK | RulesetCheckUnreachable | RulesetCheckHTTPError | RulesetCheckEmpty | RulesetCheckFormatMismatch

record RulesetCheckResult =
  rc_Outcome :: RulesetCheckOutcome
  rc_Status :: int
  rc_Size :: int
  rc_Detail :: string

definition zstdMagic :: string where "zstdMagic = [CHR 0x28, CHR 0xB5, CHR 0x2F, CHR 0xFD]"

definition isZstd :: "string \<Rightarrow> bool" where
  "isZstd b \<longleftrightarrow> 4 \<le> length b \<and> take 4 b = zstdMagic"

definition isRuleProviderYAML :: "(string \<Rightarrow> 'e + ymap) \<Rightarrow> string \<Rightarrow> bool" where
  "isRuleProviderYAML unmarshal b =
     (case unmarshal b of
        Inl _ \<Rightarrow> False
      | Inr m \<Rightarrow> (case map_of m ''payload'' of Some (YSeq _) \<Rightarrow> True | _ \<Rightarrow> False))"

definition isRuleText :: "string \<Rightarrow> bool" where
  "isRuleText b =
     (if \<not> utf8_valid b then False
      else let s = TrimSpace b in
           if s = [] \<or> HasPrefix s ''<'' then False
           else list_ex (\<lambda>line. let line = TrimSpace line in line \<noteq> [] \<and> \<not> HasPrefix line ''#'')
                  (Split (CHR 0x0A) s))"

definition matchesFormat :: "(string \<Rightarrow> 'e + ymap) \<Rightarrow> string \<Rightarrow> string \<Rightarrow> bool" where
  "matchesFormat unmarshal data format =
     (let f = ToLower format
      in if f = ''mrs'' then isZstd data
         else if f = ''yaml'' then isRuleProviderYAML unmarshal data
         else isRuleText data)"

text \<open>What follows the last colon and space.\<close>

fun last_detail :: "string \<Rightarrow> string option" where
  "last_detail [] = None"
| "last_detail (c # s) =
     (case last_detail s of
        Some d \<Rightarrow> Some d
      | None \<Rightarrow> if c = CHR '':'' \<and> HasPrefix s '' '' then Some (drop 1 s) else None)"

definition netDetail :: "string \<Rightarrow> string" where
  "netDetail msg = (case last_detail msg of Some d \<Rightarrow> if d \<noteq> [] then d else msg | None \<Rightarrow> msg)"

definition check_result :: "RulesetCheckOutcome \<Rightarrow> RulesetCheckResult" where
  "check_result outcome = \<lparr>rc_Outcome = outcome, rc_Status = 0, rc_Size = 0, rc_Detail = []\<rparr>"

definition Check :: "(string \<Rightarrow> 'e + ymap) \<Rightarrow> (string \<Rightarrow> string) \<Rightarrow> web \<Rightarrow> string \<Rightarrow> string \<Rightarrow> RulesetCheckResult" where
  "Check unmarshal parse_error web url format =
     (if url_Parse url = None then (check_result RulesetCheckUnreachable)\<lparr>rc_Detail := parse_error url\<rparr>
      else (case web url of
        NoResponse e \<Rightarrow> (check_result RulesetCheckUnreachable)\<lparr>rc_Detail := netDetail e\<rparr>
      | Response status bytes err \<Rightarrow>
          if status \<noteq> 200 then (check_result RulesetCheckHTTPError)\<lparr>rc_Status := status\<rparr>
          else (case read_limited (32 * 2 ^ 20) bytes err of
            Inl e \<Rightarrow> (check_result RulesetCheckUnreachable)\<lparr>rc_Detail := e\<rparr>
          | Inr data \<Rightarrow>
              if data = [] then check_result RulesetCheckEmpty
              else if \<not> matchesFormat unmarshal data format then
                (check_result RulesetCheckFormatMismatch)\<lparr>rc_Size := int (length data)\<rparr>
              else (check_result RulesetCheckOK)\<lparr>rc_Status := status, rc_Size := int (length data)\<rparr>)))"

section \<open>The probe's messages (handlers/provider\_check)\<close>

text \<open>
  The loop that finds the unit: the divisor and the index of the unit for a size of at least 1024. The quotient is divided
  by a power of two, so the floating point division is exact; the verb rounds it to one decimal, half
  to even. \<open>None\<close> is the panic of an index behind the last unit.
\<close>

function size_unit :: "nat \<Rightarrow> nat \<Rightarrow> nat \<Rightarrow> nat \<times> nat" where
  "size_unit n d e = (if 1024 \<le> n then size_unit (n div 1024) (d * 1024) (e + 1) else (d, e))"
  by auto
termination by (relation "measure (\<lambda>(n, _, _). n)") auto

declare size_unit.simps [simp del]

definition one_decimal :: "nat \<Rightarrow> nat \<Rightarrow> string" where
  "one_decimal b d =
     (let t = 10 * b div d; r = 10 * b mod d;
          t = (if d < 2 * r \<or> 2 * r = d \<and> odd t then t + 1 else t)
      in digits (t div 10) @ ''.'' @ digits (t mod 10))"

definition humanSize :: "int \<Rightarrow> string option" where
  "humanSize b =
     (if b < 1024 then Some (Itoa b @ '' B'')
      else case size_unit (nat b div 1024) 1024 0 of
        (d, e) \<Rightarrow>
          if e < 4 then Some (one_decimal (nat b) d @ '' '' @ [''KMGT'' ! e] @ ''B'') else None)"

definition MsgUnreachable :: string where "MsgUnreachable = ''Could not connect to the URL''"
definition MsgUnreachableP :: string where "MsgUnreachableP = ''Could not connect: ''"

text \<open>Texts outside ASCII are written as their UTF-8 bytes.\<close>

definition em_dash :: string where "em_dash = [CHR 0xE2, CHR 0x80, CHR 0x94]"

definition MsgEmpty :: string where
  "MsgEmpty = ''The response is empty '' @ em_dash @ '' no file at the URL''"

definition describe :: "(string \<Rightarrow> string) \<Rightarrow> RulesetCheckResult \<Rightarrow> string \<Rightarrow> (bool \<times> string) option" where
  "describe quote res format =
     (case rc_Outcome res of
        RulesetCheckOK \<Rightarrow>
          map_option (\<lambda>sz. (True, ''Available: format '' @ quote format @ '', '' @ sz)) (humanSize (rc_Size res))
      | RulesetCheckHTTPError \<Rightarrow>
          Some (False, ''The server returned HTTP '' @ Itoa (rc_Status res) @ '' '' @ em_dash @ '' no file or no access'')
      | RulesetCheckEmpty \<Rightarrow> Some (False, MsgEmpty)
      | RulesetCheckFormatMismatch \<Rightarrow>
          map_option (\<lambda>sz. (False, ''Downloaded ('' @ sz @ ''), but the content does not look like the '' @
            quote format @ '' format'')) (humanSize (rc_Size res))
      | RulesetCheckUnreachable \<Rightarrow>
          Some (False, if rc_Detail res \<noteq> [] then MsgUnreachableP @ rc_Detail res else MsgUnreachable))"

definition ProviderCheck ::
    "(string \<Rightarrow> 'e + ymap) \<Rightarrow> (string \<Rightarrow> string) \<Rightarrow> (string \<Rightarrow> string) \<Rightarrow> web \<Rightarrow> string \<Rightarrow> string \<Rightarrow> string reply option" where
  "ProviderCheck unmarshal parse_error quote web url format =
     map_option (\<lambda>(ok, msg). if ok then Reply msg else BadRequest msg)
       (describe quote (Check unmarshal parse_error web url format) format)"

end
