(* ===== verification/RulesetFacts.thy ===== *)
theory RulesetFacts
  imports Ruleset
begin

text \<open>
  The mirror serves the last good copy of each file, every mirrored provider of a stored configuration
  has a source under the file name its document names, and what the checker accepts the mirror stores.
\<close>

section \<open>The mirror\<close>

text \<open>What one fetch brings: the bytes of a successful, non-empty download.\<close>

definition good_copy :: "web \<Rightarrow> source \<Rightarrow> string option" where
  "good_copy web src =
     (case download web (so_url src) of Inl _ \<Rightarrow> None | Inr data \<Rightarrow> if data = [] then None else Some data)"

definition good_copies :: "(string \<times> web) list \<Rightarrow> string \<Rightarrow> source \<Rightarrow> string list" where
  "good_copies fs file src = List.map_filter (\<lambda>(f, web). if f = file then good_copy web src else None) fs"

lemma mirror_fetch_eq:
  "mirror_fetch web file src m =
     (case good_copy web src of
        None \<Rightarrow> m
      | Some data \<Rightarrow>
          m\<lparr>mr_data := (mr_data m)(file \<mapsto> \<lparr>en_data = data, en_contentType = contentTypeFor (so_ext src)\<rparr>)\<rparr>)"
  by (simp add: mirror_fetch_def good_copy_def split: sum.split)

lemma mirror_fetch_srcs [simp]: "mr_srcs (mirror_fetch web file src m) = mr_srcs m"
  by (simp add: mirror_fetch_eq split: option.split)

lemma run_fetches_srcs: "mr_srcs (run_fetches fs m) = mr_srcs m"
  by (induction fs m rule: run_fetches.induct) (simp_all split: option.split)

lemma run_fetches_data:
  "mr_data (run_fetches fs m) file =
     (case mr_srcs m file of
        None \<Rightarrow> mr_data m file
      | Some src \<Rightarrow>
          (case rev (good_copies fs file src) of
             [] \<Rightarrow> mr_data m file
           | data # _ \<Rightarrow> Some \<lparr>en_data = data, en_contentType = contentTypeFor (so_ext src)\<rparr>))"
proof (induction fs m rule: run_fetches.induct)
  case (1 m)
  then show ?case by (simp add: good_copies_def map_filter_def split: option.split)
next
  case (2 f web fs m)
  show ?case
  proof (cases "mr_srcs m f")
    case None
    with 2 show ?thesis by (auto simp: good_copies_def split: option.split)
  next
    case (Some src)
    note IH = 2 [unfolded Some option.case mirror_fetch_srcs]
    show ?thesis
    proof (cases "f = file")
      case True
      with Some IH show ?thesis
        by (cases "good_copy web src"; cases "rev (good_copies fs file src)")
          (simp_all add: good_copies_def mirror_fetch_eq)
    next
      case False
      then have "mr_data (mirror_fetch web f src m) file = mr_data m file"
        by (simp add: mirror_fetch_eq split: option.split)
      with False Some IH show ?thesis by (simp add: good_copies_def split: option.split list.split)
    qed
  qed
qed

text \<open>
  C17: After any sequence of fetches, at any states of the web, a file of the mirror is answered with the
  bytes of its last successful, non-empty download and the content type of its extension; a file without
  such a download, or outside the mirrored providers, is not found. A failed or empty download never
  removes or replaces a copy.
\<close>

theorem mirror_serves_last_good:
  "Get (run_fetches fs (New providers)) file =
     (case mr_srcs (New providers) file of
        None \<Rightarrow> None
      | Some src \<Rightarrow>
          (case rev (good_copies fs file src) of
             [] \<Rightarrow> None
           | data # _ \<Rightarrow> Some (data, contentTypeFor (so_ext src))))"
proof -
  have "mr_data (New providers) file = None" by (simp add: New_def)
  then show ?thesis by (simp add: Get_def run_fetches_data split: option.split list.split)
qed

lemma extFor_eq: "extFor = ruleSetExt"
  by (simp add: fun_eq_iff extFor_def ruleSetExt_def)

lemma mirror_interval_pos: "0 < mirror_interval seconds"
proof -
  have "sint (24 * 3600 * nanos) = 24 * 3600 * 1000000000" by (simp add: nanos_def)
  then show ?thesis by (simp add: mirror_interval_def Let_def)
qed

definition provider_source :: "RuleProvider \<Rightarrow> source" where
  "provider_source rp =
     \<lparr>so_url = rp_URL rp, so_ext = extFor (rp_Format rp), so_interval = mirror_interval (rp_MirrorInterval rp)\<rparr>"

lemma New_srcs: "mr_srcs (New providers) = fill_map source_file provider_source (filter rp_Mirror providers)"
  by (simp add: New_def provider_source_def [abs_def])

lemma all_providers: "rp \<in> set (RuleProviders cfg db) \<Longrightarrow> rp \<in> set (AllRuleProviders db)"
  by (auto simp: RuleProviders_def AllRuleProviders_def)

text \<open>
  C25: Every mirrored provider of every stored configuration is given, in the document the renderer writes, a
  URL below the public base whose file the mirror built at start-up has a source for; the refresh
  interval of that source is positive, so its ticker never panics. The source is that provider's own URL
  whenever no other mirrored provider with the same file name has another URL.
\<close>

theorem rendered_provider_is_mirrored:
  assumes "rp \<in> set (RuleProviders cfg db)" "rp_Mirror rp" "base \<noteq> []"
  shows "\<exists>file src. provider_url base rp = base @ ''/rules/'' @ file \<and>
    mr_srcs (New (AllRuleProviders db)) file = Some src \<and> 0 < so_interval src \<and>
    ((\<forall>q \<in> set (AllRuleProviders db). rp_Mirror q \<longrightarrow> source_file q = source_file rp \<longrightarrow> rp_URL q = rp_URL rp) \<longrightarrow>
       so_url src = rp_URL rp)"
proof -
  let ?mirrored = "filter rp_Mirror (AllRuleProviders db)"
  have mem: "rp \<in> set ?mirrored" using assms(1,2) all_providers by simp
  then obtain src where src: "mr_srcs (New (AllRuleProviders db)) (source_file rp) = Some src"
    using dom_fill_map [of source_file provider_source ?mirrored] by (fastforce simp: New_srcs)
  then obtain q where "q \<in> set ?mirrored" "source_file q = source_file rp" "src = provider_source q"
    using fill_map_SomeD [of source_file provider_source ?mirrored] by (fastforce simp: New_srcs)
  moreover have "provider_url base rp = base @ ''/rules/'' @ source_file rp"
    using assms(2,3) by (simp add: provider_url_def source_file_def extFor_eq)
  ultimately show ?thesis using src by (auto simp: provider_source_def mirror_interval_pos)
qed

text \<open>
  Two mirrored providers with one name and format share a file: the later one in the list takes it, and
  the document of the other is served the later one's URL. Cloned configurations share their names.
\<close>

theorem later_provider_takes_file:
  assumes "rp_Mirror p" "rp_Mirror q" "source_file p = source_file q"
  shows "map_option so_url (mr_srcs (New (ps @ p # qs @ [q])) (source_file p)) = Some (rp_URL q)"
proof -
  have "filter rp_Mirror (ps @ p # qs @ [q]) = filter rp_Mirror (ps @ p # qs) @ [q]" using assms(2) by simp
  then show ?thesis by (simp only: New_srcs fill_map_snoc assms(3)) (simp add: provider_source_def)
qed

section \<open>The checker and the mirror\<close>

lemma read_limited_short:
  "read_limited n bytes err = Inr data \<Longrightarrow> length data < n \<Longrightarrow> data = bytes \<and> err = None"
  by (auto simp: read_limited_def split: if_splits option.splits)

lemma Check_OK:
  assumes "rc_Outcome (Check unmarshal parse_error web url format) = RulesetCheckOK"
  obtains bytes err data where "url_Parse url \<noteq> None" "web url = Response 200 bytes err"
    "read_limited (32 * 2 ^ 20) bytes err = Inr data" "data \<noteq> []" "matchesFormat unmarshal data format"
    "rc_Size (Check unmarshal parse_error web url format) = int (length data)"
  using assms by (auto simp: Check_def check_result_def simp del: power_numeral
      split: web_answer.splits sum.splits if_splits)

text \<open>
  A file of less than 32 MiB the checker accepts is stored by the mirror: a fetch of the same URL from
  the same web stores exactly the bytes that were probed, they match the declared format, and their
  number is the size the checker reported.
\<close>

theorem checked_file_is_mirrored:
  assumes "rc_Outcome (Check unmarshal parse_error web (so_url src) format) = RulesetCheckOK"
    and "rc_Size (Check unmarshal parse_error web (so_url src) format) < 32 * 2 ^ 20"
  shows "\<exists>data. Get (mirror_fetch web file src m) file = Some (data, contentTypeFor (so_ext src)) \<and> data \<noteq> [] \<and>
    matchesFormat unmarshal data format \<and>
    rc_Size (Check unmarshal parse_error web (so_url src) format) = int (length data)"
proof -
  from assms(1) obtain bytes err data where c: "url_Parse (so_url src) \<noteq> None" "web (so_url src) = Response 200 bytes err"
    "read_limited (32 * 2 ^ 20) bytes err = Inr data" "data \<noteq> []" "matchesFormat unmarshal data format"
    "rc_Size (Check unmarshal parse_error web (so_url src) format) = int (length data)"
    by (rule Check_OK)
  from c(6) assms(2) have len: "length data < 32 * 2 ^ 20" by simp
  from read_limited_short [OF c(3) len] have eq: "data = bytes" "err = None" by auto
  have "read_limited (64 * 2 ^ 20) bytes err = Inr data" using len by (simp add: read_limited_def eq)
  then have "good_copy web src = Some data" using c by (simp add: good_copy_def download_def del: power_numeral)
  then show ?thesis using c by (auto simp: Get_def mirror_fetch_eq)
qed

section \<open>The probe answers\<close>

lemma size_unit_bound: "0 < k \<Longrightarrow> n < 1024 ^ k \<Longrightarrow> snd (size_unit n d e) < e + k"
proof (induction k arbitrary: n d e)
  case (Suc k)
  show ?case
  proof (cases "1024 \<le> n")
    case True
    with Suc.prems have "0 < k" by (cases k) auto
    moreover have "n div 1024 < 1024 ^ k" using Suc.prems by (simp add: less_mult_imp_div_less mult.commute)
    ultimately have "snd (size_unit (n div 1024) (d * 1024) (e + 1)) < e + 1 + k" by (rule Suc.IH)
    with True show ?thesis by (simp add: size_unit.simps [of n])
  qed (simp add: size_unit.simps [of n])
qed simp

lemma humanSize_total: "b < 1024 ^ 5 \<Longrightarrow> humanSize b \<noteq> None"
proof -
  assume b: "b < 1024 ^ 5"
  show ?thesis
  proof (cases "b < 1024")
    case False
    have "nat b < 1024 ^ 5" using b by (simp add: nat_less_iff)
    then have "nat b div 1024 < 1024 ^ 4" by (simp add: less_mult_imp_div_less)
    from size_unit_bound [OF _ this, of 1024 0] False show ?thesis
      by (cases "size_unit (nat b div 1024) 1024 0") (simp add: humanSize_def)
  qed (simp add: humanSize_def)
qed

lemma read_limited_length: "read_limited n bytes err = Inr data \<Longrightarrow> length data \<le> n"
  by (auto simp: read_limited_def split: if_splits option.splits)

lemma Check_size: "rc_Size (Check unmarshal parse_error web url format) \<le> 32 * 2 ^ 20"
proof -
  have "int (length data) \<le> 32 * 2 ^ 20" if "read_limited (32 * 2 ^ 20) bytes err = Inr data" for bytes err data
    using read_limited_length [OF that] by simp
  then show ?thesis
    by (auto simp: Check_def check_result_def simp del: power_numeral split: web_answer.split sum.split)
qed

text \<open>
  The probe of a provider URL always answers -- whatever the web returns, the message's size is in the
  range of the units, so nothing panics -- and it answers 200 exactly when the checker accepted the file,
  otherwise 400.
\<close>

theorem probe_always_answers:
  "case ProviderCheck unmarshal parse_error quote web url format of
     Some (Reply _) \<Rightarrow> rc_Outcome (Check unmarshal parse_error web url format) = RulesetCheckOK
   | Some (BadRequest _) \<Rightarrow> rc_Outcome (Check unmarshal parse_error web url format) \<noteq> RulesetCheckOK
   | _ \<Rightarrow> False"
proof -
  have "(1024 :: int) ^ 5 = 1125899906842624" by simp
  then have "rc_Size (Check unmarshal parse_error web url format) < 1024 ^ 5"
    using Check_size [of unmarshal parse_error web url format] by simp
  then obtain sz where "humanSize (rc_Size (Check unmarshal parse_error web url format)) = Some sz"
    using humanSize_total by blast
  then show ?thesis
    by (cases "rc_Outcome (Check unmarshal parse_error web url format)") (simp_all add: ProviderCheck_def describe_def)
qed

section \<open>Witnesses\<close>

definition ads_row :: "int \<Rightarrow> int \<Rightarrow> string \<Rightarrow> provider_row" where
  "ads_row i cfg url =
     \<lparr>pv_id = i, pv_config = cfg, pv_name = ''ads'', pv_behavior = ''domain'', pv_format = ''MRS'', pv_mirror = 1,
      pv_url = url, pv_interval = 60, pv_mirror_interval = 60\<rparr>"

definition mirror_db :: db where
  "mirror_db = empty_db\<lparr>db_providers := [ads_row 1 1 ''https://a'', ads_row 2 2 ''https://b'']\<rparr>"

theorem rendered_provider_is_mirrored_witness:
  "\<exists>rp \<in> set (RuleProviders 1 mirror_db). rp_URL rp = ''https://a'' \<and>
     (\<exists>file src. provider_url ''https://s'' rp = ''https://s'' @ ''/rules/'' @ file \<and>
        mr_srcs (New (AllRuleProviders mirror_db)) file = Some src \<and> 0 < so_interval src)"
proof -
  let ?rp = "provider_of_row (ads_row 1 1 ''https://a'')"
  have "?rp \<in> set (RuleProviders 1 mirror_db)"
    by (simp add: RuleProviders_def mirror_db_def ads_row_def empty_db_def)
  moreover have "rp_Mirror ?rp" "rp_URL ?rp = ''https://a''" by (simp_all add: provider_of_row_def ads_row_def)
  ultimately show ?thesis
    using rendered_provider_is_mirrored [of ?rp 1 mirror_db "''https://s''"] by blast
qed

theorem later_provider_takes_file_witness:
  "map_option so_url (mr_srcs (New (map provider_of_row [ads_row 1 1 ''https://a'', ads_row 2 2 ''https://b''])) ''ads.mrs'')
     = Some ''https://b''"
proof -
  let ?p = "provider_of_row (ads_row 1 1 ''https://a'')" and ?q = "provider_of_row (ads_row 2 2 ''https://b'')"
  have "rp_Mirror ?p" "rp_Mirror ?q" "source_file ?p = source_file ?q" "source_file ?p = ''ads.mrs''"
    "rp_URL ?q = ''https://b''" by code_simp+
  from later_provider_takes_file [OF this(1-3), of "[]" "[]"] this(4,5) show ?thesis by simp
qed

definition rules_web :: web where "rules_web = (\<lambda>_. Response 200 ''DOMAIN,a.org'' None)"

definition no_yaml :: "string \<Rightarrow> unit + ymap" where "no_yaml s = Inl ()"

theorem checked_file_is_mirrored_witness:
  "rc_Outcome (Check no_yaml id rules_web ''https://a'' ''text'') = RulesetCheckOK \<and>
   (\<exists>data. Get (mirror_fetch rules_web ''a.txt'' \<lparr>so_url = ''https://a'', so_ext = ''.txt'', so_interval = 1\<rparr> (New []))
      ''a.txt'' = Some (data, ''text/plain; charset=utf-8'') \<and> length data = 12)"
proof -
  let ?src = "\<lparr>so_url = ''https://a'', so_ext = ''.txt'', so_interval = 1\<rparr>"
  have parts: "url_Parse ''https://a'' \<noteq> None" "matchesFormat no_yaml ''DOMAIN,a.org'' ''text''"
    "contentTypeFor ''.txt'' = ''text/plain; charset=utf-8''" by code_simp+
  then have "Check no_yaml id rules_web ''https://a'' ''text'' =
      \<lparr>rc_Outcome = RulesetCheckOK, rc_Status = 200, rc_Size = 12, rc_Detail = []\<rparr>"
    by (simp add: Check_def rules_web_def check_result_def read_limited_def)
  with checked_file_is_mirrored [of no_yaml id rules_web ?src "''text''" "''a.txt''" "New []"] parts(3) show ?thesis
    by fastforce
qed

end
