(* ===== verification/CertReload.thy ===== *)
theory CertReload
  imports Prelude
begin

text \<open>
  The TLS certificate served from disk (\<open>internal/cert/cert.go\<close>): loaded at start and reloaded when the
  file's modification time advances. Loading and parsing a key pair (\<open>tls.LoadX509KeyPair\<close>) and
  \<open>os.Stat\<close> are what the disk shows at the moment of the call; the files may change between two calls.
  Times are nanoseconds; certificates are of any type.
\<close>

record 'c disk =
  dk_pair :: "'c option"
  dk_mod :: "int option"

record 'c Reloader =
  ce_cert :: "'c option"
  ce_loadedAt :: int
  ce_certMod :: int

definition zero_time :: int where "zero_time = - 62135596800 * 10 ^ 9"
definition minute :: int where "minute = 60 * 10 ^ 9"

text \<open>
  \<open>reload\<close> with the disk at the load, the disk at the stat and the clock after both; whether it
  succeeded, and the new state.
\<close>

definition reload :: "'c disk \<Rightarrow> 'c disk \<Rightarrow> int \<Rightarrow> 'c Reloader \<Rightarrow> bool \<times> 'c Reloader" where
  "reload at_load at_stat now c =
     (case dk_pair at_load of
        None \<Rightarrow> (False, c)
      | Some cert \<Rightarrow>
          (True, c\<lparr>ce_cert := Some cert, ce_loadedAt := now,
                   ce_certMod := (case dk_mod at_stat of Some t \<Rightarrow> t | None \<Rightarrow> zero_time)\<rparr>))"

definition NewReloader :: "'c disk \<Rightarrow> 'c disk \<Rightarrow> int \<Rightarrow> 'c Reloader option" where
  "NewReloader at_load at_stat now =
     (case reload at_load at_stat now \<lparr>ce_cert = None, ce_loadedAt = zero_time, ce_certMod = zero_time\<rparr> of
        (True, c) \<Rightarrow> Some c | (False, _) \<Rightarrow> None)"

text \<open>One handshake: the clock at its two readings and the disk at its three.\<close>

record 'c handshake =
  hk_now :: int
  hk_stat :: "'c disk"
  hk_load :: "'c disk"
  hk_restat :: "'c disk"
  hk_later :: int

datatype disk_access = StatCert | LoadPair

text \<open>The hook: the certificate it returns (never an error), the new state, and how it touched the disk.\<close>

definition GetCertificate :: "'c handshake \<Rightarrow> 'c Reloader \<Rightarrow> 'c option \<times> 'c Reloader \<times> disk_access list" where
  "GetCertificate h c =
     (if minute < hk_now h - ce_loadedAt c then
        (if (case dk_mod (hk_stat h) of Some t \<Rightarrow> ce_certMod c < t | None \<Rightarrow> False) then
           (case reload (hk_load h) (hk_restat h) (hk_later h) c of
              (True, c') \<Rightarrow> (ce_cert c', c', [StatCert, LoadPair, StatCert])
            | (False, c') \<Rightarrow> (ce_cert c, c', [StatCert, LoadPair]))
         else (ce_cert c, c\<lparr>ce_loadedAt := hk_later h\<rparr>, [StatCert]))
      else (ce_cert c, c, []))"

definition after_handshake :: "'c handshake \<Rightarrow> 'c Reloader \<Rightarrow> 'c Reloader" where
  "after_handshake h c = fst (snd (GetCertificate h c))"

definition served :: "'c handshake \<Rightarrow> 'c Reloader \<Rightarrow> 'c option" where
  "served h c = fst (GetCertificate h c)"

lemmas handshake_defs = after_handshake_def served_def GetCertificate_def reload_def

lemma served_is_kept: "served h c = ce_cert (after_handshake h c)"
  by (simp add: handshake_defs split: option.split prod.split bool.split)

lemma after_handshake_cert:
  "ce_cert (after_handshake h c) = ce_cert c \<or>
   (\<exists>cert. dk_pair (hk_load h) = Some cert \<and> ce_cert (after_handshake h c) = Some cert)"
  by (auto simp: handshake_defs split: option.split)

lemma after_handshakes_cert:
  "ce_cert (fold after_handshake hs c) = ce_cert c \<or>
   (\<exists>h \<in> set hs. \<exists>cert. dk_pair (hk_load h) = Some cert \<and> ce_cert (fold after_handshake hs c) = Some cert)"
proof (induction hs arbitrary: c)
  case (Cons h hs)
  from Cons [of "after_handshake h c"] after_handshake_cert [of h c] show ?case by auto
qed simp

text \<open>
  C32: After any number of handshakes, whatever happens to the files, a handshake is served a certificate:
  the one loaded at start or one that a handshake loaded from disk with its key; a broken or missing file
  never takes it away.
\<close>

theorem handshake_always_served:
  assumes "NewReloader at_load at_stat start = Some c"
  shows "\<exists>cert. served h (fold after_handshake hs c) = Some cert \<and>
    (dk_pair at_load = Some cert \<or> (\<exists>g \<in> set (hs @ [h]). dk_pair (hk_load g) = Some cert))"
proof -
  from assms obtain cert where cert: "dk_pair at_load = Some cert" "ce_cert c = Some cert"
    by (auto simp: NewReloader_def reload_def split: option.splits)
  with after_handshakes_cert [of "hs @ [h]" c] show ?thesis by (auto simp: served_is_kept)
qed

text \<open>
  A renewed certificate is in use at once when its time has come: a handshake more than a minute after
  the last check that finds a newer file whose pair loads serves the new certificate.
\<close>

theorem renewal_picked_up:
  assumes "minute < hk_now h - ce_loadedAt c" "dk_mod (hk_stat h) = Some t" "ce_certMod c < t"
    and "dk_pair (hk_load h) = Some cert"
  shows "served h c = Some cert"
  using assms by (simp add: handshake_defs)

lemma same_mod_keeps:
  assumes "\<forall>t. dk_mod (hk_stat h) = Some t \<longrightarrow> t \<le> ce_certMod c"
  shows "ce_cert (after_handshake h c) = ce_cert c \<and> ce_certMod (after_handshake h c) = ce_certMod c"
  using assms by (auto simp: handshake_defs split: option.split)

text \<open>
  C39: The pair is loaded before the file's time is read. A renewal between the two records the new time for
  the old certificate: as long as the file then stays as it is, no handshake ever loads the new one.
\<close>

theorem renewal_between_reads_is_lost:
  assumes "reload old renewed now c = (True, c')" "dk_pair old = Some cert" "dk_mod renewed = Some t"
    and "\<forall>h \<in> set hs. dk_mod (hk_stat h) = Some t"
  shows "ce_cert (fold after_handshake hs c') = Some cert"
proof -
  from assms(1-3) have "ce_cert c' = Some cert \<and> ce_certMod c' = t" by (auto simp: reload_def)
  with assms(4) show ?thesis
  proof (induction hs arbitrary: c')
    case (Cons h hs)
    then show ?case using same_mod_keeps [of h c'] by auto
  qed simp
qed

text \<open>
  While a newer file does not load, the check time is not advanced: every handshake from a minute after
  the last success on stats the file and tries to load the pair again.
\<close>

theorem broken_pair_is_retried_every_time:
  assumes "minute < hk_now h - ce_loadedAt c" "dk_mod (hk_stat h) = Some t" "ce_certMod c < t"
    and "dk_pair (hk_load h) = None"
  shows "GetCertificate h c = (ce_cert c, c, [StatCert, LoadPair])"
  using assms by (simp add: GetCertificate_def reload_def)

section \<open>Witnesses\<close>

definition old_disk :: "nat disk" where "old_disk = \<lparr>dk_pair = Some 1, dk_mod = Some 10\<rparr>"
definition new_disk :: "nat disk" where "new_disk = \<lparr>dk_pair = Some 2, dk_mod = Some 20\<rparr>"
definition bad_disk :: "nat disk" where "bad_disk = \<lparr>dk_pair = None, dk_mod = Some 20\<rparr>"

definition at_disk :: "int \<Rightarrow> nat disk \<Rightarrow> nat handshake" where
  "at_disk now d = \<lparr>hk_now = now, hk_stat = d, hk_load = d, hk_restat = d, hk_later = now\<rparr>"

definition first_load :: "nat Reloader" where
  "first_load = \<lparr>ce_cert = Some 1, ce_loadedAt = 0, ce_certMod = 10\<rparr>"

lemma first_load: "NewReloader old_disk old_disk 0 = Some first_load"
  by (simp add: NewReloader_def reload_def old_disk_def first_load_def)

theorem handshake_always_served_witness:
  "\<exists>cert. served (at_disk (2 * minute) bad_disk) (fold after_handshake [at_disk 5 new_disk] first_load) = Some cert"
  using handshake_always_served [OF first_load, of "at_disk (2 * minute) bad_disk" "[at_disk 5 new_disk]"] by blast

theorem renewal_picked_up_witness: "served (at_disk (2 * minute) new_disk) first_load = Some 2"
  by (rule renewal_picked_up [where t = 20]) (simp_all add: at_disk_def first_load_def new_disk_def minute_def)

theorem renewal_between_reads_is_lost_witness:
  "ce_cert (fold after_handshake [at_disk (2 * minute) new_disk, at_disk (4 * minute) new_disk]
     (snd (reload old_disk new_disk 0 first_load))) = Some 1"
proof (rule renewal_between_reads_is_lost [where c = first_load and now = 0])
  show "reload old_disk new_disk 0 first_load = (True, snd (reload old_disk new_disk 0 first_load))"
    by (simp add: reload_def old_disk_def)
qed (simp_all add: old_disk_def new_disk_def at_disk_def)

theorem broken_pair_is_retried_every_time_witness:
  "GetCertificate (at_disk (2 * minute) bad_disk) first_load = (Some 1, first_load, [StatCert, LoadPair])"
  using broken_pair_is_retried_every_time [of "at_disk (2 * minute) bad_disk" first_load 20]
  by (simp add: at_disk_def first_load_def bad_disk_def minute_def)

end
