(* ===== verification/Migrations.thy ===== *)
theory Migrations
  imports GoStrings
begin

text \<open>
  The migration runner (\<open>migrations/run.go\<close>): every embedded SQL file not yet recorded in
  \<open>schema_migrations\<close> is applied in file-name order, inside a transaction of its own together with its
  record, or outside one when its name ends in \<open>.notx.sql\<close>; the first error stops the run.

  What a script does is SQLite's: \<open>exec\<close>, a function of the body, the time and the database (the
  table of records is part of it), with an error or none and the new database. Any statement of the
  runner itself may fail as well (the disk, the context): \<open>broken\<close> says at which point.
\<close>

record 'd schema =
  sm_data :: 'd
  sm_applied :: "(string \<times> int) list option" \<comment> \<open>\<open>None\<close>: the table is not there yet\<close>

type_synonym 'd exec = "string \<Rightarrow> int \<Rightarrow> 'd schema \<Rightarrow> string option \<times> 'd schema"

datatype migration_point =
    AtEnsure | AtCheck string | AtRead string | AtBegin string | AtRecord string | AtCommit string | AtConn string

datatype migration_error =
    EnsureFailed
  | CheckFailed string
  | ApplyFailed string "string option" \<comment> \<open>the file and the error of its script, if it was the script\<close>

definition recorded :: "'d schema \<Rightarrow> string list" where
  "recorded st = (case sm_applied st of None \<Rightarrow> [] | Some rows \<Rightarrow> map fst rows)"

definition ensure_table :: "'d schema \<Rightarrow> 'd schema" where
  "ensure_table st = (case sm_applied st of None \<Rightarrow> st\<lparr>sm_applied := Some []\<rparr> | Some _ \<Rightarrow> st)"

definition insert_record :: "string \<Rightarrow> int \<Rightarrow> 'd schema \<Rightarrow> 'd schema" where
  "insert_record name now st =
     st\<lparr>sm_applied := Some ((case sm_applied st of None \<Rightarrow> [] | Some rows \<Rightarrow> rows) @ [(name, now)])\<rparr>"

text \<open>The pattern \<open>*.sql\<close> on the embedded files, sorted.\<close>

definition ordered :: "(string \<times> string) list \<Rightarrow> string list" where
  "ordered files = sort (filter (\<lambda>n. HasSuffix n ''.sql'' \<and> CHR ''/'' \<notin> set n) (map fst files))"

definition isApplied :: "'d schema \<Rightarrow> string \<Rightarrow> bool" where
  "isApplied st name \<longleftrightarrow> 0 < length (filter (\<lambda>n. n = name) (recorded st))"

definition is_notx :: "string \<Rightarrow> bool" where "is_notx name \<longleftrightarrow> HasSuffix name ''.notx.sql''"

definition applyNoTx ::
    "'d exec \<Rightarrow> (migration_point \<Rightarrow> bool) \<Rightarrow> string \<Rightarrow> string \<Rightarrow> int \<Rightarrow> 'd schema \<Rightarrow> migration_error option \<times> 'd schema" where
  "applyNoTx exec broken name body now st =
     (if broken (AtConn name) then (Some (ApplyFailed name None), st)
      else case exec body now st of
             (Some e, st') \<Rightarrow> (Some (ApplyFailed name (Some e)), st')
           | (None, st') \<Rightarrow> (None, st'))"

definition applyOne ::
    "'d exec \<Rightarrow> (string \<times> string) list \<Rightarrow> (migration_point \<Rightarrow> bool) \<Rightarrow> int \<Rightarrow> string \<Rightarrow> 'd schema \<Rightarrow>
       migration_error option \<times> 'd schema" where
  "applyOne exec files broken now name st =
     (case map_of files name of
        None \<Rightarrow> (Some (ApplyFailed name None), st)
      | Some body \<Rightarrow>
          if broken (AtRead name) then (Some (ApplyFailed name None), st)
          else if is_notx name then applyNoTx exec broken name body now st
          else if broken (AtBegin name) then (Some (ApplyFailed name None), st)
          else (case exec body now st of
                  (Some e, _) \<Rightarrow> (Some (ApplyFailed name (Some e)), st)
                | (None, st') \<Rightarrow>
                    if broken (AtRecord name) \<or> name \<in> set (recorded st') then (Some (ApplyFailed name None), st)
                    else if broken (AtCommit name) then (Some (ApplyFailed name None), st)
                    else (None, insert_record name now st')))"

fun apply_all ::
    "'d exec \<Rightarrow> (string \<times> string) list \<Rightarrow> (migration_point \<Rightarrow> bool) \<Rightarrow> (string \<Rightarrow> int) \<Rightarrow> string list \<Rightarrow> 'd schema \<Rightarrow>
       migration_error option \<times> 'd schema" where
  "apply_all exec files broken clock [] st = (None, st)"
| "apply_all exec files broken clock (name # names) st =
     (if broken (AtCheck name) then (Some (CheckFailed name), st)
      else if isApplied st name then apply_all exec files broken clock names st
      else (case applyOne exec files broken (clock name) name st of
              (Some e, st') \<Rightarrow> (Some e, st')
            | (None, st') \<Rightarrow> apply_all exec files broken clock names st'))"

text \<open>\<open>clock\<close> is the time at which each file is run.\<close>

definition Apply ::
    "'d exec \<Rightarrow> (string \<times> string) list \<Rightarrow> (migration_point \<Rightarrow> bool) \<Rightarrow> (string \<Rightarrow> int) \<Rightarrow> 'd schema \<Rightarrow>
       migration_error option \<times> 'd schema" where
  "Apply exec files broken clock st =
     (if broken AtEnsure then (Some EnsureFailed, st)
      else apply_all exec files broken clock (ordered files) (ensure_table st))"

section \<open>What the scripts promise\<close>

text \<open>
  The scripts' side of the contract: a script run outside a transaction is one transaction itself, which
  records the file exactly when it succeeds; the other scripts leave the table of records alone.
\<close>

definition scripts_ok :: "'d exec \<Rightarrow> (string \<times> string) list \<Rightarrow> bool" where
  "scripts_ok exec files \<longleftrightarrow>
     (\<forall>name body now st e st'. map_of files name = Some body \<longrightarrow> exec body now st = (e, st') \<longrightarrow>
        (if is_notx name then (if e = None then sm_applied st' = sm_applied (insert_record name now st) else st' = st)
         else e = None \<longrightarrow> sm_applied st' = sm_applied st))"

lemma isApplied_iff: "isApplied st name \<longleftrightarrow> name \<in> set (recorded st)"
  by (auto simp: isApplied_def filter_empty_conv)

lemma recorded_insert: "recorded (insert_record name now st) = recorded st @ [name]"
  by (simp add: recorded_def insert_record_def split: option.split)

lemma recorded_cong: "sm_applied st = sm_applied st' \<Longrightarrow> recorded st = recorded st'"
  by (simp add: recorded_def)

lemma scripts_okD:
  assumes "scripts_ok exec files" "map_of files name = Some body" "exec body now st = (e, st')"
  shows "is_notx name \<Longrightarrow> e \<noteq> None \<Longrightarrow> st' = st"
    and "is_notx name \<Longrightarrow> e = None \<Longrightarrow> recorded st' = recorded st @ [name]"
    and "\<not> is_notx name \<Longrightarrow> e = None \<Longrightarrow> recorded st' = recorded st"
proof -
  from assms have *: "if is_notx name then (if e = None then sm_applied st' = sm_applied (insert_record name now st) else st' = st)
      else e = None \<longrightarrow> sm_applied st' = sm_applied st"
    unfolding scripts_ok_def by blast
  show "is_notx name \<Longrightarrow> e \<noteq> None \<Longrightarrow> st' = st" using * by simp
  show "is_notx name \<Longrightarrow> e = None \<Longrightarrow> recorded st' = recorded st @ [name]"
    using * recorded_cong [of st' "insert_record name now st"] by (simp add: recorded_insert)
  show "\<not> is_notx name \<Longrightarrow> e = None \<Longrightarrow> recorded st' = recorded st"
    using * recorded_cong [of st' st] by simp
qed

text \<open>One file: a failure leaves the database as it was, a success records the file last.\<close>

lemma applyOne_outcome:
  assumes "scripts_ok exec files" "applyOne exec files broken now name st = (r, st')"
  shows "r \<noteq> None \<Longrightarrow> st' = st" and "r = None \<Longrightarrow> recorded st' = recorded st @ [name] \<and> sm_applied st' \<noteq> None"
proof -
  have "if r = None then recorded st' = recorded st @ [name] else st' = st"
  proof (cases "map_of files name")
    case (Some body)
    obtain e s1 where ex: "exec body now st = (e, s1)" by (cases "exec body now st")
    note ok = scripts_okD [OF assms(1) Some ex]
    show ?thesis
    proof (cases "is_notx name")
      case True
      with assms(2) Some ex ok(1,2) show ?thesis
        by (auto simp: applyOne_def applyNoTx_def split: if_splits option.splits)
    next
      case False
      with assms(2) Some ex ok(3) show ?thesis
        by (auto simp: applyOne_def recorded_insert split: if_splits option.splits)
    qed
  qed (use assms(2) in \<open>auto simp: applyOne_def\<close>)
  then show "r \<noteq> None \<Longrightarrow> st' = st" and "r = None \<Longrightarrow> recorded st' = recorded st @ [name] \<and> sm_applied st' \<noteq> None"
    by (auto simp: recorded_def split: option.splits)
qed

text \<open>A run in which no statement of the runner itself fails.\<close>

definition fine :: "migration_point \<Rightarrow> bool" where "fine p = False"

lemma fine_points [simp]:
  "\<not> fine AtEnsure" "\<not> fine (AtCheck n)" "\<not> fine (AtRead n)" "\<not> fine (AtBegin n)" "\<not> fine (AtRecord n)"
  "\<not> fine (AtCommit n)" "\<not> fine (AtConn n)"
  by (simp_all add: fine_def)

lemma applyOne_fine:
  "applyOne exec files broken now name st = (None, st') \<Longrightarrow> applyOne exec files fine now name st = (None, st')"
  by (auto simp: applyOne_def applyNoTx_def split: option.splits if_splits prod.splits)

lemma apply_all_records:
  assumes "scripts_ok exec files" "apply_all exec files broken clock names st = (r, st')"
  shows "set (recorded st) \<subseteq> set (recorded st') \<and> set (recorded st') \<subseteq> set (recorded st) \<union> set names \<and>
    (r = None \<longrightarrow> set names \<subseteq> set (recorded st')) \<and> (sm_applied st \<noteq> None \<longrightarrow> sm_applied st' \<noteq> None)"
  using assms(2)
proof (induction names arbitrary: st)
  case (Cons name names)
  obtain r1 s1 where one: "applyOne exec files broken (clock name) name st = (r1, s1)"
    by (cases "applyOne exec files broken (clock name) name st")
  note out = applyOne_outcome [OF assms(1) one]
  from Cons.prems one consider
      "r \<noteq> None" "st' = st"
    | "isApplied st name" "apply_all exec files broken clock names st = (r, st')"
    | "r1 = None" "apply_all exec files broken clock names s1 = (r, st')"
    using out(1) by (cases r1) (auto split: if_splits)
  then show ?case
  proof cases
    case 2
    with Cons.IH [OF 2(2)] show ?thesis by (auto simp: isApplied_iff)
  next
    case 3
    with Cons.IH [OF 3(2)] out(2) show ?thesis by auto
  qed auto
qed simp

lemma apply_all_clock:
  assumes "scripts_ok exec files" "\<forall>n. n \<notin> set (recorded st) \<longrightarrow> c1 n = c2 n"
  shows "apply_all exec files broken c1 names st = apply_all exec files broken c2 names st"
  using assms(2)
proof (induction names arbitrary: st)
  case (Cons name names)
  show ?case
  proof (cases "isApplied st name")
    case False
    then have eq: "c1 name = c2 name" using Cons.prems by (simp add: isApplied_iff)
    obtain r1 s1 where one: "applyOne exec files broken (c2 name) name st = (r1, s1)"
      by (cases "applyOne exec files broken (c2 name) name st")
    have "r1 = None \<Longrightarrow> apply_all exec files broken c1 names s1 = apply_all exec files broken c2 names s1"
      using applyOne_outcome(2) [OF assms(1) one] Cons.prems by (intro Cons.IH) auto
    with one eq False show ?thesis by (cases r1) auto
  qed (use Cons in auto)
qed simp

lemma apply_all_resumes:
  assumes "scripts_ok exec files" "apply_all exec files broken clock names st = (r, st1)"
  shows "apply_all exec files fine clock2 names st1 =
    apply_all exec files fine (\<lambda>n. if n \<in> set (recorded st1) then clock n else clock2 n) names st"
  using assms(2)
proof (induction names arbitrary: st)
  case (Cons name names)
  let ?merge = "\<lambda>n. if n \<in> set (recorded st1) then clock n else clock2 n"
  obtain r1 s1 where one: "applyOne exec files broken (clock name) name st = (r1, s1)"
    by (cases "applyOne exec files broken (clock name) name st")
  note out = applyOne_outcome [OF assms(1) one]
  from Cons.prems one consider
      "st1 = st"
    | "isApplied st name" "apply_all exec files broken clock names st = (r, st1)"
    | "\<not> isApplied st name" "r1 = None" "apply_all exec files broken clock names s1 = (r, st1)"
    using out(1) by (cases r1) (auto split: if_splits)
  then show ?case
  proof cases
    case 1
    show ?thesis unfolding 1 by (rule apply_all_clock [OF assms(1)]) simp
  next
    case 2
    then have "isApplied st1 name" using apply_all_records [OF assms(1) 2(2)] by (auto simp: isApplied_iff)
    with 2 Cons.IH [OF 2(2)] show ?thesis by simp
  next
    case 3
    then have name: "name \<in> set (recorded st1)"
      using apply_all_records [OF assms(1) 3(3)] out(2) by auto
    have "applyOne exec files fine (?merge name) name st = (None, s1)"
      using applyOne_fine one 3(2) name by fastforce
    with 3 name Cons.IH [OF 3(3)] show ?thesis by (simp add: isApplied_iff)
  qed
qed simp

section \<open>The runner\<close>

lemma apply_all_recorded: "set names \<subseteq> set (recorded st) \<Longrightarrow> apply_all exec files fine clock names st = (None, st)"
  by (induction names) (auto simp: isApplied_iff)

lemma recorded_ensure [simp]: "recorded (ensure_table st) = recorded st"
  by (simp add: recorded_def ensure_table_def split: option.split)

lemma ensure_there: "sm_applied st \<noteq> None \<Longrightarrow> ensure_table st = st"
  by (auto simp: ensure_table_def)

lemma ensured: "sm_applied (ensure_table st) \<noteq> None"
  by (auto simp: ensure_table_def split: option.split)

text \<open>
  C31: A run that returns without an error has recorded every migration file, keeps the earlier records and
  adds no others, and starting again changes nothing.
\<close>

theorem apply_converges:
  assumes "scripts_ok exec files" "Apply exec files broken clock st = (None, st')"
  shows "set (recorded st') = set (recorded st) \<union> set (ordered files) \<and>
    Apply exec files fine clock2 st' = (None, st')"
proof -
  from assms(2) have "apply_all exec files broken clock (ordered files) (ensure_table st) = (None, st')"
    by (auto simp: Apply_def split: if_splits)
  from apply_all_records [OF assms(1) this] ensured [of st] show ?thesis
    by (auto simp: Apply_def ensure_there apply_all_recorded)
qed

text \<open>
  C12: A run that fails anywhere -- in a script, or at any statement of the runner -- leaves a database from
  which the next undisturbed start ends exactly as one undisturbed run from the original database would
  have, each file dated by the run that applied it.
\<close>

theorem apply_resumes:
  assumes "scripts_ok exec files" "Apply exec files broken clock st = (Some e, st1)"
  shows "Apply exec files fine clock2 st1 =
    Apply exec files fine (\<lambda>n. if n \<in> set (recorded st1) then clock n else clock2 n) st"
proof (cases "broken AtEnsure")
  case True
  with assms(2) have "st1 = st" by (simp add: Apply_def)
  then show ?thesis unfolding Apply_def
    by (auto intro!: apply_all_clock [OF assms(1)])
next
  case False
  with assms(2) have run: "apply_all exec files broken clock (ordered files) (ensure_table st) = (Some e, st1)"
    by (simp add: Apply_def)
  have "ensure_table st1 = st1" using apply_all_records [OF assms(1) run] ensured by (blast intro: ensure_there)
  with apply_all_resumes [OF assms(1) run] show ?thesis by (simp add: Apply_def)
qed

section \<open>Witnesses\<close>

text \<open>The files of the repository, their bodies standing for what the scripts do to a list of tables.\<close>

definition migration_files :: "(string \<times> string) list" where
  "migration_files =
     [(''0003-strict-mihomo-refs.notx.sql'', ''refs''), (''0001-init.sql'', ''init''),
      (''0002-users-description.sql'', ''description'')]"

definition table_exec :: "string list exec" where
  "table_exec body now st =
     (let st' = st\<lparr>sm_data := sm_data st @ [body]\<rparr> in
      if body = ''refs'' then
        (if ''init'' \<in> set (sm_data st) then (None, insert_record ''0003-strict-mihomo-refs.notx.sql'' now st')
         else (Some ''no such table'', st))
      else (None, st'))"

definition empty_schema :: "string list schema" where "empty_schema = \<lparr>sm_data = [], sm_applied = None\<rparr>"

lemma migration_order:
  "ordered migration_files =
     [''0001-init.sql'', ''0002-users-description.sql'', ''0003-strict-mihomo-refs.notx.sql'']"
  by code_simp

lemma table_scripts_ok: "scripts_ok table_exec migration_files"
proof -
  have "is_notx ''0003-strict-mihomo-refs.notx.sql''" "\<not> is_notx ''0001-init.sql''"
    "\<not> is_notx ''0002-users-description.sql''" by code_simp+
  then show ?thesis
    by (auto simp: scripts_ok_def migration_files_def table_exec_def Let_def insert_record_def split: if_splits)
qed

definition crash_at_second :: "migration_point \<Rightarrow> bool" where
  "crash_at_second p \<longleftrightarrow> p = AtCommit ''0002-users-description.sql''"

theorem apply_converges_witness:
  "\<exists>st'. Apply table_exec migration_files fine (\<lambda>_. 7) empty_schema = (None, st') \<and>
     sm_data st' = [''init'', ''description'', ''refs''] \<and> Apply table_exec migration_files fine (\<lambda>_. 9) st' = (None, st')"
proof -
  have "Apply table_exec migration_files fine (\<lambda>_. 7) empty_schema =
    (None, \<lparr>sm_data = [''init'', ''description'', ''refs''], sm_applied = Some [(''0001-init.sql'', 7),
       (''0002-users-description.sql'', 7), (''0003-strict-mihomo-refs.notx.sql'', 7)]\<rparr>)"
    by code_simp
  from this apply_converges [OF table_scripts_ok this, of "\<lambda>_. 9"] show ?thesis by simp
qed

theorem apply_resumes_witness:
  "\<exists>e st1. Apply table_exec migration_files crash_at_second (\<lambda>_. 7) empty_schema = (Some e, st1) \<and>
     recorded st1 = [''0001-init.sql''] \<and>
     Apply table_exec migration_files fine (\<lambda>_. 9) st1 =
       Apply table_exec migration_files fine (\<lambda>n. if n = ''0001-init.sql'' then 7 else 9) empty_schema"
proof -
  let ?st1 = "\<lparr>sm_data = [''init''], sm_applied = Some [(''0001-init.sql'', 7)]\<rparr>"
  have run: "Apply table_exec migration_files crash_at_second (\<lambda>_. 7) empty_schema =
    (Some (ApplyFailed ''0002-users-description.sql'' None), ?st1)" by code_simp
  moreover have rec: "recorded ?st1 = [''0001-init.sql'']" by code_simp
  ultimately show ?thesis
    using apply_resumes [OF table_scripts_ok run, of "\<lambda>_. 9", unfolded rec] by auto
qed

end
