(* ===== verification/EnvConfig.thy ===== *)
theory EnvConfig
  imports GoNet
begin

text \<open>
  Bootstrap configuration (\<open>internal/config\<close>): the optional file of KEY=VALUE lines, loaded into the
  process environment without overriding it, and the validated \<open>Config\<close>. The environment is a map from
  names to values; the file is what opening it gives. Filling the struct from the environment is
  \<open>env.Parse\<close> of package \<open>github.com/caarlos0/env\<close>, the parameter \<open>parse\<close>.
\<close>

type_synonym environment = "string \<rightharpoonup> string"

record Config =
  cf_DBPath :: string
  cf_StaticDir :: string
  cf_Listen :: string
  cf_TLSCert :: string
  cf_TLSKey :: string
  cf_PublicBase :: string
  cf_Secret :: string
  cf_AdminUser :: string
  cf_AdminPassword :: string

definition TLSEnabled :: "Config \<Rightarrow> bool" where
  "TLSEnabled c \<longleftrightarrow> cf_TLSCert c \<noteq> [] \<and> cf_TLSKey c \<noteq> []"

datatype config_error =
    ReadFailed string
  | LineTooLong
  | ParseFailed string
  | ListenRequired
  | SecretRequired
  | AdminPasswordRequired
  | TLSHalf

definition config_check :: "Config \<Rightarrow> config_error option" where
  "config_check c =
     (if cf_Listen c = [] then Some ListenRequired
      else if cf_Secret c = [] then Some SecretRequired
      else if cf_AdminPassword c = [] then Some AdminPasswordRequired
      else if (cf_TLSCert c = []) \<noteq> (cf_TLSKey c = []) then Some TLSHalf
      else None)"

section \<open>The file (loadDotenv)\<close>

datatype env_file = Missing | Unreadable string | Contents string

text \<open>
  \<open>bufio.Scanner\<close> with its default buffer: the lines without their end (a line feed, with a carriage
  return before it), a last line without one included; a line of 64 KiB or more stops the scan with an
  error, after the lines before it.
\<close>

definition max_line :: nat where "max_line = 65536"

definition drop_cr :: "string \<Rightarrow> string" where
  "drop_cr line = (if line \<noteq> [] \<and> last line = CHR 0x0D then butlast line else line)"

definition raw_lines :: "string \<Rightarrow> string list" where
  "raw_lines s = (let ls = Split (CHR 0x0A) s in if last ls = [] then butlast ls else ls)"

definition scan_lines :: "string \<Rightarrow> string list \<times> bool" where
  "scan_lines s =
     (let ls = raw_lines s
      in (map drop_cr (takeWhile (\<lambda>l. length l < max_line) ls), list_all (\<lambda>l. length l < max_line) ls))"

definition TrimPrefix :: "string \<Rightarrow> string \<Rightarrow> string" where
  "TrimPrefix s p = (if HasPrefix s p then drop (length p) s else s)"

definition unquote_value :: "string \<Rightarrow> string" where
  "unquote_value val =
     (if 2 \<le> length val \<and> hd val \<in> {CHR 0x22, CHR 0x27} \<and> last val = hd val then butlast (tl val) else val)"

text \<open>A line's assignment, or none: blank lines, comments and lines without an equals sign.\<close>

definition env_line :: "string \<Rightarrow> (string \<times> string) option" where
  "env_line text =
     (let line = TrimSpace text in
      if line = [] \<or> HasPrefix line ''#'' then None
      else (case Cut CHR ''='' (TrimPrefix line ''export '') of
              (key, val, ok) \<Rightarrow> if ok then Some (TrimSpace key, unquote_value (TrimSpace val)) else None))"

text \<open>\<open>os.Setenv\<close> refuses an empty name and bytes of value 0 (the key cannot hold an equals sign here).\<close>

definition Setenv :: "string \<Rightarrow> string \<Rightarrow> environment \<Rightarrow> environment" where
  "Setenv key val env =
     (if key = [] \<or> CHR ''='' \<in> set key \<or> CHR 0x00 \<in> set key \<or> CHR 0x00 \<in> set val then env else env(key \<mapsto> val))"

definition set_line :: "string \<Rightarrow> environment \<Rightarrow> environment" where
  "set_line text env =
     (case env_line text of
        None \<Rightarrow> env
      | Some (key, val) \<Rightarrow> if env key = None then Setenv key val env else env)"

definition loadDotenv :: "env_file \<Rightarrow> environment \<Rightarrow> config_error option \<times> environment" where
  "loadDotenv file env =
     (case file of
        Missing \<Rightarrow> (None, env)
      | Unreadable e \<Rightarrow> (Some (ReadFailed e), env)
      | Contents s \<Rightarrow>
          (case scan_lines s of
             (ls, ok) \<Rightarrow> (if ok then None else Some LineTooLong, fold set_line ls env)))"

section \<open>Load\<close>

definition Load ::
    "(environment \<Rightarrow> string + Config) \<Rightarrow> env_file option \<Rightarrow> environment \<Rightarrow> (config_error + Config) \<times> environment" where
  "Load parse envFile env =
     (case (case envFile of None \<Rightarrow> (None, env) | Some file \<Rightarrow> loadDotenv file env) of
        (Some e, env') \<Rightarrow> (Inl e, env')
      | (None, env') \<Rightarrow>
          (case parse env' of
             Inl e \<Rightarrow> (Inl (ParseFailed e), env')
           | Inr c \<Rightarrow> (case config_check c of Some e \<Rightarrow> (Inl e, env') | None \<Rightarrow> (Inr c, env'))))"

section \<open>The environment takes precedence, the first line wins\<close>

text \<open>The assignments of the lines that the environment accepts.\<close>

definition settable :: "string \<times> string \<Rightarrow> bool" where
  "settable kv \<longleftrightarrow> fst kv \<noteq> [] \<and> CHR ''='' \<notin> set (fst kv) \<and> CHR 0x00 \<notin> set (fst kv) \<and> CHR 0x00 \<notin> set (snd kv)"

definition assignments :: "string list \<Rightarrow> (string \<times> string) list" where
  "assignments ls = filter settable (List.map_filter env_line ls)"

lemma set_line_eq:
  "set_line text env =
     (case env_line text of Some kv \<Rightarrow> (if settable kv then [fst kv \<mapsto> snd kv] ++ env else env) | None \<Rightarrow> env)"
  by (auto simp: set_line_def Setenv_def settable_def map_add_def fun_eq_iff split: option.split)

lemma fold_set_line: "fold set_line ls env = map_of (assignments ls) ++ env"
proof (induction ls arbitrary: env)
  case (Cons l ls)
  have "m ++ ([k \<mapsto> v] ++ env) = (m(k \<mapsto> v)) ++ env" for m and k v :: string
    by (simp add: map_add_def fun_eq_iff split: option.split)
  with Cons show ?case by (auto simp: set_line_eq assignments_def split: option.split)
qed (simp add: assignments_def)

lemma loaded_lines:
  assumes "list_all (\<lambda>l. length l < max_line) (raw_lines s)"
  shows "loadDotenv (Contents s) env = (None, map_of (assignments (map drop_cr (raw_lines s))) ++ env)"
proof -
  have all: "takeWhile (\<lambda>l. length l < max_line) (raw_lines s) = raw_lines s"
    using assms by (simp add: takeWhile_eq_all_conv list_all_iff)
  show ?thesis
    using assms unfolding loadDotenv_def scan_lines_def Let_def env_file.case prod.case all by (simp add: fold_set_line)
qed

text \<open>
  C33: Loading a file of lines below 64 KiB leaves every variable that is set as it is, sets every other one
  to the value of the first line that assigns it, and touches nothing else.
\<close>

theorem environment_takes_precedence:
  assumes "list_all (\<lambda>l. length l < max_line) (raw_lines s)"
  shows "loadDotenv (Contents s) env = (None, map_of (assignments (map drop_cr (raw_lines s))) ++ env)"
  using assms by (rule loaded_lines)

text \<open>
  A configuration that loads has a listen address, a secret, an admin password, and either both TLS
  files, and then TLS is enabled, or neither.
\<close>

theorem loaded_config_usable:
  assumes "Load parse envFile env = (Inr c, env')"
  shows "cf_Listen c \<noteq> [] \<and> cf_Secret c \<noteq> [] \<and> cf_AdminPassword c \<noteq> [] \<and>
    (TLSEnabled c \<or> cf_TLSCert c = [] \<and> cf_TLSKey c = []) \<and> parse env' = Inr c \<and> (\<forall>k v. env k = Some v \<longrightarrow> env' k = Some v)"
proof -
  define r where "r = (case envFile of None \<Rightarrow> (None, env) | Some file \<Rightarrow> loadDotenv file env)"
  have keep: "\<forall>k v. env k = Some v \<longrightarrow> snd r k = Some v"
    by (auto simp: r_def loadDotenv_def scan_lines_def fold_set_line Let_def split: option.split env_file.split)
  from assms have ok: "r = (None, env')" "parse env' = Inr c" "config_check c = None"
    unfolding Load_def r_def [symmetric] by (auto split: prod.splits option.splits sum.splits)
  with keep show ?thesis by (auto simp: config_check_def TLSEnabled_def split: if_splits)
qed

section \<open>Witnesses\<close>

definition demo_env_file :: string where
  "demo_env_file = ''SUBGEN_SECRET=abc'' @ [CHR 0x0A] @ ''SUBGEN_ADMIN_PASSWORD=pw'' @ [CHR 0x0A] @ ''SUBGEN_SECRET=x''"

definition demo_environment :: environment where "demo_environment = [''SUBGEN_ADMIN_PASSWORD'' \<mapsto> ''own'']"

definition read_var :: "environment \<Rightarrow> string \<Rightarrow> string \<Rightarrow> string" where
  "read_var env key dflt = (case env key of Some v \<Rightarrow> v | None \<Rightarrow> dflt)"

definition demo_parse :: "environment \<Rightarrow> string + Config" where
  "demo_parse env =
     Inr \<lparr>cf_DBPath = read_var env ''SUBGEN_DB_PATH'' ''db/subgen.db'', cf_StaticDir = read_var env ''SUBGEN_STATIC_DIR'' [],
          cf_Listen = read_var env ''SUBGEN_LISTEN'' ''0.0.0.0:2097'', cf_TLSCert = read_var env ''SUBGEN_TLS_CERT'' [],
          cf_TLSKey = read_var env ''SUBGEN_TLS_KEY'' [], cf_PublicBase = read_var env ''SUBGEN_PUBLIC_BASE'' [],
          cf_Secret = read_var env ''SUBGEN_SECRET'' [], cf_AdminUser = read_var env ''SUBGEN_ADMIN_USER'' ''admin'',
          cf_AdminPassword = read_var env ''SUBGEN_ADMIN_PASSWORD'' []\<rparr>"

lemma demo_lines: "list_all (\<lambda>l. length l < max_line) (raw_lines demo_env_file)"
proof -
  have "raw_lines demo_env_file = [''SUBGEN_SECRET=abc'', ''SUBGEN_ADMIN_PASSWORD=pw'', ''SUBGEN_SECRET=x'']"
    by code_simp
  then show ?thesis by (simp add: max_line_def)
qed

lemma demo_assignments:
  "assignments (map drop_cr (raw_lines demo_env_file)) =
     [(''SUBGEN_SECRET'', ''abc''), (''SUBGEN_ADMIN_PASSWORD'', ''pw''), (''SUBGEN_SECRET'', ''x'')]"
  by code_simp

theorem environment_takes_precedence_witness:
  "\<exists>env'. loadDotenv (Contents demo_env_file) demo_environment = (None, env') \<and>
     env' ''SUBGEN_SECRET'' = Some ''abc'' \<and> env' ''SUBGEN_ADMIN_PASSWORD'' = Some ''own''"
  using environment_takes_precedence [OF demo_lines, of demo_environment] unfolding demo_assignments
  by (simp add: demo_environment_def)

theorem loaded_config_usable_witness:
  "\<exists>c env'. Load demo_parse (Some (Contents demo_env_file)) demo_environment = (Inr c, env') \<and>
     cf_Secret c = ''abc'' \<and> cf_AdminPassword c = ''own'' \<and> \<not> TLSEnabled c \<and> cf_Listen c \<noteq> []"
proof -
  let ?env = "map_of [(''SUBGEN_SECRET'', ''abc''), (''SUBGEN_ADMIN_PASSWORD'', ''pw''), (''SUBGEN_SECRET'', ''x'')] ++ demo_environment"
  have "loadDotenv (Contents demo_env_file) demo_environment = (None, ?env)"
    by (rule loaded_lines [OF demo_lines, of demo_environment, unfolded demo_assignments])
  moreover have "?env ''SUBGEN_SECRET'' = Some ''abc''" "?env ''SUBGEN_ADMIN_PASSWORD'' = Some ''own''"
    "?env ''SUBGEN_LISTEN'' = None" "?env ''SUBGEN_TLS_CERT'' = None" "?env ''SUBGEN_TLS_KEY'' = None"
    by (simp_all add: demo_environment_def)
  ultimately obtain c where load: "Load demo_parse (Some (Contents demo_env_file)) demo_environment = (Inr c, ?env)"
    and c: "cf_Secret c = ''abc''" "cf_AdminPassword c = ''own''" "cf_TLSCert c = []"
    by (simp add: Load_def demo_parse_def config_check_def read_var_def del: map_of.simps)
  from c loaded_config_usable [OF load] show ?thesis using load by (auto simp: TLSEnabled_def)
qed

end
