(* ===== verification/Subctl.thy ===== *)
theory Subctl
  imports DeliveryProperties EnvConfig
begin

text \<open>
  The command line utility (\<open>cmd/subctl\<close>): printing one subscriber's configuration and listing the fleet.
  It reads the same store and fleet as the service. What is written to standard output is a text.
\<close>

datatype 'e ctl_error =
    NothingToDo
  | ConfigFailed config_error
  | FleetFailed string
  | SubIdNotFound string
  | ScopeFailed
  | ConfigUnreadable
  | RenderFailed "'e render_error"

section \<open>Printing one configuration\<close>

definition resolveConfigID :: "db \<Rightarrow> string \<Rightarrow> int option" where
  "resolveConfigID db subID =
     (case IDBySubID subID db of
        None \<Rightarrow> None
      | Some userID \<Rightarrow>
          (case UserConfigID userID ConfigKindMihomo db of
             Some i \<Rightarrow> Some i
           | None \<Rightarrow> (case BaseConfigID ConfigKindMihomo db of Some i \<Rightarrow> Some i | None \<Rightarrow> Some 0)))"

definition renderOptions :: "Config \<Rightarrow> db \<Rightarrow> int \<Rightarrow> Options option" where
  "renderOptions cfg db cid =
     map_option (\<lambda>rules.
       \<lparr>op_BaseYAML = Setting cid ''base_yaml'' db, op_Rules = rules, op_Groups = ProxyGroups cid db,
        op_Providers = RuleProviders cid db, op_PublicBase = cf_PublicBase cfg\<rparr>) (Rules cid db)"

definition printOne ::
    "(string \<Rightarrow> 'e + ymap) \<Rightarrow> (ymap \<Rightarrow> 'e + string) \<Rightarrow> Config \<Rightarrow> db \<Rightarrow> Fleet \<Rightarrow> string \<Rightarrow> 'e ctl_error + string" where
  "printOne unmarshal marshal cfg db fl subID =
     (case Fleet_Sub (Some fl) subID of
        None \<Rightarrow> Inl (SubIdNotFound subID)
      | Some sub \<Rightarrow>
          (case resolveConfigID db subID of
             None \<Rightarrow> Inl ScopeFailed
           | Some cid \<Rightarrow>
               (case renderOptions cfg db cid of
                  None \<Rightarrow> Inl ConfigUnreadable
                | Some opts \<Rightarrow>
                    (case Render unmarshal marshal sub opts of
                       Inl e \<Rightarrow> Inl (RenderFailed e)
                     | Inr (out, _) \<Rightarrow> Inr out))))"

section \<open>Listing the fleet\<close>

definition newline :: string where "newline = [CHR 0x0A]"

text \<open>The verb v of a slice of strings, and the verb \<open>-18s\<close>: padded on the right to 18 runes.\<close>

definition show_strings :: "string list \<Rightarrow> string" where
  "show_strings xs = ''['' @ Join xs '' '' @ '']''"

definition pad18 :: "string \<Rightarrow> string" where
  "pad18 s = s @ replicate (18 - RuneCount s) CHR '' ''"

definition proxy_line :: "Proxy \<Rightarrow> string" where
  "proxy_line p =
     (case px_Hysteria2 p of
        Some h \<Rightarrow> ''    - '' @ pad18 (px_Name p) @ '' '' @ hy_Server h @ '':'' @ Itoa (hy_Port h) @ '' hysteria2'' @ newline
      | None \<Rightarrow>
          (case px_VLESS p of
             Some v \<Rightarrow> ''    - '' @ pad18 (px_Name p) @ '' '' @ vl_Server v @ '':'' @ Itoa (vl_Port v) @ '' vless '' @
                         vl_Network v @ ''/'' @ vl_Security v @ newline
           | None \<Rightarrow> []))"

definition subscriber_lines :: "mac \<Rightarrow> Config \<Rightarrow> string \<Rightarrow> string \<Rightarrow> Subscriber \<Rightarrow> string" where
  "subscriber_lines hmac cfg base i sub =
     ''subId='' @ i @ '' emails='' @ show_strings (sb_Emails sub) @ '' proxies='' @ Itoa (int (length (sb_Proxies sub))) @ newline @
     (if base \<noteq> [] then ''    url: '' @ base @ ''/sub/mihomo/'' @ Make hmac (cf_Secret cfg) i @ newline else []) @
     concat (map proxy_line (sb_Proxies sub))"

text \<open>\<open>ord\<close> lists the keys of a map in the order of its range.\<close>

definition Fleet_SubIDs :: "(string set \<Rightarrow> string list) \<Rightarrow> Fleet \<Rightarrow> string list" where
  "Fleet_SubIDs ord fl = ord (dom (fl_Subs fl))"

definition dump_fleet :: "(string set \<Rightarrow> string list) \<Rightarrow> mac \<Rightarrow> Config \<Rightarrow> Fleet \<Rightarrow> string" where
  "dump_fleet ord hmac cfg fl =
     (let base = TrimRightSlash (cf_PublicBase cfg)
      in concat (map (\<lambda>i. case Fleet_Sub (Some fl) i of
           None \<Rightarrow> [] | Some sub \<Rightarrow> subscriber_lines hmac cfg base i sub) (Fleet_SubIDs ord fl)))"

text \<open>\<open>run\<close> after the flags: \<open>fetched\<close> is the fleet over the opened store.\<close>

definition run_ctl ::
    "(string \<Rightarrow> 'e + ymap) \<Rightarrow> (ymap \<Rightarrow> 'e + string) \<Rightarrow> (string set \<Rightarrow> string list) \<Rightarrow> mac \<Rightarrow>
       (environment \<Rightarrow> string + Config) \<Rightarrow> env_file option \<Rightarrow> environment \<Rightarrow> db \<Rightarrow> string + Fleet \<Rightarrow> bool \<Rightarrow> string \<Rightarrow>
       'e ctl_error + string" where
  "run_ctl unmarshal marshal ord hmac parse envFile env db fetched dumpFleet printSub =
     (if \<not> dumpFleet \<and> printSub = [] then Inl NothingToDo
      else (case fst (Load parse envFile env) of
              Inl e \<Rightarrow> Inl (ConfigFailed e)
            | Inr cfg \<Rightarrow>
                (case fetched of
                   Inl e \<Rightarrow> Inl (FleetFailed e)
                 | Inr fl \<Rightarrow>
                     if printSub \<noteq> [] then printOne unmarshal marshal cfg db fl printSub
                     else Inr (dump_fleet ord hmac cfg fl))))"

section \<open>The utility mirrors the service\<close>

lemma renderOptions_eq: "renderOptions cfg db cid = options (cf_PublicBase cfg) cid db"
  by (simp add: renderOptions_def options_def stored_options_def)

lemma resolveConfigID_eq:
  "resolveConfigID db subID = map_option (\<lambda>u. configID u ConfigKindMihomo db) (IDBySubID subID db)"
  by (simp add: resolveConfigID_def configID_def split: option.split)

lemma printOne_eq:
  "Fleet_Sub (Some fl) subID = Some sub \<Longrightarrow> IDBySubID subID db = Some u \<Longrightarrow>
   printOne unmarshal marshal cfg db fl subID =
     (case options (cf_PublicBase cfg) (configID u ConfigKindMihomo db) db of
        None \<Rightarrow> Inl ConfigUnreadable
      | Some opts \<Rightarrow>
          (case Render unmarshal marshal sub opts of Inl e \<Rightarrow> Inl (RenderFailed e) | Inr (out, _) \<Rightarrow> Inr out))"
  by (simp add: printOne_def resolveConfigID_eq renderOptions_eq)

text \<open>
  C24: Printing mirrors the subscription handler: for a stored user whom the fleet knows, with a token no
  other user has, the utility prints exactly the body the service answers with, and fails exactly when
  the service fails, with the same rendering error.
\<close>

theorem print_mirrors_sub:
  assumes "store_inv db" "r \<in> set (db_users db)" "ur_sub r \<noteq> []"
    and "\<forall>q \<in> set (db_users db). Make hmac secret (ur_sub q) = Make hmac secret (ur_sub r) \<longrightarrow> ur_sub q = ur_sub r"
    and "Make hmac secret (ur_sub r) \<noteq> []" "Fleet_Sub (Some fl) (ur_sub r) = Some sub"
  shows "case Sub hmac quote (engines unmarshal marshal (cf_PublicBase cfg)) secret (Inr fl) ConfigKindMihomo
           (Make hmac secret (ur_sub r)) db of
      Inr (SubOK h) \<Rightarrow> printOne unmarshal marshal cfg db fl (ur_sub r) = Inr (sh_Response h)
    | Inr (SubNotFound _) \<Rightarrow> False
    | Inl (RenderError e) \<Rightarrow> printOne unmarshal marshal cfg db fl (ur_sub r) = Inl (RenderFailed e)
    | Inl NotTerminating \<Rightarrow> printOne unmarshal marshal cfg db fl (ur_sub r) = Inl ConfigUnreadable
    | Inl _ \<Rightarrow> False"
proof -
  let ?cid = "configID (ur_id r) ConfigKindMihomo db"
  have id: "IDBySubID (ur_sub r) db = Some (ur_id r)" using find_sub [OF assms(1,2)] by (simp add: IDBySubID_def)
  have engine: "engines unmarshal marshal (cf_PublicBase cfg) ConfigKindMihomo = Some (MihomoRender unmarshal marshal (cf_PublicBase cfg))"
    by (simp add: engines_def)
  have sub: "served_subscriber fl (ur_sub r) = sub" using assms(6) by (simp add: served_subscriber_def)
  show ?thesis
    unfolding sub Sub_owner [where hmac = hmac and secret = secret and kind = ConfigKindMihomo and
        renderers = "engines unmarshal marshal (cf_PublicBase cfg)" and
        renderer = "MihomoRender unmarshal marshal (cf_PublicBase cfg)", OF assms(1-3,5,4) engine] printOne_eq [OF assms(6) id]
    by (auto simp: MihomoRender_def sub_headers_def Let_def split: option.split sum.split prod.split)
qed

text \<open>
  For a stored user whom no panel of the fleet knows the two differ: the utility reports an unknown
  subscription id, the service answers with the configuration of an empty subscriber.
\<close>

theorem print_refuses_absent_subscriber:
  assumes "store_inv db" "r \<in> set (db_users db)" "ur_sub r \<noteq> []"
    and "\<forall>q \<in> set (db_users db). Make hmac secret (ur_sub q) = Make hmac secret (ur_sub r) \<longrightarrow> ur_sub q = ur_sub r"
    and "Make hmac secret (ur_sub r) \<noteq> []" "Fleet_Sub (Some fl) (ur_sub r) = None" "renderers kind = Some renderer"
  shows "printOne unmarshal marshal cfg db fl (ur_sub r) = Inl (SubIdNotFound (ur_sub r)) \<and>
    Sub hmac quote renderers secret (Inr fl) kind (Make hmac secret (ur_sub r)) db =
      bind_err (renderer (new_subscriber (ur_sub r)) (configID (ur_id r) kind db) db) (\<lambda>(body, meta).
        Inr (SubOK (sub_headers quote (new_subscriber (ur_sub r)) body meta)))"
  using Sub_owner [where hmac = hmac and secret = secret and renderers = renderers and kind = kind and
      renderer = renderer, OF assms(1-3,5,4,7)] assms(6) by (simp add: printOne_def served_subscriber_def)

section \<open>Witnesses\<close>

definition bob_row :: user_row where
  "bob_row = \<lparr>ur_id = 6, ur_name = ''bob'', ur_sub = ''t'', ur_description = None, ur_created = 0\<rparr>"

definition bob_fleet :: Fleet where
  "bob_fleet = \<lparr>fl_Subs = [''t'' \<mapsto> new_subscriber ''t''], fl_ClientsByInbound = Map.empty\<rparr>"

definition ctl_config :: Config where
  "ctl_config =
     \<lparr>cf_DBPath = ''d'', cf_StaticDir = [], cf_Listen = ''l'', cf_TLSCert = [], cf_TLSKey = [], cf_PublicBase = [],
      cf_Secret = ''k'', cf_AdminUser = ''admin'', cf_AdminPassword = ''p''\<rparr>"

definition demo_unmarshal :: "string \<Rightarrow> unit + ymap" where "demo_unmarshal s = Inr []"
definition demo_marshal :: "ymap \<Rightarrow> unit + string" where "demo_marshal m = Inr ''doc''"

lemma bob_stored: "bob_row \<in> set (db_users sample_db)" "ur_sub bob_row \<noteq> []" "ur_sub bob_row = ''t''"
  by (simp_all add: bob_row_def sample_db_def)

lemma bob_token:
  "\<forall>q \<in> set (db_users sample_db). Make demo_mac ''k'' (ur_sub q) = Make demo_mac ''k'' (ur_sub bob_row) \<longrightarrow>
     ur_sub q = ur_sub bob_row"
  "Make demo_mac ''k'' (ur_sub bob_row) \<noteq> []"
proof -
  have "Make demo_mac ''k'' ''s'' \<noteq> Make demo_mac ''k'' ''t''" by code_simp
  then show "\<forall>q \<in> set (db_users sample_db). Make demo_mac ''k'' (ur_sub q) = Make demo_mac ''k'' (ur_sub bob_row) \<longrightarrow>
     ur_sub q = ur_sub bob_row" by (auto simp: sample_db_def bob_row_def)
  show "Make demo_mac ''k'' (ur_sub bob_row) \<noteq> []" unfolding bob_stored(3) by code_simp
qed

lemma bob_printed: "printOne demo_unmarshal demo_marshal ctl_config sample_db bob_fleet ''t'' = Inr ''doc''"
  by code_simp

theorem print_mirrors_sub_witness:
  "\<exists>h. Sub demo_mac id (engines demo_unmarshal demo_marshal (cf_PublicBase ctl_config)) ''k'' (Inr bob_fleet)
     ConfigKindMihomo (Make demo_mac ''k'' ''t'') sample_db = Inr (SubOK h) \<and> sh_Response h = ''doc''"
proof -
  have sub: "Fleet_Sub (Some bob_fleet) (ur_sub bob_row) = Some (new_subscriber ''t'')"
    by (simp add: Fleet_Sub_def bob_fleet_def bob_stored)
  from print_mirrors_sub [where hmac = demo_mac and secret = "''k''" and quote = id and
      unmarshal = demo_unmarshal and marshal = demo_marshal and cfg = ctl_config,
      OF sample_store_inv bob_stored(1,2) bob_token sub] bob_printed
  show ?thesis unfolding bob_stored(3) by (auto split: sum.splits sub_res.splits sub_error.splits)
qed

theorem print_refuses_absent_subscriber_witness:
  "printOne demo_unmarshal demo_marshal ctl_config sample_db empty_fleet ''t'' = Inl (SubIdNotFound ''t'') \<and>
   (\<exists>h. Sub demo_mac id [''mihomo'' \<mapsto> demo_engine] ''k'' (Inr empty_fleet) ''mihomo'' (Make demo_mac ''k'' ''t'') sample_db =
      Inr (SubOK h))"
proof -
  have sub: "Fleet_Sub (Some empty_fleet) (ur_sub bob_row) = None" by (simp add: Fleet_Sub_def empty_fleet_def)
  have engine: "[''mihomo'' \<mapsto> demo_engine] ''mihomo'' = Some demo_engine" by simp
  from print_refuses_absent_subscriber [where hmac = demo_mac and secret = "''k''" and quote = id and
      unmarshal = demo_unmarshal and marshal = demo_marshal and cfg = ctl_config and kind = "''mihomo''" and
      renderers = "[''mihomo'' \<mapsto> demo_engine]" and renderer = demo_engine,
      OF sample_store_inv bob_stored(1,2) bob_token sub engine]
  show ?thesis unfolding bob_stored(3) by (simp add: demo_engine_def)
qed

end
