(* ===== verification/GoMime.thy ===== *)
theory GoMime
  imports GoNet
begin

text \<open>
  What the generated server uses of the standard packages \<open>mime\<close> and \<open>net/http\<close>: \<open>mime.ParseMediaType\<close>
  (only the media type and whether there is an error are used, so the parameters are kept for the
  check of repeated names alone), and the text of a cookie.
\<close>

section \<open>Tokens\<close>

definition isTSpecial :: "char \<Rightarrow> bool" where
  "isTSpecial c \<longleftrightarrow> c \<in> set ''()<>@,;:/[]?='' \<or> c = CHR 0x22 \<or> c = CHR 0x5C"

definition isTokenChar :: "char \<Rightarrow> bool" where
  "isTokenChar c \<longleftrightarrow> CHR 0x20 < c \<and> c < CHR 0x7F \<and> \<not> isTSpecial c"

definition consumeToken :: "string \<Rightarrow> string \<times> string" where
  "consumeToken v = (takeWhile isTokenChar v, dropWhile isTokenChar v)"

text \<open>A quoted string, read behind its opening quote: a backslash escapes only a special character.\<close>

fun quoted_value :: "string \<Rightarrow> (string \<times> string) option" where
  "quoted_value [] = None"
| "quoted_value (c # s) =
     (if c = CHR 0x22 then Some ([], s)
      else if c = CHR 0x0D \<or> c = CHR 0x0A then None
      else if c = CHR 0x5C then
        (case s of
           d # t \<Rightarrow> if isTSpecial d then map_option (\<lambda>(v, r). (d # v, r)) (quoted_value t)
                    else map_option (\<lambda>(v, r). (c # v, r)) (quoted_value s)
         | [] \<Rightarrow> None)
      else map_option (\<lambda>(v, r). (c # v, r)) (quoted_value s))"

definition consumeValue :: "string \<Rightarrow> string \<times> string" where
  "consumeValue v =
     (case v of
        [] \<Rightarrow> ([], v)
      | c # s \<Rightarrow>
          if c = CHR 0x22 then (case quoted_value s of None \<Rightarrow> ([], v) | Some (x, rest) \<Rightarrow> (x, rest))
          else consumeToken v)"

section \<open>Parameters\<close>

abbreviation trim_left :: "string \<Rightarrow> string" where "trim_left \<equiv> strip_left space_runes"

text \<open>White space, then the given character.\<close>

definition skip_char :: "char \<Rightarrow> string \<Rightarrow> string option" where
  "skip_char c v = (case trim_left v of [] \<Rightarrow> None | d # rest \<Rightarrow> if d = c then Some rest else None)"

text \<open>One parameter with the semicolon before it: its name in lower case, its value, and the rest.\<close>

definition consumeMediaParam :: "string \<Rightarrow> (string \<times> string \<times> string) option" where
  "consumeMediaParam v =
     Option.bind (skip_char CHR '';'' v) (\<lambda>rest.
       case consumeToken (trim_left rest) of
         (param, rest) \<Rightarrow>
           if param = [] then None
           else Option.bind (skip_char CHR ''='' rest) (\<lambda>rest.
             let rest = trim_left rest
             in (case consumeValue rest of
                   (val, rest2) \<Rightarrow>
                     if val = [] \<and> rest2 = rest then None else Some (ToLower param, val, rest2))))"

lemma trim_left_length: "length (trim_left s) \<le> length s"
  using strip_left_suffix suffix_length_le by blast

lemma skip_char_shorter: "skip_char c v = Some r \<Longrightarrow> length r < length v"
  using trim_left_length [of v] by (auto simp: skip_char_def split: list.splits if_splits)

lemma quoted_value_shorter: "quoted_value s = Some (v, r) \<Longrightarrow> length r < length s"
proof (induction "length s" arbitrary: s v rule: less_induct)
  case less
  have ih: "length r < length t" if "length t < length s" "map_option (\<lambda>(v, r). (d # v, r)) (quoted_value t) = Some (v, r)" for t d
    using that less.hyps [of t] by auto
  show ?case
  proof (cases s)
    case Nil
    with less.prems show ?thesis by simp
  next
    case (Cons c t)
    have "r = t \<or> (\<exists>u d. (u = t \<or> u = drop 1 t) \<and> map_option (\<lambda>(v, r). (d # v, r)) (quoted_value u) = Some (v, r))"
      using less.prems unfolding Cons by (cases t) (auto simp del: quoted_value.simps(2) simp: quoted_value.simps(2) [of c] split: if_splits)
    then consider "r = t" | u d where "u = t \<or> u = drop 1 t" "map_option (\<lambda>(v, r). (d # v, r)) (quoted_value u) = Some (v, r)"
      by blast
    then show ?thesis
    proof cases
      case 2
      then have "length u \<le> length t" by auto
      with 2(2) ih [of u d] show ?thesis by (simp add: Cons)
    qed (simp add: Cons)
  qed
qed

lemma consumeToken_length: "length (snd (consumeToken v)) \<le> length v"
  by (simp add: consumeToken_def length_dropWhile_le)

lemma consumeValue_length: "consumeValue v = (x, r) \<Longrightarrow> length r \<le> length v"
  using consumeToken_length [of v]
  by (auto simp: consumeValue_def split: list.splits if_splits option.splits dest!: quoted_value_shorter)

lemma consumeMediaParam_shorter:
  assumes "consumeMediaParam v = Some (k, x, r)" shows "length r < length v"
proof -
  obtain a p b c where a: "skip_char CHR '';'' v = Some a" "consumeToken (trim_left a) = (p, b)"
      "skip_char CHR ''='' b = Some c" "consumeValue (trim_left c) = (x, r)"
    using assms by (auto simp: consumeMediaParam_def Let_def split: bind_splits prod.splits if_splits)
  have "length r \<le> length c" using consumeValue_length [OF a(4)] trim_left_length [of c] by simp
  moreover have "length c < length b" using a(3) by (rule skip_char_shorter)
  moreover have "length b \<le> length a" using consumeToken_length [of "trim_left a"] trim_left_length [of a] a(2) by simp
  moreover have "length a < length v" using a(1) by (rule skip_char_shorter)
  ultimately show ?thesis by simp
qed

text \<open>
  The parameters behind the media type: \<open>True\<close> when they parse and no name occurs with two values; a
  last semicolon alone is ignored. Names with an asterisk are kept in maps of their own in Go, under
  their full name, so that a name meets the same names as here.
\<close>

function media_params :: "(string \<times> string) list \<Rightarrow> string \<Rightarrow> bool" where
  "media_params seen v =
     (let v = trim_left v in
      if v = [] then True
      else (case consumeMediaParam v of
              None \<Rightarrow> TrimSpace v = '';''
            | Some (key, val, rest) \<Rightarrow>
                if (case map_of seen key of Some old \<Rightarrow> old \<noteq> val | None \<Rightarrow> False) then False
                else media_params ((key, val) # seen) rest))"
  by pat_completeness auto
termination
proof (relation "measure (length \<circ> snd)", simp)
  fix seen v x p key q val rest
  assume "x = trim_left v" "consumeMediaParam x = Some p" "(key, q) = p" "(val, rest) = q"
  then have "length rest < length x" by (metis consumeMediaParam_shorter)
  then show "(((key, val) # seen, rest), seen, v) \<in> measure (length \<circ> snd)"
    using trim_left_length [of v] \<open>x = trim_left v\<close> by simp
qed

declare media_params.simps [simp del]

section \<open>mime.ParseMediaType\<close>

definition checkMediaTypeDisposition :: "string \<Rightarrow> bool" where
  "checkMediaTypeDisposition s =
     (case consumeToken s of
        (typ, rest) \<Rightarrow>
          if typ = [] then False
          else (case rest of
                  [] \<Rightarrow> True
                | c # rest \<Rightarrow>
                    c = CHR ''/'' \<and> (case consumeToken rest of (subtype, rest) \<Rightarrow> subtype \<noteq> [] \<and> rest = [])))"

definition ParseMediaType :: "string \<Rightarrow> string option" where
  "ParseMediaType v =
     (case Cut CHR '';'' v of
        (base, _, _) \<Rightarrow>
          let mediatype = TrimSpace (ToLower base)
          in if checkMediaTypeDisposition mediatype \<and> media_params [] (drop (length base) v)
             then Some mediatype else None)"

section \<open>http.Cookie.String\<close>

text \<open>\<open>sanitizeCookieValue\<close> and \<open>sanitizeCookiePath\<close>: bytes that may not occur are dropped.\<close>

definition cookie_value :: "string \<Rightarrow> string" where
  "cookie_value v =
     (let v = filter (\<lambda>c. CHR 0x20 \<le> c \<and> c < CHR 0x7F \<and> c \<noteq> CHR 0x22 \<and> c \<noteq> CHR '';'' \<and> c \<noteq> CHR 0x5C) v
      in if CHR '' '' \<in> set v \<or> CHR '','' \<in> set v then [CHR 0x22] @ v @ [CHR 0x22] else v)"

definition cookie_path :: "string \<Rightarrow> string" where
  "cookie_path p = filter (\<lambda>c. CHR 0x20 \<le> c \<and> c < CHR 0x7F \<and> c \<noteq> CHR '';'') p"

end
