(* ===== verification/OasJson.thy ===== *)
theory OasJson
  imports GoJson AdminConfig AdminUsers
begin

text \<open>
  The JSON codec ogen generated (\<open>internal/oas/oas_json_gen.go\<close>): \<open>Encode\<close> of what the server writes and
  \<open>Decode\<close> of what it reads, with the checks of required fields, and the request validators
  (\<open>oas_validators_gen.go\<close>). The tokenizer and the printer underneath are the library \<open>jx\<close>: decoding
  starts from the tree of the text and encoding ends with a value to print. Each decoder stores members
  in their order, so of repeated keys the last counts; a member of another name is skipped; \<open>None\<close> is
  an error, whatever its text.
\<close>

section \<open>Primitives of jx\<close>

definition jx_Str :: "json \<Rightarrow> string option" where
  "jx_Str j = (case j of JStr s \<Rightarrow> Some s | _ \<Rightarrow> None)"

definition jx_Bool :: "json \<Rightarrow> bool option" where
  "jx_Bool j = (case j of JBool b \<Rightarrow> Some b | _ \<Rightarrow> None)"

text \<open>\<open>Int\<close> and \<open>Int64\<close>: a number without fraction or exponent that fits into 64 bits.\<close>

definition jx_Int :: "json \<Rightarrow> int option" where
  "jx_Int j = (case j of JNum t \<Rightarrow> ParseInt t | _ \<Rightarrow> None)"

definition jx_Arr :: "(json \<Rightarrow> 'a option) \<Rightarrow> json \<Rightarrow> 'a list option" where
  "jx_Arr elem j = (case j of JArr es \<Rightarrow> those (map elem es) | _ \<Rightarrow> None)"

text \<open>
  \<open>ObjBytes\<close> over the fields of a struct, and the check of the required ones: the bit of a field is set
  when its key occurs.
\<close>

type_synonym 'a members = "(string \<times> (json \<Rightarrow> 'a \<Rightarrow> 'a option)) list"

definition member :: "string \<Rightarrow> (json \<Rightarrow> 'b option) \<Rightarrow> (('b \<Rightarrow> 'b) \<Rightarrow> 'a \<Rightarrow> 'a) \<Rightarrow> string \<times> (json \<Rightarrow> 'a \<Rightarrow> 'a option)" where
  "member name d upd = (name, \<lambda>v r. map_option (\<lambda>x. upd (\<lambda>_. x) r) (d v))"

definition opt_member ::
    "string \<Rightarrow> (json \<Rightarrow> 'b option) \<Rightarrow> (('b option \<Rightarrow> 'b option) \<Rightarrow> 'a \<Rightarrow> 'a) \<Rightarrow> string \<times> (json \<Rightarrow> 'a \<Rightarrow> 'a option)" where
  "opt_member name d upd = (name, \<lambda>v r. map_option (\<lambda>x. upd (\<lambda>_. Some x) r) (d v))"

fun jx_members :: "'a members \<Rightarrow> (string \<times> string \<times> json) list \<Rightarrow> 'a \<Rightarrow> 'a option" where
  "jx_members fs [] r = Some r"
| "jx_members fs ((k, _, v) # ms) r =
     (case map_of fs k of
        None \<Rightarrow> jx_members fs ms r
      | Some store \<Rightarrow> Option.bind (store v r) (jx_members fs ms))"

definition jx_Obj :: "string list \<Rightarrow> 'a members \<Rightarrow> 'a \<Rightarrow> json \<Rightarrow> 'a option" where
  "jx_Obj required fs zero j =
     (case j of
        JObj ms \<Rightarrow> Option.bind (jx_members fs ms zero) (\<lambda>r. if set required \<subseteq> fst ` set ms then Some r else None)
      | _ \<Rightarrow> None)"

section \<open>Requests with few fields\<close>

definition LoginReq_Decode :: "json \<Rightarrow> credentials option" where
  "LoginReq_Decode =
     jx_Obj [''user'', ''password'']
       [member ''user'' jx_Str cr_User_update, member ''password'' jx_Str cr_Password_update]
       \<lparr>cr_User = [], cr_Password = []\<rparr>"

definition id_Decode :: "string \<Rightarrow> json \<Rightarrow> int option" where
  "id_Decode name = jx_Obj [name] [member name jx_Int (\<lambda>f. f)] 0"

definition CustomCreateReq_Decode :: "json \<Rightarrow> int option" where "CustomCreateReq_Decode = id_Decode ''userId''"
definition CustomDeleteReq_Decode :: "json \<Rightarrow> int option" where "CustomDeleteReq_Decode = id_Decode ''userId''"
definition NodeDeleteReq_Decode :: "json \<Rightarrow> int option" where "NodeDeleteReq_Decode = id_Decode ''id''"
definition UserDeleteReq_Decode :: "json \<Rightarrow> int option" where "UserDeleteReq_Decode = id_Decode ''id''"
definition UserRecreateReq_Decode :: "json \<Rightarrow> int option" where "UserRecreateReq_Decode = id_Decode ''id''"

record ProviderCheckReq =
  pk_URL :: string
  pk_Format :: string

definition ProviderCheckReq_Decode :: "json \<Rightarrow> ProviderCheckReq option" where
  "ProviderCheckReq_Decode =
     jx_Obj [''url'', ''format''] [member ''url'' jx_Str pk_URL_update, member ''format'' jx_Str pk_Format_update]
       \<lparr>pk_URL = [], pk_Format = []\<rparr>"

definition UserCreateReq_Decode :: "json \<Rightarrow> UserCreateParams option" where
  "UserCreateReq_Decode =
     jx_Obj [''name'', ''inboundIDs'']
       [member ''name'' jx_Str uc_Name_update, opt_member ''description'' jx_Str uc_Description_update,
        member ''inboundIDs'' (jx_Arr jx_Int) uc_InboundIDs_update]
       \<lparr>uc_Name = [], uc_Description = None, uc_InboundIDs = []\<rparr>"

definition UserEditReq_Decode :: "json \<Rightarrow> UserEditParams option" where
  "UserEditReq_Decode =
     jx_Obj [''id'', ''inboundIDs'']
       [member ''id'' jx_Int ue_ID_update, opt_member ''description'' jx_Str ue_Description_update,
        member ''inboundIDs'' (jx_Arr jx_Int) ue_InboundIDs_update]
       \<lparr>ue_ID = 0, ue_Description = None, ue_InboundIDs = []\<rparr>"

section \<open>Saving a node\<close>

definition Hysteria2Item_Decode :: "json \<Rightarrow> Hysteria2Item option" where
  "Hysteria2Item_Decode =
     jx_Obj []
       [opt_member ''password'' jx_Str hi_Password_update, opt_member ''obfs'' jx_Str hi_Obfs_update,
        opt_member ''obfsPassword'' jx_Str hi_ObfsPassword_update, opt_member ''sni'' jx_Str hi_SNI_update,
        opt_member ''up'' jx_Str hi_Up_update, opt_member ''down'' jx_Str hi_Down_update]
       no_hysteria2"

definition InboundItem_Decode :: "json \<Rightarrow> InboundItem option" where
  "InboundItem_Decode =
     jx_Obj [''name'', ''port'']
       [opt_member ''id'' jx_Int ii_ID_update, member ''name'' jx_Str ii_Name_update,
        member ''port'' jx_Int ii_Port_update, opt_member ''kind'' jx_Str ii_Kind_update,
        opt_member ''hysteria2'' Hysteria2Item_Decode ii_Hysteria2_update]
       \<lparr>ii_ID = None, ii_Name = [], ii_Port = 0, ii_Kind = None, ii_Hysteria2 = None\<rparr>"

definition NodeSaveReq_Decode :: "json \<Rightarrow> NodeSaveReq option" where
  "NodeSaveReq_Decode =
     jx_Obj [''name'', ''vpnHost'', ''panelBaseURL'', ''panelBasePath'', ''inbounds'']
       [opt_member ''id'' jx_Int ns_ID_update, member ''name'' jx_Str ns_Name_update,
        member ''vpnHost'' jx_Str ns_VpnHost_update, member ''panelBaseURL'' jx_Str ns_PanelBaseURL_update,
        member ''panelBasePath'' jx_Str ns_PanelBasePath_update, opt_member ''token'' jx_Str ns_Token_update,
        member ''inbounds'' (jx_Arr InboundItem_Decode) ns_Inbounds_update]
       \<lparr>ns_ID = None, ns_Name = [], ns_VpnHost = [], ns_PanelBaseURL = [], ns_PanelBasePath = [], ns_Token = None,
        ns_Inbounds = []\<rparr>"

text \<open>
  The validators: a decoded slice is never nil, so what can fail is the kind of an inbound.
\<close>

definition InboundKind_Validate :: "string \<Rightarrow> bool" where
  "InboundKind_Validate k \<longleftrightarrow> k = ''vless'' \<or> k = ''hysteria2''"

definition InboundItem_Validate :: "InboundItem \<Rightarrow> bool" where
  "InboundItem_Validate i = (case ii_Kind i of None \<Rightarrow> True | Some k \<Rightarrow> InboundKind_Validate k)"

definition NodeSaveReq_Validate :: "NodeSaveReq \<Rightarrow> bool" where
  "NodeSaveReq_Validate req = list_all InboundItem_Validate (ns_Inbounds req)"

section \<open>A configuration\<close>

definition PolicyRef_Decode :: "json \<Rightarrow> policyRefDTO option" where
  "PolicyRef_Decode =
     jx_Obj [''kind'']
       [member ''kind'' jx_Str prd_Kind_update, opt_member ''inboundId'' jx_Int prd_InboundID_update,
        opt_member ''groupIdx'' jx_Int prd_GroupIdx_update]
       \<lparr>prd_Kind = [], prd_InboundID = None, prd_GroupIdx = None\<rparr>"

definition MihomoGroup_Decode :: "json \<Rightarrow> groupDTO option" where
  "MihomoGroup_Decode =
     jx_Obj [''name'', ''type'', ''url'', ''members'']
       [member ''name'' jx_Str grd_Name_update, member ''type'' jx_Str grd_Type_update,
        member ''url'' jx_Str grd_URL_update, opt_member ''interval'' jx_Int grd_Interval_update,
        opt_member ''tolerance'' jx_Int grd_Tolerance_update, opt_member ''lazy'' jx_Bool grd_Lazy_update,
        member ''members'' (jx_Arr PolicyRef_Decode) grd_Members_update]
       \<lparr>grd_Name = [], grd_Type = [], grd_URL = [], grd_Interval = None, grd_Tolerance = None, grd_Lazy = None,
        grd_Members = []\<rparr>"

definition MihomoProvider_Decode :: "json \<Rightarrow> providerDTO option" where
  "MihomoProvider_Decode =
     jx_Obj [''name'', ''behavior'', ''format'', ''url'', ''interval'', ''mirror'', ''mirrorInterval'']
       [member ''name'' jx_Str pvd_Name_update, member ''behavior'' jx_Str pvd_Behavior_update,
        member ''format'' jx_Str pvd_Format_update, member ''url'' jx_Str pvd_URL_update,
        member ''interval'' jx_Int pvd_Interval_update, member ''mirror'' jx_Bool pvd_Mirror_update,
        member ''mirrorInterval'' jx_Int pvd_MirrorInterval_update]
       \<lparr>pvd_Name = [], pvd_Behavior = [], pvd_Format = [], pvd_URL = [], pvd_Interval = 0, pvd_Mirror = False,
        pvd_MirrorInterval = 0\<rparr>"

text \<open>
  A rule is read field by field into the struct, its children recursively: one function for the
  members of the object, one for the elements of the array.
\<close>

definition rule_zero :: ruleDTO where "rule_zero = ruleDTO [] None None None None []"

definition set_child :: "ruleDTO list \<Rightarrow> ruleDTO \<Rightarrow> ruleDTO" where
  "set_child cs r = ruleDTO (rud_Type r) (rud_Value r) (rud_ProviderIdx r) (rud_NoResolve r) (rud_Target r) cs"

definition rule_scalar :: "string \<Rightarrow> json \<Rightarrow> ruleDTO \<Rightarrow> ruleDTO option" where
  "rule_scalar k v r =
     (case r of ruleDTO ty val pidx nores tgt children \<Rightarrow>
        if k = ''type'' then map_option (\<lambda>s. ruleDTO s val pidx nores tgt children) (jx_Str v)
        else if k = ''value'' then map_option (\<lambda>s. ruleDTO ty (Some s) pidx nores tgt children) (jx_Str v)
        else if k = ''providerIdx'' then map_option (\<lambda>i. ruleDTO ty val (Some i) nores tgt children) (jx_Int v)
        else if k = ''noResolve'' then map_option (\<lambda>b. ruleDTO ty val pidx (Some b) tgt children) (jx_Bool v)
        else if k = ''target'' then map_option (\<lambda>t. ruleDTO ty val pidx nores (Some t) children) (PolicyRef_Decode v)
        else Some r)"

fun rule_members :: "(string \<times> string \<times> json) list \<Rightarrow> ruleDTO \<Rightarrow> ruleDTO option"
  and rule_elems :: "json list \<Rightarrow> ruleDTO list option" where
  "rule_members [] r = Some r"
| "rule_members ((k, raw, JArr es) # ms) r =
     (if k = ''children'' then Option.bind (rule_elems es) (\<lambda>cs. rule_members ms (set_child cs r))
      else Option.bind (rule_scalar k (JArr es) r) (rule_members ms))"
| "rule_members ((k, raw, v) # ms) r =
     (if k = ''children'' then None else Option.bind (rule_scalar k v r) (rule_members ms))"
| "rule_elems [] = Some []"
| "rule_elems (JObj ms # es) =
     Option.bind (rule_members ms rule_zero) (\<lambda>r.
       if ''type'' \<in> fst ` set ms then map_option ((#) r) (rule_elems es) else None)"
| "rule_elems (_ # es) = None"

definition MihomoRule_Decode :: "json \<Rightarrow> ruleDTO option" where
  "MihomoRule_Decode j =
     (case j of
        JObj ms \<Rightarrow> Option.bind (rule_members ms rule_zero) (\<lambda>r. if ''type'' \<in> fst ` set ms then Some r else None)
      | _ \<Rightarrow> None)"

lemma rule_elems_eq: "rule_elems es = those (map MihomoRule_Decode es)"
  by (induction es) (auto simp: MihomoRule_Decode_def split: json.split bind_split option.split)

definition ConfigSaveReq_Decode :: "json \<Rightarrow> ConfigSaveReq option" where
  "ConfigSaveReq_Decode =
     jx_Obj [''groups'', ''rules'', ''providers'', ''baseYAML'', ''profileTitle'', ''filename'', ''profileUpdateInterval'']
       [member ''groups'' (jx_Arr MihomoGroup_Decode) (\<lambda>f. csr_Config_update (cfd_Groups_update f)),
        member ''rules'' (jx_Arr MihomoRule_Decode) (\<lambda>f. csr_Config_update (cfd_Rules_update f)),
        member ''providers'' (jx_Arr MihomoProvider_Decode) (\<lambda>f. csr_Config_update (cfd_Providers_update f)),
        member ''baseYAML'' jx_Str (\<lambda>f. csr_Config_update (cfd_BaseYAML_update f)),
        member ''profileTitle'' jx_Str (\<lambda>f. csr_Config_update (cfd_ProfileTitle_update f)),
        member ''filename'' jx_Str (\<lambda>f. csr_Config_update (cfd_Filename_update f)),
        member ''profileUpdateInterval'' jx_Int (\<lambda>f. csr_Config_update (cfd_ProfileUpdateInterval_update f)),
        opt_member ''userId'' jx_Int csr_UserId_update]
       \<lparr>csr_Config = empty_view, csr_UserId = None\<rparr>"

section \<open>Encoding\<close>

text \<open>
  The \<open>Encode\<close> methods of what the server writes, and of a saved configuration, which the handler encodes
  again. An optional field that is not set is left out.
\<close>

definition opt_field :: "string \<Rightarrow> ('a \<Rightarrow> jval) \<Rightarrow> 'a option \<Rightarrow> (string \<times> jval) list" where
  "opt_field name enc x = (case x of None \<Rightarrow> [] | Some v \<Rightarrow> [(name, enc v)])"

section \<open>Encoding a configuration\<close>

definition PolicyRef_Encode :: "policyRefDTO \<Rightarrow> jval" where
  "PolicyRef_Encode r =
     VObj ([(''kind'', VStr (prd_Kind r))] @ opt_field ''inboundId'' VInt (prd_InboundID r) @
           opt_field ''groupIdx'' VInt (prd_GroupIdx r))"

definition MihomoGroup_Encode :: "groupDTO \<Rightarrow> jval" where
  "MihomoGroup_Encode g =
     VObj ([(''name'', VStr (grd_Name g)), (''type'', VStr (grd_Type g)), (''url'', VStr (grd_URL g))] @
           opt_field ''interval'' VInt (grd_Interval g) @ opt_field ''tolerance'' VInt (grd_Tolerance g) @
           opt_field ''lazy'' VBool (grd_Lazy g) @
           [(''members'', VArr (map PolicyRef_Encode (grd_Members g)))])"

definition MihomoProvider_Encode :: "providerDTO \<Rightarrow> jval" where
  "MihomoProvider_Encode p =
     VObj [(''name'', VStr (pvd_Name p)), (''behavior'', VStr (pvd_Behavior p)), (''format'', VStr (pvd_Format p)),
           (''url'', VStr (pvd_URL p)), (''interval'', VInt (pvd_Interval p)), (''mirror'', VBool (pvd_Mirror p)),
           (''mirrorInterval'', VInt (pvd_MirrorInterval p))]"

text \<open>
  The children are written when the slice is not nil. In the model an empty list stands for both; no
  reader tells a missing list from an empty one.
\<close>

fun MihomoRule_Encode :: "ruleDTO \<Rightarrow> jval" where
  "MihomoRule_Encode (ruleDTO ty val pidx nores tgt children) =
     VObj ([(''type'', VStr ty)] @ opt_field ''value'' VStr val @ opt_field ''providerIdx'' VInt pidx @
           opt_field ''noResolve'' VBool nores @ opt_field ''target'' PolicyRef_Encode tgt @
           (if children = [] then [] else [(''children'', VArr (map MihomoRule_Encode children))]))"

definition MihomoConfig_fields :: "configDTO \<Rightarrow> (string \<times> jval) list" where
  "MihomoConfig_fields c =
     [(''groups'', VArr (map MihomoGroup_Encode (cfd_Groups c))), (''rules'', VArr (map MihomoRule_Encode (cfd_Rules c))),
      (''providers'', VArr (map MihomoProvider_Encode (cfd_Providers c))), (''baseYAML'', VStr (cfd_BaseYAML c)),
      (''profileTitle'', VStr (cfd_ProfileTitle c)), (''filename'', VStr (cfd_Filename c)),
      (''profileUpdateInterval'', VInt (cfd_ProfileUpdateInterval c))]"

definition MihomoConfig_Encode :: "configDTO \<Rightarrow> jval" where
  "MihomoConfig_Encode c = VObj (MihomoConfig_fields c)"

definition ConfigSaveReq_Encode :: "ConfigSaveReq \<Rightarrow> jval" where
  "ConfigSaveReq_Encode req =
     VObj (MihomoConfig_fields (csr_Config req) @ opt_field ''userId'' VInt (csr_UserId req))"

section \<open>Messages\<close>

definition ErrorResponse_Encode :: "string \<Rightarrow> jval" where
  "ErrorResponse_Encode msg = VObj [(''errMessage'', VStr msg)]"

definition MessageResponse_Encode :: "string \<Rightarrow> jval" where
  "MessageResponse_Encode msg = VObj [(''message'', VStr msg)]"

section \<open>The node registry\<close>

definition Hysteria2View_Encode :: "Hysteria2View \<Rightarrow> jval" where
  "Hysteria2View_Encode h =
     VObj [(''obfs'', VStr (hv_Obfs h)), (''sni'', VStr (hv_SNI h)), (''up'', VStr (hv_Up h)), (''down'', VStr (hv_Down h))]"

definition InboundView_Encode :: "InboundView \<Rightarrow> jval" where
  "InboundView_Encode i =
     VObj ([(''id'', VInt (iv_ID i)), (''name'', VStr (iv_Name i)), (''port'', VInt (iv_Port i)),
            (''kind'', VStr (iv_Kind i))] @ opt_field ''hysteria2'' Hysteria2View_Encode (iv_Hysteria2 i))"

definition NodeView_Encode :: "NodeView \<Rightarrow> jval" where
  "NodeView_Encode n =
     VObj [(''id'', VInt (nv_ID n)), (''name'', VStr (nv_Name n)), (''vpnHost'', VStr (nv_VpnHost n)),
           (''panelBaseURL'', VStr (nv_PanelBaseURL n)), (''panelBasePath'', VStr (nv_PanelBasePath n)),
           (''inbounds'', VArr (map InboundView_Encode (nv_Inbounds n)))]"

definition NodesGetOK_Encode :: "NodeView list \<Rightarrow> jval" where
  "NodesGetOK_Encode ns = VObj [(''nodes'', VArr (map NodeView_Encode ns))]"

section \<open>The users page\<close>

definition ConnectionView_Encode :: "ConnectionView \<Rightarrow> jval" where
  "ConnectionView_Encode c =
     VObj [(''id'', VInt (nw_ID c)), (''label'', VStr (nw_Label c)), (''port'', VInt (nw_Port c)),
           (''missing'', VBool (nw_Missing c))]"

definition SubLink_Encode :: "SubLink \<Rightarrow> jval" where
  "SubLink_Encode l = VObj [(''title'', VStr (sl_Title l)), (''value'', VStr (sl_Value l))]"

definition Links_Encode :: "SubLink list \<Rightarrow> jval" where
  "Links_Encode ls = VObj [(''links'', VArr (map SubLink_Encode ls))]"

definition Stats_Encode :: "i64 \<Rightarrow> i64 \<Rightarrow> jval" where
  "Stats_Encode up down = VObj [(''up'', VInt (sint up)), (''down'', VInt (sint down))]"

definition UserView_Encode :: "UserView \<Rightarrow> jval" where
  "UserView_Encode u =
     VObj ([(''id'', VInt (uv_ID u)), (''name'', VStr (uv_Name u))] @
           opt_field ''description'' VStr (UserView.uv_Description u) @
           [(''sub'', Links_Encode (uv_Links u)),
            (''inbounds'', VArr (map ConnectionView_Encode (uv_Inbounds u))),
            (''stats'', Stats_Encode (uv_Up u) (uv_Down u))])"

definition UsersGetOK_Encode :: "UsersView \<Rightarrow> jval" where
  "UsersGetOK_Encode v =
     VObj [(''users'', VArr (map UserView_Encode (uw_Users v))), (''total'', VInt (uw_Total v)),
           (''page'', VInt (uw_Page v)), (''perPage'', VInt (uw_PerPage v))]"

section \<open>Custom configurations and the schema\<close>

definition CustomItem_Encode :: "int \<times> string \<Rightarrow> jval" where
  "CustomItem_Encode c = VObj [(''userId'', VInt (fst c)), (''name'', VStr (snd c))]"

definition UserItem_Encode :: "int \<times> string \<Rightarrow> jval" where
  "UserItem_Encode u = VObj [(''id'', VInt (fst u)), (''name'', VStr (snd u))]"

definition ConfigCustomsOK_Encode :: "CustomsView \<Rightarrow> jval" where
  "ConfigCustomsOK_Encode v =
     VObj [(''customs'', VArr (map CustomItem_Encode (cv_Customs v))), (''users'', VArr (map UserItem_Encode (cv_Users v)))]"

definition ActionItem_Encode :: "string \<times> string \<Rightarrow> jval" where
  "ActionItem_Encode a = VObj [(''kind'', VStr (fst a)), (''label'', VStr (snd a))]"

definition RuleProviderSchema_Encode :: "string list \<Rightarrow> string list \<Rightarrow> jval" where
  "RuleProviderSchema_Encode behaviors formats =
     VObj [(''behaviors'', VArr (map VStr behaviors)), (''formats'', VArr (map VStr formats))]"

definition GroupTypeView_Encode :: "GroupTypeView \<Rightarrow> jval" where
  "GroupTypeView_Encode g =
     VObj [(''type'', VStr (gtv_Type g)), (''usesHealthCheck'', VBool (gtv_UsesHealthCheck g)),
           (''usesTolerance'', VBool (gtv_UsesTolerance g)), (''items'', VArr (map VStr (gtv_Items g)))]"

definition RuleTypeView_Encode :: "RuleTypeView \<Rightarrow> jval" where
  "RuleTypeView_Encode r =
     VObj [(''type'', VStr (rtv_Type r)), (''takesProvider'', VBool (rtv_TakesProvider r)),
           (''supportsNoResolve'', VBool (rtv_SupportsNoResolve r)), (''isMatch'', VBool (rtv_IsMatch r)),
           (''isLogical'', VBool (rtv_IsLogical r)), (''destinations'', VArr (map VStr (rtv_Destinations r)))]"

definition GroupTypes_Encode :: "GroupTypeView list \<Rightarrow> jval" where
  "GroupTypes_Encode gs = VObj [(''types'', VArr (map GroupTypeView_Encode gs))]"

definition RuleTypes_Encode :: "RuleTypeView list \<Rightarrow> jval" where
  "RuleTypes_Encode rs = VObj [(''types'', VArr (map RuleTypeView_Encode rs))]"

definition ConfigSchemaOK_Encode :: "SchemaView \<Rightarrow> jval" where
  "ConfigSchemaOK_Encode v =
     VObj [(''actions'', VArr (map ActionItem_Encode (sv_Actions v))),
           (''ruleProvider'', RuleProviderSchema_Encode (sv_Behaviors v) (sv_Formats v)),
           (''proxyGroup'', GroupTypes_Encode (sv_Groups v)), (''rules'', RuleTypes_Encode (sv_Rules v)),
           (''generatedKeys'', VArr (map VStr (sv_GeneratedKeys v)))]"

end
