(* ===== verification/OasRouter.thy ===== *)
theory OasRouter
  imports GoNet
begin

text \<open>
  The router of the generated API server (\<open>internal/oas/oas_router_gen.go\<close>, \<open>ServeHTTP\<close>): a prefix tree
  over the path of the request. Each block of the tree is a definition over the rest of the path, with
  \<open>None\<close> where the block is left by a \<open>break\<close> or falls through; only the block below \<open>/admin/\<close> goes on
  after that. The path patterns of the OpenAPI description are the specification.
\<close>

section \<open>Operations and outcomes\<close>

text \<open>The operations (\<open>oas_operations_gen.go\<close>).\<close>

datatype operation =
    AdminShellOperation | AdminShellViewOperation | ConfigCustomsOperation | ConfigGetOperation
  | ConfigSaveOperation | ConfigSchemaOperation | CustomCreateOperation | CustomDeleteOperation
  | HealthzOperation | LoginOperation | LoginPageOperation | LogoutOperation | NodeDeleteOperation
  | NodeSaveOperation | NodesGetOperation | ProviderCheckOperation | RulesOperation | SubOperation
  | UserCreateOperation | UserDeleteOperation | UserEditOperation | UserRecreateOperation | UsersGetOperation

record notAllowedParams =
  na_allowedMethods :: string
  na_allowedHeaders :: "(string \<times> string) list option"
  na_acceptPost :: string
  na_acceptPatch :: string

datatype route = Handle operation "string list" | NotAllowed notAllowedParams | NoRoute

definition get_only :: notAllowedParams where
  "get_only = \<lparr>na_allowedMethods = ''GET'', na_allowedHeaders = None, na_acceptPost = [], na_acceptPatch = []\<rparr>"

definition post_only :: notAllowedParams where
  "post_only = \<lparr>na_allowedMethods = ''POST'', na_allowedHeaders = None, na_acceptPost = [], na_acceptPatch = []\<rparr>"

definition post_json :: notAllowedParams where
  "post_json = \<lparr>na_allowedMethods = ''POST'', na_allowedHeaders = Some [(''POST'', ''Content-Type'')],
     na_acceptPost = ''application/json'', na_acceptPatch = []\<rparr>"

definition by_method :: "string \<Rightarrow> string \<Rightarrow> operation \<Rightarrow> string list \<Rightarrow> notAllowedParams \<Rightarrow> route" where
  "by_method m want op args na = (if m = want then Handle op args else NotAllowed na)"

section \<open>The prefix tree\<close>

fun strip :: "string \<Rightarrow> string \<Rightarrow> string option" where
  "strip [] s = Some s"
| "strip (c # p) [] = None"
| "strip (c # p) (d # s) = (if c = d then strip p s else None)"

text \<open>\<open>switch elem[0]\<close>, left at once when nothing is left of the path.\<close>

fun switch :: "(char \<times> (string \<Rightarrow> 'a option)) list \<Rightarrow> string \<Rightarrow> 'a option" where
  "switch cases [] = None"
| "switch cases (c # s) = (case map_of cases c of None \<Rightarrow> None | Some k \<Rightarrow> k (c # s))"

definition leaf :: "string \<Rightarrow> (string \<Rightarrow> route) \<Rightarrow> string \<Rightarrow> string \<Rightarrow> route option" where
  "leaf p on_method m elem = (case strip p elem of Some [] \<Rightarrow> Some (on_method m) | _ \<Rightarrow> None)"

definition gets :: "operation \<Rightarrow> string list \<Rightarrow> string \<Rightarrow> route" where
  "gets op args m = by_method m ''GET'' op args get_only"

definition posts :: "operation \<Rightarrow> string \<Rightarrow> route" where
  "posts op m = by_method m ''POST'' op [] post_json"

text \<open>Below \<open>config/mihomo/custom\<close>.\<close>

definition custom_routes :: "string \<Rightarrow> string \<Rightarrow> route option" where
  "custom_routes m =
     switch [
       (CHR ''/'', \<lambda>elem. Option.bind (strip ''/'' elem) (switch [
          (CHR ''c'', leaf ''create'' (posts CustomCreateOperation) m),
          (CHR ''d'', leaf ''delete'' (posts CustomDeleteOperation) m)])),
       (CHR ''s'', leaf ''s'' (gets ConfigCustomsOperation []) m)]"

text \<open>Below \<open>config/mihomo\<close>.\<close>

definition mihomo_routes :: "string \<Rightarrow> string \<Rightarrow> route option" where
  "mihomo_routes m =
     switch [
       (CHR ''/'', \<lambda>elem. Option.bind (strip ''/'' elem) (switch [
          (CHR ''c'', \<lambda>elem. Option.bind (strip ''custom'' elem) (custom_routes m)),
          (CHR ''p'', leaf ''provider/check'' (posts ProviderCheckOperation) m),
          (CHR ''s'', \<lambda>elem. Option.bind (strip ''s'' elem) (switch [
             (CHR ''a'', leaf ''ave'' (posts ConfigSaveOperation) m),
             (CHR ''c'', leaf ''chema'' (gets ConfigSchemaOperation []) m)]))]))]"

text \<open>An inner node that has an operation of its own.\<close>

definition node :: "string \<Rightarrow> (string \<Rightarrow> route) \<Rightarrow> (string \<Rightarrow> string \<Rightarrow> route option) \<Rightarrow> string \<Rightarrow> string \<Rightarrow> route option" where
  "node p on_method below m elem =
     (case strip p elem of None \<Rightarrow> None | Some [] \<Rightarrow> Some (on_method m) | Some rest \<Rightarrow> below m rest)"

definition log_routes :: "string \<Rightarrow> string \<Rightarrow> route option" where
  "log_routes m =
     switch [
       (CHR ''i'', leaf ''in'' (posts LoginOperation) m),
       (CHR ''o'', leaf ''out'' (\<lambda>m. by_method m ''POST'' LogoutOperation [] post_only) m)]"

definition nodes_routes :: "string \<Rightarrow> string \<Rightarrow> route option" where
  "nodes_routes m =
     switch [
       (CHR ''/'', \<lambda>elem. Option.bind (strip ''/'' elem) (switch [
          (CHR ''d'', leaf ''delete'' (posts NodeDeleteOperation) m),
          (CHR ''s'', leaf ''save'' (posts NodeSaveOperation) m)]))]"

definition users_routes :: "string \<Rightarrow> string \<Rightarrow> route option" where
  "users_routes m =
     switch [
       (CHR ''/'', \<lambda>elem. Option.bind (strip ''/'' elem) (switch [
          (CHR ''c'', leaf ''create'' (posts UserCreateOperation) m),
          (CHR ''d'', leaf ''delete'' (posts UserDeleteOperation) m),
          (CHR ''e'', leaf ''edit'' (posts UserEditOperation) m),
          (CHR ''r'', leaf ''recreate'' (posts UserRecreateOperation) m)]))]"

text \<open>Below \<open>/admin/api/\<close>.\<close>

definition api_routes :: "string \<Rightarrow> string \<Rightarrow> route option" where
  "api_routes m =
     switch [
       (CHR ''c'', node ''config/mihomo'' (gets ConfigGetOperation []) mihomo_routes m),
       (CHR ''l'', \<lambda>elem. Option.bind (strip ''log'' elem) (log_routes m)),
       (CHR ''n'', node ''nodes'' (gets NodesGetOperation []) nodes_routes m),
       (CHR ''u'', node ''users'' (gets UsersGetOperation []) users_routes m)]"

text \<open>
  A leaf parameter: the rest of the path, unless it holds a slash.
\<close>

definition leaf_param :: "(string \<Rightarrow> route) \<Rightarrow> string \<Rightarrow> route option" where
  "leaf_param k elem = (if CHR ''/'' \<in> set elem then None else Some (k elem))"

text \<open>
  Below \<open>/admin/\<close>. The static branches restore the rest of the path (\<open>origElem\<close>) at their end, not where
  they are left: after \<open>api/\<close> with nothing behind it the rest is empty, and the view parameter takes it.
\<close>

definition view_routes :: "string \<Rightarrow> string \<Rightarrow> route option" where
  "view_routes m elem =
     (let (r, elem) =
        (if HasPrefix elem ''a'' then
           (case strip ''api/'' elem of
              None \<Rightarrow> (None, elem)
            | Some [] \<Rightarrow> (None, [])
            | Some rest \<Rightarrow> (api_routes m rest, elem))
         else if HasPrefix elem ''l'' then
           (case strip ''login'' elem of
              None \<Rightarrow> (None, elem)
            | Some [] \<Rightarrow> (Some (gets LoginPageOperation [] m), elem)
            | Some rest \<Rightarrow> (None, elem))
         else (None, elem))
      in case r of
           Some x \<Rightarrow> Some x
         | None \<Rightarrow> leaf_param (\<lambda>v. gets AdminShellViewOperation [v] m) elem)"

definition admin_routes :: "string \<Rightarrow> string \<Rightarrow> route option" where
  "admin_routes m =
     switch [
       (CHR ''/'', \<lambda>elem. Option.bind (strip ''/'' elem) (\<lambda>elem. if elem = [] then None else view_routes m elem))]"

text \<open>Below \<open>/sub/\<close>: the engine up to the next slash, then the token.\<close>

definition sub_routes :: "string \<Rightarrow> string \<Rightarrow> route option" where
  "sub_routes m elem =
     (let kind = takeWhile (\<lambda>c. c \<noteq> CHR ''/'') elem
      in switch [
           (CHR ''/'', \<lambda>rest. Option.bind (strip ''/'' rest)
              (leaf_param (\<lambda>token. gets SubOperation [kind, token] m)))]
         (drop (length kind) elem))"

definition root_routes :: "string \<Rightarrow> string \<Rightarrow> route option" where
  "root_routes m =
     switch [
       (CHR ''/'', \<lambda>elem. Option.bind (strip ''/'' elem) (switch [
          (CHR ''a'', node ''admin'' (gets AdminShellOperation []) admin_routes m),
          (CHR ''h'', leaf ''healthz'' (gets HealthzOperation []) m),
          (CHR ''r'', \<lambda>elem. Option.bind (strip ''rules/'' elem) (leaf_param (\<lambda>file. gets RulesOperation [file] m))),
          (CHR ''s'', \<lambda>elem. Option.bind (strip ''sub/'' elem) (sub_routes m))]))]"

text \<open>
  The server is built without a path prefix, so \<open>cutPrefix\<close> keeps the path. The path is the decoded one
  unless the request has a raw path that ogen's \<open>uri.NormalizeEscapedPath\<close>, the argument \<open>canon\<close>,
  accepts; then the parameters stay escaped when a percent sign is left. The flag says so.
\<close>

definition request_elem :: "(string \<Rightarrow> string option) \<Rightarrow> string \<Rightarrow> string \<Rightarrow> string \<times> bool" where
  "request_elem canon path rawPath =
     (if rawPath \<noteq> [] then
        (case canon rawPath of None \<Rightarrow> (path, False) | Some e \<Rightarrow> (e, CHR ''%'' \<in> set e))
      else (path, False))"

definition find_route :: "string \<Rightarrow> string \<Rightarrow> route" where
  "find_route m elem = (case root_routes m elem of None \<Rightarrow> NoRoute | Some r \<Rightarrow> r)"

section \<open>The patterns of the OpenAPI description\<close>

definition static_routes :: "(string \<times> (string \<Rightarrow> route)) list" where
  "static_routes = [
     (''/admin'', gets AdminShellOperation []),
     (''/admin/login'', gets LoginPageOperation []),
     (''/admin/api/login'', posts LoginOperation),
     (''/admin/api/logout'', \<lambda>m. by_method m ''POST'' LogoutOperation [] post_only),
     (''/admin/api/users'', gets UsersGetOperation []),
     (''/admin/api/users/create'', posts UserCreateOperation),
     (''/admin/api/users/edit'', posts UserEditOperation),
     (''/admin/api/users/delete'', posts UserDeleteOperation),
     (''/admin/api/users/recreate'', posts UserRecreateOperation),
     (''/admin/api/nodes'', gets NodesGetOperation []),
     (''/admin/api/nodes/save'', posts NodeSaveOperation),
     (''/admin/api/nodes/delete'', posts NodeDeleteOperation),
     (''/admin/api/config/mihomo'', gets ConfigGetOperation []),
     (''/admin/api/config/mihomo/schema'', gets ConfigSchemaOperation []),
     (''/admin/api/config/mihomo/customs'', gets ConfigCustomsOperation []),
     (''/admin/api/config/mihomo/save'', posts ConfigSaveOperation),
     (''/admin/api/config/mihomo/custom/create'', posts CustomCreateOperation),
     (''/admin/api/config/mihomo/custom/delete'', posts CustomDeleteOperation),
     (''/admin/api/config/mihomo/provider/check'', posts ProviderCheckOperation),
     (''/healthz'', gets HealthzOperation [])]"

definition pattern_route :: "string \<Rightarrow> string \<Rightarrow> route" where
  "pattern_route m path =
     (case Split CHR ''/'' path of
        [a, b, c] \<Rightarrow>
          if a = [] \<and> b = ''admin'' \<and> c \<noteq> [] then gets AdminShellViewOperation [c] m
          else if a = [] \<and> b = ''rules'' then gets RulesOperation [c] m
          else NoRoute
      | [a, b, c, d] \<Rightarrow> if a = [] \<and> b = ''sub'' then gets SubOperation [c, d] m else NoRoute
      | _ \<Rightarrow> NoRoute)"

definition described_route :: "string \<Rightarrow> string \<Rightarrow> route" where
  "described_route m path =
     (case map_of static_routes path of Some on_method \<Rightarrow> on_method m | None \<Rightarrow> pattern_route m path)"

end
