(* ===== verification/OasHttp.thy ===== *)
theory OasHttp
  imports GoMime OasJson OasRouter Ruleset
begin

text \<open>
  Requests and responses of the generated server: decoding of request bodies
  (\<open>oas_request_decoders_gen.go\<close>) and parameters (\<open>oas_parameters_gen.go\<close>), encoding of responses
  (\<open>oas_response_encoders_gen.go\<close>), and the answers outside the operations (\<open>oas_cfg_gen.go\<close>, the error
  handler of \<open>handlers/api\<close>). Writing to the client does not fail.
\<close>

section \<open>What net/http hands over and takes back\<close>

text \<open>
  The request as the handler sees it: \<open>rq_Header\<close> is \<open>Header.Get\<close>, \<open>rq_Cookie\<close> the value \<open>Request.Cookie\<close>
  finds, \<open>rq_Body\<close> what \<open>io.ReadAll\<close> reads, \<open>None\<close> when reading fails.
\<close>

record http_request =
  rq_Method :: string
  rq_Path :: string
  rq_RawPath :: string
  rq_RawQuery :: string
  rq_Header :: "string \<Rightarrow> string"
  rq_Cookie :: "string \<rightharpoonup> string"
  rq_ContentLength :: int
  rq_Body :: "string option"

record http_response =
  rs_Status :: int
  rs_Header :: "(string \<times> string) list"
  rs_Body :: string

text \<open>
  The functions of the libraries ogen and jx the server calls: \<open>uri.NormalizeEscapedPath\<close>, the decoders of
  a path value, of a cookie and of a query parameter (\<open>None\<close> when \<open>HasParam\<close> finds none, \<open>Some None\<close> when
  the value does not decode), \<open>conv.ToInt\<close> and \<open>conv.ToInt64\<close>, the encoder of a header value, the
  tokenizer of a whole body and the printer.
\<close>

record libs =
  lb_canon :: "string \<Rightarrow> string option"
  lb_path :: "string \<Rightarrow> string option"
  lb_cookie :: "(string \<rightharpoonup> string) \<Rightarrow> string \<Rightarrow> string option option"
  lb_query :: "string \<Rightarrow> string \<Rightarrow> string option option"
  lb_query_all :: "string \<Rightarrow> string \<Rightarrow> string list option option"
  lb_int :: "string \<Rightarrow> int option"
  lb_header :: "string \<Rightarrow> string"
  lb_parse :: "string \<Rightarrow> json option"
  lb_print :: "jval \<Rightarrow> string"

section \<open>Answers outside the operations\<close>

text \<open>The default of the server configuration, \<open>http.NotFound\<close>.\<close>

definition notFound :: http_response where
  "notFound =
     \<lparr>rs_Status = 404,
      rs_Header = [(''Content-Type'', ''text/plain; charset=utf-8''), (''X-Content-Type-Options'', ''nosniff'')],
      rs_Body = ''404 page not found'' @ [CHR 0x0A]\<rparr>"

text \<open>\<open>strings.ToUpper\<close> of a method name; one outside ASCII is not found either way.\<close>

definition notAllowed :: "http_request \<Rightarrow> notAllowedParams \<Rightarrow> http_response" where
  "notAllowed r params =
     (let m = rq_Header r ''Access-Control-Request-Method'';
          allowed = (case na_allowedHeaders params of
                       None \<Rightarrow> []
                     | Some hs \<Rightarrow>
                         if m = [] then []
                         else (case map_of hs (map upper_char m) of
                                 None \<Rightarrow> [] | Some h \<Rightarrow> [(''Access-Control-Allow-Headers'', h)]))
      in if rq_Method r = ''OPTIONS'' then
           \<lparr>rs_Status = 204,
            rs_Header = [(''Access-Control-Allow-Methods'', na_allowedMethods params)] @ allowed @
              (if na_acceptPost params \<noteq> [] then [(''Accept-Post'', na_acceptPost params)] else []) @
              (if na_acceptPatch params \<noteq> [] then [(''Accept-Patch'', na_acceptPatch params)] else []),
            rs_Body = []\<rparr>
         else \<lparr>rs_Status = 405, rs_Header = [(''Allow'', na_allowedMethods params)], rs_Body = []\<rparr>)"

definition json_type :: "string \<times> string" where
  "json_type = (''Content-Type'', ''application/json; charset=utf-8'')"

text \<open>The error handler writes with \<open>encoding/json\<close>, which ends the line.\<close>

definition error_response :: "api_error \<Rightarrow> http_response" where
  "error_response e =
     (case ErrorHandler e of
        (status, msg) \<Rightarrow>
          \<lparr>rs_Status = status, rs_Header = [json_type],
           rs_Body = print_json (ErrorResponse_Encode msg) @ [CHR 0x0A]\<rparr>)"

section \<open>Request bodies\<close>

definition decode_body :: "libs \<Rightarrow> http_request \<Rightarrow> (json \<Rightarrow> 'a option) \<Rightarrow> ('a \<Rightarrow> bool) \<Rightarrow> 'a option" where
  "decode_body lb r dec validate =
     (case ParseMediaType (rq_Header r ''Content-Type'') of
        None \<Rightarrow> None
      | Some ct \<Rightarrow>
          if ct = ''application/json'' then
            if rq_ContentLength r = 0 then None
            else (case rq_Body r of
                    None \<Rightarrow> None
                  | Some buf \<Rightarrow>
                      if buf = [] then None
                      else (case lb_parse lb buf of
                              None \<Rightarrow> None
                            | Some j \<Rightarrow>
                                (case dec j of
                                   None \<Rightarrow> None
                                 | Some req \<Rightarrow> if validate req then Some req else None)))
          else None)"

text \<open>
  Except for \<open>NodeSaveReq\<close> the validators only refuse slices that are nil, and a decoded slice is not.
\<close>

definition always :: "'a \<Rightarrow> bool" where "always x = True"

definition decodeConfigSaveRequest :: "libs \<Rightarrow> http_request \<Rightarrow> ConfigSaveReq option" where
  "decodeConfigSaveRequest lb r = decode_body lb r ConfigSaveReq_Decode always"

definition decodeCustomCreateRequest :: "libs \<Rightarrow> http_request \<Rightarrow> int option" where
  "decodeCustomCreateRequest lb r = decode_body lb r CustomCreateReq_Decode always"

definition decodeCustomDeleteRequest :: "libs \<Rightarrow> http_request \<Rightarrow> int option" where
  "decodeCustomDeleteRequest lb r = decode_body lb r CustomDeleteReq_Decode always"

definition decodeLoginRequest :: "libs \<Rightarrow> http_request \<Rightarrow> credentials option" where
  "decodeLoginRequest lb r = decode_body lb r LoginReq_Decode always"

definition decodeNodeDeleteRequest :: "libs \<Rightarrow> http_request \<Rightarrow> int option" where
  "decodeNodeDeleteRequest lb r = decode_body lb r NodeDeleteReq_Decode always"

definition decodeNodeSaveRequest :: "libs \<Rightarrow> http_request \<Rightarrow> NodeSaveReq option" where
  "decodeNodeSaveRequest lb r = decode_body lb r NodeSaveReq_Decode NodeSaveReq_Validate"

definition decodeProviderCheckRequest :: "libs \<Rightarrow> http_request \<Rightarrow> ProviderCheckReq option" where
  "decodeProviderCheckRequest lb r = decode_body lb r ProviderCheckReq_Decode always"

definition decodeUserCreateRequest :: "libs \<Rightarrow> http_request \<Rightarrow> UserCreateParams option" where
  "decodeUserCreateRequest lb r = decode_body lb r UserCreateReq_Decode always"

definition decodeUserDeleteRequest :: "libs \<Rightarrow> http_request \<Rightarrow> int option" where
  "decodeUserDeleteRequest lb r = decode_body lb r UserDeleteReq_Decode always"

definition decodeUserEditRequest :: "libs \<Rightarrow> http_request \<Rightarrow> UserEditParams option" where
  "decodeUserEditRequest lb r = decode_body lb r UserEditReq_Decode always"

definition decodeUserRecreateRequest :: "libs \<Rightarrow> http_request \<Rightarrow> int option" where
  "decodeUserRecreateRequest lb r = decode_body lb r UserRecreateReq_Decode always"

section \<open>Parameters\<close>

text \<open>A required path parameter: unescaped when the router matched an escaped path, never empty.\<close>

definition path_param :: "libs \<Rightarrow> bool \<Rightarrow> string \<Rightarrow> string option" where
  "path_param lb escaped arg =
     (case (if escaped then url_unescape OtherPart arg else Some arg) of
        None \<Rightarrow> None
      | Some param \<Rightarrow> if param = [] then None else lb_path lb param)"

text \<open>An optional parameter: absent, or its value, or an error.\<close>

definition opt_param :: "string option option \<Rightarrow> (string \<Rightarrow> 'a option) \<Rightarrow> 'a option option" where
  "opt_param found conv =
     (case found of None \<Rightarrow> Some None | Some None \<Rightarrow> None | Some (Some v) \<Rightarrow> map_option Some (conv v))"

definition decodeAdminShellParams :: "libs \<Rightarrow> http_request \<Rightarrow> string option option" where
  "decodeAdminShellParams lb r = opt_param (lb_cookie lb (rq_Cookie r) ''subgen_admin'') Some"

definition decodeAdminShellViewParams :: "libs \<Rightarrow> bool \<Rightarrow> string \<Rightarrow> http_request \<Rightarrow> (string \<times> string option) option" where
  "decodeAdminShellViewParams lb escaped arg r =
     Option.bind (path_param lb escaped arg) (\<lambda>view.
       map_option (Pair view) (opt_param (lb_cookie lb (rq_Cookie r) ''subgen_admin'') Some))"

definition decodeConfigGetParams :: "libs \<Rightarrow> http_request \<Rightarrow> int option option" where
  "decodeConfigGetParams lb r = opt_param (lb_query lb (rq_RawQuery r) ''user'') (lb_int lb)"

definition decodeLoginPageParams :: "libs \<Rightarrow> http_request \<Rightarrow> string option option" where
  "decodeLoginPageParams lb r = opt_param (lb_cookie lb (rq_Cookie r) ''subgen_admin'') Some"

definition decodeRulesParams :: "libs \<Rightarrow> bool \<Rightarrow> string \<Rightarrow> string option" where
  "decodeRulesParams lb escaped arg = path_param lb escaped arg"

definition decodeSubParams :: "libs \<Rightarrow> bool \<Rightarrow> string \<Rightarrow> string \<Rightarrow> (string \<times> string) option" where
  "decodeSubParams lb escaped kind token =
     Option.bind (path_param lb escaped kind) (\<lambda>k. map_option (Pair k) (path_param lb escaped token))"

definition decodeUsersGetParams :: "libs \<Rightarrow> http_request \<Rightarrow> UsersGetParams option" where
  "decodeUsersGetParams lb r =
     Option.bind (opt_param (lb_query lb (rq_RawQuery r) ''q'') Some) (\<lambda>q.
     Option.bind (case lb_query_all lb (rq_RawQuery r) ''inbound'' of
                    None \<Rightarrow> Some [] | Some None \<Rightarrow> None | Some (Some vs) \<Rightarrow> those (map (lb_int lb) vs)) (\<lambda>inbounds.
     Option.bind (opt_param (lb_query lb (rq_RawQuery r) ''page'') (lb_int lb)) (\<lambda>page.
     Option.bind (opt_param (lb_query lb (rq_RawQuery r) ''perPage'') (lb_int lb)) (\<lambda>perPage.
       Some \<lparr>ug_Q = q, ug_Inbound = inbounds, ug_Page = page, ug_PerPage = perPage\<rparr>))))"

section \<open>Responses\<close>

text \<open>
  One encoder per operation, by the type of the response; \<open>None\<close> is the error of a type the operation
  does not have. What an operation may answer beside its result is a message with a status. The encoders
  also know a 401 for most operations; no handler returns one (the session is checked before the handler
  runs), so the type of the replies does not have it.
\<close>

definition json_response :: "libs \<Rightarrow> int \<Rightarrow> jval \<Rightarrow> http_response" where
  "json_response lb status v = \<lparr>rs_Status = status, rs_Header = [json_type], rs_Body = lb_print lb v\<rparr>"

definition message :: "libs \<Rightarrow> string \<Rightarrow> http_response" where
  "message lb msg = json_response lb 200 (MessageResponse_Encode msg)"

definition error_message :: "libs \<Rightarrow> int \<Rightarrow> string \<Rightarrow> http_response" where
  "error_message lb status msg = json_response lb status (ErrorResponse_Encode msg)"

definition encodeConfigCustomsResponse :: "libs \<Rightarrow> CustomsView reply \<Rightarrow> http_response option" where
  "encodeConfigCustomsResponse lb res =
     (case res of Reply v \<Rightarrow> Some (json_response lb 200 (ConfigCustomsOK_Encode v)) | _ \<Rightarrow> None)"

definition encodeConfigGetResponse :: "libs \<Rightarrow> configDTO reply \<Rightarrow> http_response option" where
  "encodeConfigGetResponse lb res =
     (case res of
        Reply c \<Rightarrow> Some (json_response lb 200 (MihomoConfig_Encode c))
      | NotFound \<Rightarrow> Some (error_message lb 404 [])
      | _ \<Rightarrow> None)"

definition encodeConfigSaveResponse :: "libs \<Rightarrow> string reply \<Rightarrow> http_response option" where
  "encodeConfigSaveResponse lb res =
     (case res of
        Reply msg \<Rightarrow> Some (message lb msg)
      | BadRequest msg \<Rightarrow> Some (error_message lb 400 msg)
      | _ \<Rightarrow> None)"

definition encodeConfigSchemaResponse :: "libs \<Rightarrow> SchemaView reply \<Rightarrow> http_response option" where
  "encodeConfigSchemaResponse lb res =
     (case res of Reply v \<Rightarrow> Some (json_response lb 200 (ConfigSchemaOK_Encode v)) | _ \<Rightarrow> None)"

definition encodeCustomCreateResponse :: "libs \<Rightarrow> string reply \<Rightarrow> http_response option" where
  "encodeCustomCreateResponse lb res =
     (case res of
        Reply msg \<Rightarrow> Some (message lb msg)
      | BadRequest msg \<Rightarrow> Some (error_message lb 400 msg)
      | _ \<Rightarrow> None)"

definition encodeCustomDeleteResponse :: "libs \<Rightarrow> string reply \<Rightarrow> http_response option" where
  "encodeCustomDeleteResponse lb res =
     (case res of
        Reply msg \<Rightarrow> Some (message lb msg)
      | BadRequest msg \<Rightarrow> Some (error_message lb 400 msg)
      | _ \<Rightarrow> None)"

definition encodeNodeDeleteResponse :: "libs \<Rightarrow> string reply \<Rightarrow> http_response option" where
  "encodeNodeDeleteResponse lb res =
     (case res of
        Reply msg \<Rightarrow> Some (message lb msg)
      | BadRequest msg \<Rightarrow> Some (error_message lb 400 msg)
      | _ \<Rightarrow> None)"

definition encodeNodeSaveResponse :: "libs \<Rightarrow> string reply \<Rightarrow> http_response option" where
  "encodeNodeSaveResponse lb res =
     (case res of
        Reply msg \<Rightarrow> Some (message lb msg)
      | BadRequest msg \<Rightarrow> Some (error_message lb 400 msg)
      | Conflict msg \<Rightarrow> Some (error_message lb 409 msg)
      | _ \<Rightarrow> None)"

definition encodeNodesGetResponse :: "libs \<Rightarrow> NodeView list reply \<Rightarrow> http_response option" where
  "encodeNodesGetResponse lb res =
     (case res of Reply ns \<Rightarrow> Some (json_response lb 200 (NodesGetOK_Encode ns)) | _ \<Rightarrow> None)"

definition encodeProviderCheckResponse :: "libs \<Rightarrow> string reply \<Rightarrow> http_response option" where
  "encodeProviderCheckResponse lb res =
     (case res of
        Reply msg \<Rightarrow> Some (message lb msg)
      | BadRequest msg \<Rightarrow> Some (error_message lb 400 msg)
      | _ \<Rightarrow> None)"

definition encodeUserCreateResponse :: "libs \<Rightarrow> string reply \<Rightarrow> http_response option" where
  "encodeUserCreateResponse lb res =
     (case res of
        Reply msg \<Rightarrow> Some (message lb msg)
      | BadRequest msg \<Rightarrow> Some (error_message lb 400 msg)
      | Conflict msg \<Rightarrow> Some (error_message lb 409 msg)
      | _ \<Rightarrow> None)"

definition encodeUserDeleteResponse :: "libs \<Rightarrow> string reply \<Rightarrow> http_response option" where
  "encodeUserDeleteResponse lb res =
     (case res of
        Reply msg \<Rightarrow> Some (message lb msg)
      | BadRequest msg \<Rightarrow> Some (error_message lb 400 msg)
      | _ \<Rightarrow> None)"

definition encodeUserEditResponse :: "libs \<Rightarrow> string reply \<Rightarrow> http_response option" where
  "encodeUserEditResponse lb res =
     (case res of
        Reply msg \<Rightarrow> Some (message lb msg)
      | BadRequest msg \<Rightarrow> Some (error_message lb 400 msg)
      | _ \<Rightarrow> None)"

definition encodeUserRecreateResponse :: "libs \<Rightarrow> string reply \<Rightarrow> http_response option" where
  "encodeUserRecreateResponse lb res =
     (case res of
        Reply msg \<Rightarrow> Some (message lb msg)
      | BadRequest msg \<Rightarrow> Some (error_message lb 400 msg)
      | _ \<Rightarrow> None)"

definition encodeUsersGetResponse :: "libs \<Rightarrow> UsersView reply \<Rightarrow> http_response option" where
  "encodeUsersGetResponse lb res =
     (case res of Reply v \<Rightarrow> Some (json_response lb 200 (UsersGetOK_Encode v)) | _ \<Rightarrow> None)"

text \<open>Responses with headers of their own.\<close>

definition cookie_text :: "Cookie \<Rightarrow> string" where
  "cookie_text c =
     ck_Name c @ ''='' @ cookie_value (ck_Value c) @
     (if ck_Path c \<noteq> [] then ''; Path='' @ cookie_path (ck_Path c) else []) @
     (if 0 < ck_MaxAge c then ''; Max-Age='' @ Itoa (ck_MaxAge c) else if ck_MaxAge c < 0 then ''; Max-Age=0'' else []) @
     (if ck_HttpOnly c then ''; HttpOnly'' else []) @ (if ck_Secure c then ''; Secure'' else []) @
     ''; SameSite='' @ ck_SameSite c"

definition encodeLoginResponse :: "libs \<Rightarrow> login_res \<Rightarrow> http_response option" where
  "encodeLoginResponse lb res =
     (case res of
        LoggedIn cookie \<Rightarrow>
          Some \<lparr>rs_Status = 200,
                rs_Header = [json_type, (''Access-Control-Expose-Headers'', ''Set-Cookie''),
                  (''Set-Cookie'', lb_header lb (cookie_text cookie))],
                rs_Body = lb_print lb (MessageResponse_Encode ''ok'')\<rparr>
      | Rejected msg \<Rightarrow> Some (error_message lb 401 msg))"

definition encodeLogoutResponse :: "libs \<Rightarrow> Cookie \<Rightarrow> http_response option" where
  "encodeLogoutResponse lb cookie =
     Some \<lparr>rs_Status = 204,
           rs_Header = [(''Access-Control-Expose-Headers'', ''Set-Cookie''), (''Set-Cookie'', lb_header lb (cookie_text cookie))],
           rs_Body = []\<rparr>"

definition html_page :: "string \<Rightarrow> http_response" where
  "html_page page = \<lparr>rs_Status = 200, rs_Header = [(''Content-Type'', ''text/html; charset=utf-8'')], rs_Body = page\<rparr>"

definition redirect :: "libs \<Rightarrow> string \<Rightarrow> http_response" where
  "redirect lb location =
     \<lparr>rs_Status = 302,
      rs_Header = [(''Access-Control-Expose-Headers'', ''Location''), (''Location'', lb_header lb location)],
      rs_Body = []\<rparr>"

definition encodeAdminShellResponse :: "libs \<Rightarrow> page_res \<Rightarrow> http_response option" where
  "encodeAdminShellResponse lb res =
     (case res of Page p \<Rightarrow> Some (html_page p) | Redirect l \<Rightarrow> Some (redirect lb l) | PageFailed \<Rightarrow> None)"

definition encodeAdminShellViewResponse :: "libs \<Rightarrow> page_res \<Rightarrow> http_response option" where
  "encodeAdminShellViewResponse lb res =
     (case res of Page p \<Rightarrow> Some (html_page p) | Redirect l \<Rightarrow> Some (redirect lb l) | PageFailed \<Rightarrow> None)"

definition encodeLoginPageResponse :: "libs \<Rightarrow> page_res \<Rightarrow> http_response option" where
  "encodeLoginPageResponse lb res =
     (case res of Page p \<Rightarrow> Some (html_page p) | Redirect l \<Rightarrow> Some (redirect lb l) | PageFailed \<Rightarrow> None)"

definition plain_text :: "int \<Rightarrow> string \<Rightarrow> http_response" where
  "plain_text status body =
     \<lparr>rs_Status = status, rs_Header = [(''Content-Type'', ''text/plain; charset=utf-8'')], rs_Body = body\<rparr>"

definition encodeHealthzResponse :: "string \<Rightarrow> http_response option" where
  "encodeHealthzResponse body = Some (plain_text 200 body)"

definition encodeRulesResponse :: "libs \<Rightarrow> rules_res \<Rightarrow> http_response option" where
  "encodeRulesResponse lb res =
     (case res of
        RulesOK sniff data \<Rightarrow>
          Some \<lparr>rs_Status = 200,
                rs_Header = [(''Content-Type'', ''application/octet-stream''),
                  (''Access-Control-Expose-Headers'', ''X-Content-Type-Options''),
                  (''X-Content-Type-Options'', lb_header lb sniff)],
                rs_Body = data\<rparr>
      | RulesNotFound body \<Rightarrow> Some (plain_text 404 body))"

definition encodeSubResponse :: "libs \<Rightarrow> sub_res \<Rightarrow> http_response option" where
  "encodeSubResponse lb res =
     (case res of
        SubOK h \<Rightarrow>
          Some \<lparr>rs_Status = 200,
                rs_Header = [(''Content-Type'', ''text/yaml''),
                  (''Access-Control-Expose-Headers'',
                   ''Content-Disposition,Profile-Title,Profile-Update-Interval,Subscription-Userinfo''),
                  (''Content-Disposition'', lb_header lb (sh_ContentDisposition h)),
                  (''Profile-Title'', lb_header lb (sh_ProfileTitle h)),
                  (''Profile-Update-Interval'', lb_header lb (sh_ProfileUpdateInterval h)),
                  (''Subscription-Userinfo'', lb_header lb (sh_SubscriptionUserinfo h))],
                rs_Body = sh_Response h\<rparr>
      | SubNotFound body \<Rightarrow> Some (plain_text 404 body))"

end
