(* ===== verification/OasServer.thy ===== *)
theory OasServer
  imports OasHttp AdminApi
begin

text \<open>
  The generated server (\<open>internal/oas/oas_handlers_gen.go\<close>, \<open>ServeHTTP\<close>) over the handlers of the program,
  as \<open>buildRouter\<close> of \<open>cmd/service/main.go\<close> puts them together: every request, whatever its method and
  path, is answered with a response and changes the state at most by one operation of the API. There is
  no middleware; \<open>recordError\<close> does nothing.
\<close>

section \<open>The server and what a request finds\<close>

text \<open>
  Fixed over the life of the server: the deployment, the configured credentials, the static pages, the
  public address, the printer of YAML documents, the verb q of \<open>fmt\<close>, the text of an URL error, and the
  libraries. A request finds an environment for provisioning, the panels as the fleet service lists
  them, the web, and the mirror.
\<close>

record ('j, 'raw, 'e) server =
  srv_dp :: "('j, 'raw, 'e) deployment"
  srv_admin :: credentials
  srv_pages :: "string \<rightharpoonup> string"
  srv_publicBase :: string
  srv_marshal :: "ymap \<Rightarrow> 'e + string"
  srv_quote :: "string \<Rightarrow> string"
  srv_parse_error :: "string \<Rightarrow> string"
  srv_libs :: libs

record surroundings =
  su_env :: prov_env
  su_client :: list_inbounds
  su_web :: web
  su_mirror :: Mirror

type_synonym handler = "prov_state \<Rightarrow> http_response \<times> prov_state"

definition now_of :: "surroundings \<Rightarrow> int" where "now_of su = en_now (su_env su)"

definition fleet_of :: "('j, 'raw, 'e) server \<Rightarrow> surroundings \<Rightarrow> db \<Rightarrow> string + Fleet" where
  "fleet_of srv su db = live_fleet (dp_dec (srv_dp srv)) (su_client su) db"

section \<open>The parts of a handler\<close>

text \<open>The security check of a secured operation; both ways to fail are a \<open>SecurityError\<close>.\<close>

definition with_session :: "('j, 'raw, 'e) server \<Rightarrow> surroundings \<Rightarrow> http_request \<Rightarrow> handler \<Rightarrow> handler" where
  "with_session srv su r k st =
     (case securityAdminSession (dp_session (srv_dp srv)) (now_of su) (rq_Cookie r ''subgen_admin'') of
        Inl _ \<Rightarrow> (error_response SecurityError, st)
      | Inr satisfied \<Rightarrow> if satisfied then k st else (error_response SecurityError, st))"

definition with_params :: "'p option \<Rightarrow> ('p \<Rightarrow> handler) \<Rightarrow> handler" where
  "with_params params k st = (case params of None \<Rightarrow> (error_response DecodeParamsError, st) | Some p \<Rightarrow> k p st)"

definition with_request :: "'r option \<Rightarrow> ('r \<Rightarrow> handler) \<Rightarrow> handler" where
  "with_request request k st = (case request of None \<Rightarrow> (error_response DecodeRequestError, st) | Some q \<Rightarrow> k q st)"

text \<open>An error of the handler or of the encoder goes to the error handler.\<close>

definition or_internal :: "http_response option \<Rightarrow> http_response" where
  "or_internal res = (case res of None \<Rightarrow> error_response HandlerError | Some w \<Rightarrow> w)"

definition answered :: "('a reply \<Rightarrow> http_response option) \<Rightarrow> 'a reply \<Rightarrow> http_response" where
  "answered encode res = (if res = Failed then error_response HandlerError else or_internal (encode res))"

definition reading :: "('a reply \<Rightarrow> http_response option) \<Rightarrow> (db \<Rightarrow> 'a reply) \<Rightarrow> handler" where
  "reading encode f st = (answered encode (f (pv_db st)), st)"

definition changing ::
    "('j, 'raw, 'e) server \<Rightarrow> surroundings \<Rightarrow> (string reply \<Rightarrow> http_response option) \<Rightarrow> api_req \<Rightarrow> handler" where
  "changing srv su encode req st =
     (case handle (srv_dp srv) (su_env su) req st of (res, st') \<Rightarrow> (answered encode res, st'))"

section \<open>Pages, sign-in and public operations\<close>

definition handleAdminShellRequest :: "('j, 'raw, 'e) server \<Rightarrow> surroundings \<Rightarrow> http_request \<Rightarrow> handler" where
  "handleAdminShellRequest srv su r =
     with_params (decodeAdminShellParams (srv_libs srv) r) (\<lambda>cookie st.
       (or_internal (encodeAdminShellResponse (srv_libs srv)
          (AdminShell (dp_session (srv_dp srv)) (now_of su) (srv_pages srv) cookie)), st))"

definition handleAdminShellViewRequest ::
    "('j, 'raw, 'e) server \<Rightarrow> surroundings \<Rightarrow> http_request \<Rightarrow> bool \<Rightarrow> string \<Rightarrow> handler" where
  "handleAdminShellViewRequest srv su r escaped arg =
     with_params (decodeAdminShellViewParams (srv_libs srv) escaped arg r) (\<lambda>(view, cookie) st.
       (or_internal (encodeAdminShellViewResponse (srv_libs srv)
          (AdminShellView (dp_session (srv_dp srv)) (now_of su) (srv_pages srv) view cookie)), st))"

definition handleLoginPageRequest :: "('j, 'raw, 'e) server \<Rightarrow> surroundings \<Rightarrow> http_request \<Rightarrow> handler" where
  "handleLoginPageRequest srv su r =
     with_params (decodeLoginPageParams (srv_libs srv) r) (\<lambda>cookie st.
       (or_internal (encodeLoginPageResponse (srv_libs srv)
          (LoginPage (dp_session (srv_dp srv)) (now_of su) (srv_pages srv) cookie)), st))"

definition handleLoginRequest :: "('j, 'raw, 'e) server \<Rightarrow> surroundings \<Rightarrow> http_request \<Rightarrow> handler" where
  "handleLoginRequest srv su r =
     with_request (decodeLoginRequest (srv_libs srv) r) (\<lambda>req st.
       (or_internal (encodeLoginResponse (srv_libs srv)
          (Login (dp_session (srv_dp srv)) (srv_admin srv) (now_of su) req)), st))"

definition handleLogoutRequest :: "('j, 'raw, 'e) server \<Rightarrow> handler" where
  "handleLogoutRequest srv st = (or_internal (encodeLogoutResponse (srv_libs srv) Logout), st)"

definition Healthz :: string where "Healthz = ''ok'' @ [CHR 0x0A]"

definition handleHealthzRequest :: handler where
  "handleHealthzRequest st = (or_internal (encodeHealthzResponse Healthz), st)"

definition handleRulesRequest :: "('j, 'raw, 'e) server \<Rightarrow> surroundings \<Rightarrow> bool \<Rightarrow> string \<Rightarrow> handler" where
  "handleRulesRequest srv su escaped arg =
     with_params (decodeRulesParams (srv_libs srv) escaped arg) (\<lambda>file st.
       (or_internal (encodeRulesResponse (srv_libs srv) (Rules_handler (su_mirror su) file)), st))"

definition handleSubRequest :: "('j, 'raw, 'e) server \<Rightarrow> surroundings \<Rightarrow> bool \<Rightarrow> string \<Rightarrow> string \<Rightarrow> handler" where
  "handleSubRequest srv su escaped a b =
     with_params (decodeSubParams (srv_libs srv) escaped a b) (\<lambda>(kind, token) st.
       (case Sub (se_hmac (dp_session (srv_dp srv))) (srv_quote srv)
               (engines (dp_yaml (srv_dp srv)) (srv_marshal srv) (srv_publicBase srv))
               (se_secret (dp_session (srv_dp srv))) (fleet_of srv su (pv_db st)) kind token (pv_db st) of
          Inl _ \<Rightarrow> error_response HandlerError
        | Inr res \<Rightarrow> or_internal (encodeSubResponse (srv_libs srv) res), st))"

section \<open>Reading operations behind the session\<close>

definition handleConfigCustomsRequest :: "('j, 'raw, 'e) server \<Rightarrow> surroundings \<Rightarrow> http_request \<Rightarrow> handler" where
  "handleConfigCustomsRequest srv su r =
     with_session srv su r (reading (encodeConfigCustomsResponse (srv_libs srv)) ConfigCustoms)"

definition handleConfigGetRequest :: "('j, 'raw, 'e) server \<Rightarrow> surroundings \<Rightarrow> http_request \<Rightarrow> handler" where
  "handleConfigGetRequest srv su r =
     with_session srv su r (with_params (decodeConfigGetParams (srv_libs srv) r) (\<lambda>user.
       reading (encodeConfigGetResponse (srv_libs srv)) (ConfigGet user)))"

definition handleConfigSchemaRequest :: "('j, 'raw, 'e) server \<Rightarrow> surroundings \<Rightarrow> http_request \<Rightarrow> handler" where
  "handleConfigSchemaRequest srv su r =
     with_session srv su r (reading (encodeConfigSchemaResponse (srv_libs srv)) (\<lambda>_. Reply build_schema))"

definition handleNodesGetRequest :: "('j, 'raw, 'e) server \<Rightarrow> surroundings \<Rightarrow> http_request \<Rightarrow> handler" where
  "handleNodesGetRequest srv su r =
     with_session srv su r (reading (encodeNodesGetResponse (srv_libs srv)) (NodesGet (dp_dec (srv_dp srv))))"

definition handleUsersGetRequest :: "('j, 'raw, 'e) server \<Rightarrow> surroundings \<Rightarrow> http_request \<Rightarrow> handler" where
  "handleUsersGetRequest srv su r =
     with_session srv su r (with_params (decodeUsersGetParams (srv_libs srv) r) (\<lambda>params.
       reading (encodeUsersGetResponse (srv_libs srv)) (\<lambda>db.
         UsersGet (se_hmac (dp_session (srv_dp srv))) (se_secret (dp_session (srv_dp srv))) (srv_publicBase srv)
           (fleet_of srv su db) params db)))"

text \<open>A panic of the probe would end the request without a response; status 0 stands for that.\<close>

definition aborted :: http_response where "aborted = \<lparr>rs_Status = 0, rs_Header = [], rs_Body = []\<rparr>"

definition handleProviderCheckRequest :: "('j, 'raw, 'e) server \<Rightarrow> surroundings \<Rightarrow> http_request \<Rightarrow> handler" where
  "handleProviderCheckRequest srv su r =
     with_session srv su r (with_request (decodeProviderCheckRequest (srv_libs srv) r) (\<lambda>req st.
       (case ProviderCheck (dp_yaml (srv_dp srv)) (srv_parse_error srv) (srv_quote srv) (su_web su) (pk_URL req) (pk_Format req) of
          None \<Rightarrow> aborted
        | Some res \<Rightarrow> answered (encodeProviderCheckResponse (srv_libs srv)) res, st)))"

section \<open>Changing operations behind the session\<close>

definition handleConfigSaveRequest :: "('j, 'raw, 'e) server \<Rightarrow> surroundings \<Rightarrow> http_request \<Rightarrow> handler" where
  "handleConfigSaveRequest srv su r =
     with_session srv su r (with_request (decodeConfigSaveRequest (srv_libs srv) r) (\<lambda>req.
       changing srv su (encodeConfigSaveResponse (srv_libs srv)) (SaveMihomo req)))"

definition handleCustomCreateRequest :: "('j, 'raw, 'e) server \<Rightarrow> surroundings \<Rightarrow> http_request \<Rightarrow> handler" where
  "handleCustomCreateRequest srv su r =
     with_session srv su r (with_request (decodeCustomCreateRequest (srv_libs srv) r) (\<lambda>req.
       changing srv su (encodeCustomCreateResponse (srv_libs srv)) (NewCustom req)))"

definition handleCustomDeleteRequest :: "('j, 'raw, 'e) server \<Rightarrow> surroundings \<Rightarrow> http_request \<Rightarrow> handler" where
  "handleCustomDeleteRequest srv su r =
     with_session srv su r (with_request (decodeCustomDeleteRequest (srv_libs srv) r) (\<lambda>req.
       changing srv su (encodeCustomDeleteResponse (srv_libs srv)) (RemoveCustom req)))"

definition handleNodeDeleteRequest :: "('j, 'raw, 'e) server \<Rightarrow> surroundings \<Rightarrow> http_request \<Rightarrow> handler" where
  "handleNodeDeleteRequest srv su r =
     with_session srv su r (with_request (decodeNodeDeleteRequest (srv_libs srv) r) (\<lambda>req.
       changing srv su (encodeNodeDeleteResponse (srv_libs srv)) (RemoveNode req)))"

definition handleNodeSaveRequest :: "('j, 'raw, 'e) server \<Rightarrow> surroundings \<Rightarrow> http_request \<Rightarrow> handler" where
  "handleNodeSaveRequest srv su r =
     with_session srv su r (with_request (decodeNodeSaveRequest (srv_libs srv) r) (\<lambda>req.
       changing srv su (encodeNodeSaveResponse (srv_libs srv)) (SaveNode req)))"

definition handleUserCreateRequest :: "('j, 'raw, 'e) server \<Rightarrow> surroundings \<Rightarrow> http_request \<Rightarrow> handler" where
  "handleUserCreateRequest srv su r =
     with_session srv su r (with_request (decodeUserCreateRequest (srv_libs srv) r) (\<lambda>req.
       changing srv su (encodeUserCreateResponse (srv_libs srv)) (NewUser req)))"

definition handleUserDeleteRequest :: "('j, 'raw, 'e) server \<Rightarrow> surroundings \<Rightarrow> http_request \<Rightarrow> handler" where
  "handleUserDeleteRequest srv su r =
     with_session srv su r (with_request (decodeUserDeleteRequest (srv_libs srv) r) (\<lambda>req.
       changing srv su (encodeUserDeleteResponse (srv_libs srv)) (RemoveUser req)))"

definition handleUserEditRequest :: "('j, 'raw, 'e) server \<Rightarrow> surroundings \<Rightarrow> http_request \<Rightarrow> handler" where
  "handleUserEditRequest srv su r =
     with_session srv su r (with_request (decodeUserEditRequest (srv_libs srv) r) (\<lambda>req.
       changing srv su (encodeUserEditResponse (srv_libs srv)) (ChangeUser req)))"

definition handleUserRecreateRequest :: "('j, 'raw, 'e) server \<Rightarrow> surroundings \<Rightarrow> http_request \<Rightarrow> handler" where
  "handleUserRecreateRequest srv su r =
     with_session srv su r (with_request (decodeUserRecreateRequest (srv_libs srv) r) (\<lambda>req.
       changing srv su (encodeUserRecreateResponse (srv_libs srv)) (RebuildUser req)))"

section \<open>ServeHTTP\<close>

text \<open>The handler the router calls, with the arguments it took from the path.\<close>

definition dispatch ::
    "('j, 'raw, 'e) server \<Rightarrow> surroundings \<Rightarrow> http_request \<Rightarrow> bool \<Rightarrow> operation \<Rightarrow> string list \<Rightarrow> handler" where
  "dispatch srv su r escaped op args =
     (case op of
        AdminShellOperation \<Rightarrow> handleAdminShellRequest srv su r
      | AdminShellViewOperation \<Rightarrow> handleAdminShellViewRequest srv su r escaped (args ! 0)
      | ConfigCustomsOperation \<Rightarrow> handleConfigCustomsRequest srv su r
      | ConfigGetOperation \<Rightarrow> handleConfigGetRequest srv su r
      | ConfigSaveOperation \<Rightarrow> handleConfigSaveRequest srv su r
      | ConfigSchemaOperation \<Rightarrow> handleConfigSchemaRequest srv su r
      | CustomCreateOperation \<Rightarrow> handleCustomCreateRequest srv su r
      | CustomDeleteOperation \<Rightarrow> handleCustomDeleteRequest srv su r
      | HealthzOperation \<Rightarrow> handleHealthzRequest
      | LoginOperation \<Rightarrow> handleLoginRequest srv su r
      | LoginPageOperation \<Rightarrow> handleLoginPageRequest srv su r
      | LogoutOperation \<Rightarrow> handleLogoutRequest srv
      | NodeDeleteOperation \<Rightarrow> handleNodeDeleteRequest srv su r
      | NodeSaveOperation \<Rightarrow> handleNodeSaveRequest srv su r
      | NodesGetOperation \<Rightarrow> handleNodesGetRequest srv su r
      | ProviderCheckOperation \<Rightarrow> handleProviderCheckRequest srv su r
      | RulesOperation \<Rightarrow> handleRulesRequest srv su escaped (args ! 0)
      | SubOperation \<Rightarrow> handleSubRequest srv su escaped (args ! 0) (args ! 1)
      | UserCreateOperation \<Rightarrow> handleUserCreateRequest srv su r
      | UserDeleteOperation \<Rightarrow> handleUserDeleteRequest srv su r
      | UserEditOperation \<Rightarrow> handleUserEditRequest srv su r
      | UserRecreateOperation \<Rightarrow> handleUserRecreateRequest srv su r
      | UsersGetOperation \<Rightarrow> handleUsersGetRequest srv su r)"

definition ServeHTTP :: "('j, 'raw, 'e) server \<Rightarrow> surroundings \<Rightarrow> http_request \<Rightarrow> handler" where
  "ServeHTTP srv su r st =
     (case request_elem (lb_canon (srv_libs srv)) (rq_Path r) (rq_RawPath r) of
        (elem, escaped) \<Rightarrow>
          (case find_route (rq_Method r) elem of
             NoRoute \<Rightarrow> (notFound, st)
           | NotAllowed params \<Rightarrow> (notAllowed r params, st)
           | Handle op args \<Rightarrow> dispatch srv su r escaped op args st))"

end
