(* ===== verification/OasRouterFacts.thy ===== *)
theory OasRouterFacts
  imports OasRouter
begin

text \<open>
  The router implements the paths of the OpenAPI description, with one exception.
\<close>

definition static_is :: "string \<Rightarrow> string \<Rightarrow> route \<Rightarrow> bool" where
  "static_is m path r \<longleftrightarrow> (case map_of static_routes path of None \<Rightarrow> False | Some on_method \<Rightarrow> r = on_method m)"

definition follows :: "string \<Rightarrow> string \<Rightarrow> route \<Rightarrow> bool" where
  "follows m path r \<longleftrightarrow> static_is m path r \<or> map_of static_routes path = None \<and> r = pattern_route m path"

section \<open>When a block of the tree answers\<close>

lemma strip_append [simp]: "strip p (p @ r) = Some r" by (induction p) auto
lemma strip_self [simp]: "strip p p = Some []" by (induction p) auto

lemma strip_SomeD: "strip p s = Some r \<Longrightarrow> s = p @ r"
  by (induction p s rule: strip.induct) (auto split: if_splits)

lemma strip_then_Some: "Option.bind (strip p elem) f = Some r \<longleftrightarrow> (\<exists>x. elem = p @ x \<and> f x = Some r)"
  by (cases "strip p elem") (auto dest: strip_SomeD)

lemma leaf_Some: "leaf p f m elem = Some r \<longleftrightarrow> elem = p \<and> r = f m"
  by (auto simp: leaf_def dest: strip_SomeD split: option.splits list.splits)

lemma node_Some: "node p f below m elem = Some r \<longleftrightarrow> elem = p \<and> r = f m \<or> (\<exists>x. x \<noteq> [] \<and> elem = p @ x \<and> below m x = Some r)"
  by (auto simp: node_def dest: strip_SomeD split: option.splits list.splits)

lemma switch_Cons: "switch ((d, k) # cs) elem = Some r \<longleftrightarrow>
   (\<exists>s. elem = d # s \<and> k elem = Some r) \<or> (\<not> HasPrefix elem [d] \<and> switch cs elem = Some r)"
  by (cases elem) (auto simp: HasPrefix_def)

lemma switch_Nil: "switch [] elem = Some r \<longleftrightarrow> False" by (cases elem) auto

lemmas tree_Some = switch_Cons switch_Nil strip_then_Some leaf_Some node_Some


lemma custom_routes_SomeD:
  "custom_routes m elem = Some r \<Longrightarrow> (elem, r) \<in> {(''/create'', posts CustomCreateOperation m),
     (''/delete'', posts CustomDeleteOperation m), (''s'', gets ConfigCustomsOperation [] m)}"
  unfolding custom_routes_def tree_Some by auto

lemma mihomo_routes_SomeD:
  "mihomo_routes m elem = Some r \<Longrightarrow> (elem, r) \<in> {(''/schema'', gets ConfigSchemaOperation [] m),
     (''/customs'', gets ConfigCustomsOperation [] m), (''/save'', posts ConfigSaveOperation m),
     (''/custom/create'', posts CustomCreateOperation m), (''/custom/delete'', posts CustomDeleteOperation m),
     (''/provider/check'', posts ProviderCheckOperation m)}"
  unfolding mihomo_routes_def tree_Some by (auto dest!: custom_routes_SomeD)

lemma nodes_routes_SomeD:
  "nodes_routes m elem = Some r \<Longrightarrow> (elem, r) \<in> {(''/save'', posts NodeSaveOperation m), (''/delete'', posts NodeDeleteOperation m)}"
  unfolding nodes_routes_def tree_Some by auto

lemma users_routes_SomeD:
  "users_routes m elem = Some r \<Longrightarrow> (elem, r) \<in> {(''/create'', posts UserCreateOperation m),
     (''/edit'', posts UserEditOperation m), (''/delete'', posts UserDeleteOperation m),
     (''/recreate'', posts UserRecreateOperation m)}"
  unfolding users_routes_def tree_Some by auto

lemma log_routes_SomeD:
  "log_routes m elem = Some r \<Longrightarrow> (elem, r) \<in> {(''in'', posts LoginOperation m),
     (''out'', by_method m ''POST'' LogoutOperation [] post_only)}"
  unfolding log_routes_def tree_Some by auto


lemma static_is_listed [simp]:
  "static_is m ''/admin'' (gets AdminShellOperation [] m)"
  "static_is m ''/admin/login'' (gets LoginPageOperation [] m)"
  "static_is m ''/healthz'' (gets HealthzOperation [] m)"
  "static_is m ''/admin/api/login'' (posts LoginOperation m)"
  "static_is m ''/admin/api/logout'' (by_method m ''POST'' LogoutOperation [] post_only)"
  "static_is m ''/admin/api/users'' (gets UsersGetOperation [] m)"
  "static_is m ''/admin/api/users/create'' (posts UserCreateOperation m)"
  "static_is m ''/admin/api/users/edit'' (posts UserEditOperation m)"
  "static_is m ''/admin/api/users/delete'' (posts UserDeleteOperation m)"
  "static_is m ''/admin/api/users/recreate'' (posts UserRecreateOperation m)"
  "static_is m ''/admin/api/nodes'' (gets NodesGetOperation [] m)"
  "static_is m ''/admin/api/nodes/save'' (posts NodeSaveOperation m)"
  "static_is m ''/admin/api/nodes/delete'' (posts NodeDeleteOperation m)"
  "static_is m ''/admin/api/config/mihomo'' (gets ConfigGetOperation [] m)"
  "static_is m ''/admin/api/config/mihomo/schema'' (gets ConfigSchemaOperation [] m)"
  "static_is m ''/admin/api/config/mihomo/customs'' (gets ConfigCustomsOperation [] m)"
  "static_is m ''/admin/api/config/mihomo/save'' (posts ConfigSaveOperation m)"
  "static_is m ''/admin/api/config/mihomo/custom/create'' (posts CustomCreateOperation m)"
  "static_is m ''/admin/api/config/mihomo/custom/delete'' (posts CustomDeleteOperation m)"
  "static_is m ''/admin/api/config/mihomo/provider/check'' (posts ProviderCheckOperation m)"
  by (simp_all add: static_is_def static_routes_def)

lemma api_routes_SomeD: "api_routes m elem = Some r \<Longrightarrow> static_is m (''/admin/api/'' @ elem) r"
  unfolding api_routes_def tree_Some
  by (auto dest!: mihomo_routes_SomeD nodes_routes_SomeD users_routes_SomeD log_routes_SomeD)


lemma view_routes_SomeD:
  assumes "view_routes m elem = Some r"
  shows "static_is m (''/admin/'' @ elem) r \<or>
    r = gets AdminShellViewOperation [if elem = ''api/'' then [] else elem] m \<and> (elem = ''api/'' \<or> CHR ''/'' \<notin> set elem)"
  using assms
  by (auto simp: view_routes_def leaf_param_def dest!: strip_SomeD api_routes_SomeD
      split: if_splits option.splits list.splits)

lemma Split_slash: "CHR ''/'' \<notin> set a \<Longrightarrow> Split CHR ''/'' (a @ CHR ''/'' # s) = a # Split CHR ''/'' s"
  by (induction a) auto

lemma pattern_view:
  assumes "elem \<noteq> []" "CHR ''/'' \<notin> set elem"
  shows "pattern_route m (''/admin/'' @ elem) = gets AdminShellViewOperation [elem] m"
  using Split_slash [of "''admin''" elem] assms by (simp add: pattern_route_def Split_plain)

lemma pattern_file:
  assumes "CHR ''/'' \<notin> set elem"
  shows "pattern_route m (''/rules/'' @ elem) = gets RulesOperation [elem] m"
  using Split_slash [of "''rules''" elem] assms by (simp add: pattern_route_def Split_plain)

lemma pattern_sub:
  assumes "CHR ''/'' \<notin> set k" "CHR ''/'' \<notin> set t"
  shows "pattern_route m (''/sub/'' @ k @ ''/'' @ t) = gets SubOperation [k, t] m"
  using Split_slash [of "''sub''" "k @ ''/'' @ t"] Split_slash [of k t] assms by (simp add: pattern_route_def Split_plain)

lemma follows_static: "static_is m path r \<Longrightarrow> follows m path r"
  by (simp add: follows_def)

lemma follows_pattern: "map_of static_routes path = None \<Longrightarrow> pattern_route m path = r \<Longrightarrow> follows m path r"
  by (auto simp: follows_def)

lemma static_keys: "map_of static_routes path \<noteq> None \<Longrightarrow> path \<in> fst ` set static_routes"
  by (auto simp: map_of_eq_None_iff)

lemma not_static:
  "map_of static_routes (''/rules/'' @ x) = None" "map_of static_routes (''/sub/'' @ x) = None"
  using static_keys [of "''/rules/'' @ x"] static_keys [of "''/sub/'' @ x"] by (auto simp: static_routes_def)

lemma not_static_view: "CHR ''/'' \<notin> set x \<Longrightarrow> x \<noteq> ''login'' \<Longrightarrow> map_of static_routes (''/admin/'' @ x) = None"
proof -
  assume x: "CHR ''/'' \<notin> set x" "x \<noteq> ''login''"
  have "list_all (\<lambda>p. case strip ''/admin/'' p of None \<Rightarrow> True | Some y \<Rightarrow> y = ''login'' \<or> CHR ''/'' \<in> set y)
      (map fst static_routes)"
    by (simp add: static_routes_def)
  then have "''/admin/'' @ x \<notin> fst ` set static_routes"
    using x strip_append [of "''/admin/''" x] by (fastforce simp: list_all_iff)
  with static_keys show ?thesis by blast
qed

lemma sub_routes_SomeD:
  assumes "sub_routes m elem = Some r"
  shows "\<exists>k t. elem = k @ ''/'' @ t \<and> CHR ''/'' \<notin> set k \<and> CHR ''/'' \<notin> set t \<and> r = gets SubOperation [k, t] m"
proof -
  let ?k = "takeWhile (\<lambda>c. c \<noteq> CHR ''/'') elem"
  have "CHR ''/'' \<notin> set ?k" by (auto dest: set_takeWhileD)
  moreover obtain t where "drop (length ?k) elem = ''/'' @ t" "CHR ''/'' \<notin> set t" "r = gets SubOperation [?k, t] m"
    using assms unfolding sub_routes_def Let_def tree_Some by (auto simp: leaf_param_def split: if_splits)
  moreover have "elem = ?k @ drop (length ?k) elem"
    by (metis append_take_drop_id takeWhile_eq_take)
  ultimately show ?thesis by metis
qed

lemma view_login: "view_routes m ''login'' = Some (gets LoginPageOperation [] m)"
  by (simp add: view_routes_def HasPrefix_def)

lemma leaf_param_Some: "leaf_param k elem = Some r \<longleftrightarrow> CHR ''/'' \<notin> set elem \<and> r = k elem"
  by (auto simp: leaf_param_def)

lemma admin_routes_Some:
  "admin_routes m elem = Some r \<longleftrightarrow> (\<exists>x. elem = CHR ''/'' # x \<and> x \<noteq> [] \<and> view_routes m x = Some r)"
  unfolding admin_routes_def tree_Some by auto


lemma root_routes_cases:
  assumes "root_routes m path = Some r"
  obtains "path = ''/admin''" "r = gets AdminShellOperation [] m"
    | x where "path = ''/admin/'' @ x" "x \<noteq> []" "view_routes m x = Some r"
    | "path = ''/healthz''" "r = gets HealthzOperation [] m"
    | x where "path = ''/rules/'' @ x" "CHR ''/'' \<notin> set x" "r = gets RulesOperation [x] m"
    | x where "path = ''/sub/'' @ x" "sub_routes m x = Some r"
proof -
  let ?below = "switch [
      (CHR ''a'', node ''admin'' (gets AdminShellOperation []) admin_routes m),
      (CHR ''h'', leaf ''healthz'' (gets HealthzOperation []) m),
      (CHR ''r'', \<lambda>elem. Option.bind (strip ''rules/'' elem) (leaf_param (\<lambda>f. gets RulesOperation [f] m))),
      (CHR ''s'', \<lambda>elem. Option.bind (strip ''sub/'' elem) (sub_routes m))]"
  from assms obtain s where path: "path = CHR ''/'' # s" and below: "?below s = Some r"
    unfolding root_routes_def switch_Cons [of "CHR ''/''"] switch_Nil strip_then_Some by auto
  from below have "node ''admin'' (gets AdminShellOperation []) admin_routes m s = Some r \<or>
     leaf ''healthz'' (gets HealthzOperation []) m s = Some r \<or>
     Option.bind (strip ''rules/'' s) (leaf_param (\<lambda>f. gets RulesOperation [f] m)) = Some r \<or>
     Option.bind (strip ''sub/'' s) (sub_routes m) = Some r"
    unfolding switch_Cons switch_Nil by blast
  then show thesis
  proof (elim disjE)
    assume "node ''admin'' (gets AdminShellOperation []) admin_routes m s = Some r"
    with path that(1,2) show thesis unfolding node_Some admin_routes_Some by auto
  next
    assume "leaf ''healthz'' (gets HealthzOperation []) m s = Some r"
    with path that(3) show thesis by (simp add: leaf_Some)
  next
    assume "Option.bind (strip ''rules/'' s) (leaf_param (\<lambda>f. gets RulesOperation [f] m)) = Some r"
    with path that(4) show thesis unfolding strip_then_Some leaf_param_Some by auto
  next
    assume "Option.bind (strip ''sub/'' s) (sub_routes m) = Some r"
    with path that(5) show thesis unfolding strip_then_Some by auto
  qed
qed

lemma root_routes_SomeD:
  assumes "root_routes m path = Some r" "path \<noteq> ''/admin/api/''"
  shows "follows m path r"
proof -
  from assms(1) show ?thesis
  proof (cases rule: root_routes_cases)
    case (2 x)
    show ?thesis
    proof (cases "x = ''login''")
      case True
      with 2 view_login have "r = gets LoginPageOperation [] m" "path = ''/admin/login''" by simp_all
      then show ?thesis by (simp add: follows_def)
    next
      case False
      have "x \<noteq> ''api/''" using 2(1) assms(2) by auto
      then have "static_is m (''/admin/'' @ x) r \<or> r = gets AdminShellViewOperation [x] m \<and> CHR ''/'' \<notin> set x"
        using view_routes_SomeD [OF 2(3)] by auto
      then show ?thesis unfolding 2(1)
      proof (elim disjE conjE)
        assume "r = gets AdminShellViewOperation [x] m" "CHR ''/'' \<notin> set x"
        then show "follows m (''/admin/'' @ x) r"
          using follows_pattern [OF not_static_view [OF _ False] pattern_view [OF 2(2)]] by blast
      qed (rule follows_static)
    qed
  next
    case (4 x)
    show ?thesis unfolding 4(1,3) by (rule follows_pattern [OF not_static(1) pattern_file [OF 4(2)]])
  next
    case (5 x)
    obtain k t where kt: "x = k @ ''/'' @ t" "CHR ''/'' \<notin> set k" "CHR ''/'' \<notin> set t" "r = gets SubOperation [k, t] m"
      using sub_routes_SomeD [OF 5(2)] by blast
    show ?thesis unfolding 5(1) kt(1,4) by (rule follows_pattern [OF not_static(2) pattern_sub [OF kt(2,3)]])
  qed (simp_all add: follows_static)
qed

lemma follows_iff: "follows m path r \<longleftrightarrow> described_route m path = r"
  by (auto simp: follows_def static_is_def described_route_def split: option.splits)

lemma static_routed: "map_of static_routes path = Some on_method \<Longrightarrow> root_routes m path = Some (on_method m)"
proof -
  have "list_all (\<lambda>(p, on_method). root_routes m p = Some (on_method m)) static_routes"
    by (simp add: static_routes_def root_routes_def admin_routes_def view_routes_def api_routes_def mihomo_routes_def
        custom_routes_def log_routes_def nodes_routes_def users_routes_def node_def leaf_def HasPrefix_def)
  then show "map_of static_routes path = Some on_method \<Longrightarrow> root_routes m path = Some (on_method m)"
    by (auto simp: list_all_iff dest!: map_of_SomeD)
qed

lemma Split_recover:
  "Split sep s = x # xs \<Longrightarrow> s = x @ concat (map ((#) sep) xs) \<and> sep \<notin> set x \<and> (\<forall>y \<in> set xs. sep \<notin> set y)"
proof (induction s arbitrary: x xs)
  case (Cons c s)
  obtain y ys where s: "Split sep s = y # ys" using Split_not_Nil by (metis neq_Nil_conv)
  then have "if c = sep then x = [] \<and> xs = y # ys else x = c # y \<and> xs = ys"
    using Cons.prems by (auto split: if_splits)
  with Cons.IH [OF s] show ?case by (cases "c = sep") simp_all
qed simp

lemma view_param:
  "x \<noteq> ''login'' \<Longrightarrow> CHR ''/'' \<notin> set x \<Longrightarrow> view_routes m x = Some (gets AdminShellViewOperation [x] m)"
  by (auto simp: view_routes_def leaf_param_def dest!: strip_SomeD split: option.split list.split)

lemma pattern_routed:
  assumes "pattern_route m path \<noteq> NoRoute" "map_of static_routes path = None"
  shows "root_routes m path \<noteq> None"
proof -
  from assms(1) consider x where "Split CHR ''/'' path = [[], ''admin'', x]" "x \<noteq> []"
    | x where "Split CHR ''/'' path = [[], ''rules'', x]"
    | x y where "Split CHR ''/'' path = [[], ''sub'', x, y]"
    by (auto simp: pattern_route_def split: list.splits if_splits)
  then show ?thesis
  proof cases
    case (1 x)
    with Split_recover [OF 1(1)] have x: "path = ''/admin/'' @ x" "CHR ''/'' \<notin> set x" by auto
    moreover have "x \<noteq> ''login''" using x assms(2) by (auto simp: static_routes_def)
    ultimately show ?thesis using 1(2)
      by (simp add: root_routes_def admin_routes_def node_def view_param split: list.split)
  next
    case (2 x)
    with Split_recover [OF 2(1)] show ?thesis by (auto simp: root_routes_def leaf_param_def)
  next
    case (3 x y)
    with Split_recover [OF 3] have xy: "path = ''/sub/'' @ x @ CHR ''/'' # y" "CHR ''/'' \<notin> set x" "CHR ''/'' \<notin> set y" by auto
    then have "takeWhile (\<lambda>c. c \<noteq> CHR ''/'') (x @ CHR ''/'' # y) = x" by (subst takeWhile_append2) auto
    with xy show ?thesis by (simp add: root_routes_def sub_routes_def leaf_param_def)
  qed
qed


end
