(* ===== verification/OasServerFacts.thy ===== *)
theory OasServerFacts
  imports OasServer OasRouterFacts ApiErrors ApiProperties RulesetFacts
begin

text \<open>
  The HTTP server refines the API: a request is the API call it carries, so what was proved of the calls
  holds of the server, from the bytes of the request line to the status of the response.
\<close>

section \<open>A simulation that maps every step to a step\<close>

locale step_refinement =
  fixes concrete :: "'s \<Rightarrow> 'c \<Rightarrow> 's \<Rightarrow> bool" and abstract :: "'s \<Rightarrow> 'a \<Rightarrow> 's \<Rightarrow> bool" and abs :: "'c \<Rightarrow> 'a"
  assumes step_refines: "concrete s x t \<Longrightarrow> abstract s (abs x) t"
begin

lemma runs_refine: "runs concrete s xs t \<Longrightarrow> runs abstract s (map abs xs) t"
  by (induction rule: runs.induct) (auto intro: run_none run_more step_refines)

end

section \<open>The call a request carries\<close>

definition carried :: "libs \<Rightarrow> http_request \<Rightarrow> operation \<Rightarrow> api_req option" where
  "carried lb r op =
     (case op of
        ConfigSaveOperation \<Rightarrow> map_option SaveMihomo (decodeConfigSaveRequest lb r)
      | CustomCreateOperation \<Rightarrow> map_option NewCustom (decodeCustomCreateRequest lb r)
      | CustomDeleteOperation \<Rightarrow> map_option RemoveCustom (decodeCustomDeleteRequest lb r)
      | NodeDeleteOperation \<Rightarrow> map_option RemoveNode (decodeNodeDeleteRequest lb r)
      | NodeSaveOperation \<Rightarrow> map_option SaveNode (decodeNodeSaveRequest lb r)
      | UserCreateOperation \<Rightarrow> map_option NewUser (decodeUserCreateRequest lb r)
      | UserDeleteOperation \<Rightarrow> map_option RemoveUser (decodeUserDeleteRequest lb r)
      | UserEditOperation \<Rightarrow> map_option ChangeUser (decodeUserEditRequest lb r)
      | UserRecreateOperation \<Rightarrow> map_option RebuildUser (decodeUserRecreateRequest lb r)
      | _ \<Rightarrow> None)"

definition routed :: "libs \<Rightarrow> http_request \<Rightarrow> route" where
  "routed lb r = find_route (rq_Method r) (fst (request_elem (lb_canon lb) (rq_Path r) (rq_RawPath r)))"

definition call_of :: "('j, 'raw, 'e) server \<Rightarrow> surroundings \<times> http_request \<Rightarrow> api_call" where
  "call_of srv x =
     \<lparr>ac_cookie = rq_Cookie (snd x) ''subgen_admin'',
      ac_body = (case routed (srv_libs srv) (snd x) of Handle op _ \<Rightarrow> carried (srv_libs srv) (snd x) op | _ \<Rightarrow> None),
      ac_env = su_env (fst x)\<rparr>"

section \<open>What the parts of a handler do\<close>

lemma with_session_eq:
  "with_session srv su r k st =
    (if admitted (dp_session (srv_dp srv)) (now_of su) (rq_Cookie r ''subgen_admin'') then k st
     else (error_response SecurityError, st))"
proof (cases "admitted (dp_session (srv_dp srv)) (now_of su) (rq_Cookie r ''subgen_admin'')")
  case True
  then have "securityAdminSession (dp_session (srv_dp srv)) (now_of su) (rq_Cookie r ''subgen_admin'') = Inr True"
    by (simp add: securityAdminSession_iff)
  with True show ?thesis by (simp add: with_session_def)
next
  case False
  then have "securityAdminSession (dp_session (srv_dp srv)) (now_of su) (rq_Cookie r ''subgen_admin'') \<noteq> Inr True"
    by (simp add: securityAdminSession_iff)
  with False show ?thesis by (auto simp: with_session_def split: sum.split)
qed

lemma with_params_snd: "snd (with_params p k st) = (case p of None \<Rightarrow> st | Some x \<Rightarrow> snd (k x st))"
  by (simp add: with_params_def split: option.split)

lemma with_request_snd: "snd (with_request p k st) = (case p of None \<Rightarrow> st | Some x \<Rightarrow> snd (k x st))"
  by (simp add: with_request_def split: option.split)

lemma reading_snd: "snd (reading encode f st) = st" by (simp add: reading_def)

lemma changing_snd: "snd (changing srv su encode req st) = snd (handle (srv_dp srv) (su_env su) req st)"
  by (simp add: changing_def split: prod.split)

lemmas handler_snd = with_session_eq with_params_snd with_request_snd reading_snd changing_snd

lemmas page_handlers = handleAdminShellRequest_def handleAdminShellViewRequest_def handleLoginPageRequest_def
  handleLoginRequest_def handleLogoutRequest_def handleHealthzRequest_def handleRulesRequest_def handleSubRequest_def

lemmas reading_handlers = handleConfigCustomsRequest_def handleConfigGetRequest_def handleConfigSchemaRequest_def
  handleNodesGetRequest_def handleUsersGetRequest_def handleProviderCheckRequest_def

lemmas changing_handlers = handleConfigSaveRequest_def handleCustomCreateRequest_def handleCustomDeleteRequest_def
  handleNodeDeleteRequest_def handleNodeSaveRequest_def handleUserCreateRequest_def handleUserDeleteRequest_def
  handleUserEditRequest_def handleUserRecreateRequest_def

lemma dispatch_snd:
  "snd (dispatch srv su r escaped op args st) =
    (if admitted (dp_session (srv_dp srv)) (now_of su) (rq_Cookie r ''subgen_admin'')
     then (case carried (srv_libs srv) r op of None \<Rightarrow> st | Some req \<Rightarrow> snd (handle (srv_dp srv) (su_env su) req st))
     else st)"
proof (cases op)
qed (simp_all add: dispatch_def carried_def page_handlers reading_handlers changing_handlers handler_snd
    split: option.split prod.split)

lemma ServeHTTP_routed:
  "ServeHTTP srv su r st =
    (case routed (srv_libs srv) r of
       NoRoute \<Rightarrow> (notFound, st)
     | NotAllowed params \<Rightarrow> (notAllowed r params, st)
     | Handle op args \<Rightarrow>
         dispatch srv su r (snd (request_elem (lb_canon (srv_libs srv)) (rq_Path r) (rq_RawPath r))) op args st)"
  by (cases "request_elem (lb_canon (srv_libs srv)) (rq_Path r) (rq_RawPath r)") (simp add: ServeHTTP_def routed_def split: route.split)

lemma ServeHTTP_snd: "snd (ServeHTTP srv su r st) = snd (serve (srv_dp srv) (call_of srv (su, r)) st)"
proof (cases "admitted (dp_session (srv_dp srv)) (now_of su) (rq_Cookie r ''subgen_admin'')")
  case True
  then show ?thesis
    by (cases "routed (srv_libs srv) r")
       (simp_all add: ServeHTTP_routed serve_def call_of_def serve_admitted dispatch_snd now_of_def)
next
  case False
  then show ?thesis
    by (cases "routed (srv_libs srv) r")
       (simp_all add: ServeHTTP_routed serve_def call_of_def serve_refused dispatch_snd now_of_def)
qed

section \<open>Runs of the server\<close>

text \<open>A request with what it finds, under the conditions of the API.\<close>

inductive http_step ::
    "('j, 'raw, 'e) server \<Rightarrow> prov_state \<Rightarrow> surroundings \<times> http_request \<Rightarrow> prov_state \<Rightarrow> bool" for srv where
  answered: "env_ok (srv_dp srv) (su_env su) \<Longrightarrow> ServeHTTP srv su r st = (w, st') \<Longrightarrow> http_step srv st (su, r) st'"

inductive_cases http_stepE: "http_step srv st x st'"

lemma http_step_serves: "http_step srv st x st' \<Longrightarrow> api_step (srv_dp srv) st (call_of srv x) st'"
proof (erule http_stepE)
  fix su r w assume x: "x = (su, r)" "env_ok (srv_dp srv) (su_env su)" and run: "ServeHTTP srv su r st = (w, st')"
  obtain a where "serve (srv_dp srv) (call_of srv (su, r)) st = (a, st')"
    using ServeHTTP_snd [of srv su r st] run by (metis snd_conv surj_pair)
  with x show "api_step (srv_dp srv) st (call_of srv x) st'" by (auto simp: call_of_def intro: served)
qed

interpretation over_http: step_refinement "http_step srv" "api_step (srv_dp srv)" "call_of srv" for srv
  by unfold_locales (rule http_step_serves)

interpretation http: safe_system "http_step srv" fresh_start "\<lambda>st. api_inv (srv_dp srv) (pv_db st)" for srv
  by unfold_locales (rule api.start_safe, metis http_step_serves api.step_safe)

section \<open>Which requests may change anything\<close>

definition changing_paths :: "string list" where
  "changing_paths =
     [''/admin/api/users/create'', ''/admin/api/users/edit'', ''/admin/api/users/delete'', ''/admin/api/users/recreate'',
      ''/admin/api/nodes/save'', ''/admin/api/nodes/delete'', ''/admin/api/config/mihomo/save'',
      ''/admin/api/config/mihomo/custom/create'', ''/admin/api/config/mihomo/custom/delete'']"

lemma static_changing:
  assumes "map_of static_routes path = Some on_method" "on_method m = Handle op args" "carried lb r op \<noteq> None"
  shows "m = ''POST'' \<and> path \<in> set changing_paths"
proof -
  have "list_all (\<lambda>(p, on_method). \<forall>op args. on_method m = Handle op args \<longrightarrow> carried lb r op \<noteq> None \<longrightarrow>
      m = ''POST'' \<and> p \<in> set changing_paths) static_routes"
    by (auto simp: static_routes_def gets_def posts_def by_method_def carried_def changing_paths_def)
  with assms show ?thesis by (fastforce simp: list_all_iff dest!: map_of_SomeD)
qed

lemma pattern_changing: "pattern_route m path = Handle op args \<Longrightarrow> carried lb r op = None"
  by (auto simp: pattern_route_def gets_def by_method_def carried_def split: list.splits if_splits)

lemma route_changing:
  assumes "find_route m path = Handle op args" "carried lb r op \<noteq> None"
  shows "m = ''POST'' \<and> path \<in> set changing_paths"
proof -
  have root: "root_routes m path = Some (Handle op args)"
    using assms(1) by (auto simp: find_route_def split: option.splits)
  have "path \<noteq> ''/admin/api/''"
  proof
    assume "path = ''/admin/api/''"
    then have "Handle op args = gets AdminShellViewOperation [[]] m"
      using root by (simp add: root_routes_def admin_routes_def node_def view_routes_def leaf_param_def HasPrefix_def)
    with assms(2) show False by (auto simp: gets_def by_method_def carried_def split: if_splits)
  qed
  with root_routes_SomeD [OF root] have "follows m path (Handle op args)" by simp
  then show ?thesis
    using static_changing [of path _ m op args lb r] pattern_changing [of m path op args lb r] assms(2)
    by (fastforce simp: follows_def static_is_def split: option.splits)
qed

lemma decode_body_json:
  "decode_body lb r dec validate \<noteq> None \<Longrightarrow> ParseMediaType (rq_Header r ''Content-Type'') = Some ''application/json''"
  by (auto simp: decode_body_def split: option.splits if_splits)

lemma carried_json:
  assumes "carried lb r op \<noteq> None"
  shows "ParseMediaType (rq_Header r ''Content-Type'') = Some ''application/json''"
proof -
  show ?thesis using assms
    by (cases op)
       (auto simp: carried_def decodeConfigSaveRequest_def decodeCustomCreateRequest_def decodeCustomDeleteRequest_def
         decodeNodeDeleteRequest_def decodeNodeSaveRequest_def decodeUserCreateRequest_def decodeUserDeleteRequest_def
         decodeUserEditRequest_def decodeUserRecreateRequest_def intro: decode_body_json)
qed

section \<open>The status of every response\<close>

lemma error_response_status [simp]:
  "rs_Status (error_response SecurityError) = 401" "rs_Status (error_response DecodeParamsError) = 400"
  "rs_Status (error_response DecodeRequestError) = 400" "rs_Status (error_response HandlerError) = 500"
  by (simp_all add: error_response_def ErrorHandler_def isBadRequest_def)

lemmas page_encoders = encodeAdminShellResponse_def encodeAdminShellViewResponse_def encodeLoginPageResponse_def
  encodeLoginResponse_def encodeLogoutResponse_def encodeHealthzResponse_def encodeRulesResponse_def encodeSubResponse_def

lemmas reading_encoders = encodeConfigCustomsResponse_def encodeConfigGetResponse_def encodeConfigSchemaResponse_def
  encodeNodesGetResponse_def encodeUsersGetResponse_def encodeProviderCheckResponse_def

lemmas changing_encoders = encodeConfigSaveResponse_def encodeCustomCreateResponse_def encodeCustomDeleteResponse_def
  encodeNodeDeleteResponse_def encodeNodeSaveResponse_def encodeUserCreateResponse_def encodeUserDeleteResponse_def
  encodeUserEditResponse_def encodeUserRecreateResponse_def

lemmas response_parts = json_response_def message_def error_message_def html_page_def redirect_def plain_text_def

definition known_statuses :: "int set" where
  "known_statuses = {200, 204, 302, 400, 401, 404, 405, 409, 500}"

text \<open>An encoder of a changing operation: what is not a reply is answered with another status than 200.\<close>

definition plain_encoder :: "(string reply \<Rightarrow> http_response option) \<Rightarrow> bool" where
  "plain_encoder enc \<longleftrightarrow>
     (\<forall>res. rs_Status (answered enc res) \<in> known_statuses \<and>
        (res \<in> range Reply \<or> res = Failed \<longrightarrow> rs_Status (answered enc res) \<in> {200, 500}))"

lemma plain_encoders [simp]:
  "plain_encoder (encodeConfigSaveResponse lb)" "plain_encoder (encodeCustomCreateResponse lb)"
  "plain_encoder (encodeCustomDeleteResponse lb)" "plain_encoder (encodeNodeDeleteResponse lb)"
  "plain_encoder (encodeNodeSaveResponse lb)" "plain_encoder (encodeUserCreateResponse lb)"
  "plain_encoder (encodeUserDeleteResponse lb)" "plain_encoder (encodeUserEditResponse lb)"
  "plain_encoder (encodeUserRecreateResponse lb)"
  by (auto simp: plain_encoder_def answered_def or_internal_def changing_encoders response_parts known_statuses_def
      split: reply.split)

definition leaves_no_trace :: "surroundings \<Rightarrow> prov_state \<Rightarrow> prov_state \<Rightarrow> bool" where
  "leaves_no_trace su st st' \<longleftrightarrow>
     (pv_db st' = pv_db st \<or> pv_db st' = snd (EnsureBaseConfigID ''mihomo'' (now_of su) (pv_db st))) \<and> only_lists st st'"

definition sound_answer :: "surroundings \<Rightarrow> prov_state \<Rightarrow> http_response \<times> prov_state \<Rightarrow> bool" where
  "sound_answer su st x \<longleftrightarrow>
     rs_Status (fst x) \<in> known_statuses \<and> (rs_Status (fst x) \<notin> {200, 500} \<longrightarrow> leaves_no_trace su st (snd x))"

lemma same_leaves_no_trace [simp]: "leaves_no_trace su st st"
  by (simp add: leaves_no_trace_def only_lists_same)

lemma sound_same: "rs_Status w \<in> known_statuses \<Longrightarrow> sound_answer su st (w, st)"
  by (simp add: sound_answer_def)

lemma sound_session: "(admitted (dp_session (srv_dp srv)) (now_of su) (rq_Cookie r ''subgen_admin'') \<Longrightarrow> sound_answer su st (k st)) \<Longrightarrow>
    sound_answer su st (with_session srv su r k st)"
  by (simp add: with_session_eq sound_same known_statuses_def)

lemma sound_params: "(\<And>p. sound_answer su st (k p st)) \<Longrightarrow> sound_answer su st (with_params params k st)"
  by (simp add: with_params_def sound_same known_statuses_def split: option.split)

lemma sound_request: "(\<And>p. sound_answer su st (k p st)) \<Longrightarrow> sound_answer su st (with_request params k st)"
  by (simp add: with_request_def sound_same known_statuses_def split: option.split)

lemma sound_changing:
  assumes "store_inv (pv_db st)" "plain_encoder enc"
  shows "sound_answer su st (changing srv su enc req st)"
proof -
  obtain res st' where run: "handle (srv_dp srv) (su_env su) req st = (res, st')" by fastforce
  have "leaves_no_trace su st st'" if "rs_Status (answered enc res) \<notin> {200, 500}"
  proof -
    have "res \<notin> range Reply" "res \<noteq> Failed" using that assms(2) unfolding plain_encoder_def by blast+
    from handle_refused [OF run this assms(1)] show ?thesis
      by (simp add: leaves_no_trace_def ConfigKindMihomo_def now_of_def)
  qed
  with run assms(2) show ?thesis by (simp add: changing_def sound_answer_def plain_encoder_def)
qed

lemma sound_reading:
  assumes "rs_Status (answered enc (f (pv_db st))) \<in> known_statuses"
  shows "sound_answer su st (reading enc f st)"
  using assms by (simp add: reading_def sound_same)

lemma page_status [simp]:
  "rs_Status (or_internal (encodeAdminShellResponse lb page)) \<in> known_statuses"
  "rs_Status (or_internal (encodeAdminShellViewResponse lb page)) \<in> known_statuses"
  "rs_Status (or_internal (encodeLoginPageResponse lb page)) \<in> known_statuses"
  "rs_Status (or_internal (encodeLoginResponse lb login)) \<in> known_statuses"
  "rs_Status (or_internal (encodeLogoutResponse lb cookie)) \<in> known_statuses"
  "rs_Status (or_internal (encodeHealthzResponse body)) \<in> known_statuses"
  "rs_Status (or_internal (encodeRulesResponse lb rules)) \<in> known_statuses"
  "rs_Status (or_internal (encodeSubResponse lb sub)) \<in> known_statuses"
  by (auto simp: or_internal_def page_encoders response_parts known_statuses_def
      split: page_res.split login_res.split rules_res.split sub_res.split)

lemma reading_status [simp]:
  "rs_Status (answered (encodeConfigCustomsResponse lb) customs) \<in> known_statuses"
  "rs_Status (answered (encodeConfigGetResponse lb) config) \<in> known_statuses"
  "rs_Status (answered (encodeConfigSchemaResponse lb) schema) \<in> known_statuses"
  "rs_Status (answered (encodeNodesGetResponse lb) nodes) \<in> known_statuses"
  "rs_Status (answered (encodeUsersGetResponse lb) users) \<in> known_statuses"
  "rs_Status (answered (encodeProviderCheckResponse lb) probe) \<in> known_statuses"
  by (auto simp: answered_def or_internal_def reading_encoders response_parts known_statuses_def split: reply.split)

lemma probe_not_aborted [simp]: "ProviderCheck unmarshal parse_error quote web url format \<noteq> None"
  using probe_always_answers [where unmarshal = unmarshal and parse_error = parse_error and quote = quote and web = web and url = url
      and format = format] by (auto split: option.splits)

lemma dispatch_sound:
  assumes "store_inv (pv_db st)"
  shows "sound_answer su st (dispatch srv su r escaped op args st)"
proof -
  have "rs_Status (error_response HandlerError) \<in> known_statuses" by (simp add: known_statuses_def)
  then show ?thesis
    using assms
    by (cases op)
       (auto simp: dispatch_def page_handlers reading_handlers changing_handlers
         intro!: sound_session sound_params sound_request sound_changing sound_reading sound_same
         split: prod.split sum.split option.split)
qed

section \<open>The server answers as the API\<close>

definition changing_ops :: "operation list" where
  "changing_ops =
     [ConfigSaveOperation, CustomCreateOperation, CustomDeleteOperation, NodeDeleteOperation, NodeSaveOperation,
      UserCreateOperation, UserDeleteOperation, UserEditOperation, UserRecreateOperation]"

fun respond :: "libs \<Rightarrow> string answer \<Rightarrow> http_response" where
  "respond lb (Refused status msg) =
     \<lparr>rs_Status = status, rs_Header = [json_type], rs_Body = print_json (ErrorResponse_Encode msg) @ [CHR 0x0A]\<rparr>"
| "respond lb (Answered (Reply msg)) = message lb msg"
| "respond lb (Answered (BadRequest msg)) = error_message lb 400 msg"
| "respond lb (Answered (Conflict msg)) = error_message lb 409 msg"
| "respond lb (Answered _) = error_response HandlerError"

lemma respond_refuse: "respond lb (refuse e) = error_response e"
  by (simp add: refuse_def error_response_def split: prod.split)

definition may_conflict :: "api_req \<Rightarrow> bool" where
  "may_conflict req = (case req of SaveNode _ \<Rightarrow> True | NewUser _ \<Rightarrow> True | _ \<Rightarrow> False)"

text \<open>The types of the handlers' results, as the generated interfaces restrict them.\<close>

lemma handle_kind:
  assumes "handle dp en req st = (res, st')"
  shows "res \<noteq> NotFound" "res \<in> range Conflict \<Longrightarrow> may_conflict req"
  using assms
  by (cases req; auto simp: may_conflict_def on_db_pair NodeSave_def NodeDelete_def ConfigSave_def CustomCreate_def CustomDelete_def
      UserCreate_def UserEdit_def UserDelete_def UserRecreate_def mapErr_def Let_def
      split: sum.splits prod.splits option.splits if_splits entity_error.splits node_error.splits)+

text \<open>An encoder that answers what the API answers, conflicts only where the operation may have them.\<close>

definition answers_like_api :: "libs \<Rightarrow> bool \<Rightarrow> (string reply \<Rightarrow> http_response option) \<Rightarrow> bool" where
  "answers_like_api lb conflicts enc \<longleftrightarrow>
     (\<forall>res. res \<noteq> NotFound \<longrightarrow> res \<noteq> Failed \<longrightarrow> (res \<in> range Conflict \<longrightarrow> conflicts) \<longrightarrow>
        answered enc res = respond lb (Answered res))"

lemma encoders_answer_like_api [simp]:
  "answers_like_api lb False (encodeConfigSaveResponse lb)" "answers_like_api lb False (encodeCustomCreateResponse lb)"
  "answers_like_api lb False (encodeCustomDeleteResponse lb)" "answers_like_api lb False (encodeNodeDeleteResponse lb)"
  "answers_like_api lb True (encodeNodeSaveResponse lb)" "answers_like_api lb True (encodeUserCreateResponse lb)"
  "answers_like_api lb False (encodeUserDeleteResponse lb)" "answers_like_api lb False (encodeUserEditResponse lb)"
  "answers_like_api lb False (encodeUserRecreateResponse lb)"
  by (auto simp: answers_like_api_def answered_def or_internal_def changing_encoders split: reply.split)

lemma changing_responds:
  assumes enc: "answers_like_api lb (may_conflict req) enc"
    and call: "ac_body c = Some req" "ac_env c = su_env su"
      "admitted (dp_session (srv_dp srv)) (now_of su) (ac_cookie c)"
  shows "fst (changing srv su enc req st) = respond lb (fst (serve (srv_dp srv) c st))"
proof -
  obtain res st' where run: "handle (srv_dp srv) (su_env su) req st = (res, st')" by fastforce
  have "securityAdminSession (dp_session (srv_dp srv)) (en_now (ac_env c)) (ac_cookie c) = Inr True"
    using call by (simp add: securityAdminSession_iff now_of_def)
  then have "fst (serve (srv_dp srv) c st) = (if res = Failed then refuse HandlerError else Answered res)"
    using run call(1,2) by (auto simp: serve_def serve_secured_def split: reply.split)
  moreover have "answered enc res = respond lb (Answered res)" if "res \<noteq> Failed"
    using that enc handle_kind [OF run] unfolding answers_like_api_def by blast
  ultimately show ?thesis using run by (simp add: changing_def respond_refuse) (simp add: answered_def)
qed

lemma request_responds:
  assumes "c = \<lparr>ac_cookie = rq_Cookie r ''subgen_admin'', ac_body = map_option mk q, ac_env = su_env su\<rparr>"
    and "\<And>x. answers_like_api (srv_libs srv) (may_conflict (mk x)) enc"
  shows "fst (with_session srv su r (with_request q (\<lambda>x. changing srv su enc (mk x))) st) =
    respond (srv_libs srv) (fst (serve (srv_dp srv) c st))"
proof (cases "admitted (dp_session (srv_dp srv)) (now_of su) (rq_Cookie r ''subgen_admin'')")
  case False
  then have "serve (srv_dp srv) c st = (Refused 401 ''Authorization required'', st)"
    using assms(1) by (simp add: serve_def serve_refused now_of_def)
  with False show ?thesis by (simp add: with_session_eq error_response_def ErrorHandler_def)
next
  case True
  show ?thesis
  proof (cases q)
    case None
    have "securityAdminSession (dp_session (srv_dp srv)) (en_now (ac_env c)) (ac_cookie c) = Inr True"
      using True assms(1) by (simp add: securityAdminSession_iff now_of_def)
    then have "fst (serve (srv_dp srv) c st) = refuse DecodeRequestError"
      using None assms(1) by (simp add: serve_def serve_secured_def)
    with True None show ?thesis by (simp add: with_session_eq with_request_def respond_refuse)
  next
    case (Some x)
    have "fst (changing srv su enc (mk x) st) = respond (srv_libs srv) (fst (serve (srv_dp srv) c st))"
      using Some True assms(1) by (intro changing_responds [OF assms(2)]) simp_all
    with True Some show ?thesis by (simp add: with_session_eq with_request_def)
  qed
qed

lemma dispatch_responds:
  assumes "op \<in> set changing_ops"
    and "c = \<lparr>ac_cookie = rq_Cookie r ''subgen_admin'', ac_body = carried (srv_libs srv) r op, ac_env = su_env su\<rparr>"
  shows "fst (dispatch srv su r escaped op args st) = respond (srv_libs srv) (fst (serve (srv_dp srv) c st))"
proof (cases op)
qed (use assms in \<open>simp_all add: changing_ops_def dispatch_def changing_handlers carried_def request_responds may_conflict_def\<close>)

section \<open>Subscriptions\<close>

lemma Make_no_slash: "CHR ''/'' \<notin> set (Make hmac secret sid)"
proof -
  have "hex_digit n \<noteq> CHR ''/''" if "n < 16" for n
    using that by (auto simp: hex_digit_def numeral_eq_Suc less_Suc_eq)
  moreover have "of_char c div 16 < (16 :: nat)" "of_char c mod 16 < (16 :: nat)" for c :: char
    by (simp_all add: less_mult_imp_div_less)
  ultimately have "CHR ''/'' \<noteq> hex_digit (of_char c div 16)" "CHR ''/'' \<noteq> hex_digit (of_char c mod 16)" for c :: char
    by metis+
  then have "CHR ''/'' \<notin> set (hex_byte c)" for c by (simp add: hex_byte_def)
  then show ?thesis by (auto simp: Make_def EncodeToString_def dest: in_set_takeD)
qed

lemma sub_routed:
  assumes "CHR ''/'' \<notin> set kind" "CHR ''/'' \<notin> set token"
  shows "find_route m (''/sub/'' @ kind @ ''/'' @ token) = gets SubOperation [kind, token] m"
proof -
  have "takeWhile (\<lambda>c. c \<noteq> CHR ''/'') (kind @ CHR ''/'' # token) = kind" using assms by (subst takeWhile_append2) auto
  with assms show ?thesis by (simp add: find_route_def root_routes_def sub_routes_def leaf_param_def)
qed

end
