(* ===== verification/ConfigWire.thy ===== *)
theory ConfigWire
  imports OasJson GoJsonFacts
begin

text \<open>
  A saved configuration on the wire: the request decoder reads what the generated encoder wrote, and the
  handler's detour -- \<open>json.Marshal\<close> of the request, then \<open>json.Unmarshal\<close> into the DTO of
  \<open>internal/mihomo/decode.go\<close> -- gives back the configuration of the request.
\<close>

section \<open>The DTO as encoding/json reads it\<close>

definition into_ref :: "policyRefDTO dec" where
  "into_ref = into_struct
     [field_of ''kind'' into_string prd_Kind prd_Kind_update,
      field_of ''inboundId'' (into_ptr into_int 0) prd_InboundID prd_InboundID_update,
      field_of ''groupIdx'' (into_ptr into_int 0) prd_GroupIdx prd_GroupIdx_update]"

definition ref_zero :: policyRefDTO where
  "ref_zero = \<lparr>prd_Kind = [], prd_InboundID = None, prd_GroupIdx = None\<rparr>"

definition group_zero :: groupDTO where
  "group_zero = \<lparr>grd_Name = [], grd_Type = [], grd_URL = [], grd_Interval = None, grd_Tolerance = None, grd_Lazy = None,
     grd_Members = []\<rparr>"

definition provider_zero :: providerDTO where
  "provider_zero = \<lparr>pvd_Name = [], pvd_Behavior = [], pvd_Format = [], pvd_URL = [], pvd_Interval = 0, pvd_Mirror = False,
     pvd_MirrorInterval = 0\<rparr>"

definition into_group :: "groupDTO dec" where
  "into_group = into_struct
     [field_of ''name'' into_string grd_Name grd_Name_update,
      field_of ''type'' into_string grd_Type grd_Type_update,
      field_of ''url'' into_string grd_URL grd_URL_update,
      field_of ''interval'' (into_ptr into_int 0) grd_Interval grd_Interval_update,
      field_of ''tolerance'' (into_ptr into_int 0) grd_Tolerance grd_Tolerance_update,
      field_of ''lazy'' (into_ptr into_bool False) grd_Lazy grd_Lazy_update,
      field_of ''members'' (into_slice into_ref ref_zero) grd_Members grd_Members_update]"

definition into_provider :: "providerDTO dec" where
  "into_provider = into_struct
     [field_of ''name'' into_string pvd_Name pvd_Name_update,
      field_of ''behavior'' into_string pvd_Behavior pvd_Behavior_update,
      field_of ''format'' into_string pvd_Format pvd_Format_update,
      field_of ''url'' into_string pvd_URL pvd_URL_update,
      field_of ''interval'' into_int pvd_Interval pvd_Interval_update,
      field_of ''mirror'' into_bool pvd_Mirror pvd_Mirror_update,
      field_of ''mirrorInterval'' into_int pvd_MirrorInterval pvd_MirrorInterval_update]"

text \<open>
  A rule is a recursive struct: the fields of \<open>rule_scalars\<close> do not recurse, \<open>children\<close> is a slice of
  rules whose old elements are the old contents of the new ones.
\<close>

definition upd_rule ::
    "(string \<Rightarrow> string) \<Rightarrow> (string option \<Rightarrow> string option) \<Rightarrow> (int option \<Rightarrow> int option) \<Rightarrow> (bool option \<Rightarrow> bool option) \<Rightarrow>
     (policyRefDTO option \<Rightarrow> policyRefDTO option) \<Rightarrow> ruleDTO \<Rightarrow> ruleDTO" where
  "upd_rule f g h i j r =
     ruleDTO (f (rud_Type r)) (g (rud_Value r)) (h (rud_ProviderIdx r)) (i (rud_NoResolve r)) (j (rud_Target r)) (rud_Children r)"

definition rule_scalars :: "ruleDTO field list" where
  "rule_scalars =
     [field_of ''type'' into_string rud_Type (\<lambda>f. upd_rule f id id id id),
      field_of ''value'' (into_ptr into_string []) rud_Value (\<lambda>f. upd_rule id f id id id),
      field_of ''providerIdx'' (into_ptr into_int 0) rud_ProviderIdx (\<lambda>f. upd_rule id id f id id),
      field_of ''noResolve'' (into_ptr into_bool False) rud_NoResolve (\<lambda>f. upd_rule id id id f id),
      field_of ''target'' (into_ptr into_ref ref_zero) rud_Target (\<lambda>f. upd_rule id id id id f)]"

definition is_children :: "string \<Rightarrow> bool" where
  "is_children k \<longleftrightarrow>
     (case find_field (map (\<lambda>f. (fst f, \<lambda>_ _ (_::unit). None)) rule_scalars @ [(''children'', \<lambda>_ _ _. None)]) k of
        None \<Rightarrow> False | Some f \<Rightarrow> fst f = ''children'')"

definition store_scalar :: "string \<Rightarrow> string \<Rightarrow> json \<Rightarrow> ruleDTO \<Rightarrow> ruleDTO option" where
  "store_scalar k raw v r = (case find_field rule_scalars k of None \<Rightarrow> Some r | Some (_, store) \<Rightarrow> store raw v r)"

fun into_rule_members :: "(string \<times> string \<times> json) list \<Rightarrow> ruleDTO \<Rightarrow> ruleDTO option"
  and into_rules :: "json list \<Rightarrow> ruleDTO list \<Rightarrow> ruleDTO list option" where
  "into_rule_members [] r = Some r"
| "into_rule_members ((k, raw, JArr es) # ms) r =
     (if is_children k then Option.bind (into_rules es (rud_Children r)) (\<lambda>cs. into_rule_members ms (set_child cs r))
      else Option.bind (store_scalar k raw (JArr es) r) (into_rule_members ms))"
| "into_rule_members ((k, raw, JNull) # ms) r =
     (if is_children k then into_rule_members ms (set_child [] r)
      else Option.bind (store_scalar k raw JNull r) (into_rule_members ms))"
| "into_rule_members ((k, raw, v) # ms) r =
     (if is_children k then None else Option.bind (store_scalar k raw v r) (into_rule_members ms))"
| "into_rules [] old = Some []"
| "into_rules (JObj ms # es) old =
     Option.bind (into_rule_members ms (case old of [] \<Rightarrow> rule_zero | r # _ \<Rightarrow> r)) (\<lambda>r.
       map_option ((#) r) (into_rules es (drop 1 old)))"
| "into_rules (JNull # es) old =
     map_option ((#) (case old of [] \<Rightarrow> rule_zero | r # _ \<Rightarrow> r)) (into_rules es (drop 1 old))"
| "into_rules (_ # es) old = None"

definition into_rule_slice :: "ruleDTO list dec" where
  "into_rule_slice j old = (case j of JNull \<Rightarrow> Some [] | JArr es \<Rightarrow> into_rules es old | _ \<Rightarrow> None)"

definition into_config :: "configDTO dec" where
  "into_config = into_struct
     [field_of ''baseYAML'' into_string cfd_BaseYAML cfd_BaseYAML_update,
      field_of ''groups'' (into_slice into_group group_zero) cfd_Groups cfd_Groups_update,
      field_of ''rules'' into_rule_slice cfd_Rules cfd_Rules_update,
      field_of ''providers'' (into_slice into_provider provider_zero) cfd_Providers cfd_Providers_update,
      field_of ''profileTitle'' into_string cfd_ProfileTitle cfd_ProfileTitle_update,
      field_of ''filename'' into_string cfd_Filename cfd_Filename_update,
      field_of ''profileUpdateInterval'' into_int cfd_ProfileUpdateInterval cfd_ProfileUpdateInterval_update]"

text \<open>
  \<open>json.Marshal(req)\<close> prints with the generated \<open>MarshalJSON\<close>, a print of \<open>ConfigSaveReq_Encode\<close>
  whose bytes are jx's and \<open>encoding/json\<close>'s choice: \<open>print\<close>, with an error for a tree nested too
  deep. \<open>json.Unmarshal\<close> parses the text into an empty DTO.
\<close>

definition marshal_request :: "(jval \<Rightarrow> string option) \<Rightarrow> ConfigSaveReq \<Rightarrow> unit + string" where
  "marshal_request print req = (case print (ConfigSaveReq_Encode req) of None \<Rightarrow> Inl () | Some s \<Rightarrow> Inr s)"

definition unmarshal_config :: "string \<Rightarrow> unit + configDTO" where
  "unmarshal_config raw = (case Unmarshal into_config raw empty_view of None \<Rightarrow> Inl () | Some c \<Rightarrow> Inr c)"

section \<open>What comes back unchanged\<close>

text \<open>Texts that are UTF-8, numbers of 64 bits.\<close>

definition text_ok :: "string \<Rightarrow> bool" where "text_ok s \<longleftrightarrow> to_utf8 s = s"

definition ref_wire_ok :: "policyRefDTO \<Rightarrow> bool" where
  "ref_wire_ok r \<longleftrightarrow> text_ok (prd_Kind r) \<and> pred_option int64_range (prd_InboundID r) \<and> pred_option int64_range (prd_GroupIdx r)"

fun rule_wire_ok :: "ruleDTO \<Rightarrow> bool" where
  "rule_wire_ok (ruleDTO ty val pidx nores tgt children) \<longleftrightarrow>
     text_ok ty \<and> pred_option text_ok val \<and> pred_option int64_range pidx \<and> pred_option ref_wire_ok tgt \<and>
     (\<forall>c \<in> set children. rule_wire_ok c)"

definition group_wire_ok :: "groupDTO \<Rightarrow> bool" where
  "group_wire_ok g \<longleftrightarrow> text_ok (grd_Name g) \<and> text_ok (grd_Type g) \<and> text_ok (grd_URL g) \<and>
     pred_option int64_range (grd_Interval g) \<and> pred_option int64_range (grd_Tolerance g) \<and>
     (\<forall>m \<in> set (grd_Members g). ref_wire_ok m)"

definition provider_wire_ok :: "providerDTO \<Rightarrow> bool" where
  "provider_wire_ok p \<longleftrightarrow> text_ok (pvd_Name p) \<and> text_ok (pvd_Behavior p) \<and> text_ok (pvd_Format p) \<and>
     text_ok (pvd_URL p) \<and> int64_range (pvd_Interval p) \<and> int64_range (pvd_MirrorInterval p)"

definition config_wire_ok :: "configDTO \<Rightarrow> bool" where
  "config_wire_ok c \<longleftrightarrow> text_ok (cfd_BaseYAML c) \<and> text_ok (cfd_ProfileTitle c) \<and> text_ok (cfd_Filename c) \<and>
     int64_range (cfd_ProfileUpdateInterval c) \<and> (\<forall>g \<in> set (cfd_Groups c). group_wire_ok g) \<and>
     (\<forall>r \<in> set (cfd_Rules c). rule_wire_ok r) \<and> (\<forall>p \<in> set (cfd_Providers c). provider_wire_ok p)"

section \<open>Trees of printed values\<close>

text \<open>
  A tree reads a value when it is the tree of some text that prints the value, whatever the source text
  of the members.
\<close>

fun reads :: "jval \<Rightarrow> json \<Rightarrow> bool" where
  "reads (VBool b) j \<longleftrightarrow> j = JBool b"
| "reads (VInt i) j \<longleftrightarrow> j = JNum (Itoa i)"
| "reads (VStr s) j \<longleftrightarrow> j = JStr (to_utf8 s)"
| "reads (VArr vs) j \<longleftrightarrow> (\<exists>js. j = JArr js \<and> list_all2 reads vs js)"
| "reads (VObj ms) j \<longleftrightarrow> (\<exists>js. j = JObj js \<and> list_all2 (\<lambda>(k, v) (k', _, w). k' = to_utf8 k \<and> reads v w) ms js)"

lemma reads_tree: "reads v (tree v)"
  by (induction v) (auto simp: list.rel_map list_all2_same)

declare to_utf8.simps [simp del]

lemma config_keys [simp]:
  "to_utf8 ''baseYAML'' = ''baseYAML''"
  "to_utf8 ''behavior'' = ''behavior''"
  "to_utf8 ''children'' = ''children''"
  "to_utf8 ''filename'' = ''filename''"
  "to_utf8 ''format'' = ''format''"
  "to_utf8 ''groupIdx'' = ''groupIdx''"
  "to_utf8 ''groups'' = ''groups''"
  "to_utf8 ''inboundId'' = ''inboundId''"
  "to_utf8 ''interval'' = ''interval''"
  "to_utf8 ''kind'' = ''kind''"
  "to_utf8 ''lazy'' = ''lazy''"
  "to_utf8 ''members'' = ''members''"
  "to_utf8 ''mirror'' = ''mirror''"
  "to_utf8 ''mirrorInterval'' = ''mirrorInterval''"
  "to_utf8 ''name'' = ''name''"
  "to_utf8 ''noResolve'' = ''noResolve''"
  "to_utf8 ''profileTitle'' = ''profileTitle''"
  "to_utf8 ''profileUpdateInterval'' = ''profileUpdateInterval''"
  "to_utf8 ''providerIdx'' = ''providerIdx''"
  "to_utf8 ''providers'' = ''providers''"
  "to_utf8 ''rules'' = ''rules''"
  "to_utf8 ''target'' = ''target''"
  "to_utf8 ''tolerance'' = ''tolerance''"
  "to_utf8 ''type'' = ''type''"
  "to_utf8 ''url'' = ''url''"
  "to_utf8 ''userId'' = ''userId''"
  "to_utf8 ''value'' = ''value''"
  by code_simp+

lemma jx_Int_Itoa [simp]: "int64_range i \<Longrightarrow> jx_Int (JNum (Itoa i)) = Some i"
  by (simp add: jx_Int_def int64_range_def ParseInt_Itoa)

lemma jx_Str_Str [simp]: "jx_Str (JStr s) = Some s" by (simp add: jx_Str_def)
lemma jx_Bool_Bool [simp]: "jx_Bool (JBool s) = Some s" by (simp add: jx_Bool_def)

lemma reads_Obj: "reads (VObj ms) j \<Longrightarrow> (\<And>js. j = JObj js \<Longrightarrow> list_all2 (\<lambda>(k, v) (k', _, w). k' = to_utf8 k \<and> reads v w) ms js \<Longrightarrow> P) \<Longrightarrow> P"
  by auto

lemmas jx_simps = opt_field_def jx_Obj_def member_def opt_member_def text_ok_def list_all2_Cons1


lemma jx_Arr_reads:
  assumes "list_all2 reads (map enc xs) js" "\<And>x j. x \<in> set xs \<Longrightarrow> reads (enc x) j \<Longrightarrow> dec j = Some x"
  shows "jx_Arr dec (JArr js) = Some xs"
proof -
  have "those (map dec js) = Some xs" using assms
  proof (induction xs arbitrary: js)
    case (Cons x xs)
    then obtain z zs where "js = z # zs" "reads (enc x) z" "list_all2 reads (map enc xs) zs"
      by (auto simp: list_all2_Cons1)
    moreover have "dec z = Some x" using Cons.prems(2) [of x z] calculation by simp
    moreover have "those (map dec zs) = Some xs" using Cons.IH [of zs] Cons.prems(2) calculation by simp
    ultimately show ?case by simp
  qed simp
  then show ?thesis by (simp add: jx_Arr_def)
qed

lemma into_slice_reads:
  assumes "list_all2 reads (map enc xs) js" "\<And>x j. x \<in> set xs \<Longrightarrow> reads (enc x) j \<Longrightarrow> d j zero = Some x"
  shows "into_slice d zero (JArr js) [] = Some xs"
proof -
  have "jx_Arr (\<lambda>e. d e zero) (JArr js) = Some xs" using assms by (rule jx_Arr_reads)
  then have "those (map (\<lambda>e. d e zero) js) = Some xs" by (simp add: jx_Arr_def)
  moreover have "map (\<lambda>(i, e). d e zero) (enumerate 0 js) = map (\<lambda>e. d e zero) js"
    by (subst (2) map_snd_enumerate [of 0 js, symmetric]) (simp add: o_def split_beta del: map_snd_enumerate)
  ultimately show ?thesis by (simp add: into_slice_def)
qed

lemma into_int_Itoa [simp]: "int64_range i \<Longrightarrow> into_int (JNum (Itoa i)) old = Some i"
  by (simp add: into_int_def int64_range_def ParseInt_Itoa)

lemmas into_simps = into_struct_def find_field_def field_of_def into_ptr_def into_string_def into_bool_def

section \<open>References, groups and providers\<close>

lemma ref_reads:
  assumes "reads (PolicyRef_Encode r) j" "ref_wire_ok r"
  shows "PolicyRef_Decode j = Some r" "into_ref j ref_zero = Some r" "j \<noteq> JNull"
proof -
  obtain k i g where r: "r = \<lparr>prd_Kind = k, prd_InboundID = i, prd_GroupIdx = g\<rparr>" by (cases r)
  show "PolicyRef_Decode j = Some r" using assms unfolding r
    by (cases i; cases g; clarsimp simp: PolicyRef_Encode_def PolicyRef_Decode_def jx_simps ref_wire_ok_def)
  show "into_ref j ref_zero = Some r" using assms unfolding r
    by (cases i; cases g;
        clarsimp simp: PolicyRef_Encode_def into_ref_def ref_zero_def jx_simps into_simps ref_wire_ok_def)
  show "j \<noteq> JNull" using assms(1) by (auto simp: PolicyRef_Encode_def)
qed

lemma group_reads:
  assumes "reads (MihomoGroup_Encode g) j" "group_wire_ok g"
  shows "MihomoGroup_Decode j = Some g" "into_group j group_zero = Some g"
proof -
  obtain n t u i tol l ms where g: "g = \<lparr>grd_Name = n, grd_Type = t, grd_URL = u, grd_Interval = i, grd_Tolerance = tol,
      grd_Lazy = l, grd_Members = ms\<rparr>" by (cases g)
  have members: "jx_Arr PolicyRef_Decode (JArr js) = Some ms" "into_slice into_ref ref_zero (JArr js) [] = Some ms"
    if "list_all2 reads (map PolicyRef_Encode ms) js" for js
    using that assms(2) by (auto simp: g group_wire_ok_def intro!: jx_Arr_reads into_slice_reads ref_reads)
  show "MihomoGroup_Decode j = Some g" using assms unfolding g
    by (cases i; cases tol; cases l;
        clarsimp simp: MihomoGroup_Encode_def MihomoGroup_Decode_def jx_simps group_wire_ok_def members)
  show "into_group j group_zero = Some g" using assms unfolding g
    by (cases i; cases tol; cases l;
        clarsimp simp: MihomoGroup_Encode_def into_group_def group_zero_def jx_simps into_simps group_wire_ok_def members)
qed

lemma provider_reads:
  assumes "reads (MihomoProvider_Encode p) j" "provider_wire_ok p"
  shows "MihomoProvider_Decode j = Some p" "into_provider j provider_zero = Some p"
proof -
  obtain n b f u i m mi where p: "p = \<lparr>pvd_Name = n, pvd_Behavior = b, pvd_Format = f, pvd_URL = u, pvd_Interval = i,
      pvd_Mirror = m, pvd_MirrorInterval = mi\<rparr>" by (cases p)
  show "MihomoProvider_Decode j = Some p" using assms unfolding p
    by (clarsimp simp: MihomoProvider_Encode_def MihomoProvider_Decode_def jx_simps provider_wire_ok_def)
  show "into_provider j provider_zero = Some p" using assms unfolding p
    by (clarsimp simp: MihomoProvider_Encode_def into_provider_def provider_zero_def jx_simps into_simps provider_wire_ok_def)
qed

section \<open>Rules\<close>

lemma children_key [simp]:
  "is_children ''children''" "\<not> is_children ''type''" "\<not> is_children ''value''" "\<not> is_children ''providerIdx''"
  "\<not> is_children ''noResolve''" "\<not> is_children ''target''"
  by (simp_all add: is_children_def find_field_def rule_scalars_def field_of_def)

lemma store_type [simp]: "store_scalar ''type'' raw (JStr s) r = Some (upd_rule (\<lambda>_. s) id id id id r)"
  and store_value [simp]: "store_scalar ''value'' raw (JStr s) r = Some (upd_rule id (\<lambda>_. Some s) id id id r)"
  and store_pidx [simp]: "int64_range i \<Longrightarrow> store_scalar ''providerIdx'' raw (JNum (Itoa i)) r = Some (upd_rule id id (\<lambda>_. Some i) id id r)"
  and store_nores [simp]: "store_scalar ''noResolve'' raw (JBool b) r = Some (upd_rule id id id (\<lambda>_. Some b) id r)"
  by (simp_all add: store_scalar_def find_field_def rule_scalars_def field_of_def into_ptr_def into_string_def into_bool_def)

lemma store_target [simp]:
  "reads (PolicyRef_Encode t) j \<Longrightarrow> ref_wire_ok t \<Longrightarrow> rud_Target r = None \<Longrightarrow>
   store_scalar ''target'' raw j r = Some (upd_rule id id id id (\<lambda>_. Some t) r)"
  using ref_reads [of t j]
  by (cases j) (simp_all add: store_scalar_def find_field_def rule_scalars_def field_of_def into_ptr_def)


lemma rule_scalar_simps [simp]:
  "rule_scalar ''type'' (JStr s) r = Some (upd_rule (\<lambda>_. s) id id id id r)"
  "rule_scalar ''value'' (JStr s) r = Some (upd_rule id (\<lambda>_. Some s) id id id r)"
  "int64_range i \<Longrightarrow> rule_scalar ''providerIdx'' (JNum (Itoa i)) r = Some (upd_rule id id (\<lambda>_. Some i) id id r)"
  "rule_scalar ''noResolve'' (JBool b) r = Some (upd_rule id id id (\<lambda>_. Some b) id r)"
  "reads (PolicyRef_Encode t) j \<Longrightarrow> ref_wire_ok t \<Longrightarrow>
     rule_scalar ''target'' j r = Some (upd_rule id id id id (\<lambda>_. Some t) r)"
  by (cases r; simp add: rule_scalar_def upd_rule_def ref_reads)+

text \<open>One member of a rule that is not \<open>children\<close>.\<close>

lemma rule_members_scalar:
  assumes "k \<noteq> ''children''"
  shows "rule_members ((k, raw, v) # ms) r = Option.bind (rule_scalar k v r) (rule_members ms)"
  using assms by (cases v) simp_all

lemma into_members_scalar:
  assumes "\<not> is_children k"
  shows "into_rule_members ((k, raw, v) # ms) r = Option.bind (store_scalar k raw v r) (into_rule_members ms)"
  using assms by (cases v) simp_all

lemma rule_reads:
  "reads (MihomoRule_Encode r) j \<Longrightarrow> rule_wire_ok r \<Longrightarrow>
    (\<exists>ms. j = JObj ms \<and> ''type'' \<in> fst ` set ms \<and> rule_members ms rule_zero = Some r \<and> into_rule_members ms rule_zero = Some r)"
proof (induction r arbitrary: j)
  case (ruleDTO ty val pidx nores tgt children)
  have elems: "rule_elems js = Some cs \<and> into_rules js [] = Some cs"
    if "list_all2 reads (map MihomoRule_Encode cs) js" "set cs \<subseteq> set children" for cs js
    using that
  proof (induction cs arbitrary: js)
    case (Cons c cs)
    then obtain z zs where js: "js = z # zs" "reads (MihomoRule_Encode c) z" "list_all2 reads (map MihomoRule_Encode cs) zs"
      by (auto simp: list_all2_Cons1)
    moreover have "c \<in> set children" "rule_wire_ok c" using Cons.prems(2) ruleDTO.prems(2) by auto
    ultimately obtain ms where "z = JObj ms" "''type'' \<in> fst ` set ms" "rule_members ms rule_zero = Some c"
      "into_rule_members ms rule_zero = Some c"
      using ruleDTO.IH [of c z] by blast
    with js Cons.IH [of zs] Cons.prems(2) show ?case by simp
  qed simp
  show ?case using ruleDTO.prems
    by (cases val; cases pidx; cases nores; cases tgt; cases "children = []")
       (clarsimp simp: opt_field_def list_all2_Cons1 text_ok_def rule_members_scalar into_members_scalar elems
         upd_rule_def set_child_def rule_zero_def)+
qed

lemma rules_read:
  assumes "list_all2 reads (map MihomoRule_Encode rs) js" "\<forall>r \<in> set rs. rule_wire_ok r"
  shows "jx_Arr MihomoRule_Decode (JArr js) = Some rs" "into_rule_slice (JArr js) [] = Some rs"
proof -
  show "jx_Arr MihomoRule_Decode (JArr js) = Some rs"
    using assms(1)
  proof (rule jx_Arr_reads)
    fix r j assume "r \<in> set rs" "reads (MihomoRule_Encode r) j"
    then obtain ms where "j = JObj ms" "''type'' \<in> fst ` set ms" "rule_members ms rule_zero = Some r"
      using rule_reads [of r j] assms(2) by blast
    then show "MihomoRule_Decode j = Some r" by (simp add: MihomoRule_Decode_def)
  qed
  have "into_rules js [] = Some rs" using assms
  proof (induction rs arbitrary: js)
    case (Cons r rs)
    then obtain z zs where js: "js = z # zs" "reads (MihomoRule_Encode r) z" "list_all2 reads (map MihomoRule_Encode rs) zs"
      by (auto simp: list_all2_Cons1)
    then obtain ms where "z = JObj ms" "into_rule_members ms rule_zero = Some r"
      using rule_reads [of r z] Cons.prems(2) by auto
    with js Cons.IH [of zs] Cons.prems(2) show ?case by simp
  qed simp
  then show "into_rule_slice (JArr js) [] = Some rs" by (simp add: into_rule_slice_def)
qed

section \<open>The whole configuration\<close>

lemma user_key: "find_field [(''baseYAML'', a), (''groups'', b), (''rules'', c), (''providers'', d), (''profileTitle'', e),
    (''filename'', f), (''profileUpdateInterval'', g)] ''userId'' = None"
  by (simp add: find_field_def lower_char_def char_class_defs)

lemma config_reads:
  assumes "reads (ConfigSaveReq_Encode req) j" "config_wire_ok (csr_Config req)" "pred_option int64_range (csr_UserId req)"
  shows "ConfigSaveReq_Decode j = Some req" "into_config j empty_view = Some (csr_Config req)"
proof -
  obtain y gs rs ps t f i u where req: "req = \<lparr>csr_Config = \<lparr>cfd_BaseYAML = y, cfd_Groups = gs, cfd_Rules = rs,
      cfd_Providers = ps, cfd_ProfileTitle = t, cfd_Filename = f, cfd_ProfileUpdateInterval = i\<rparr>, csr_UserId = u\<rparr>"
    by (cases req) (metis configDTO.cases)
  have groups: "jx_Arr MihomoGroup_Decode (JArr js) = Some gs" "into_slice into_group group_zero (JArr js) [] = Some gs"
    if "list_all2 reads (map MihomoGroup_Encode gs) js" for js
    using that assms(2) by (auto simp: req config_wire_ok_def intro!: jx_Arr_reads into_slice_reads group_reads)
  have providers: "jx_Arr MihomoProvider_Decode (JArr js) = Some ps"
      "into_slice into_provider provider_zero (JArr js) [] = Some ps"
    if "list_all2 reads (map MihomoProvider_Encode ps) js" for js
    using that assms(2) by (auto simp: req config_wire_ok_def intro!: jx_Arr_reads into_slice_reads provider_reads)
  have rules: "jx_Arr MihomoRule_Decode (JArr js) = Some rs" "into_rule_slice (JArr js) [] = Some rs"
    if "list_all2 reads (map MihomoRule_Encode rs) js" for js
    using rules_read [OF that] assms(2) by (simp_all add: req config_wire_ok_def)
  show "ConfigSaveReq_Decode j = Some req" using assms unfolding req
    by (cases u; clarsimp simp: ConfigSaveReq_Encode_def MihomoConfig_fields_def ConfigSaveReq_Decode_def jx_simps
        config_wire_ok_def empty_view_def groups rules providers)
  show "into_config j empty_view = Some (csr_Config req)" using assms unfolding req
    by (cases u; clarsimp simp: ConfigSaveReq_Encode_def MihomoConfig_fields_def into_config_def jx_simps
        config_wire_ok_def empty_view_def groups rules providers into_struct_def field_of_def user_key)
       (simp_all add: find_field_def into_string_def groups rules providers)
qed

section \<open>Both ways\<close>

text \<open>
  C38: A configuration survives the wire: what the encoder writes of a save request (texts in UTF-8, 64-bit
  numbers) the request decoder of the server reads back unchanged, user included, and the handler's
  detour through \<open>encoding/json\<close> hands exactly the draft of that configuration to the validators. Assumed
  is that jx and \<open>encoding/json\<close> parse what was printed.
\<close>

theorem config_survives_wire:
  assumes "config_wire_ok (csr_Config req)" "pred_option int64_range (csr_UserId req)"
    and "jx_parse body = Some j" "reads (ConfigSaveReq_Encode req) j"
    and "print (ConfigSaveReq_Encode req) = Some raw" "json_parse raw = Some j'" "reads (ConfigSaveReq_Encode req) j'"
  shows "Option.bind (jx_parse body) ConfigSaveReq_Decode = Some req \<and>
    bind_err (marshal_request print req) (DecodeConfig unmarshal_config) = Inr (draftFromDTO (csr_Config req))"
  using assms(3,5,6) config_reads [OF assms(4,1,2)] config_reads [OF assms(7,1,2)]
  by (simp add: marshal_request_def unmarshal_config_def DecodeConfig_def Unmarshal_def)

lemma text_ascii: "list_all is_ascii s \<Longrightarrow> text_ok s"
  by (simp add: text_ok_def to_utf8_valid ascii_valid)

definition wire_config :: configDTO where
  "wire_config = \<lparr>cfd_BaseYAML = ''mode: rule'', cfd_Groups = [\<lparr>grd_Name = ''g'', grd_Type = ''select'', grd_URL = [],
       grd_Interval = None, grd_Tolerance = None, grd_Lazy = Some True,
       grd_Members = [\<lparr>prd_Kind = ''direct'', prd_InboundID = None, prd_GroupIdx = None\<rparr>]\<rparr>],
     cfd_Rules = [ruleDTO ''AND'' None None None (Some \<lparr>prd_Kind = ''group'', prd_InboundID = None, prd_GroupIdx = Some 0\<rparr>)
       [ruleDTO ''NETWORK'' (Some ''udp'') None None None [], ruleDTO ''DST-PORT'' (Some ''443'') None None None []]],
     cfd_Providers = [], cfd_ProfileTitle = ''t'', cfd_Filename = ''f'', cfd_ProfileUpdateInterval = 12\<rparr>"

theorem config_survives_wire_witness:
  "Option.bind (json_parse (print_json (ConfigSaveReq_Encode \<lparr>csr_Config = wire_config, csr_UserId = Some 7\<rparr>))) ConfigSaveReq_Decode
     = Some \<lparr>csr_Config = wire_config, csr_UserId = Some 7\<rparr> \<and>
   bind_err (marshal_request (Some \<circ> print_json) \<lparr>csr_Config = wire_config, csr_UserId = Some 7\<rparr>) (DecodeConfig unmarshal_config)
     = Inr (draftFromDTO wire_config)"
proof -
  let ?req = "\<lparr>csr_Config = wire_config, csr_UserId = Some 7\<rparr>"
  let ?v = "ConfigSaveReq_Encode ?req"
  have "nests max_depth ?v"
    by (simp add: ConfigSaveReq_Encode_def MihomoConfig_fields_def MihomoGroup_Encode_def PolicyRef_Encode_def
        wire_config_def opt_field_def max_depth_def)
  then have parsed: "json_parse (print_json ?v) = Some (tree ?v)" by (rule json_parse_print)
  have "config_wire_ok (csr_Config ?req)"
    by (simp add: wire_config_def config_wire_ok_def group_wire_ok_def ref_wire_ok_def text_ascii is_ascii_def
        int64_range_def max_int64_def)
  moreover have "pred_option int64_range (csr_UserId ?req)" by (simp add: int64_range_def max_int64_def)
  ultimately show ?thesis
    using config_survives_wire [where req = ?req and jx_parse = json_parse and print = "Some \<circ> print_json",
        OF _ _ parsed reads_tree _ parsed reads_tree] by simp
qed

end
