(* ===== verification/OasServerProperties.thy ===== *)
theory OasServerProperties
  imports OasServerFacts ConfigWire ConfigApi
begin

text \<open>
  What holds of the HTTP server: it refines the API, only signed requests change anything, refusals
  leave no trace, signing in works for twelve hours, a saved configuration is read back, and every
  subscription is served.
\<close>

section \<open>The properties\<close>

text \<open>
  C3: The server refines the API: whatever the request, the state after it is that of the API call it
  carries (none, when it is routed to another operation or its body does not decode), and a request
  for a changing operation is answered as that call: the refusals of the error handler, a 200 with the
  message, a 400 or 409 with the error message. No result falls through the generated encoders.
\<close>
theorem server_refines_api:
  "snd (ServeHTTP srv su r st) = snd (serve (srv_dp srv) (call_of srv (su, r)) st) \<and>
   (\<forall>op args. routed (srv_libs srv) r = Handle op args \<longrightarrow> op \<in> set changing_ops \<longrightarrow>
      fst (ServeHTTP srv su r st) = respond (srv_libs srv) (fst (serve (srv_dp srv) (call_of srv (su, r)) st)))"
proof (intro conjI allI impI)
  fix op args assume "routed (srv_libs srv) r = Handle op args" "op \<in> set changing_ops"
  then show "fst (ServeHTTP srv su r st) = respond (srv_libs srv) (fst (serve (srv_dp srv) (call_of srv (su, r)) st))"
    by (simp add: ServeHTTP_routed call_of_def dispatch_responds)
qed (rule ServeHTTP_snd)


text \<open>
  C9: No failure is silent and no refusal leaves a trace: every response of the server has one of nine
  statuses, and unless it is 200 or 500 the database is exactly as before, or has at most gained the
  row of a base configuration that did not exist, and no panel was asked to add or delete a client.
\<close>
theorem refusals_leave_no_trace:
  assumes "store_inv (pv_db st)" and "ServeHTTP srv su r st = (w, st')"
  shows "rs_Status w \<in> {200, 204, 302, 400, 401, 404, 405, 409, 500} \<and>
    (rs_Status w \<notin> {200, 500} \<longrightarrow>
      (pv_db st' = pv_db st \<or> pv_db st' = snd (EnsureBaseConfigID ''mihomo'' (en_now (su_env su)) (pv_db st))) \<and>
      (\<exists>new. pv_calls st' = pv_calls st @ new \<and> (\<forall>x \<in> set new. \<exists>t. x = ListCall t)))"
proof -
  have "sound_answer su st (ServeHTTP srv su r st)"
    using dispatch_sound [OF assms(1)]
    by (auto simp: ServeHTTP_routed notFound_def notAllowed_def Let_def known_statuses_def intro!: sound_same split: route.split)
  with assms(2) show ?thesis
    by (simp add: sound_answer_def known_statuses_def leaves_no_trace_def only_lists_def now_of_def)
qed

text \<open>
  C1: The subscription of every user is served over HTTP: after any sequence of HTTP requests to a server that
  started with an empty database, a GET of \<open>/sub/mihomo/\<close> and the user's token is answered 200, as YAML,
  with the printed document that is rendered without a logged error from the configuration in effect,
  and changes nothing. Assumed is that not every panel is down, the document prints, tokens of different
  users differ, and ogen decodes the two path segments to themselves.
\<close>
theorem http_subscription_served:
  assumes "runs (http_step srv) fresh_start reqs st" and "r \<in> set (db_users (pv_db st))"
    and "\<forall>m. length (hmac secret m) = 32" and "dp_session (srv_dp srv) = \<lparr>se_hmac = hmac, se_secret = secret\<rparr>"
    and "\<forall>q \<in> set (db_users (pv_db st)). Make hmac secret (ur_sub q) = Make hmac secret (ur_sub r) \<longrightarrow> ur_sub q = ur_sub r"
    and "fleet_of srv su (pv_db st) = Inr fl" and "\<forall>doc. \<exists>body. srv_marshal srv doc = Inr body"
    and "rq_Method q = ''GET''" "rq_Path q = ''/sub/mihomo/'' @ Make hmac secret (ur_sub r)" "rq_RawPath q = []"
    and "\<forall>v \<in> {''mihomo'', Make hmac secret (ur_sub r)}. lb_path (srv_libs srv) v = Some v"
  shows "\<exists>rules doc body w. Rules (configID (ur_id r) ''mihomo'' (pv_db st)) (pv_db st) = Some rules \<and>
    render_document (dp_yaml (srv_dp srv)) (served_subscriber fl (ur_sub r))
      (stored_options (configID (ur_id r) ''mihomo'' (pv_db st)) (pv_db st) rules (srv_publicBase srv)) = Inr (doc, []) \<and>
    srv_marshal srv doc = Inr body \<and>
    ServeHTTP srv su q st = (w, st) \<and> rs_Status w = 200 \<and> map_of (rs_Header w) ''Content-Type'' = Some ''text/yaml'' \<and>
    rs_Body w = body"
proof -
  let ?token = "Make hmac secret (ur_sub r)"
  obtain rules doc body h where served: "Rules (configID (ur_id r) ''mihomo'' (pv_db st)) (pv_db st) = Some rules"
      "render_document (dp_yaml (srv_dp srv)) (served_subscriber fl (ur_sub r))
        (stored_options (configID (ur_id r) ''mihomo'' (pv_db st)) (pv_db st) rules (srv_publicBase srv)) = Inr (doc, [])"
      "srv_marshal srv doc = Inr body"
      "Sub hmac (srv_quote srv) (engines (dp_yaml (srv_dp srv)) (srv_marshal srv) (srv_publicBase srv)) secret
        (fleet_of srv su (pv_db st)) ''mihomo'' ?token (pv_db st) = Inr (SubOK h)" "sh_Response h = body"
    using reachable_subscriptions_render [OF over_http.runs_refine [OF assms(1)] assms(2,3,5) assms(6) [unfolded fleet_of_def] assms(7)]
    unfolding fleet_of_def by blast
  have "routed (srv_libs srv) q = Handle SubOperation [''mihomo'', ?token]"
    using sub_routed [of "''mihomo''" ?token] Make_no_slash assms(8-10)
    by (simp add: routed_def request_elem_def gets_def by_method_def)
  moreover have "length ?token = 24" using assms(3) length_Make by blast
  then have "?token \<noteq> []" by auto
  then have "decodeSubParams (srv_libs srv) False ''mihomo'' ?token = Some (''mihomo'', ?token)"
    using assms(11) by (simp add: decodeSubParams_def path_param_def)
  ultimately show ?thesis
    using served assms(4,8-10)
    by (simp add: ServeHTTP_routed request_elem_def dispatch_def handleSubRequest_def with_params_def or_internal_def encodeSubResponse_def)
qed

section \<open>Signing in over HTTP\<close>

definition cookie_safe :: "char \<Rightarrow> bool" where
  "cookie_safe c \<longleftrightarrow> CHR 0x20 < c \<and> c < CHR 0x7F \<and> c \<notin> set '';,'' \<and> c \<noteq> CHR 0x22 \<and> c \<noteq> CHR 0x5C"

lemma cookie_value_safe: "list_all cookie_safe v \<Longrightarrow> cookie_value v = v"
proof -
  assume safe: "list_all cookie_safe v"
  then have "filter (\<lambda>c. CHR 0x20 \<le> c \<and> c < CHR 0x7F \<and> c \<noteq> CHR 0x22 \<and> c \<noteq> CHR '';'' \<and> c \<noteq> CHR 0x5C) v = v"
    by (induction v) (auto simp: cookie_safe_def)
  moreover have "CHR '' '' \<notin> set v" "CHR '','' \<notin> set v" using safe by (auto simp: list_all_iff cookie_safe_def)
  ultimately show ?thesis by (simp add: cookie_value_def)
qed

lemma sign_safe: "list_all cookie_safe (sign hmac secret e)"
proof -
  have hex: "cookie_safe (hex_digit n)" if "n < 16" for n
    using that by (auto simp: hex_digit_def numeral_eq_Suc less_Suc_eq cookie_safe_def)
  have "list_all cookie_safe (hex_byte c)" for c
    using hex [of "of_char c div 16"] hex [of "of_char c mod 16"] by (simp add: hex_byte_def less_mult_imp_div_less)
  then have "list_all cookie_safe (EncodeToString bytes)" for bytes
    by (induction bytes) (simp_all add: EncodeToString_def)
  moreover have "cookie_safe c" if "c \<in> set (digits n)" for c n
    using digits_chars [OF that] by (auto simp: cookie_safe_def less_eq_char_def less_char_def)
  then have "list_all cookie_safe (Itoa e)" by (auto simp: Itoa_def list_all_iff cookie_safe_def)
  ultimately show ?thesis by (simp add: sign_def Let_def cookie_safe_def)
qed

lemma admitted_signed:
  assumes "int64_range e"
  shows "admitted s now (Some (sign (se_hmac s) (se_secret s) e)) \<longleftrightarrow> now \<le> e"
  using assms by (auto simp: admitted_def sign_inj)

text \<open>The routes of the fixed paths.\<close>

lemma static_get:
  assumes "map_of static_routes path = Some (gets op [])" "rq_Method r = ''GET''" "rq_Path r = path" "rq_RawPath r = []"
  shows "routed lb r = Handle op []"
  using static_routed [OF assms(1), of "rq_Method r"] assms(2-4)
  by (simp add: routed_def request_elem_def find_route_def gets_def by_method_def)

lemma static_post:
  assumes "map_of static_routes path = Some (posts op)" "rq_Method r = ''POST''" "rq_Path r = path" "rq_RawPath r = []"
  shows "routed lb r = Handle op []"
  using static_routed [OF assms(1), of "rq_Method r"] assms(2-4)
  by (simp add: routed_def request_elem_def find_route_def posts_def by_method_def)

lemma static_paths:
  "map_of static_routes ''/admin/api/nodes'' = Some (gets NodesGetOperation [])"
  "map_of static_routes ''/admin/api/login'' = Some (posts LoginOperation)"
  "map_of static_routes ''/admin/api/config/mihomo'' = Some (gets ConfigGetOperation [])"
  "map_of static_routes ''/admin/api/config/mihomo/save'' = Some (posts ConfigSaveOperation)"
  by (simp_all add: static_routes_def)

lemma nodes_status:
  assumes "rq_Method r = ''GET''" "rq_Path r = ''/admin/api/nodes''" "rq_RawPath r = []"
  shows "rs_Status (fst (ServeHTTP srv su r st)) =
    (if admitted (dp_session (srv_dp srv)) (now_of su) (rq_Cookie r ''subgen_admin'') then 200 else 401)"
  by (simp add: ServeHTTP_routed static_get [OF static_paths(1) assms] dispatch_def handleNodesGetRequest_def with_session_eq
      reading_def answered_def NodesGet_def encodeNodesGetResponse_def or_internal_def json_response_def)

lemma login_text:
  "cookie_text (IssueCookie hmac secret now) =
    ''subgen_admin='' @ sign hmac secret (now + 12 * 3600) @ ''; Path=/admin; Max-Age=43200; HttpOnly; Secure; SameSite=Lax''"
proof -
  have "cookie_path ''/admin'' = ''/admin''" by code_simp
  moreover have "map char_of [52 :: nat, 51, 50, 48, 48] = ''43200''" by code_simp
  then have "Itoa 43200 = ''43200''" by (simp add: Itoa_def digits.simps)
  ultimately show ?thesis by (simp add: cookie_text_def IssueCookie_def adminTTL_def cookie_value_safe [OF sign_safe])
qed

text \<open>
  C10: Signing in over HTTP: a POST of credentials that decode changes nothing and is answered 200 with a session
  cookie exactly for the configured credentials, otherwise 401 without one; a request that sends the
  value of that cookie back is let through (here the list of nodes, answered 200) for twelve hours and
  refused with a 401 afterwards.
\<close>
theorem http_login_opens_session:
  assumes "rq_Method q = ''POST''" "rq_Path q = ''/admin/api/login''" "rq_RawPath q = []"
    and "decodeLoginRequest (srv_libs srv) q = Some req"
    and "\<forall>v. lb_header (srv_libs srv) v = v" and "int64_range (now_of su + 12 * 3600)"
  shows "\<exists>w. ServeHTTP srv su q st = (w, st) \<and>
    (if cr_User req = cr_User (srv_admin srv) \<and> cr_Password req = cr_Password (srv_admin srv)
     then rs_Status w = 200 \<and> (\<exists>v. map_of (rs_Header w) ''Set-Cookie'' =
         Some (''subgen_admin='' @ v @ ''; Path=/admin; Max-Age=43200; HttpOnly; Secure; SameSite=Lax'') \<and> CHR '';'' \<notin> set v \<and>
       (\<forall>su' r st'. rq_Method r = ''GET'' \<longrightarrow> rq_Path r = ''/admin/api/nodes'' \<longrightarrow> rq_RawPath r = [] \<longrightarrow>
          rq_Cookie r ''subgen_admin'' = Some v \<longrightarrow>
          rs_Status (fst (ServeHTTP srv su' r st')) = (if now_of su' \<le> now_of su + 12 * 3600 then 200 else 401)))
     else rs_Status w = 401 \<and> map_of (rs_Header w) ''Set-Cookie'' = None)"
proof -
  let ?s = "dp_session (srv_dp srv)"
  let ?v = "sign (se_hmac ?s) (se_secret ?s) (now_of su + 12 * 3600)"
  have run: "ServeHTTP srv su q st =
      (or_internal (encodeLoginResponse (srv_libs srv) (Login ?s (srv_admin srv) (now_of su) req)), st)"
    using assms(4) static_post [OF static_paths(2) assms(1-3)]
    by (simp add: ServeHTTP_routed dispatch_def handleLoginRequest_def with_request_def)
  show ?thesis
  proof (cases "cr_User req = cr_User (srv_admin srv) \<and> cr_Password req = cr_Password (srv_admin srv)")
    case False
    then show ?thesis unfolding run
      by (simp add: Login_def or_internal_def encodeLoginResponse_def json_type_def error_message_def json_response_def)
  next
    case True
    let ?w = "or_internal (encodeLoginResponse (srv_libs srv) (Login ?s (srv_admin srv) (now_of su) req))"
    from True have w: "rs_Status ?w = 200" "map_of (rs_Header ?w) ''Set-Cookie'' =
        Some (''subgen_admin='' @ ?v @ ''; Path=/admin; Max-Age=43200; HttpOnly; Secure; SameSite=Lax'')"
      using assms(5) by (simp_all add: Login_def or_internal_def encodeLoginResponse_def json_type_def login_text)
    have "CHR '';'' \<notin> set ?v" using sign_safe [of "se_hmac ?s"] by (auto simp: list_all_iff cookie_safe_def)
    moreover have "rs_Status (fst (ServeHTTP srv su' r st')) = (if now_of su' \<le> now_of su + 12 * 3600 then 200 else 401)"
      if "rq_Method r = ''GET''" "rq_Path r = ''/admin/api/nodes''" "rq_RawPath r = []" "rq_Cookie r ''subgen_admin'' = Some ?v"
      for su' r st'
      by (simp only: nodes_status [OF that(1-3)] that(4) admitted_signed [OF assms(6)])
    ultimately show ?thesis unfolding run if_P [OF True] using w by blast
  qed
qed

section \<open>The configuration form over HTTP\<close>

lemma posted_config:
  assumes "rq_Method q = ''POST''" "rq_Path q = ''/admin/api/config/mihomo/save''" "rq_RawPath q = []"
    and "admitted (dp_session (srv_dp srv)) (now_of su) (rq_Cookie q ''subgen_admin'')"
    and "decodeConfigSaveRequest (srv_libs srv) q = Some req"
  shows "ServeHTTP srv su q st =
    (case ConfigSave (dp_json (srv_dp srv)) (dp_unjson (srv_dp srv)) (dp_yaml (srv_dp srv)) (now_of su) req (pv_db st) of
       (res, db') \<Rightarrow> (answered (encodeConfigSaveResponse (srv_libs srv)) res, st\<lparr>pv_db := db'\<rparr>))"
  using assms(4,5)
  by (simp add: ServeHTTP_routed static_post [OF static_paths(4) assms(1-3)] dispatch_def handleConfigSaveRequest_def
      with_session_eq with_request_def changing_def on_db_def now_of_def split: prod.split)

lemma got_config:
  assumes "rq_Method r = ''GET''" "rq_Path r = ''/admin/api/config/mihomo''" "rq_RawPath r = []"
    and "admitted (dp_session (srv_dp srv)) (now_of su) (rq_Cookie r ''subgen_admin'')"
    and "decodeConfigGetParams (srv_libs srv) r = Some user" "ConfigGet user (pv_db st) = Reply view"
  shows "ServeHTTP srv su r st = (json_response (srv_libs srv) 200 (MihomoConfig_Encode view), st)"
  using assms(4-6)
  by (simp add: ServeHTTP_routed static_get [OF static_paths(3) assms(1-3)] dispatch_def handleConfigGetRequest_def
      with_session_eq with_params_def reading_def answered_def encodeConfigGetResponse_def or_internal_def)

text \<open>
  C8: The configuration form over HTTP: a signed POST of a configuration whose references to inbounds exist is
  answered 200 exactly when the draft passes the validators, its providers have different names and
  the configuration asked for exists (the base always does), otherwise 400; never by a server error.
  After a 200 every signed GET of the same configuration, until something else is changed, is
  answered 200 with one and the same document, which decodes to the saved draft, with the
  rule-providers in name order, the rules moved along, and an explicit false no-resolve dropped.
\<close>
theorem http_config_saved_and_read:
  assumes "store_inv (pv_db st)"
    and "rq_Method q = ''POST''" "rq_Path q = ''/admin/api/config/mihomo/save''" "rq_RawPath q = []"
    and "admitted (dp_session (srv_dp srv)) (now_of su) (rq_Cookie q ''subgen_admin'')"
    and "decodeConfigSaveRequest (srv_libs srv) q = Some req"
    and "bind_err (dp_json (srv_dp srv) req) (DecodeConfig (dp_unjson (srv_dp srv))) = Inr draft"
    and "draft_inbounds_known (pv_db st) draft" and "ServeHTTP srv su q st = (w, st')"
  shows "rs_Status w =
      (if config_error (dp_yaml (srv_dp srv)) draft = None \<and> distinct (map rp_Name (cd_Providers draft)) \<and>
         (asked_user (csr_UserId req) = None \<or> get_scope (asked_user (csr_UserId req)) (pv_db st) \<noteq> None) then 200 else 400) \<and>
    (rs_Status w = 200 \<longrightarrow> (\<exists>view. draftFromDTO view = reread draft \<and>
      (\<forall>su' r. rq_Method r = ''GET'' \<longrightarrow> rq_Path r = ''/admin/api/config/mihomo'' \<longrightarrow> rq_RawPath r = [] \<longrightarrow>
         admitted (dp_session (srv_dp srv)) (now_of su') (rq_Cookie r ''subgen_admin'') \<longrightarrow>
         decodeConfigGetParams (srv_libs srv) r = Some (asked_user (csr_UserId req)) \<longrightarrow>
         ServeHTTP srv su' r st' = (json_response (srv_libs srv) 200 (MihomoConfig_Encode view), st'))))"
proof -
  let ?save = "ConfigSave (dp_json (srv_dp srv)) (dp_unjson (srv_dp srv)) (dp_yaml (srv_dp srv)) (now_of su) req (pv_db st)"
  obtain res db' where save: "?save = (res, db')" by fastforce
  then have run: "w = answered (encodeConfigSaveResponse (srv_libs srv)) res" "st' = st\<lparr>pv_db := db'\<rparr>"
    using posted_config [OF assms(2-6), of st] assms(9) by simp_all
  note answers = config_save_answers [where json = "dp_json (srv_dp srv)" and unjson = "dp_unjson (srv_dp srv)" and req = req
      and yaml = "dp_yaml (srv_dp srv)" and now = "now_of su", OF assms(1,7,8)]
  note rereads = config_get_after_save [where json = "dp_json (srv_dp srv)" and unjson = "dp_unjson (srv_dp srv)" and req = req
      and yaml = "dp_yaml (srv_dp srv)" and now = "now_of su", OF assms(1,7)]
  show ?thesis
  proof (cases res)
    case (Reply msg)
    with save obtain view where view: "ConfigGet (asked_user (csr_UserId req)) (pv_db st') = Reply view" "draftFromDTO view = reread draft"
      using rereads [of msg db'] run(2) by auto
    have "rs_Status w = 200"
      by (simp add: run(1) Reply answered_def or_internal_def encodeConfigSaveResponse_def message_def json_response_def)
    with answers save Reply view got_config [OF _ _ _ _ _ view(1)] show ?thesis
      by (auto split: if_splits)
  next
    case (BadRequest msg)
    then have "rs_Status w = 400"
      by (simp add: run(1) answered_def or_internal_def encodeConfigSaveResponse_def error_message_def json_response_def)
    with answers save BadRequest show ?thesis by (auto split: if_splits)
  qed (use answers save in \<open>auto split: if_splits\<close>)
qed

section \<open>A server and requests to it\<close>

definition demo_libs :: libs where
  "demo_libs =
     \<lparr>lb_canon = \<lambda>_. None, lb_path = Some, lb_cookie = \<lambda>c n. map_option Some (c n), lb_query = \<lambda>_ _. None,
      lb_query_all = \<lambda>_ _. None, lb_int = ParseInt, lb_header = \<lambda>v. v, lb_parse = json_parse, lb_print = print_json\<rparr>"

definition demo_server :: "(unit, configDTO, unit) server" where
  "demo_server =
     \<lparr>srv_dp = demo_deployment, srv_admin = \<lparr>cr_User = ''a'', cr_Password = ''b''\<rparr>, srv_pages = Map.empty,
      srv_publicBase = [], srv_marshal = \<lambda>_. Inr ''y'', srv_quote = id, srv_parse_error = id, srv_libs = demo_libs\<rparr>"

definition demo_around :: surroundings where
  "demo_around = \<lparr>su_env = demo_env, su_client = \<lambda>t. Inr [], su_web = \<lambda>_. NoResponse [], su_mirror = New []\<rparr>"

definition demo_request :: "string \<Rightarrow> string \<Rightarrow> string option \<Rightarrow> string \<Rightarrow> http_request" where
  "demo_request m path cookie body =
     \<lparr>rq_Method = m, rq_Path = path, rq_RawPath = [], rq_RawQuery = [],
      rq_Header = \<lambda>n. if n = ''Content-Type'' then ''application/json'' else [],
      rq_Cookie = \<lambda>n. if n = ''subgen_admin'' then cookie else None, rq_ContentLength = int (length body), rq_Body = Some body\<rparr>"

definition demo_post :: "string \<Rightarrow> jval \<Rightarrow> http_request" where
  "demo_post path v = demo_request ''POST'' path (Some demo_cookie) (print_json v)"

definition demo_delete_body :: jval where "demo_delete_body = VObj [(''userId'', VInt 7)]"

definition demo_user_body :: jval where
  "demo_user_body = VObj [(''name'', VStr ''Zoe''), (''inboundIDs'', VArr [VInt 2])]"

definition demo_login_body :: jval where
  "demo_login_body = VObj [(''user'', VStr ''a''), (''password'', VStr ''b'')]"

definition demo_node_body :: jval where
  "demo_node_body =
     VObj [(''name'', VStr '' de ''), (''vpnHost'', VStr ''vpn.example.org''), (''panelBaseURL'', VStr ''https://p.org:2053''),
       (''panelBasePath'', VStr ''x''), (''token'', VStr ''t''),
       (''inbounds'', VArr [VObj [(''name'', VStr ''main''), (''port'', VInt 443)],
          VObj [(''name'', VStr []), (''port'', VInt 0)],
          VObj [(''name'', VStr ''hy''), (''port'', VInt 8443), (''kind'', VStr ''hysteria2''),
            (''hysteria2'', VObj [(''password'', VStr ''pw'')])]])]"

declare to_utf8.simps [simp del]

lemma json_accepted: "ParseMediaType ''application/json'' = Some ''application/json''" by code_simp

lemma decode_posted:
  assumes "nests max_depth v"
  shows "decode_body demo_libs (demo_request m path cookie (print_json v)) dec validate =
    Option.bind (dec (tree v)) (\<lambda>q. if validate q then Some q else None)"
proof -
  have "print_json v \<noteq> []" using print_first [of v] by auto
  with json_parse_print [OF assms] show ?thesis
    by (simp add: decode_body_def demo_request_def demo_libs_def json_accepted split: option.split bind_split)
qed

lemma to_utf8_ascii: "list_all is_ascii s \<Longrightarrow> to_utf8 s = s" by (rule text_ascii [unfolded text_ok_def])

lemmas decode_simps = demo_post_def decode_posted max_depth_def to_utf8_ascii is_ascii_def jx_simps always_def int64_range_def max_int64_def

lemma demo_decoded:
  "decodeCustomDeleteRequest demo_libs (demo_post path demo_delete_body) = Some 7"
  "decodeUserCreateRequest demo_libs (demo_post path demo_user_body) = Some demo_user_req"
  "decodeLoginRequest demo_libs (demo_request m path cookie (print_json demo_login_body)) = Some (srv_admin demo_server)"
  by (simp_all add: decode_simps decodeCustomDeleteRequest_def CustomDeleteReq_Decode_def id_Decode_def demo_delete_body_def
      decodeUserCreateRequest_def UserCreateReq_Decode_def demo_user_body_def demo_user_req_def
      decodeLoginRequest_def LoginReq_Decode_def demo_login_body_def demo_server_def jx_Arr_def del: print_json.simps)

lemma demo_node_decoded: "decodeNodeSaveRequest demo_libs (demo_post path demo_node_body) = Some demo_node_req"
  by (simp add: decode_simps decodeNodeSaveRequest_def NodeSaveReq_Decode_def InboundItem_Decode_def Hysteria2Item_Decode_def
      demo_node_body_def demo_node_req_def NodeSaveReq_Validate_def InboundItem_Validate_def InboundKind_Validate_def
      no_hysteria2_def jx_Arr_def del: print_json.simps)

lemma posts_routed:
  assumes "map_of static_routes path = Some (posts op)"
  shows "routed demo_libs (demo_post path v) = Handle op []"
  by (rule static_post [OF assms]) (simp_all add: demo_post_def demo_request_def)

lemma call_of_post:
  assumes "map_of static_routes path = Some (posts op)" "carried demo_libs (demo_post path v) op = Some req"
  shows "call_of demo_server (demo_around, demo_post path v) = demo_call req"
  using assms(2)
  by (simp add: call_of_def posts_routed [OF assms(1)] demo_server_def demo_around_def demo_call_def)
     (simp add: demo_post_def demo_request_def)

lemma posted_state:
  assumes "map_of static_routes path = Some (posts op)" "carried demo_libs (demo_post path v) op = Some req"
  shows "snd (ServeHTTP demo_server demo_around (demo_post path v) st) = snd (handle demo_deployment demo_env req st)"
proof -
  have "srv_dp demo_server = demo_deployment" by (simp add: demo_server_def)
  then show ?thesis by (simp only: ServeHTTP_snd call_of_post [OF assms] demo_serve)
qed

lemma posted_step:
  assumes "map_of static_routes path = Some (posts op)" "carried demo_libs (demo_post path v) op = Some req"
    and "snd (handle demo_deployment demo_env req st) = st'"
  shows "http_step demo_server st (demo_around, demo_post path v) st'"
  by (rule answered [where w = "fst (ServeHTTP demo_server demo_around (demo_post path v) st)"])
     (use demo_env_ok posted_state [OF assms(1,2), of st] assms(3) in \<open>simp_all add: demo_server_def demo_around_def prod_eq_iff\<close>)

definition demo_requests :: "(surroundings \<times> http_request) list" where
  "demo_requests =
     [(demo_around, demo_post ''/admin/api/nodes/save'' demo_node_body),
      (demo_around, demo_post ''/admin/api/users/create'' demo_user_body)]"

lemma demo_posts:
  "map_of static_routes ''/admin/api/nodes/save'' = Some (posts NodeSaveOperation)"
  "map_of static_routes ''/admin/api/users/create'' = Some (posts UserCreateOperation)"
  "map_of static_routes ''/admin/api/config/mihomo/custom/delete'' = Some (posts CustomDeleteOperation)"
  by (simp_all add: static_routes_def)

lemma demo_carried:
  "carried demo_libs (demo_post path demo_node_body) NodeSaveOperation = Some (SaveNode demo_node_req)"
  "carried demo_libs (demo_post path demo_user_body) UserCreateOperation = Some (NewUser demo_user_req)"
  "carried demo_libs (demo_post path demo_delete_body) CustomDeleteOperation = Some (RemoveCustom 7)"
  by (simp_all add: carried_def demo_decoded demo_node_decoded)

lemma demo_http_run:
  "\<exists>calls. runs (http_step demo_server) fresh_start demo_requests \<lparr>pv_db = demo_db2, pv_calls = calls\<rparr>"
proof -
  obtain calls where "snd (handle demo_deployment demo_env (NewUser demo_user_req) \<lparr>pv_db = demo_db1, pv_calls = []\<rparr>) =
      \<lparr>pv_db = demo_db2, pv_calls = calls\<rparr>"
    using demo_user_created by blast
  then have "runs (http_step demo_server) fresh_start demo_requests \<lparr>pv_db = demo_db2, pv_calls = calls\<rparr>"
    unfolding demo_requests_def
    by - (rule run_more, rule posted_step [OF demo_posts(1) demo_carried(1) demo_node_saved],
        rule run_more, rule posted_step [OF demo_posts(2) demo_carried(2)], assumption, rule run_none)
  then show ?thesis by blast
qed

section \<open>Witnesses\<close>

abbreviation demo_refused :: http_request where
  "demo_refused \<equiv> demo_post ''/admin/api/config/mihomo/custom/delete'' demo_delete_body"

lemma demo_refused_routed: "routed (srv_libs demo_server) demo_refused = Handle CustomDeleteOperation []"
  using posts_routed [OF demo_posts(3)] by (simp add: demo_server_def)

lemma demo_refused_called:
  "respond (srv_libs demo_server) (fst (serve (srv_dp demo_server) (call_of demo_server (demo_around, demo_refused)) fresh_start)) =
    error_message demo_libs 400 ''The user has no custom config''"
  unfolding call_of_post [OF demo_posts(3) demo_carried(3)] using demo_refusal by (simp add: demo_server_def)

lemma demo_refused_answer:
  "fst (ServeHTTP demo_server demo_around demo_refused fresh_start) =
    error_message demo_libs 400 ''The user has no custom config''"
  unfolding demo_refused_called [symmetric] ServeHTTP_routed demo_refused_routed route.case
  by (rule dispatch_responds) (simp add: changing_ops_def, simp add: call_of_def demo_refused_routed)

theorem server_refines_api_witness:
  "fst (ServeHTTP demo_server demo_around demo_refused fresh_start) =
    error_message demo_libs 400 ''The user has no custom config''"
  using server_refines_api [of demo_server demo_around demo_refused fresh_start] demo_refused_routed
  unfolding demo_refused_called [symmetric] by (simp add: changing_ops_def)


theorem refusals_leave_no_trace_witness:
  "rs_Status (fst (ServeHTTP demo_server demo_around demo_refused fresh_start)) = 400 \<and>
   pv_db (snd (ServeHTTP demo_server demo_around demo_refused fresh_start)) \<in>
     {empty_db, snd (EnsureBaseConfigID ''mihomo'' 9 empty_db)}"
proof -
  have "rs_Status (fst (ServeHTTP demo_server demo_around demo_refused fresh_start)) = 400"
    unfolding demo_refused_answer by (simp add: error_message_def json_response_def)
  then show ?thesis
    using refusals_leave_no_trace [OF _ surjective_pairing, of fresh_start demo_server demo_around demo_refused]
    by (simp add: fresh_start_def store_inv_empty demo_around_def demo_env_def)
qed

theorem http_login_opens_session_witness:
  "rs_Status (fst (ServeHTTP demo_server demo_around
     (demo_request ''POST'' ''/admin/api/login'' None (print_json demo_login_body)) fresh_start)) = 200"
proof -
  let ?q = "demo_request ''POST'' ''/admin/api/login'' None (print_json demo_login_body)"
  have "\<forall>v. lb_header (srv_libs demo_server) v = v" "int64_range (now_of demo_around + 12 * 3600)"
    "decodeLoginRequest (srv_libs demo_server) ?q = Some (srv_admin demo_server)"
    using demo_decoded(3)
    by (simp_all add: demo_server_def demo_libs_def now_of_def demo_around_def demo_env_def int64_range_def max_int64_def)
  with http_login_opens_session [of ?q demo_server "srv_admin demo_server" demo_around fresh_start] show ?thesis
    by (auto simp: demo_request_def)
qed

theorem http_subscription_served_witness:
  "\<exists>st w. runs (http_step demo_server) fresh_start demo_requests st \<and>
     ServeHTTP demo_server demo_around
       (demo_request ''GET'' (''/sub/mihomo/'' @ Make demo_mac ''k'' (replicate 16 (CHR ''3''))) None []) st = (w, st) \<and>
     rs_Status w = 200 \<and> rs_Body w = ''y''"
proof -
  let ?q = "demo_request ''GET'' (''/sub/mihomo/'' @ Make demo_mac ''k'' (ur_sub demo_user)) None []"
  obtain calls where run: "runs (http_step demo_server) fresh_start demo_requests \<lparr>pv_db = demo_db2, pv_calls = calls\<rparr>"
    using demo_http_run by blast
  let ?st = "\<lparr>pv_db = demo_db2, pv_calls = calls\<rparr>"
  have user: "db_users (pv_db ?st) = [demo_user]" by (simp add: demo_db2_def)
  obtain fl where fl: "fleet_of demo_server demo_around (pv_db ?st) = Inr fl"
    by (cases "ListNodes (dp_dec demo_deployment) demo_db2")
       (auto simp: fleet_of_def live_fleet_def fetch_Inr_iff demo_server_def demo_around_def)
  have len: "\<forall>m. length (demo_mac ''k'' m) = 32" by (auto simp: demo_mac_def)
  have only: "\<forall>q \<in> set (db_users (pv_db ?st)). Make demo_mac ''k'' (ur_sub q) = Make demo_mac ''k'' (ur_sub demo_user) \<longrightarrow>
      ur_sub q = ur_sub demo_user" unfolding user by simp
  have server: "dp_session (srv_dp demo_server) = \<lparr>se_hmac = demo_mac, se_secret = ''k''\<rparr>"
    "\<forall>doc. \<exists>body. srv_marshal demo_server doc = Inr body" "srv_marshal demo_server doc = Inr body \<Longrightarrow> body = ''y''"
    "\<forall>v \<in> {''mihomo'', Make demo_mac ''k'' (ur_sub demo_user)}. lb_path (srv_libs demo_server) v = Some v" for doc body
    by (simp_all add: demo_server_def demo_deployment_def demo_libs_def)
  have request: "rq_Method ?q = ''GET''" "rq_Path ?q = ''/sub/mihomo/'' @ Make demo_mac ''k'' (ur_sub demo_user)" "rq_RawPath ?q = []"
    by (simp_all add: demo_request_def)
  have "demo_user \<in> set (db_users (pv_db ?st))" unfolding user by simp
  from http_subscription_served [OF run this len server(1) only fl server(2) request server(4)]
  have "\<exists>w. ServeHTTP demo_server demo_around ?q ?st = (w, ?st) \<and> rs_Status w = 200 \<and> rs_Body w = ''y''"
    using server(3) by blast
  with run show ?thesis by (auto simp: demo_user_def)
qed

lemma demo_config_decoded: "decodeConfigSaveRequest demo_libs (demo_post path (ConfigSaveReq_Encode demo_config_req)) = Some demo_config_req"
proof -
  let ?v = "ConfigSaveReq_Encode demo_config_req"
  have "nests max_depth ?v"
    by (simp add: ConfigSaveReq_Encode_def MihomoConfig_fields_def MihomoGroup_Encode_def MihomoProvider_Encode_def PolicyRef_Encode_def
        demo_config_req_def opt_field_def max_depth_def)
  moreover have "config_wire_ok (csr_Config demo_config_req)"
    by (simp add: demo_config_req_def config_wire_ok_def group_wire_ok_def provider_wire_ok_def ref_wire_ok_def text_ascii is_ascii_def
        int64_range_def max_int64_def)
  moreover have "pred_option int64_range (csr_UserId demo_config_req)" by (simp add: demo_config_req_def)
  ultimately show ?thesis
    using config_reads(1) [OF reads_tree, of demo_config_req]
    by (simp add: decodeConfigSaveRequest_def demo_post_def decode_posted always_def)
qed

theorem http_config_saved_and_read_witness:
  "\<exists>st' view. snd (ServeHTTP demo_server demo_around (demo_post ''/admin/api/config/mihomo/save'' (ConfigSaveReq_Encode demo_config_req))
       \<lparr>pv_db = demo_db1, pv_calls = []\<rparr>) = st' \<and>
     fst (ServeHTTP demo_server demo_around (demo_request ''GET'' ''/admin/api/config/mihomo'' (Some demo_cookie) []) st') =
       json_response demo_libs 200 (MihomoConfig_Encode view) \<and> draftFromDTO view = demo_draft"
proof -
  let ?q = "demo_post ''/admin/api/config/mihomo/save'' (ConfigSaveReq_Encode demo_config_req)"
  let ?st = "\<lparr>pv_db = demo_db1, pv_calls = []\<rparr>" and ?r = "demo_request ''GET'' ''/admin/api/config/mihomo'' (Some demo_cookie) []"
  have admin: "admitted (dp_session (srv_dp demo_server)) (now_of demo_around) (Some demo_cookie)"
    using demo_admitted by (simp add: demo_server_def now_of_def demo_around_def demo_env_def)
  have draft: "bind_err (dp_json (srv_dp demo_server) demo_config_req) (DecodeConfig (dp_unjson (srv_dp demo_server))) = Inr demo_draft"
    using demo_draft by (simp add: demo_server_def demo_deployment_def)
  have libs: "decodeConfigSaveRequest (srv_libs demo_server) ?q = Some demo_config_req" "srv_libs demo_server = demo_libs"
    "dp_yaml (srv_dp demo_server) = demo_yaml"
    using demo_config_decoded by (simp_all add: demo_server_def demo_deployment_def)
  have same: "reread demo_draft = demo_draft" by code_simp
  obtain w st' where run: "ServeHTTP demo_server demo_around ?q ?st = (w, st')" by fastforce
  have "rq_Cookie ?q ''subgen_admin'' = Some demo_cookie" "rq_Cookie ?r ''subgen_admin'' = Some demo_cookie"
    "decodeConfigGetParams demo_libs ?r = Some None"
    by (simp_all add: demo_post_def demo_request_def decodeConfigGetParams_def opt_param_def demo_libs_def)
  with http_config_saved_and_read [of ?st ?q demo_server demo_around demo_config_req demo_draft w st']
  show ?thesis
    using demo_db1_inv demo_draft_known demo_draft_valid demo_scope admin draft libs run
    by (simp add: same) (auto simp: demo_post_def demo_request_def)
qed

end
