(* ===== verification/Spec2Isabelle.thy ===== *)
theory Spec2Isabelle
  imports ProvisioningRecreate ApiProperties ConfigApi WireFleet RulesetFacts CertReload Migrations Subctl OasServerProperties
begin

text \<open>
  Verification library of subgen, a service that hands out mihomo (Clash.Meta) configurations to
  subscribers and administers them.

  \<^bold>\<open>The program and its parts.\<close> An operator registers nodes (a 3x-ui panel each, with its inbounds), users
  and mihomo configurations through an HTTP API behind a signed session cookie. All of it is stored in
  SQLite. A device asks for \<open>/sub/mihomo/<token>\<close>: the token selects the user, the panels tell what the user
  may use, the user's own configuration or else the base one is rendered with these proxies, and the
  document and its headers are returned. Provisioning keeps the clients on the panels in step with the
  connections in the database; a mirror serves copies of the rule-set files the documents refer to.

  \<^bold>\<open>Which theory models what\<close> (paths under \<open>src/\<close>; a definition has the name of the Go function or type it
  translates, a record or datatype has the fields of the struct):

  \<^item> the standard library: \<open>GoStrings\<close>, \<open>GoText\<close>, \<open>GoNet\<close>, \<open>GoUtf8\<close> (strings as byte lists, decimal numbers,
    addresses, URLs, UTF-8), \<open>GoMime\<close> (media types, the text of cookies) and \<open>GoJson\<close> with \<open>GoJsonFacts\<close> (\<open>encoding/json\<close>: grammar, escapes, decoding into
    Go values, and that what is printed is read back);
  \<^item> \<open>internal/entity\<close>: \<open>Entity\<close>, the types shared by all components;
  \<^item> \<open>internal/mihomo\<close>: \<open>MihomoTypes\<close> (kinds and registries), \<open>MihomoDraft\<close> and \<open>MihomoDecode\<close> (the form's payload),
    \<open>GroupCycle\<close> and \<open>MihomoValidate\<close> (the validators, with the depth-first search for cyclic groups),
    \<open>MihomoRender\<close> (\<open>internal/mihomo/render\<close>);
  \<^item> \<open>internal/repository\<close>: \<open>Store\<close> is the database, a record of tables with the constraints of the schema and
    transactions; \<open>RoutingRepo\<close> and \<open>RoutingClone\<close> (\<open>routing\<close>), \<open>ConfigsRepo\<close> (\<open>configs\<close>), \<open>UsersRepo\<close> (\<open>users\<close>),
    \<open>NodesRepo\<close> (\<open>nodes\<close>) are the repositories; \<open>Migrations\<close> is \<open>migrations/run.go\<close>;
  \<^item> \<open>internal/service\<close>: \<open>Fleet\<close>, \<open>Provisioning\<close>, \<open>NodesService\<close>, \<open>Ruleset\<close> (mirror and checker), and \<open>Delivery\<close>
    (\<open>sublinks\<close>, with \<open>internal/token\<close> and \<open>handlers/sub\<close>);
  \<^item> \<open>internal/clients/xui\<close>: \<open>XuiClient\<close>; \<open>WireFleet\<close> runs the fleet service over it;
  \<^item> \<open>internal/handlers\<close> and \<open>internal/oas\<close>: \<open>AdminSession\<close>, \<open>AdminConfig\<close>, \<open>AdminNodes\<close>, \<open>AdminUsers\<close>, and \<open>AdminApi\<close>,
    the state-changing operations behind the session check as one step relation; of the code ogen
    generated \<open>OasRouter\<close> is the router, \<open>OasJson\<close> the JSON decoders, validators and encoders,
    \<open>OasHttp\<close> the requests, parameters and responses, \<open>OasServer\<close> the handlers and \<open>ServeHTTP\<close>, so the whole
    service from an HTTP request to its response, and \<open>ConfigWire\<close> a configuration on its way through;
  \<^item> \<open>internal/config\<close>: \<open>EnvConfig\<close>; \<open>internal/cert\<close>: \<open>CertReload\<close>; \<open>cmd/subctl\<close>: \<open>Subctl\<close>.

  \<^bold>\<open>How the model relates to the code.\<close> An operation that changes the database is a function from the database
  to a result and a database; an error is a value (\<open>Inl\<close>, or \<open>Some\<close> for functions that return only an error),
  every early return is a branch, and a failed transaction returns the database it began with (\<open>in_tx\<close>).
  An operation that calls panels also returns the history of calls, in order. String enumerations stay
  strings, since the code accepts any; identifiers, ports and times are integers; traffic counters are
  64-bit words that wrap. A loop over a Go map takes the order as an argument, any permutation of the
  keys (\<open>map_order\<close>). Code outside the repository is an argument of what uses it: HMAC-SHA256, the YAML
  parser and printer, the verb q of \<open>fmt\<close>, the codec of stored credentials, panels and network, the
  clock, random bytes, the assets and files on disk, \<open>uuid.Parse\<close>, \<open>env.Parse\<close>, and what a migration script
  does. What is needed of one is a hypothesis of the property that needs it, with a witness.

  \<^bold>\<open>Invariants.\<close> \<open>store_inv\<close> (keys unique, references present, references of a configuration inside it) holds
  in every database the repositories reach from the empty one (\<open>AdminRuns\<close>); \<open>configs_coherent\<close> (what the renderer
  needs of every stored configuration), \<open>registry_valid\<close> (nodes and inbounds passed validation) and the
  others that make up \<open>api_inv\<close> hold in every state the API reaches (\<open>AdminApiFacts\<close>, \<open>ApiProperties\<close>).

  \<^bold>\<open>Groups of lemmas.\<close> Validation decides a declarative specification (\<open>MihomoValidate\<close>, \<open>GroupCycle\<close>); saving and
  reading are inverse and local (\<open>RoutingSaveFacts\<close>, \<open>RoutingRoundTrip\<close>, \<open>RoutingLocal\<close>, \<open>RoutingProperties\<close>),
  and a validated draft always saves (\<open>RoutingSaveProgress\<close>, \<open>RoutingSaveTotal\<close>); a copy equals its source up
  to renaming (\<open>RoutingCloneFacts\<close>, \<open>RoutingCloneReads\<close>), always succeeds (\<open>ConfigsProgress\<close>) and deleting removes
  exactly one configuration (\<open>ConfigsAnchors\<close>, \<open>ConfigsDelete\<close>, \<open>ConfigsProperties\<close>); rendered documents are closed
  (\<open>RenderFacts\<close>) and what is saved is served (\<open>PipelineFacts\<close>, \<open>DeliveryProperties\<close>, this
  theory); users refine a map (\<open>UsersFacts\<close>, \<open>UsersProperties\<close>); nodes read back (\<open>NodesProperties\<close>,
  \<open>NodesServiceFacts\<close>); subscribers are exactly their grants (\<open>FleetProperties\<close>); which panel calls are made and
  what panels host after them (the \<open>Provisioning\<close> theories); refused requests change nothing and reachable
  states are good (\<open>ApiErrors\<close>, \<open>ApiProperties\<close>, \<open>ConfigApi\<close>, \<open>ConfigView\<close>); mirror, probe and
  certificates (\<open>RulesetFacts\<close>, \<open>CertReload\<close>), panel answers (\<open>XuiFacts\<close>), migrations that resume; the
  router (\<open>OasRouterFacts\<close>) and the HTTP server (\<open>OasServerFacts\<close>, \<open>OasServerProperties\<close>), which refines the API.

  \<^bold>\<open>Interfaces.\<close> \<open>autoinc\<close> is what a table with an autoincrement key promises, interpreted on every table;
  \<open>subscriber_store\<close> is the contract of the user repository as its clients see it; \<open>safe_system\<close> is a step
  relation with an invariant, interpreted on the repositories, on the API and on the HTTP server;
  \<open>step_refinement\<close> is a step relation that refines another, interpreted on the HTTP server over the API.

  \<^bold>\<open>Bounds and termination.\<close> Every function is total. Rules nest through references to parent rows: the read
  recurses at most as often as there are rows (\<open>freeze\<close>), enough since the invariant makes parents acyclic;
  cascades of a deletion are bounded the same way. The search for cycles terminates because each step
  colours a group. JSON nests at most 10000 deep, as in Go; its parser consumes at least one byte a step.

  \<^bold>\<open>Not modelled.\<close> Of the code ogen generated the client, telemetry and the accessors of the types; the
  functions of ogen and the tokenizer and printer of \<open>jx\<close>, on which the server rests, are arguments (the
  record \<open>libs\<close>); flags, signals, listening and the multiplexer in front of the server in \<open>cmd/service\<close>;
  static files and the browser's code; logging; tests and mocks. The text of the SQL scripts is read as the set of constraints
  in \<open>Store\<close>. Concurrency between requests is not modelled within a transaction: the database is opened
  with one connection, so transactions do not interleave.
\<close>

section \<open>Properties that span components\<close>

lemma saved_renders:
  assumes "SaveMihomoConfig cfg draft db = (Inr (), db')"
    and "ValidateProxyGroups (cd_Groups draft) = None"
    and "ValidateRoutingRules (cd_Rules draft) (length (cd_Groups draft)) (length (cd_Providers draft)) = None"
    and "unmarshal (cd_BaseYAML draft) = Inr m"
    and "\<forall>p \<in> set (sb_Proxies sub). proxy_wf p"
  shows "\<exists>rules doc. Rules cfg db' = Some rules \<and>
    render_document unmarshal sub (stored_options cfg db' rules publicBase) = Inr (doc, [])"
proof -
  obtain gids pids where rb: "reads_back cfg draft gids pids db'"
    using save_tx_reads_back [of cfg draft db "()" db'] assms(1) by (auto simp: SaveMihomoConfig_Inr)
  then obtain rules where rules: "Rules cfg db' = Some rules" by (auto simp: reads_back_def)
  let ?opts = "stored_options cfg db' rules publicBase"
  have "op_BaseYAML ?opts = cd_BaseYAML draft" using rb by (simp add: stored_options_def reads_back_def)
  moreover have "\<forall>g \<in> set (op_Groups ?opts). \<forall>m \<in> set (pg_Members g). ref_coherent (op_Groups ?opts) m"
    and "\<forall>r \<in> set (op_Rules ?opts). rule_coherent (op_Groups ?opts) (op_Providers ?opts) r"
    using reads_back_coherent [OF rb rules] assms(2,3)
    by (simp_all add: stored_options_def groups_ok_iff rules_ok_iff)
  ultimately show ?thesis
    using rules assms(4,5) render_coherent [of ?opts unmarshal sub] by auto
qed

lemma save_keeps_tables:
  assumes "SaveMihomoConfig cfg draft db = (Inr (), db')"
  shows "db_configs db' = db_configs db \<and> db_users db' = db_users db \<and> db_nodes db' = db_nodes db \<and>
    db_inbounds db' = db_inbounds db \<and> db_conns db' = db_conns db"
proof -
  from assms have "save_tx cfg draft db = Inr ((), db')" by (simp add: SaveMihomoConfig_Inr)
  then show ?thesis by (rule save_txE) (auto simp: wrote_def dest: save_delete_Inr)
qed

lemma save_keeps_reads:
  assumes "SaveMihomoConfig cfg draft db = (Inr (), db')"
  shows "configID i kind db' = configID i kind db" "live_fleet dec client db' = live_fleet dec client db"
proof -
  note same = save_keeps_tables [OF assms]
  have "UserConfigID i kind db' = UserConfigID i kind db" "BaseConfigID kind db' = BaseConfigID kind db"
    using same by (simp_all add: UserConfigID_def BaseConfigID_def)
  then show "configID i kind db' = configID i kind db" by (simp only: configID_def)
  show "live_fleet dec client db' = live_fleet dec client db"
    using same by (simp add: live_fleet_def ListNodes_def InboundSubscribers_def)
qed

text \<open>
  C2: From the admin form to the subscriber's device: after a draft that passed the validators was
  saved as a user's effective configuration, a request with the user's token answers with the document
  rendered from exactly that configuration and the user's live subscriber, logging no error, and with
  the draft's profile in the headers, provided its base YAML parses, the document can be printed, not
  every panel is down and tokens of different users differ.
\<close>
theorem saved_config_delivered:
  assumes "SaveMihomoConfig cfg draft db = (Inr (), db')" and "store_inv db"
    and "ValidateProxyGroups (cd_Groups draft) = None"
    and "ValidateRoutingRules (cd_Rules draft) (length (cd_Groups draft)) (length (cd_Providers draft)) = None"
    and "unmarshal (cd_BaseYAML draft) = Inr m" and "\<forall>doc. \<exists>body. marshal doc = Inr body"
    and "r \<in> set (db_users db)" and "ur_sub r \<noteq> []" and "configID (ur_id r) ''mihomo'' db = cfg"
    and "\<forall>m. length (hmac secret m) = 32"
    and "\<forall>q \<in> set (db_users db). Make hmac secret (ur_sub q) = Make hmac secret (ur_sub r) \<longrightarrow> ur_sub q = ur_sub r"
    and "live_fleet dec client db = Inr fl"
  shows "\<exists>rules doc body h. Rules cfg db' = Some rules \<and>
    render_document unmarshal (served_subscriber fl (ur_sub r)) (stored_options cfg db' rules publicBase) = Inr (doc, []) \<and>
    marshal doc = Inr body \<and>
    Sub hmac quote (engines unmarshal marshal publicBase) secret (live_fleet dec client db') ''mihomo''
      (Make hmac secret (ur_sub r)) db' = Inr (SubOK h) \<and> sh_Response h = body \<and>
    sh_ProfileTitle h = ''base64:'' @ Base64 (pf_Title (cd_Profile draft))"
proof -
  let ?sub = "served_subscriber fl (ur_sub r)"
  note same = save_keeps_tables [OF assms(1)] and reads = save_keeps_reads [OF assms(1)]
  have inv: "store_inv db'" using SaveMihomoConfig_inv [OF assms(2), of cfg draft] assms(1) by simp
  obtain rules doc where rules: "Rules cfg db' = Some rules"
    and doc: "render_document unmarshal ?sub (stored_options cfg db' rules publicBase) = Inr (doc, [])"
    using saved_renders [where unmarshal = unmarshal and sub = ?sub and publicBase = publicBase,
        OF assms(1,3-5) served_proxies_wf [OF assms(12)]] by blast
  obtain body where body: "marshal doc = Inr body" using assms(6) by blast
  obtain gids pids where "reads_back cfg draft gids pids db'"
    using save_tx_reads_back [of cfg draft db "()" db'] assms(1) by (auto simp: SaveMihomoConfig_Inr)
  then have "Profile_of cfg db' = cd_Profile draft" by (simp add: reads_back_def)
  with rendered_delivered [where db = db' and r = r and hmac = hmac and secret = secret and cfg = cfg and
      unmarshal = unmarshal and marshal = marshal, OF inv _ assms(8,10) _ _ rules doc body]
    same assms(7,9,11,12) rules doc body
  show ?thesis by (auto simp: reads)
qed

theorem saved_config_delivered_witness:
  "\<exists>db' h. SaveMihomoConfig 1 sample_draft sample_db = (Inr (), db') \<and>
     Sub demo_mac id (engines sample_unmarshal (\<lambda>doc. Inr ''y'') []) ''k'' (live_fleet password_dec (\<lambda>t. Inr []) db') ''mihomo''
       (Make demo_mac ''k'' ''t'') db' = Inr (SubOK h) \<and> sh_Response h = ''y''"
proof -
  obtain db' where saved: "SaveMihomoConfig 1 sample_draft sample_db = (Inr (), db')"
    using sample_saved by blast
  let ?r = "\<lparr>ur_id = 6, ur_name = ''bob'', ur_sub = ''t'', ur_description = None, ur_created = 0\<rparr>"
  have base: "sample_unmarshal (cd_BaseYAML sample_draft) = Inr [(''mode'', YStr ''rule''), (''rules'', YSeq [])]"
    by (simp add: sample_unmarshal_def)
  have prints: "\<forall>doc. \<exists>body. (\<lambda>doc. Inr ''y'' :: unit + string) doc = Inr body" by simp
  have r: "?r \<in> set (db_users sample_db)" "ur_sub ?r \<noteq> []" by (simp_all add: sample_db_def)
  have cfg: "configID (ur_id ?r) ''mihomo'' sample_db = 1"
    by (simp add: configID_def UserConfigID_def BaseConfigID_def sample_db_def)
  have len: "\<forall>m. length (demo_mac ''k'' m) = 32" by (auto simp: demo_mac_def)
  have "Make demo_mac ''k'' ''s'' \<noteq> Make demo_mac ''k'' ''t''" by code_simp
  then have only: "\<forall>q \<in> set (db_users sample_db). Make demo_mac ''k'' (ur_sub q) = Make demo_mac ''k'' (ur_sub ?r) \<longrightarrow>
      ur_sub q = ur_sub ?r"
    by (auto simp: sample_db_def)
  obtain fl where fl: "live_fleet password_dec (\<lambda>t. Inr []) sample_db = Inr fl"
    by (simp add: live_fleet_def fetch_Inr_iff) (simp add: ListNodes_def sample_db_def)
  from saved_config_delivered [where r = ?r and unmarshal = sample_unmarshal and publicBase = "[]" and quote = id,
      OF saved sample_store_inv sample_groups_valid sample_rules_valid base prints r cfg len only fl]
  obtain h where "Sub demo_mac id (engines sample_unmarshal (\<lambda>doc. Inr ''y'') []) ''k''
      (live_fleet password_dec (\<lambda>t. Inr []) db') ''mihomo'' (Make demo_mac ''k'' (ur_sub ?r)) db' = Inr (SubOK h)"
    "sh_Response h = ''y''" by auto
  with saved show ?thesis by auto
qed

text \<open>
  From the admin form to the subscription: a configuration that passed the validators and was
  saved is read back and rendered for every well-formed subscriber without a single logged error,
  provided its base YAML parses; whatever the subscriber lacks is dropped silently.
\<close>
theorem validated_saved_config_renders:
  assumes "SaveMihomoConfig cfg draft db = (Inr (), db')"
    and "ValidateProxyGroups (cd_Groups draft) = None"
    and "ValidateRoutingRules (cd_Rules draft) (length (cd_Groups draft)) (length (cd_Providers draft)) = None"
    and "unmarshal (cd_BaseYAML draft) = Inr m"
    and "\<forall>p \<in> set (sb_Proxies sub). proxy_wf p"
  shows "\<exists>rules doc. Rules cfg db' = Some rules \<and>
    render_document unmarshal sub (stored_options cfg db' rules publicBase) = Inr (doc, [])"
  using assms by (rule saved_renders)

theorem validated_saved_config_renders_witness:
  "\<exists>db' rules doc. SaveMihomoConfig 1 sample_draft sample_db = (Inr (), db') \<and>
     Rules 1 db' = Some rules \<and>
     render_document sample_unmarshal sample_sub (stored_options 1 db' rules []) = Inr (doc, [])"
proof -
  obtain db' where saved: "SaveMihomoConfig 1 sample_draft sample_db = (Inr (), db')"
    using sample_saved by blast
  from validated_saved_config_renders [OF saved sample_groups_valid sample_rules_valid _ sample_coherent(1),
      of sample_unmarshal _ "[]"] saved show ?thesis
    by (auto simp: sample_unmarshal_def)
qed

end
